(* ===== verification/Rust_Prelude.thy ===== *)
theory Rust_Prelude
  imports Main "HOL-Library.Sublist" "HOL-Library.Char_ord" "HOL-Library.List_Lexorder"
begin

text \<open>
  Shared vocabulary of the development: Rust strings, fallible results and the list
  lemmas that every component uses.

  A Rust \<open>String\<close> or \<open>&str\<close> is its sequence of UTF-8 bytes, a HOL \<open>string\<close>
  (one \<open>char\<close> is one byte), so that \<open>len\<close>, \<open>starts_with\<close>, \<open>contains\<close>,
  \<open>find\<close> and the comparison operators are the list operations on bytes.  Where the
  source iterates over \<open>chars()\<close> the bytes are first grouped by \<open>utf8_chars\<close>.
  A fallible function returns \<open>string + 'a\<close>, the left summand being the message of the
  \<open>anyhow\<close> error.
\<close>

named_theorems check_simps \<open>when a validation check passes\<close>
named_theorems str_simps \<open>string operations of the source\<close>

subsection \<open>Results\<close>

type_synonym 'a rresult = "string + 'a"

definition rbind :: "'e + 'a \<Rightarrow> ('a \<Rightarrow> 'e + 'b) \<Rightarrow> 'e + 'b" where
  "rbind r f = (case r of Inl e \<Rightarrow> Inl e | Inr x \<Rightarrow> f x)"

text \<open>For evaluation: a failing step ends the evaluation.\<close>

declare rbind_def [code_unfold]

definition bail_if :: "bool \<Rightarrow> string \<Rightarrow> unit rresult" where
  "bail_if c msg = (if c then Inl msg else Inr ())"

definition with_context :: "string \<Rightarrow> 'a option \<Rightarrow> 'a rresult" where
  "with_context msg r = (case r of None \<Rightarrow> Inl msg | Some x \<Rightarrow> Inr x)"

fun first_err :: "('e + unit) list \<Rightarrow> 'e + unit" where
  "first_err [] = Inr ()"
| "first_err (Inl e # rs) = Inl e"
| "first_err (Inr u # rs) = first_err rs"

fun map_result :: "('a \<Rightarrow> 'e + 'b) \<Rightarrow> 'a list \<Rightarrow> 'e + 'b list" where
  "map_result f [] = Inr []"
| "map_result f (x # xs) =
     (case f x of Inl e \<Rightarrow> Inl e
      | Inr y \<Rightarrow> (case map_result f xs of Inl e \<Rightarrow> Inl e | Inr ys \<Rightarrow> Inr (y # ys)))"

lemma rbind_Inl [simp]: "rbind (Inl e) f = Inl e"
  by (simp add: rbind_def)

lemma rbind_Inr [simp]: "rbind (Inr x) f = f x"
  by (simp add: rbind_def)

lemma rbind_eq_Inr [check_simps]: "rbind r f = Inr y \<longleftrightarrow> (\<exists>x. r = Inr x \<and> f x = Inr y)"
  by (cases r) auto

lemma bail_if_ok [check_simps]: "bail_if c m = Inr u \<longleftrightarrow> \<not> c"
  by (simp add: bail_if_def)

lemma with_context_ok [check_simps]: "with_context m r = Inr x \<longleftrightarrow> r = Some x"
  by (cases r) (auto simp: with_context_def)

lemma first_err_Cons_ok [check_simps]:
  "first_err (r # rs) = Inr u \<longleftrightarrow> r = Inr () \<and> first_err rs = Inr ()"
  by (cases r) auto

lemma first_err_Nil_ok [check_simps]: "first_err [] = Inr u \<longleftrightarrow> True"
  by simp

lemma first_err_append_ok [check_simps]:
  "first_err (rs @ qs) = Inr u \<longleftrightarrow> first_err rs = Inr () \<and> first_err qs = Inr ()"
  by (induction rs) (auto simp: check_simps)

lemma first_err_ok_iff: "first_err rs = Inr u \<longleftrightarrow> (\<forall>r \<in> set rs. r = Inr ())"
  by (induction rs) (auto simp: check_simps)

lemma first_err_map_ok [check_simps]:
  "first_err (map f xs) = Inr u \<longleftrightarrow> (\<forall>x \<in> set xs. f x = Inr ())"
  by (auto simp: first_err_ok_iff)

lemma map_result_ok:
  "map_result f xs = Inr ys \<longleftrightarrow> list_all2 (\<lambda>x y. f x = Inr y) xs ys"
proof (induction xs arbitrary: ys)
  case Nil
  then show ?case by auto
next
  case (Cons x xs)
  then show ?case
    by (cases "f x"; cases "map_result f xs") (auto simp: list_all2_Cons1 Cons.IH [symmetric])
qed

lemma map_result_mem:
  "map_result f xs = Inr ys \<Longrightarrow> x \<in> set xs \<Longrightarrow> \<exists>y \<in> set ys. f x = Inr y"
  by (induction xs arbitrary: ys) (auto split: sum.splits)

lemma map_result_length: "map_result f xs = Inr ys \<Longrightarrow> length ys = length xs"
  by (simp add: map_result_ok list_all2_lengthD)

lemma map_result_cong [fundef_cong]:
  "xs = ys \<Longrightarrow> (\<And>x. x \<in> set ys \<Longrightarrow> f x = g x) \<Longrightarrow> map_result f xs = map_result g ys"
  by (induction xs arbitrary: ys) (auto split: sum.splits)

subsection \<open>Computations over a state\<close>

type_synonym ('s, 'a) act = "'s \<Rightarrow> 'a rresult \<times> 's"

definition act_return :: "'a \<Rightarrow> ('s, 'a) act" where
  "act_return x s = (Inr x, s)"

definition act_lift :: "'a rresult \<Rightarrow> ('s, 'a) act" where
  "act_lift r s = (r, s)"

definition act_bind :: "('s, 'a) act \<Rightarrow> ('a \<Rightarrow> ('s, 'b) act) \<Rightarrow> ('s, 'b) act" where
  "act_bind m f s = (case m s of (Inl e, s') \<Rightarrow> (Inl e, s') | (Inr x, s') \<Rightarrow> f x s')"

lemma act_return_simp [simp]: "act_return x s = (Inr x, s)"
  and act_lift_simp [simp]: "act_lift r s = (r, s)"
  by (simp_all add: act_return_def act_lift_def)

lemma act_bind_Inr: "m s = (Inr x, s') \<Longrightarrow> act_bind m f s = f x s'"
  and act_bind_Inl: "m s = (Inl e, s') \<Longrightarrow> act_bind m f s = (Inl e, s')"
  by (simp_all add: act_bind_def)

lemma act_bind_ok [check_simps]:
  "act_bind m f s = (Inr y, s') \<longleftrightarrow> (\<exists>x t. m s = (Inr x, t) \<and> f x t = (Inr y, s'))"
  by (auto simp: act_bind_def split: prod.splits sum.splits)

subsection \<open>Bytes and characters\<close>

definition byte :: "char \<Rightarrow> nat" where
  "byte c = of_char c"

definition is_ascii_lowercase :: "char \<Rightarrow> bool" where
  "is_ascii_lowercase c \<longleftrightarrow> 97 \<le> byte c \<and> byte c \<le> 122"

definition is_ascii_uppercase :: "char \<Rightarrow> bool" where
  "is_ascii_uppercase c \<longleftrightarrow> 65 \<le> byte c \<and> byte c \<le> 90"

definition is_ascii_digit :: "char \<Rightarrow> bool" where
  "is_ascii_digit c \<longleftrightarrow> 48 \<le> byte c \<and> byte c \<le> 57"

definition is_ascii_alphanumeric :: "char \<Rightarrow> bool" where
  "is_ascii_alphanumeric c \<longleftrightarrow> is_ascii_lowercase c \<or> is_ascii_uppercase c \<or> is_ascii_digit c"

definition is_ascii_control :: "char \<Rightarrow> bool" where
  "is_ascii_control c \<longleftrightarrow> byte c < 32 \<or> byte c = 127"

text \<open>Changing the case of an ASCII letter flips the bit \<open>0x20\<close> of its byte.\<close>

definition ascii_lower_char :: "char \<Rightarrow> char" where
  "ascii_lower_char c =
     (if is_ascii_uppercase c
      then (case c of Char b0 b1 b2 b3 b4 b5 b6 b7 \<Rightarrow> Char b0 b1 b2 b3 b4 True b6 b7) else c)"

definition ascii_upper_char :: "char \<Rightarrow> char" where
  "ascii_upper_char c =
     (if is_ascii_lowercase c
      then (case c of Char b0 b1 b2 b3 b4 b5 b6 b7 \<Rightarrow> Char b0 b1 b2 b3 b4 False b6 b7) else c)"

definition to_ascii_lowercase :: "string \<Rightarrow> string" where
  "to_ascii_lowercase s = map ascii_lower_char s"

definition to_ascii_uppercase :: "string \<Rightarrow> string" where
  "to_ascii_uppercase s = map ascii_upper_char s"

lemma length_to_ascii_lowercase [simp]: "length (to_ascii_lowercase s) = length s"
  by (simp add: to_ascii_lowercase_def)

lemma byte_ascii_lower_char: "is_ascii_uppercase c \<Longrightarrow> byte (ascii_lower_char c) = byte c + 32"
  by (cases c) (auto simp: ascii_lower_char_def is_ascii_uppercase_def byte_def of_bool_def
      split: if_splits)

lemma ascii_lower_char_idem [simp]: "ascii_lower_char (ascii_lower_char c) = ascii_lower_char c"
proof (cases "is_ascii_uppercase c")
  case True
  then have "\<not> is_ascii_uppercase (ascii_lower_char c)"
    using byte_ascii_lower_char [OF True] by (simp add: is_ascii_uppercase_def)
  then show ?thesis by (simp add: ascii_lower_char_def [of "ascii_lower_char c"])
next
  case False
  then show ?thesis by (simp add: ascii_lower_char_def)
qed

text \<open>The character classes on the bits of a character, for evaluation.\<close>

lemma byte_Char: "byte (Char b0 b1 b2 b3 b4 b5 b6 b7) =
    of_bool b0 + 2 * of_bool b1 + 4 * of_bool b2 + 8 * of_bool b3 + 16 * of_bool b4
    + 32 * of_bool b5 + 64 * of_bool b6 + 128 * of_bool b7"
  by (simp add: byte_def of_char_def)

lemma is_ascii_digit_code [code]: "is_ascii_digit (Char b0 b1 b2 b3 b4 b5 b6 b7) \<longleftrightarrow>
    \<not> b7 \<and> \<not> b6 \<and> b5 \<and> b4 \<and> (\<not> b3 \<or> \<not> b2 \<and> \<not> b1)"
  by (cases b0; cases b1; cases b2; cases b3; cases b4; cases b5; cases b6; cases b7)
    (simp_all add: is_ascii_digit_def byte_Char)

lemma is_ascii_lowercase_code [code]: "is_ascii_lowercase (Char b0 b1 b2 b3 b4 b5 b6 b7) \<longleftrightarrow>
    \<not> b7 \<and> b6 \<and> b5 \<and> (if b4 then \<not> b3 \<or> \<not> b2 \<and> \<not> (b1 \<and> b0) else b3 \<or> b2 \<or> b1 \<or> b0)"
  by (cases b0; cases b1; cases b2; cases b3; cases b4; cases b5; cases b6; cases b7)
    (simp_all add: is_ascii_lowercase_def byte_Char)

lemma is_ascii_uppercase_code [code]: "is_ascii_uppercase (Char b0 b1 b2 b3 b4 b5 b6 b7) \<longleftrightarrow>
    \<not> b7 \<and> b6 \<and> \<not> b5 \<and> (if b4 then \<not> b3 \<or> \<not> b2 \<and> \<not> (b1 \<and> b0) else b3 \<or> b2 \<or> b1 \<or> b0)"
  by (cases b0; cases b1; cases b2; cases b3; cases b4; cases b5; cases b6; cases b7)
    (simp_all add: is_ascii_uppercase_def byte_Char)

lemma is_ascii_control_code [code]: "is_ascii_control (Char b0 b1 b2 b3 b4 b5 b6 b7) \<longleftrightarrow>
    \<not> b7 \<and> (\<not> b6 \<and> \<not> b5 \<or> b6 \<and> b5 \<and> b4 \<and> b3 \<and> b2 \<and> b1 \<and> b0)"
  by (cases b0; cases b1; cases b2; cases b3; cases b4; cases b5; cases b6; cases b7)
    (simp_all add: is_ascii_control_def byte_Char)

text \<open>A continuation byte of a UTF-8 sequence has the form \<open>10xxxxxx\<close>.\<close>

definition is_continuation :: "char \<Rightarrow> bool" where
  "is_continuation c \<longleftrightarrow> 128 \<le> byte c \<and> byte c < 192"

lemma is_continuation_code [code]:
  "is_continuation (Char b0 b1 b2 b3 b4 b5 b6 b7) \<longleftrightarrow> b7 \<and> \<not> b6"
  by (cases b0; cases b1; cases b2; cases b3; cases b4; cases b5; cases b6; cases b7)
    (simp_all add: is_continuation_def byte_Char)

function utf8_chars :: "string \<Rightarrow> string list" where
  "utf8_chars [] = []"
| "utf8_chars (c # cs) =
     (c # takeWhile is_continuation cs) # utf8_chars (dropWhile is_continuation cs)"
  by pat_completeness auto
termination
  by (relation "measure length") (auto simp: le_imp_less_Suc length_dropWhile_le)

lemma concat_utf8_chars [simp]: "concat (utf8_chars s) = s"
  by (induction s rule: utf8_chars.induct) auto

lemma utf8_chars_nonempty: "x \<in> set (utf8_chars s) \<Longrightarrow> x \<noteq> []"
  by (induction s rule: utf8_chars.induct) auto

text \<open>The characters with the Unicode \<open>White_Space\<close> property, in UTF-8.\<close>

definition unicode_whitespace :: "string list" where
  "unicode_whitespace =
     [[CHR 0x0A], [CHR 0x09], [CHR 0x0B], [CHR 0x0C], [CHR 0x0D], '' '',
      [CHR 0xC2, CHR 0x85], [CHR 0xC2, CHR 0xA0], [CHR 0xE1, CHR 0x9A, CHR 0x80],
      [CHR 0xE2, CHR 0x80, CHR 0x80], [CHR 0xE2, CHR 0x80, CHR 0x81], [CHR 0xE2, CHR 0x80, CHR 0x82],
      [CHR 0xE2, CHR 0x80, CHR 0x83], [CHR 0xE2, CHR 0x80, CHR 0x84], [CHR 0xE2, CHR 0x80, CHR 0x85],
      [CHR 0xE2, CHR 0x80, CHR 0x86], [CHR 0xE2, CHR 0x80, CHR 0x87], [CHR 0xE2, CHR 0x80, CHR 0x88],
      [CHR 0xE2, CHR 0x80, CHR 0x89], [CHR 0xE2, CHR 0x80, CHR 0x8A], [CHR 0xE2, CHR 0x80, CHR 0xA8],
      [CHR 0xE2, CHR 0x80, CHR 0xA9], [CHR 0xE2, CHR 0x80, CHR 0xAF], [CHR 0xE2, CHR 0x81, CHR 0x9F],
      [CHR 0xE3, CHR 0x80, CHR 0x80]]"

definition is_whitespace :: "string \<Rightarrow> bool" where
  "is_whitespace c \<longleftrightarrow> c \<in> set unicode_whitespace"

definition trim_start :: "string \<Rightarrow> string" where
  "trim_start s = concat (dropWhile is_whitespace (utf8_chars s))"

definition trim_end :: "string \<Rightarrow> string" where
  "trim_end s = concat (rev (dropWhile is_whitespace (rev (utf8_chars s))))"

definition trim :: "string \<Rightarrow> string" where
  "trim s = trim_end (trim_start s)"

definition chars_count :: "string \<Rightarrow> nat" where
  "chars_count s = length (utf8_chars s)"

text \<open>\<open>split_whitespace().next().unwrap_or("")\<close>\<close>

definition first_word :: "string \<Rightarrow> string" where
  "first_word s =
     concat (takeWhile (\<lambda>c. \<not> is_whitespace c) (dropWhile is_whitespace (utf8_chars s)))"

text \<open>\<open>split_whitespace().last()\<close>\<close>

definition last_word :: "string \<Rightarrow> string option" where
  "last_word s =
     (case dropWhile is_whitespace (rev (utf8_chars s)) of [] \<Rightarrow> None
      | cs \<Rightarrow> Some (concat (rev (takeWhile (\<lambda>c. \<not> is_whitespace c) cs))))"

text \<open>\<open>str::from_utf8\<close>: the well-formed byte sequences, by their first byte.\<close>

definition byte_in :: "nat \<Rightarrow> nat \<Rightarrow> char \<Rightarrow> bool" where
  "byte_in lo hi c \<longleftrightarrow> lo \<le> byte c \<and> byte c \<le> hi"

fun utf8_valid :: "string \<Rightarrow> bool" where
  "utf8_valid [] = True"
| "utf8_valid (a # s) =
     (if byte a < 0x80 then utf8_valid s
      else case s of [] \<Rightarrow> False
      | b # s2 \<Rightarrow>
          if byte_in 0xC2 0xDF a then is_continuation b \<and> utf8_valid s2
          else case s2 of [] \<Rightarrow> False
          | c # s3 \<Rightarrow>
              if byte_in 0xE0 0xEF a then
                (if byte a = 0xE0 then byte_in 0xA0 0xBF b
                 else if byte a = 0xED then byte_in 0x80 0x9F b else is_continuation b)
                \<and> is_continuation c \<and> utf8_valid s3
              else case s3 of [] \<Rightarrow> False
              | d # s4 \<Rightarrow>
                  byte_in 0xF0 0xF4 a
                  \<and> (if byte a = 0xF0 then byte_in 0x90 0xBF b
                     else if byte a = 0xF4 then byte_in 0x80 0x8F b else is_continuation b)
                  \<and> is_continuation c \<and> is_continuation d \<and> utf8_valid s4)"

lemma trim_start_suffix: "suffix (trim_start s) s"
proof -
  have "s = concat (takeWhile is_whitespace (utf8_chars s) @ dropWhile is_whitespace (utf8_chars s))"
    by simp
  then show ?thesis
    unfolding trim_start_def suffix_def by (metis concat_append)
qed

lemma trim_end_prefix: "prefix (trim_end s) s"
proof -
  let ?r = "rev (utf8_chars s)"
  have "utf8_chars s = rev (dropWhile is_whitespace ?r) @ rev (takeWhile is_whitespace ?r)"
    by (metis rev_append rev_rev_ident takeWhile_dropWhile_id)
  then have "s = trim_end s @ concat (rev (takeWhile is_whitespace ?r))"
    unfolding trim_end_def by (metis concat_append concat_utf8_chars)
  then show ?thesis
    by (metis prefixI)
qed

lemma length_trim_start: "length (trim_start s) \<le> length s"
  using trim_start_suffix by (rule suffix_length_le)

lemma trim_start_Nil [simp]: "trim_start [] = []" and trim_end_Nil [simp]: "trim_end [] = []"
  by (simp_all add: trim_start_def trim_end_def)

lemma trim_Nil [simp]: "trim [] = []"
  by (simp add: trim_def)

subsection \<open>Searching, splitting and joining\<close>

abbreviation contains :: "string \<Rightarrow> string \<Rightarrow> bool" where
  "contains hay needle \<equiv> sublist needle hay"

fun find_str :: "string \<Rightarrow> string \<Rightarrow> nat option" where
  "find_str needle [] = (if needle = [] then Some 0 else None)"
| "find_str needle (c # cs) =
     (if prefix needle (c # cs) then Some 0 else map_option Suc (find_str needle cs))"

definition find_byte :: "(char \<Rightarrow> bool) \<Rightarrow> string \<Rightarrow> nat option" where
  "find_byte P s =
     (if list_ex P s then Some (length (takeWhile (\<lambda>c. \<not> P c) s)) else None)"

definition split_once :: "char \<Rightarrow> string \<Rightarrow> (string \<times> string) option" where
  "split_once ch s =
     (case dropWhile (\<lambda>c. c \<noteq> ch) s of [] \<Rightarrow> None
      | _ # rest \<Rightarrow> Some (takeWhile (\<lambda>c. c \<noteq> ch) s, rest))"

definition strip_prefix :: "string \<Rightarrow> string \<Rightarrow> string option" where
  "strip_prefix p s = (if prefix p s then Some (drop (length p) s) else None)"

definition strip_suffix :: "string \<Rightarrow> string \<Rightarrow> string option" where
  "strip_suffix p s = (if suffix p s then Some (take (length s - length p) s) else None)"

function split_byte :: "char \<Rightarrow> string \<Rightarrow> string list" where
  "split_byte ch s =
     (case dropWhile (\<lambda>c. c \<noteq> ch) s of [] \<Rightarrow> [s]
      | _ # rest \<Rightarrow> takeWhile (\<lambda>c. c \<noteq> ch) s # split_byte ch rest)"
  by pat_completeness auto
termination
proof (relation "measure (length \<circ> snd)")
  fix ch :: char and s x rest
  assume "dropWhile (\<lambda>c. c \<noteq> ch) s = x # rest"
  then have "length (x # rest) \<le> length s" by (metis length_dropWhile_le)
  then show "((ch, rest), (ch, s)) \<in> measure (length \<circ> snd)" by simp
qed simp

declare split_byte.simps [simp del]

fun join :: "string \<Rightarrow> string list \<Rightarrow> string" where
  "join sep [] = []"
| "join sep [x] = x"
| "join sep (x # y # xs) = x @ sep @ join sep (y # xs)"

text \<open>\<open>Path::join\<close>: an absolute second part replaces the first.\<close>

definition path_join :: "string \<Rightarrow> string \<Rightarrow> string" where
  "path_join a b =
     (if prefix ''/'' b then b else if a = [] \<or> suffix ''/'' a then a @ b else a @ ''/'' @ b)"

text \<open>A \<open>BTreeSet\<close> of strings, as the list of its elements in order.\<close>

definition btree_set :: "string list \<Rightarrow> string list" where
  "btree_set xs = remdups_adj (sort xs)"

lemma set_btree_set [simp]: "set (btree_set xs) = set xs"
  by (simp add: btree_set_def)

text \<open>\<open>str::replace\<close> of one character.\<close>

definition replace_byte :: "char \<Rightarrow> string \<Rightarrow> string \<Rightarrow> string" where
  "replace_byte c r s = concat (map (\<lambda>x. if x = c then r else [x]) s)"

text \<open>\<open>str::lines\<close>: lines end in \<open>\n\<close> or \<open>\r\n\<close>; the last line needs no terminator and
  then keeps a final \<open>\r\<close>.\<close>

definition strip_cr :: "string \<Rightarrow> string" where
  "strip_cr l = (if l \<noteq> [] \<and> last l = CHR 0x0D then butlast l else l)"

function str_lines :: "string \<Rightarrow> string list" where
  "str_lines s =
     (if s = [] then []
      else case dropWhile (\<lambda>c. c \<noteq> CHR 0x0A) s of [] \<Rightarrow> [s]
      | _ # rest \<Rightarrow> strip_cr (takeWhile (\<lambda>c. c \<noteq> CHR 0x0A) s) # str_lines rest)"
  by pat_completeness auto
termination
proof (relation "measure length")
  fix s x rest
  assume "dropWhile (\<lambda>c. c \<noteq> CHR 0x0A) s = x # rest"
  then have "length (x # rest) \<le> length s" by (metis length_dropWhile_le)
  then show "(rest, s) \<in> measure length" by simp
qed simp

declare str_lines.simps [simp del]

text \<open>The decimal rendering of an unsigned integer by \<open>format!("{n}")\<close>.\<close>

function show_nat :: "nat \<Rightarrow> string" where
  "show_nat n =
     (if n < 10 then [''0123456789'' ! n] else show_nat (n div 10) @ [''0123456789'' ! (n mod 10)])"
  by pat_completeness auto
termination
  by (relation "measure id") auto

declare show_nat.simps [simp del]

lemma split_once_Some:
  "split_once ch s = Some (a, b) \<longleftrightarrow> s = a @ ch # b \<and> ch \<notin> set a"
proof
  assume h: "split_once ch s = Some (a, b)"
  then obtain x where d: "dropWhile (\<lambda>c. c \<noteq> ch) s = x # b"
    and a: "a = takeWhile (\<lambda>c. c \<noteq> ch) s"
    by (auto simp: split_once_def split: list.splits)
  from d have "x = ch" using hd_dropWhile [of "\<lambda>c. c \<noteq> ch" s] by simp
  moreover have "s = a @ x # b" using d a by (metis takeWhile_dropWhile_id)
  moreover have "ch \<notin> set a" using a set_takeWhileD by fastforce
  ultimately show "s = a @ ch # b \<and> ch \<notin> set a" by simp
next
  assume h: "s = a @ ch # b \<and> ch \<notin> set a"
  then have "\<forall>c \<in> set a. c \<noteq> ch" by auto
  with h have "dropWhile (\<lambda>c. c \<noteq> ch) s = ch # b" and "takeWhile (\<lambda>c. c \<noteq> ch) s = a"
    by (simp_all add: dropWhile_append2 takeWhile_append2)
  then show "split_once ch s = Some (a, b)" by (simp add: split_once_def)
qed

lemma split_once_None: "split_once ch s = None \<longleftrightarrow> ch \<notin> set s"
proof
  show "split_once ch s = None \<Longrightarrow> ch \<notin> set s"
    using split_once_Some [of ch s] split_list_first [of ch s] by fastforce
  show "ch \<notin> set s \<Longrightarrow> split_once ch s = None"
    by (cases "split_once ch s") (auto simp: split_once_Some)
qed

lemma find_str_None: "find_str needle s = None \<longleftrightarrow> \<not> contains s needle"
  by (induction s) (auto simp: sublist_Cons_right)

lemma find_str_Some:
  "find_str needle s = Some i \<Longrightarrow> i \<le> length s \<and> prefix needle (drop i s)"
  by (induction s arbitrary: i) (auto split: if_splits)

lemma find_str_bound: "find_str needle s = Some i \<Longrightarrow> i + length needle \<le> length s"
  using find_str_Some [of needle s i] prefix_length_le [of needle "drop i s"] by auto

lemma find_byte_Some:
  assumes "find_byte P s = Some i"
  shows "i < length s \<and> P (s ! i) \<and> (\<forall>j < i. \<not> P (s ! j))"
proof -
  from assms have ex: "\<exists>x \<in> set s. P x" and i: "i = length (takeWhile (\<lambda>c. \<not> P c) s)"
    by (auto simp: find_byte_def list_ex_iff split: if_splits)
  from ex have "takeWhile (\<lambda>c. \<not> P c) s \<noteq> s" by (auto simp: takeWhile_eq_all_conv)
  then have lt: "i < length s"
    unfolding i by (metis le_neq_implies_less length_takeWhile_le take_all takeWhile_eq_take
        order_refl)
  moreover from lt have "P (s ! i)" unfolding i using nth_length_takeWhile by blast
  moreover have "\<forall>j < i. \<not> P (s ! j)"
    unfolding i by (metis nth_mem set_takeWhileD takeWhile_nth)
  ultimately show ?thesis by simp
qed

lemma find_byte_None: "find_byte P s = None \<longleftrightarrow> (\<forall>c \<in> set s. \<not> P c)"
  by (auto simp: find_byte_def list_ex_iff)

lemma strip_prefix_Some [simp]: "strip_prefix p s = Some r \<longleftrightarrow> s = p @ r"
  by (auto simp: strip_prefix_def prefix_def)

lemma strip_suffix_Some [simp]: "strip_suffix p s = Some r \<longleftrightarrow> s = r @ p"
  by (auto simp: strip_suffix_def suffix_def)

lemma contains_append1: "contains s p \<Longrightarrow> contains (s @ t) p"
  and contains_append2: "contains t p \<Longrightarrow> contains (s @ t) p"
  by (simp_all add: sublist_append)

lemma join_Cons: "join sep (x # xs) = (if xs = [] then x else x @ sep @ join sep xs)"
  by (cases xs) auto

lemma join_append:
  "join sep (xs @ ys) =
     (if xs = [] then join sep ys else if ys = [] then join sep xs
      else join sep xs @ sep @ join sep ys)"
  by (induction xs) (auto simp: join_Cons)

lemma contains_join_part: "contains (join sep (xs @ ys @ zs)) (join sep ys)"
proof -
  have "contains (join sep (ys @ zs)) (join sep ys)"
    by (auto simp: join_append contains_append1)
  then show ?thesis
    by (auto simp: join_append [of sep xs] contains_append2)
qed

lemma contains_join: "x \<in> set xs \<Longrightarrow> contains (join sep xs) x"
  using contains_join_part [where ys = "[x]"] by (fastforce simp: in_set_conv_decomp)

lemma contains_trans: "contains t s \<Longrightarrow> contains u t \<Longrightarrow> contains u s"
  by (rule sublist_order.order_trans)

text \<open>Reading a decimal back.\<close>

definition dec_value :: "string \<Rightarrow> nat" where
  "dec_value s = foldl (\<lambda>n c. 10 * n + (byte c - 48)) 0 s"

lemma digit_value: "d < 10 \<Longrightarrow> byte (''0123456789'' ! d) - 48 = d"
proof -
  assume "d < 10"
  then have "d \<in> set [0..<10]" by simp
  then show ?thesis
    by (simp add: upt_rec numeral_eq_Suc byte_def) (elim disjE, simp_all)
qed

lemma dec_value_snoc: "dec_value (s @ [c]) = 10 * dec_value s + (byte c - 48)"
  by (simp add: dec_value_def)

lemma dec_value_show_nat: "dec_value (show_nat n) = n"
proof (induction n rule: show_nat.induct)
  case (1 n)
  show ?case
  proof (cases "n < 10")
    case True
    then show ?thesis by (subst show_nat.simps) (simp add: dec_value_def digit_value)
  next
    case False
    then have "show_nat n = show_nat (n div 10) @ [''0123456789'' ! (n mod 10)]"
      by (subst show_nat.simps) simp
    moreover have "byte (''0123456789'' ! (n mod 10)) - 48 = n mod 10"
      by (rule digit_value) simp
    ultimately show ?thesis using 1 False by (simp add: dec_value_snoc)
  qed
qed

lemma dec_value_zeros: "dec_value (replicate k CHR ''0'' @ s) = dec_value s"
proof (induction k)
  case (Suc k)
  then show ?case by (simp add: dec_value_def byte_def)
qed simp

lemma show_nat_inject [simp]: "show_nat m = show_nat n \<longleftrightarrow> m = n"
  by (metis dec_value_show_nat)

text \<open>Numbers as \<open>format!\<close> prints them: \<open>{}\<close> of a signed one, and \<open>{:02}\<close>; the line feed and the
  quote, which have no literal.\<close>

definition show_int :: "int \<Rightarrow> string" where
  "show_int i = (if i < 0 then ''-'' @ show_nat (nat (- i)) else show_nat (nat i))"

definition show_pad2 :: "nat \<Rightarrow> string" where
  "show_pad2 n = replicate (2 - length (show_nat n)) CHR ''0'' @ show_nat n"

definition nl :: string where "nl = [CHR 0x0A]"
definition squote :: string where "squote = [CHR 0x27]"

text \<open>\<open>Path::parent\<close> of a path with a plain last component.\<close>

definition path_parent :: "string \<Rightarrow> string option" where
  "path_parent p =
     (if p = [] \<or> p = ''/'' then None
      else case dropWhile (\<lambda>c. c \<noteq> CHR ''/'') (rev p) of [] \<Rightarrow> Some []
        | _ # r \<Rightarrow> Some (if r = [] then ''/'' else rev r))"

subsection \<open>Files of whole lines\<close>

lemma utf8_valid_append: "utf8_valid xs \<Longrightarrow> utf8_valid ys \<Longrightarrow> utf8_valid (xs @ ys)"
proof (induction xs rule: utf8_valid.induct)
  case (2 a s)
  note unfold_once = utf8_valid.simps(2) [of a s] utf8_valid.simps(2) [of a "s @ ys"]
  show ?case
    using 2 unfold_once by (auto simp del: utf8_valid.simps(2) split: list.splits if_splits)
qed simp

definition whole_lines :: "string \<Rightarrow> bool" where
  "whole_lines s \<longleftrightarrow> s = [] \<or> last s = CHR 0x0A"

lemma whole_lines_append: "whole_lines a \<Longrightarrow> whole_lines b \<Longrightarrow> whole_lines (a @ b)"
  by (cases "b = []") (simp_all add: whole_lines_def)

lemma str_lines_Nil [simp]: "str_lines [] = []"
  by (subst str_lines.simps) simp

lemma str_lines_append: "whole_lines a \<Longrightarrow> str_lines (a @ b) = str_lines a @ str_lines b"
proof (induction a rule: str_lines.induct)
  case (1 s)
  show ?case
  proof (cases "s = []")
    case False
    with 1 have "last s = CHR 0x0A" by (simp add: whole_lines_def)
    with False have nl_in: "CHR 0x0A \<in> set s" using last_in_set by fastforce
    then obtain x rest where drop: "dropWhile (\<lambda>c. c \<noteq> CHR 0x0A) s = x # rest"
      by (cases "dropWhile (\<lambda>c. c \<noteq> CHR 0x0A) s") auto
    have s: "s = takeWhile (\<lambda>c. c \<noteq> CHR 0x0A) s @ x # rest"
      using drop takeWhile_dropWhile_id by metis
    have rest: "whole_lines rest"
    proof (cases "rest = []")
      case False
      then have "last s = last rest" by (subst s) simp
      with \<open>last s = CHR 0x0A\<close> show ?thesis by (simp add: whole_lines_def)
    qed (simp add: whole_lines_def)
    have "dropWhile (\<lambda>c. c \<noteq> CHR 0x0A) (s @ b) = x # rest @ b"
      using drop nl_in by (simp add: dropWhile_append1)
    moreover have "takeWhile (\<lambda>c. c \<noteq> CHR 0x0A) (s @ b) = takeWhile (\<lambda>c. c \<noteq> CHR 0x0A) s"
      using nl_in by (simp add: takeWhile_append1)
    ultimately show ?thesis
      using 1(1) [OF False drop rest] False drop str_lines.simps [of "s @ b"] str_lines.simps [of s] by simp
  qed simp
qed

lemma str_lines_one: "set line \<inter> {CHR 0x0A, CHR 0x0D} = {} \<Longrightarrow> str_lines (line @ nl) = [line]"
proof -
  assume plain: "set line \<inter> {CHR 0x0A, CHR 0x0D} = {}"
  then have "\<And>c. c \<in> set line \<Longrightarrow> c \<noteq> CHR 0x0A" by auto
  then have "takeWhile (\<lambda>c. c \<noteq> CHR 0x0A) (line @ nl) = line"
    and "dropWhile (\<lambda>c. c \<noteq> CHR 0x0A) (line @ nl) = nl"
    by (simp_all add: nl_def takeWhile_append2 dropWhile_append2)
  moreover have "strip_cr line = line"
    using plain by (cases line rule: rev_cases) (auto simp: strip_cr_def)
  ultimately show ?thesis by (subst str_lines.simps) (simp add: nl_def)
qed

end
