(* ===== verification/Btree_Map.thy ===== *)
theory Btree_Map
  imports Rust_Prelude
begin

text \<open>
  Rust's \<open>BTreeMap\<close> as its list of entries in key order, and the dictionary contract
  its clients rely on.  \<open>serde_json::Map\<close> is this map (the workspace does not enable
  \<open>preserve_order\<close>), and so are the count tables of the redaction code.
\<close>

fun bt_insert :: "'k::linorder \<Rightarrow> 'v \<Rightarrow> ('k \<times> 'v) list \<Rightarrow> ('k \<times> 'v) list" where
  "bt_insert k v [] = [(k, v)]"
| "bt_insert k v ((k', v') # m) =
     (if k < k' then (k, v) # (k', v') # m
      else if k = k' then (k, v) # m
      else (k', v') # bt_insert k v m)"

definition bt_remove :: "'k \<Rightarrow> ('k \<times> 'v) list \<Rightarrow> ('k \<times> 'v) list" where
  "bt_remove k m = filter (\<lambda>e. fst e \<noteq> k) m"

definition bt_wf :: "('k::linorder \<times> 'v) list \<Rightarrow> bool" where
  "bt_wf m \<longleftrightarrow> sorted_wrt (<) (map fst m)"

definition bt_values_sum :: "('k \<times> nat) list \<Rightarrow> nat" where
  "bt_values_sum m = sum_list (map snd m)"

text \<open>What a client of a dictionary may rely on.\<close>

locale dictionary =
  fixes lookup :: "'m \<Rightarrow> 'k \<Rightarrow> 'v option"
    and insert :: "'k \<Rightarrow> 'v \<Rightarrow> 'm \<Rightarrow> 'm"
    and remove :: "'k \<Rightarrow> 'm \<Rightarrow> 'm"
    and wf :: "'m \<Rightarrow> bool"
  assumes lookup_insert: "lookup (insert k v m) = (lookup m)(k := Some v)"
    and lookup_remove: "lookup (remove k m) = (lookup m)(k := None)"
    and wf_insert: "wf m \<Longrightarrow> wf (insert k v m)"
    and wf_remove: "wf m \<Longrightarrow> wf (remove k m)"
    and wf_ext: "wf m \<Longrightarrow> wf m' \<Longrightarrow> lookup m = lookup m' \<Longrightarrow> m = m'"
begin

lemma insert_same: "wf m \<Longrightarrow> lookup m k = Some v \<Longrightarrow> insert k v m = m"
  by (rule wf_ext) (auto simp: wf_insert lookup_insert)

lemma insert_shadow: "wf m \<Longrightarrow> insert k v (insert k w m) = insert k v m"
  by (rule wf_ext) (auto simp: wf_insert lookup_insert)

lemma insert_commute:
  "wf m \<Longrightarrow> k \<noteq> j \<Longrightarrow> insert k v (insert j w m) = insert j w (insert k v m)"
  by (rule wf_ext) (auto simp: wf_insert lookup_insert)

lemma remove_insert: "wf m \<Longrightarrow> lookup m k = None \<Longrightarrow> remove k (insert k v m) = m"
  by (rule wf_ext) (auto simp: wf_insert wf_remove lookup_insert lookup_remove)

lemma insert_remove: "wf m \<Longrightarrow> lookup m k = Some v \<Longrightarrow> insert k v (remove k m) = m"
  by (rule wf_ext) (auto simp: wf_insert wf_remove lookup_insert lookup_remove)

end

lemma bt_lookup_insert: "map_of (bt_insert k v m) = (map_of m)(k \<mapsto> v)"
  by (induction k v m rule: bt_insert.induct) auto

lemma bt_lookup_remove: "map_of (bt_remove k m) = (map_of m)(k := None)"
  by (induction m) (auto simp: bt_remove_def)

lemma fst_set_bt_insert: "fst ` set (bt_insert k v m) = insert k (fst ` set m)"
  by (induction k v m rule: bt_insert.induct) auto

lemma bt_wf_insert: "bt_wf m \<Longrightarrow> bt_wf (bt_insert k v m)"
proof (induction k v m rule: bt_insert.induct)
  case (1 k v)
  then show ?case by (simp add: bt_wf_def)
next
  case (2 k v k' v' m)
  then have wf: "bt_wf m" and lt: "\<forall>x \<in> fst ` set m. k' < x" by (auto simp: bt_wf_def)
  show ?case
  proof (cases "k' < k")
    case True
    with "2.IH" wf have "bt_wf (bt_insert k v m)" by auto
    with True lt show ?thesis
      using fst_set_bt_insert [of k v m] by (auto simp: bt_wf_def)
  next
    case False
    then show ?thesis using "2.prems" by (auto simp: bt_wf_def)
  qed
qed

lemma bt_wf_remove: "bt_wf m \<Longrightarrow> bt_wf (bt_remove k m)"
proof (induction m)
  case Nil
  then show ?case by (simp add: bt_wf_def bt_remove_def)
next
  case (Cons e m)
  then show ?case by (auto simp: bt_wf_def bt_remove_def)
qed

lemma bt_wf_sorted_distinct: "bt_wf m \<longleftrightarrow> sorted (map fst m) \<and> distinct (map fst m)"
  by (simp add: bt_wf_def strict_sorted_iff)

lemma bt_entries:
  assumes "bt_wf m"
  shows "m = map (\<lambda>k. (k, the (map_of m k))) (sorted_list_of_set (dom (map_of m)))"
proof -
  have keys: "sorted_list_of_set (dom (map_of m)) = map fst m"
    using assms by (simp add: bt_wf_sorted_distinct dom_map_of_conv_image_fst
        sorted_list_of_set.idem_if_sorted_distinct flip: set_map)
  have "map (\<lambda>k. (k, the (map_of m k))) (map fst m) = m"
    using assms by (auto simp: bt_wf_sorted_distinct intro!: map_idI)
  then show ?thesis by (simp add: keys)
qed

lemma bt_wf_ext: "bt_wf m \<Longrightarrow> bt_wf m' \<Longrightarrow> map_of m = map_of m' \<Longrightarrow> m = m'"
  by (metis bt_entries)

interpretation bt: dictionary map_of bt_insert bt_remove bt_wf
  by unfold_locales
    (auto simp: bt_lookup_insert bt_lookup_remove bt_wf_insert bt_wf_remove bt_wf_ext)

end
