(* ===== verification/Policy_Redact.thy ===== *)
theory Policy_Redact
  imports Btree_Map
begin

text \<open>
  The secret redaction of \<open>crates/ao2-policy/src/lib.rs\<close>: \<open>redact_secrets\<close>, the class
  counts of \<open>secret_redaction_class_counts\<close> and the helpers they share.  The scanning
  loops of the source walk an index through the line and look one byte back; here a loop
  has the byte before the index (\<open>None\<close> at index 0) and the rest of the line.
\<close>

subsection \<open>Sensitive keys\<close>

definition sensitive_key_class :: "string \<Rightarrow> string option" where
  "sensitive_key_class k =
     (let key = to_ascii_uppercase k in
      if suffix ''_API_KEY'' key then Some ''provider_api_key''
      else if suffix ''_AUTH_TOKEN'' key then Some ''auth_token''
      else if suffix ''_SERVICE_ROLE_KEY'' key then Some ''service_role_key''
      else if suffix ''_INTAKE_KEY'' key then Some ''intake_key''
      else if suffix ''_PRIVATE_KEY'' key then Some ''private_key''
      else if suffix ''_ACCESS_KEY'' key then Some ''access_key''
      else if suffix ''_TOKEN'' key then Some ''token''
      else if suffix ''_SECRET'' key then Some ''secret''
      else if suffix ''_PASSWORD'' key \<or> key = ''PASSWORD'' then Some ''password''
      else None)"

definition is_sensitive_key :: "string \<Rightarrow> bool" where
  "is_sensitive_key key \<longleftrightarrow> sensitive_key_class key \<noteq> None"

definition is_assignment_key_shape :: "string \<Rightarrow> bool" where
  "is_assignment_key_shape key \<longleftrightarrow>
     key \<noteq> [] \<and> list_all (\<lambda>ch. is_ascii_alphanumeric ch \<or> ch = CHR ''_'') key"

definition is_assignment_secret_key :: "string \<Rightarrow> bool" where
  "is_assignment_secret_key key \<longleftrightarrow> is_assignment_key_shape key \<and> is_sensitive_key key"

definition sensitive_query_key_class :: "string \<Rightarrow> string option" where
  "sensitive_query_key_class k =
     (let key = to_ascii_lowercase (trim k) in
      if key \<in> set [''token'', ''access_token'', ''refresh_token'', ''id_token'', ''auth_token'']
      then Some ''query_token''
      else if key \<in> set [''api_key'', ''apikey''] then Some ''query_api_key''
      else if key \<in> set [''signature'', ''sig''] then Some ''query_signature''
      else if key = ''secret'' then Some ''query_secret''
      else if key = ''password'' then Some ''query_password''
      else None)"

definition is_sensitive_query_key :: "string \<Rightarrow> bool" where
  "is_sensitive_query_key key \<longleftrightarrow> sensitive_query_key_class key \<noteq> None"

subsection \<open>Where a value ends\<close>

definition is_inline_delimiter :: "char \<Rightarrow> bool" where
  "is_inline_delimiter c \<longleftrightarrow>
     c \<in> {CHR ''&'', CHR '';'', CHR ''#'', CHR 0x22, CHR 0x27, CHR ''<'', CHR ''>'', CHR '' '',
          CHR 0x09, CHR 0x0A, CHR 0x0D}"

definition is_query_delimiter :: "char \<Rightarrow> bool" where
  "is_query_delimiter c \<longleftrightarrow>
     c \<in> {CHR ''&'', CHR '';'', CHR ''#'', CHR 0x22, CHR 0x27, CHR ''<'', CHR ''>'', CHR '' '',
          CHR 0x09}"

text \<open>The index \<open>value_start + offset\<close>, or the length of the line.\<close>

definition inline_secret_value_end :: "string \<Rightarrow> nat \<Rightarrow> nat" where
  "inline_secret_value_end line value_start =
     (case find_byte is_inline_delimiter (drop value_start line) of
        None \<Rightarrow> length line | Some offset \<Rightarrow> value_start + offset)"

definition query_value_end :: "string \<Rightarrow> nat \<Rightarrow> nat" where
  "query_value_end line value_start =
     (case find_byte is_query_delimiter (drop value_start line) of
        None \<Rightarrow> length line | Some offset \<Rightarrow> value_start + offset)"

definition find_ascii_case_insensitive :: "string \<Rightarrow> string \<Rightarrow> nat option" where
  "find_ascii_case_insensitive haystack needle =
     find_str (to_ascii_lowercase needle) (to_ascii_lowercase haystack)"

lemma inline_secret_value_end_bounds:
  "s \<le> length l \<Longrightarrow> s \<le> inline_secret_value_end l s \<and> inline_secret_value_end l s \<le> length l"
  by (auto simp: inline_secret_value_end_def split: option.splits dest!: find_byte_Some)

lemma query_value_end_bounds:
  "s \<le> length l \<Longrightarrow> s \<le> query_value_end l s \<and> query_value_end l s \<le> length l"
  by (auto simp: query_value_end_def split: option.splits dest!: find_byte_Some)

subsection \<open>Whole-line redaction\<close>

text \<open>Indent, \<open>export \<close> prefix and the assignment behind them.\<close>

definition assignment_parts :: "string \<Rightarrow> string \<times> string \<times> string" where
  "assignment_parts line =
     (let trimmed = trim_start line;
          indent = take (length line - length trimmed) line
      in case strip_prefix ''export '' trimmed of
           None \<Rightarrow> (indent, [], trimmed)
         | Some assignment \<Rightarrow> (indent, ''export '', assignment))"

definition redact_assignment_line :: "string \<Rightarrow> string option" where
  "redact_assignment_line line =
     (case assignment_parts line of (indent, export_prefix, assignment) \<Rightarrow>
        (case split_once CHR ''='' assignment of None \<Rightarrow> None
         | Some (k, _) \<Rightarrow>
             (let key = trim k in
              if \<not> is_assignment_secret_key key then None
              else Some (indent @ export_prefix @ key @ ''=[REDACTED]''))))"

definition assignment_secret_class :: "string \<Rightarrow> string option" where
  "assignment_secret_class line =
     (let trimmed = trim_start line;
          assignment = (case strip_prefix ''export '' trimmed of None \<Rightarrow> trimmed | Some a \<Rightarrow> a)
      in case split_once CHR ''='' assignment of None \<Rightarrow> None
         | Some (k, _) \<Rightarrow>
             (let key = trim k in
              if \<not> is_assignment_key_shape key then None else sensitive_key_class key))"

definition redact_header_line :: "string \<Rightarrow> string option" where
  "redact_header_line line =
     (case split_once CHR '':'' line of None \<Rightarrow> None
      | Some (name, value) \<Rightarrow>
          (let normalized = to_ascii_lowercase (trim name); value = trim_start value in
           if normalized = ''authorization'' \<and> prefix ''Bearer '' value
           then Some (trim_end name @ '': Bearer [REDACTED]'')
           else if normalized = ''x-api-key'' \<or> normalized = ''api-key''
                   \<or> contains normalized ''password''
           then Some (trim_end name @ '': [REDACTED]'')
           else None))"

definition header_secret_class :: "string \<Rightarrow> string option" where
  "header_secret_class line =
     (case split_once CHR '':'' line of None \<Rightarrow> None
      | Some (name, value) \<Rightarrow>
          (let normalized = to_ascii_lowercase (trim name); value = trim_start value in
           if normalized = ''authorization'' \<and> prefix ''Bearer '' value
           then Some ''bearer_authorization''
           else if normalized = ''x-api-key'' \<or> normalized = ''api-key''
           then Some ''api_key_header''
           else if contains normalized ''password'' then Some ''password''
           else None))"

subsection \<open>Scanning loops\<close>

text \<open>One character of the line, as \<open>chars().next()\<close> reads it.\<close>

fun next_char :: "string \<Rightarrow> string" where
  "next_char [] = []"
| "next_char (c # cs) = c # takeWhile is_continuation cs"

definition byte_before :: "string \<Rightarrow> nat \<Rightarrow> char option" where
  "byte_before rest n = Some (rest ! (n - 1))"

lemma next_char_length: "rest \<noteq> [] \<Longrightarrow> 0 < length (next_char rest)"
  by (cases rest) auto

lemma next_char_shrinks:
  "rest \<noteq> [] \<Longrightarrow> length rest - length (next_char rest) < length rest"
  by (cases rest) auto

lemma next_char_prefix: "prefix (next_char rest) rest"
  by (cases rest) (auto simp: takeWhile_is_prefix)

lemma next_char_drop: "next_char rest @ drop (length (next_char rest)) rest = rest"
  using next_char_prefix [of rest] by (metis append_eq_conv_conj prefix_def)

text \<open>A key that starts at the index, up to the first \<open>=\<close> of the rest of the line.\<close>

definition key_at :: "string \<Rightarrow> string option" where
  "key_at rest = map_option fst (split_once CHR ''='' rest)"

lemma key_at_length: "key_at rest = Some key \<Longrightarrow> Suc (length key) \<le> length rest"
  by (auto simp: key_at_def split_once_Some)

definition at_param_start :: "char option \<Rightarrow> bool" where
  "at_param_start prev \<longleftrightarrow>
     (case prev of None \<Rightarrow> True | Some b \<Rightarrow> b \<in> {CHR ''?'', CHR ''&'', CHR '';''})"

definition is_inline_assignment_boundary :: "char option \<Rightarrow> bool" where
  "is_inline_assignment_boundary prev \<longleftrightarrow>
     (case prev of None \<Rightarrow> True
      | Some b \<Rightarrow> b \<in> {CHR '' '', CHR 0x09, CHR ''('', CHR ''['', CHR ''{'', CHR 0x22, CHR 0x27})"

definition is_inline_key :: "string \<Rightarrow> bool" where
  "is_inline_key key \<longleftrightarrow>
     list_all (\<lambda>ch. is_ascii_alphanumeric ch \<or> ch = CHR ''_'' \<or> ch = CHR ''-'') key
     \<and> is_sensitive_key key"

definition starts_with_secret_token :: "string \<Rightarrow> bool" where
  "starts_with_secret_token rest \<longleftrightarrow>
     prefix ''sk-'' rest \<or> prefix ''ghp_'' rest \<or> prefix ''github_pat_'' rest"

text \<open>
  A hit at the index: the text pushed to the output and the number of bytes skipped.
\<close>

definition query_hit :: "char option \<Rightarrow> string \<Rightarrow> (string \<times> nat) option" where
  "query_hit prev rest =
     (if at_param_start prev then
        (case key_at rest of None \<Rightarrow> None
         | Some key \<Rightarrow>
             if is_sensitive_query_key key
             then Some (key @ ''=[REDACTED]'', query_value_end rest (Suc (length key)))
             else None)
      else None)"

definition inline_hit :: "char option \<Rightarrow> string \<Rightarrow> (string \<times> nat) option" where
  "inline_hit prev rest =
     (if is_inline_assignment_boundary prev then
        (case key_at rest of None \<Rightarrow> None
         | Some key \<Rightarrow>
             if is_inline_key key
             then Some (key @ ''=[REDACTED]'', inline_secret_value_end rest (Suc (length key)))
             else None)
      else None)"

definition token_hit :: "char option \<Rightarrow> string \<Rightarrow> (string \<times> nat) option" where
  "token_hit prev rest =
     (if starts_with_secret_token rest
      then Some (''[REDACTED]'', inline_secret_value_end rest 0) else None)"

lemma query_hit_progress: "query_hit p r = Some (out, n) \<Longrightarrow> 0 < n \<and> n \<le> length r"
  using query_value_end_bounds key_at_length
  by (fastforce simp: query_hit_def split: if_splits option.splits)

lemma inline_hit_progress: "inline_hit p r = Some (out, n) \<Longrightarrow> 0 < n \<and> n \<le> length r"
  using inline_secret_value_end_bounds key_at_length
  by (fastforce simp: inline_hit_def split: if_splits option.splits)

lemma starts_with_secret_token_hd:
  "starts_with_secret_token r \<Longrightarrow> r \<noteq> [] \<and> (hd r = CHR ''s'' \<or> hd r = CHR ''g'')"
  by (auto simp: starts_with_secret_token_def prefix_def)

lemma token_hit_progress: "token_hit p r = Some (out, n) \<Longrightarrow> 0 < n \<and> n \<le> length r"
proof -
  assume h: "token_hit p r = Some (out, n)"
  then have t: "starts_with_secret_token r" and n: "n = inline_secret_value_end r 0"
    by (auto simp: token_hit_def split: if_splits)
  from starts_with_secret_token_hd [OF t]
  obtain c cs where r: "r = c # cs" and "c = CHR ''s'' \<or> c = CHR ''g''"
    by (cases r) auto
  then have "\<not> is_inline_delimiter c" by (auto simp: is_inline_delimiter_def)
  with r have "0 < n"
    unfolding n by (auto simp: inline_secret_value_end_def split: option.splits
        dest!: find_byte_Some intro: gr0I)
  moreover have "n \<le> length r" unfolding n using inline_secret_value_end_bounds [of 0 r] by simp
  ultimately show ?thesis by simp
qed

function redact_query_loop :: "char option \<Rightarrow> string \<Rightarrow> string" where
  "redact_query_loop prev rest =
     (if rest = [] then []
      else case query_hit prev rest of
        Some (out, n) \<Rightarrow> out @ redact_query_loop (byte_before rest n) (drop n rest)
      | None \<Rightarrow> next_char rest @
          redact_query_loop (byte_before rest (length (next_char rest)))
            (drop (length (next_char rest)) rest))"
  by pat_completeness auto
termination
  by (relation "measure (\<lambda>(p, r). length r)")
     (auto dest!: query_hit_progress simp: next_char_shrinks)

function redact_inline_loop :: "char option \<Rightarrow> string \<Rightarrow> string" where
  "redact_inline_loop prev rest =
     (if rest = [] then []
      else case inline_hit prev rest of
        Some (out, n) \<Rightarrow> out @ redact_inline_loop (byte_before rest n) (drop n rest)
      | None \<Rightarrow> next_char rest @
          redact_inline_loop (byte_before rest (length (next_char rest)))
            (drop (length (next_char rest)) rest))"
  by pat_completeness auto
termination
  by (relation "measure (\<lambda>(p, r). length r)")
     (auto dest!: inline_hit_progress simp: next_char_shrinks)

function redact_token_loop :: "char option \<Rightarrow> string \<Rightarrow> string" where
  "redact_token_loop prev rest =
     (if rest = [] then []
      else case token_hit prev rest of
        Some (out, n) \<Rightarrow> out @ redact_token_loop (byte_before rest n) (drop n rest)
      | None \<Rightarrow> next_char rest @
          redact_token_loop (byte_before rest (length (next_char rest)))
            (drop (length (next_char rest)) rest))"
  by pat_completeness auto
termination
  by (relation "measure (\<lambda>(p, r). length r)")
     (auto dest!: token_hit_progress simp: next_char_shrinks)

declare redact_query_loop.simps [simp del] redact_inline_loop.simps [simp del]
  redact_token_loop.simps [simp del]

definition redact_query_secret_values :: "string \<Rightarrow> string" where
  "redact_query_secret_values line = redact_query_loop None line"

definition redact_inline_secret_assignments :: "string \<Rightarrow> string" where
  "redact_inline_secret_assignments line = redact_inline_loop None line"

definition redact_standalone_secret_tokens :: "string \<Rightarrow> string" where
  "redact_standalone_secret_tokens line = redact_token_loop None line"

lemma find_ascii_case_insensitive_bound:
  "find_ascii_case_insensitive s needle = Some i \<Longrightarrow> i + length needle \<le> length s"
  using find_str_bound [of "to_ascii_lowercase needle" "to_ascii_lowercase s" i]
  by (simp add: find_ascii_case_insensitive_def)

function redact_bearer_tokens :: "string \<Rightarrow> string" where
  "redact_bearer_tokens rest =
     (case find_ascii_case_insensitive rest ''Bearer '' of
        None \<Rightarrow> rest
      | Some index \<Rightarrow>
          take index rest @ ''Bearer [REDACTED]'' @
          redact_bearer_tokens
            (drop (inline_secret_value_end rest (index + length ''Bearer '')) rest))"
  by pat_completeness auto
termination
proof (relation "measure length")
  fix rest index
  assume "find_ascii_case_insensitive rest ''Bearer '' = Some index"
  then have le: "index + length ''Bearer '' \<le> length rest"
    by (rule find_ascii_case_insensitive_bound)
  then have "index + length ''Bearer '' \<le>
      inline_secret_value_end rest (index + length ''Bearer '')"
    using inline_secret_value_end_bounds by blast
  with le show "(drop (inline_secret_value_end rest (index + length ''Bearer '')) rest, rest)
      \<in> measure length" by auto
qed simp

declare redact_bearer_tokens.simps [simp del]

definition redact_secret_line :: "string \<Rightarrow> string" where
  "redact_secret_line line =
     (case redact_assignment_line line of Some redacted \<Rightarrow> redacted
      | None \<Rightarrow>
        (case redact_header_line line of Some redacted \<Rightarrow> redacted
         | None \<Rightarrow>
             redact_standalone_secret_tokens
               (redact_inline_secret_assignments
                 (redact_query_secret_values (redact_bearer_tokens line)))))"

definition redact_secrets :: "string \<Rightarrow> string" where
  "redact_secrets input = join [CHR 0x0A] (map redact_secret_line (str_lines input))"

subsection \<open>Class counts\<close>

type_synonym class_counts = "(string \<times> nat) list"

definition increment_secret_class :: "string \<Rightarrow> class_counts \<Rightarrow> class_counts" where
  "increment_secret_class cls counts =
     bt_insert cls (case map_of counts cls of None \<Rightarrow> 1 | Some n \<Rightarrow> n + 1) counts"

function query_class_loop :: "char option \<Rightarrow> string \<Rightarrow> class_counts \<Rightarrow> class_counts" where
  "query_class_loop prev rest counts =
     (if rest = [] then counts
      else case query_hit prev rest of
        Some (out, n) \<Rightarrow>
          query_class_loop (byte_before rest n) (drop n rest)
            (case sensitive_query_key_class (the (key_at rest)) of
               Some cls \<Rightarrow> increment_secret_class cls counts | None \<Rightarrow> counts)
      | None \<Rightarrow>
          query_class_loop (byte_before rest (length (next_char rest)))
            (drop (length (next_char rest)) rest) counts)"
  by pat_completeness auto
termination
  by (relation "measure (\<lambda>(p, r, m). length r)")
     (auto dest!: query_hit_progress simp: next_char_shrinks)

function inline_class_loop :: "char option \<Rightarrow> string \<Rightarrow> class_counts \<Rightarrow> class_counts" where
  "inline_class_loop prev rest counts =
     (if rest = [] then counts
      else case inline_hit prev rest of
        Some (out, n) \<Rightarrow>
          inline_class_loop (byte_before rest n) (drop n rest)
            (case sensitive_key_class (the (key_at rest)) of
               Some cls \<Rightarrow> increment_secret_class cls counts | None \<Rightarrow> counts)
      | None \<Rightarrow>
          inline_class_loop (byte_before rest (length (next_char rest)))
            (drop (length (next_char rest)) rest) counts)"
  by pat_completeness auto
termination
  by (relation "measure (\<lambda>(p, r, m). length r)")
     (auto dest!: inline_hit_progress simp: next_char_shrinks)

declare query_class_loop.simps [simp del] inline_class_loop.simps [simp del]

definition add_query_secret_class_counts :: "string \<Rightarrow> class_counts \<Rightarrow> class_counts" where
  "add_query_secret_class_counts line counts = query_class_loop None line counts"

definition add_inline_secret_class_counts :: "string \<Rightarrow> class_counts \<Rightarrow> class_counts" where
  "add_inline_secret_class_counts line counts =
     (let counts = inline_class_loop None line counts in
      if contains line ''sk-'' \<or> contains line ''ghp_'' \<or> contains line ''github_pat_''
      then increment_secret_class ''inline_secret_token'' counts else counts)"

definition add_line_secret_redaction_class_counts ::
    "string \<Rightarrow> class_counts \<Rightarrow> class_counts" where
  "add_line_secret_redaction_class_counts line counts =
     (case assignment_secret_class line of
        Some cls \<Rightarrow> increment_secret_class cls counts
      | None \<Rightarrow>
        (case header_secret_class line of
           Some cls \<Rightarrow> increment_secret_class cls counts
         | None \<Rightarrow>
             (let counts = (if find_ascii_case_insensitive line ''Bearer '' \<noteq> None
                            then increment_secret_class ''bearer_authorization'' counts
                            else counts)
              in add_inline_secret_class_counts line
                   (add_query_secret_class_counts line counts))))"

definition secret_redaction_class_counts :: "string \<Rightarrow> class_counts" where
  "secret_redaction_class_counts input =
     fold add_line_secret_redaction_class_counts (str_lines input) []"

definition secret_redaction_count :: "string \<Rightarrow> nat" where
  "secret_redaction_count input = bt_values_sum (secret_redaction_class_counts input)"

subsection \<open>The contract of a scanning loop\<close>

text \<open>
  The three redaction loops share one shape: at every index they either meet a hit, push
  its replacement and skip the value, or copy one character.  The contract and its
  consequences are stated once.
\<close>

locale secret_scan =
  fixes hit :: "char option \<Rightarrow> string \<Rightarrow> (string \<times> nat) option"
    and loop :: "char option \<Rightarrow> string \<Rightarrow> string"
  assumes hit_progress: "hit p r = Some (out, n) \<Longrightarrow> 0 < n \<and> n \<le> length r"
    and hit_marks: "hit p r = Some (out, n) \<Longrightarrow> suffix ''[REDACTED]'' out"
    and loop_step: "loop p r =
      (if r = [] then []
       else case hit p r of
         Some (out, n) \<Rightarrow> out @ loop (byte_before r n) (drop n r)
       | None \<Rightarrow> next_char r @
           loop (byte_before r (length (next_char r))) (drop (length (next_char r)) r))"
begin

lemma loop_Nil [simp]: "loop p [] = []"
  by (simp add: loop_step)

lemma loop_hit: "hit p r = Some (out, n) \<Longrightarrow>
    loop p r = out @ loop (byte_before r n) (drop n r)"
  using hit_progress [of p r out n] by (subst loop_step) auto

lemma loop_copy: "r \<noteq> [] \<Longrightarrow> hit p r = None \<Longrightarrow>
    loop p r = next_char r @
      loop (byte_before r (length (next_char r))) (drop (length (next_char r)) r)"
  by (subst loop_step) simp

lemma scan_induct [case_names Nil Hit Copy]:
  assumes "\<And>p. P p []"
    and "\<And>p r out n. hit p r = Some (out, n) \<Longrightarrow> 0 < n \<Longrightarrow> n \<le> length r \<Longrightarrow>
        P (byte_before r n) (drop n r) \<Longrightarrow> P p r"
    and "\<And>p r. r \<noteq> [] \<Longrightarrow> hit p r = None \<Longrightarrow>
        P (byte_before r (length (next_char r))) (drop (length (next_char r)) r) \<Longrightarrow> P p r"
  shows "P p r"
proof (induction r arbitrary: p rule: length_induct)
  case (1 r)
  show ?case
  proof (cases "r = []")
    case True
    with assms(1) show ?thesis by simp
  next
    case ne: False
    show ?thesis
    proof (cases "hit p r")
      case None
      have "P (byte_before r (length (next_char r))) (drop (length (next_char r)) r)"
        using 1 ne by (simp add: next_char_shrinks)
      with ne None show ?thesis by (rule assms(3))
    next
      case (Some on)
      then obtain out n where h: "hit p r = Some (out, n)" by (cases on) auto
      note pos = hit_progress [OF h]
      with ne have "P (byte_before r n) (drop n r)" using 1 by simp
      with h pos show ?thesis using assms(2) by blast
    qed
  qed
qed

text \<open>A loop that changes the line leaves the redaction marker in it.\<close>

lemma changed_marks: "loop p r \<noteq> r \<Longrightarrow> contains (loop p r) ''[REDACTED]''"
proof (induction p r rule: scan_induct)
  case (Nil p)
  then show ?case by simp
next
  case (Hit p r out n)
  have "contains out ''[REDACTED]''" using hit_marks [OF Hit(1)] by (rule suffix_imp_sublist)
  then show ?case using loop_hit [OF Hit(1)] by (simp add: contains_append1)
next
  case (Copy p r)
  have "loop (byte_before r (length (next_char r))) (drop (length (next_char r)) r)
      \<noteq> drop (length (next_char r)) r"
    using Copy.prems loop_copy [OF Copy(1,2)] next_char_drop [of r] by metis
  from Copy(3) [OF this] show ?case
    using loop_copy [OF Copy(1,2)] by (simp add: contains_append2)
qed

end

text \<open>A scan whose hits are also counted by a second loop over the same hits.\<close>

locale counted_scan = secret_scan +
  fixes cls :: "string \<Rightarrow> string option"
    and count :: "char option \<Rightarrow> string \<Rightarrow> class_counts \<Rightarrow> class_counts"
  assumes hit_class: "hit p r = Some (out, n) \<Longrightarrow> \<exists>c. cls (the (key_at r)) = Some c"
    and count_step: "count p r m =
      (if r = [] then m
       else case hit p r of
         Some (out, n) \<Rightarrow> count (byte_before r n) (drop n r)
           (case cls (the (key_at r)) of Some c \<Rightarrow> increment_secret_class c m | None \<Rightarrow> m)
       | None \<Rightarrow>
           count (byte_before r (length (next_char r))) (drop (length (next_char r)) r) m)"

lemma bt_insert_increases:
  "(case map_of m c of None \<Rightarrow> 0 | Some n \<Rightarrow> n) < v \<Longrightarrow>
    bt_values_sum m < bt_values_sum (bt_insert c v m)"
proof (induction m)
  case Nil
  then show ?case by (simp add: bt_values_sum_def)
next
  case (Cons e m)
  obtain k n where e: "e = (k, n)" by (cases e)
  consider "c < k" | "c = k" | "k < c" by fastforce
  then show ?case
  proof cases
    case 1
    have "0 < v" using Cons.prems by (rule le_less_trans [OF le0])
    with 1 e show ?thesis by (simp add: bt_values_sum_def)
  next
    case 2
    with Cons.prems e show ?thesis by (simp add: bt_values_sum_def)
  next
    case 3
    then have ne: "c \<noteq> k" "\<not> c < k" by auto
    with Cons e have "bt_values_sum m < bt_values_sum (bt_insert c v m)" by simp
    with ne e show ?thesis by (simp add: bt_values_sum_def)
  qed
qed

lemma increment_increases: "bt_values_sum m < bt_values_sum (increment_secret_class c m)"
  unfolding increment_secret_class_def
  by (rule bt_insert_increases) (simp split: option.split)

context counted_scan
begin

lemma count_mono: "bt_values_sum m \<le> bt_values_sum (count p r m)"
proof (induction p r arbitrary: m rule: scan_induct)
  case (Nil p)
  then show ?case by (simp add: count_step)
next
  case (Hit p r out n)
  from hit_class [OF Hit(1)] obtain c where c: "cls (the (key_at r)) = Some c" by blast
  from Hit(2,3) have "r \<noteq> []" by auto
  with Hit(1) c have "count p r m = count (byte_before r n) (drop n r) (increment_secret_class c m)"
    by (subst count_step) simp
  with Hit(4) increment_increases [of m c] show ?case by (metis less_imp_le order_trans)
next
  case (Copy p r)
  then show ?case by (subst count_step) simp
qed

lemma uncounted_unchanged: "bt_values_sum (count p r m) = bt_values_sum m \<Longrightarrow> loop p r = r"
proof (induction p r arbitrary: m rule: scan_induct)
  case (Nil p)
  then show ?case by simp
next
  case (Hit p r out n)
  from hit_class [OF Hit(1)] obtain c where c: "cls (the (key_at r)) = Some c" by blast
  from Hit(2,3) have "r \<noteq> []" by auto
  with Hit(1) c have "count p r m = count (byte_before r n) (drop n r) (increment_secret_class c m)"
    by (subst count_step) simp
  then have "bt_values_sum m < bt_values_sum (count p r m)"
    using increment_increases [of m c] count_mono by (metis less_le_trans)
  with Hit.prems show ?case by simp
next
  case (Copy p r)
  have "count p r m =
      count (byte_before r (length (next_char r))) (drop (length (next_char r)) r) m"
    using Copy(1,2) by (subst count_step) simp
  with Copy(3) [of m] Copy.prems show ?case
    using loop_copy [OF Copy(1,2)] next_char_drop [of r] by simp
qed

end

interpretation query: counted_scan query_hit redact_query_loop sensitive_query_key_class
  query_class_loop
proof unfold_locales
  show "\<And>p r out n. query_hit p r = Some (out, n) \<Longrightarrow> suffix ''[REDACTED]'' out"
    by (auto simp: query_hit_def suffix_def split: if_splits option.splits)
  show "\<And>p r out n. query_hit p r = Some (out, n) \<Longrightarrow>
      \<exists>c. sensitive_query_key_class (the (key_at r)) = Some c"
    by (auto simp: query_hit_def is_sensitive_query_key_def split: if_splits option.splits)
qed (use query_hit_progress redact_query_loop.simps query_class_loop.simps in blast)+

interpretation inline: counted_scan inline_hit redact_inline_loop sensitive_key_class
  inline_class_loop
proof unfold_locales
  show "\<And>p r out n. inline_hit p r = Some (out, n) \<Longrightarrow> suffix ''[REDACTED]'' out"
    by (auto simp: inline_hit_def suffix_def split: if_splits option.splits)
  show "\<And>p r out n. inline_hit p r = Some (out, n) \<Longrightarrow>
      \<exists>c. sensitive_key_class (the (key_at r)) = Some c"
    by (auto simp: inline_hit_def is_inline_key_def is_sensitive_key_def
        split: if_splits option.splits)
qed (use inline_hit_progress redact_inline_loop.simps inline_class_loop.simps in blast)+

interpretation token: secret_scan token_hit redact_token_loop
proof unfold_locales
  show "\<And>p r out n. token_hit p r = Some (out, n) \<Longrightarrow> suffix ''[REDACTED]'' out"
    by (auto simp: token_hit_def suffix_def split: if_splits)
qed (use token_hit_progress redact_token_loop.simps in blast)+

subsection \<open>Everything redacted is counted\<close>

lemma assignment_class_iff:
  "assignment_secret_class line = None \<longleftrightarrow> redact_assignment_line line = None"
  by (cases "strip_prefix ''export '' (trim_start line)")
    (auto simp add: assignment_secret_class_def redact_assignment_line_def assignment_parts_def
      is_assignment_secret_key_def is_sensitive_key_def Let_def simp del: strip_prefix_Some
      split: option.split)

lemma header_class_iff: "header_secret_class line = None \<longleftrightarrow> redact_header_line line = None"
  by (auto simp: header_secret_class_def redact_header_line_def Let_def
      split: option.splits prod.splits)

lemma bearer_absent:
  "find_ascii_case_insensitive line ''Bearer '' = None \<Longrightarrow> redact_bearer_tokens line = line"
  by (subst redact_bearer_tokens.simps) simp

lemma token_absent:
  "\<not> contains r ''sk-'' \<Longrightarrow> \<not> contains r ''ghp_'' \<Longrightarrow> \<not> contains r ''github_pat_'' \<Longrightarrow>
    redact_token_loop p r = r"
proof (induction p r rule: token.scan_induct)
  case (Nil p)
  then show ?case by simp
next
  case (Hit p r out n)
  then have "starts_with_secret_token r" by (auto simp: token_hit_def split: if_splits)
  with Hit.prems show ?case
    by (auto simp: starts_with_secret_token_def dest: prefix_imp_sublist)
next
  case (Copy p r)
  have sub: "contains (drop (length (next_char r)) r) x \<Longrightarrow> contains r x" for x
    using contains_append2 next_char_drop by metis
  from Copy.prems sub have "redact_token_loop (byte_before r (length (next_char r)))
      (drop (length (next_char r)) r) = drop (length (next_char r)) r"
    by (intro Copy(3)) blast+
  with token.loop_copy [OF Copy(1,2)] next_char_drop [of r] show ?case by simp
qed

lemmas count_le = increment_increases [THEN less_imp_le] query.count_mono inline.count_mono

lemma add_query_mono: "bt_values_sum m \<le> bt_values_sum (add_query_secret_class_counts line m)"
  by (simp add: add_query_secret_class_counts_def count_le)

lemma add_inline_mono: "bt_values_sum m \<le> bt_values_sum (add_inline_secret_class_counts line m)"
  unfolding add_inline_secret_class_counts_def Let_def
  using count_le(1) count_le(3) order_trans by (simp only: split: if_split) blast

lemma line_count_mono:
  "bt_values_sum m \<le> bt_values_sum (add_line_secret_redaction_class_counts line m)"
proof (cases "assignment_secret_class line")
  case None
  show ?thesis
  proof (cases "header_secret_class line")
    case None': None
    let ?m = "if find_ascii_case_insensitive line ''Bearer '' \<noteq> None
      then increment_secret_class ''bearer_authorization'' m else m"
    have "bt_values_sum m \<le> bt_values_sum ?m" by (simp add: count_le)
    also have "\<dots> \<le> bt_values_sum (add_query_secret_class_counts line ?m)" by (rule add_query_mono)
    also have "\<dots> \<le> bt_values_sum
        (add_inline_secret_class_counts line (add_query_secret_class_counts line ?m))"
      by (rule add_inline_mono)
    finally show ?thesis
      using None None' by (simp add: add_line_secret_redaction_class_counts_def Let_def)
  qed (use None in \<open>simp add: add_line_secret_redaction_class_counts_def count_le\<close>)
qed (simp add: add_line_secret_redaction_class_counts_def count_le)

lemma uncounted_line_unchanged:
  assumes "bt_values_sum (add_line_secret_redaction_class_counts line m) = bt_values_sum m"
  shows "redact_secret_line line = line"
proof -
  have none: "assignment_secret_class line = None" "header_secret_class line = None"
    using assms less_imp_neq [OF increment_increases, of m]
    by (auto simp: add_line_secret_redaction_class_counts_def eq_commute [of _ "bt_values_sum m"]
        split: option.splits)
  define m1 where "m1 = (if find_ascii_case_insensitive line ''Bearer '' \<noteq> None
      then increment_secret_class ''bearer_authorization'' m else m)"
  define m2 where "m2 = query_class_loop None line m1"
  define m3 where "m3 = inline_class_loop None line m2"
  have eq: "add_line_secret_redaction_class_counts line m =
      (if contains line ''sk-'' \<or> contains line ''ghp_'' \<or> contains line ''github_pat_''
       then increment_secret_class ''inline_secret_token'' m3 else m3)"
    using none by (simp add: add_line_secret_redaction_class_counts_def m1_def m2_def m3_def
        add_query_secret_class_counts_def add_inline_secret_class_counts_def Let_def)
  have le1: "bt_values_sum m \<le> bt_values_sum m1"
    using increment_increases [of m] by (auto simp: m1_def intro: less_imp_le)
  have le2: "bt_values_sum m1 \<le> bt_values_sum m2" by (simp add: m2_def query.count_mono)
  have le3: "bt_values_sum m2 \<le> bt_values_sum m3" by (simp add: m3_def inline.count_mono)
  have le4: "bt_values_sum m3 \<le> bt_values_sum (add_line_secret_redaction_class_counts line m)"
    using increment_increases [of m3] by (auto simp: eq intro: less_imp_le)
  from assms le1 le2 le3 le4 have all:
    "bt_values_sum m1 = bt_values_sum m" "bt_values_sum m2 = bt_values_sum m1"
    "bt_values_sum m3 = bt_values_sum m2"
    "bt_values_sum (add_line_secret_redaction_class_counts line m) = bt_values_sum m3"
    by linarith+
  have b: "redact_bearer_tokens line = line"
    using all(1) increment_increases [of m "''bearer_authorization''"]
    by (intro bearer_absent) (auto simp: m1_def split: if_splits)
  have q: "redact_query_secret_values line = line"
    using all(2) by (simp add: redact_query_secret_values_def m2_def query.uncounted_unchanged)
  have i: "redact_inline_secret_assignments line = line"
    using all(3) by (simp add: redact_inline_secret_assignments_def m3_def inline.uncounted_unchanged)
  have t: "redact_standalone_secret_tokens line = line"
    using all(4) increment_increases [of m3 "''inline_secret_token''"]
    by (auto simp: redact_standalone_secret_tokens_def eq intro!: token_absent split: if_splits)
  show ?thesis
    using none b q i t
    by (simp add: redact_secret_line_def assignment_class_iff header_class_iff)
qed

lemma fold_count_mono:
  "bt_values_sum m \<le> bt_values_sum (fold add_line_secret_redaction_class_counts ls m)"
  by (induction ls arbitrary: m) (auto intro: order_trans line_count_mono)

lemma uncounted_lines_unchanged:
  "bt_values_sum (fold add_line_secret_redaction_class_counts ls m) = bt_values_sum m \<Longrightarrow>
    map redact_secret_line ls = ls"
proof (induction ls arbitrary: m)
  case Nil
  then show ?case by simp
next
  case (Cons l ls)
  let ?m = "add_line_secret_redaction_class_counts l m"
  have "bt_values_sum m \<le> bt_values_sum ?m" by (rule line_count_mono)
  moreover have "bt_values_sum ?m \<le> bt_values_sum (fold add_line_secret_redaction_class_counts ls ?m)"
    by (rule fold_count_mono)
  ultimately have l: "bt_values_sum ?m = bt_values_sum m"
    and ls: "bt_values_sum (fold add_line_secret_redaction_class_counts ls ?m) = bt_values_sum ?m"
    using Cons.prems by simp_all
  from uncounted_line_unchanged [OF l] Cons.IH [OF ls] show ?case by simp
qed

subsection \<open>No token prefix survives the last stage\<close>

lemma token_loop_prefix:
  "prefix w (redact_token_loop p r) \<Longrightarrow>
    \<forall>c \<in> set w. \<not> is_continuation c \<and> c \<noteq> CHR ''['' \<Longrightarrow> prefix w r"
proof (induction p r arbitrary: w rule: token.scan_induct)
  case (Nil p)
  then show ?case by simp
next
  case (Hit p r out n)
  then have "out = ''[REDACTED]''" by (auto simp: token_hit_def split: if_splits)
  with Hit show ?case by (cases w) (auto simp: token.loop_hit [OF Hit(1)])
next
  case (Copy p r)
  then obtain c cs where r: "r = c # cs" by (cases r) auto
  let ?conts = "takeWhile is_continuation cs"
  let ?rest = "redact_token_loop (byte_before r (length (next_char r))) (drop (length (next_char r)) r)"
  have out: "redact_token_loop p r = c # ?conts @ ?rest"
    using token.loop_copy [OF Copy(1,2)] r by simp
  show ?case
  proof (cases w)
    case Nil
    then show ?thesis by simp
  next
    case w: (Cons x w')
    with Copy.prems(1) out have x: "x = c" and w': "prefix w' (?conts @ ?rest)" by auto
    show ?thesis
    proof (cases ?conts)
      case Nil
      with w' have "prefix w' ?rest" by simp
      then have "prefix w' (drop (length (next_char r)) r)"
        by (rule Copy(3)) (use Copy.prems(2) w in auto)
      with Nil w x r show ?thesis by simp
    next
      case (Cons d ds)
      then have "is_continuation d" by (metis list.set_intros(1) set_takeWhileD)
      with w' Cons Copy.prems(2) w have "w' = []" by (cases w') auto
      with w x r show ?thesis by simp
    qed
  qed
qed

lemma token_chars:
  "\<forall>c \<in> set ''sk-''. \<not> is_continuation c \<and> c \<noteq> CHR ''[''"
  "\<forall>c \<in> set ''ghp_''. \<not> is_continuation c \<and> c \<noteq> CHR ''[''"
  "\<forall>c \<in> set ''github_pat_''. \<not> is_continuation c \<and> c \<noteq> CHR ''[''"
  by (simp_all add: is_continuation_def byte_def)

lemma token_loop_starts:
  "starts_with_secret_token (redact_token_loop p r) \<Longrightarrow> starts_with_secret_token r"
  using token_loop_prefix token_chars unfolding starts_with_secret_token_def by blast

lemma token_loop_clean:
  "suffix t (redact_token_loop p r) \<Longrightarrow> \<not> starts_with_secret_token t"
proof (induction p r arbitrary: t rule: token.scan_induct)
  case (Nil p)
  then show ?case by (auto simp: starts_with_secret_token_def)
next
  case (Hit p r out n)
  then have "out = ''[REDACTED]''" by (auto simp: token_hit_def split: if_splits)
  with Hit.prems have "suffix t (redact_token_loop (byte_before r n) (drop n r)) \<or>
      (\<exists>x \<in> set ''[REDACTED]''. \<exists>xs. t = x # xs)"
    unfolding token.loop_hit [OF Hit(1)] by (auto simp: suffix_Cons)
  then show ?case
    using Hit(4) starts_with_secret_token_hd [of t] by auto
next
  case (Copy p r)
  then obtain c cs where r: "r = c # cs" by (cases r) auto
  let ?conts = "takeWhile is_continuation cs"
  let ?rest = "redact_token_loop (byte_before r (length (next_char r))) (drop (length (next_char r)) r)"
  have out: "redact_token_loop p r = c # ?conts @ ?rest"
    using token.loop_copy [OF Copy(1,2)] r by simp
  from Copy.prems out consider "t = redact_token_loop p r"
    | "suffix t ?rest" | us where "suffix us ?conts" "t = us @ ?rest"
    by (simp only: suffix_Cons suffix_append) blast
  then show ?case
  proof cases
    case 1
    have "\<not> starts_with_secret_token r" using Copy(2) by (auto simp: token_hit_def split: if_splits)
    with 1 token_loop_starts show ?thesis by blast
  next
    case 2
    then show ?thesis by (rule Copy(3))
  next
    case 3
    show ?thesis
    proof (cases "us = []")
      case True
      with 3 show ?thesis using Copy(3) by simp
    next
      case False
    with 3 have "hd us \<in> set ?conts" by (metis hd_in_set set_mono_suffix subsetD)
    then have "is_continuation (hd us)" by (rule conjunct2 [OF set_takeWhileD])
    then have "hd t \<noteq> CHR ''s'' \<and> hd t \<noteq> CHR ''g''"
      using 3 False by (auto simp: is_continuation_def byte_def)
    then show ?thesis using starts_with_secret_token_hd by blast
    qed
  qed
qed

lemma token_loop_no_token:
  "\<not> contains (redact_token_loop p r) ''sk-'' \<and> \<not> contains (redact_token_loop p r) ''ghp_''
    \<and> \<not> contains (redact_token_loop p r) ''github_pat_''"
  using token_loop_clean [of _ p r]
  unfolding sublist_altdef' starts_with_secret_token_def by blast

subsection \<open>Assignment values do not leak\<close>

lemma utf8_chars_append:
  "\<not> is_continuation c \<Longrightarrow> utf8_chars (a @ c # v) = utf8_chars a @ utf8_chars (c # v)"
proof (induction a rule: utf8_chars.induct)
  case 1
  then show ?case by simp
next
  case (2 x xs)
  show ?case
  proof (cases "\<forall>y \<in> set xs. is_continuation y")
    case True
    with "2.prems" show ?thesis
      by (simp add: takeWhile_append2 dropWhile_append2 dropWhile_eq_Nil_conv [THEN iffD2]
          takeWhile_eq_all_conv [THEN iffD2])
  next
    case False
    then obtain y where y: "y \<in> set xs" "\<not> is_continuation y" by blast
    then have "takeWhile is_continuation (xs @ c # v) = takeWhile is_continuation xs"
      and "dropWhile is_continuation (xs @ c # v) = dropWhile is_continuation xs @ c # v"
      by (simp_all add: takeWhile_append1 dropWhile_append1)
    with "2.IH" "2.prems" show ?thesis by simp
  qed
qed

lemma trim_start_before_equals: "trim_start (a @ CHR ''='' # v) = trim_start a @ CHR ''='' # v"
proof -
  have nc: "\<not> is_continuation CHR ''=''" by (simp add: is_continuation_def byte_def)
  obtain e rest where e: "utf8_chars (CHR ''='' # v) = e # rest" and "hd e = CHR ''=''"
    by simp
  then have "\<not> is_whitespace e" by (auto simp: is_whitespace_def unicode_whitespace_def)
  with e have "dropWhile is_whitespace (utf8_chars a @ utf8_chars (CHR ''='' # v)) =
      dropWhile is_whitespace (utf8_chars a) @ utf8_chars (CHR ''='' # v)"
    by (simp add: dropWhile_append)
  then show ?thesis
    unfolding trim_start_def utf8_chars_append [OF nc] by (simp only: concat_append concat_utf8_chars)
qed

lemma prefix_before_equals:
  "CHR ''='' \<notin> set p \<Longrightarrow> prefix p (x @ CHR ''='' # v) \<longleftrightarrow> prefix p x"
  by (auto simp: prefix_append prefix_Cons)

lemma assignment_parts_before_equals:
  "assignment_parts (a @ CHR ''='' # v) =
    (case assignment_parts a of (i, e, x) \<Rightarrow> (i, e, x @ CHR ''='' # v))"
  using length_trim_start [of a]
  by (auto simp: assignment_parts_def trim_start_before_equals Let_def strip_prefix_def
      prefix_before_equals split: option.split dest: prefix_length_le)

lemma split_once_first: "ch \<notin> set a \<Longrightarrow> split_once ch (a @ ch # v) = Some (a, v)"
  by (simp add: split_once_Some)

lemma assignment_parts_set: "assignment_parts a = (i, e, x) \<Longrightarrow> set x \<subseteq> set a"
  using trim_start_suffix [of a, THEN set_mono_suffix]
  by (auto simp: assignment_parts_def Let_def strip_prefix_def split: if_splits
      dest!: in_set_dropD)

lemma redact_assignment_line_value:
  assumes "CHR ''='' \<notin> set a"
  shows "redact_assignment_line (a @ CHR ''='' # v) = redact_assignment_line (a @ CHR ''='' # w)"
proof -
  obtain i e x where parts: "assignment_parts a = (i, e, x)" by (cases "assignment_parts a") auto
  with assignment_parts_set [OF parts] assms have "CHR ''='' \<notin> set x" by auto
  then show ?thesis
    by (simp add: redact_assignment_line_def assignment_parts_before_equals parts split_once_first)
qed

subsection \<open>Every change is marked\<close>

lemma bearer_changed_marks:
  "redact_bearer_tokens r \<noteq> r \<Longrightarrow> contains (redact_bearer_tokens r) ''[REDACTED]''"
proof -
  assume "redact_bearer_tokens r \<noteq> r"
  then obtain i where "find_ascii_case_insensitive r ''Bearer '' = Some i"
    using bearer_absent by blast
  then have "redact_bearer_tokens r = (take i r @ ''Bearer '') @ ''[REDACTED]'' @
      redact_bearer_tokens (drop (inline_secret_value_end r (i + length ''Bearer '')) r)"
    by (subst redact_bearer_tokens.simps) simp
  then show ?thesis by (metis sublist_appendI)
qed

lemma assignment_marks: "redact_assignment_line l = Some out \<Longrightarrow> contains out ''[REDACTED]''"
proof -
  assume "redact_assignment_line l = Some out"
  then obtain b where "out = b @ ''[REDACTED]''"
    by (auto simp: redact_assignment_line_def Let_def split: prod.splits option.splits if_splits)
  then show ?thesis by (simp add: contains_append2)
qed

lemma header_marks: "redact_header_line l = Some out \<Longrightarrow> contains out ''[REDACTED]''"
proof -
  assume "redact_header_line l = Some out"
  then have "suffix ''[REDACTED]'' out"
    by (auto simp: redact_header_line_def Let_def suffix_def
        split: prod.splits option.splits if_splits)
  then show ?thesis by (rule suffix_imp_sublist)
qed

subsection \<open>Properties\<close>

text \<open>The count that the evidence reports covers everything the redaction rewrites:
  when \<open>secret_redaction_count\<close> is zero, \<open>redact_secrets\<close> returns the lines of the
  input as they are, so a nonzero difference is always recorded.\<close>

theorem uncounted_input_unchanged:
  assumes "secret_redaction_count input = 0"
  shows "redact_secrets input = join [CHR 0x0A] (str_lines input)"
  using assms uncounted_lines_unchanged [of "str_lines input" "[]"]
  by (simp add: redact_secrets_def secret_redaction_count_def secret_redaction_class_counts_def
      bt_values_sum_def)

theorem uncounted_input_unchanged_witness:
  "redact_secrets ''a ok'' = ''a ok''"
proof -
  have "secret_redaction_count ''a ok'' = 0" by code_simp
  from uncounted_input_unchanged [OF this] show ?thesis by code_simp
qed

text \<open>C29: No standalone provider token survives: a line that is neither an assignment
  nor a header of a secret leaves the redactor without any occurrence of the token
  prefixes \<open>sk-\<close>, \<open>ghp_\<close> and \<open>github_pat_\<close>.\<close>

theorem no_token_prefix_survives:
  assumes "redact_assignment_line line = None" and "redact_header_line line = None"
    and "tok \<in> {''sk-'', ''ghp_'', ''github_pat_''}"
  shows "\<not> contains (redact_secret_line line) tok"
  using assms token_loop_no_token [of None]
  by (auto simp: redact_secret_line_def redact_standalone_secret_tokens_def)

theorem no_token_prefix_survives_witness:
  "\<not> contains (redact_secret_line ''use sk-1 now'') ''sk-''"
proof -
  have "redact_assignment_line ''use sk-1 now'' = None"
    and "redact_header_line ''use sk-1 now'' = None" by code_simp+
  then show ?thesis by (rule no_token_prefix_survives) simp
qed

text \<open>Assignment values do not leak: for a line recognised as a secret assignment,
  the redacted line is the same whatever stands behind the first \<open>=\<close>.\<close>

theorem assignment_value_does_not_leak:
  assumes "CHR ''='' \<notin> set a" and "redact_assignment_line (a @ ''='' @ v) \<noteq> None"
  shows "redact_secret_line (a @ ''='' @ v) = redact_secret_line (a @ ''='' @ w)"
  using assms redact_assignment_line_value [OF assms(1), of v w]
  by (auto simp: redact_secret_line_def)

theorem assignment_value_does_not_leak_witness:
  "redact_secret_line ''export A_TOKEN=x1'' = redact_secret_line ''export A_TOKEN=zz''"
proof -
  have "redact_assignment_line (''export A_TOKEN'' @ ''='' @ ''x1'') \<noteq> None" by code_simp
  with assignment_value_does_not_leak [of "''export A_TOKEN''" "''x1''" "''zz''"]
  show ?thesis by simp
qed

text \<open>Every rewritten line shows it: a line that the redactor changes contains the
  marker \<open>[REDACTED]\<close> afterwards, whichever of the six rules changed it.\<close>

theorem changed_line_is_marked:
  assumes "redact_secret_line line \<noteq> line"
  shows "contains (redact_secret_line line) ''[REDACTED]''"
proof (cases "redact_assignment_line line = None \<and> redact_header_line line = None")
  case False
  then show ?thesis
    using assignment_marks [of line] header_marks [of line]
    by (auto simp: redact_secret_line_def split: option.split)
next
  case True
  define b where "b = redact_bearer_tokens line"
  define q where "q = redact_query_loop None b"
  define i where "i = redact_inline_loop None q"
  define t where "t = redact_token_loop None i"
  have "redact_secret_line line = t"
    using True by (simp add: redact_secret_line_def b_def q_def i_def t_def
        redact_query_secret_values_def redact_inline_secret_assignments_def
        redact_standalone_secret_tokens_def)
  moreover have "b \<noteq> line \<Longrightarrow> contains b ''[REDACTED]''"
    unfolding b_def by (rule bearer_changed_marks)
  moreover have "q \<noteq> b \<Longrightarrow> contains q ''[REDACTED]''" unfolding q_def by (rule query.changed_marks)
  moreover have "i \<noteq> q \<Longrightarrow> contains i ''[REDACTED]''" unfolding i_def by (rule inline.changed_marks)
  moreover have "t \<noteq> i \<Longrightarrow> contains t ''[REDACTED]''" unfolding t_def by (rule token.changed_marks)
  ultimately show ?thesis using assms by metis
qed

theorem changed_line_is_marked_witness:
  "contains (redact_secret_line ''x?token=abc'') ''[REDACTED]''"
proof -
  have "redact_secret_line ''x?token=abc'' \<noteq> ''x?token=abc''" by code_simp
  then show ?thesis by (rule changed_line_is_marked)
qed

end
