(* ===== verification/Json_Value.thy ===== *)
theory Json_Value
  imports Btree_Map Complex_Main
begin

text \<open>
  \<open>serde_json::Value\<close> with its accessors, the two canonical encoders of the workspace and
  the visitor of \<open>github_issue_publication.rs\<close> that rejects duplicate object fields.
  An object is the list of its fields: in key order for a value the program holds
  (\<open>json_wf\<close>), in document order, possibly with repeated keys, for the text that a
  deserializer feeds to a visitor.  A number is an unsigned or negative integer or a
  finite float, the latter as the rational it denotes.
\<close>

datatype json_number = PosInt nat | NegInt int | Float rat

datatype json =
    JNull
  | JBool bool
  | JNumber json_number
  | JString string
  | JArray "json list"
  | JObject "(string \<times> json) list"

subsection \<open>Accessors\<close>

fun json_get :: "json \<Rightarrow> string \<Rightarrow> json option" where
  "json_get (JObject fs) k = map_of fs k"
| "json_get _ k = None"

fun as_str :: "json \<Rightarrow> string option" where
  "as_str (JString s) = Some s"
| "as_str _ = None"

fun as_bool :: "json \<Rightarrow> bool option" where
  "as_bool (JBool b) = Some b"
| "as_bool _ = None"

fun as_u64 :: "json \<Rightarrow> nat option" where
  "as_u64 (JNumber (PosInt n)) = Some n"
| "as_u64 _ = None"

fun as_array :: "json \<Rightarrow> json list option" where
  "as_array (JArray vs) = Some vs"
| "as_array _ = None"

fun as_object :: "json \<Rightarrow> (string \<times> json) list option" where
  "as_object (JObject fs) = Some fs"
| "as_object _ = None"

text \<open>\<open>value[key]\<close> of a missing field is \<open>Null\<close>.\<close>

definition json_index :: "json \<Rightarrow> string \<Rightarrow> json" where
  "json_index v k = (case json_get v k of None \<Rightarrow> JNull | Some x \<Rightarrow> x)"

subsection \<open>Well-formed values\<close>

lemma size_json_field: "e \<in> set fs \<Longrightarrow> size (snd e) < size (JObject fs)"
  by (induction fs) auto

lemma size_json_item: "v \<in> set vs \<Longrightarrow> size v < size (JArray vs)"
  by (induction vs) auto

function json_wf :: "json \<Rightarrow> bool" where
  "json_wf JNull = True"
| "json_wf (JBool b) = True"
| "json_wf (JNumber n) = True"
| "json_wf (JString s) = True"
| "json_wf (JArray vs) = (\<forall>v \<in> set vs. json_wf v)"
| "json_wf (JObject fs) = (bt_wf fs \<and> (\<forall>e \<in> set fs. json_wf (snd e)))"
  by pat_completeness auto
termination
  by (relation "measure size") (auto dest: size_json_field size_json_item)

subsection \<open>Canonical encoders\<close>

text \<open>\<open>collect\<close> into a map: the entries are inserted one after the other.\<close>

definition bt_collect :: "('k::linorder \<times> 'v) list \<Rightarrow> ('k \<times> 'v) list" where
  "bt_collect es = fold (\<lambda>(k, v) m. bt_insert k v m) es []"

text \<open>\<open>canonicalize\<close>: the keys are sorted, each is looked up and its canonical value
  collected.\<close>

function canonicalize :: "json \<Rightarrow> json" where
  "canonicalize (JArray vs) = JArray (map canonicalize vs)"
| "canonicalize (JObject fs) =
     (let entries = map (\<lambda>e. (fst e, canonicalize (snd e))) fs in
      JObject (bt_collect (map (\<lambda>k. (k, the (map_of entries k))) (sort (map fst fs)))))"
| "canonicalize JNull = JNull"
| "canonicalize (JBool b) = JBool b"
| "canonicalize (JNumber n) = JNumber n"
| "canonicalize (JString s) = JString s"
  by pat_completeness auto
termination
  by (relation "measure size") (auto dest: size_json_field size_json_item)

text \<open>\<open>sort_value\<close>: the fields go through a sorted map into the object.\<close>

function sort_value :: "json \<Rightarrow> json" where
  "sort_value (JObject fs) =
     JObject (bt_collect (bt_collect (map (\<lambda>e. (fst e, sort_value (snd e))) fs)))"
| "sort_value (JArray vs) = JArray (map sort_value vs)"
| "sort_value JNull = JNull"
| "sort_value (JBool b) = JBool b"
| "sort_value (JNumber n) = JNumber n"
| "sort_value (JString s) = JString s"
  by pat_completeness auto
termination
  by (relation "measure size") (auto dest: size_json_field size_json_item)

text \<open>The digest of a value and the text \<open>canonical_json\<close>, over the external writer
  \<open>serde_json::to_vec\<close> and SHA-256.\<close>

definition canonical_json_sha256 ::
    "(string \<Rightarrow> string) \<Rightarrow> (json \<Rightarrow> string) \<Rightarrow> json \<Rightarrow> string" where
  "canonical_json_sha256 sha256_hex to_vec v = sha256_hex (to_vec (canonicalize v))"

definition canonical_json :: "(json \<Rightarrow> string) \<Rightarrow> json \<Rightarrow> string" where
  "canonical_json to_string v = to_string (sort_value v)"

lemma bt_collect_wf [simp]: "bt_wf (bt_collect es)"
proof -
  have "bt_wf m \<Longrightarrow> bt_wf (fold (\<lambda>(k, v) m. bt_insert k v m) es m)" for m
    by (induction es arbitrary: m) (auto simp: bt_wf_insert)
  then show ?thesis by (simp add: bt_collect_def bt_wf_def)
qed

lemma bt_collect_lookup: "map_of (bt_collect es) = map_of (rev es)"
proof -
  have "map_of (fold (\<lambda>(k, v) m. bt_insert k v m) es m) = map_of m ++ map_of (rev es)" for m
    by (induction es arbitrary: m) (auto simp: bt_lookup_insert map_add_def split: option.splits)
  then show ?thesis by (simp add: bt_collect_def)
qed

lemma bt_collect_distinct:
  "distinct (map fst es) \<Longrightarrow> map_of (bt_collect es) = map_of es"
  by (simp add: bt_collect_lookup rev_map [symmetric] map_of_inject_set)

lemma bt_collect_sorted: "bt_wf es \<Longrightarrow> bt_collect es = es"
  by (rule bt.wf_ext) (simp_all add: bt_collect_distinct bt_wf_sorted_distinct [THEN iffD1])

lemma json_wf_canonicalize: "json_wf v \<Longrightarrow> canonicalize v = v"
proof (induction v rule: canonicalize.induct)
  case (1 vs)
  then show ?case by (auto intro: map_idI)
next
  case (2 fs)
  then have wf: "bt_wf fs" and entries: "map (\<lambda>e. (fst e, canonicalize (snd e))) fs = fs"
    by (auto intro!: map_idI)
  from wf have keys: "sort (map fst fs) = map fst fs"
    by (simp add: bt_wf_sorted_distinct sorted_sort_id)
  from wf have "map (\<lambda>k. (k, the (map_of fs k))) (map fst fs) = fs"
    by (auto simp: bt_wf_sorted_distinct intro!: map_idI)
  with wf entries keys show ?case by (simp add: bt_collect_sorted)
qed simp_all

lemma json_wf_sort_value: "json_wf v \<Longrightarrow> sort_value v = v"
proof (induction v rule: sort_value.induct)
  case (1 fs)
  then have "map (\<lambda>e. (fst e, sort_value (snd e))) fs = fs" by (auto intro!: map_idI)
  with 1 show ?case by (simp add: bt_collect_sorted)
qed (auto intro: map_idI)

subsection \<open>Building and reading objects\<close>

text \<open>The \<open>json!\<close> macro inserts the fields it lists one after the other.\<close>

definition json_object :: "(string \<times> json) list \<Rightarrow> json" where
  "json_object fs = JObject (bt_collect fs)"

definition json_string_array :: "string list \<Rightarrow> json" where
  "json_string_array ss = JArray (map JString ss)"

definition json_nat :: "nat \<Rightarrow> json" where
  "json_nat n = JNumber (PosInt n)"

definition json_int :: "int \<Rightarrow> json" where
  "json_int i = JNumber (if i < 0 then NegInt i else PosInt (nat i))"

definition json_opt_str :: "string option \<Rightarrow> json" where
  "json_opt_str s = (case s of None \<Rightarrow> JNull | Some t \<Rightarrow> JString t)"

text \<open>\<open>value.get(key).and_then(Value::as_str)\<close> and \<open>value.get(key).cloned().unwrap_or(d)\<close>.\<close>

definition get_str :: "json \<Rightarrow> string \<Rightarrow> string option" where
  "get_str v k = Option.bind (json_get v k) as_str"

definition get_str_or :: "json \<Rightarrow> string \<Rightarrow> string \<Rightarrow> string" where
  "get_str_or v k d = (case get_str v k of None \<Rightarrow> d | Some s \<Rightarrow> s)"

definition get_or :: "json \<Rightarrow> string \<Rightarrow> json \<Rightarrow> json" where
  "get_or v k d = (case json_get v k of None \<Rightarrow> d | Some x \<Rightarrow> x)"

text \<open>The strings of an array, in order; anything else has none.\<close>

definition strings_of :: "json option \<Rightarrow> string list" where
  "strings_of v =
     (case Option.bind v as_array of None \<Rightarrow> [] | Some vs \<Rightarrow> List.map_filter as_str vs)"

lemma json_get_object: "json_get (json_object fs) k = map_of (rev fs) k"
  by (simp add: json_object_def bt_collect_lookup)

lemma strings_of_strings [simp]: "strings_of (Some (json_string_array ss)) = ss"
  by (induction ss) (auto simp: strings_of_def json_string_array_def List.map_filter_def)

subsection \<open>Strict documents\<close>

datatype strict_error = DuplicateField string

text \<open>\<open>UniqueJSONVisitor\<close>: the fields of an object come in document order; a key that
  is already present is an error before its value is read.\<close>

function unique_json :: "json \<Rightarrow> strict_error + json"
  and unique_items :: "json list \<Rightarrow> strict_error + json list"
  and unique_fields :: "(string \<times> json) list \<Rightarrow> (string \<times> json) list
      \<Rightarrow> strict_error + (string \<times> json) list" where
  "unique_json JNull = Inr JNull"
| "unique_json (JBool b) = Inr (JBool b)"
| "unique_json (JNumber n) = Inr (JNumber n)"
| "unique_json (JString s) = Inr (JString s)"
| "unique_json (JArray vs) = rbind (unique_items vs) (\<lambda>ws. Inr (JArray ws))"
| "unique_json (JObject fs) = rbind (unique_fields fs []) (\<lambda>m. Inr (JObject m))"
| "unique_items [] = Inr []"
| "unique_items (v # vs) =
     rbind (unique_json v) (\<lambda>w. rbind (unique_items vs) (\<lambda>ws. Inr (w # ws)))"
| "unique_fields [] m = Inr m"
| "unique_fields (e # fs) m =
     (if map_of m (fst e) \<noteq> None then Inl (DuplicateField (fst e))
      else rbind (unique_json (snd e)) (\<lambda>w. unique_fields fs (bt_insert (fst e) w m)))"
  by pat_completeness auto
termination
  by (relation "measure (\<lambda>x. case x of Inl v \<Rightarrow> size v
        | Inr (Inl vs) \<Rightarrow> size_list size vs
        | Inr (Inr (fs, m)) \<Rightarrow> size_list (size_prod (\<lambda>_. 0) size) fs)") auto

text \<open>No object of the document repeats a key.\<close>

function distinct_fields :: "json \<Rightarrow> bool" where
  "distinct_fields JNull = True"
| "distinct_fields (JBool b) = True"
| "distinct_fields (JNumber n) = True"
| "distinct_fields (JString s) = True"
| "distinct_fields (JArray vs) = (\<forall>v \<in> set vs. distinct_fields v)"
| "distinct_fields (JObject fs) =
     (distinct (map fst fs) \<and> (\<forall>e \<in> set fs. distinct_fields (snd e)))"
  by pat_completeness auto
termination
  by (relation "measure size") (auto dest: size_json_field size_json_item)

text \<open>What the strict visitor accepts, and the value it then builds.\<close>

lemma unique_fields_ok:
  assumes "\<And>e m. e \<in> set fs \<Longrightarrow> (unique_json (snd e) = Inr m \<longleftrightarrow>
      distinct_fields (snd e) \<and> m = sort_value (snd e))"
  shows "unique_fields fs m = Inr r \<longleftrightarrow>
    distinct (map fst fs) \<and> (\<forall>e \<in> set fs. map_of m (fst e) = None \<and> distinct_fields (snd e))
    \<and> r = fold (\<lambda>(k, v) m. bt_insert k v m) (map (\<lambda>e. (fst e, sort_value (snd e))) fs) m"
  using assms
proof (induction fs arbitrary: m)
  case Nil
  then show ?case by auto
next
  case (Cons e fs)
  have IH: "unique_fields fs m' = Inr r \<longleftrightarrow>
    distinct (map fst fs) \<and> (\<forall>e \<in> set fs. map_of m' (fst e) = None \<and> distinct_fields (snd e))
    \<and> r = fold (\<lambda>(k, v) m. bt_insert k v m) (map (\<lambda>e. (fst e, sort_value (snd e))) fs) m'"
    for m' by (rule Cons.IH) (simp add: Cons.prems)
  have e: "unique_json (snd e) = Inr w \<longleftrightarrow> distinct_fields (snd e) \<and> w = sort_value (snd e)" for w
    by (rule Cons.prems) simp
  show ?case
    by (auto simp: rbind_eq_Inr e IH bt_lookup_insert image_iff split: if_splits)
qed

lemma bt_collect_again: "bt_collect (bt_collect es) = bt_collect es"
  by (simp add: bt_collect_sorted)

lemma unique_json_ok:
  "unique_json v = Inr w \<longleftrightarrow> distinct_fields v \<and> w = sort_value v"
proof (induction v arbitrary: w rule: distinct_fields.induct)
  case (5 vs)
  have "unique_items vs = Inr ws \<longleftrightarrow>
      (\<forall>v \<in> set vs. distinct_fields v) \<and> ws = map sort_value vs" for ws
    using 5 by (induction vs arbitrary: ws) (auto simp: rbind_eq_Inr)
  then show ?case by (auto simp: rbind_eq_Inr)
next
  case (6 fs)
  have "unique_fields fs [] = Inr r \<longleftrightarrow>
    distinct (map fst fs) \<and> (\<forall>e \<in> set fs. distinct_fields (snd e))
    \<and> r = bt_collect (map (\<lambda>e. (fst e, sort_value (snd e))) fs)" for r
    using unique_fields_ok [of fs "[]" r] 6 by (simp add: bt_collect_def)
  then show ?case by (auto simp: rbind_eq_Inr bt_collect_again)
qed auto

lemma sort_value_wf: "json_wf (sort_value v)"
proof (induction v rule: sort_value.induct)
  case (1 fs)
  have "set (bt_collect es) \<subseteq> set es" for es :: "(string \<times> json) list"
  proof -
    have ins: "set (bt_insert k v m) \<subseteq> insert (k, v) (set m)" for k :: string and v :: json and m
      by (induction k v m rule: bt_insert.induct) auto
    have "set (fold (\<lambda>(k, v) m. bt_insert k v m) es m) \<subseteq> set es \<union> set m" for m
      using ins by (induction es arbitrary: m) fastforce+
    from this [of "[]"] show ?thesis by (simp add: bt_collect_def)
  qed
  with 1 show ?case by (fastforce simp: bt_collect_again)
qed auto

text \<open>The strict plan decoder accepts exactly the documents in which no object repeats
  a field, at any depth, and the value it builds is then the canonical form of the
  document (every object in key order, nothing else changed).\<close>

theorem strict_decode_iff:
  "unique_json doc = Inr v \<longleftrightarrow> distinct_fields doc \<and> v = sort_value doc"
  by (rule unique_json_ok)

text \<open>On the values a program can hold the two canonical encoders of the workspace
  agree and are idempotent, so the digest of a document does not depend on which crate
  canonicalised it, nor on how often.\<close>

theorem canonical_encoders_agree:
  "canonicalize (sort_value v) = sort_value v \<and> sort_value (sort_value v) = sort_value v
    \<and> (json_wf v \<longrightarrow> canonicalize v = sort_value v)"
  by (simp add: json_wf_canonicalize json_wf_sort_value sort_value_wf)

theorem canonical_encoders_agree_witness:
  "canonicalize (JObject [(''a'', JNull), (''b'', JBool True)]) =
    sort_value (JObject [(''a'', JNull), (''b'', JBool True)])"
proof -
  have "json_wf (JObject [(''a'', JNull), (''b'', JBool True)])" by (simp add: bt_wf_def)
  with canonical_encoders_agree show ?thesis by blast
qed

end
