(* ===== verification/Policy_Gate.thy ===== *)
theory Policy_Gate
  imports Json_Value
begin

text \<open>
  The data types of \<open>crates/ao2-core/src/lib.rs\<close> and the approval policy of
  \<open>crates/ao2-policy/src/lib.rs\<close>: the risk rule, the decision records, the exact-digest
  grant and the provider-key guard.  SHA-256, the JSON writer, fresh identifiers and the
  clock are arguments; a time is a number of nanoseconds.
\<close>

type_synonym timestamp = int

subsection \<open>Core types\<close>

datatype run_status =
    Created | Compiled | Queued | Running | WaitingForApproval | Blocked | Failed
  | Rejected | Accepted | AcceptedWithConcerns | Canceled | Replaying

record actor =
  actor_id :: string
  actor_kind :: string

definition actor_system :: actor where
  "actor_system = \<lparr>actor_id = ''system:ao2'', actor_kind = ''system''\<rparr>"

definition actor_human_local :: actor where
  "actor_human_local = \<lparr>actor_id = ''human:local-user'', actor_kind = ''human''\<rparr>"

definition actor_role :: "string \<Rightarrow> actor" where
  "actor_role r = \<lparr>actor_id = ''role:'' @ r, actor_kind = ''agent_role''\<rparr>"

record policy_integrity_binding =
  pib_identity :: string
  pib_version :: string
  pib_digest :: string

record ao_event =
  ev_event_id :: string
  ev_event_type :: string
  ev_run_id :: string
  ev_workflow_id :: string
  ev_role_id :: "string option"
  ev_task_id :: "string option"
  ev_timestamp :: timestamp
  ev_actor :: actor
  ev_causation_id :: "string option"
  ev_correlation_id :: string
  ev_trace_id :: string
  ev_span_id :: string
  ev_payload :: json
  ev_policy_integrity :: "policy_integrity_binding option"
  ev_payload_digest :: string
  ev_schema_version :: string
  ev_sensitivity :: string

record policy_decision =
  pd_decision_id :: string
  pd_principal :: string
  pd_action :: string
  pd_resource :: string
  pd_request_digest :: string
  pd_decision :: string
  pd_reason :: string
  pd_policy_version :: string
  pd_approval_ticket_id :: "string option"
  pd_created_at :: timestamp

record approval_ticket =
  tk_ticket_id :: string
  tk_run_id :: string
  tk_requested_action :: string
  tk_action_digest :: string
  tk_risk_class :: string
  tk_requester :: string
  tk_approver :: "string option"
  tk_status :: string
  tk_scope :: string
  tk_created_at :: timestamp
  tk_expires_at :: timestamp

record artifact_ref =
  ar_artifact_id :: string
  ar_artifact_type :: string
  ar_uri :: string
  ar_media_type :: string
  ar_digest :: string
  ar_producer :: string
  ar_input_refs :: "string list"
  ar_sensitivity :: string

record closure_report =
  cr_verdict :: string
  cr_acceptance_criteria_results :: "string list"
  cr_evidence_refs :: "string list"
  cr_unresolved_concerns :: "string list"
  cr_blockers :: "string list"
  cr_policy_exceptions :: "string list"
  cr_cost_summary :: string
  cr_created_at :: timestamp

subsection \<open>Event digests\<close>

definition binding_json :: "policy_integrity_binding \<Rightarrow> json" where
  "binding_json b = JObject
     [(''policy_digest'', JString (pib_digest b)), (''policy_identity'', JString (pib_identity b)),
      (''policy_version'', JString (pib_version b))]"

definition canonical_payload_digest ::
    "(string \<Rightarrow> string) \<Rightarrow> (json \<Rightarrow> string) \<Rightarrow> json \<Rightarrow> policy_integrity_binding option \<Rightarrow> string" where
  "canonical_payload_digest sha256_hex to_vec payload policy_integrity =
     (case policy_integrity of
        Some b \<Rightarrow> sha256_hex (to_vec
          (JObject [(''payload'', payload), (''policy_integrity'', binding_json b)]))
      | None \<Rightarrow> sha256_hex (to_vec payload))"

text \<open>\<open>AoEvent::new\<close>; \<open>uuid\<close> and \<open>now\<close> are the fresh identifier and the clock, \<open>shown\<close>
  the clock as the span text shows it.\<close>

definition ao_event_new ::
    "(string \<Rightarrow> string) \<Rightarrow> (json \<Rightarrow> string) \<Rightarrow> string \<Rightarrow> timestamp \<Rightarrow> string \<Rightarrow>
     string \<Rightarrow> string \<Rightarrow> string \<Rightarrow> string option \<Rightarrow> string option \<Rightarrow> actor \<Rightarrow> json \<Rightarrow> ao_event" where
  "ao_event_new sha256_hex to_vec uuid now shown run_id workflow_id event_type role_id task_id
      act payload =
     \<lparr>ev_event_id = ''evt-'' @ uuid, ev_event_type = event_type, ev_run_id = run_id,
      ev_workflow_id = workflow_id, ev_role_id = role_id, ev_task_id = task_id,
      ev_timestamp = now, ev_actor = act, ev_causation_id = None, ev_correlation_id = run_id,
      ev_trace_id = take 32 (sha256_hex (''trace:'' @ run_id)),
      ev_span_id = take 16 (sha256_hex (''span:'' @ run_id @ '':'' @ event_type @ '':'' @ shown)),
      ev_payload = payload, ev_policy_integrity = None,
      ev_payload_digest = sha256_hex (to_vec payload),
      ev_schema_version = ''ao2.event.v1'', ev_sensitivity = ''internal''\<rparr>"

definition with_policy_integrity ::
    "(string \<Rightarrow> string) \<Rightarrow> (json \<Rightarrow> string) \<Rightarrow> policy_integrity_binding \<Rightarrow> ao_event \<Rightarrow> ao_event" where
  "with_policy_integrity sha256_hex to_vec b ev =
     (let ev = ev\<lparr>ev_policy_integrity := Some b\<rparr> in
      ev\<lparr>ev_payload_digest :=
           canonical_payload_digest sha256_hex to_vec (ev_payload ev) (ev_policy_integrity ev)\<rparr>)"

subsection \<open>Tool requests\<close>

record tool_request =
  tr_principal :: string
  tr_tool :: string
  tr_operation :: string
  tr_resource :: string
  tr_args :: "string list"
  tr_expected_side_effects :: "string list"

definition policy_version :: string where
  "policy_version = ''ao2.local.deny-by-default.v1''"

definition policy_identity :: string where
  "policy_identity = ''ao2-policy.local''"

definition action_digest ::
    "(string \<Rightarrow> string) \<Rightarrow> (tool_request \<Rightarrow> string) \<Rightarrow> tool_request \<Rightarrow> string" where
  "action_digest sha256_hex to_vec req =
     (if tr_tool req = ''sandbox'' \<and> tr_operation req = ''apply'' \<and> length (tr_args req) > 1
      then tr_args req ! 1
      else sha256_hex (to_vec req))"

definition integrity_binding ::
    "(string \<Rightarrow> string) \<Rightarrow> (policy_decision \<Rightarrow> string) \<Rightarrow> policy_decision \<Rightarrow> policy_integrity_binding" where
  "integrity_binding sha256_hex to_vec d =
     \<lparr>pib_identity = policy_identity, pib_version = pd_policy_version d,
      pib_digest = sha256_hex (to_vec d)\<rparr>"

text \<open>\<open>env_has\<close> tells whether the environment has a variable.\<close>

definition fail_on_forbidden_provider_api_keys :: "(string \<Rightarrow> bool) \<Rightarrow> unit rresult" where
  "fail_on_forbidden_provider_api_keys env_has =
     first_err (map (\<lambda>key. bail_if (env_has key)
         (''forbidden provider API key present in environment: '' @ key))
       [''OPENAI_API_KEY'', ''ANTHROPIC_API_KEY''])"

definition risky_side_effects :: "string list" where
  "risky_side_effects =
     [''external_write'', ''network_egress'', ''destructive'', ''package_install'',
      ''broad_write'', ''raw_secret_access'']"

definition is_risky :: "tool_request \<Rightarrow> bool" where
  "is_risky req =
     (let joined = join '' '' (tr_args req) in
      (tr_tool req = ''git'' \<and> tr_operation req = ''push'')
      \<or> tr_tool req = ''network''
      \<or> tr_tool req = ''package_manager''
      \<or> tr_tool req = ''secret''
      \<or> tr_operation req = ''write_tree''
      \<or> contains (tr_operation req) ''delete''
      \<or> contains joined ''rm -rf''
      \<or> contains joined ''..''
      \<or> list_ex (\<lambda>v. v \<in> set risky_side_effects) (tr_expected_side_effects req))"

definition evaluate ::
    "(string \<Rightarrow> string) \<Rightarrow> (tool_request \<Rightarrow> string) \<Rightarrow> string \<Rightarrow> timestamp \<Rightarrow> tool_request \<Rightarrow> policy_decision" where
  "evaluate sha256_hex to_vec uuid now req =
     (let risky = is_risky req in
      \<lparr>pd_decision_id = ''pol-'' @ uuid,
       pd_principal = tr_principal req,
       pd_action = tr_tool req @ '':'' @ tr_operation req,
       pd_resource = tr_resource req,
       pd_request_digest = action_digest sha256_hex to_vec req,
       pd_decision = (if risky then ''requires_approval'' else ''allow''),
       pd_reason = (if risky then ''risky side effect requires exact-digest human approval''
                    else ''allowed by local MVP policy''),
       pd_policy_version = policy_version,
       pd_approval_ticket_id = None,
       pd_created_at = now\<rparr>)"

definition deny ::
    "(string \<Rightarrow> string) \<Rightarrow> (tool_request \<Rightarrow> string) \<Rightarrow> string \<Rightarrow> timestamp \<Rightarrow> tool_request \<Rightarrow> string \<Rightarrow>
     policy_decision" where
  "deny sha256_hex to_vec uuid now req reason =
     \<lparr>pd_decision_id = ''pol-'' @ uuid,
      pd_principal = tr_principal req,
      pd_action = tr_tool req @ '':'' @ tr_operation req,
      pd_resource = tr_resource req,
      pd_request_digest = action_digest sha256_hex to_vec req,
      pd_decision = ''deny'',
      pd_reason = reason,
      pd_policy_version = policy_version,
      pd_approval_ticket_id = None,
      pd_created_at = now\<rparr>"

definition minutes :: "int \<Rightarrow> timestamp" where
  "minutes n = n * 60 * 1000000000"

text \<open>The clock is read twice, first for \<open>created_at\<close> and then for \<open>expires_at\<close>.\<close>

definition create_approval_ticket ::
    "(string \<Rightarrow> string) \<Rightarrow> (tool_request \<Rightarrow> string) \<Rightarrow> string \<Rightarrow> timestamp \<Rightarrow> timestamp \<Rightarrow>
     string \<Rightarrow> tool_request \<Rightarrow> approval_ticket" where
  "create_approval_ticket sha256_hex to_vec uuid now now' run_id req =
     \<lparr>tk_ticket_id = ''approval-'' @ uuid,
      tk_run_id = run_id,
      tk_requested_action = tr_tool req @ '':'' @ tr_operation req,
      tk_action_digest = action_digest sha256_hex to_vec req,
      tk_risk_class = ''external_write'',
      tk_requester = tr_principal req,
      tk_approver = None,
      tk_status = ''pending'',
      tk_scope = tr_resource req,
      tk_created_at = now,
      tk_expires_at = now' + minutes 30\<rparr>"

definition grant_exact ::
    "(string \<Rightarrow> string) \<Rightarrow> (tool_request \<Rightarrow> string) \<Rightarrow> approval_ticket \<Rightarrow> string \<Rightarrow> tool_request \<Rightarrow>
     approval_ticket rresult" where
  "grant_exact sha256_hex to_vec ticket approver req =
     (if tk_action_digest ticket \<noteq> action_digest sha256_hex to_vec req
      then Inl ''approval digest mismatch; modified action requires new approval''
      else Inr (ticket\<lparr>tk_approver := Some approver, tk_status := ''approved''\<rparr>))"

subsection \<open>Properties\<close>

text \<open>The risk rule cannot be dodged by how a command is cut into arguments: a request
  whose argument vector contains \<open>rm\<close> followed by \<open>-rf\<close>, or any argument with a parent
  directory component \<open>..\<close>, or a risky side effect, is never allowed without approval.\<close>

theorem risky_arguments_need_approval:
  assumes "(\<exists>xs ys. tr_args req = xs @ [''rm'', ''-rf''] @ ys)
    \<or> (\<exists>a \<in> set (tr_args req). contains a ''..'')
    \<or> set (tr_expected_side_effects req) \<inter> set risky_side_effects \<noteq> {}"
  shows "pd_decision (evaluate sha to_vec uuid now req) = ''requires_approval''"
proof -
  have "is_risky req"
    using assms
  proof (elim disjE)
    assume "\<exists>xs ys. tr_args req = xs @ [''rm'', ''-rf''] @ ys"
    then obtain xs ys where "tr_args req = xs @ [''rm'', ''-rf''] @ ys" by blast
    then have "contains (join '' '' (tr_args req)) ''rm -rf''"
      using contains_join_part [where sep = "'' ''" and ys = "[''rm'', ''-rf'']"] by simp
    then show ?thesis by (simp add: is_risky_def Let_def)
  next
    assume "\<exists>a \<in> set (tr_args req). contains a ''..''"
    then have "contains (join '' '' (tr_args req)) ''..''"
      using contains_join contains_trans by blast
    then show ?thesis by (simp add: is_risky_def Let_def)
  next
    assume "set (tr_expected_side_effects req) \<inter> set risky_side_effects \<noteq> {}"
    then show ?thesis by (auto simp: is_risky_def Let_def list_ex_iff)
  qed
  then show ?thesis by (simp add: evaluate_def Let_def)
qed

theorem risky_arguments_need_approval_witness:
  "pd_decision (evaluate id tr_tool ''1'' 0
     \<lparr>tr_principal = ''p'', tr_tool = ''shell'', tr_operation = ''exec'', tr_resource = ''r'',
      tr_args = [''sudo'', ''rm'', ''-rf'', ''x''], tr_expected_side_effects = []\<rparr>) =
   ''requires_approval''"
proof (rule risky_arguments_need_approval)
  have "[''sudo'', ''rm'', ''-rf'', ''x''] = [''sudo''] @ [''rm'', ''-rf''] @ [''x'']" by simp
  then show "(\<exists>xs ys. tr_args \<lparr>tr_principal = ''p'', tr_tool = ''shell'', tr_operation = ''exec'',
      tr_resource = ''r'', tr_args = [''sudo'', ''rm'', ''-rf'', ''x''],
      tr_expected_side_effects = []\<rparr> = xs @ [''rm'', ''-rf''] @ ys)
    \<or> (\<exists>a \<in> set (tr_args \<lparr>tr_principal = ''p'', tr_tool = ''shell'', tr_operation = ''exec'',
      tr_resource = ''r'', tr_args = [''sudo'', ''rm'', ''-rf'', ''x''],
      tr_expected_side_effects = []\<rparr>). contains a ''..'')
    \<or> set (tr_expected_side_effects \<lparr>tr_principal = ''p'', tr_tool = ''shell'',
      tr_operation = ''exec'', tr_resource = ''r'', tr_args = [''sudo'', ''rm'', ''-rf'', ''x''],
      tr_expected_side_effects = []\<rparr>) \<inter> set risky_side_effects \<noteq> {}"
    unfolding tool_request.select_convs by blast
qed

text \<open>An approval holds for exactly the action it was requested for: where the digest
  tells the two requests apart, the ticket created for one request can be granted for the
  other only if they are the same request, and granting changes nothing but the approver
  and the status.\<close>

theorem grant_binds_the_exact_action:
  assumes "action_digest sha to_vec req' = action_digest sha to_vec req \<Longrightarrow> req' = req"
  shows "grant_exact sha to_vec (create_approval_ticket sha to_vec uuid now now' run req) who req'
      = Inr ticket
    \<longleftrightarrow> req' = req \<and> ticket = (create_approval_ticket sha to_vec uuid now now' run req)
          \<lparr>tk_approver := Some who, tk_status := ''approved''\<rparr>"
  using assms by (auto simp: grant_exact_def create_approval_ticket_def)

theorem grant_binds_the_exact_action_witness:
  "\<nexists>t. grant_exact id tr_operation (create_approval_ticket id tr_operation ''u'' 0 1 ''r''
      \<lparr>tr_principal = ''p'', tr_tool = ''git'', tr_operation = ''push'', tr_resource = ''r'',
       tr_args = [], tr_expected_side_effects = []\<rparr>) ''me''
      \<lparr>tr_principal = ''p'', tr_tool = ''git'', tr_operation = ''delete'', tr_resource = ''r'',
       tr_args = [], tr_expected_side_effects = []\<rparr> = Inr t"
proof -
  let ?req = "\<lparr>tr_principal = ''p'', tr_tool = ''git'', tr_operation = ''push'', tr_resource = ''r'',
       tr_args = [], tr_expected_side_effects = []\<rparr>"
  let ?req' = "\<lparr>tr_principal = ''p'', tr_tool = ''git'', tr_operation = ''delete'',
       tr_resource = ''r'', tr_args = [], tr_expected_side_effects = []\<rparr>"
  have "action_digest id tr_operation ?req' = action_digest id tr_operation ?req \<Longrightarrow> ?req' = ?req"
    by (simp add: action_digest_def)
  from grant_binds_the_exact_action [OF this] show ?thesis by simp
qed

end
