(* ===== verification/Atomic_Write.thy ===== *)
theory Atomic_Write
  imports Rust_Prelude
begin

text \<open>
  \<open>atomic_write\<close> of \<open>crates/ao2-core/src/lib.rs\<close>: the write discipline of the evidence
  store.  The file system is a map from paths to files; a file has the content that
  readers see and whether that content has reached the disk.  Each system call may fail:
  whether it does is read from a list of outcomes, a failing call leaving the file
  system as it is except that a failing \<open>write_all\<close> leaves some part of the bytes.
\<close>

record disk_file =
  f_content :: string
  f_durable :: bool

type_synonym file_system = "string \<Rightarrow> disk_file option"

text \<open>The answers of the operating system during one call of \<open>atomic_write\<close>; a failing
  write has pushed the first \<open>os_written\<close> bytes.\<close>

record os_outcome =
  os_create :: bool
  os_write :: bool
  os_written :: nat
  os_sync :: bool
  os_rename :: bool
  os_remove :: bool

datatype io_step =
    CreateFile string
  | WriteAll string string
  | SyncAll string
  | RenameTo string string
  | RemoveFile string

text \<open>The effect of one successful call.  \<open>File::create\<close> truncates; \<open>rename\<close> moves the
  file over the target in one step.\<close>

fun io_effect :: "io_step \<Rightarrow> file_system \<Rightarrow> file_system" where
  "io_effect (CreateFile p) fs = fs(p \<mapsto> \<lparr>f_content = [], f_durable = False\<rparr>)"
| "io_effect (WriteAll p bytes) fs =
     (case fs p of None \<Rightarrow> fs
      | Some f \<Rightarrow> fs(p \<mapsto> \<lparr>f_content = f_content f @ bytes, f_durable = False\<rparr>))"
| "io_effect (SyncAll p) fs =
     (case fs p of None \<Rightarrow> fs | Some f \<Rightarrow> fs(p \<mapsto> f\<lparr>f_durable := True\<rparr>))"
| "io_effect (RenameTo p q) fs = (case fs p of None \<Rightarrow> fs | Some f \<Rightarrow> (fs(p := None))(q \<mapsto> f))"
| "io_effect (RemoveFile p) fs = fs(p := None)"

text \<open>The temporary file's name beside the target.\<close>

definition tmp_name :: "string \<Rightarrow> string \<Rightarrow> nat \<Rightarrow> nat \<Rightarrow> string" where
  "tmp_name dir file_name pid counter =
     dir @ ''/.'' @ file_name @ ''.tmp.'' @ show_nat pid @ ''.'' @ show_nat counter"

text \<open>The calls one invocation makes, in order, and whether it returns \<open>Ok\<close>.\<close>

definition atomic_write_steps ::
    "os_outcome \<Rightarrow> string \<Rightarrow> string \<Rightarrow> string \<Rightarrow> io_step list \<times> bool" where
  "atomic_write_steps os tmp path bytes =
     (let cleanup = (if os_remove os then [RemoveFile tmp] else []) in
      if \<not> os_create os then (cleanup, False)
      else if \<not> os_write os
        then ([CreateFile tmp, WriteAll tmp (take (os_written os) bytes)] @ cleanup, False)
      else if \<not> os_sync os then ([CreateFile tmp, WriteAll tmp bytes] @ cleanup, False)
      else if \<not> os_rename os
        then ([CreateFile tmp, WriteAll tmp bytes, SyncAll tmp] @ cleanup, False)
      else ([CreateFile tmp, WriteAll tmp bytes, SyncAll tmp, RenameTo tmp path], True))"

definition run_io :: "io_step list \<Rightarrow> file_system \<Rightarrow> file_system" where
  "run_io steps fs = fold io_effect steps fs"

definition atomic_write ::
    "os_outcome \<Rightarrow> string \<Rightarrow> string \<Rightarrow> string \<Rightarrow> file_system \<Rightarrow> file_system \<times> bool" where
  "atomic_write os tmp path bytes fs =
     (case atomic_write_steps os tmp path bytes of (steps, ok) \<Rightarrow> (run_io steps fs, ok))"

text \<open>What a reader may find after a crash: a durable file keeps its content, any other
  file may be cut at any length.\<close>

definition after_crash :: "file_system \<Rightarrow> string \<Rightarrow> string option \<Rightarrow> bool" where
  "after_crash fs p r \<longleftrightarrow>
     (case fs p of None \<Rightarrow> r = None
      | Some f \<Rightarrow> if f_durable f then r = Some (f_content f)
                 else \<exists>n. r = Some (take n (f_content f)))"

lemma run_io_Nil [simp]: "run_io [] fs = fs"
  and run_io_Cons [simp]: "run_io (s # ss) fs = run_io ss (io_effect s fs)"
  by (simp_all add: run_io_def)

text \<open>Every prefix of the calls leaves the target as it was, or holds the new content
  durably after the rename.\<close>

lemma prefix_states:
  assumes "tmp \<noteq> path" and "prefix steps (fst (atomic_write_steps os tmp path bytes))"
  shows "run_io steps fs path = fs path
    \<or> run_io steps fs path = Some \<lparr>f_content = bytes, f_durable = True\<rparr>"
  using assms
  by (auto simp: atomic_write_steps_def Let_def prefix_Cons split: if_splits option.split)

text \<open>C20: An evidence file is never torn: whatever system call of \<open>atomic_write\<close> fails and
  after whichever call the machine crashes, a reader of the target finds the complete new
  content or exactly what it could have found before the call.\<close>

theorem atomic_write_crash_safe:
  assumes "tmp \<noteq> path" and "prefix steps (fst (atomic_write_steps os tmp path bytes))"
    and "after_crash (run_io steps fs) path r"
  shows "r = Some bytes \<or> after_crash fs path r"
  using prefix_states [OF assms(1,2), of fs] assms(3)
  by (elim disjE) (simp_all add: after_crash_def)

theorem atomic_write_crash_safe_witness:
  "Some ''old'' = Some ''new'' \<or>
    after_crash [''p'' \<mapsto> \<lparr>f_content = ''old'', f_durable = True\<rparr>] ''p'' (Some ''old'')"
proof (rule atomic_write_crash_safe)
  let ?os = "\<lparr>os_create = True, os_write = True, os_written = 0, os_sync = True,
    os_rename = True, os_remove = True\<rparr>"
  show "''t'' \<noteq> ''p''" by simp
  show "prefix [CreateFile ''t'', WriteAll ''t'' ''new'']
      (fst (atomic_write_steps ?os ''t'' ''p'' ''new''))"
    by (simp add: atomic_write_steps_def)
  show "after_crash (run_io [CreateFile ''t'', WriteAll ''t'' ''new'']
      [''p'' \<mapsto> \<lparr>f_content = ''old'', f_durable = True\<rparr>]) ''p'' (Some ''old'')"
    by (simp add: after_crash_def)
qed

lemma atomic_write_effect:
  assumes "tmp \<noteq> path" and "atomic_write os tmp path bytes fs = (fs', ok)"
  shows "fs' path = (if ok then Some \<lparr>f_content = bytes, f_durable = True\<rparr> else fs path)
    \<and> (ok \<or> os_remove os \<longrightarrow> fs' tmp = None)
    \<and> (\<forall>q. q \<noteq> path \<longrightarrow> q \<noteq> tmp \<longrightarrow> fs' q = fs q)"
  using assms
  by (auto simp: atomic_write_def atomic_write_steps_def Let_def split: if_splits)

text \<open>The result of \<open>atomic_write\<close> tells what happened: \<open>Ok\<close> means that the target
  durably holds the bytes and the temporary file is gone, an error that the target is
  untouched (and, where the clean-up succeeds, no temporary file is left); no other path
  changes.\<close>

theorem atomic_write_result:
  assumes "tmp \<noteq> path" and "atomic_write os tmp path bytes fs = (fs', ok)"
  shows "fs' path = (if ok then Some \<lparr>f_content = bytes, f_durable = True\<rparr> else fs path)
    \<and> (ok \<or> os_remove os \<longrightarrow> fs' tmp = None)
    \<and> (\<forall>q. q \<noteq> path \<longrightarrow> q \<noteq> tmp \<longrightarrow> fs' q = fs q)"
  using atomic_write_effect [OF assms] .

theorem atomic_write_result_witness:
  "fst (atomic_write \<lparr>os_create = True, os_write = True, os_written = 0, os_sync = False,
      os_rename = True, os_remove = True\<rparr> ''t'' ''p'' ''new'' Map.empty) ''t'' = None"
proof -
  let ?os = "\<lparr>os_create = True, os_write = True, os_written = 0, os_sync = False,
    os_rename = True, os_remove = True\<rparr>"
  have "''t'' \<noteq> ''p''" by simp
  from atomic_write_result [OF this, of ?os "''new''" Map.empty] show ?thesis
    by (cases "atomic_write ?os ''t'' ''p'' ''new'' Map.empty") auto
qed

end
