(* ===== verification/File_Tree.thy ===== *)
theory File_Tree
  imports Rust_Prelude
begin

text \<open>
  The directory trees that the evidence search and the surface scan walk.  A file has the
  length its metadata reports and the content that the read call of the walk returns
  (\<open>fs::read_to_string\<close> or \<open>fs::read\<close>), \<open>None\<close> where that call fails; a directory lists its entries in the order
  \<open>read_dir\<close> returns them; symbolic links are followed, so a link is what it points to.
  Paths below the root are lists of names.
\<close>

datatype fs_node =
    FsFile nat "string option"
  | FsDir "(string \<times> fs_node) list"
  | FsOther
  | FsError string

text \<open>\<open>Path::extension\<close> of a file name.\<close>

definition file_extension :: "string \<Rightarrow> string option" where
  "file_extension name =
     (if name = ''..'' then None
      else case dropWhile (\<lambda>c. c \<noteq> CHR ''.'') (rev name) of
        [] \<Rightarrow> None
      | _ # stem \<Rightarrow> if stem = [] then None else Some (rev (takeWhile (\<lambda>c. c \<noteq> CHR ''.'') (rev name))))"

text \<open>A path below the root as the code prints it, with \<open>/\<close> for every backslash.\<close>

definition slashed :: "string \<Rightarrow> string" where
  "slashed s = map (\<lambda>c. if c = CHR 0x5C then CHR ''/'' else c) s"

definition relative_path :: "string list \<Rightarrow> string" where
  "relative_path rel = slashed (join ''/'' rel)"

text \<open>The node that the operating system finds for the raw text of a relative path: an
  empty component (a repeated or trailing slash) and \<open>.\<close> need a directory and stay there.\<close>

fun resolve :: "fs_node \<Rightarrow> string list \<Rightarrow> fs_node option" where
  "resolve n [] = Some n"
| "resolve n (c # cs) =
     (case n of
        FsDir entries \<Rightarrow>
          if c = [] \<or> c = ''.'' then resolve n cs
          else (case map_of entries c of None \<Rightarrow> None | Some m \<Rightarrow> resolve m cs)
      | _ \<Rightarrow> None)"

definition read_to_string :: "fs_node \<Rightarrow> string \<Rightarrow> string option" where
  "read_to_string tree path =
     (case resolve tree (split_byte CHR ''/'' path) of
        Some (FsFile len content) \<Rightarrow> content | _ \<Rightarrow> None)"

text \<open>The names of every directory of the tree are distinct, contain no slash and are
  none of the special names.\<close>

definition entry_name_ok :: "string \<Rightarrow> bool" where
  "entry_name_ok n \<longleftrightarrow> n \<noteq> [] \<and> n \<noteq> ''.'' \<and> n \<noteq> ''..'' \<and> CHR ''/'' \<notin> set n"

lemma size_fs_entry: "e \<in> set es \<Longrightarrow> size (snd e) < size (FsDir es)"
  by (induction es) auto

function tree_ok :: "fs_node \<Rightarrow> bool" where
  "tree_ok (FsDir es) =
     (distinct (map fst es) \<and> (\<forall>e \<in> set es. entry_name_ok (fst e) \<and> tree_ok (snd e)))"
| "tree_ok (FsFile len content) = True"
| "tree_ok FsOther = True"
| "tree_ok (FsError msg) = True"
  by pat_completeness auto
termination
  by (relation "measure size") (auto dest: size_fs_entry)

text \<open>The entries of a directory are visited one after the other; the first error ends the
  walk.\<close>

fun walk_children :: "('a \<Rightarrow> string + 'b list) \<Rightarrow> 'a list \<Rightarrow> string + 'b list" where
  "walk_children f [] = Inr []"
| "walk_children f (x # xs) =
     rbind (f x) (\<lambda>here. rbind (walk_children f xs) (\<lambda>rest. Inr (here @ rest)))"

lemma walk_children_cong [fundef_cong]:
  "xs = ys \<Longrightarrow> (\<And>y. y \<in> set ys \<Longrightarrow> f y = g y) \<Longrightarrow> walk_children f xs = walk_children g ys"
  by (induction xs arbitrary: ys) auto

lemma walk_children_member:
  assumes "walk_children f xs = Inr out" and "y \<in> set out"
  shows "\<exists>x here. x \<in> set xs \<and> f x = Inr here \<and> y \<in> set here"
  using assms by (induction xs arbitrary: out) (fastforce simp: rbind_eq_Inr)+

lemma walk_children_complete:
  assumes "walk_children f xs = Inr out" and "x \<in> set xs"
  shows "\<exists>here. f x = Inr here \<and> set here \<subseteq> set out"
  using assms by (induction xs arbitrary: out) (fastforce simp: rbind_eq_Inr)+

lemma split_byte_join:
  assumes "list_all (\<lambda>n. ch \<notin> set n) ns" and "ns \<noteq> []"
  shows "split_byte ch (join [ch] ns) = ns"
  using assms
proof (induction ns)
  case Nil
  then show ?case by simp
next
  case (Cons n ns)
  have n: "\<forall>c \<in> set n. c \<noteq> ch" using Cons.prems(1) by auto
  show ?case
  proof (cases "ns = []")
    case True
    with n show ?thesis by (simp add: split_byte.simps dropWhile_eq_Nil_conv [THEN iffD2])
  next
    case False
    with n have "dropWhile (\<lambda>c. c \<noteq> ch) (join [ch] (n # ns)) = ch # join [ch] ns"
      and "takeWhile (\<lambda>c. c \<noteq> ch) (join [ch] (n # ns)) = n"
      by (simp_all add: join_Cons dropWhile_append2 takeWhile_append2)
    with Cons False show ?thesis by (subst split_byte.simps) simp
  qed
qed

lemma resolve_append:
  "resolve n (p @ q) = (case resolve n p of None \<Rightarrow> None | Some m \<Rightarrow> resolve m q)"
  by (induction n p rule: resolve.induct) (auto split: fs_node.splits option.splits)

end
