(* ===== verification/Obligations.thy ===== *)
theory Obligations
  imports File_Tree Policy_Gate
begin

text \<open>
  The obligation ledger of \<open>crates/ao2-core/src/obligations.rs\<close>: extraction of obligations
  from a contract text, the check against a source tree, annotations, and the summary
  with the verdict.  The tree is an \<open>fs_node\<close>, the clock and SHA-256 are arguments.
\<close>

subsection \<open>Data\<close>

datatype obligation_status = OPass | OFail | OUnverified | OWaived

datatype obligation_verdict = OAccepted | ORejected

record obligation_evidence =
  oe_path :: string
  oe_line :: nat
  oe_detail :: string

record obligation =
  ob_id :: string
  ob_kind :: string
  ob_statement :: string
  ob_source_path :: string
  ob_source_line :: nat
  ob_source_excerpt_hash :: string
  ob_expected_fragments :: "string list"
  ob_status :: obligation_status
  ob_evidence :: "obligation_evidence list"
  ob_waiver :: "string option"

record obligation_source_contract =
  sc_path :: string
  sc_sha256 :: string

record obligation_summary =
  os_pass :: nat
  os_fail :: nat
  os_unverified :: nat
  os_waived :: nat

record obligation_ledger =
  ol_schema_version :: string
  ol_source_contracts :: "obligation_source_contract list"
  ol_obligations :: "obligation list"
  ol_summary :: obligation_summary
  ol_verdict :: obligation_verdict
  ol_created_at :: timestamp

subsection \<open>Summary and verdict\<close>

fun count_status :: "obligation_status \<Rightarrow> obligation_summary \<Rightarrow> obligation_summary" where
  "count_status OPass s = s\<lparr>os_pass := os_pass s + 1\<rparr>"
| "count_status OFail s = s\<lparr>os_fail := os_fail s + 1\<rparr>"
| "count_status OUnverified s = s\<lparr>os_unverified := os_unverified s + 1\<rparr>"
| "count_status OWaived s = s\<lparr>os_waived := os_waived s + 1\<rparr>"

definition empty_summary :: obligation_summary where
  "empty_summary = \<lparr>os_pass = 0, os_fail = 0, os_unverified = 0, os_waived = 0\<rparr>"

definition refresh_summary_and_verdict :: "obligation_ledger \<Rightarrow> obligation_ledger" where
  "refresh_summary_and_verdict l =
     (let summary = fold (\<lambda>ob. count_status (ob_status ob)) (ol_obligations l) empty_summary in
      l\<lparr>ol_summary := summary,
        ol_verdict := (if os_fail summary = 0 \<and> os_unverified summary = 0
                       then OAccepted else ORejected)\<rparr>)"

subsection \<open>Extraction\<close>

definition clean_statement :: "string \<Rightarrow> string" where
  "clean_statement raw_line =
     trim (dropWhile (\<lambda>c. is_ascii_digit c \<or> c = CHR ''.'')
            (dropWhile (\<lambda>c. c = CHR ''*'') (dropWhile (\<lambda>c. c = CHR ''-'') (trim raw_line))))"

definition is_obligation_statement :: "string \<Rightarrow> bool" where
  "is_obligation_statement statement =
     (let lower = to_ascii_lowercase statement in
      list_ex (contains lower)
        [''must'', ''shall'', ''required'', ''acceptance'', ''rubric'', ''preserve'',
         ''unchanged'', ''verbatim''])"

definition obligation_kind :: "string \<Rightarrow> string" where
  "obligation_kind statement =
     (let lower = to_ascii_lowercase statement in
      if list_ex (contains lower) [''must not'', ''shall not'', ''forbidden''] then ''must_not''
      else if list_ex (contains lower)
          [''preserve'', ''unchanged'', ''verbatim'', ''exact'', ''equation'']
        then ''content_preservation''
      else if contains lower ''acceptance'' then ''acceptance''
      else if contains lower ''rubric'' then ''rubric''
      else ''must'')"

text \<open>The loop of \<open>delimited_fragments\<close>: the flag \<open>in_fragment\<close>, the characters collected
  so far and the rest of the statement.\<close>

fun delimited_loop :: "char \<Rightarrow> bool \<Rightarrow> string \<Rightarrow> string \<Rightarrow> string list" where
  "delimited_loop delimiter in_fragment current [] = []"
| "delimited_loop delimiter in_fragment current (ch # rest) =
     (if ch = delimiter then
        (if in_fragment then trim current # delimited_loop delimiter False [] rest
         else delimited_loop delimiter True current rest)
      else if in_fragment then delimited_loop delimiter True (current @ [ch]) rest
      else delimited_loop delimiter False current rest)"

definition delimited_fragments :: "string \<Rightarrow> char \<Rightarrow> string list" where
  "delimited_fragments statement delimiter = delimited_loop delimiter False [] statement"

definition expected_fragments :: "string \<Rightarrow> string list" where
  "expected_fragments statement =
     filter (\<lambda>fragment. trim fragment \<noteq> [])
       (remdups_adj (sort (delimited_fragments statement CHR 0x60
          @ delimited_fragments statement CHR ''$'')))"

definition extract_obligation ::
    "(string \<Rightarrow> string) \<Rightarrow> string \<Rightarrow> nat \<Rightarrow> string \<Rightarrow> obligation option" where
  "extract_obligation sha256_hex source_path source_line raw_line =
     (let statement = clean_statement raw_line in
      if statement = [] \<or> \<not> is_obligation_statement statement then None
      else Some
        \<lparr>ob_id = [], ob_kind = obligation_kind statement, ob_statement = statement,
         ob_source_path = source_path, ob_source_line = source_line,
         ob_source_excerpt_hash = ''sha256:'' @ sha256_hex statement,
         ob_expected_fragments = expected_fragments statement,
         ob_status = OUnverified, ob_evidence = [], ob_waiver = None\<rparr>)"

text \<open>\<open>{number:03}\<close>\<close>

definition show_pad3 :: "nat \<Rightarrow> string" where
  "show_pad3 n = replicate (3 - length (show_nat n)) CHR ''0'' @ show_nat n"

definition extract_obligation_ledger ::
    "(string \<Rightarrow> string) \<Rightarrow> timestamp \<Rightarrow> string \<Rightarrow> string \<Rightarrow> obligation_ledger" where
  "extract_obligation_ledger sha256_hex now source_path content =
     (let found = List.map_filter (\<lambda>(index, line). extract_obligation sha256_hex source_path
            (index + 1) line) (enumerate 0 (str_lines content));
          obligations = map (\<lambda>(index, ob). ob\<lparr>ob_id := ''OBL-'' @ show_pad3 (index + 1)\<rparr>)
            (enumerate 0 found)
      in refresh_summary_and_verdict
        \<lparr>ol_schema_version = ''ao2.obligation-ledger.v1'',
         ol_source_contracts =
           [\<lparr>sc_path = source_path, sc_sha256 = ''sha256:'' @ sha256_hex content\<rparr>],
         ol_obligations = obligations, ol_summary = empty_summary, ol_verdict = ORejected,
         ol_created_at = now\<rparr>)"

subsection \<open>The search over a source tree\<close>

definition should_exclude_generated_evidence_dir :: "string list \<Rightarrow> bool" where
  "should_exclude_generated_evidence_dir parts \<longleftrightarrow>
     prefix [''docs'', ''status''] parts \<or> prefix [''docs'', ''evaluations''] parts"

definition searchable_extensions :: "string list" where
  "searchable_extensions =
     [''md'', ''txt'', ''rs'', ''toml'', ''json'', ''yaml'', ''yml'', ''py'', ''js'', ''jsx'',
      ''ts'', ''tsx'', ''html'', ''css'']"

definition is_searchable_file :: "string \<Rightarrow> nat \<Rightarrow> bool" where
  "is_searchable_file name len \<longleftrightarrow>
     len \<le> 2000000 \<and>
     (case file_extension name of None \<Rightarrow> False | Some e \<Rightarrow> e \<in> set searchable_extensions)"

lemma is_searchable_file_code [code]:
  "is_searchable_file name len \<longleftrightarrow>
     int len \<le> 2000000 \<and>
     (case file_extension name of None \<Rightarrow> False | Some e \<Rightarrow> e \<in> set searchable_extensions)"
  by (auto simp: is_searchable_file_def)

definition skipped_entry :: "string \<Rightarrow> bool" where
  "skipped_entry name \<longleftrightarrow> name \<in> set [''.ao2'', ''.git'', ''target'', ''node_modules'']"

function collect_searchable_files ::
    "string list \<Rightarrow> string list \<Rightarrow> string \<Rightarrow> fs_node \<Rightarrow> string + string list list" where
  "collect_searchable_files source_paths rel name (FsFile len content) =
     Inr (if \<not> list_ex (\<lambda>source. source = relative_path rel) source_paths
             \<and> is_searchable_file name len then [rel] else [])"
| "collect_searchable_files source_paths rel name FsOther = Inr []"
| "collect_searchable_files source_paths rel name (FsError msg) = Inl msg"
| "collect_searchable_files source_paths rel name (FsDir entries) =
     walk_children (\<lambda>e.
       if skipped_entry (fst e) then Inr []
       else if should_exclude_generated_evidence_dir (rel @ [fst e]) then Inr []
       else collect_searchable_files source_paths (rel @ [fst e]) (fst e) (snd e)) entries"
  by pat_completeness auto
termination
  by (relation "measure (\<lambda>(_, _, _, n). size n)") (auto dest: size_fs_entry)

definition searchable_files ::
    "string \<Rightarrow> fs_node \<Rightarrow> string list \<Rightarrow> string + string list list" where
  "searchable_files root_name tree source_paths =
     rbind (collect_searchable_files source_paths [] root_name tree) (\<lambda>files. Inr (sort files))"

definition read_node :: "fs_node \<Rightarrow> string list \<Rightarrow> string option" where
  "read_node tree rel =
     (case resolve tree rel of Some (FsFile len content) \<Rightarrow> content | _ \<Rightarrow> None)"

definition searchable_file_snapshots ::
    "string \<Rightarrow> fs_node \<Rightarrow> string list \<Rightarrow> string + (string list \<times> string) list" where
  "searchable_file_snapshots root_name tree source_paths =
     rbind (searchable_files root_name tree source_paths) (\<lambda>files.
       Inr (List.map_filter (\<lambda>rel. map_option (Pair rel) (read_node tree rel)) files))"

fun find_line :: "string \<Rightarrow> string list \<Rightarrow> nat option" where
  "find_line fragment [] = None"
| "find_line fragment (line # rest) =
     (if contains line fragment then Some 0 else map_option Suc (find_line fragment rest))"

fun find_fragment ::
    "(string list \<times> string) list \<Rightarrow> string \<Rightarrow> obligation_evidence option" where
  "find_fragment [] fragment = None"
| "find_fragment ((rel, content) # files) fragment =
     (case find_line fragment (str_lines content) of
        Some index \<Rightarrow> Some \<lparr>oe_path = relative_path rel, oe_line = index + 1,
          oe_detail = ''found expected fragment '' @ [CHR 0x60] @ fragment @ [CHR 0x60]\<rparr>
      | None \<Rightarrow> find_fragment files fragment)"

definition obligation_evidence_points_to_existing_line ::
    "fs_node \<Rightarrow> obligation_evidence \<Rightarrow> bool" where
  "obligation_evidence_points_to_existing_line tree ev \<longleftrightarrow>
     oe_line ev \<noteq> 0
     \<and> \<not> prefix ''/'' (oe_path ev)
     \<and> ''..'' \<notin> set (split_byte CHR ''/'' (oe_path ev))
     \<and> (case read_to_string tree (oe_path ev) of None \<Rightarrow> False
        | Some content \<Rightarrow> oe_line ev - 1 < length (str_lines content))"

subsection \<open>Checking and annotating\<close>

definition check_obligation ::
    "fs_node \<Rightarrow> (string list \<times> string) list \<Rightarrow> obligation \<Rightarrow> obligation" where
  "check_obligation tree files ob =
     (if ob_waiver ob \<noteq> None then ob\<lparr>ob_status := OWaived\<rparr>
      else if ob_expected_fragments ob = [] then
        ob\<lparr>ob_status :=
             (if ob_evidence ob = [] then OUnverified
              else if list_all (obligation_evidence_points_to_existing_line tree) (ob_evidence ob)
              then OPass else OFail)\<rparr>
      else
        (let evidence = List.map_filter (find_fragment files) (ob_expected_fragments ob) in
         if length evidence = length (ob_expected_fragments ob)
         then ob\<lparr>ob_evidence := evidence, ob_status := OPass\<rparr>
         else ob\<lparr>ob_evidence := [], ob_status := OFail\<rparr>))"

definition check_obligation_ledger ::
    "timestamp \<Rightarrow> string \<Rightarrow> fs_node \<Rightarrow> obligation_ledger \<Rightarrow> string + obligation_ledger" where
  "check_obligation_ledger now root_name tree ledger =
     rbind (searchable_file_snapshots root_name tree
         (map (slashed \<circ> sc_path) (ol_source_contracts ledger))) (\<lambda>files.
       Inr (refresh_summary_and_verdict
         (ledger\<lparr>ol_obligations := map (check_obligation tree files) (ol_obligations ledger),
                 ol_created_at := now\<rparr>)))"

definition annotate_obligation ::
    "obligation_evidence option \<Rightarrow> string option \<Rightarrow> obligation \<Rightarrow> obligation" where
  "annotate_obligation evidence waiver ob =
     (let ob = (case waiver of None \<Rightarrow> ob
                | Some w \<Rightarrow> if trim w \<noteq> []
                    then ob\<lparr>ob_waiver := Some (trim w), ob_status := OWaived\<rparr> else ob)
      in case evidence of None \<Rightarrow> ob
         | Some ev \<Rightarrow>
             (let ob = ob\<lparr>ob_evidence := ob_evidence ob @ [ev]\<rparr> in
              if ob_waiver ob = None then ob\<lparr>ob_status := OUnverified\<rparr> else ob))"

text \<open>\<open>iter_mut().find(..)\<close>: the first obligation with the id is changed in place.\<close>

fun update_first :: "('a \<Rightarrow> bool) \<Rightarrow> ('a \<Rightarrow> 'a) \<Rightarrow> 'a list \<Rightarrow> 'a list option" where
  "update_first P f [] = None"
| "update_first P f (x # xs) =
     (if P x then Some (f x # xs) else map_option ((#) x) (update_first P f xs))"

definition annotate_obligation_ledger ::
    "timestamp \<Rightarrow> obligation_ledger \<Rightarrow> string \<Rightarrow> obligation_evidence option \<Rightarrow> string option \<Rightarrow>
     string + obligation_ledger" where
  "annotate_obligation_ledger now ledger obligation_id evidence waiver =
     (if evidence = None \<and> trim (case waiver of None \<Rightarrow> [] | Some w \<Rightarrow> w) = []
      then Inl ''annotation requires evidence or waiver''
      else case update_first (\<lambda>ob. ob_id ob = obligation_id) (annotate_obligation evidence waiver)
          (ol_obligations ledger) of
        None \<Rightarrow> Inl (''unknown obligation id: '' @ obligation_id)
      | Some obs \<Rightarrow> Inr (refresh_summary_and_verdict
          (ledger\<lparr>ol_obligations := obs, ol_created_at := now\<rparr>)))"

subsection \<open>The summary is what the statuses say\<close>

definition status_count :: "obligation_status \<Rightarrow> obligation list \<Rightarrow> nat" where
  "status_count st obs = length (filter (\<lambda>ob. ob_status ob = st) obs)"

definition ledger_consistent :: "obligation_ledger \<Rightarrow> bool" where
  "ledger_consistent l \<longleftrightarrow>
     ol_summary l = \<lparr>os_pass = status_count OPass (ol_obligations l),
       os_fail = status_count OFail (ol_obligations l),
       os_unverified = status_count OUnverified (ol_obligations l),
       os_waived = status_count OWaived (ol_obligations l)\<rparr>
     \<and> (ol_verdict l = OAccepted \<longleftrightarrow>
          (\<forall>ob \<in> set (ol_obligations l). ob_status ob = OPass \<or> ob_status ob = OWaived))"

lemma fold_count_status:
  "fold (\<lambda>ob. count_status (ob_status ob)) obs s =
    \<lparr>os_pass = os_pass s + status_count OPass obs, os_fail = os_fail s + status_count OFail obs,
     os_unverified = os_unverified s + status_count OUnverified obs,
     os_waived = os_waived s + status_count OWaived obs\<rparr>"
proof (induction obs arbitrary: s)
  case Nil
  then show ?case by (simp add: status_count_def)
next
  case (Cons ob obs)
  then show ?case by (cases "ob_status ob") (simp_all add: status_count_def)
qed

lemma status_count_zero:
  "status_count st obs = 0 \<longleftrightarrow> (\<forall>ob \<in> set obs. ob_status ob \<noteq> st)"
  by (auto simp: status_count_def filter_empty_conv)

lemma refresh_consistent: "ledger_consistent (refresh_summary_and_verdict l)"
proof -
  have "ob_status ob = OPass \<or> ob_status ob = OWaived \<longleftrightarrow>
      ob_status ob \<noteq> OFail \<and> ob_status ob \<noteq> OUnverified" for ob :: obligation
    by (cases "ob_status ob") auto
  then show ?thesis
    by (auto simp: ledger_consistent_def refresh_summary_and_verdict_def Let_def
        fold_count_status empty_summary_def status_count_zero)
qed

lemma refresh_obligations [simp]:
  "ol_obligations (refresh_summary_and_verdict l) = ol_obligations l"
  "ol_source_contracts (refresh_summary_and_verdict l) = ol_source_contracts l"
  by (simp_all add: refresh_summary_and_verdict_def Let_def)

lemma refresh_again:
  "refresh_summary_and_verdict ((refresh_summary_and_verdict l)\<lparr>ol_created_at := t\<rparr>) =
    (refresh_summary_and_verdict l)\<lparr>ol_created_at := t\<rparr>"
  by (simp add: refresh_summary_and_verdict_def Let_def)

subsection \<open>Which files are searched\<close>

lemma collect_member:
  assumes "collect_searchable_files sp rel name n = Inr out" and "r \<in> set out"
    and "\<not> should_exclude_generated_evidence_dir rel"
  shows "(\<exists>q. r = rel @ q \<and> list_all (\<lambda>c. \<not> skipped_entry c) q)
    \<and> relative_path r \<notin> set sp \<and> \<not> should_exclude_generated_evidence_dir r"
  using assms
proof (induction sp rel name n arbitrary: out rule: collect_searchable_files.induct)
  case (4 sp rel name entries)
  from walk_children_member [OF "4.prems"(1)[unfolded collect_searchable_files.simps] "4.prems"(2)]
  obtain e here where e: "e \<in> set entries" "\<not> skipped_entry (fst e)"
      "\<not> should_exclude_generated_evidence_dir (rel @ [fst e])"
      "collect_searchable_files sp (rel @ [fst e]) (fst e) (snd e) = Inr here" "r \<in> set here"
    by (auto split: if_splits)
  from "4.IH" [OF e(1) e(2) e(3) e(4) e(5) e(3)] e(2) show ?case by auto
qed (auto simp: list_ex_iff split: if_splits)

lemma collect_complete:
  assumes "collect_searchable_files sp rel name n = Inr out"
    and "resolve n q = Some (FsFile len content)"
    and "list_all (\<lambda>c. entry_name_ok c \<and> \<not> skipped_entry c) q"
    and "\<not> should_exclude_generated_evidence_dir (rel @ q)"
    and "relative_path (rel @ q) \<notin> set sp" and "is_searchable_file (last (name # q)) len"
  shows "rel @ q \<in> set out"
  using assms
proof (induction q arbitrary: rel name n out)
  case Nil
  then show ?case by (auto simp: list_ex_iff)
next
  case (Cons c q)
  then obtain entries m where n: "n = FsDir entries" and m: "map_of entries c = Some m"
    and res: "resolve m q = Some (FsFile len content)"
    by (auto simp: entry_name_ok_def split: fs_node.splits option.splits)
  have "(c, m) \<in> set entries" using m by (rule map_of_SomeD)
  from walk_children_complete [OF Cons.prems(1)[unfolded n collect_searchable_files.simps] this]
  obtain here where here: "(if skipped_entry c then Inr []
         else if should_exclude_generated_evidence_dir (rel @ [c]) then Inr []
         else collect_searchable_files sp (rel @ [c]) c m) = Inr here" "set here \<subseteq> set out"
    unfolding fst_conv snd_conv by blast
  have "\<not> should_exclude_generated_evidence_dir (rel @ [c])"
    using Cons.prems(4) prefix_prefix [of _ "rel @ [c]" q]
    by (auto simp: should_exclude_generated_evidence_dir_def)
  with here Cons.prems(3) have sub: "collect_searchable_files sp (rel @ [c]) c m = Inr here" by simp
  have "(rel @ [c]) @ q \<in> set here"
    by (rule Cons.IH [OF sub res]) (use Cons.prems in auto)
  with here(2) show ?case by auto
qed

lemma set_map_filter: "set (List.map_filter f xs) = {y. \<exists>x \<in> set xs. f x = Some y}"
  by (induction xs) (auto simp: List.map_filter_simps split: option.splits)

lemma snapshots_member:
  assumes "searchable_file_snapshots name tree sp = Inr files"
  shows "(rel, content) \<in> set files \<longleftrightarrow>
    (\<exists>out. collect_searchable_files sp [] name tree = Inr out \<and> rel \<in> set out)
    \<and> read_node tree rel = Some content"
  using assms
  by (auto simp: searchable_file_snapshots_def searchable_files_def rbind_eq_Inr
      set_map_filter)

subsection \<open>Finding fragments\<close>

lemma find_line_Some:
  "find_line fragment ls = Some i \<Longrightarrow> i < length ls \<and> contains (ls ! i) fragment"
  by (induction ls arbitrary: i) (auto split: if_splits)

lemma find_line_None: "find_line fragment ls = None \<longleftrightarrow> (\<forall>l \<in> set ls. \<not> contains l fragment)"
  by (induction ls) auto

lemma find_fragment_Some:
  "find_fragment files fragment = Some ev \<Longrightarrow>
    \<exists>(rel, content) \<in> set files. oe_path ev = relative_path rel \<and> 0 < oe_line ev
      \<and> oe_line ev \<le> length (str_lines content)
      \<and> contains (str_lines content ! (oe_line ev - 1)) fragment"
proof (induction files fragment rule: find_fragment.induct)
  case (2 rel content files fragment)
  then show ?case
    using find_line_Some [of fragment "str_lines content"] by (fastforce split: option.splits)
qed simp

lemma find_fragment_None:
  "find_fragment files fragment = None \<longleftrightarrow>
    (\<forall>(rel, content) \<in> set files. \<forall>l \<in> set (str_lines content). \<not> contains l fragment)"
  by (induction files fragment rule: find_fragment.induct)
    (auto simp: find_line_None [symmetric] split: option.splits)

lemma map_filter_full:
  "length (List.map_filter f xs) = length xs \<Longrightarrow>
    list_all2 (\<lambda>x y. f x = Some y) xs (List.map_filter f xs)"
proof (induction xs)
  case Nil
  then show ?case by (simp add: List.map_filter_def)
next
  case (Cons x xs)
  have "length (List.map_filter f xs) \<le> length xs"
    by (simp add: List.map_filter_def)
  with Cons show ?case by (cases "f x") (auto simp: List.map_filter_simps)
qed

lemma map_filter_missing:
  "length (List.map_filter f xs) \<noteq> length xs \<Longrightarrow> \<exists>x \<in> set xs. f x = None"
  by (induction xs) (auto simp: List.map_filter_simps split: option.splits)

subsection \<open>Extracted ledgers\<close>

lemma show_pad3_inject [simp]: "show_pad3 m = show_pad3 n \<longleftrightarrow> m = n"
  unfolding show_pad3_def by (metis dec_value_show_nat dec_value_zeros)

lemma map_filter_as_map: "List.map_filter f xs = map (the \<circ> f) (filter (\<lambda>x. f x \<noteq> None) xs)"
  by (simp add: List.map_filter_def)

lemma map_enumerate_id:
  "(\<And>i x. g (f i x) = g x) \<Longrightarrow> map g (map (\<lambda>(i, x). f i x) (enumerate n xs)) = map g xs"
  by (induction xs arbitrary: n) auto

lemma map_enumerate_index:
  "(\<And>i x. g (f i x) = h i) \<Longrightarrow> map g (map (\<lambda>(i, x). f i x) (enumerate n xs)) =
    map h [n..<n + length xs]"
  by (induction xs arbitrary: n) (auto simp: upt_rec)

definition example_obligation :: obligation where
  "example_obligation =
     \<lparr>ob_id = ''OBL-001'', ob_kind = ''must'', ob_statement = ''must keep x1'',
      ob_source_path = ''c.md'', ob_source_line = 1, ob_source_excerpt_hash = [],
      ob_expected_fragments = [''x1''], ob_status = OUnverified, ob_evidence = [],
      ob_waiver = None\<rparr>"

definition example_ledger :: obligation_ledger where
  "example_ledger =
     \<lparr>ol_schema_version = ''v1'', ol_source_contracts = [\<lparr>sc_path = ''c.md'', sc_sha256 = []\<rparr>],
      ol_obligations = [example_obligation], ol_summary = empty_summary, ol_verdict = ORejected,
      ol_created_at = 0\<rparr>"

definition example_tree :: fs_node where
  "example_tree = FsDir
     [(''c.md'', FsFile 12 (Some ''must keep x1'')),
      (''src'', FsDir [(''a.rs'', FsFile 6 (Some ''let x1''))])]"

definition example_tree_without :: fs_node where
  "example_tree_without = FsDir
     [(''c.md'', FsFile 12 (Some ''must keep x1'')),
      (''src'', FsDir [(''a.rs'', FsFile 5 (Some ''let y''))])]"

definition checked :: "fs_node \<Rightarrow> obligation_ledger" where
  "checked tree = projr (check_obligation_ledger 1 ''r'' tree example_ledger)"

lemma example_checks:
  "check_obligation_ledger 1 ''r'' example_tree example_ledger = Inr (checked example_tree)"
  "check_obligation_ledger 1 ''r'' example_tree_without example_ledger =
    Inr (checked example_tree_without)"
  by code_simp+

subsection \<open>Properties\<close>

text \<open>Every operation on a ledger leaves it consistent: the summary counts the statuses
  of the obligations and the verdict is Accepted exactly when each of them is passed or
  waived.\<close>

theorem ledger_operations_consistent:
  "ledger_consistent (extract_obligation_ledger sha now path content)
    \<and> (check_obligation_ledger now name tree l = Inr l1 \<longrightarrow> ledger_consistent l1)
    \<and> (annotate_obligation_ledger now l i evidence waiver = Inr l2 \<longrightarrow> ledger_consistent l2)"
  by (auto simp: extract_obligation_ledger_def check_obligation_ledger_def
      annotate_obligation_ledger_def Let_def rbind_eq_Inr refresh_consistent
      split: if_splits option.splits)

theorem ledger_operations_consistent_witness: "ledger_consistent (checked example_tree)"
  using ledger_operations_consistent example_checks(1) by blast

text \<open>Soundness of the check: an obligation that passes with expected fragments carries,
  for every fragment in order, a line that really contains it: a line number inside a file
  of the tree that is readable, is no source contract and lies outside the generated
  evidence directories and the skipped directories.\<close>

theorem passed_fragments_are_in_the_tree:
  assumes "check_obligation_ledger now name tree l = Inr l'"
    and "ob \<in> set (ol_obligations l')" and "ob_status ob = OPass"
    and "ob_expected_fragments ob \<noteq> []"
  shows "list_all2 (\<lambda>fragment ev. \<exists>rel len content.
      resolve tree rel = Some (FsFile len (Some content))
      \<and> list_all (\<lambda>c. \<not> skipped_entry c) rel \<and> \<not> should_exclude_generated_evidence_dir rel
      \<and> oe_path ev = relative_path rel
      \<and> oe_path ev \<notin> set (map (slashed \<circ> sc_path) (ol_source_contracts l))
      \<and> 0 < oe_line ev \<and> oe_line ev \<le> length (str_lines content)
      \<and> contains (str_lines content ! (oe_line ev - 1)) fragment)
    (ob_expected_fragments ob) (ob_evidence ob)"
proof -
  let ?sp = "map (slashed \<circ> sc_path) (ol_source_contracts l)"
  from assms(1,2) obtain files ob0 where
    snap: "searchable_file_snapshots name tree ?sp = Inr files"
    and ob: "ob = check_obligation tree files ob0"
    by (auto simp: check_obligation_ledger_def rbind_eq_Inr)
  have "length (List.map_filter (find_fragment files) (ob_expected_fragments ob)) =
      length (ob_expected_fragments ob)"
    and ev: "ob_evidence ob = List.map_filter (find_fragment files) (ob_expected_fragments ob)"
    using assms(3,4) unfolding ob by (auto simp: check_obligation_def Let_def split: if_splits)
  from map_filter_full [OF this(1)]
  have "list_all2 (\<lambda>f e. find_fragment files f = Some e) (ob_expected_fragments ob) (ob_evidence ob)"
    by (simp add: ev)
  then show ?thesis
  proof (rule list_all2_mono)
    fix fragment e
    assume "find_fragment files fragment = Some e"
    from find_fragment_Some [OF this] obtain rel content where
      mem: "(rel, content) \<in> set files" and facts: "oe_path e = relative_path rel" "0 < oe_line e"
      "oe_line e \<le> length (str_lines content)"
      "contains (str_lines content ! (oe_line e - 1)) fragment" by auto
    from mem snapshots_member [OF snap] obtain out where
      out: "collect_searchable_files ?sp [] name tree = Inr out" "rel \<in> set out"
      and read: "read_node tree rel = Some content" by blast
    have "\<not> should_exclude_generated_evidence_dir []"
      by (simp add: should_exclude_generated_evidence_dir_def)
    from collect_member [OF out this] read facts
    show "\<exists>rel len content. resolve tree rel = Some (FsFile len (Some content))
      \<and> list_all (\<lambda>c. \<not> skipped_entry c) rel \<and> \<not> should_exclude_generated_evidence_dir rel
      \<and> oe_path e = relative_path rel \<and> oe_path e \<notin> set ?sp
      \<and> 0 < oe_line e \<and> oe_line e \<le> length (str_lines content)
      \<and> contains (str_lines content ! (oe_line e - 1)) fragment"
      unfolding read_node_def
      by (intro exI [of _ rel]) (auto split: option.splits fs_node.splits)
  qed
qed

theorem passed_fragments_are_in_the_tree_witness:
  "\<exists>rel len content. resolve example_tree rel = Some (FsFile len (Some content))
    \<and> ''src/a.rs'' = relative_path rel"
proof -
  let ?ob = "example_obligation\<lparr>ob_status := OPass, ob_evidence :=
    [\<lparr>oe_path = ''src/a.rs'', oe_line = 1,
      oe_detail = ''found expected fragment '' @ [CHR 0x60] @ ''x1'' @ [CHR 0x60]\<rparr>]\<rparr>"
  have ob: "ol_obligations (checked example_tree) = [?ob]" by code_simp
  have "?ob \<in> set (ol_obligations (checked example_tree))" by (simp add: ob)
  from passed_fragments_are_in_the_tree [OF example_checks(1) this] show ?thesis
    by (auto simp: example_obligation_def)
qed

text \<open>Completeness of the check: when an obligation with expected fragments fails, one
  of its fragments occurs in no line of any eligible file, that is any readable file of
  the tree with a searchable extension and size that is no source contract and lies in no
  skipped or generated directory.\<close>

theorem failed_fragment_is_nowhere:
  assumes "check_obligation_ledger now name tree l = Inr l'"
    and "ob \<in> set (ol_obligations l')" and "ob_status ob = OFail"
    and "ob_expected_fragments ob \<noteq> []"
  shows "\<exists>fragment \<in> set (ob_expected_fragments ob). \<forall>rel len content.
    resolve tree rel = Some (FsFile len (Some content)) \<longrightarrow>
    list_all (\<lambda>c. entry_name_ok c \<and> \<not> skipped_entry c) rel \<longrightarrow>
    \<not> should_exclude_generated_evidence_dir rel \<longrightarrow>
    is_searchable_file (last (name # rel)) len \<longrightarrow>
    relative_path rel \<notin> set (map (slashed \<circ> sc_path) (ol_source_contracts l)) \<longrightarrow>
    (\<forall>line \<in> set (str_lines content). \<not> contains line fragment)"
proof -
  let ?sp = "map (slashed \<circ> sc_path) (ol_source_contracts l)"
  from assms(1,2) obtain files ob0 where
    snap: "searchable_file_snapshots name tree ?sp = Inr files"
    and ob: "ob = check_obligation tree files ob0"
    by (auto simp: check_obligation_ledger_def rbind_eq_Inr)
  have "length (List.map_filter (find_fragment files) (ob_expected_fragments ob)) \<noteq>
      length (ob_expected_fragments ob)"
    using assms(3,4) unfolding ob by (auto simp: check_obligation_def Let_def split: if_splits)
  from map_filter_missing [OF this] obtain fragment
    where mem: "fragment \<in> set (ob_expected_fragments ob)"
      and none: "find_fragment files fragment = None" by blast
  show ?thesis
  proof (rule bexI [OF _ mem], intro allI impI)
    fix rel len content
    assume res: "resolve tree rel = Some (FsFile len (Some content))"
      and rest: "list_all (\<lambda>c. entry_name_ok c \<and> \<not> skipped_entry c) rel"
      "\<not> should_exclude_generated_evidence_dir rel" "is_searchable_file (last (name # rel)) len"
      "relative_path rel \<notin> set ?sp"
    from snap obtain out where out: "collect_searchable_files ?sp [] name tree = Inr out"
      by (auto simp: searchable_file_snapshots_def searchable_files_def rbind_eq_Inr)
    from collect_complete [OF out res rest(1)] rest have "rel \<in> set out" by simp
    with out res have "(rel, content) \<in> set files"
      unfolding snapshots_member [OF snap] by (simp add: read_node_def)
    with none show "\<forall>line \<in> set (str_lines content). \<not> contains line fragment"
      unfolding find_fragment_None by blast
  qed
qed

theorem failed_fragment_is_nowhere_witness:
  "list_all (\<lambda>line. \<not> contains line ''x1'') (str_lines ''let y'')"
proof -
  let ?ob = "example_obligation\<lparr>ob_status := OFail\<rparr>"
  have ob: "ol_obligations (checked example_tree_without) = [?ob]" by code_simp
  have "?ob \<in> set (ol_obligations (checked example_tree_without))" by (simp add: ob)
  note facts = failed_fragment_is_nowhere [OF example_checks(2) this]
  have "ob_status ?ob = OFail" and "ob_expected_fragments ?ob \<noteq> []"
    by (simp_all add: example_obligation_def)
  note facts = facts [OF this]
  have "resolve example_tree_without [''src'', ''a.rs''] = Some (FsFile 5 (Some ''let y''))"
    and "list_all (\<lambda>c. entry_name_ok c \<and> \<not> skipped_entry c) [''src'', ''a.rs'']"
    and "\<not> should_exclude_generated_evidence_dir [''src'', ''a.rs'']"
    and "is_searchable_file (last (''r'' # [''src'', ''a.rs''])) 5"
    and "relative_path [''src'', ''a.rs''] \<notin>
      set (map (slashed \<circ> sc_path) (ol_source_contracts example_ledger))"
    by code_simp+
  with facts obtain fragment where "fragment \<in> set (ob_expected_fragments ?ob)"
    and "\<forall>line \<in> set (str_lines ''let y''). \<not> contains line fragment" by blast
  then show ?thesis by (simp add: example_obligation_def list_all_iff)
qed

text \<open>Checking is stable: checking a checked ledger against the same tree again changes
  nothing but the time stamp, and it always succeeds.\<close>

theorem check_is_idempotent:
  assumes "check_obligation_ledger now name tree l = Inr l'"
  shows "check_obligation_ledger now' name tree l' = Inr (l'\<lparr>ol_created_at := now'\<rparr>)"
proof -
  let ?sp = "map (slashed \<circ> sc_path) (ol_source_contracts l)"
  from assms obtain files where
    snap: "searchable_file_snapshots name tree ?sp = Inr files"
    and l': "l' = refresh_summary_and_verdict (l\<lparr>ol_obligations :=
        map (check_obligation tree files) (ol_obligations l), ol_created_at := now\<rparr>)"
    by (auto simp: check_obligation_ledger_def rbind_eq_Inr)
  have "check_obligation tree files (check_obligation tree files ob) = check_obligation tree files ob"
    for ob by (auto simp: check_obligation_def Let_def)
  then have "map (check_obligation tree files) (ol_obligations l') = ol_obligations l'"
    by (simp add: l')
  then have same: "l'\<lparr>ol_obligations := map (check_obligation tree files) (ol_obligations l'),
      ol_created_at := now'\<rparr> = l'\<lparr>ol_created_at := now'\<rparr>"
    by simp
  have "map (slashed \<circ> sc_path) (ol_source_contracts l') = ?sp" by (simp add: l')
  then have "check_obligation_ledger now' name tree l' =
      Inr (refresh_summary_and_verdict (l'\<lparr>ol_created_at := now'\<rparr>))"
    unfolding check_obligation_ledger_def same [symmetric] by (simp add: snap)
  then show ?thesis by (simp add: l' refresh_again)
qed

theorem check_is_idempotent_witness:
  "check_obligation_ledger 9 ''r'' example_tree (checked example_tree) =
    Inr ((checked example_tree)\<lparr>ol_created_at := 9\<rparr>)"
  by (rule check_is_idempotent [OF example_checks(1)])

text \<open>Extraction misses no line and invents none: the obligations of an extracted ledger
  stand, in order, for exactly the lines of the contract whose cleaned text is an obligation
  statement; each records that text and its line number, starts unverified without
  evidence or waiver, and has an id of its own.\<close>

theorem extraction_is_exact:
  "(let obs = ol_obligations (extract_obligation_ledger sha now path content);
        hits = filter (\<lambda>(i, line). clean_statement line \<noteq> []
          \<and> is_obligation_statement (clean_statement line)) (enumerate 0 (str_lines content))
    in map (\<lambda>ob. (ob_source_line ob, ob_statement ob)) obs
         = map (\<lambda>(i, line). (i + 1, clean_statement line)) hits
       \<and> distinct (map ob_id obs)
       \<and> (\<lambda>ob. (ob_status ob, ob_evidence ob, ob_waiver ob)) ` set obs \<subseteq> {(OUnverified, [], None)})"
proof -
  let ?x = "\<lambda>(index, line). extract_obligation sha path (index + 1) line"
  let ?q = "\<lambda>(i :: nat, line). clean_statement line \<noteq> [] \<and>
      is_obligation_statement (clean_statement line)"
  define found where "found = List.map_filter ?x (enumerate 0 (str_lines content))"
  define obs where "obs = map (\<lambda>(index, ob). ob\<lparr>ob_id := ''OBL-'' @ show_pad3 (index + 1)\<rparr>)
      (enumerate 0 found)"
  have obs: "ol_obligations (extract_obligation_ledger sha now path content) = obs"
    by (simp add: extract_obligation_ledger_def Let_def obs_def found_def)
  have "(\<lambda>e. ?x e \<noteq> None) = ?q"
    by (auto simp: extract_obligation_def Let_def fun_eq_iff)
  then have found: "found = map (the \<circ> ?x) (filter ?q (enumerate 0 (str_lines content)))"
    by (simp add: found_def map_filter_as_map)
  have lines: "map (\<lambda>ob. (ob_source_line ob, ob_statement ob)) found =
      map (\<lambda>(i, line). (i + 1, clean_statement line)) (filter ?q (enumerate 0 (str_lines content)))"
    by (auto simp: found extract_obligation_def Let_def)
  have fresh: "map (\<lambda>ob. (ob_status ob, ob_evidence ob, ob_waiver ob)) obs =
      map (\<lambda>ob. (ob_status ob, ob_evidence ob, ob_waiver ob)) found"
    unfolding obs_def by (rule map_enumerate_id) simp
  have "\<forall>ob \<in> set found. ob_status ob = OUnverified \<and> ob_evidence ob = [] \<and> ob_waiver ob = None"
    by (auto simp: found extract_obligation_def Let_def)
  then have "set (map (\<lambda>ob. (ob_status ob, ob_evidence ob, ob_waiver ob)) obs)
      \<subseteq> {(OUnverified, [], None)}"
    unfolding fresh by auto
  moreover have "map ob_id obs = map (\<lambda>i. ''OBL-'' @ show_pad3 (i + 1)) [0..<0 + length found]"
    unfolding obs_def by (rule map_enumerate_index) simp
  then have "distinct (map ob_id obs)" by (simp add: distinct_map inj_on_def)
  moreover have "map (\<lambda>ob. (ob_source_line ob, ob_statement ob)) obs =
      map (\<lambda>ob. (ob_source_line ob, ob_statement ob)) found"
    unfolding obs_def by (rule map_enumerate_id) simp
  ultimately show ?thesis using lines by (simp add: obs Let_def)
qed

end
