(* ===== verification/Sdd_Schema.thy ===== *)
theory Sdd_Schema
  imports Json_Value
begin

text \<open>
  The plan schema \<open>ao2.sdd-plan.v1\<close> of \<open>crates/sdd-planner/src/schema.rs\<close>.
\<close>

definition sdd_schema_version :: string where
  "sdd_schema_version = ''ao2.sdd-plan.v1''"

definition candidate_schema_version :: string where
  "candidate_schema_version = ''ao2.sdd-plan-candidate.v1''"

datatype plan_kind = PkBuild | PkInvestigation | PkRefactor | PkFix

datatype step_kind = SkCreate | SkEdit | SkTest | SkVerify | SkDelete

record sdd_prompt =
  pr_text :: string
  pr_sha256 :: string

record sdd_target =
  tg_repo_path :: string
  tg_head_sha :: string
  tg_head_subject :: string
  tg_surface_map_sha256 :: string

record sdd_step =
  st_id :: string
  st_kind :: step_kind
  st_paths :: "string list"
  st_rationale :: string
  st_acceptance :: "string list"
  st_depends_on :: "string list"

record exit_criteria =
  ec_tests :: "string list"
  ec_gates :: "string list"
  ec_manual :: "string list"

record plan_body =
  pb_kind :: plan_kind
  pb_title :: string
  pb_goal :: string
  pb_non_goals :: "string list"
  pb_steps :: "sdd_step list"
  pb_exit_criteria :: exit_criteria

record provenance =
  pv_attempts :: nat
  pv_provider :: string
  pv_engine_sha :: string
  pv_cli_version :: string

record trust_boundary =
  tb_control_plane_role :: string
  tb_mutates_ao_artifacts :: bool
  tb_ingest_authority :: string
  tb_release_acceptance_owner :: string

record sdd_plan =
  pl_schema_version :: string
  pl_plan_id :: string
  pl_generated_at_utc :: string
  pl_prompt :: sdd_prompt
  pl_target :: sdd_target
  pl_plan :: plan_body
  pl_provenance :: provenance
  pl_trust_boundary :: trust_boundary
  pl_quality :: "json option"

record surface_file =
  sf_kind :: string
  sf_path :: string
  sf_public_symbols :: "string list"
  sf_sha256 :: string

record surface_map =
  sm_files :: "surface_file list"
  sm_head_sha :: string

text \<open>The lowercase names serde gives the variants.\<close>

fun plan_kind_name :: "plan_kind \<Rightarrow> string" where
  "plan_kind_name PkBuild = ''build''"
| "plan_kind_name PkInvestigation = ''investigation''"
| "plan_kind_name PkRefactor = ''refactor''"
| "plan_kind_name PkFix = ''fix''"

fun step_kind_name :: "step_kind \<Rightarrow> string" where
  "step_kind_name SkCreate = ''create''"
| "step_kind_name SkEdit = ''edit''"
| "step_kind_name SkTest = ''test''"
| "step_kind_name SkVerify = ''verify''"
| "step_kind_name SkDelete = ''delete''"

end
