(* ===== verification/Sdd_Cycles.thy ===== *)
theory Sdd_Cycles
  imports Rust_Prelude
begin

text \<open>
  The depth-first search of \<open>check_v4_cycles\<close> in \<open>crates/sdd-planner/src/validator.rs\<close>.
  The graph is the map from a step to its dependencies; the search keeps the marks, the
  stack and the set of steps found on cycles, exactly as the nested function \<open>dfs\<close>.  Its
  recursion is bounded by fuel, which runs out with \<open>None\<close>; \<open>dfs_enough_fuel\<close> shows that
  one unit per node is enough.
\<close>

datatype mark = Visiting | Done

record 'n search_state =
  ss_marks :: "'n \<Rightarrow> mark option"
  ss_stack :: "'n list"
  ss_cycle :: "'n set"

fun fold_option :: "('a \<Rightarrow> 's \<Rightarrow> 's option) \<Rightarrow> 'a list \<Rightarrow> 's \<Rightarrow> 's option" where
  "fold_option f [] s = Some s"
| "fold_option f (x # xs) s = (case f x s of None \<Rightarrow> None | Some s' \<Rightarrow> fold_option f xs s')"

fun dfs :: "nat \<Rightarrow> ('n \<Rightarrow> 'n list) \<Rightarrow> 'n \<Rightarrow> 'n search_state \<Rightarrow> 'n search_state option" where
  "dfs fuel graph node s =
     (case ss_marks s node of
        Some Done \<Rightarrow> Some s
      | Some Visiting \<Rightarrow>
          (let from_start = (if node \<in> set (ss_stack s)
                 then dropWhile (\<lambda>n. n \<noteq> node) (ss_stack s) else ss_stack s)
           in Some (s\<lparr>ss_cycle := ss_cycle s \<union> set from_start \<union> {node}\<rparr>))
      | None \<Rightarrow>
          (case fuel of 0 \<Rightarrow> None
           | Suc fuel' \<Rightarrow>
               (case fold_option (dfs fuel' graph) (graph node)
                    (s\<lparr>ss_marks := (ss_marks s)(node \<mapsto> Visiting), ss_stack := ss_stack s @ [node]\<rparr>) of
                  None \<Rightarrow> None
                | Some s' \<Rightarrow>
                    Some (s'\<lparr>ss_marks := (ss_marks s')(node \<mapsto> Done),
                             ss_stack := butlast (ss_stack s')\<rparr>))))"

declare dfs.simps [simp del]

definition initial_search :: "'n search_state" where
  "initial_search = \<lparr>ss_marks = (\<lambda>_. None), ss_stack = [], ss_cycle = {}\<rparr>"

text \<open>The outer loop starts every search with an empty stack.\<close>

definition cycle_nodes :: "nat \<Rightarrow> ('n \<Rightarrow> 'n list) \<Rightarrow> 'n list \<Rightarrow> 'n set option" where
  "cycle_nodes fuel graph keys =
     map_option ss_cycle
       (fold_option (\<lambda>node s. dfs fuel graph node (s\<lparr>ss_stack := []\<rparr>)) keys initial_search)"

subsection \<open>The dependency relation\<close>

definition edges :: "('n \<Rightarrow> 'n list) \<Rightarrow> ('n \<times> 'n) set" where
  "edges graph = {(a, b). b \<in> set (graph a)}"

definition marked :: "mark \<Rightarrow> 'n search_state \<Rightarrow> 'n set" where
  "marked m s = {n. ss_marks s n = Some m}"

definition unmarked :: "'n set \<Rightarrow> 'n search_state \<Rightarrow> 'n set" where
  "unmarked N s = {n \<in> N. ss_marks s n = None}"

text \<open>A stack is a path of the graph.\<close>

fun is_path :: "('n \<Rightarrow> 'n list) \<Rightarrow> 'n list \<Rightarrow> bool" where
  "is_path g (a # b # p) \<longleftrightarrow> b \<in> set (g a) \<and> is_path g (b # p)"
| "is_path g _ \<longleftrightarrow> True"

lemma is_path_snoc:
  "is_path g (p @ [n]) \<longleftrightarrow> is_path g p \<and> (p = [] \<or> n \<in> set (g (last p)))"
  by (induction g p rule: is_path.induct) auto

lemma is_path_suffix: "is_path g (p @ q) \<Longrightarrow> is_path g q"
proof (induction p)
  case (Cons a p)
  then have "is_path g (p @ q)" by (cases "p @ q") auto
  with Cons.IH show ?case .
qed simp

lemma path_on_cycle:
  assumes "is_path g (a # p)" and "(last (a # p), a) \<in> edges g" and "x \<in> set (a # p)"
  shows "(x, x) \<in> (edges g)\<^sup>+"
proof -
  have fwd: "is_path g (a # p) \<Longrightarrow> y \<in> set (a # p) \<Longrightarrow> (a, y) \<in> (edges g)\<^sup>*" for a p y
  proof (induction p arbitrary: a)
    case (Cons b p)
    then have "(a, b) \<in> edges g" and "is_path g (b # p)" by (auto simp: edges_def)
    with Cons show ?case by (auto intro: converse_rtrancl_into_rtrancl)
  qed simp
  obtain u v where uv: "a # p = u @ x # v" using assms(3) split_list by metis
  then have "is_path g (x # v)" and "last (a # p) = last (x # v)"
    using assms(1) is_path_suffix by (metis, simp)
  then have "(x, last (a # p)) \<in> (edges g)\<^sup>*" using fwd by (metis last_in_set list.discI)
  then have "(x, a) \<in> (edges g)\<^sup>+" using assms(2) by (rule rtrancl_into_trancl1)
  moreover have "(a, x) \<in> (edges g)\<^sup>*" using fwd assms(1,3) by blast
  ultimately show ?thesis by (rule trancl_rtrancl_trancl)
qed

subsection \<open>The invariant of the search\<close>

text \<open>The stack holds the visited nodes as a path, the reported nodes lie on cycles, and as
  long as nothing is reported the finished nodes are closed and acyclic.\<close>

definition search_inv :: "('n \<Rightarrow> 'n list) \<Rightarrow> 'n search_state \<Rightarrow> bool" where
  "search_inv g s \<longleftrightarrow>
     is_path g (ss_stack s) \<and> set (ss_stack s) = marked Visiting s
     \<and> (\<forall>x \<in> ss_cycle s. (x, x) \<in> (edges g)\<^sup>+)
     \<and> (ss_cycle s = {} \<longrightarrow>
          (\<forall>d \<in> marked Done s. set (g d) \<subseteq> marked Done s)
          \<and> acyclic (edges g \<inter> marked Done s \<times> UNIV))"

text \<open>What one call changes.\<close>

definition search_step :: "'n search_state \<Rightarrow> 'n search_state \<Rightarrow> bool" where
  "search_step s s' \<longleftrightarrow>
     ss_stack s' = ss_stack s \<and> marked Visiting s' = marked Visiting s
     \<and> marked Done s \<subseteq> marked Done s' \<and> ss_cycle s \<subseteq> ss_cycle s'"

lemma search_step_refl [simp]: "search_step s s"
  by (simp add: search_step_def)

lemma search_step_trans: "search_step s t \<Longrightarrow> search_step t u \<Longrightarrow> search_step s u"
  by (auto simp: search_step_def)

definition search_call :: "('n \<Rightarrow> 'n list) \<Rightarrow> 'n \<Rightarrow> 'n search_state \<Rightarrow> 'n search_state \<Rightarrow> bool" where
  "search_call g n s s' \<longleftrightarrow>
     search_step s s' \<and> (ss_cycle s' = {} \<longrightarrow> n \<in> marked Done s')
     \<and> (search_inv g s \<longrightarrow> (ss_stack s = [] \<or> n \<in> set (g (last (ss_stack s)))) \<longrightarrow> search_inv g s')"

lemma acyclic_add_node:
  assumes "acyclic (E \<inter> D \<times> UNIV)" and "\<And>d s. d \<in> D \<Longrightarrow> (d, s) \<in> E \<Longrightarrow> s \<in> D"
    and "\<And>s. (n, s) \<in> E \<Longrightarrow> s \<in> D" and "n \<notin> D"
  shows "acyclic (E \<inter> insert n D \<times> UNIV)"
proof -
  let ?R = "E \<inter> D \<times> UNIV" and ?S = "E \<inter> insert n D \<times> UNIV"
  have into: "(x, y) \<in> ?S\<^sup>+ \<Longrightarrow> y \<in> D \<and> (x \<in> D \<longrightarrow> (x, y) \<in> ?R\<^sup>+)" for x y
  proof (induction rule: trancl_induct)
    case (base y)
    then show ?case using assms(2,3) by blast
  next
    case (step y z)
    then have "(y, z) \<in> ?R" by blast
    with step assms(2) show ?case by (blast intro: trancl_into_trancl)
  qed
  show ?thesis
    unfolding acyclic_def using into assms(1) unfolding acyclic_def by blast
qed

lemma edges_into_done:
  "(\<forall>d \<in> marked Done s. set (g d) \<subseteq> marked Done s) \<Longrightarrow>
    d \<in> marked Done s \<Longrightarrow> (d, x) \<in> edges g \<Longrightarrow> x \<in> marked Done s"
  by (auto simp: edges_def)

lemma fold_option_calls:
  assumes "\<And>x t t'. x \<in> set xs \<Longrightarrow> f x t = Some t' \<Longrightarrow> search_call g x t t'"
    and "fold_option f xs s = Some s'"
  shows "search_step s s' \<and> (ss_cycle s' = {} \<longrightarrow> set xs \<subseteq> marked Done s')
    \<and> (search_inv g s \<longrightarrow> (\<forall>x \<in> set xs. ss_stack s = [] \<or> x \<in> set (g (last (ss_stack s))))
        \<longrightarrow> search_inv g s')"
  using assms
proof (induction xs arbitrary: s)
  case Nil
  then show ?case by simp
next
  case (Cons x xs)
  then obtain t where t: "f x s = Some t" and rest: "fold_option f xs t = Some s'"
    by (auto split: option.splits)
  from Cons.prems(1) t have call: "search_call g x s t" by simp
  have IH: "search_step t s' \<and> (ss_cycle s' = {} \<longrightarrow> set xs \<subseteq> marked Done s')
    \<and> (search_inv g t \<longrightarrow> (\<forall>x \<in> set xs. ss_stack t = [] \<or> x \<in> set (g (last (ss_stack t))))
        \<longrightarrow> search_inv g s')"
    using Cons.IH [OF _ rest] Cons.prems(1) by simp
  from call IH show ?case
    by (auto simp: search_call_def search_step_def)
qed

lemma visiting_call:
  assumes "ss_marks s n = Some Visiting"
    and "s' = s\<lparr>ss_cycle := ss_cycle s \<union> set (if n \<in> set (ss_stack s)
      then dropWhile (\<lambda>x. x \<noteq> n) (ss_stack s) else ss_stack s) \<union> {n}\<rparr>"
  shows "search_call g n s s'"
proof -
  have step: "search_step s s'" by (auto simp: search_step_def marked_def assms(2))
  have "search_inv g s'"
    if inv: "search_inv g s" and edge: "ss_stack s = [] \<or> n \<in> set (g (last (ss_stack s)))"
  proof -
    have n: "n \<in> set (ss_stack s)"
      using inv assms(1) by (auto simp: search_inv_def marked_def)
    then obtain u v where uv: "ss_stack s = u @ n # v" and "n \<notin> set u"
      by (metis split_list_first)
    then have drop: "dropWhile (\<lambda>x. x \<noteq> n) (ss_stack s) = n # v"
      by (auto simp: dropWhile_append)
    have path: "is_path g (n # v)"
      using inv is_path_suffix unfolding search_inv_def uv by metis
    have "(last (n # v), n) \<in> edges g" using edge by (auto simp: uv edges_def)
    then have "\<forall>x \<in> set (n # v). (x, x) \<in> (edges g)\<^sup>+"
      using path_on_cycle [OF path] by blast
    then show ?thesis
      using inv n drop by (auto simp: search_inv_def assms(2) marked_def)
  qed
  then show ?thesis using step by (auto simp: search_call_def assms(2))
qed

lemma new_node_call:
  fixes g :: "'n \<Rightarrow> 'n list"
  assumes fresh: "ss_marks s n = None"
    and t: "t = s\<lparr>ss_marks := (ss_marks s)(n \<mapsto> Visiting), ss_stack := ss_stack s @ [n]\<rparr>"
    and step: "search_step t t'" and all_done: "ss_cycle t' = {} \<longrightarrow> set (g n) \<subseteq> marked Done t'"
    and inv: "search_inv g t \<longrightarrow> search_inv g t'"
    and s': "s' = t'\<lparr>ss_marks := (ss_marks t')(n \<mapsto> Done), ss_stack := butlast (ss_stack t')\<rparr>"
  shows "search_call g n s s'"
proof -
  have stack: "ss_stack s' = ss_stack s" using step by (simp add: s' search_step_def t)
  have vis_t: "marked Visiting t = insert n (marked Visiting s)" and done_t: "marked Done t = marked Done s"
    using fresh by (auto simp: marked_def t)
  have n_vis: "n \<in> marked Visiting t'" using step vis_t by (auto simp: search_step_def)
  have vis: "marked Visiting s' = marked Visiting t' - {n}" by (auto simp: marked_def s')
  have dn: "marked Done s' = insert n (marked Done t')" by (auto simp: marked_def s')
  have vis_s: "marked Visiting s' = marked Visiting s"
    using vis step vis_t fresh by (auto simp: search_step_def marked_def)
  have step': "search_step s s'"
    using stack vis_s dn done_t step by (auto simp: search_step_def s' t)
  have "search_inv g s'"
    if inv_s: "search_inv g s" and edge: "ss_stack s = [] \<or> n \<in> set (g (last (ss_stack s)))"
  proof -
    have "search_inv g t"
      using inv_s edge vis_t done_t
      by (auto simp: search_inv_def t is_path_snoc marked_def)
    with inv have it: "search_inv g t'" by simp
    have ndone: "n \<notin> marked Done t'" using n_vis by (auto simp: marked_def)
    have "(\<forall>d \<in> marked Done s'. set (g d) \<subseteq> marked Done s')
        \<and> acyclic (edges g \<inter> marked Done s' \<times> UNIV)" if "ss_cycle s' = {}"
    proof -
      from that have c: "ss_cycle t' = {}" by (simp add: s')
      with it have closed: "\<forall>d \<in> marked Done t'. set (g d) \<subseteq> marked Done t'"
        and ac: "acyclic (edges g \<inter> marked Done t' \<times> UNIV)" by (auto simp: search_inv_def)
      from all_done c have gn: "set (g n) \<subseteq> marked Done t'" by simp
      have "acyclic (edges g \<inter> insert n (marked Done t') \<times> UNIV)"
        using ac edges_into_done [OF closed] _ ndone
        by (rule acyclic_add_node) (use gn in \<open>auto simp: edges_def\<close>)
      then show ?thesis using closed gn by (auto simp: dn)
    qed
    moreover have "\<forall>x \<in> ss_cycle s'. (x, x) \<in> (edges g)\<^sup>+" using it by (simp add: search_inv_def s')
    ultimately show ?thesis
      using inv_s stack vis_s by (simp add: search_inv_def)
  qed
  then show ?thesis using step' dn by (auto simp: search_call_def)
qed

lemma marked_call:
  assumes "ss_marks s n = Some m" and "dfs fuel g n s = Some s'"
  shows "search_call g n s s'"
proof (cases m)
  case Visiting
  note m = assms(1)[unfolded Visiting]
  from assms(2) m show ?thesis
    by (intro visiting_call [OF m]) (simp add: dfs.simps Let_def split: if_splits)
next
  case Done
  with assms have "s' = s" by (subst (asm) dfs.simps) simp
  with assms Done show ?thesis by (simp add: search_call_def marked_def)
qed

lemma dfs_call: "dfs fuel g n s = Some s' \<Longrightarrow> search_call g n s s'"
proof (induction fuel arbitrary: n s s')
  case 0
  then obtain m where "ss_marks s n = Some m"
    by (subst (asm) dfs.simps) (auto split: option.splits)
  then show ?case using 0 by (rule marked_call)
next
  case (Suc fuel)
  show ?case
  proof (cases "ss_marks s n")
    case None
    let ?t = "s\<lparr>ss_marks := (ss_marks s)(n \<mapsto> Visiting), ss_stack := ss_stack s @ [n]\<rparr>"
    from Suc.prems None obtain t' where
      t': "fold_option (dfs fuel g) (g n) ?t = Some t'"
      and s': "s' = t'\<lparr>ss_marks := (ss_marks t')(n \<mapsto> Done), ss_stack := butlast (ss_stack t')\<rparr>"
      by (subst (asm) dfs.simps) (auto split: option.splits)
    have "search_step ?t t' \<and> (ss_cycle t' = {} \<longrightarrow> set (g n) \<subseteq> marked Done t')
      \<and> (search_inv g ?t \<longrightarrow> (\<forall>x \<in> set (g n). ss_stack ?t = [] \<or> x \<in> set (g (last (ss_stack ?t))))
          \<longrightarrow> search_inv g t')"
      using Suc.IH t' by (rule fold_option_calls)
    then show ?thesis
      by (intro new_node_call [OF None refl _ _ _ s']) auto
  next
    case (Some m)
    then show ?thesis using Suc.prems by (rule marked_call)
  qed
qed

subsection \<open>Enough fuel\<close>

lemma unmarked_step: "search_step s s' \<Longrightarrow> unmarked N s' \<subseteq> unmarked N s"
proof
  fix x
  assume step: "search_step s s'" and x: "x \<in> unmarked N s'"
  then have "x \<notin> marked Visiting s'" "x \<notin> marked Done s'"
    by (simp_all add: unmarked_def marked_def)
  with step have "x \<notin> marked Visiting s" "x \<notin> marked Done s"
    by (auto simp: search_step_def)
  then show "x \<in> unmarked N s" using x
    by (cases "ss_marks s x") (auto simp: unmarked_def marked_def intro: mark.exhaust)
qed

lemma card_unmarked_step:
  "finite N \<Longrightarrow> search_step s s' \<Longrightarrow> card (unmarked N s') \<le> card (unmarked N s)"
  by (rule card_mono [OF _ unmarked_step]) (auto simp: unmarked_def)

lemma fold_option_enough:
  assumes "finite N" and "\<And>x t. x \<in> set xs \<Longrightarrow> card (unmarked N t) \<le> k \<Longrightarrow> \<exists>t'. f x t = Some t'"
    and "\<And>x t t'. f x t = Some t' \<Longrightarrow> card (unmarked N t') \<le> card (unmarked N t)"
    and "card (unmarked N s) \<le> k"
  shows "\<exists>s'. fold_option f xs s = Some s'"
  using assms(2,4)
proof (induction xs arbitrary: s)
  case (Cons x xs)
  then obtain t where t: "f x s = Some t" by force
  from assms(3) [OF this] Cons.prems(2) have "card (unmarked N t) \<le> k" by simp
  with Cons t show ?case by simp
qed simp

lemma dfs_enough_fuel:
  assumes "finite N" and "\<And>n. n \<in> N \<Longrightarrow> set (g n) \<subseteq> N"
    and "n \<in> N" and "card (unmarked N s) \<le> fuel"
  shows "\<exists>s'. dfs fuel g n s = Some s'"
  using assms(3,4)
proof (induction fuel arbitrary: n s)
  case 0
  have "finite (unmarked N s)" using assms(1) by (auto simp: unmarked_def)
  with 0 have "n \<notin> unmarked N s" by auto
  with 0(1) obtain m where "ss_marks s n = Some m" by (auto simp: unmarked_def)
  then show ?case by (subst dfs.simps) (auto simp: Let_def split: mark.split)
next
  case (Suc fuel)
  show ?case
  proof (cases "ss_marks s n")
    case (Some m)
    then show ?thesis by (subst dfs.simps) (auto simp: Let_def split: mark.split)
  next
    case None
    let ?t = "s\<lparr>ss_marks := (ss_marks s)(n \<mapsto> Visiting), ss_stack := ss_stack s @ [n]\<rparr>"
    have fin: "finite (unmarked N s)" using assms(1) by (auto simp: unmarked_def)
    have "unmarked N ?t = unmarked N s - {n}" by (auto simp: unmarked_def)
    moreover have "n \<in> unmarked N s" using None Suc.prems(1) by (simp add: unmarked_def)
    ultimately have "card (unmarked N ?t) \<le> fuel" using Suc.prems(2) fin by simp
    moreover have "x \<in> set (g n) \<Longrightarrow> card (unmarked N t) \<le> fuel \<Longrightarrow> \<exists>t'. dfs fuel g x t = Some t'" for x t
      using Suc.IH assms(2) Suc.prems(1) by blast
    moreover have "dfs fuel g x t = Some t' \<Longrightarrow> card (unmarked N t') \<le> card (unmarked N t)" for x t t'
      using dfs_call [of fuel g x t t'] card_unmarked_step [OF assms(1), of t t']
      by (simp add: search_call_def)
    ultimately have "\<exists>t'. fold_option (dfs fuel g) (g n) ?t = Some t'"
      by (intro fold_option_enough [OF assms(1), where k = fuel])
    then show ?thesis using None by (subst dfs.simps) auto
  qed
qed

subsection \<open>The outer loop\<close>

lemma initial_inv: "search_inv g initial_search"
  by (simp add: search_inv_def initial_search_def marked_def acyclic_def)

lemma outer_loop:
  assumes "fold_option (\<lambda>n s. dfs fuel g n (s\<lparr>ss_stack := []\<rparr>)) keys s = Some s'"
    and "search_inv g s" and "ss_stack s = []"
  shows "search_inv g s' \<and> ss_stack s' = [] \<and> ss_cycle s \<subseteq> ss_cycle s'
    \<and> (ss_cycle s' = {} \<longrightarrow> set keys \<union> marked Done s \<subseteq> marked Done s')"
  using assms
proof (induction keys arbitrary: s)
  case (Cons n keys)
  have [simp]: "s\<lparr>ss_stack := []\<rparr> = s" using Cons.prems(3) by simp
  from Cons.prems(1) obtain t where t: "dfs fuel g n s = Some t"
    and rest: "fold_option (\<lambda>n s. dfs fuel g n (s\<lparr>ss_stack := []\<rparr>)) keys t = Some s'"
    by (auto split: option.splits)
  from dfs_call [OF t] Cons.prems(2,3)
  have t_inv: "search_inv g t" "ss_stack t = []" "ss_cycle s \<subseteq> ss_cycle t"
    "ss_cycle t = {} \<longrightarrow> n \<in> marked Done t" "marked Done s \<subseteq> marked Done t"
    by (auto simp: search_call_def search_step_def)
  from Cons.IH [OF rest t_inv(1,2)] t_inv show ?case by auto
qed simp

lemma cycle_nodes_total:
  assumes "\<And>n. n \<in> set keys \<Longrightarrow> set (g n) \<subseteq> set keys" and "card (set keys) \<le> fuel"
  shows "\<exists>c. cycle_nodes fuel g keys = Some c"
proof -
  let ?f = "\<lambda>n s. dfs fuel g n (s\<lparr>ss_stack := []\<rparr>)"
  have start: "card (unmarked (set keys) initial_search) \<le> fuel"
    using assms(2) by (simp add: unmarked_def initial_search_def)
  have same: "unmarked (set keys) (t\<lparr>ss_stack := []\<rparr>) = unmarked (set keys) t"
    for t :: "'a search_state" by (simp add: unmarked_def)
  have "\<exists>s. fold_option ?f keys initial_search = Some s"
  proof (rule fold_option_enough [where N = "set keys" and k = fuel])
    fix x t
    assume "x \<in> set keys" and "card (unmarked (set keys) t) \<le> fuel"
    then show "\<exists>t'. ?f x t = Some t'"
      by (intro dfs_enough_fuel [of "set keys"]) (use assms(1) same in auto)
  next
    fix x t t'
    assume "?f x t = Some t'"
    from dfs_call [OF this] show "card (unmarked (set keys) t') \<le> card (unmarked (set keys) t)"
      using card_unmarked_step [of "set keys"] same unfolding search_call_def
      by (metis finite_set)
  qed (use start in auto)
  then show ?thesis by (auto simp: cycle_nodes_def)
qed

lemma cycle_nodes_sound:
  assumes "cycle_nodes fuel g keys = Some c" and "x \<in> c"
  shows "(x, x) \<in> (edges g)\<^sup>+"
proof -
  from assms(1) obtain s where
    s: "fold_option (\<lambda>n s. dfs fuel g n (s\<lparr>ss_stack := []\<rparr>)) keys initial_search = Some s"
    and c: "c = ss_cycle s" by (auto simp: cycle_nodes_def)
  have "ss_stack initial_search = []" by (simp add: initial_search_def)
  from outer_loop [OF s initial_inv this] have "search_inv g s" by blast
  then show ?thesis using assms(2) c by (simp add: search_inv_def)
qed

lemma cycle_nodes_complete:
  assumes "cycle_nodes fuel g keys = Some {}"
  shows "acyclic (edges g \<inter> set keys \<times> UNIV)"
proof -
  from assms obtain s where
    s: "fold_option (\<lambda>n s. dfs fuel g n (s\<lparr>ss_stack := []\<rparr>)) keys initial_search = Some s"
    and c: "ss_cycle s = {}" by (auto simp: cycle_nodes_def)
  from outer_loop [OF s initial_inv] c
  have "acyclic (edges g \<inter> marked Done s \<times> UNIV)" and "set keys \<subseteq> marked Done s"
    by (auto simp: initial_search_def search_inv_def)
  then show ?thesis by (rule_tac acyclic_subset) auto
qed

subsection \<open>The contract of a cycle report\<close>

text \<open>A dependency graph whose edges stay inside its keys.\<close>

definition closed_graph :: "'n list \<Rightarrow> ('n \<Rightarrow> 'n list) \<Rightarrow> bool" where
  "closed_graph keys g \<longleftrightarrow>
     (\<forall>n. set (g n) \<subseteq> set keys) \<and> (\<forall>n. n \<notin> set keys \<longrightarrow> g n = [])"

lemma closed_edges: "closed_graph keys g \<Longrightarrow> edges g \<subseteq> set keys \<times> set keys"
  by (auto simp: closed_graph_def edges_def)

lemma closed_wf:
  assumes "closed_graph keys g" and "acyclic (edges g)"
  shows "wf ((edges g)\<inverse>)"
  using finite_subset [OF closed_edges [OF assms(1)]] assms(2)
  by (intro finite_acyclic_wf_converse) simp_all

text \<open>What the validator and the task scheduler rely on: over a closed graph a report names
  only nodes on cycles, and an empty report means that there are none.\<close>

locale cycle_report =
  fixes report :: "'n list \<Rightarrow> ('n \<Rightarrow> 'n list) \<Rightarrow> 'n set"
  assumes report_sound:
      "closed_graph keys g \<Longrightarrow> x \<in> report keys g \<Longrightarrow> (x, x) \<in> (edges g)\<^sup>+"
    and report_complete: "closed_graph keys g \<Longrightarrow> report keys g = {} \<Longrightarrow> acyclic (edges g)"
begin

lemma report_empty_iff: "closed_graph keys g \<Longrightarrow> report keys g = {} \<longleftrightarrow> acyclic (edges g)"
  using report_sound report_complete by (fastforce simp: acyclic_def)

lemma report_on_keys: "closed_graph keys g \<Longrightarrow> report keys g \<subseteq> set keys"
proof
  fix x
  assume closed: "closed_graph keys g" and "x \<in> report keys g"
  then have "(x, x) \<in> (edges g)\<^sup>+" by (rule report_sound)
  then obtain y where "(x, y) \<in> edges g" by (meson tranclD)
  then show "x \<in> set keys" using closed_edges [OF closed] by blast
qed

text \<open>As long as work remains, some of it does not wait for the rest.\<close>

lemma ready_node:
  assumes "closed_graph keys g" and "report keys g = {}" and "rest \<noteq> {}"
  shows "\<exists>n \<in> rest. set (g n) \<inter> rest = {}"
proof -
  have "wf ((edges g)\<inverse>)" using assms(1,2) by (intro closed_wf report_complete)
  then obtain n where "n \<in> rest" and "\<And>m. (m, n) \<in> (edges g)\<inverse> \<Longrightarrow> m \<notin> rest"
    using assms(3) wfE_min' by metis
  then show ?thesis by (auto simp: edges_def)
qed

end

text \<open>The report of the search, with one unit of fuel per key.\<close>

definition report_cycles :: "'n list \<Rightarrow> ('n \<Rightarrow> 'n list) \<Rightarrow> 'n set" where
  "report_cycles keys g =
     (case cycle_nodes (length keys) g keys of None \<Rightarrow> {} | Some c \<Rightarrow> c)"

lemma cycle_nodes_returns: "closed_graph keys g \<Longrightarrow> \<exists>c. cycle_nodes (length keys) g keys = Some c"
  by (rule cycle_nodes_total) (auto simp: closed_graph_def card_length)

interpretation search: cycle_report report_cycles
proof unfold_locales
  fix keys :: "'n list" and g x
  assume "closed_graph keys g" and "x \<in> report_cycles keys g"
  then show "(x, x) \<in> (edges g)\<^sup>+"
    using cycle_nodes_returns [of keys g] cycle_nodes_sound
    by (auto simp: report_cycles_def)
next
  fix keys :: "'n list" and g
  assume closed: "closed_graph keys g" and "report_cycles keys g = {}"
  then have "cycle_nodes (length keys) g keys = Some {}"
    using cycle_nodes_returns [OF closed] by (auto simp: report_cycles_def)
  from cycle_nodes_complete [OF this] show "acyclic (edges g)"
    by (rule acyclic_subset) (use closed_edges [OF closed] in auto)
qed

end
