(* ===== verification/Sdd_Validator.thy ===== *)
theory Sdd_Validator
  imports Sdd_Schema Sdd_Cycles
begin

text \<open>
  The deterministic validator of \<open>crates/sdd-planner/src/validator.rs\<close>: the rules in the
  order the code runs them, the report and its rendering.  The JSON reader of a plan is an
  argument, and so is the iteration order of the hash map of steps (\<open>order\<close>, a
  rearrangement of the keys) and the escaping of \<open>Debug\<close> for strings.
\<close>

subsection \<open>Word lists\<close>

definition allowed_shells :: "string list" where
  "allowed_shells =
     [''cargo'', ''npm'', ''pnpm'', ''pytest'', ''python3'', ''bash'', ''sh'', ''node'', ''git'',
      ''gh'', ''ao2'', ''ao'']"

definition acceptance_verbs :: "string list" where
  "acceptance_verbs =
     [''accept'', ''add'', ''annotate'', ''append'', ''apply'', ''assert'', ''audit'',
      ''block'', ''build'', ''bump'', ''cancel'', ''capture'', ''change'', ''check'',
      ''clear'', ''close'', ''collect'', ''commit'', ''compose'', ''compute'', ''confirm'',
      ''configure'', ''connect'', ''construct'', ''copy'', ''create'', ''declare'', ''decode'',
      ''define'', ''delete'', ''deliver'', ''deploy'', ''derive'', ''describe'',
      ''deserialize'', ''detect'', ''diff'', ''dispatch'', ''document'', ''drop'', ''dump'',
      ''emit'', ''enable'', ''encode'', ''enforce'', ''ensure'', ''establish'', ''exit'',
      ''expand'', ''expect'', ''expose'', ''extend'', ''extract'', ''fail'', ''fetch'',
      ''find'', ''finish'', ''fix'', ''flag'', ''flush'', ''format'', ''gate'', ''generate'',
      ''get'', ''halt'', ''handle'', ''hash'', ''hide'', ''ignore'', ''implement'', ''import'',
      ''include'', ''increment'', ''index'', ''init'', ''initialize'', ''insert'', ''inspect'',
      ''install'', ''invoke'', ''issue'', ''land'', ''lint'', ''list'', ''load'', ''lock'',
      ''log'', ''make'', ''map'', ''mark'', ''match'', ''merge'', ''mirror'', ''mock'',
      ''move'', ''name'', ''normalize'', ''open'', ''order'', ''output'', ''package'',
      ''parse'', ''pass'', ''persist'', ''pin'', ''populate'', ''post'', ''preserve'',
      ''print'', ''produce'', ''propagate'', ''prove'', ''publish'', ''pull'', ''push'',
      ''query'', ''read'', ''rebase'', ''record'', ''redact'', ''refuse'', ''register'',
      ''reject'', ''release'', ''remove'', ''rename'', ''render'', ''replace'', ''report'',
      ''request'', ''require'', ''reset'', ''resolve'', ''respond'', ''restart'', ''restore'',
      ''retry'', ''return'', ''review'', ''rotate'', ''route'', ''run'', ''sanitize'',
      ''save'', ''scan'', ''schedule'', ''select'', ''send'', ''serialize'', ''serve'',
      ''set'', ''ship'', ''show'', ''sign'', ''skip'', ''sort'', ''split'', ''stamp'',
      ''start'', ''stop'', ''store'', ''stream'', ''stub'', ''submit'', ''succeed'',
      ''support'', ''surface'', ''swap'', ''sync'', ''tag'', ''target'', ''test'', ''throw'',
      ''throw'', ''tokenize'', ''trace'', ''track'', ''transform'', ''translate'', ''trigger'',
      ''trim'', ''truncate'', ''tune'', ''unblock'', ''uninstall'', ''unlock'', ''unregister'',
      ''update'', ''upgrade'', ''upload'', ''use'', ''validate'', ''verify'', ''wait'',
      ''warn'', ''watch'', ''wrap'', ''write'', ''yield'', ''zero'', ''cite'', ''demonstrate'',
      ''denote'', ''discover'', ''explain'', ''identify'', ''illustrate'', ''indicate'',
      ''locate'', ''maintain'', ''mention'', ''note'', ''observe'', ''place'', ''point'',
      ''recognize'', ''reexport'', ''reference'']"

subsection \<open>Errors and report\<close>

datatype validation_error =
    Shape string
  | BadSchemaVersion string string
  | UnknownPath string string
  | EmptyAcceptance string
  | AcceptanceVerbMissing string nat string
  | Cycle "string set"
  | DuplicateStepId string
  | MutatingPlanner
  | ExcessAttempts nat
  | BadStepCount nat
  | DisallowedShell string nat string
  | BadStepId string
  | OverlongTitle nat
  | UnknownDependency string string

record validation_report =
  vr_errors :: "validation_error list"
  vr_plan :: "sdd_plan option"

definition report_ok :: "validation_report \<Rightarrow> bool" where
  "report_ok r \<longleftrightarrow> vr_errors r = []"

subsection \<open>Rules\<close>

definition check_v5_trust_boundary :: "sdd_plan \<Rightarrow> validation_error list" where
  "check_v5_trust_boundary plan =
     (if tb_mutates_ao_artifacts (pl_trust_boundary plan) then [MutatingPlanner] else [])"

definition check_v6_attempts :: "sdd_plan \<Rightarrow> validation_error list" where
  "check_v6_attempts plan =
     (let a = pv_attempts (pl_provenance plan) in
      if \<not> (1 \<le> a \<and> a \<le> 3) then [ExcessAttempts a] else [])"

definition check_v7_step_count :: "sdd_plan \<Rightarrow> validation_error list" where
  "check_v7_step_count plan =
     (let n = length (pb_steps (pl_plan plan)) in
      if \<not> (1 \<le> n \<and> n \<le> 25) then [BadStepCount n] else [])"

definition check_shell_list :: "string \<Rightarrow> string list \<Rightarrow> validation_error list" where
  "check_shell_list location cmds =
     concat (map (\<lambda>(i, cmd).
       let token = first_word cmd in
       if token \<notin> set allowed_shells then [DisallowedShell location i token] else [])
       (enumerate 0 cmds))"

definition check_v8_shell_allowlist :: "sdd_plan \<Rightarrow> validation_error list" where
  "check_v8_shell_allowlist plan =
     check_shell_list ''tests'' (ec_tests (pb_exit_criteria (pl_plan plan)))
     @ check_shell_list ''gates'' (ec_gates (pb_exit_criteria (pl_plan plan)))"

definition is_valid_step_id :: "string \<Rightarrow> bool" where
  "is_valid_step_id i =
     (case strip_prefix ''step_'' i of None \<Rightarrow> False
      | Some rest \<Rightarrow> rest \<noteq> [] \<and>
          list_all (\<lambda>c. is_ascii_lowercase c \<or> is_ascii_digit c \<or> c = CHR ''_'') rest)"

definition check_v9_step_ids :: "sdd_plan \<Rightarrow> validation_error list" where
  "check_v9_step_ids plan =
     concat (map (\<lambda>step. if \<not> is_valid_step_id (st_id step) then [BadStepId (st_id step)] else [])
       (pb_steps (pl_plan plan)))"

definition check_v10_title :: "sdd_plan \<Rightarrow> validation_error list" where
  "check_v10_title plan =
     (let len = chars_count (pb_title (pl_plan plan)) in
      if len > 80 then [OverlongTitle len] else [])"

definition acceptance_token :: "string \<Rightarrow> string" where
  "acceptance_token line = filter (\<lambda>c. c \<noteq> CHR ''-'') (to_ascii_lowercase (first_word line))"

definition check_step_acceptance :: "sdd_step \<Rightarrow> validation_error list" where
  "check_step_acceptance step =
     (if st_acceptance step = [] then [EmptyAcceptance (st_id step)]
      else concat (map (\<lambda>(i, line).
        let token = acceptance_token line in
        if token \<notin> set acceptance_verbs
        then [AcceptanceVerbMissing (st_id step) i token] else [])
        (enumerate 0 (st_acceptance step))))"

definition check_v3_acceptance :: "sdd_plan \<Rightarrow> validation_error list" where
  "check_v3_acceptance plan = concat (map check_step_acceptance (pb_steps (pl_plan plan)))"

text \<open>The ids met a second time, as the sorted set the code keeps them in.\<close>

fun duplicate_ids :: "string set \<Rightarrow> string list \<Rightarrow> string set" where
  "duplicate_ids seen [] = {}"
| "duplicate_ids seen (i # is) =
     (if i \<in> seen then insert i (duplicate_ids seen is) else duplicate_ids (insert i seen) is)"

definition check_duplicate_step_ids :: "sdd_plan \<Rightarrow> validation_error list \<times> bool" where
  "check_duplicate_step_ids plan =
     (let duplicates = duplicate_ids {} (map st_id (pb_steps (pl_plan plan))) in
      (map DuplicateStepId (sorted_list_of_set duplicates), duplicates \<noteq> {}))"

definition step_ids :: "sdd_plan \<Rightarrow> string list" where
  "step_ids plan = map st_id (pb_steps (pl_plan plan))"

text \<open>The hash map of known dependencies; a later step with the same id replaces it.\<close>

definition dependency_graph :: "sdd_plan \<Rightarrow> string \<Rightarrow> string list" where
  "dependency_graph plan node =
     (case map_of (rev (map (\<lambda>step. (st_id step,
          filter (\<lambda>dep. dep \<in> set (step_ids plan)) (st_depends_on step))) (pb_steps (pl_plan plan))))
        node of None \<Rightarrow> [] | Some deps \<Rightarrow> deps)"

definition unknown_dependencies :: "sdd_plan \<Rightarrow> validation_error list" where
  "unknown_dependencies plan =
     concat (map (\<lambda>step. map (UnknownDependency (st_id step))
        (filter (\<lambda>dep. dep \<notin> set (step_ids plan)) (st_depends_on step))) (pb_steps (pl_plan plan)))"

definition check_v4_cycles :: "(string list \<Rightarrow> string list) \<Rightarrow> sdd_plan \<Rightarrow> validation_error list" where
  "check_v4_cycles order plan =
     unknown_dependencies plan
     @ (let cycle = report_cycles (order (remdups (step_ids plan))) (dependency_graph plan) in
        if cycle \<noteq> {} then [Cycle cycle] else [])"

definition check_v2_paths :: "sdd_plan \<Rightarrow> surface_map \<Rightarrow> validation_error list" where
  "check_v2_paths plan sm =
     (let known = map sf_path (sm_files sm) in
      concat (map (\<lambda>step. map (UnknownPath (st_id step))
        (filter (\<lambda>path. path \<notin> set known) (st_paths step))) (pb_steps (pl_plan plan))))"

definition validate ::
    "(string \<Rightarrow> string + sdd_plan) \<Rightarrow> (string list \<Rightarrow> string list) \<Rightarrow> string \<Rightarrow> surface_map option \<Rightarrow>
     validation_report" where
  "validate from_str order plan_json sm =
     (case from_str plan_json of
        Inl e \<Rightarrow> \<lparr>vr_errors = [Shape e], vr_plan = None\<rparr>
      | Inr plan \<Rightarrow>
          \<lparr>vr_errors =
             (if pl_schema_version plan \<noteq> sdd_schema_version
              then [BadSchemaVersion sdd_schema_version (pl_schema_version plan)] else [])
             @ check_v5_trust_boundary plan
             @ check_v6_attempts plan
             @ check_v7_step_count plan
             @ check_v8_shell_allowlist plan
             @ check_v9_step_ids plan
             @ check_v10_title plan
             @ check_v3_acceptance plan
             @ (case check_duplicate_step_ids plan of (errs, found) \<Rightarrow>
                  errs @ (if \<not> found then check_v4_cycles order plan else []))
             @ (case sm of None \<Rightarrow> [] | Some s \<Rightarrow> check_v2_paths plan s),
           vr_plan = Some plan\<rparr>)"

subsection \<open>Rendering\<close>

definition quoted :: "string \<Rightarrow> string" where
  "quoted s = [CHR 0x27] @ s @ [CHR 0x27]"

text \<open>\<open>{:?}\<close> of a sorted set of strings.\<close>

definition debug_set :: "(string \<Rightarrow> string) \<Rightarrow> string set \<Rightarrow> string" where
  "debug_set debug_str ss = ''{'' @ join '', '' (map debug_str (sorted_list_of_set ss)) @ ''}''"

fun show_error :: "(string \<Rightarrow> string) \<Rightarrow> validation_error \<Rightarrow> string" where
  "show_error dbg (Shape message) = ''V1: candidate failed to deserialize into Plan: '' @ message"
| "show_error dbg (BadSchemaVersion expected actual) =
     ''V1: schema_version must be '' @ expected @ '' (got '' @ actual @ '')''"
| "show_error dbg (UnknownPath step_id path) =
     ''V2: step '' @ quoted step_id @ '' references unknown path '' @ quoted path"
| "show_error dbg (EmptyAcceptance step_id) =
     ''V3: step '' @ quoted step_id @ '' has empty acceptance list''"
| "show_error dbg (AcceptanceVerbMissing step_id index token) =
     ''V3: step '' @ quoted step_id @ '' acceptance entry '' @ show_nat index
       @ '' does not start with a verb (got '' @ quoted token @ '')''"
| "show_error dbg (Cycle steps) = ''V4: dependency cycle involving steps '' @ debug_set dbg steps"
| "show_error dbg (DuplicateStepId i) = ''V4: duplicate step id '' @ quoted i"
| "show_error dbg MutatingPlanner = ''V5: trust_boundary.mutates_ao_artifacts must be literal false''"
| "show_error dbg (ExcessAttempts a) =
     ''V6: provenance.attempts must be in [1, 3] (got '' @ show_nat a @ '')''"
| "show_error dbg (BadStepCount n) =
     ''V7: plan.steps.len() must be in [1, 25] (got '' @ show_nat n @ '')''"
| "show_error dbg (DisallowedShell location index token) =
     ''V8: exit_criteria.'' @ location @ ''['' @ show_nat index @ ''] shell '' @ quoted token
       @ '' is not allow-listed''"
| "show_error dbg (BadStepId i) =
     ''V9: step.id '' @ quoted i @ '' does not match /^step_[a-z0-9_]+$/''"
| "show_error dbg (OverlongTitle n) = ''V10: plan.title length '' @ show_nat n @ '' exceeds 80''"
| "show_error dbg (UnknownDependency step_id missing) =
     ''V4: step '' @ quoted step_id @ '' depends on unknown step '' @ quoted missing"

definition errors_for_provider_feedback ::
    "(string \<Rightarrow> string) \<Rightarrow> validation_report \<Rightarrow> string list" where
  "errors_for_provider_feedback dbg r = map (show_error dbg) (vr_errors r)"

definition render_report :: "(string \<Rightarrow> string) \<Rightarrow> validation_report \<Rightarrow> string" where
  "render_report dbg r =
     (if vr_errors r = [] then ''PASS'' @ [CHR 0x0A]
      else ''FAIL: '' @ show_nat (length (vr_errors r)) @ '' error(s)'' @ [CHR 0x0A]
        @ concat (map (\<lambda>(i, e). ''['' @ show_pad2 i @ ''] '' @ show_error dbg e @ [CHR 0x0A])
            (enumerate 0 (vr_errors r))))"

subsection \<open>What a valid plan is\<close>

definition step_relation :: "sdd_plan \<Rightarrow> (string \<times> string) set" where
  "step_relation plan =
     {(a, b). \<exists>step \<in> set (pb_steps (pl_plan plan)). st_id step = a \<and> b \<in> set (st_depends_on step)}"

definition allowed_commands :: "string list \<Rightarrow> bool" where
  "allowed_commands cmds \<longleftrightarrow> (\<forall>cmd \<in> set cmds. first_word cmd \<in> set allowed_shells)"

definition valid_step :: "sdd_step \<Rightarrow> bool" where
  "valid_step step \<longleftrightarrow>
     (\<exists>rest. st_id step = ''step_'' @ rest \<and> rest \<noteq> []
        \<and> (\<forall>c \<in> set rest. is_ascii_lowercase c \<or> is_ascii_digit c \<or> c = CHR ''_''))
     \<and> st_acceptance step \<noteq> []
     \<and> (\<forall>line \<in> set (st_acceptance step). acceptance_token line \<in> set acceptance_verbs)"

definition valid_plan :: "sdd_plan \<Rightarrow> surface_map option \<Rightarrow> bool" where
  "valid_plan plan sm \<longleftrightarrow>
     pl_schema_version plan = sdd_schema_version
     \<and> \<not> tb_mutates_ao_artifacts (pl_trust_boundary plan)
     \<and> pv_attempts (pl_provenance plan) \<in> {1..3}
     \<and> length (pb_steps (pl_plan plan)) \<in> {1..25}
     \<and> allowed_commands (ec_tests (pb_exit_criteria (pl_plan plan)))
     \<and> allowed_commands (ec_gates (pb_exit_criteria (pl_plan plan)))
     \<and> chars_count (pb_title (pl_plan plan)) \<le> 80
     \<and> (\<forall>step \<in> set (pb_steps (pl_plan plan)). valid_step step)
     \<and> distinct (step_ids plan)
     \<and> step_relation plan \<subseteq> UNIV \<times> set (step_ids plan) \<and> acyclic (step_relation plan)
     \<and> (\<forall>s. sm = Some s \<longrightarrow> (\<forall>step \<in> set (pb_steps (pl_plan plan)).
          set (st_paths step) \<subseteq> sf_path ` set (sm_files s)))"

lemma enumerate_all: "(\<forall>(i, x) \<in> set (enumerate n xs). P x) \<longleftrightarrow> (\<forall>x \<in> set xs. P x)"
  by (induction xs arbitrary: n) auto

lemma concat_enumerate_Nil:
  "concat (map (\<lambda>(i, x). f i x) (enumerate n xs)) = [] \<longleftrightarrow>
    (\<forall>(i, x) \<in> set (enumerate n xs). f i x = [])"
  by auto

lemma shell_list_ok [check_simps]: "check_shell_list loc cmds = [] \<longleftrightarrow> allowed_commands cmds"
  unfolding check_shell_list_def concat_enumerate_Nil Let_def allowed_commands_def
  by (subst enumerate_all [of 0 cmds, symmetric]) (auto split: if_splits)

lemma step_acceptance_ok [check_simps]:
  "check_step_acceptance step = [] \<longleftrightarrow> st_acceptance step \<noteq> []
    \<and> (\<forall>line \<in> set (st_acceptance step). acceptance_token line \<in> set acceptance_verbs)"
  unfolding check_step_acceptance_def concat_enumerate_Nil Let_def
  by (subst enumerate_all [of 0 "st_acceptance step", symmetric]) (auto split: if_splits)

lemma valid_step_id_iff [check_simps]:
  "is_valid_step_id i \<longleftrightarrow> (\<exists>rest. i = ''step_'' @ rest \<and> rest \<noteq> []
     \<and> (\<forall>c \<in> set rest. is_ascii_lowercase c \<or> is_ascii_digit c \<or> c = CHR ''_''))"
  unfolding is_valid_step_id_def list_all_iff
  by (cases "strip_prefix ''step_'' i") (auto simp: strip_prefix_def prefix_def split: if_splits)

lemma duplicate_ids_set:
  "duplicate_ids seen is = {i \<in> set is. i \<in> seen \<or> 1 < count_list is i}"
proof (induction seen "is" rule: duplicate_ids.induct)
  case (2 seen i "is")
  have "1 < count_list (i # is) j \<longleftrightarrow> (if i = j then j \<in> set is else 1 < count_list is j)" for j
    using count_list_0_iff [of "is" j] by auto
  with 2 show ?case by (cases "i \<in> seen") auto
qed simp

lemma duplicates_none: "duplicate_ids {} is = {} \<longleftrightarrow> distinct is"
  by (induction "is") (auto simp: duplicate_ids_set count_list_0_iff
      dest: count_list_0_iff [THEN iffD1])

lemma dependency_graph_None: "n \<notin> set (step_ids plan) \<Longrightarrow> dependency_graph plan n = []"
proof -
  let ?es = "rev (map (\<lambda>step. (st_id step,
    filter (\<lambda>dep. dep \<in> set (step_ids plan)) (st_depends_on step))) (pb_steps (pl_plan plan)))"
  assume "n \<notin> set (step_ids plan)"
  then have "n \<notin> fst ` set ?es" by (auto simp: step_ids_def image_iff)
  then have "map_of ?es n = None" by (simp add: map_of_eq_None_iff)
  then show ?thesis by (simp add: dependency_graph_def)
qed

lemma dependency_graph_known: "set (dependency_graph plan n) \<subseteq> set (step_ids plan)"
  by (cases "map_of (rev (map (\<lambda>step. (st_id step,
      filter (\<lambda>dep. dep \<in> set (step_ids plan)) (st_depends_on step))) (pb_steps (pl_plan plan)))) n")
    (auto simp: dependency_graph_def dest!: map_of_SomeD)

lemma dependency_graph_closed:
  "set keys = set (step_ids plan) \<Longrightarrow> closed_graph keys (dependency_graph plan)"
  using dependency_graph_known dependency_graph_None by (auto simp: closed_graph_def)

lemma dependency_graph_step:
  assumes "distinct (step_ids plan)" and "step \<in> set (pb_steps (pl_plan plan))"
  shows "dependency_graph plan (st_id step) =
    filter (\<lambda>dep. dep \<in> set (step_ids plan)) (st_depends_on step)"
proof -
  let ?f = "\<lambda>step. (st_id step, filter (\<lambda>dep. dep \<in> set (step_ids plan)) (st_depends_on step))"
  have "distinct (map fst (rev (map ?f (pb_steps (pl_plan plan)))))"
    using assms(1) by (simp add: step_ids_def rev_map [symmetric] comp_def)
  then have "map_of (rev (map ?f (pb_steps (pl_plan plan)))) (st_id step) = Some (snd (?f step))"
    using assms(2) by (intro map_of_is_SomeI) auto
  then show ?thesis by (simp add: dependency_graph_def)
qed

lemma edges_dependency_graph:
  assumes "distinct (step_ids plan)"
  shows "edges (dependency_graph plan) = step_relation plan \<inter> UNIV \<times> set (step_ids plan)"
proof -
  have "(a, b) \<in> edges (dependency_graph plan) \<longleftrightarrow>
      (a, b) \<in> step_relation plan \<and> b \<in> set (step_ids plan)" for a b
  proof (cases "a \<in> set (step_ids plan)")
    case True
    then obtain step where step: "step \<in> set (pb_steps (pl_plan plan))" "st_id step = a"
      by (auto simp: step_ids_def)
    have uniq: "step' = step" if "step' \<in> set (pb_steps (pl_plan plan))" "st_id step' = a" for step'
      using assms step that by (auto simp: step_ids_def distinct_map inj_on_def)
    have "(a, b) \<in> step_relation plan \<longleftrightarrow> b \<in> set (st_depends_on step)"
      using step uniq unfolding step_relation_def by blast
    moreover have "dependency_graph plan a =
        filter (\<lambda>dep. dep \<in> set (step_ids plan)) (st_depends_on step)"
      using dependency_graph_step [OF assms step(1)] step(2) by simp
    ultimately show ?thesis by (auto simp: edges_def)
  next
    case False
    then show ?thesis
      by (auto simp: edges_def step_relation_def dependency_graph_None step_ids_def)
  qed
  then show ?thesis by auto
qed

lemma unknown_dependencies_none:
  "unknown_dependencies plan = [] \<longleftrightarrow> step_relation plan \<subseteq> UNIV \<times> set (step_ids plan)"
  by (auto simp: unknown_dependencies_def step_relation_def filter_empty_conv)

lemma v4_ok:
  assumes "\<And>ks. set (order ks) = set ks" and "distinct (step_ids plan)"
  shows "check_v4_cycles order plan = [] \<longleftrightarrow>
    step_relation plan \<subseteq> UNIV \<times> set (step_ids plan) \<and> acyclic (step_relation plan)"
proof -
  have "closed_graph (order (remdups (step_ids plan))) (dependency_graph plan)"
    by (rule dependency_graph_closed) (simp add: assms(1))
  note search.report_empty_iff [OF this]
  moreover have "step_relation plan \<inter> UNIV \<times> set (step_ids plan) = step_relation plan"
    if "step_relation plan \<subseteq> UNIV \<times> set (step_ids plan)"
    using that by blast
  ultimately show ?thesis
    by (auto simp: check_v4_cycles_def Let_def unknown_dependencies_none
        edges_dependency_graph [OF assms(2)])
qed

lemma v2_ok: "check_v2_paths plan s = [] \<longleftrightarrow>
    (\<forall>step \<in> set (pb_steps (pl_plan plan)). set (st_paths step) \<subseteq> sf_path ` set (sm_files s))"
  by (auto simp: check_v2_paths_def filter_empty_conv)

lemma v5_ok: "check_v5_trust_boundary plan = [] \<longleftrightarrow>
    \<not> tb_mutates_ao_artifacts (pl_trust_boundary plan)"
  by (simp add: check_v5_trust_boundary_def)

lemma v6_ok: "check_v6_attempts plan = [] \<longleftrightarrow> pv_attempts (pl_provenance plan) \<in> {1..3}"
  by (auto simp: check_v6_attempts_def Let_def)

lemma v7_ok: "check_v7_step_count plan = [] \<longleftrightarrow> length (pb_steps (pl_plan plan)) \<in> {1..25}"
  by (auto simp: check_v7_step_count_def Let_def)

lemma v8_ok: "check_v8_shell_allowlist plan = [] \<longleftrightarrow>
    allowed_commands (ec_tests (pb_exit_criteria (pl_plan plan)))
    \<and> allowed_commands (ec_gates (pb_exit_criteria (pl_plan plan)))"
  by (simp add: check_v8_shell_allowlist_def shell_list_ok)

lemma v9_ok: "check_v9_step_ids plan = [] \<longleftrightarrow>
    (\<forall>step \<in> set (pb_steps (pl_plan plan)). is_valid_step_id (st_id step))"
  by (auto simp: check_v9_step_ids_def split: if_splits)

lemma v10_ok: "check_v10_title plan = [] \<longleftrightarrow> chars_count (pb_title (pl_plan plan)) \<le> 80"
  by (simp add: check_v10_title_def Let_def not_less)

lemma v3_ok: "check_v3_acceptance plan = [] \<longleftrightarrow>
    (\<forall>step \<in> set (pb_steps (pl_plan plan)). check_step_acceptance step = [])"
  by (simp add: check_v3_acceptance_def)

lemma valid_step_iff:
  "valid_step step \<longleftrightarrow> is_valid_step_id (st_id step) \<and> check_step_acceptance step = []"
  by (simp add: valid_step_def valid_step_id_iff step_acceptance_ok)

lemma errors_of_validate:
  assumes "\<And>ks. set (order ks) = set ks" and "from_str json = Inr plan"
  shows "vr_errors (validate from_str order json sm) = [] \<longleftrightarrow> valid_plan plan sm"
proof -
  have dup: "check_duplicate_step_ids plan = (errs, found) \<Longrightarrow>
      (found \<longleftrightarrow> \<not> distinct (step_ids plan)) \<and> (\<not> found \<longrightarrow> errs = [])" for errs found
    using duplicates_none [of "step_ids plan"]
    by (auto simp: check_duplicate_step_ids_def Let_def step_ids_def)
  have dup_some: "check_duplicate_step_ids plan = (errs, True) \<Longrightarrow> errs \<noteq> []" for errs
  proof -
    assume h: "check_duplicate_step_ids plan = (errs, True)"
    have "finite (duplicate_ids {} (map st_id (pb_steps (pl_plan plan))))"
      by (simp add: duplicate_ids_set)
    with h show "errs \<noteq> []"
      by (auto simp: check_duplicate_step_ids_def Let_def)
  qed
  have v4: "(case check_duplicate_step_ids plan of (errs, found) \<Rightarrow>
        errs @ (if \<not> found then check_v4_cycles order plan else [])) = [] \<longleftrightarrow>
      distinct (step_ids plan) \<and> step_relation plan \<subseteq> UNIV \<times> set (step_ids plan)
      \<and> acyclic (step_relation plan)"
    using dup dup_some v4_ok [of order plan, OF assms(1)]
    by (cases "check_duplicate_step_ids plan") (auto split: prod.splits)
  show ?thesis
    unfolding validate_def valid_plan_def
    by (simp add: assms(2) v4 v5_ok v6_ok v7_ok v8_ok v9_ok v10_ok v3_ok v2_ok valid_step_iff ball_conj_distrib
        conj_ac split: option.split)
qed

subsection \<open>Properties\<close>

text \<open>C19: The validator implements its specification: whatever order the hash map of steps
  is iterated in, the report is clean exactly for a text that parses as a plan satisfying
  the declarative rules V1 to V10, among them that the dependency relation of the steps
  names only known steps and is acyclic.\<close>

theorem validate_iff_valid_plan:
  assumes "\<And>ks. set (order ks) = set ks"
  shows "report_ok (validate from_str order json sm) \<longleftrightarrow>
    (\<exists>plan. from_str json = Inr plan \<and> valid_plan plan sm)"
proof (cases "from_str json")
  case (Inl e)
  then show ?thesis by (simp add: report_ok_def validate_def)
next
  case (Inr plan)
  then show ?thesis
    using errors_of_validate [of order from_str json plan sm, OF assms Inr]
    by (simp add: report_ok_def)
qed

definition example_step :: "string \<Rightarrow> string list \<Rightarrow> sdd_step" where
  "example_step i deps = \<lparr>st_id = i, st_kind = SkEdit, st_paths = [], st_rationale = [],
     st_acceptance = [''add it''], st_depends_on = deps\<rparr>"

definition example_plan :: "sdd_step list \<Rightarrow> sdd_plan" where
  "example_plan steps =
     \<lparr>pl_schema_version = sdd_schema_version, pl_plan_id = ''p'', pl_generated_at_utc = [],
      pl_prompt = \<lparr>pr_text = [], pr_sha256 = []\<rparr>,
      pl_target = \<lparr>tg_repo_path = [], tg_head_sha = [], tg_head_subject = [],
        tg_surface_map_sha256 = []\<rparr>,
      pl_plan = \<lparr>pb_kind = PkBuild, pb_title = ''t'', pb_goal = [], pb_non_goals = [],
        pb_steps = steps,
        pb_exit_criteria = \<lparr>ec_tests = [''cargo test''], ec_gates = [], ec_manual = []\<rparr>\<rparr>,
      pl_provenance = \<lparr>pv_attempts = 1, pv_provider = [], pv_engine_sha = [], pv_cli_version = []\<rparr>,
      pl_trust_boundary = \<lparr>tb_control_plane_role = [], tb_mutates_ao_artifacts = False,
        tb_ingest_authority = [], tb_release_acceptance_owner = []\<rparr>,
      pl_quality = None\<rparr>"

theorem validate_iff_valid_plan_witness:
  "valid_plan (example_plan [example_step ''step_a'' [], example_step ''step_b'' [''step_a'']]) None"
proof -
  let ?p = "example_plan [example_step ''step_a'' [], example_step ''step_b'' [''step_a'']]"
  have "report_ok (validate (\<lambda>_. Inr ?p) rev [] None)" by code_simp
  then show ?thesis
    by (subst (asm) validate_iff_valid_plan) simp_all
qed

text \<open>A reported dependency cycle is real: for a plan with distinct step ids the error
  names a nonempty set of its steps, each of which depends on itself through other steps.\<close>

theorem reported_cycle_is_real:
  assumes "\<And>ks. set (order ks) = set ks" and "from_str json = Inr plan"
    and "Cycle c \<in> set (vr_errors (validate from_str order json sm))"
  shows "c \<noteq> {} \<and> c \<subseteq> set (step_ids plan) \<and> (\<forall>x \<in> c. (x, x) \<in> (step_relation plan)\<^sup>+)"
proof -
  let ?keys = "order (remdups (step_ids plan))"
  have closed: "closed_graph ?keys (dependency_graph plan)"
    by (rule dependency_graph_closed) (simp add: assms(1))
  have d: "distinct (step_ids plan)" and c: "c \<noteq> {}" "c = report_cycles ?keys (dependency_graph plan)"
    using assms(3) duplicates_none [of "step_ids plan"]
    by (auto simp: validate_def assms(2) check_v5_trust_boundary_def check_v6_attempts_def
        check_v7_step_count_def check_v8_shell_allowlist_def check_shell_list_def
        check_v9_step_ids_def check_v10_title_def check_v3_acceptance_def check_step_acceptance_def
        check_duplicate_step_ids_def check_v4_cycles_def unknown_dependencies_def
        check_v2_paths_def step_ids_def Let_def split: if_splits option.splits prod.splits)
  have "edges (dependency_graph plan) \<subseteq> step_relation plan"
    by (simp add: edges_dependency_graph [OF d])
  then have "(edges (dependency_graph plan))\<^sup>+ \<subseteq> (step_relation plan)\<^sup>+"
    by (rule trancl_mono_subset)
  moreover have "c \<subseteq> set (step_ids plan)"
    using search.report_on_keys [OF closed] c(2) by (simp add: assms(1))
  ultimately show ?thesis
    using c search.report_sound [OF closed] by blast
qed

theorem reported_cycle_is_real_witness:
  "(''step_a'', ''step_a'') \<in> (step_relation (example_plan
    [example_step ''step_a'' [''step_b''], example_step ''step_b'' [''step_a'']]))\<^sup>+"
proof -
  let ?p = "example_plan [example_step ''step_a'' [''step_b''], example_step ''step_b'' [''step_a'']]"
  have "vr_errors (validate (\<lambda>_. Inr ?p) id [] None) = [Cycle {''step_a'', ''step_b''}]" by code_simp
  then have "Cycle {''step_a'', ''step_b''} \<in> set (vr_errors (validate (\<lambda>_. Inr ?p) id [] None))"
    by simp
  from reported_cycle_is_real [OF _ refl this] show ?thesis by simp
qed

end
