(* ===== verification/Sdd_Dispatch.thy ===== *)
theory Sdd_Dispatch
  imports Sdd_Validator
begin

text \<open>
  The dispatch bridges of \<open>crates/sdd-planner/src/dispatch\<close>: the translation of a plan into
  an ao-operator runspec and back (\<open>ao_operator.rs\<close>) and into an ao2 run
  (\<open>ao2_run.rs\<close>).
\<close>

subsection \<open>ao-operator\<close>

definition ao_operator_schema_version :: string where
  "ao_operator_schema_version = ''ao.run-operator.v1''"

definition source_schema_version :: string where
  "source_schema_version = ''ao2.sdd-plan.v1''"

record runspec_node =
  rn_acceptance :: "string list"
  rn_id :: string
  rn_kind :: step_kind
  rn_paths :: "string list"
  rn_rationale :: string

record runspec_edge =
  re_from :: string
  re_to :: string

record ao_operator_runspec =
  rs_edges :: "runspec_edge list"
  rs_exit_criteria :: exit_criteria
  rs_generated_at_utc :: string
  rs_goal :: string
  rs_kind :: plan_kind
  rs_non_goals :: "string list"
  rs_nodes :: "runspec_node list"
  rs_plan_id :: string
  rs_prompt :: sdd_prompt
  rs_provenance :: provenance
  rs_runspec_id :: string
  rs_schema_version :: string
  rs_source_schema_version :: string
  rs_target :: sdd_target
  rs_title :: string
  rs_trust_boundary :: trust_boundary

definition node_of_step :: "sdd_step \<Rightarrow> runspec_node" where
  "node_of_step s = \<lparr>rn_acceptance = st_acceptance s, rn_id = st_id s, rn_kind = st_kind s,
     rn_paths = st_paths s, rn_rationale = st_rationale s\<rparr>"

definition edges_of_steps :: "sdd_step list \<Rightarrow> runspec_edge list" where
  "edges_of_steps steps =
     concat (map (\<lambda>step. map (\<lambda>dep. \<lparr>re_from = dep, re_to = st_id step\<rparr>) (st_depends_on step)) steps)"

definition to_runspec :: "sdd_plan \<Rightarrow> ao_operator_runspec" where
  "to_runspec plan =
     \<lparr>rs_edges = edges_of_steps (pb_steps (pl_plan plan)),
      rs_exit_criteria = pb_exit_criteria (pl_plan plan),
      rs_generated_at_utc = pl_generated_at_utc plan,
      rs_goal = pb_goal (pl_plan plan),
      rs_kind = pb_kind (pl_plan plan),
      rs_non_goals = pb_non_goals (pl_plan plan),
      rs_nodes = map node_of_step (pb_steps (pl_plan plan)),
      rs_plan_id = pl_plan_id plan,
      rs_prompt = pl_prompt plan,
      rs_provenance = pl_provenance plan,
      rs_runspec_id = pl_plan_id plan,
      rs_schema_version = ao_operator_schema_version,
      rs_source_schema_version = source_schema_version,
      rs_target = pl_target plan,
      rs_title = pb_title (pl_plan plan),
      rs_trust_boundary = pl_trust_boundary plan\<rparr>"

definition step_of_node :: "runspec_edge list \<Rightarrow> runspec_node \<Rightarrow> sdd_step" where
  "step_of_node es n =
     \<lparr>st_id = rn_id n, st_kind = rn_kind n, st_paths = rn_paths n, st_rationale = rn_rationale n,
      st_acceptance = rn_acceptance n,
      st_depends_on = map re_from (filter (\<lambda>e. re_to e = rn_id n) es)\<rparr>"

definition from_runspec :: "ao_operator_runspec \<Rightarrow> sdd_plan" where
  "from_runspec rs =
     \<lparr>pl_schema_version = source_schema_version,
      pl_plan_id = rs_plan_id rs,
      pl_generated_at_utc = rs_generated_at_utc rs,
      pl_prompt = rs_prompt rs,
      pl_target = rs_target rs,
      pl_plan = \<lparr>pb_kind = rs_kind rs, pb_title = rs_title rs, pb_goal = rs_goal rs,
        pb_non_goals = rs_non_goals rs,
        pb_steps = map (step_of_node (rs_edges rs)) (rs_nodes rs),
        pb_exit_criteria = rs_exit_criteria rs\<rparr>,
      pl_provenance = rs_provenance rs,
      pl_trust_boundary = rs_trust_boundary rs,
      pl_quality = None\<rparr>"

subsection \<open>ao2 run\<close>

definition ao2_run_api_version :: string where
  "ao2_run_api_version = ''ao2.run/v1''"

definition ao2_run_kind :: string where
  "ao2_run_kind = ''Run''"

record run_source_ref =
  sr_schema_version :: string
  sr_plan_id :: string
  sr_generated_at_utc :: string

record run_task =
  rt_id :: string
  rt_kind :: step_kind
  rt_deps :: "string list"
  rt_paths :: "string list"
  rt_rationale :: string
  rt_acceptance :: "string list"

record run_metadata =
  md_name :: string
  md_description :: string

record run_spec =
  sp_source :: run_source_ref
  sp_plan_kind :: plan_kind
  sp_goal :: string
  sp_non_goals :: "string list"
  sp_prompt :: sdd_prompt
  sp_target :: sdd_target
  sp_provenance :: provenance
  sp_trust_boundary :: trust_boundary
  sp_tasks :: "run_task list"
  sp_exit_criteria :: exit_criteria

record ao2_run_spec =
  ar_api_version :: string
  ar_kind :: string
  ar_metadata :: run_metadata
  ar_spec :: run_spec

definition task_of_step :: "sdd_step \<Rightarrow> run_task" where
  "task_of_step s = \<lparr>rt_id = st_id s, rt_kind = st_kind s, rt_deps = st_depends_on s,
     rt_paths = st_paths s, rt_rationale = st_rationale s, rt_acceptance = st_acceptance s\<rparr>"

definition to_ao2_run :: "sdd_plan \<Rightarrow> ao2_run_spec" where
  "to_ao2_run plan =
     \<lparr>ar_api_version = ao2_run_api_version,
      ar_kind = ao2_run_kind,
      ar_metadata = \<lparr>md_name = pl_plan_id plan, md_description = pb_title (pl_plan plan)\<rparr>,
      ar_spec =
        \<lparr>sp_source = \<lparr>sr_schema_version = source_schema_version, sr_plan_id = pl_plan_id plan,
           sr_generated_at_utc = pl_generated_at_utc plan\<rparr>,
         sp_plan_kind = pb_kind (pl_plan plan),
         sp_goal = pb_goal (pl_plan plan),
         sp_non_goals = pb_non_goals (pl_plan plan),
         sp_prompt = pl_prompt plan,
         sp_target = pl_target plan,
         sp_provenance = pl_provenance plan,
         sp_trust_boundary = pl_trust_boundary plan,
         sp_tasks = map task_of_step (pb_steps (pl_plan plan)),
         sp_exit_criteria = pb_exit_criteria (pl_plan plan)\<rparr>\<rparr>"

subsection \<open>Round trip\<close>

lemma edges_into_other: "i \<notin> st_id ` set steps \<Longrightarrow> filter (\<lambda>e. re_to e = i) (edges_of_steps steps) = []"
  by (induction steps) (auto simp: edges_of_steps_def filter_empty_conv)

lemma edges_into_step:
  assumes "distinct (map st_id steps)" and "s \<in> set steps"
  shows "map re_from (filter (\<lambda>e. re_to e = st_id s) (edges_of_steps steps)) = st_depends_on s"
  using assms
proof (induction steps)
  case (Cons t steps)
  have split: "edges_of_steps (t # steps) =
      map (\<lambda>dep. \<lparr>re_from = dep, re_to = st_id t\<rparr>) (st_depends_on t) @ edges_of_steps steps"
    by (simp add: edges_of_steps_def)
  show ?case
  proof (cases "s = t")
    case True
    then have "st_id s \<notin> st_id ` set steps" using Cons.prems(1) by simp
    from edges_into_other [OF this] True show ?thesis
      by (simp add: split filter_map comp_def)
  next
    case False
    then have "s \<in> set steps" and "st_id t \<noteq> st_id s" using Cons.prems by auto
    then show ?thesis using Cons by (simp add: split filter_map comp_def)
  qed
qed simp

lemma node_step: "distinct (map st_id steps) \<Longrightarrow> s \<in> set steps \<Longrightarrow>
    step_of_node (edges_of_steps steps) (node_of_step s) = s"
  by (simp add: step_of_node_def node_of_step_def edges_into_step)

lemma from_to_runspec:
  assumes "distinct (step_ids plan)"
  shows "from_runspec (to_runspec plan) =
    plan\<lparr>pl_schema_version := source_schema_version, pl_quality := None\<rparr>"
proof -
  have "map (step_of_node (edges_of_steps (pb_steps (pl_plan plan))))
      (map node_of_step (pb_steps (pl_plan plan))) = pb_steps (pl_plan plan)"
    using assms node_step by (simp add: step_ids_def map_idI)
  then show ?thesis by (simp add: from_runspec_def to_runspec_def)
qed

text \<open>C39: For a plan that the validator accepts, translating it to an ao-operator runspec and
  back returns the plan, except that the optional quality block is not carried; a second
  translation gives the same runspec.\<close>

theorem runspec_roundtrip:
  assumes "valid_plan plan sm"
  shows "from_runspec (to_runspec plan) = plan\<lparr>pl_quality := None\<rparr>
    \<and> to_runspec (from_runspec (to_runspec plan)) = to_runspec plan"
proof -
  from assms have "pl_schema_version plan = source_schema_version" and d: "distinct (step_ids plan)"
    by (simp_all add: valid_plan_def sdd_schema_version_def source_schema_version_def)
  then have rt: "from_runspec (to_runspec plan) = plan\<lparr>pl_quality := None\<rparr>"
    using from_to_runspec [OF d] by simp
  show ?thesis unfolding rt by (simp add: to_runspec_def)
qed

theorem runspec_roundtrip_witness:
  "from_runspec (to_runspec (example_plan [example_step ''step_a'' []])) =
    (example_plan [example_step ''step_a'' []])\<lparr>pl_quality := None\<rparr>"
proof -
  have "report_ok (validate (\<lambda>_. Inr (example_plan [example_step ''step_a'' []])) rev [] None)"
    by code_simp
  then have "valid_plan (example_plan [example_step ''step_a'' []]) None"
    using errors_of_validate [of rev "\<lambda>_. Inr (example_plan [example_step ''step_a'' []])"]
    by (simp add: report_ok_def)
  then show ?thesis by (rule runspec_roundtrip [THEN conjunct1])
qed

text \<open>Both bridges keep the dependency structure: the ids of the nodes and of the tasks are
  the step ids in order, the edges of the runspec and the dependencies of the tasks are
  exactly the dependency pairs of the steps, in the same order and with the same
  multiplicity.\<close>

theorem bridges_keep_the_dependencies:
  "map rn_id (rs_nodes (to_runspec plan)) = step_ids plan
    \<and> map rt_id (sp_tasks (ar_spec (to_ao2_run plan))) = step_ids plan
    \<and> map (\<lambda>e. (re_from e, re_to e)) (rs_edges (to_runspec plan)) =
        concat (map (\<lambda>t. map (\<lambda>d. (d, rt_id t)) (rt_deps t)) (sp_tasks (ar_spec (to_ao2_run plan))))
    \<and> {(re_to e, re_from e) | e. e \<in> set (rs_edges (to_runspec plan))} = step_relation plan"
proof -
  have "map (\<lambda>e. (re_from e, re_to e)) (edges_of_steps steps) =
      concat (map (\<lambda>t. map (\<lambda>d. (d, rt_id t)) (rt_deps t)) (map task_of_step steps))" for steps
    by (induction steps) (simp_all add: edges_of_steps_def task_of_step_def comp_def)
  moreover have "{(re_to e, re_from e) | e. e \<in> set (rs_edges (to_runspec plan))} = step_relation plan"
  proof (rule set_eqI)
    fix p :: "string \<times> string"
    obtain a b where p: "p = (a, b)" by (cases p)
    have "(\<exists>e \<in> set (edges_of_steps (pb_steps (pl_plan plan))). re_to e = a \<and> re_from e = b) \<longleftrightarrow>
        (\<exists>s \<in> set (pb_steps (pl_plan plan)). st_id s = a \<and> b \<in> set (st_depends_on s))"
      by (auto simp: edges_of_steps_def)
    then show "p \<in> {(re_to e, re_from e) | e. e \<in> set (rs_edges (to_runspec plan))} \<longleftrightarrow>
        p \<in> step_relation plan"
      unfolding p to_runspec_def step_relation_def by auto
  qed
  ultimately show ?thesis
    by (simp add: to_runspec_def to_ao2_run_def step_ids_def node_of_step_def task_of_step_def comp_def)
qed

end
