(* ===== verification/Sdd_Surface.thy ===== *)
theory Sdd_Surface
  imports Sdd_Schema File_Tree
begin

text \<open>
  The repository scanner of \<open>crates/sdd-planner/src/surface.rs\<close>.  SHA-256 in hexadecimal,
  \<open>String::from_utf8_lossy\<close> and the Unicode class \<open>char::is_alphanumeric\<close> are arguments; a
  symbolic link, which the walk does not follow, is an \<open>FsOther\<close> node.
\<close>

definition max_file_size_bytes :: nat where
  "max_file_size_bytes = 1024 * 1024"

definition excluded_dirs :: "string list" where
  "excluded_dirs = [''target'', ''.git'', ''node_modules'']"

definition kind_for_extension :: "string \<Rightarrow> string option" where
  "kind_for_extension ext =
     (if ext = ''rs'' then Some ''rust''
      else if ext = ''toml'' then Some ''toml''
      else if ext = ''md'' then Some ''markdown''
      else if ext = ''json'' then Some ''json''
      else if ext \<in> set [''yml'', ''yaml''] then Some ''yaml''
      else if ext \<in> set [''js'', ''mjs'', ''cjs'', ''jsx''] then Some ''javascript''
      else if ext \<in> set [''ts'', ''tsx''] then Some ''typescript''
      else if ext = ''py'' then Some ''python''
      else if ext \<in> set [''sh'', ''bash''] then Some ''shell''
      else if ext = ''html'' then Some ''html''
      else if ext = ''css'' then Some ''css''
      else if ext = ''txt'' then Some ''text''
      else None)"

definition is_secret_basename :: "string \<Rightarrow> bool" where
  "is_secret_basename name \<longleftrightarrow>
     prefix ''.env'' name \<or> suffix ''.pem'' name \<or> suffix ''.key'' name"

definition under_excluded_dir :: "string \<Rightarrow> bool" where
  "under_excluded_dir rel \<longleftrightarrow>
     list_ex (\<lambda>comp. comp \<in> set excluded_dirs) (split_byte CHR ''/'' rel)"

text \<open>The inner loop over the keywords, which ends at the first one that yields a name.\<close>

fun symbol_of_line :: "(string \<Rightarrow> bool) \<Rightarrow> string list \<Rightarrow> string \<Rightarrow> string option" where
  "symbol_of_line alnum [] trimmed = None"
| "symbol_of_line alnum (kw # kws) trimmed =
     (case strip_prefix (''pub '' @ kw @ '' '') trimmed of
        Some rest \<Rightarrow>
          (let name = concat (takeWhile (\<lambda>c. alnum c \<or> c = ''_'') (utf8_chars rest)) in
           if name \<noteq> [] then Some name else symbol_of_line alnum kws trimmed)
      | None \<Rightarrow> symbol_of_line alnum kws trimmed)"

definition extract_public_symbols :: "(string \<Rightarrow> bool) \<Rightarrow> string \<Rightarrow> string list" where
  "extract_public_symbols alnum src =
     remdups_adj (sort (List.map_filter
       (\<lambda>line. symbol_of_line alnum [''fn'', ''struct'', ''enum'', ''trait''] (trim_start line))
       (str_lines src)))"

fun normalize_crlf :: "string \<Rightarrow> string" where
  "normalize_crlf (c # d # cs) =
     (if c = CHR 0x0D \<and> d = CHR 0x0A then CHR 0x0A # normalize_crlf cs
      else c # normalize_crlf (d # cs))"
| "normalize_crlf cs = cs"

text \<open>What the loop does with one regular file.\<close>

definition scan_file ::
    "(string \<Rightarrow> string) \<Rightarrow> (string \<Rightarrow> string) \<Rightarrow> (string \<Rightarrow> bool) \<Rightarrow> string list \<Rightarrow> string \<Rightarrow> nat \<Rightarrow>
     string option \<Rightarrow> string + surface_file list" where
  "scan_file sha256_hex lossy alnum rel name len content =
     (if is_secret_basename name then Inr []
      else if len > max_file_size_bytes then Inr []
      else case kind_for_extension (case file_extension name of None \<Rightarrow> [] | Some e \<Rightarrow> e) of
        None \<Rightarrow> Inr []
      | Some kind \<Rightarrow>
          (let rel_str = relative_path rel in
           if under_excluded_dir rel_str then Inr []
           else case content of
             None \<Rightarrow> Inl ''read error''
           | Some bytes \<Rightarrow>
               (let normalized = normalize_crlf bytes in
                Inr [\<lparr>sf_kind = kind, sf_path = rel_str,
                  sf_public_symbols = (if kind = ''rust''
                    then extract_public_symbols alnum (lossy normalized) else []),
                  sf_sha256 = sha256_hex normalized\<rparr>])))"

function scan_walk ::
    "(string \<Rightarrow> string) \<Rightarrow> (string \<Rightarrow> string) \<Rightarrow> (string \<Rightarrow> bool) \<Rightarrow> string list \<Rightarrow> string \<Rightarrow> fs_node \<Rightarrow>
     string + surface_file list" where
  "scan_walk sha256_hex lossy alnum rel name (FsFile len content) =
     scan_file sha256_hex lossy alnum rel name len content"
| "scan_walk sha256_hex lossy alnum rel name FsOther = Inr []"
| "scan_walk sha256_hex lossy alnum rel name (FsError msg) = Inl msg"
| "scan_walk sha256_hex lossy alnum rel name (FsDir entries) =
     (if rel \<noteq> [] \<and> name \<in> set excluded_dirs then Inr []
      else walk_children (\<lambda>e. scan_walk sha256_hex lossy alnum (rel @ [fst e]) (fst e) (snd e))
        entries)"
  by pat_completeness auto
termination
  by (relation "measure (\<lambda>(_, _, _, _, _, n). size n)") (auto dest: size_fs_entry)

definition scan ::
    "(string \<Rightarrow> string) \<Rightarrow> (string \<Rightarrow> string) \<Rightarrow> (string \<Rightarrow> bool) \<Rightarrow> string \<Rightarrow> fs_node \<Rightarrow> string \<Rightarrow>
     string + surface_map" where
  "scan sha256_hex lossy alnum root_name tree head_sha =
     rbind (scan_walk sha256_hex lossy alnum [] root_name tree) (\<lambda>files.
       Inr \<lparr>sm_files = sort_key sf_path files, sm_head_sha = head_sha\<rparr>)"

subsection \<open>Lemmas\<close>

lemma normalize_crlf_idem_free:
  "CHR 0x0D \<notin> set s \<Longrightarrow> normalize_crlf s = s"
  by (induction s rule: normalize_crlf.induct) auto

text \<open>A checkout with \<open>\r\n\<close> line ends normalises to the one with \<open>\n\<close>.\<close>

lemma normalize_crlf_text:
  "CHR 0x0D \<notin> set s \<Longrightarrow>
    normalize_crlf (concat (map (\<lambda>c. if c = CHR 0x0A then [CHR 0x0D, CHR 0x0A] else [c]) s)) = s"
proof (induction s)
  case (Cons c s)
  then show ?case
    by (cases "concat (map (\<lambda>c. if c = CHR 0x0A then [CHR 0x0D, CHR 0x0A] else [c]) s)") auto
qed simp

text \<open>What a file of the map must satisfy, and where it comes from.\<close>

definition surface_entry :: "fs_node \<Rightarrow> string \<Rightarrow> surface_file \<Rightarrow> bool" where
  "surface_entry tree root_name f \<longleftrightarrow>
     (\<exists>rel len content. resolve tree rel = Some (FsFile len (Some content))
        \<and> sf_path f = relative_path rel \<and> len \<le> max_file_size_bytes
        \<and> \<not> is_secret_basename (last (root_name # rel))
        \<and> \<not> under_excluded_dir (sf_path f)
        \<and> (\<exists>ext. kind_for_extension ext = Some (sf_kind f)))"

lemma scan_file_member:
  assumes "scan_file sha lossy alnum rel name len content = Inr out" and "f \<in> set out"
  shows "\<exists>bytes. content = Some bytes \<and> sf_path f = relative_path rel
    \<and> len \<le> max_file_size_bytes \<and> \<not> is_secret_basename name \<and> \<not> under_excluded_dir (sf_path f)
    \<and> (\<exists>ext. kind_for_extension ext = Some (sf_kind f)) \<and> sf_sha256 f = sha (normalize_crlf bytes)"
  using assms by (auto simp: scan_file_def Let_def split: if_splits option.splits)

lemma scan_walk_member:
  assumes "scan_walk sha lossy alnum rel name n = Inr out" and "f \<in> set out" and "tree_ok n"
  shows "\<exists>q len bytes. resolve n q = Some (FsFile len (Some bytes))
    \<and> sf_path f = relative_path (rel @ q) \<and> len \<le> max_file_size_bytes
    \<and> \<not> is_secret_basename (last (name # q)) \<and> \<not> under_excluded_dir (sf_path f)
    \<and> (\<exists>ext. kind_for_extension ext = Some (sf_kind f)) \<and> sf_sha256 f = sha (normalize_crlf bytes)"
  using assms
proof (induction sha lossy alnum rel name n arbitrary: out rule: scan_walk.induct)
  case (1 sha lossy alnum rel name len content)
  then show ?case
    using scan_file_member [of sha lossy alnum rel name len content out f]
    by (intro exI [of _ "[]"]) auto
next
  case (4 sha lossy alnum rel name entries)
  from "4.prems"(1,2) have not_excl: "\<not> (rel \<noteq> [] \<and> name \<in> set excluded_dirs)"
    and walk: "walk_children (\<lambda>e. scan_walk sha lossy alnum (rel @ [fst e]) (fst e) (snd e))
      entries = Inr out" by (auto split: if_splits)
  from walk_children_member [OF walk "4.prems"(2)] obtain e here where e: "e \<in> set entries"
    "scan_walk sha lossy alnum (rel @ [fst e]) (fst e) (snd e) = Inr here" "f \<in> set here" by blast
  from "4.prems"(3) e(1) have ok: "tree_ok (snd e)" "entry_name_ok (fst e)" "distinct (map fst entries)"
    by auto
  from "4.IH" [OF not_excl e(1) e(2) e(3) ok(1)] obtain q len bytes where
    q: "resolve (snd e) q = Some (FsFile len (Some bytes))"
      "sf_path f = relative_path ((rel @ [fst e]) @ q)" "len \<le> max_file_size_bytes"
      "\<not> is_secret_basename (last (fst e # q))" "\<not> under_excluded_dir (sf_path f)"
      "\<exists>ext. kind_for_extension ext = Some (sf_kind f)" "sf_sha256 f = sha (normalize_crlf bytes)"
    by blast
  have "map_of entries (fst e) = Some (snd e)" using e(1) ok(3) by (intro map_of_is_SomeI) auto
  then have "resolve (FsDir entries) (fst e # q) = Some (FsFile len (Some bytes))"
    using q(1) ok(2) by (simp add: entry_name_ok_def)
  then show ?case
    using q(2-7) by (intro exI [of _ "fst e # q"] exI [of _ len] exI [of _ bytes]) auto
qed auto

text \<open>The surface map a planner sees is deterministic and safe: its files are in path
  order, and each of them is a regular readable file of the tree with an allow-listed
  extension and a size of at most 1 MiB, is no \<open>.env*\<close>, \<open>*.pem\<close> or \<open>*.key\<close> file, lies
  under no excluded directory, and carries the digest of its content with normalised line
  ends.\<close>

theorem scan_is_safe_and_sorted:
  assumes "scan sha lossy alnum root_name tree head = Inr m" and "tree_ok tree"
  shows "sorted (map sf_path (sm_files m)) \<and> sm_head_sha m = head
    \<and> (\<forall>f \<in> set (sm_files m). surface_entry tree root_name f
        \<and> (\<exists>rel len bytes. resolve tree rel = Some (FsFile len (Some bytes))
            \<and> sf_path f = relative_path rel \<and> sf_sha256 f = sha (normalize_crlf bytes)))"
proof -
  from assms(1) obtain files where walk: "scan_walk sha lossy alnum [] root_name tree = Inr files"
    and m: "m = \<lparr>sm_files = sort_key sf_path files, sm_head_sha = head\<rparr>"
    by (auto simp: scan_def rbind_eq_Inr)
  have "surface_entry tree root_name f \<and> (\<exists>rel len bytes.
      resolve tree rel = Some (FsFile len (Some bytes))
      \<and> sf_path f = relative_path rel \<and> sf_sha256 f = sha (normalize_crlf bytes))"
    if "f \<in> set files" for f
    using scan_walk_member [OF walk that assms(2)] unfolding surface_entry_def append_Nil by blast
  then show ?thesis by (simp add: m)
qed

theorem scan_is_safe_and_sorted_witness:
  "surface_entry (FsDir [(''k.pem'', FsFile 1 (Some ''y'')), (''a.md'', FsFile 1 (Some ''x''))]) ''r''
    \<lparr>sf_kind = ''markdown'', sf_path = ''a.md'', sf_public_symbols = [], sf_sha256 = ''x''\<rparr>"
proof -
  let ?t = "FsDir [(''k.pem'', FsFile 1 (Some ''y'')), (''a.md'', FsFile 1 (Some ''x''))]"
  let ?m = "\<lparr>sm_files = [\<lparr>sf_kind = ''markdown'', sf_path = ''a.md'', sf_public_symbols = [],
      sf_sha256 = ''x''\<rparr>], sm_head_sha = ''h''\<rparr>"
  have "scan id id (\<lambda>_. True) ''r'' ?t ''h'' = Inr ?m"
    by (simp add: scan_def scan_file_def is_secret_basename_def max_file_size_bytes_def
        file_extension_def kind_for_extension_def under_excluded_dir_def relative_path_def
        slashed_def excluded_dirs_def split_byte.simps suffix_def)
  moreover have "tree_ok ?t" by (simp add: entry_name_ok_def)
  ultimately show ?thesis using scan_is_safe_and_sorted by fastforce
qed

end
