(* ===== verification/Sdd_Context.thy ===== *)
theory Sdd_Context
  imports Sdd_Surface "HOL-Library.Product_Lexorder"
begin

text \<open>
  The context shrinker of \<open>crates/sdd-planner/src/context.rs\<close>.  The token count of a text
  is an argument (the external BPE encoder), and so are the JSON writer and the Unicode
  class of alphanumeric characters.  A Jaccard score is the exact fraction; the code
  divides two counts in \<open>f64\<close>, which orders the fractions in the same way as long as the
  counts stay below \<open>2^26\<close>.
\<close>

definition default_budget_tokens :: nat where
  "default_budget_tokens = 8000"

definition forced_basenames :: "string list" where
  "forced_basenames = [''Cargo.toml'', ''package.json'', ''README.md'']"

subsection \<open>Ranking\<close>

text \<open>\<open>split\<close> at every character that is not alphanumeric, without the empty pieces.\<close>

fun word_chunks :: "(string \<Rightarrow> bool) \<Rightarrow> string \<Rightarrow> string list \<Rightarrow> string list" where
  "word_chunks alnum current [] = (if current = [] then [] else [current])"
| "word_chunks alnum current (c # cs) =
     (if alnum c then word_chunks alnum (current @ c) cs
      else (if current = [] then [] else [current]) @ word_chunks alnum [] cs)"

definition word_tokens :: "(string \<Rightarrow> bool) \<Rightarrow> string \<Rightarrow> string set" where
  "word_tokens alnum s = set (map to_ascii_lowercase (word_chunks alnum [] (utf8_chars s)))"

definition file_tokens :: "(string \<Rightarrow> bool) \<Rightarrow> surface_file \<Rightarrow> string set" where
  "file_tokens alnum f =
     word_tokens alnum (sf_path f) \<union> set (map to_ascii_lowercase (sf_public_symbols f))"

definition jaccard :: "string set \<Rightarrow> string set \<Rightarrow> rat" where
  "jaccard a b =
     (if a = {} \<and> b = {} then 0
      else let intersection = card (a \<inter> b);
               union = card a + card b - intersection
           in if union = 0 then 0 else of_nat intersection / of_nat union)"

definition basename :: "string \<Rightarrow> string" where
  "basename path = rev (takeWhile (\<lambda>c. c \<noteq> CHR ''/'') (rev path))"

definition is_forced :: "string \<Rightarrow> bool" where
  "is_forced path \<longleftrightarrow> basename path \<in> set forced_basenames"

text \<open>The candidates with their scores, best first and by path among equals.\<close>

definition scored_files :: "(string \<Rightarrow> bool) \<Rightarrow> string \<Rightarrow> surface_file list \<Rightarrow> surface_file list" where
  "scored_files alnum prompt files =
     (let prompt_tokens = word_tokens alnum prompt in
      sort_key (\<lambda>f. (- jaccard prompt_tokens (file_tokens alnum f), sf_path f))
        (filter (\<lambda>f. \<not> is_forced (sf_path f)) files))"

text \<open>The forced files without a rank and the scored ones with theirs, in path order.\<close>

definition path_ordered ::
    "(string \<Rightarrow> bool) \<Rightarrow> string \<Rightarrow> surface_file list \<Rightarrow> (surface_file \<times> nat option) list" where
  "path_ordered alnum prompt files =
     sort_key (\<lambda>c. sf_path (fst c))
       (map (\<lambda>f. (f, None)) (filter (\<lambda>f. is_forced (sf_path f)) files)
        @ map (\<lambda>(rank, f). (f, Some rank)) (enumerate 0 (scored_files alnum prompt files)))"

definition candidate_for_prefix ::
    "(string \<Rightarrow> bool) \<Rightarrow> surface_map \<Rightarrow> string \<Rightarrow> nat \<Rightarrow> surface_map" where
  "candidate_for_prefix alnum m prompt prefix_len =
     \<lparr>sm_files = map fst (filter (\<lambda>c. case snd c of None \<Rightarrow> True | Some rank \<Rightarrow> rank < prefix_len)
        (path_ordered alnum prompt (sm_files m))),
      sm_head_sha = sm_head_sha m\<rparr>"

subsection \<open>Size and search\<close>

definition surface_file_json :: "surface_file \<Rightarrow> json" where
  "surface_file_json f = JObject
     [(''kind'', JString (sf_kind f)), (''path'', JString (sf_path f)),
      (''public_symbols'', JArray (map JString (sf_public_symbols f))),
      (''sha256'', JString (sf_sha256 f))]"

definition surface_map_json :: "surface_map \<Rightarrow> json" where
  "surface_map_json m = JObject
     [(''files'', JArray (map surface_file_json (sm_files m))),
      (''head_sha'', JString (sm_head_sha m))]"

definition candidate_token_count :: "(string \<Rightarrow> nat) \<Rightarrow> (json \<Rightarrow> string) \<Rightarrow> surface_map \<Rightarrow> nat" where
  "candidate_token_count count_tokens to_string m =
     count_tokens (canonical_json to_string (surface_map_json m))"

text \<open>The binary search over prefix lengths.\<close>

function prefix_search :: "(nat \<Rightarrow> bool) \<Rightarrow> nat \<Rightarrow> nat \<Rightarrow> nat" where
  "prefix_search fits low high =
     (if low < high then
        (let mid = low + (high - low + 1) div 2 in
         if fits mid then prefix_search fits mid high else prefix_search fits low (mid - 1))
      else low)"
  by pat_completeness auto
termination
  by (relation "measure (\<lambda>(_, low, high). high - low)") auto

declare prefix_search.simps [simp del]

definition shrink ::
    "(string \<Rightarrow> nat) \<Rightarrow> (json \<Rightarrow> string) \<Rightarrow> (string \<Rightarrow> bool) \<Rightarrow> surface_map \<Rightarrow> string \<Rightarrow> nat \<Rightarrow> surface_map" where
  "shrink count_tokens to_string alnum m prompt budget =
     (let candidate = candidate_for_prefix alnum m prompt;
          fits = (\<lambda>n. candidate_token_count count_tokens to_string (candidate n) \<le> budget)
      in if \<not> fits 0 then candidate 0
         else candidate (prefix_search fits 0 (length (scored_files alnum prompt (sm_files m)))))"

subsection \<open>Lemmas\<close>

text \<open>The search ends inside its range at a length that fits.\<close>

lemma prefix_search_fits:
  "fits low \<Longrightarrow> low \<le> high \<Longrightarrow> fits (prefix_search fits low high)
    \<and> low \<le> prefix_search fits low high \<and> prefix_search fits low high \<le> high"
proof (induction fits low high rule: prefix_search.induct)
  case (1 fits low high)
  let ?mid = "low + (high - low + 1) div 2"
  show ?case
  proof (cases "low < high")
    case True
    then have mid: "low < ?mid" "?mid \<le> high" by auto
    show ?thesis
    proof (cases "fits ?mid")
      case True': True
      have "fits (prefix_search fits ?mid high) \<and> ?mid \<le> prefix_search fits ?mid high
          \<and> prefix_search fits ?mid high \<le> high"
        by (rule "1.IH"(1) [OF True refl True']) (use True' mid in auto)
      moreover have "prefix_search fits low high = prefix_search fits ?mid high"
        using True True' by (subst prefix_search.simps) (simp add: Let_def)
      ultimately show ?thesis using mid by simp
    next
      case False
      have "fits (prefix_search fits low (?mid - 1)) \<and> low \<le> prefix_search fits low (?mid - 1)
          \<and> prefix_search fits low (?mid - 1) \<le> ?mid - 1"
        by (rule "1.IH"(2) [OF True refl False]) (use "1.prems" mid in auto)
      moreover have "prefix_search fits low high = prefix_search fits low (?mid - 1)"
        using True False by (subst prefix_search.simps) (simp add: Let_def)
      ultimately show ?thesis using mid by (metis diff_le_self order_trans)
    qed
  next
    case False
    then show ?thesis using "1.prems" by (subst (1 2 3) prefix_search.simps) simp
  qed
qed

text \<open>Where fitting is downward closed the search finds the longest prefix that fits.\<close>

lemma prefix_search_longest:
  assumes "\<And>a b. a \<le> b \<Longrightarrow> b \<le> n \<Longrightarrow> fits b \<Longrightarrow> fits a"
  shows "low \<le> high \<Longrightarrow> high \<le> n \<Longrightarrow> fits low \<Longrightarrow> low \<le> k \<Longrightarrow> k \<le> high \<Longrightarrow> fits k \<Longrightarrow>
    k \<le> prefix_search fits low high"
  using assms
proof (induction fits low high rule: prefix_search.induct)
  case (1 fits low high)
  let ?mid = "low + (high - low + 1) div 2"
  show ?case
  proof (cases "low < high")
    case True
    then have mid: "low < ?mid" "?mid \<le> high" by auto
    show ?thesis
    proof (cases "fits ?mid")
      case True': True
      have eq: "prefix_search fits low high = prefix_search fits ?mid high"
        using True True' by (subst prefix_search.simps) (simp add: Let_def)
      show ?thesis
      proof (cases "?mid \<le> k")
        case True'': True
        have "k \<le> prefix_search fits ?mid high"
          by (rule "1.IH"(1) [OF True refl True']) (use "1.prems" True' True'' mid in auto)
        then show ?thesis by (simp add: eq)
      next
        case False
        have "?mid \<le> prefix_search fits ?mid high"
          using prefix_search_fits [of fits ?mid high] True' mid by simp
        then show ?thesis using False by (simp add: eq)
      qed
    next
      case False
      have eq: "prefix_search fits low high = prefix_search fits low (?mid - 1)"
        using True False by (subst prefix_search.simps) (simp add: Let_def)
      have "k < ?mid"
      proof (rule ccontr)
        assume "\<not> k < ?mid"
        then have "fits ?mid"
          using "1.prems" by (meson not_less order_trans)
        with False show False by simp
      qed
      then have "k \<le> prefix_search fits low (?mid - 1)"
        by (intro "1.IH"(2) [OF True refl False]) (use "1.prems" mid in auto)
      then show ?thesis by (simp add: eq)
    qed
  next
    case False
    then show ?thesis using "1.prems" by (subst prefix_search.simps) simp
  qed
qed

lemma candidate_files:
  "f \<in> set (sm_files (candidate_for_prefix alnum m prompt n)) \<longleftrightarrow>
    f \<in> set (sm_files m) \<and> is_forced (sf_path f)
    \<or> f \<in> set (take n (scored_files alnum prompt (sm_files m)))"
proof -
  let ?sc = "scored_files alnum prompt (sm_files m)"
  have "f \<in> set (take n ?sc) \<longleftrightarrow> (\<exists>r < length ?sc. r < n \<and> ?sc ! r = f)"
    unfolding in_set_conv_nth length_take min_less_iff_conj by (metis nth_take)
  also have "\<dots> \<longleftrightarrow> (\<exists>r. (r, f) \<in> set (enumerate 0 ?sc) \<and> r < n)"
    unfolding in_set_enumerate_eq by auto
  finally have "f \<in> set (take n ?sc) \<longleftrightarrow> (\<exists>r. (r, f) \<in> set (enumerate 0 ?sc) \<and> r < n)" .
  then show ?thesis
    by (force simp: candidate_for_prefix_def path_ordered_def image_iff)
qed

lemma scored_subset: "set (scored_files alnum prompt files) = {f \<in> set files. \<not> is_forced (sf_path f)}"
  by (simp add: scored_files_def Let_def)

lemma candidate_sorted: "sorted (map sf_path (sm_files (candidate_for_prefix alnum m prompt n)))"
proof -
  have "sorted (map (\<lambda>c. sf_path (fst c)) (path_ordered alnum prompt (sm_files m)))"
    by (simp add: path_ordered_def)
  then have "sorted (map (\<lambda>c. sf_path (fst c)) (filter Q (path_ordered alnum prompt (sm_files m))))" for Q
    by (rule sorted_filter)
  then show ?thesis by (simp add: candidate_for_prefix_def comp_def)
qed

lemma shrink_is_candidate:
  "\<exists>n. shrink tokens writer alnum m prompt budget = candidate_for_prefix alnum m prompt n
    \<and> (n = 0 \<or> candidate_token_count tokens writer (candidate_for_prefix alnum m prompt n) \<le> budget)"
proof -
  let ?fits = "\<lambda>n. candidate_token_count tokens writer (candidate_for_prefix alnum m prompt n) \<le> budget"
  have "?fits 0 \<Longrightarrow> ?fits (prefix_search ?fits 0 (length (scored_files alnum prompt (sm_files m))))"
    using prefix_search_fits [of ?fits 0] by simp
  then show ?thesis unfolding shrink_def Let_def by auto
qed

text \<open>The shrunken context is a sound selection: it keeps every pinned file, adds only
  files of the input, lists them in path order with the head unchanged, and stays within
  the token budget unless it consists of pinned files alone.\<close>

theorem shrink_selects_within_budget:
  "(let s = shrink tokens writer alnum m prompt budget in
    (\<forall>f \<in> set (sm_files m). is_forced (sf_path f) \<longrightarrow> f \<in> set (sm_files s))
    \<and> set (sm_files s) \<subseteq> set (sm_files m)
    \<and> sorted (map sf_path (sm_files s)) \<and> sm_head_sha s = sm_head_sha m
    \<and> (candidate_token_count tokens writer s \<le> budget \<or>
        (\<forall>f \<in> set (sm_files s). is_forced (sf_path f))))"
proof -
  obtain n where s: "shrink tokens writer alnum m prompt budget = candidate_for_prefix alnum m prompt n"
    and n: "n = 0 \<or> candidate_token_count tokens writer (candidate_for_prefix alnum m prompt n) \<le> budget"
    using shrink_is_candidate by blast
  have "set (sm_files (candidate_for_prefix alnum m prompt n)) \<subseteq> set (sm_files m)"
    using set_take_subset [of n "scored_files alnum prompt (sm_files m)"]
    by (auto simp: candidate_files scored_subset)
  moreover have "sm_head_sha (candidate_for_prefix alnum m prompt n) = sm_head_sha m"
    by (simp add: candidate_for_prefix_def)
  moreover have "\<forall>f \<in> set (sm_files (candidate_for_prefix alnum m prompt 0)). is_forced (sf_path f)"
    by (simp add: candidate_files)
  ultimately show ?thesis
    using n by (auto simp: s Let_def candidate_sorted candidate_files)
qed

theorem shrink_selects_within_budget_witness:
  "(\<lambda>s. sorted (map sf_path (sm_files s)))
    (shrink length (\<lambda>_. []) (\<lambda>_. True) \<lparr>sm_files = [], sm_head_sha = ''h''\<rparr> ''add'' 5)"
  using shrink_selects_within_budget [of length "\<lambda>_. []" "\<lambda>_. True"
      "\<lparr>sm_files = [], sm_head_sha = ''h''\<rparr>" "''add''" 5]
  by (simp only: Let_def)

text \<open>The binary search replaces the greedy scan: when the token count does not decrease
  as ranked files are added and the pinned files fit, the result is the candidate of the
  longest prefix of the ranking that fits the budget.\<close>

theorem shrink_takes_the_longest_prefix:
  assumes "\<And>a b. a \<le> b \<Longrightarrow> b \<le> length (scored_files alnum prompt (sm_files m)) \<Longrightarrow>
      candidate_token_count tokens writer (candidate_for_prefix alnum m prompt a)
      \<le> candidate_token_count tokens writer (candidate_for_prefix alnum m prompt b)"
    and "candidate_token_count tokens writer (candidate_for_prefix alnum m prompt 0) \<le> budget"
  shows "\<exists>k \<le> length (scored_files alnum prompt (sm_files m)).
    shrink tokens writer alnum m prompt budget = candidate_for_prefix alnum m prompt k
    \<and> candidate_token_count tokens writer (candidate_for_prefix alnum m prompt k) \<le> budget
    \<and> (\<forall>j \<le> length (scored_files alnum prompt (sm_files m)).
        candidate_token_count tokens writer (candidate_for_prefix alnum m prompt j) \<le> budget
        \<longrightarrow> j \<le> k)"
proof -
  let ?fits = "\<lambda>n. candidate_token_count tokens writer (candidate_for_prefix alnum m prompt n) \<le> budget"
  let ?n = "length (scored_files alnum prompt (sm_files m))"
  let ?k = "prefix_search ?fits 0 ?n"
  have "shrink tokens writer alnum m prompt budget = candidate_for_prefix alnum m prompt ?k"
    using assms(2) by (simp add: shrink_def Let_def)
  moreover have "?fits ?k \<and> ?k \<le> ?n" using prefix_search_fits [of ?fits 0 ?n] assms(2) by simp
  moreover have "\<forall>j \<le> ?n. ?fits j \<longrightarrow> j \<le> ?k"
  proof (intro allI impI)
    fix j
    assume j: "j \<le> ?n" "?fits j"
    have "a \<le> b \<Longrightarrow> b \<le> ?n \<Longrightarrow> ?fits b \<Longrightarrow> ?fits a" for a b
      using assms(1) [of a b] by simp
    then show "j \<le> ?k"
      by (rule prefix_search_longest) (use j assms(2) in auto)
  qed
  ultimately show ?thesis by blast
qed

theorem shrink_takes_the_longest_prefix_witness:
  "shrink (\<lambda>_. 3) (\<lambda>_. []) (\<lambda>_. True) \<lparr>sm_files = [\<lparr>sf_kind = ''rust'', sf_path = ''a.rs'',
      sf_public_symbols = [], sf_sha256 = []\<rparr>], sm_head_sha = ''h''\<rparr> ''add'' 5 =
    \<lparr>sm_files = [\<lparr>sf_kind = ''rust'', sf_path = ''a.rs'',
      sf_public_symbols = [], sf_sha256 = []\<rparr>], sm_head_sha = ''h''\<rparr>"
proof -
  let ?f = "\<lparr>sf_kind = ''rust'', sf_path = ''a.rs'', sf_public_symbols = [], sf_sha256 = []\<rparr>"
  let ?m = "\<lparr>sm_files = [?f], sm_head_sha = ''h''\<rparr>"
  have forced: "\<not> is_forced ''a.rs''" by code_simp
  have sc: "scored_files (\<lambda>_. True) ''add'' [?f] = [?f]"
    by (simp add: scored_files_def Let_def forced)
  have count: "candidate_token_count (\<lambda>_. 3) (\<lambda>_. []) x = 3" for x
    by (simp add: candidate_token_count_def)
  have "\<exists>k \<le> length (scored_files (\<lambda>_. True) ''add'' (sm_files ?m)).
    shrink (\<lambda>_. 3) (\<lambda>_. []) (\<lambda>_. True) ?m ''add'' 5 = candidate_for_prefix (\<lambda>_. True) ?m ''add'' k
    \<and> candidate_token_count (\<lambda>_. 3) (\<lambda>_. []) (candidate_for_prefix (\<lambda>_. True) ?m ''add'' k) \<le> 5
    \<and> (\<forall>j \<le> length (scored_files (\<lambda>_. True) ''add'' (sm_files ?m)).
        candidate_token_count (\<lambda>_. 3) (\<lambda>_. []) (candidate_for_prefix (\<lambda>_. True) ?m ''add'' j) \<le> 5
        \<longrightarrow> j \<le> k)"
    by (rule shrink_takes_the_longest_prefix) (simp_all add: count)
  then obtain k where k: "k \<le> length (scored_files (\<lambda>_. True) ''add'' (sm_files ?m))"
      "shrink (\<lambda>_. 3) (\<lambda>_. []) (\<lambda>_. True) ?m ''add'' 5 = candidate_for_prefix (\<lambda>_. True) ?m ''add'' k"
      "\<forall>j \<le> length (scored_files (\<lambda>_. True) ''add'' (sm_files ?m)).
        candidate_token_count (\<lambda>_. 3) (\<lambda>_. []) (candidate_for_prefix (\<lambda>_. True) ?m ''add'' j) \<le> 5
        \<longrightarrow> j \<le> k" by blast
  from k(3) [rule_format, of 1] k(1) have "k = 1" by (simp add: sc count)
  with k(2) have "shrink (\<lambda>_. 3) (\<lambda>_. []) (\<lambda>_. True) ?m ''add'' 5 =
      candidate_for_prefix (\<lambda>_. True) ?m ''add'' 1" by simp
  then show ?thesis
    by (simp add: candidate_for_prefix_def path_ordered_def sc forced)
qed

end
