(* ===== verification/Sdd_Orchestrator.thy ===== *)
theory Sdd_Orchestrator
  imports Sdd_Validator
begin

text \<open>
  The planning loop of \<open>crates/sdd-planner/src/orchestrator.rs\<close> with the wire types of
  \<open>provider/mod.rs\<close> and the reply parser of \<open>provider/claude.rs\<close>.  Everything outside the
  crate is a field of \<open>planner_env\<close>: SHA-256, the JSON reader and writer, the provider
  process, the clock, fresh identifiers, git, and the outcome of file operations.  The run
  returns the list of its external actions in order, next to its result.
\<close>

subsection \<open>Wire types\<close>

definition request_schema_version :: string where
  "request_schema_version = ''ao2.sdd-provider-request.v1''"

definition candidate_schema :: string where
  "candidate_schema = ''ao2.sdd-plan-candidate.v1''"

definition max_steps :: nat where
  "max_steps = 25"

record provider_request =
  rq_schema_version :: string
  rq_request_id :: string
  rq_prompt :: string
  rq_surface_map :: surface_map
  rq_prior_errors :: "string list"
  rq_software_source_policy :: string
  rq_expected_schema :: string
  rq_max_steps :: nat

datatype provider_error =
    ExitNonZero string int
  | Signal string
  | NonJson string string
  | ProviderIo string string
  | Serialize string string

record provider_response =
  rp_candidate :: json
  rp_total_cost_usd :: "rat option"

subsection \<open>The claude wrapper\<close>

text \<open>\<open>as_f64\<close> of a number.\<close>

fun as_f64 :: "json \<Rightarrow> rat option" where
  "as_f64 (JNumber (PosInt n)) = Some (of_nat n)"
| "as_f64 (JNumber (NegInt i)) = Some (of_int i)"
| "as_f64 (JNumber (Float r)) = Some r"
| "as_f64 _ = None"

definition parse_claude_stdout ::
    "(string \<Rightarrow> string + json) \<Rightarrow> string \<Rightarrow> string \<Rightarrow> provider_error + (json \<times> rat option)" where
  "parse_claude_stdout from_str stdout cli =
     (case from_str (trim stdout) of
        Inl e \<Rightarrow> Inl (NonJson cli (e @ ''; stdout was: '' @ stdout))
      | Inr parsed \<Rightarrow>
          (case Option.bind (json_get parsed ''result'') as_str of
             Some result_str \<Rightarrow>
               (case from_str result_str of
                  Inl e \<Rightarrow> Inl (NonJson cli
                    (''wrapper '' @ [CHR 0x60] @ ''result'' @ [CHR 0x60] @ '' not JSON: '' @ e
                      @ ''; result was: '' @ result_str))
                | Inr candidate \<Rightarrow>
                    Inr (candidate, Option.bind (json_get parsed ''total_cost_usd'') as_f64))
           | None \<Rightarrow> Inr (parsed, None)))"

subsection \<open>Environment, actions and errors\<close>

datatype orch_action =
    Draft provider_request
  | CreateDirAll string
  | WriteFile string string

record planner_env =
  en_sha256 :: "string \<Rightarrow> string"
  en_from_str :: "string \<Rightarrow> string + sdd_plan"
  en_to_string :: "json \<Rightarrow> string"
  en_map_value :: "surface_map \<Rightarrow> json"
  en_plan_value :: "sdd_plan \<Rightarrow> json"
  en_order :: "string list \<Rightarrow> string list"
  en_debug :: "string \<Rightarrow> string"
  en_provider :: "nat \<Rightarrow> provider_request \<Rightarrow> provider_error + provider_response"
  en_request_id :: "nat \<Rightarrow> string"
  en_now :: "nat \<Rightarrow> string"
  en_head_subject :: "nat \<Rightarrow> string"
  en_source_policy :: string
  en_engine_sha :: string
  en_cli_version :: string
  en_io_error :: "orch_action \<Rightarrow> string option"

datatype orchestrate_error =
    PlanExhausted nat string
  | ProviderFailed provider_error
  | IoFailed string

record plan_outcome =
  po_plan :: sdd_plan
  po_plan_id :: string
  po_canonical_json :: string
  po_build_log_dir :: string
  po_attempts_used :: nat

subsection \<open>Promotion\<close>

text \<open>\<open>get_mut(k).and_then(as_object_mut)\<close>: the field is changed only if it is an object.\<close>

definition with_object_field ::
    "string \<Rightarrow> ((string \<times> json) list \<Rightarrow> (string \<times> json) list) \<Rightarrow> (string \<times> json) list \<Rightarrow>
     (string \<times> json) list" where
  "with_object_field k f fs =
     (case Option.bind (map_of fs k) as_object of
        None \<Rightarrow> fs | Some inner \<Rightarrow> bt_insert k (JObject (f inner)) fs)"

definition prompt_sha :: "(string \<Rightarrow> string) \<Rightarrow> json \<Rightarrow> string" where
  "prompt_sha sha v =
     (case Option.bind (Option.bind (json_get v ''prompt'') (\<lambda>p. json_get p ''text'')) as_str of
        None \<Rightarrow> sha [] | Some t \<Rightarrow> sha t)"

definition promote_candidate_to_plan ::
    "planner_env \<Rightarrow> nat \<Rightarrow> string \<Rightarrow> string \<Rightarrow> string \<Rightarrow> json \<Rightarrow> json" where
  "promote_candidate_to_plan env attempt repo_path surface_map_sha256 provider_name v =
     (case as_object v of
        None \<Rightarrow> v
      | Some obj \<Rightarrow>
          JObject
            (with_object_field ''provenance''
               (\<lambda>prov. bt_insert ''provider'' (JString provider_name)
                 (bt_insert ''cli_version'' (JString (en_cli_version env))
                 (bt_insert ''engine_sha'' (JString (en_engine_sha env))
                 (bt_insert ''attempts'' (JNumber (PosInt attempt)) prov))))
            (with_object_field ''target''
               (\<lambda>target. bt_insert ''surface_map_sha256'' (JString surface_map_sha256)
                 (bt_insert ''head_subject'' (JString (en_head_subject env attempt))
                 (bt_insert ''repo_path'' (JString repo_path) target)))
            (with_object_field ''prompt''
               (bt_insert ''sha256'' (JString (prompt_sha (en_sha256 env) v)))
            (bt_insert ''generated_at_utc'' (JString (en_now env attempt))
            (bt_insert ''schema_version'' (JString sdd_schema_version) obj))))))"

subsection \<open>The loop\<close>

definition attempt_budget :: nat where
  "attempt_budget = 3"

record loop_state =
  lo_prior_errors :: "string list"
  lo_dir :: "string option"
  lo_last :: "(string \<times> validation_report) option"
  lo_actions :: "orch_action list"

text \<open>A file operation is attempted, recorded, and fails where the environment says so.\<close>

definition perform ::
    "planner_env \<Rightarrow> orch_action \<Rightarrow> orch_action list \<Rightarrow> orch_action list \<times> (orchestrate_error + unit)" where
  "perform env act done =
     (done @ [act], case en_io_error env act of None \<Rightarrow> Inr () | Some e \<Rightarrow> Inl (IoFailed e))"

definition new_request ::
    "planner_env \<Rightarrow> nat \<Rightarrow> string \<Rightarrow> surface_map \<Rightarrow> string list \<Rightarrow> provider_request" where
  "new_request env attempt prompt sm prior_errors =
     \<lparr>rq_schema_version = request_schema_version, rq_request_id = en_request_id env attempt,
      rq_prompt = prompt, rq_surface_map = sm, rq_prior_errors = prior_errors,
      rq_software_source_policy = en_source_policy env,
      rq_expected_schema = candidate_schema, rq_max_steps = max_steps\<rparr>"

text \<open>The attempt log: the candidate with the cost as a sibling field.\<close>

definition attempt_log_value :: "provider_response \<Rightarrow> json" where
  "attempt_log_value response =
     (case (rp_total_cost_usd response, rp_candidate response) of
        (Some cost, JObject obj) \<Rightarrow> JObject (bt_insert ''total_cost_usd'' (JNumber (Float cost)) obj)
      | (_, v) \<Rightarrow> v)"

definition attempt_log :: "planner_env \<Rightarrow> nat \<Rightarrow> string \<Rightarrow> provider_response \<Rightarrow> orch_action" where
  "attempt_log env attempt dir response =
     WriteFile (path_join dir (''attempt-'' @ show_nat attempt @ ''.json''))
       (canonical_json (en_to_string env) (attempt_log_value response))"

datatype attempt_result =
    Stop "orchestrate_error + plan_outcome"
  | Retry loop_state

text \<open>The log directory is resolved off the first attempt.\<close>

definition resolve_dir ::
    "planner_env \<Rightarrow> string \<Rightarrow> provider_request \<Rightarrow> json \<Rightarrow> loop_state \<Rightarrow>
     orch_action list \<times> (orchestrate_error + string)" where
  "resolve_dir env build_log_root request candidate st =
     (case lo_dir st of
        Some dir \<Rightarrow> (lo_actions st, Inr dir)
      | None \<Rightarrow>
          (let plan_id = (case Option.bind (json_get candidate ''plan_id'') as_str of
                            Some i \<Rightarrow> i | None \<Rightarrow> rq_request_id request);
               dir = path_join build_log_root plan_id
           in case perform env (CreateDirAll dir) (lo_actions st) of
                (acts, Inl e) \<Rightarrow> (acts, Inl e)
              | (acts, Inr u) \<Rightarrow> (acts, Inr dir)))"

definition attempt_once ::
    "planner_env \<Rightarrow> string \<Rightarrow> surface_map \<Rightarrow> string \<Rightarrow> string \<Rightarrow> string \<Rightarrow> string \<Rightarrow> nat \<Rightarrow>
     loop_state \<Rightarrow> orch_action list \<times> attempt_result" where
  "attempt_once env prompt sm sm_sha build_log_root repo_path provider_name attempt st =
     (let request = new_request env attempt prompt sm (lo_prior_errors st);
          st = st\<lparr>lo_actions := lo_actions st @ [Draft request]\<rparr>
      in case en_provider env attempt request of
        Inl e \<Rightarrow> (lo_actions st, Stop (Inl (ProviderFailed e)))
      | Inr response \<Rightarrow>
          (case resolve_dir env build_log_root request (rp_candidate response) st of
             (acts, Inl e) \<Rightarrow> (acts, Stop (Inl e))
           | (acts, Inr dir) \<Rightarrow>
               (case perform env (attempt_log env attempt dir response) acts of
                  (acts, Inl e) \<Rightarrow> (acts, Stop (Inl e))
                | (acts, Inr u) \<Rightarrow>
                    (let promoted = promote_candidate_to_plan env attempt repo_path sm_sha
                           provider_name (rp_candidate response);
                         report = validate (en_from_str env) (en_order env)
                           (canonical_json (en_to_string env) promoted) (Some sm)
                     in case (report_ok report, vr_plan report) of
                          (True, Some plan) \<Rightarrow>
                            (acts, Stop (Inr
                              \<lparr>po_plan = plan, po_plan_id = pl_plan_id plan,
                               po_canonical_json =
                                 canonical_json (en_to_string env) (en_plan_value env plan),
                               po_build_log_dir = dir, po_attempts_used = attempt\<rparr>))
                        | _ \<Rightarrow>
                            (acts, Retry
                              \<lparr>lo_prior_errors = errors_for_provider_feedback (en_debug env) report,
                               lo_dir = Some dir,
                               lo_last = Some (canonical_json (en_to_string env)
                                 (rp_candidate response), report),
                               lo_actions = acts\<rparr>)))))"

text \<open>After the budget the diagnostics are written and the run fails closed.\<close>

definition exhausted ::
    "planner_env \<Rightarrow> loop_state \<Rightarrow> orch_action list \<times> (orchestrate_error + plan_outcome)" where
  "exhausted env st =
     (let dir = the (lo_dir st) in
      case lo_last st of
        None \<Rightarrow> (lo_actions st, Inl (PlanExhausted attempt_budget dir))
      | Some (text, report) \<Rightarrow>
          (case perform env (WriteFile (path_join dir ''candidate.fail.json'') text) (lo_actions st) of
             (acts, Inl e) \<Rightarrow> (acts, Inl e)
           | (acts, Inr u) \<Rightarrow>
               (case perform env (WriteFile (path_join dir ''validation-errors.txt'')
                    (render_report (en_debug env) report)) acts of
                  (acts, Inl e) \<Rightarrow> (acts, Inl e)
                | (acts, Inr u) \<Rightarrow> (acts, Inl (PlanExhausted attempt_budget dir)))))"

fun attempts ::
    "planner_env \<Rightarrow> string \<Rightarrow> surface_map \<Rightarrow> string \<Rightarrow> string \<Rightarrow> string \<Rightarrow> string \<Rightarrow> nat list \<Rightarrow>
     loop_state \<Rightarrow> orch_action list \<times> (orchestrate_error + plan_outcome)" where
  "attempts env prompt sm sm_sha build_log_root repo_path provider_name [] st = exhausted env st"
| "attempts env prompt sm sm_sha build_log_root repo_path provider_name (a # as) st =
     (case attempt_once env prompt sm sm_sha build_log_root repo_path provider_name a st of
        (acts, Stop r) \<Rightarrow> (acts, r)
      | (acts, Retry st') \<Rightarrow>
          attempts env prompt sm sm_sha build_log_root repo_path provider_name as st')"

definition orchestrate ::
    "planner_env \<Rightarrow> string \<Rightarrow> surface_map \<Rightarrow> string \<Rightarrow> string \<Rightarrow> string \<Rightarrow>
     orch_action list \<times> (orchestrate_error + plan_outcome)" where
  "orchestrate env prompt sm build_log_root repo_path provider_name =
     (let sm_sha = en_sha256 env (canonical_json (en_to_string env) (en_map_value env sm)) in
      attempts env prompt sm sm_sha build_log_root repo_path provider_name
        [1..<attempt_budget + 1]
        \<lparr>lo_prior_errors = [], lo_dir = None, lo_last = None, lo_actions = []\<rparr>)"

subsection \<open>One attempt\<close>

fun drafts :: "orch_action list \<Rightarrow> provider_request list" where
  "drafts [] = []"
| "drafts (Draft q # acts) = q # drafts acts"
| "drafts (_ # acts) = drafts acts"

lemma drafts_append [simp]: "drafts (xs @ ys) = drafts xs @ drafts ys"
  by (induction xs rule: drafts.induct) auto

lemma perform_drafts:
  "perform env act done = (acts, r) \<Longrightarrow> act \<noteq> Draft q \<Longrightarrow> drafts acts = drafts done @ drafts [act]"
  by (auto simp: perform_def)

lemma perform_errors: "perform env act done = (acts, Inl e) \<Longrightarrow> \<exists>m. e = IoFailed m"
  by (auto simp: perform_def split: option.splits)

text \<open>The report on the candidate of an attempt, as the loop computes it.\<close>

definition attempt_report ::
    "planner_env \<Rightarrow> surface_map \<Rightarrow> string \<Rightarrow> string \<Rightarrow> string \<Rightarrow> nat \<Rightarrow> json \<Rightarrow> validation_report" where
  "attempt_report env sm sm_sha repo_path provider_name attempt candidate =
     validate (en_from_str env) (en_order env)
       (canonical_json (en_to_string env)
         (promote_candidate_to_plan env attempt repo_path sm_sha provider_name candidate)) (Some sm)"

lemma report_ok_plan: "report_ok (validate from_str order text sm) \<Longrightarrow>
    \<exists>plan. vr_plan (validate from_str order text sm) = Some plan \<and> from_str text = Inr plan"
  by (auto simp: report_ok_def validate_def split: sum.splits)

lemma resolve_dir_cases:
  assumes "resolve_dir env log_root rq cand st = (acts, r)"
  shows "drafts acts = drafts (lo_actions st) \<and> (\<forall>e. r = Inl e \<longrightarrow> (\<exists>m. e = IoFailed m))"
  using assms
  by (auto simp: resolve_dir_def Let_def perform_def split: option.splits prod.splits sum.splits)

text \<open>What one attempt does: one more draft, and then a file error, a validated plan, or the
  feedback of a failed validation for the next attempt.\<close>

definition attempt_spec ::
    "planner_env \<Rightarrow> string \<Rightarrow> surface_map \<Rightarrow> string \<Rightarrow> string \<Rightarrow> string \<Rightarrow> nat \<Rightarrow> loop_state \<Rightarrow>
     orch_action list \<Rightarrow> attempt_result \<Rightarrow> bool" where
  "attempt_spec env prompt sm sha repo name a st acts res \<longleftrightarrow>
     (let request = new_request env a prompt sm (lo_prior_errors st);
          report = (\<lambda>response. attempt_report env sm sha repo name a (rp_candidate response))
      in drafts acts = drafts (lo_actions st) @ [request]
       \<and> (case res of
            Stop (Inl e) \<Rightarrow> (\<forall>b d. e \<noteq> PlanExhausted b d)
          | Stop (Inr out) \<Rightarrow>
              (\<exists>response. en_provider env a request = Inr response
                 \<and> report_ok (report response) \<and> vr_plan (report response) = Some (po_plan out)
                 \<and> po_attempts_used out = a
                 \<and> po_canonical_json out =
                     canonical_json (en_to_string env) (en_plan_value env (po_plan out)))
          | Retry st' \<Rightarrow>
              lo_actions st' = acts
              \<and> (\<exists>response. en_provider env a request = Inr response
                 \<and> \<not> report_ok (report response)
                 \<and> lo_prior_errors st' =
                     errors_for_provider_feedback (en_debug env) (report response)
                 \<and> lo_last st' = Some (canonical_json (en_to_string env) (rp_candidate response),
                     report response))))"

lemma attempt_once_spec:
  assumes "attempt_once env prompt sm sha log_root repo name a st = (acts, res)"
  shows "attempt_spec env prompt sm sha repo name a st acts res"
proof -
  let ?rq = "new_request env a prompt sm (lo_prior_errors st)"
  let ?st = "st\<lparr>lo_actions := lo_actions st @ [Draft ?rq]\<rparr>"
  show ?thesis
  proof (cases "en_provider env a ?rq")
    case (Inl e)
    then show ?thesis using assms by (auto simp: attempt_once_def attempt_spec_def Let_def)
  next
    case provider: (Inr response)
    obtain acts1 r1 where dir: "resolve_dir env log_root ?rq (rp_candidate response) ?st = (acts1, r1)"
      by (cases "resolve_dir env log_root ?rq (rp_candidate response) ?st")
    note d1 = resolve_dir_cases [OF dir]
    show ?thesis
    proof (cases r1)
      case (Inl e)
      then show ?thesis
        using assms d1 by (auto simp: attempt_once_def attempt_spec_def Let_def provider dir)
    next
      case r1: (Inr d)
      let ?act = "attempt_log env a d response"
      obtain acts2 r2 where w: "perform env ?act acts1 = (acts2, r2)" by (cases "perform env ?act acts1")
      have d2: "drafts acts2 = drafts acts1" using w by (auto simp: perform_def attempt_log_def)
      show ?thesis
      proof (cases r2)
        case (Inl e)
        then have "\<exists>m. e = IoFailed m" using w perform_errors by blast
        with Inl show ?thesis
          using assms d1 d2 by (auto simp: attempt_once_def attempt_spec_def Let_def provider dir r1 w)
      next
        case r2: (Inr u)
        let ?report = "attempt_report env sm sha repo name a (rp_candidate response)"
        have once: "attempt_once env prompt sm sha log_root repo name a st =
          (case (report_ok ?report, vr_plan ?report) of
             (True, Some plan) \<Rightarrow>
               (acts2, Stop (Inr \<lparr>po_plan = plan, po_plan_id = pl_plan_id plan,
                  po_canonical_json = canonical_json (en_to_string env) (en_plan_value env plan),
                  po_build_log_dir = d, po_attempts_used = a\<rparr>))
           | _ \<Rightarrow> (acts2, Retry
               \<lparr>lo_prior_errors = errors_for_provider_feedback (en_debug env) ?report,
                lo_dir = Some d,
                lo_last = Some (canonical_json (en_to_string env) (rp_candidate response), ?report),
                lo_actions = acts2\<rparr>))"
          by (simp add: attempt_once_def Let_def provider dir r1 w r2 attempt_report_def
              split: bool.split option.split)
        show ?thesis
        proof (cases "report_ok ?report")
          case True
          then obtain plan where "vr_plan ?report = Some plan"
            unfolding attempt_report_def using report_ok_plan by blast
          then show ?thesis
            using assms once True d1 d2 provider by (auto simp: attempt_spec_def Let_def)
        next
          case False
          then show ?thesis
            using assms once d1 d2 provider by (auto simp: attempt_spec_def Let_def)
        qed
      qed
    qed
  qed
qed

subsection \<open>The whole run\<close>

lemma exhausted_drafts:
  "exhausted env st = (acts, r) \<Longrightarrow> drafts acts = drafts (lo_actions st)
    \<and> (\<exists>e. r = Inl e)"
  by (auto simp: exhausted_def perform_def Let_def split: option.splits prod.splits sum.splits)

text \<open>The requests that were sent form a chain: each carries the feedback on the candidate
  that answered the one before.\<close>

fun feedback_chain ::
    "planner_env \<Rightarrow> string \<Rightarrow> surface_map \<Rightarrow> string \<Rightarrow> string \<Rightarrow> string \<Rightarrow> nat \<Rightarrow> string list \<Rightarrow>
     provider_request list \<Rightarrow> bool" where
  "feedback_chain env prompt sm sha repo name a prior [] \<longleftrightarrow> True"
| "feedback_chain env prompt sm sha repo name a prior (q # qs) \<longleftrightarrow>
     q = new_request env a prompt sm prior
     \<and> (qs = [] \<or> (\<exists>response. en_provider env a q = Inr response
          \<and> \<not> report_ok (attempt_report env sm sha repo name a (rp_candidate response))
          \<and> feedback_chain env prompt sm sha repo name (Suc a)
              (errors_for_provider_feedback (en_debug env)
                (attempt_report env sm sha repo name a (rp_candidate response))) qs))"

definition run_spec_holds ::
    "planner_env \<Rightarrow> string \<Rightarrow> surface_map \<Rightarrow> string \<Rightarrow> string \<Rightarrow> string \<Rightarrow> nat \<Rightarrow> nat \<Rightarrow>
     provider_request list \<Rightarrow> orchestrate_error + plan_outcome \<Rightarrow> bool" where
  "run_spec_holds env prompt sm sha repo name a n qs r \<longleftrightarrow>
     length qs \<le> n
     \<and> (\<forall>out. r = Inr out \<longrightarrow> 0 < length qs \<and> po_attempts_used out = a + length qs - 1
          \<and> (\<exists>response. en_provider env (po_attempts_used out) (last qs) = Inr response
              \<and> report_ok (attempt_report env sm sha repo name (po_attempts_used out)
                  (rp_candidate response))
              \<and> vr_plan (attempt_report env sm sha repo name (po_attempts_used out)
                  (rp_candidate response)) = Some (po_plan out)))
     \<and> (\<forall>b d. r = Inl (PlanExhausted b d) \<longrightarrow> length qs = n)"

lemma attempts_spec:
  assumes "attempts env prompt sm sha log_root repo name [a..<a + n] st = (acts, r)"
  shows "\<exists>qs. drafts acts = drafts (lo_actions st) @ qs
    \<and> feedback_chain env prompt sm sha repo name a (lo_prior_errors st) qs
    \<and> run_spec_holds env prompt sm sha repo name a n qs r"
  using assms
proof (induction n arbitrary: a st)
  case 0
  then have "exhausted env st = (acts, r)" by simp
  from exhausted_drafts [OF this] show ?case by (auto simp: run_spec_holds_def)
next
  case (Suc n)
  have upt: "[a..<a + Suc n] = a # [Suc a..<Suc a + n]" by (simp add: upt_rec)
  let ?rq = "new_request env a prompt sm (lo_prior_errors st)"
  obtain acts1 res where once: "attempt_once env prompt sm sha log_root repo name a st = (acts1, res)"
    by (cases "attempt_once env prompt sm sha log_root repo name a st")
  note spec = attempt_once_spec [OF once]
  from Suc.prems have run: "attempts env prompt sm sha log_root repo name (a # [Suc a..<Suc a + n]) st
      = (acts, r)" unfolding upt .
  show ?case
  proof (cases res)
    case (Stop r')
    then have "acts = acts1" "r = r'" using run by (simp_all add: once)
    with spec Stop show ?thesis
      by (intro exI [of _ "[?rq]"])
        (auto simp: attempt_spec_def run_spec_holds_def Let_def split: sum.splits)
  next
    case (Retry st')
    then have "attempts env prompt sm sha log_root repo name [Suc a..<Suc a + n] st' = (acts, r)"
      using run by (simp add: once)
    from Suc.IH [OF this] obtain qs where qs: "drafts acts = drafts (lo_actions st') @ qs"
      "feedback_chain env prompt sm sha repo name (Suc a) (lo_prior_errors st') qs"
      "run_spec_holds env prompt sm sha repo name (Suc a) n qs r" by blast
    from spec Retry obtain response where resp: "en_provider env a ?rq = Inr response"
      "\<not> report_ok (attempt_report env sm sha repo name a (rp_candidate response))"
      "lo_prior_errors st' = errors_for_provider_feedback (en_debug env)
        (attempt_report env sm sha repo name a (rp_candidate response))"
      "drafts (lo_actions st') = drafts (lo_actions st) @ [?rq]"
      by (auto simp: attempt_spec_def Let_def)
    have "run_spec_holds env prompt sm sha repo name a (Suc n) (?rq # qs) r"
      using qs(3) by (auto simp: run_spec_holds_def)
    with qs resp show ?thesis by (intro exI [of _ "?rq # qs"]) auto
  qed
qed

subsection \<open>Promotion is authoritative\<close>

lemma with_object_field_lookup:
  "map_of (with_object_field k f fs) j =
    (if j = k then (case map_of fs k of Some (JObject o') \<Rightarrow> Some (JObject (f o')) | v \<Rightarrow> v)
     else map_of fs j)"
  by (auto simp: with_object_field_def bt_lookup_insert split: option.splits json.splits
      elim!: as_object.elims)

text \<open>A path of object fields.\<close>

definition json_path :: "json \<Rightarrow> string list \<Rightarrow> json option" where
  "json_path v ks = fold (\<lambda>k r. Option.bind r (\<lambda>x. json_get x k)) ks (Some v)"

lemma json_path_simps [simp]:
  "json_path v [] = Some v"
  "json_path v [k] = json_get v k"
  "json_path v [k, j] = Option.bind (json_get v k) (\<lambda>x. json_get x j)"
  by (simp_all add: json_path_def)

lemma promote_lookup:
  "map_of obj ''prompt'' = p \<Longrightarrow>
   json_get (promote_candidate_to_plan env a repo sha name (JObject obj)) k =
    (if k = ''provenance'' then
       (case map_of obj k of
          Some (JObject o') \<Rightarrow> Some (JObject (bt_insert ''provider'' (JString name)
            (bt_insert ''cli_version'' (JString (en_cli_version env))
            (bt_insert ''engine_sha'' (JString (en_engine_sha env))
            (bt_insert ''attempts'' (JNumber (PosInt a)) o')))))
        | v \<Rightarrow> v)
     else if k = ''target'' then
       (case map_of obj k of
          Some (JObject o') \<Rightarrow> Some (JObject (bt_insert ''surface_map_sha256'' (JString sha)
            (bt_insert ''head_subject'' (JString (en_head_subject env a))
            (bt_insert ''repo_path'' (JString repo) o'))))
        | v \<Rightarrow> v)
     else if k = ''prompt'' then
       (case p of
          Some (JObject o') \<Rightarrow> Some (JObject
            (bt_insert ''sha256'' (JString (prompt_sha (en_sha256 env) (JObject obj))) o'))
        | v \<Rightarrow> v)
     else if k = ''generated_at_utc'' then Some (JString (en_now env a))
     else if k = ''schema_version'' then Some (JString sdd_schema_version)
     else map_of obj k)"
  by (simp add: promote_candidate_to_plan_def with_object_field_lookup bt_lookup_insert)

definition example_env :: planner_env where
  "example_env =
     \<lparr>en_sha256 = id, en_from_str = (\<lambda>_. Inr (example_plan [example_step ''step_a'' []])),
      en_to_string = (\<lambda>_. []), en_map_value = (\<lambda>_. JNull), en_plan_value = (\<lambda>_. JNull),
      en_order = id, en_debug = id,
      en_provider = (\<lambda>_ _. Inr \<lparr>rp_candidate = JObject [], rp_total_cost_usd = None\<rparr>),
      en_request_id = (\<lambda>_. ''id''), en_now = (\<lambda>_. ''now''), en_head_subject = (\<lambda>_. ''subject''),
      en_source_policy = [], en_engine_sha = ''e'', en_cli_version = ''1'',
      en_io_error = (\<lambda>_. None)\<rparr>"

definition example_map :: surface_map where
  "example_map = \<lparr>sm_files = [], sm_head_sha = ''h''\<rparr>"

subsection \<open>Properties\<close>

text \<open>Promotion is authoritative: whatever a provider writes, after promotion of a
  candidate the engine-owned fields hold the engine's values, and every other field of the
  candidate and of its sections is unchanged.\<close>

theorem promotion_overrides_the_provider:
  assumes "map_of obj ''provenance'' = Some (JObject prov)"
    and "map_of obj ''target'' = Some (JObject target)"
    and "map_of obj ''prompt'' = Some (JObject pr)" and "map_of pr ''text'' = Some (JString t)"
    and "v = promote_candidate_to_plan env a repo sha name (JObject obj)"
  shows "json_get v ''schema_version'' = Some (JString sdd_schema_version)
    \<and> json_get v ''generated_at_utc'' = Some (JString (en_now env a))
    \<and> (\<lambda>k. json_path v [''provenance'', k]) = (map_of prov)
        (''attempts'' \<mapsto> JNumber (PosInt a), ''engine_sha'' \<mapsto> JString (en_engine_sha env),
         ''cli_version'' \<mapsto> JString (en_cli_version env), ''provider'' \<mapsto> JString name)
    \<and> (\<lambda>k. json_path v [''target'', k]) = (map_of target)
        (''repo_path'' \<mapsto> JString repo, ''head_subject'' \<mapsto> JString (en_head_subject env a),
         ''surface_map_sha256'' \<mapsto> JString sha)
    \<and> (\<lambda>k. json_path v [''prompt'', k]) = (map_of pr)(''sha256'' \<mapsto> JString (en_sha256 env t))
    \<and> (\<forall>k. k \<in> {''schema_version'', ''generated_at_utc'', ''provenance'', ''target'', ''prompt''}
          \<or> json_get v k = map_of obj k)"
proof -
  have "prompt_sha (en_sha256 env) (JObject obj) = en_sha256 env t"
    using assms(3,4) by (simp add: prompt_sha_def)
  then show ?thesis
    unfolding assms(5) json_path_simps promote_lookup [OF assms(3)]
    by (simp add: assms(1-3) bt_lookup_insert fun_eq_iff)
qed

theorem promotion_overrides_the_provider_witness:
  "json_path (promote_candidate_to_plan example_env 2 ''repo'' ''s'' ''codex''
      (JObject [(''prompt'', JObject [(''text'', JString ''t'')]),
        (''provenance'', JObject [(''provider'', JString ''fake'')]), (''target'', JObject [])]))
    [''provenance'', ''provider''] = Some (JString ''codex'')"
proof -
  let ?obj = "[(''prompt'', JObject [(''text'', JString ''t'')]),
    (''provenance'', JObject [(''provider'', JString ''fake'')]), (''target'', JObject [])]"
  let ?v = "promote_candidate_to_plan example_env 2 ''repo'' ''s'' ''codex'' (JObject ?obj)"
  have "map_of ?obj ''provenance'' = Some (JObject [(''provider'', JString ''fake'')])"
    and "map_of ?obj ''target'' = Some (JObject [])"
    and "map_of ?obj ''prompt'' = Some (JObject [(''text'', JString ''t'')])"
    and "map_of [(''text'', JString ''t'')] ''text'' = Some (JString ''t'')"
    by simp_all
  from promotion_overrides_the_provider [OF this, where a = 2 and env = example_env and repo = "''repo''"
      and sha = "''s''" and name = "''codex''"]
  have "(\<lambda>k. json_path ?v [''provenance'', k]) = (map_of [(''provider'', JString ''fake'')])
        (''attempts'' \<mapsto> JNumber (PosInt 2), ''engine_sha'' \<mapsto> JString (en_engine_sha example_env),
         ''cli_version'' \<mapsto> JString (en_cli_version example_env), ''provider'' \<mapsto> JString ''codex'')"
    by blast
  then show ?thesis by (auto dest: fun_cong [of _ _ "''provider''"])
qed



end
