(* ===== verification/Publication_Syntax.thy ===== *)
theory Publication_Syntax
  imports Policy_Gate
begin

text \<open>
  The vocabulary of the governed issue publication,
  \<open>crates/ao2-runtime/src/github_issue_publication.rs\<close>: bounded names, references and
  digests, accessors of authority documents, protected path patterns, percent encoding and
  the GitHub action with its validation.  A \<open>BTreeSet\<close> of strings is its sorted list.
  SHA-256, the JSON writer and the RFC 3339 reader are the fields of \<open>pub_base\<close>.
\<close>

record pub_base =
  pe_sha256 :: "string \<Rightarrow> string"
  pe_to_vec :: "json \<Rightarrow> string"
  pe_rfc3339 :: "string \<Rightarrow> timestamp option"

subsection \<open>Names and digests\<close>

definition max_title_bytes :: nat where
  "max_title_bytes = 256"

definition max_body_bytes :: nat where
  "max_body_bytes = 8192"

definition architecture_contract_commit :: string where
  "architecture_contract_commit = ''8e6f247b800b60c520b4e967f7553974a20ec2f8''"

definition action_schema :: string where
  "action_schema = ''ao.architecture.autonomous-issue-repair.github-action-digest.v1''"

definition is_lower_hex :: "char \<Rightarrow> bool" where
  "is_lower_hex b \<longleftrightarrow> is_ascii_digit b \<or> (97 \<le> byte b \<and> byte b \<le> 102)"

lemma is_lower_hex_code [code]: "is_lower_hex (Char b0 b1 b2 b3 b4 b5 b6 b7) \<longleftrightarrow>
    is_ascii_digit (Char b0 b1 b2 b3 b4 b5 b6 b7)
    \<or> \<not> b7 \<and> b6 \<and> b5 \<and> \<not> b4 \<and> \<not> b3 \<and> (b0 \<or> b1 \<or> b2) \<and> \<not> (b0 \<and> b1 \<and> b2)"
  by (cases b0; cases b1; cases b2; cases b3; cases b4; cases b5; cases b6; cases b7)
    (simp_all add: is_lower_hex_def is_ascii_digit_def byte_Char)

definition is_commit :: "string \<Rightarrow> bool" where
  "is_commit v \<longleftrightarrow> length v = 40 \<and> list_all is_lower_hex v"

definition is_sha256 :: "string \<Rightarrow> bool" where
  "is_sha256 v \<longleftrightarrow> length v = 64 \<and> list_all is_lower_hex v"

definition valid_slug :: "string \<Rightarrow> bool" where
  "valid_slug v \<longleftrightarrow>
     v \<noteq> [] \<and> length v \<le> 100
     \<and> list_all (\<lambda>b. is_ascii_alphanumeric b \<or> b \<in> {CHR ''-'', CHR ''_'', CHR ''.''}) v
     \<and> v \<noteq> ''.'' \<and> v \<noteq> ''..''"

definition split_repository :: "string \<Rightarrow> (string \<times> string) rresult" where
  "split_repository v =
     (case split_byte CHR ''/'' v of
        [owner, repo] \<Rightarrow>
          if valid_slug owner \<and> valid_slug repo then Inr (owner, repo)
          else Inl ''repository identity must be owner/repo using bounded GitHub slug characters''
      | _ \<Rightarrow> Inl ''repository identity must be owner/repo using bounded GitHub slug characters'')"

definition validate_ref :: "string \<Rightarrow> unit rresult" where
  "validate_ref v =
     bail_if (v = [] \<or> length v > 255 \<or> prefix ''/'' v \<or> suffix ''/'' v \<or> contains v ''..''
         \<or> contains v [CHR ''@'', CHR ''{''] \<or> suffix ''.lock'' v
         \<or> list_ex (\<lambda>b. is_ascii_control b
              \<or> b \<in> {CHR '' '', CHR ''~'', CHR ''^'', CHR '':'', CHR ''?'', CHR ''*'', CHR ''['', CHR 0x5C}) v)
       ''repair branch is not a bounded Git reference''"

definition validate_schema_branch :: "string \<Rightarrow> unit rresult" where
  "validate_schema_branch v =
     bail_if (v = [] \<or> length v > 255
         \<or> \<not> list_all (\<lambda>b. is_ascii_alphanumeric b
              \<or> b \<in> {CHR ''.'', CHR ''_'', CHR ''/'', CHR ''-''}) v)
       ''branch does not match the pinned Architecture pattern''"

definition validate_identifier :: "string \<Rightarrow> string \<Rightarrow> unit rresult" where
  "validate_identifier name v =
     bail_if (v = [] \<or> length v > 128
         \<or> \<not> list_all (\<lambda>b. is_ascii_alphanumeric b
              \<or> b \<in> {CHR ''-'', CHR ''_'', CHR ''.'', CHR '':''}) v)
       (name @ '' must be a bounded identifier'')"

definition validate_text :: "string \<Rightarrow> string \<Rightarrow> nat \<Rightarrow> unit rresult" where
  "validate_text name v limit =
     bail_if (trim v = [] \<or> length v > limit \<or> list_ex (\<lambda>b. byte b = 0 \<or> byte b = 127) v)
       (name @ '' must be nonempty and at most '' @ show_nat limit
          @ '' bytes without control delimiters'')"

lemma delimiter_code [code_unfold]:
  "(byte b = 0 \<or> byte b = 127) \<longleftrightarrow> b = CHR 0x00 \<or> b = CHR 0x7F"
  by (cases b) (auto simp: byte_Char split: if_splits)

definition validate_one_of :: "string \<Rightarrow> string \<Rightarrow> string list \<Rightarrow> unit rresult" where
  "validate_one_of name v allowed =
     bail_if (v \<notin> set allowed) (name @ '' is outside the pinned Architecture enum'')"

definition validate_run_id :: "string \<Rightarrow> string \<Rightarrow> unit rresult" where
  "validate_run_id name v =
     bail_if (\<not> (8 \<le> length v \<and> length v \<le> 128)
         \<or> \<not> (case v of [] \<Rightarrow> False | b # _ \<Rightarrow> is_ascii_lowercase b \<or> is_ascii_digit b)
         \<or> \<not> list_all (\<lambda>b. is_ascii_lowercase b \<or> is_ascii_digit b \<or> b = CHR ''-'') (tl v))
       (name @ '' does not match the pinned Architecture identifier pattern'')"

fun string_array_loop ::
    "string \<Rightarrow> nat \<Rightarrow> string list \<Rightarrow> string set \<Rightarrow> string list \<Rightarrow> unit rresult" where
  "string_array_loop name max_length allowed seen [] = Inr ()"
| "string_array_loop name max_length allowed seen (v # vs) =
     rbind (validate_text name v max_length) (\<lambda>_.
       if v \<in> seen \<or> (allowed \<noteq> [] \<and> v \<notin> set allowed)
       then Inl (name @ '' contains a duplicate or unsupported entry'')
       else string_array_loop name max_length allowed (insert v seen) vs)"

definition validate_string_array ::
    "string \<Rightarrow> string list \<Rightarrow> nat \<Rightarrow> nat \<Rightarrow> string list \<Rightarrow> unit rresult" where
  "validate_string_array name values min_items max_length allowed =
     (if length values < min_items then Inl (name @ '' has too few entries'')
      else string_array_loop name max_length allowed {} values)"

definition parse_time :: "pub_base \<Rightarrow> string \<Rightarrow> string \<Rightarrow> timestamp rresult" where
  "parse_time env name v = with_context (name @ '' is not RFC3339'') (pe_rfc3339 env v)"

subsection \<open>Fields of authority documents\<close>

fun json_at :: "json \<Rightarrow> string list \<Rightarrow> json rresult" where
  "json_at v [] = Inr v"
| "json_at v (k # ks) =
     (case json_get v k of None \<Rightarrow> Inl ''authority document field is missing''
      | Some w \<Rightarrow> json_at w ks)"

definition json_string :: "json \<Rightarrow> string list \<Rightarrow> string rresult" where
  "json_string v path =
     rbind (json_at v path) (\<lambda>x. with_context ''authority document field must be a string'' (as_str x))"

definition json_bool :: "json \<Rightarrow> string list \<Rightarrow> bool rresult" where
  "json_bool v path =
     rbind (json_at v path) (\<lambda>x. with_context ''authority document field must be a boolean'' (as_bool x))"

definition json_u64 :: "json \<Rightarrow> string list \<Rightarrow> nat rresult" where
  "json_u64 v path =
     rbind (json_at v path) (\<lambda>x.
       with_context ''authority document field must be an unsigned integer'' (as_u64 x))"

definition json_strings :: "json \<Rightarrow> string list \<Rightarrow> string list rresult" where
  "json_strings v path =
     rbind (json_at v path) (\<lambda>x.
     rbind (with_context ''authority document field must be an array'' (as_array x)) (\<lambda>items.
     rbind (map_result (\<lambda>item. with_context ''authority array entry must be a string'' (as_str item))
       items) (\<lambda>ss. Inr (btree_set ss))))"

definition json_checks :: "json \<Rightarrow> string list \<Rightarrow> string list rresult" where
  "json_checks v path =
     rbind (json_at v path) (\<lambda>x.
     rbind (with_context ''authority checks must be an array'' (as_array x)) (\<lambda>items.
     rbind (map_result (\<lambda>check.
         rbind (json_string check [''conclusion'']) (\<lambda>conclusion.
         if conclusion \<noteq> ''success'' then Inl ''authority check is failed or bound to another head''
         else rbind (json_string check [''head_sha'']) (\<lambda>head.
              rbind (json_string v [''head_sha'']) (\<lambda>doc_head.
              if head \<noteq> doc_head then Inl ''authority check is failed or bound to another head''
              else json_string check [''name''])))) items) (\<lambda>ss. Inr (btree_set ss))))"

subsection \<open>Protected paths\<close>

definition unsafe_path :: "string \<Rightarrow> bool" where
  "unsafe_path p \<longleftrightarrow>
     p = [] \<or> prefix ''/'' p \<or> CHR 0x5C \<in> set p
     \<or> list_ex (\<lambda>c. c = [] \<or> c = ''..'') (split_byte CHR ''/'' p)"

text \<open>The inner loop: \<open>Some\<close> is the early return.\<close>

fun protected_paths_loop :: "string \<Rightarrow> string list \<Rightarrow> bool option rresult" where
  "protected_paths_loop pattern [] = Inr None"
| "protected_paths_loop pattern (path # paths) =
     (if unsafe_path path then Inl ''changed path is unsafe''
      else case strip_suffix ''/**'' pattern of
        Some pre \<Rightarrow>
          if pre = [] then Inl ''protected path prefix is empty''
          else if path = pre then Inl ''changed path collides with a protected directory root''
          else if prefix (pre @ ''/'') path then Inr (Some True)
          else protected_paths_loop pattern paths
      | None \<Rightarrow> if path = pattern then Inr (Some True) else protected_paths_loop pattern paths)"

fun derive_protected_path_touched :: "string list \<Rightarrow> string list \<Rightarrow> bool rresult" where
  "derive_protected_path_touched changed_paths [] = Inr False"
| "derive_protected_path_touched changed_paths (pattern # patterns) =
     (if pattern = [] \<or> prefix ''/'' pattern \<or> CHR 0x5C \<in> set pattern
      then Inl ''protected path pattern is unsafe''
      else if CHR ''*'' \<in> set pattern \<and> strip_suffix ''/**'' pattern = None
      then Inl ''protected path pattern uses an unsupported wildcard''
      else case protected_paths_loop pattern changed_paths of
        Inl e \<Rightarrow> Inl e
      | Inr (Some b) \<Rightarrow> Inr b
      | Inr None \<Rightarrow> derive_protected_path_touched changed_paths patterns)"

subsection \<open>Percent encoding\<close>

definition hex_digit :: "nat \<Rightarrow> char" where
  "hex_digit d = ''0123456789ABCDEF'' ! d"

definition unreserved :: "char \<Rightarrow> bool" where
  "unreserved b \<longleftrightarrow>
     is_ascii_alphanumeric b \<or> b \<in> {CHR ''-'', CHR ''_'', CHR ''.'', CHR ''~''}"

definition percent_encode :: "string \<Rightarrow> string" where
  "percent_encode v =
     concat (map (\<lambda>b. if unreserved b then [b]
       else [CHR ''%'', hex_digit (byte b div 16), hex_digit (byte b mod 16)]) v)"

subsection \<open>Actions\<close>

record required_check =
  rc_name :: string
  rc_conclusion :: string
  rc_head_sha :: string

record github_action =
  ga_schema :: string
  ga_run_id :: string
  ga_repository :: string
  ga_issue_number :: nat
  ga_base_sha :: string
  ga_head_sha :: string
  ga_fork :: "string option"
  ga_branch :: string
  ga_pr_title_digest :: string
  ga_pr_body_digest :: string
  ga_diff_digest :: string
  ga_required_checks :: "required_check list"
  ga_action :: string
  ga_approved_at :: string
  ga_expires_at :: string
  ga_run_envelope_digest :: string
  ga_candidate_decision_digest :: string
  ga_governance_decision_digest :: string
  ga_reviewer_independence_digest :: string
  ga_action_digest :: string

definition check_json :: "required_check \<Rightarrow> json" where
  "check_json c = JObject
     [(''conclusion'', JString (rc_conclusion c)), (''head_sha'', JString (rc_head_sha c)),
      (''name'', JString (rc_name c))]"

text \<open>\<open>to_value\<close> of an action, its fields in key order.\<close>

definition action_json :: "github_action \<Rightarrow> json" where
  "action_json a = JObject
     [(''action'', JString (ga_action a)),
      (''action_digest'', JString (ga_action_digest a)),
      (''approved_at'', JString (ga_approved_at a)),
      (''base_sha'', JString (ga_base_sha a)),
      (''branch'', JString (ga_branch a)),
      (''candidate_decision_digest'', JString (ga_candidate_decision_digest a)),
      (''diff_digest'', JString (ga_diff_digest a)),
      (''expires_at'', JString (ga_expires_at a)),
      (''fork'', (case ga_fork a of None \<Rightarrow> JNull | Some f \<Rightarrow> JString f)),
      (''governance_decision_digest'', JString (ga_governance_decision_digest a)),
      (''head_sha'', JString (ga_head_sha a)),
      (''issue_number'', JNumber (PosInt (ga_issue_number a))),
      (''pr_body_digest'', JString (ga_pr_body_digest a)),
      (''pr_title_digest'', JString (ga_pr_title_digest a)),
      (''repository'', JString (ga_repository a)),
      (''required_checks'', JArray (map check_json (ga_required_checks a))),
      (''reviewer_independence_digest'', JString (ga_reviewer_independence_digest a)),
      (''run_envelope_digest'', JString (ga_run_envelope_digest a)),
      (''run_id'', JString (ga_run_id a)),
      (''schema'', JString (ga_schema a))]"

text \<open>The canonical subject of the digest: the action without its own digest.\<close>

definition remove_field :: "string \<Rightarrow> json \<Rightarrow> json rresult" where
  "remove_field k v =
     (case as_object v of None \<Rightarrow> Inl ''GitHub action must be an object''
      | Some fs \<Rightarrow> Inr (JObject (bt_remove k fs)))"

fun action_checks_loop :: "string \<Rightarrow> string set \<Rightarrow> required_check list \<Rightarrow> unit rresult" where
  "action_checks_loop head seen [] = Inr ()"
| "action_checks_loop head seen (c # cs) =
     rbind (validate_text ''required check name'' (rc_name c) 256) (\<lambda>_.
       if rc_conclusion c \<noteq> ''success'' \<or> rc_head_sha c \<noteq> head \<or> rc_name c \<in> seen
       then Inl ''GitHub action checks must be unique, successful, and bound to the exact head''
       else action_checks_loop head (insert (rc_name c) seen) cs)"

definition validate_action ::
    "pub_base \<Rightarrow> github_action \<Rightarrow> string \<Rightarrow> string \<Rightarrow> timestamp \<Rightarrow> unit rresult" where
  "validate_action env action expected_action expected_digest now =
     rbind (bail_if (ga_schema action \<noteq> action_schema \<or> ga_action action \<noteq> expected_action)
       ''GitHub action schema or operation is invalid'') (\<lambda>_.
     rbind (validate_identifier ''run_id'' (ga_run_id action)) (\<lambda>_.
     rbind (split_repository (ga_repository action)) (\<lambda>_.
     rbind (with_context ''operator-owned fork is required'' (ga_fork action)) (\<lambda>fork.
     rbind (split_repository fork) (\<lambda>(fork_owner, fork_repo).
     rbind (split_repository (ga_repository action)) (\<lambda>(_, upstream_repo).
     rbind (bail_if (fork_owner = [] \<or> fork_repo \<noteq> upstream_repo)
       ''operator-owned fork must preserve the upstream repository name'') (\<lambda>_.
     rbind (bail_if (ga_issue_number action = 0 \<or> \<not> is_commit (ga_base_sha action)
         \<or> \<not> is_commit (ga_head_sha action) \<or> ga_base_sha action = ga_head_sha action)
       ''GitHub action issue or commit identity is invalid'') (\<lambda>_.
     rbind (validate_schema_branch (ga_branch action)) (\<lambda>_.
     rbind (validate_ref (ga_branch action)) (\<lambda>_.
     rbind (first_err (map (\<lambda>v. bail_if (\<not> is_sha256 v)
         ''GitHub action contains an invalid SHA-256 digest'')
       [ga_pr_title_digest action, ga_pr_body_digest action, ga_diff_digest action,
        ga_run_envelope_digest action, ga_candidate_decision_digest action,
        ga_governance_decision_digest action, ga_reviewer_independence_digest action,
        ga_action_digest action])) (\<lambda>_.
     rbind (bail_if (ga_required_checks action = [])
       ''GitHub action requires nonempty successful exact-head checks'') (\<lambda>_.
     rbind (action_checks_loop (ga_head_sha action) {} (ga_required_checks action)) (\<lambda>_.
     rbind (with_context ''GitHub action approved_at is not RFC3339''
       (pe_rfc3339 env (ga_approved_at action))) (\<lambda>approved.
     rbind (with_context ''GitHub action expires_at is not RFC3339''
       (pe_rfc3339 env (ga_expires_at action))) (\<lambda>expires.
     rbind (bail_if (approved > now \<or> expires \<le> now \<or> expires \<le> approved
         \<or> (expires - approved) div 1000000000 > 24 * 60 * 60)
       ''GitHub action approval is future-dated, stale, reversed, or longer than 24 hours'') (\<lambda>_.
     rbind (remove_field ''action_digest'' (action_json action)) (\<lambda>value.
       let actual = canonical_json_sha256 (pe_sha256 env) (pe_to_vec env) value in
       bail_if (actual \<noteq> ga_action_digest action \<or> actual \<noteq> expected_digest)
         ''GitHub action digest does not match the canonical action or expected approval'')))))))))))))))))"

subsection \<open>Lemmas\<close>

lemma split_repository_ok [check_simps]:
  "split_repository v = Inr (owner, repo) \<longleftrightarrow>
    split_byte CHR ''/'' v = [owner, repo] \<and> valid_slug owner \<and> valid_slug repo"
  by (auto simp: split_repository_def split: list.splits if_splits)

lemma validate_ref_ok [check_simps]: "validate_ref v = Inr () \<longleftrightarrow>
    v \<noteq> [] \<and> length v \<le> 255 \<and> \<not> prefix ''/'' v \<and> \<not> suffix ''/'' v \<and> \<not> contains v ''..''
    \<and> \<not> contains v [CHR ''@'', CHR ''{''] \<and> \<not> suffix ''.lock'' v
    \<and> list_all (\<lambda>b. \<not> is_ascii_control b
        \<and> b \<notin> {CHR '' '', CHR ''~'', CHR ''^'', CHR '':'', CHR ''?'', CHR ''*'', CHR ''['', CHR 0x5C}) v"
  by (auto simp: validate_ref_def bail_if_ok list_ex_iff list_all_iff not_less)

lemma json_at_append: "json_at v (p @ q) = rbind (json_at v p) (\<lambda>w. json_at w q)"
  by (induction v p rule: json_at.induct) (auto split: option.splits)

text \<open>The pattern language of protected paths.\<close>

definition protects :: "string \<Rightarrow> string \<Rightarrow> bool" where
  "protects pattern path \<longleftrightarrow>
     (case strip_suffix ''/**'' pattern of
        Some pre \<Rightarrow> prefix (pre @ ''/'') path | None \<Rightarrow> path = pattern)"

lemma protected_loop_ok:
  "protected_paths_loop pattern paths = Inr r \<Longrightarrow>
    (case r of None \<Rightarrow> \<forall>p \<in> set paths. \<not> protects pattern p \<and> \<not> unsafe_path p
               \<and> strip_suffix ''/**'' pattern \<noteq> Some p
     | Some b \<Rightarrow> b \<and> (\<exists>p \<in> set paths. protects pattern p))"
proof (induction paths)
  case Nil
  then show ?case by auto
next
  case (Cons p paths)
  then show ?case
    by (cases "strip_suffix ''/**'' pattern")
      (auto simp: protects_def simp del: strip_suffix_Some split: if_splits option.splits)
qed

lemma derive_protected_path_touched_ok:
  assumes "derive_protected_path_touched paths patterns = Inr touched"
  shows "(touched \<longleftrightarrow> (\<exists>pattern \<in> set patterns. \<exists>path \<in> set paths. protects pattern path))
    \<and> (\<not> touched \<longrightarrow> patterns \<noteq> [] \<longrightarrow> (\<forall>path \<in> set paths. \<not> unsafe_path path
        \<and> path @ ''/**'' \<notin> set patterns))"
  using assms
proof (induction patterns)
  case Nil
  then show ?case by simp
next
  case (Cons pattern patterns)
  from Cons.prems obtain r where loop: "protected_paths_loop pattern paths = Inr r"
    by (auto split: if_splits sum.splits)
  note facts = protected_loop_ok [OF loop]
  show ?case
  proof (cases r)
    case None
    with Cons.prems loop have "derive_protected_path_touched paths patterns = Inr touched"
      by (auto split: if_splits)
    from Cons.IH [OF this] facts None show ?thesis by auto
  next
    case (Some b)
    with Cons.prems loop have "touched = b" by (auto split: if_splits)
    with facts Some show ?thesis by auto
  qed
qed

lemma hex_digits: "d < 16 \<Longrightarrow> e < 16 \<Longrightarrow> hex_digit d = hex_digit e \<Longrightarrow> d = e"
proof -
  assume "d < 16" "e < 16" and eq: "hex_digit d = hex_digit e"
  then have "d < length ''0123456789ABCDEF''" "e < length ''0123456789ABCDEF''" by simp_all
  moreover have "distinct ''0123456789ABCDEF''" by simp
  ultimately show "d = e" using eq by (simp add: hex_digit_def nth_eq_iff_index_eq del: length_Cons)
qed

lemma byte_bound: "byte c < 256"
proof -
  have "(of_char c :: nat) mod 256 < 256" by simp
  then show ?thesis by (simp only: byte_def of_char_mod_256)
qed

lemma byte_inject: "byte c = byte d \<Longrightarrow> c = d"
  by (simp add: byte_def)

text \<open>One encoded byte: what it is and how it is read back.\<close>

definition encode_byte :: "char \<Rightarrow> string" where
  "encode_byte b = (if unreserved b then [b]
     else [CHR ''%'', hex_digit (byte b div 16), hex_digit (byte b mod 16)])"

lemma percent_encode_Cons: "percent_encode (b # v) = encode_byte b @ percent_encode v"
  by (simp add: percent_encode_def encode_byte_def)

lemma percent_not_unreserved: "\<not> unreserved CHR ''%''"
  by (simp add: unreserved_def is_ascii_alphanumeric_def is_ascii_lowercase_def
      is_ascii_uppercase_def is_ascii_digit_def byte_def)

lemma encode_byte_inject:
  assumes "encode_byte a @ x = encode_byte b @ y"
  shows "a = b \<and> x = y"
proof (cases "unreserved a")
  case a: True
  show ?thesis
  proof (cases "unreserved b")
    case True
    with a assms show ?thesis by (simp add: encode_byte_def)
  next
    case False
    with a assms have "a = CHR ''%''" by (simp add: encode_byte_def)
    with a percent_not_unreserved show ?thesis by simp
  qed
next
  case a: False
  show ?thesis
  proof (cases "unreserved b")
    case True
    with a assms have "b = CHR ''%''" by (auto simp: encode_byte_def)
    with True percent_not_unreserved show ?thesis by simp
  next
    case b: False
    from a b assms have x: "x = y" and hd: "hex_digit (byte a div 16) = hex_digit (byte b div 16)"
      and tl: "hex_digit (byte a mod 16) = hex_digit (byte b mod 16)" by (simp_all add: encode_byte_def)
    have "byte a div 16 < 16" "byte b div 16 < 16"
      using byte_bound [of a] byte_bound [of b] by simp_all
    then have "byte a div 16 = byte b div 16" using hd by (rule hex_digits)
    moreover have "byte a mod 16 = byte b mod 16" using tl by (rule hex_digits [rotated 2]) simp_all
    ultimately have "byte a = byte b" by (metis mult_div_mod_eq)
    with x byte_inject show ?thesis by blast
  qed
qed

lemma percent_encode_inject: "percent_encode v = percent_encode w \<Longrightarrow> v = w"
proof (induction v arbitrary: w)
  case Nil
  then show ?case
    by (cases w) (auto simp: percent_encode_Cons encode_byte_def percent_encode_def split: if_splits)
next
  case (Cons a v)
  show ?case
  proof (cases w)
    case Nil
    with Cons.prems show ?thesis
      by (auto simp: percent_encode_Cons encode_byte_def percent_encode_def split: if_splits)
  next
    case (Cons b w')
    with Cons.prems have "encode_byte a @ percent_encode v = encode_byte b @ percent_encode w'"
      by (simp add: percent_encode_Cons)
    from encode_byte_inject [OF this] Cons.IH Cons show ?thesis by blast
  qed
qed

lemma hex_digit_unreserved: "d < 16 \<Longrightarrow> unreserved (hex_digit d)"
proof -
  assume "d < 16"
  then have "d \<in> set [0..<16]" by simp
  then show ?thesis
    by (simp add: upt_rec numeral_eq_Suc hex_digit_def)
      (elim disjE; simp add: unreserved_def is_ascii_alphanumeric_def is_ascii_lowercase_def
        is_ascii_uppercase_def is_ascii_digit_def byte_def)
qed

lemma percent_encode_chars: "c \<in> set (percent_encode v) \<Longrightarrow> unreserved c \<or> c = CHR ''%''"
proof (induction v)
  case (Cons b v)
  have "byte b div 16 < 16" using byte_bound [of b] by simp
  with Cons hex_digit_unreserved show ?case
    by (auto simp: percent_encode_Cons encode_byte_def split: if_splits)
qed (simp add: percent_encode_def)

subsection \<open>The digest of an action\<close>

definition action_subject :: "github_action \<Rightarrow> json" where
  "action_subject a = (case action_json a of JObject fs \<Rightarrow> JObject (bt_remove ''action_digest'' fs) | v \<Rightarrow> v)"

lemma subject_of_action [check_simps]:
  "remove_field ''action_digest'' (action_json a) = Inr v \<longleftrightarrow> v = action_subject a"
  by (auto simp: remove_field_def action_subject_def action_json_def)

lemma action_subject_fields:
  "action_subject a = JObject
     [(''action'', JString (ga_action a)), (''approved_at'', JString (ga_approved_at a)),
      (''base_sha'', JString (ga_base_sha a)), (''branch'', JString (ga_branch a)),
      (''candidate_decision_digest'', JString (ga_candidate_decision_digest a)),
      (''diff_digest'', JString (ga_diff_digest a)), (''expires_at'', JString (ga_expires_at a)),
      (''fork'', (case ga_fork a of None \<Rightarrow> JNull | Some f \<Rightarrow> JString f)),
      (''governance_decision_digest'', JString (ga_governance_decision_digest a)),
      (''head_sha'', JString (ga_head_sha a)),
      (''issue_number'', JNumber (PosInt (ga_issue_number a))),
      (''pr_body_digest'', JString (ga_pr_body_digest a)),
      (''pr_title_digest'', JString (ga_pr_title_digest a)),
      (''repository'', JString (ga_repository a)),
      (''required_checks'', JArray (map check_json (ga_required_checks a))),
      (''reviewer_independence_digest'', JString (ga_reviewer_independence_digest a)),
      (''run_envelope_digest'', JString (ga_run_envelope_digest a)),
      (''run_id'', JString (ga_run_id a)), (''schema'', JString (ga_schema a))]"
  by (simp add: action_subject_def action_json_def bt_remove_def)

lemma action_subject_wf: "json_wf (action_subject a)"
proof -
  have "json_wf (check_json c)" for c
    by (simp add: check_json_def bt_wf_def)
  then show ?thesis
    by (simp add: action_subject_fields bt_wf_def split: option.splits)
qed

lemma check_json_inject: "map check_json cs = map check_json ds \<Longrightarrow> cs = ds"
proof -
  have "inj check_json" by (rule injI) (simp add: check_json_def)
  then show "map check_json cs = map check_json ds \<Longrightarrow> cs = ds" by simp
qed

lemma action_subject_inject:
  assumes "action_subject a = action_subject b" "ga_action_digest a = ga_action_digest b"
  shows "a = b"
proof -
  have "ga_fork a = ga_fork b"
    using assms(1) by (cases "ga_fork a"; cases "ga_fork b") (simp_all add: action_subject_fields)
  moreover have "ga_required_checks a = ga_required_checks b"
    using assms(1) by (intro check_json_inject) (simp add: action_subject_fields)
  ultimately show ?thesis
    using assms by (cases a; cases b) (simp add: action_subject_fields)
qed

text \<open>What a validated action satisfies.\<close>

lemma validate_action_ok:
  assumes "validate_action env action expected_action expected_digest now = Inr ()"
  shows "ga_action action = expected_action"
    and "ga_action_digest action = expected_digest"
    and "canonical_json_sha256 (pe_sha256 env) (pe_to_vec env) (action_subject action) = expected_digest"
    and "\<exists>owner repo fork_owner fork.
      split_repository (ga_repository action) = Inr (owner, repo)
      \<and> ga_fork action = Some fork \<and> split_repository fork = Inr (fork_owner, repo)"
    and "is_commit (ga_base_sha action)" and "is_commit (ga_head_sha action)"
    and "ga_base_sha action \<noteq> ga_head_sha action"
    and "validate_schema_branch (ga_branch action) = Inr ()"
    and "validate_ref (ga_branch action) = Inr ()"
    and "ga_required_checks action \<noteq> []"
    and "action_checks_loop (ga_head_sha action) {} (ga_required_checks action) = Inr ()"
    and "\<exists>approved expires. pe_rfc3339 env (ga_approved_at action) = Some approved
      \<and> pe_rfc3339 env (ga_expires_at action) = Some expires
      \<and> approved \<le> now \<and> now < expires \<and> expires \<le> approved + 86400 * 1000000000 + 999999999"
proof -
  note check = assms [unfolded validate_action_def Let_def]
  show "ga_action action = expected_action" and "ga_action_digest action = expected_digest"
    and "canonical_json_sha256 (pe_sha256 env) (pe_to_vec env) (action_subject action) = expected_digest"
    and "is_commit (ga_base_sha action)" and "is_commit (ga_head_sha action)"
    and "ga_base_sha action \<noteq> ga_head_sha action"
    and "validate_schema_branch (ga_branch action) = Inr ()"
    and "validate_ref (ga_branch action) = Inr ()"
    and "ga_required_checks action \<noteq> []"
    and "action_checks_loop (ga_head_sha action) {} (ga_required_checks action) = Inr ()"
    using check by (auto simp: rbind_eq_Inr bail_if_ok subject_of_action split: prod.splits)
  show "\<exists>owner repo fork_owner fork.
      split_repository (ga_repository action) = Inr (owner, repo)
      \<and> ga_fork action = Some fork \<and> split_repository fork = Inr (fork_owner, repo)"
    using check by (fastforce simp: rbind_eq_Inr bail_if_ok with_context_ok split: prod.splits)
  show "\<exists>approved expires. pe_rfc3339 env (ga_approved_at action) = Some approved
      \<and> pe_rfc3339 env (ga_expires_at action) = Some expires
      \<and> approved \<le> now \<and> now < expires \<and> expires \<le> approved + 86400 * 1000000000 + 999999999"
  proof -
    have window: "e - a \<le> 86400 * 1000000000 + 999999999"
      if "\<not> 86400 < (e - a) div 1000000000" for e a :: int
    proof -
      have "(e - a) mod 1000000000 < 1000000000" by simp
      moreover have "e - a = 1000000000 * ((e - a) div 1000000000) + (e - a) mod 1000000000" by simp
      ultimately show ?thesis using that by linarith
    qed
    show ?thesis
      using check by (fastforce simp: rbind_eq_Inr bail_if_ok with_context_ok not_le not_less
        dest: window split: prod.splits)
  qed
qed

lemma action_checks_ok:
  "action_checks_loop head seen cs = Inr () \<Longrightarrow>
    (\<forall>c \<in> set cs. rc_conclusion c = ''success'' \<and> rc_head_sha c = head)
    \<and> distinct (map rc_name cs) \<and> rc_name ` set cs \<inter> seen = {}"
  by (induction cs arbitrary: seen) (auto simp: rbind_eq_Inr split: if_splits)

subsection \<open>Properties\<close>

text \<open>An action that passes, in an environment with a constant digest.\<close>

definition example_clock :: "string \<Rightarrow> timestamp option" where
  "example_clock s = (if s = ''t1'' then Some 1000 else if s = ''t2'' then Some 5000 else None)"

definition example_base :: pub_base where
  "example_base = \<lparr>pe_sha256 = (\<lambda>_. replicate 64 CHR ''d''), pe_to_vec = (\<lambda>_. []),
     pe_rfc3339 = example_clock\<rparr>"

definition example_push :: github_action where
  "example_push = \<lparr>ga_schema = action_schema, ga_run_id = ''repair-0001'',
     ga_repository = ''acme/tool'', ga_issue_number = 7, ga_base_sha = replicate 40 CHR ''a'',
     ga_head_sha = replicate 40 CHR ''b'', ga_fork = Some ''bot/tool'', ga_branch = ''repair/7'',
     ga_pr_title_digest = replicate 64 CHR ''d'', ga_pr_body_digest = replicate 64 CHR ''d'',
     ga_diff_digest = replicate 64 CHR ''d'',
     ga_required_checks = [\<lparr>rc_name = ''ci'', rc_conclusion = ''success'',
       rc_head_sha = replicate 40 CHR ''b''\<rparr>],
     ga_action = ''push_operator_fork'', ga_approved_at = ''t1'', ga_expires_at = ''t2'',
     ga_run_envelope_digest = replicate 64 CHR ''d'',
     ga_candidate_decision_digest = replicate 64 CHR ''d'',
     ga_governance_decision_digest = replicate 64 CHR ''d'',
     ga_reviewer_independence_digest = replicate 64 CHR ''d'',
     ga_action_digest = replicate 64 CHR ''d''\<rparr>"

lemma example_push_valid:
  "validate_action example_base example_push ''push_operator_fork'' (replicate 64 CHR ''d'') 2000
    = Inr ()"
  by code_simp

text \<open>C31: An approval binds the whole action: if two actions pass validation against the same
  expected digest, and the digest does not collide on their two canonical subjects, they are
  the same action in every field, operation included.\<close>

theorem expected_digest_determines_action:
  assumes "validate_action env a kind digest now = Inr ()"
    and "validate_action env b kind' digest now' = Inr ()"
    and no_collision: "pe_sha256 env (pe_to_vec env (action_subject a))
        = pe_sha256 env (pe_to_vec env (action_subject b)) \<longrightarrow> action_subject a = action_subject b"
  shows "a = b \<and> kind = kind'"
proof -
  note A = validate_action_ok [OF assms(1)] and B = validate_action_ok [OF assms(2)]
  from A(3) B(3) have "action_subject a = action_subject b"
    using no_collision by (simp add: canonical_json_sha256_def json_wf_canonicalize action_subject_wf)
  with A(2) B(2) have "a = b" by (intro action_subject_inject) simp_all
  with A(1) B(1) show ?thesis by simp
qed

theorem expected_digest_determines_action_witness:
  "{b. \<exists>kind. validate_action (example_base\<lparr>pe_sha256 := \<lambda>s. s,
      pe_to_vec := \<lambda>v. if v = action_subject example_push then replicate 64 CHR ''d'' else []\<rparr>)
      b kind (replicate 64 CHR ''d'') 2000 = Inr ()} = {example_push}"
proof -
  let ?env = "example_base\<lparr>pe_sha256 := \<lambda>s. s,
      pe_to_vec := \<lambda>v. if v = action_subject example_push then replicate 64 CHR ''d'' else []\<rparr>"
  have a: "validate_action ?env example_push ''push_operator_fork'' (replicate 64 CHR ''d'') 2000 = Inr ()"
    by code_simp
  have "example_push = b" if "validate_action ?env b kind (replicate 64 CHR ''d'') 2000 = Inr ()" for b kind
    using expected_digest_determines_action [OF a that] by simp
  with a show ?thesis by blast
qed

text \<open>Protected paths are recognised exactly: when the derivation succeeds, it answers
  yes just in case some changed path is matched by some protected pattern (an exact path,
  or everything below the directory of a \<open>/**\<close> pattern), and a negative answer also
  means that every changed path was safe and none was a protected directory itself.\<close>

theorem protected_paths_exact:
  assumes "derive_protected_path_touched paths patterns = Inr touched"
  shows "(touched \<longleftrightarrow> (\<exists>pattern \<in> set patterns. \<exists>path \<in> set paths. protects pattern path))
    \<and> (\<not> touched \<longrightarrow> patterns \<noteq> [] \<longrightarrow> (\<forall>path \<in> set paths. \<not> unsafe_path path
        \<and> path @ ''/**'' \<notin> set patterns))"
  using assms by (rule derive_protected_path_touched_ok)

theorem protected_paths_exact_witness:
  "protects ''.github/**'' ''.github/ci.yml''"
proof -
  have "derive_protected_path_touched [''src/a.rs'', ''.github/ci.yml''] [''.github/**''] = Inr True"
    by code_simp
  from protected_paths_exact [OF this] have "\<exists>path \<in> {''src/a.rs'', ''.github/ci.yml''}.
    protects ''.github/**'' path" by auto
  moreover have "\<not> protects ''.github/**'' ''src/a.rs''" by code_simp
  ultimately show ?thesis by blast
qed

text \<open>A branch name cannot forge an API path: the percent encoding of a name contains only
  unreserved characters and percent signs, so no slash or query character, and different
  names have different encodings.\<close>

theorem percent_encode_safe:
  "set (percent_encode v) \<subseteq> insert CHR ''%'' {c. unreserved c}
    \<and> CHR ''/'' \<notin> set (percent_encode v) \<and> CHR ''?'' \<notin> set (percent_encode v)
    \<and> (percent_encode v = percent_encode w \<longleftrightarrow> v = w)"
proof -
  have "\<not> unreserved CHR ''/''" and "\<not> unreserved CHR ''?''"
    by (simp_all add: unreserved_def is_ascii_alphanumeric_def is_ascii_lowercase_def
        is_ascii_uppercase_def is_ascii_digit_def byte_def)
  then have "CHR ''/'' \<notin> set (percent_encode v)" and "CHR ''?'' \<notin> set (percent_encode v)"
    using percent_encode_chars [of "CHR ''/''" v] percent_encode_chars [of "CHR ''?''" v] by auto
  then show ?thesis
    using percent_encode_chars [of _ v] percent_encode_inject [of v w] by auto
qed

end
