(* ===== verification/Publication_Contracts.thy ===== *)
theory Publication_Contracts
  imports Publication_Syntax
begin

text \<open>
  The four authority contracts of \<open>crates/ao2-runtime/src/github_issue_publication.rs\<close> (run
  envelope, candidate decision, governance decision, reviewer independence) as records, and
  the rules that each of them must satisfy by itself.  A field of type
  \<open>serde_json::Value\<close> keeps the type \<open>json\<close>.
\<close>

subsection \<open>The run envelope\<close>

record loop_contract =
  lc_goal :: string
  lc_trigger :: string
  lc_discovery :: string
  lc_action :: string
  lc_verification :: string
  lc_state :: string
  lc_human_gates :: string

record trigger_contract =
  tg_mode :: string
  tg_canonical_url :: string
  tg_repository :: string
  tg_default_branch :: string
  tg_pinned_base_commit :: string

record discovery_contract =
  dc_snapshot_limit :: nat
  dc_candidate_limit :: nat
  dc_selected_limit :: nat

record budget_contract =
  bc_wall_clock_seconds :: nat
  bc_clone_count :: nat
  bc_test_runs :: nat
  bc_retry_count :: nat
  bc_repair_count :: nat
  bc_publication_count :: nat

record envelope_governance =
  eg_ownership_class :: string
  eg_allowed_actions :: "string list"
  eg_denied_actions :: "string list"
  eg_sole_control_auto_merge_opt_in :: bool

record routing_contract =
  rt_default_branch :: string
  rt_pinned_base_commit :: string
  rt_fork_owner :: json
  rt_repair_branch :: string
  rt_protected_path_classes :: "string list"
  rt_required_checks :: "string list"

record lineage_contract =
  lg_kind :: string
  lg_predecessor_run_id :: json
  lg_predecessor_digest :: json

record run_envelope =
  re_schema :: string
  re_run_id :: string
  re_loop :: loop_contract
  re_trigger :: trigger_contract
  re_discovery :: discovery_contract
  re_budgets :: budget_contract
  re_governance :: envelope_governance
  re_routing :: routing_contract
  re_created_at :: string
  re_expires_at :: string
  re_canonical_digest :: string
  re_predecessor_digest :: json
  re_lineage :: lineage_contract
  re_stop_conditions :: "string list"
  re_terminal_statuses :: "string list"

definition run_envelope_schema :: string where
  "run_envelope_schema = ''ao.architecture.autonomous-issue-repair.run-envelope.v1''"

definition candidate_decision_schema :: string where
  "candidate_decision_schema = ''ao.architecture.autonomous-issue-repair.candidate-decision.v1''"

definition governance_schema :: string where
  "governance_schema = ''ao.architecture.autonomous-issue-repair.governance-decision.v1''"

definition reviewer_schema :: string where
  "reviewer_schema = ''ao.architecture.autonomous-issue-repair.reviewer-independence.v1''"

definition ownership_classes :: "string list" where
  "ownership_classes = [''sole_control'', ''team'', ''external'', ''unknown'']"

definition allowed_action_names :: "string list" where
  "allowed_action_names =
     [''read_public_metadata'', ''clone_public_repository'', ''push_operator_fork'',
      ''open_upstream_draft_pr'', ''open_ready_pr'', ''request_merge_queue'', ''auto_merge'']"

definition denied_action_names :: "string list" where
  "denied_action_names =
     [''push_upstream'', ''open_ready_pr'', ''mark_ready'', ''approve_review'', ''merge'',
      ''mutate_issue'', ''publish_release'']"

definition stop_condition_names :: "string list" where
  "stop_condition_names =
     [''policy_ambiguity'', ''security_sensitive'', ''credential_required'', ''lease_conflict'',
      ''digest_mismatch'', ''required_check_conflict'', ''budget_exhausted'',
      ''unauthorized_external_write'', ''concurrent_repository_mutation'']"

definition terminal_status_names :: "string list" where
  "terminal_status_names =
     [''completed'', ''no_eligible_issue'', ''operator_action_required'', ''blocked'', ''expired'',
      ''cancelled'']"

definition valid_issue_url :: "trigger_contract \<Rightarrow> bool" where
  "valid_issue_url trigger =
     (let issue_root = ''https://github.com/'' @ tg_repository trigger @ ''/issues'' in
      if tg_mode trigger = ''issue_list'' then tg_canonical_url trigger = issue_root
      else if tg_mode trigger = ''explicit_issue'' then
        (case strip_prefix (issue_root @ ''/'') (tg_canonical_url trigger) of
           None \<Rightarrow> False
         | Some number \<Rightarrow>
             (case number of [] \<Rightarrow> False
              | d # ds \<Rightarrow> 49 \<le> byte d \<and> byte d \<le> 57 \<and> list_all is_ascii_digit ds))
      else False)"

definition validate_loop :: "loop_contract \<Rightarrow> unit rresult" where
  "validate_loop l = first_err (map (\<lambda>(name, v, limit). validate_text name v limit)
     [(''loop.goal'', lc_goal l, 512), (''loop.trigger'', lc_trigger l, 256),
      (''loop.discovery'', lc_discovery l, 256), (''loop.action'', lc_action l, 256),
      (''loop.verification'', lc_verification l, 256), (''loop.state'', lc_state l, 256),
      (''loop.human_gates'', lc_human_gates l, 256)])"

definition validate_fork_owner :: "json \<Rightarrow> unit rresult" where
  "validate_fork_owner v =
     (if v = JNull then Inr ()
      else rbind (with_context ''run envelope fork_owner must be string or null'' (as_str v)) (\<lambda>owner.
           bail_if (\<not> valid_slug owner) ''run envelope fork_owner is invalid''))"

definition validate_lineage :: "run_envelope \<Rightarrow> unit rresult" where
  "validate_lineage e =
     (if lg_kind (re_lineage e) = ''origin'' \<and> re_predecessor_digest e = JNull
         \<and> lg_predecessor_run_id (re_lineage e) = JNull
         \<and> lg_predecessor_digest (re_lineage e) = JNull
      then Inr ()
      else if lg_kind (re_lineage e) = ''narrower_successor'' then
        rbind (with_context ''successor predecessor_digest must be a string''
          (as_str (re_predecessor_digest e))) (\<lambda>top.
        rbind (with_context ''successor predecessor_run_id must be a string''
          (as_str (lg_predecessor_run_id (re_lineage e)))) (\<lambda>run_id.
        rbind (with_context ''successor lineage digest must be a string''
          (as_str (lg_predecessor_digest (re_lineage e)))) (\<lambda>lineage.
        rbind (validate_run_id ''predecessor_run_id'' run_id) (\<lambda>_.
        bail_if (\<not> is_sha256 top \<or> top \<noteq> lineage) ''successor lineage digest is invalid''))))
      else Inl ''run envelope lineage is invalid'')"

definition validate_envelope_times :: "pub_base \<Rightarrow> run_envelope \<Rightarrow> unit rresult" where
  "validate_envelope_times env e =
     rbind (parse_time env ''run envelope created_at'' (re_created_at e)) (\<lambda>created.
     rbind (parse_time env ''run envelope expires_at'' (re_expires_at e)) (\<lambda>expires.
     bail_if (expires \<le> created
         \<or> (expires - created) div 1000000000 > int (bc_wall_clock_seconds (re_budgets e))
         \<or> \<not> is_sha256 (re_canonical_digest e))
       ''run envelope timestamps or canonical digest are invalid''))"

definition external_or_unknown :: "string \<Rightarrow> bool" where
  "external_or_unknown cls \<longleftrightarrow> cls = ''external'' \<or> cls = ''unknown''"

definition validate_envelope_governance :: "envelope_governance \<Rightarrow> unit rresult" where
  "validate_envelope_governance g =
     rbind (bail_if (external_or_unknown (eg_ownership_class g)
         \<and> list_ex (\<lambda>a. a \<in> {''open_ready_pr'', ''request_merge_queue'', ''auto_merge''})
             (eg_allowed_actions g))
       ''external or unknown run envelope must remain draft-only'') (\<lambda>_.
     rbind (bail_if (eg_sole_control_auto_merge_opt_in g \<and> eg_ownership_class g \<noteq> ''sole_control'')
       ''auto-merge opt-in is only valid for sole_control governance'') (\<lambda>_.
     bail_if (list_ex (\<lambda>a. a = ''auto_merge'') (eg_allowed_actions g)
         \<and> (eg_ownership_class g \<noteq> ''sole_control'' \<or> \<not> eg_sole_control_auto_merge_opt_in g))
       ''auto_merge requires sole-control explicit opt-in''))"

definition validate_envelope_contract :: "pub_base \<Rightarrow> run_envelope \<Rightarrow> unit rresult" where
  "validate_envelope_contract env e = first_err
     [bail_if (re_schema e \<noteq> run_envelope_schema) ''run envelope schema is invalid'',
      validate_run_id ''run_id'' (re_run_id e),
      validate_loop (re_loop e),
      validate_one_of ''trigger mode'' (tg_mode (re_trigger e)) [''explicit_issue'', ''issue_list''],
      rbind (split_repository (tg_repository (re_trigger e))) (\<lambda>_. Inr ()),
      validate_ref (tg_default_branch (re_trigger e)),
      bail_if (\<not> is_commit (tg_pinned_base_commit (re_trigger e)))
        ''run envelope pinned base commit is invalid'',
      bail_if (\<not> valid_issue_url (re_trigger e)) ''run envelope canonical GitHub URL is invalid'',
      bail_if (\<not> (1 \<le> dc_snapshot_limit (re_discovery e) \<and> dc_snapshot_limit (re_discovery e) \<le> 50)
          \<or> \<not> (1 \<le> dc_candidate_limit (re_discovery e) \<and> dc_candidate_limit (re_discovery e) \<le> 10)
          \<or> dc_selected_limit (re_discovery e) \<noteq> 1)
        ''run envelope discovery bounds are invalid'',
      bail_if (bc_wall_clock_seconds (re_budgets e) = 0 \<or> bc_test_runs (re_budgets e) = 0
          \<or> bc_repair_count (re_budgets e) > 1 \<or> bc_publication_count (re_budgets e) > 1)
        ''run envelope budgets are invalid'',
      validate_one_of ''ownership class'' (eg_ownership_class (re_governance e)) ownership_classes,
      validate_string_array ''allowed actions'' (eg_allowed_actions (re_governance e)) 1 128
        allowed_action_names,
      validate_string_array ''denied actions'' (eg_denied_actions (re_governance e)) 1 128
        denied_action_names,
      validate_ref (rt_default_branch (re_routing e)),
      validate_schema_branch (rt_repair_branch (re_routing e)),
      validate_ref (rt_repair_branch (re_routing e)),
      bail_if (\<not> is_commit (rt_pinned_base_commit (re_routing e)))
        ''run envelope routing commit is invalid'',
      validate_fork_owner (rt_fork_owner (re_routing e)),
      validate_string_array ''protected path classes'' (rt_protected_path_classes (re_routing e)) 0 128 [],
      validate_string_array ''required checks'' (rt_required_checks (re_routing e)) 0 256 [],
      validate_envelope_times env e,
      validate_envelope_governance (re_governance e),
      validate_lineage e,
      validate_string_array ''stop conditions'' (re_stop_conditions e) 1 128 stop_condition_names,
      validate_string_array ''terminal statuses'' (re_terminal_statuses e) 1 128 terminal_status_names]"

subsection \<open>The candidate decision\<close>

record eligibility_contract =
  el_open_bug :: bool
  el_target_in_repository :: bool
  el_no_existing_fix :: bool
  el_current_head_unfixed :: bool
  el_security_sensitive :: bool
  el_public_reproduction_feasible :: bool
  el_deterministic_local_reproduction :: bool
  el_expected_behavior_grounded :: bool
  el_bounded_policy_compatible :: bool

record candidate_contract =
  cc_schema :: string
  cc_run_id :: string
  cc_repository :: string
  cc_base_sha :: string
  cc_issue_number :: nat
  cc_rank :: nat
  cc_decision :: string
  cc_eligibility :: eligibility_contract
  cc_reason_codes :: "string list"
  cc_evidence_digests :: "string list"
  cc_expected_behavior_source :: string
  cc_decided_at :: string
  cc_decision_digest :: string

definition all_eligible :: "eligibility_contract \<Rightarrow> bool" where
  "all_eligible el \<longleftrightarrow>
     list_all id
       [el_open_bug el, el_target_in_repository el, el_no_existing_fix el,
        el_current_head_unfixed el, el_public_reproduction_feasible el,
        el_deterministic_local_reproduction el, el_expected_behavior_grounded el,
        el_bounded_policy_compatible el]
     \<and> \<not> el_security_sensitive el"

definition validate_candidate_contract :: "pub_base \<Rightarrow> candidate_contract \<Rightarrow> unit rresult" where
  "validate_candidate_contract env c = first_err
     [bail_if (cc_schema c \<noteq> candidate_decision_schema) ''candidate schema is invalid'',
      validate_run_id ''candidate run_id'' (cc_run_id c),
      rbind (split_repository (cc_repository c)) (\<lambda>_. Inr ()),
      bail_if (\<not> is_commit (cc_base_sha c) \<or> cc_issue_number c = 0
          \<or> \<not> (1 \<le> cc_rank c \<and> cc_rank c \<le> 10) \<or> \<not> is_sha256 (cc_decision_digest c))
        ''candidate identity or digest is invalid'',
      validate_one_of ''candidate decision'' (cc_decision c) [''eligible'', ''selected'', ''excluded''],
      validate_string_array ''candidate reason codes'' (cc_reason_codes c) 1 128 [],
      validate_string_array ''candidate evidence digests'' (cc_evidence_digests c) 1 64 [],
      bail_if (list_ex (\<lambda>d. \<not> is_sha256 d) (cc_evidence_digests c))
        ''candidate evidence digest is invalid'',
      validate_one_of ''expected behavior source'' (cc_expected_behavior_source c)
        [''tests'', ''documentation'', ''protocol'', ''maintainer_statement'', ''unavailable''],
      bail_if (cc_decision c \<in> {''eligible'', ''selected''}
          \<and> (\<not> all_eligible (cc_eligibility c) \<or> \<not> cc_expected_behavior_source c \<noteq> ''unavailable''))
        ''eligible or selected candidate requires every predicate and grounded behavior'',
      bail_if (cc_decision c = ''excluded'' \<and> all_eligible (cc_eligibility c)
          \<and> cc_expected_behavior_source c \<noteq> ''unavailable'')
        ''excluded candidate requires a failing predicate'',
      rbind (parse_time env ''candidate decided_at'' (cc_decided_at c)) (\<lambda>_. Inr ())]"

subsection \<open>The governance decision\<close>

record merge_contract =
  mg_authorized :: bool
  mg_mode :: string
  mg_approval_kind :: string
  mg_approval_head_sha :: json
  mg_auto_merge_opt_in :: bool
  mg_branch_protection_bypassed :: bool

record governance_contract =
  gv_schema :: string
  gv_run_id :: string
  gv_repository :: string
  gv_base_sha :: string
  gv_head_sha :: string
  gv_governance_class :: string
  gv_classification_sources :: "string list"
  gv_push_target :: string
  gv_pull_request_mode :: string
  gv_merge :: merge_contract
  gv_protected_path_touched :: bool
  gv_required_checks :: "required_check list"
  gv_action_digest_required :: bool
  gv_decided_at :: string
  gv_decision_digest :: string

fun governance_checks_loop :: "string \<Rightarrow> string set \<Rightarrow> required_check list \<Rightarrow> unit rresult" where
  "governance_checks_loop head seen [] = Inr ()"
| "governance_checks_loop head seen (c # cs) =
     rbind (validate_text ''governance check name'' (rc_name c) 256) (\<lambda>_.
     rbind (validate_one_of ''governance check conclusion'' (rc_conclusion c)
       [''success'', ''failure'', ''pending'', ''missing'']) (\<lambda>_.
     if \<not> is_commit (rc_head_sha c) \<or> rc_head_sha c \<noteq> head \<or> rc_name c \<in> seen
     then Inl ''governance checks must be unique and bind the exact head SHA''
     else governance_checks_loop head (insert (rc_name c) seen) cs))"

definition merge_checks_pass :: "governance_contract \<Rightarrow> bool" where
  "merge_checks_pass g \<longleftrightarrow>
     gv_required_checks g \<noteq> []
     \<and> list_all (\<lambda>c. rc_conclusion c = ''success'' \<and> rc_head_sha c = gv_head_sha g) (gv_required_checks g)"

text \<open>The rules about merging.\<close>

definition validate_merge :: "governance_contract \<Rightarrow> unit rresult" where
  "validate_merge g =
     (let m = gv_merge g in first_err
      [bail_if (mg_approval_head_sha m \<noteq> JNull
          \<and> \<not> (case as_str (mg_approval_head_sha m) of None \<Rightarrow> False | Some s \<Rightarrow> is_commit s))
         ''merge approval head SHA must be a commit or null'',
       bail_if (mg_branch_protection_bypassed m \<or> \<not> gv_action_digest_required g)
         ''governance safety constants are invalid'',
       bail_if (\<not> mg_authorized m \<and> mg_mode m \<noteq> ''never'')
         ''unauthorized governance merge mode must be never'',
       bail_if (mg_authorized m \<and> (gv_protected_path_touched g \<or> \<not> merge_checks_pass g))
         ''authorized merge requires unprotected paths and exact successful checks'',
       bail_if (gv_governance_class g = ''sole_control'' \<and> mg_mode m = ''auto_merge''
           \<and> \<not> mg_auto_merge_opt_in m)
         ''sole-control auto_merge requires explicit opt-in'',
       bail_if (external_or_unknown (gv_governance_class g)
           \<and> (mg_authorized m \<or> mg_mode m \<noteq> ''never'' \<or> gv_push_target g \<noteq> ''operator_owned_fork''
             \<or> gv_pull_request_mode g \<noteq> ''upstream_draft_only'' \<or> mg_approval_kind m \<noteq> ''none''
             \<or> mg_approval_head_sha m \<noteq> JNull \<or> mg_auto_merge_opt_in m))
         ''external or unknown governance must remain fork-only, draft-only, and unmerged'',
       bail_if (gv_governance_class g = ''team'' \<and> mg_authorized m
           \<and> (mg_approval_kind m \<notin> {''independent_human'', ''codeowner''}
             \<or> as_str (mg_approval_head_sha m) \<noteq> Some (gv_head_sha g) \<or> mg_mode m \<noteq> ''merge_queue''))
         ''team merge requires exact-head independent approval through the merge queue''])"

definition validate_governance_contract :: "pub_base \<Rightarrow> governance_contract \<Rightarrow> unit rresult" where
  "validate_governance_contract env g = first_err
     [bail_if (gv_schema g \<noteq> governance_schema) ''governance schema is invalid'',
      validate_run_id ''governance run_id'' (gv_run_id g),
      rbind (split_repository (gv_repository g)) (\<lambda>_. Inr ()),
      bail_if (\<not> is_commit (gv_base_sha g) \<or> \<not> is_commit (gv_head_sha g)
          \<or> \<not> is_sha256 (gv_decision_digest g))
        ''governance commit or digest is invalid'',
      validate_one_of ''governance class'' (gv_governance_class g) ownership_classes,
      validate_string_array ''classification sources'' (gv_classification_sources g) 1 128
        [''repository_policy'', ''branch_rules'', ''codeowners'', ''operator_envelope'', ''unknown_default''],
      validate_one_of ''push target'' (gv_push_target g)
        [''authorized_operator_repository'', ''policy_authorized_branch'', ''operator_owned_fork''],
      validate_one_of ''pull request mode'' (gv_pull_request_mode g)
        [''draft_or_ready_by_policy'', ''upstream_draft_only''],
      validate_one_of ''merge mode'' (mg_mode (gv_merge g))
        [''never'', ''manual'', ''merge_queue'', ''auto_merge''],
      validate_one_of ''merge approval kind'' (mg_approval_kind (gv_merge g))
        [''none'', ''independent_human'', ''codeowner''],
      validate_merge g,
      governance_checks_loop (gv_head_sha g) {} (gv_required_checks g),
      rbind (parse_time env ''governance decided_at'' (gv_decided_at g)) (\<lambda>_. Inr ())]"

subsection \<open>The reviewer decision\<close>

record reviewer_contract =
  rv_schema :: string
  rv_run_id :: string
  rv_subject_digest :: string
  rv_reviewer_id :: string
  rv_status :: string
  rv_deterministic_tests_primary :: bool
  rv_satisfies_team_merge_gate :: bool
  rv_reviewed_at :: string
  rv_review_digest :: string

definition validate_reviewer_contract :: "pub_base \<Rightarrow> reviewer_contract \<Rightarrow> unit rresult" where
  "validate_reviewer_contract env v = first_err
     [bail_if (rv_schema v \<noteq> reviewer_schema) ''reviewer schema is invalid'',
      validate_run_id ''reviewer run_id'' (rv_run_id v),
      validate_text ''reviewer_id'' (rv_reviewer_id v) 128,
      validate_one_of ''reviewer status'' (rv_status v)
        [''independent'', ''same_vendor'', ''unavailable'', ''unverified''],
      bail_if (\<not> is_sha256 (rv_subject_digest v) \<or> \<not> is_sha256 (rv_review_digest v)
          \<or> \<not> rv_deterministic_tests_primary v)
        ''reviewer digest or deterministic-test constant is invalid'',
      rbind (parse_time env ''reviewed_at'' (rv_reviewed_at v)) (\<lambda>_. Inr ())]"

subsection \<open>Lemmas\<close>

lemma validate_one_of_ok [check_simps]: "validate_one_of name v allowed = Inr u \<longleftrightarrow> v \<in> set allowed"
  by (simp add: validate_one_of_def bail_if_ok)

lemma string_array_loop_ok:
  "string_array_loop name limit allowed seen vs = Inr u \<Longrightarrow>
    distinct vs \<and> set vs \<inter> seen = {} \<and> (allowed \<noteq> [] \<longrightarrow> set vs \<subseteq> set allowed)"
  by (induction vs arbitrary: seen) (auto simp: rbind_eq_Inr split: if_splits)

lemma validate_string_array_ok:
  "validate_string_array name vs least limit allowed = Inr u \<Longrightarrow>
    least \<le> length vs \<and> distinct vs \<and> (allowed \<noteq> [] \<longrightarrow> set vs \<subseteq> set allowed)"
  by (auto simp: validate_string_array_def not_less dest: string_array_loop_ok split: if_splits)

lemma governance_checks_ok:
  "governance_checks_loop head seen cs = Inr u \<Longrightarrow>
    distinct (map rc_name cs) \<and> rc_name ` set cs \<inter> seen = {}
    \<and> (\<forall>c \<in> set cs. rc_head_sha c = head \<and> is_commit head)"
  by (induction cs arbitrary: seen) (auto simp: rbind_eq_Inr split: if_splits)

lemma validate_envelope_times_ok:
  assumes "validate_envelope_times env e = Inr u"
  shows "\<exists>created expires. pe_rfc3339 env (re_created_at e) = Some created
    \<and> pe_rfc3339 env (re_expires_at e) = Some expires \<and> created < expires
    \<and> (expires - created) div 1000000000 \<le> int (bc_wall_clock_seconds (re_budgets e))"
  using assms by (auto simp: validate_envelope_times_def parse_time_def check_simps not_le)

lemma valid_issue_url_prefix:
  assumes "valid_issue_url trigger"
  shows "prefix (''https://github.com/'' @ tg_repository trigger @ ''/issues'') (tg_canonical_url trigger)"
  using assms by (auto simp: valid_issue_url_def Let_def prefix_def split: if_splits option.splits)

text \<open>The separate results of a passing list of checks.\<close>

lemmas contract_elims = validate_envelope_contract_def validate_candidate_contract_def
  validate_governance_contract_def validate_merge_def Let_def

subsection \<open>An example run\<close>

definition example_envelope :: run_envelope where
  "example_envelope = \<lparr>re_schema = run_envelope_schema, re_run_id = ''repair-0001'',
     re_loop = \<lparr>lc_goal = ''g'', lc_trigger = ''t'', lc_discovery = ''d'', lc_action = ''a'',
       lc_verification = ''v'', lc_state = ''s'', lc_human_gates = ''h''\<rparr>,
     re_trigger = \<lparr>tg_mode = ''explicit_issue'',
       tg_canonical_url = ''https://github.com/acme/tool/issues/7'', tg_repository = ''acme/tool'',
       tg_default_branch = ''main'', tg_pinned_base_commit = replicate 40 CHR ''a''\<rparr>,
     re_discovery = \<lparr>dc_snapshot_limit = 10, dc_candidate_limit = 3, dc_selected_limit = 1\<rparr>,
     re_budgets = \<lparr>bc_wall_clock_seconds = 10, bc_clone_count = 1, bc_test_runs = 2,
       bc_retry_count = 0, bc_repair_count = 1, bc_publication_count = 1\<rparr>,
     re_governance = \<lparr>eg_ownership_class = ''external'',
       eg_allowed_actions = [''push_operator_fork'', ''open_upstream_draft_pr''],
       eg_denied_actions = denied_action_names, eg_sole_control_auto_merge_opt_in = False\<rparr>,
     re_routing = \<lparr>rt_default_branch = ''main'', rt_pinned_base_commit = replicate 40 CHR ''a'',
       rt_fork_owner = JString ''bot'', rt_repair_branch = ''repair/7'',
       rt_protected_path_classes = [''.github/**''], rt_required_checks = [''ci'']\<rparr>,
     re_created_at = ''t1'', re_expires_at = ''t2'', re_canonical_digest = replicate 64 CHR ''d'',
     re_predecessor_digest = JNull,
     re_lineage = \<lparr>lg_kind = ''origin'', lg_predecessor_run_id = JNull, lg_predecessor_digest = JNull\<rparr>,
     re_stop_conditions = [''policy_ambiguity''], re_terminal_statuses = [''completed'', ''blocked'']\<rparr>"

definition example_candidate :: candidate_contract where
  "example_candidate = \<lparr>cc_schema = candidate_decision_schema, cc_run_id = ''repair-0001'',
     cc_repository = ''acme/tool'', cc_base_sha = replicate 40 CHR ''a'', cc_issue_number = 7,
     cc_rank = 1, cc_decision = ''selected'',
     cc_eligibility = \<lparr>el_open_bug = True, el_target_in_repository = True, el_no_existing_fix = True,
       el_current_head_unfixed = True, el_security_sensitive = False,
       el_public_reproduction_feasible = True, el_deterministic_local_reproduction = True,
       el_expected_behavior_grounded = True, el_bounded_policy_compatible = True\<rparr>,
     cc_reason_codes = [''open_bug''], cc_evidence_digests = [replicate 64 CHR ''d''],
     cc_expected_behavior_source = ''tests'', cc_decided_at = ''t1'',
     cc_decision_digest = replicate 64 CHR ''d''\<rparr>"

definition example_governance :: governance_contract where
  "example_governance = \<lparr>gv_schema = governance_schema, gv_run_id = ''repair-0001'',
     gv_repository = ''acme/tool'', gv_base_sha = replicate 40 CHR ''a'',
     gv_head_sha = replicate 40 CHR ''b'', gv_governance_class = ''external'',
     gv_classification_sources = [''unknown_default''], gv_push_target = ''operator_owned_fork'',
     gv_pull_request_mode = ''upstream_draft_only'',
     gv_merge = \<lparr>mg_authorized = False, mg_mode = ''never'', mg_approval_kind = ''none'',
       mg_approval_head_sha = JNull, mg_auto_merge_opt_in = False,
       mg_branch_protection_bypassed = False\<rparr>,
     gv_protected_path_touched = False,
     gv_required_checks = [\<lparr>rc_name = ''ci'', rc_conclusion = ''success'',
       rc_head_sha = replicate 40 CHR ''b''\<rparr>],
     gv_action_digest_required = True, gv_decided_at = ''t1'',
     gv_decision_digest = replicate 64 CHR ''d''\<rparr>"

text \<open>A team decision that authorises a merge.\<close>

definition example_team :: governance_contract where
  "example_team = example_governance\<lparr>gv_governance_class := ''team'',
     gv_push_target := ''policy_authorized_branch'', gv_pull_request_mode := ''draft_or_ready_by_policy'',
     gv_merge := \<lparr>mg_authorized = True, mg_mode = ''merge_queue'', mg_approval_kind = ''codeowner'',
       mg_approval_head_sha = JString (replicate 40 CHR ''b''), mg_auto_merge_opt_in = False,
       mg_branch_protection_bypassed = False\<rparr>\<rparr>"

definition example_reviewer :: reviewer_contract where
  "example_reviewer = \<lparr>rv_schema = reviewer_schema, rv_run_id = ''repair-0001'',
     rv_subject_digest = replicate 64 CHR ''d'', rv_reviewer_id = ''reviewer-2'',
     rv_status = ''independent'', rv_deterministic_tests_primary = True,
     rv_satisfies_team_merge_gate = False, rv_reviewed_at = ''t1'',
     rv_review_digest = replicate 64 CHR ''d''\<rparr>"

lemma example_envelope_valid: "validate_envelope_contract example_base example_envelope = Inr ()"
  by code_simp

lemma example_candidate_valid: "validate_candidate_contract example_base example_candidate = Inr ()"
  by code_simp

lemma example_governance_valid: "validate_governance_contract example_base example_governance = Inr ()"
  by code_simp

lemma example_reviewer_valid: "validate_reviewer_contract example_base example_reviewer = Inr ()"
  by code_simp

subsection \<open>Properties\<close>

text \<open>A run envelope that passes keeps the run inside its limits: it grants at most one
  publication and one repair, its lifetime is positive and within the wall-clock budget, it
  names its issue under its own repository, its allowed and denied actions are distinct
  names of the two vocabularies, automatic merging is allowed only to an opted-in sole
  controller, and an external or unknown owner gets nothing beyond drafts.\<close>

theorem envelope_keeps_the_run_bounded:
  assumes "validate_envelope_contract env e = Inr ()"
  defines "g \<equiv> re_governance e"
  shows "bc_publication_count (re_budgets e) \<le> 1 \<and> bc_repair_count (re_budgets e) \<le> 1
    \<and> (\<exists>created expires. pe_rfc3339 env (re_created_at e) = Some created
        \<and> pe_rfc3339 env (re_expires_at e) = Some expires \<and> created < expires
        \<and> (expires - created) div 1000000000 \<le> int (bc_wall_clock_seconds (re_budgets e)))
    \<and> prefix (''https://github.com/'' @ tg_repository (re_trigger e) @ ''/issues'')
        (tg_canonical_url (re_trigger e))
    \<and> distinct (eg_allowed_actions g) \<and> set (eg_allowed_actions g) \<subseteq> set allowed_action_names
    \<and> distinct (eg_denied_actions g) \<and> set (eg_denied_actions g) \<subseteq> set denied_action_names
    \<and> (''auto_merge'' \<in> set (eg_allowed_actions g) \<longrightarrow>
        eg_ownership_class g = ''sole_control'' \<and> eg_sole_control_auto_merge_opt_in g)
    \<and> (external_or_unknown (eg_ownership_class g) \<longrightarrow>
        set (eg_allowed_actions g) \<inter> {''open_ready_pr'', ''request_merge_queue'', ''auto_merge''} = {})"
proof -
  from assms(1) have budget: "bc_publication_count (re_budgets e) \<le> 1 \<and> bc_repair_count (re_budgets e) \<le> 1"
    and url: "valid_issue_url (re_trigger e)"
    and times: "validate_envelope_times env e = Inr ()"
    and allowed: "validate_string_array ''allowed actions'' (eg_allowed_actions g) 1 128
      allowed_action_names = Inr ()"
    and denied: "validate_string_array ''denied actions'' (eg_denied_actions g) 1 128
      denied_action_names = Inr ()"
    and gov: "validate_envelope_governance g = Inr ()"
    by (simp_all add: contract_elims g_def first_err_Cons_ok bail_if_ok)
  have names: "allowed_action_names \<noteq> []" "denied_action_names \<noteq> []"
    by (simp_all add: allowed_action_names_def denied_action_names_def)
  from gov have "''auto_merge'' \<in> set (eg_allowed_actions g) \<longrightarrow>
        eg_ownership_class g = ''sole_control'' \<and> eg_sole_control_auto_merge_opt_in g"
    and "external_or_unknown (eg_ownership_class g) \<longrightarrow>
        set (eg_allowed_actions g) \<inter> {''open_ready_pr'', ''request_merge_queue'', ''auto_merge''} = {}"
    by (auto simp: validate_envelope_governance_def check_simps list_ex_iff)
  with budget valid_issue_url_prefix [OF url] validate_envelope_times_ok [OF times]
    validate_string_array_ok [OF allowed] validate_string_array_ok [OF denied] names
  show ?thesis by blast
qed

theorem envelope_keeps_the_run_bounded_witness:
  "bc_publication_count (re_budgets example_envelope) \<le> 1
    \<and> ''auto_merge'' \<notin> set (eg_allowed_actions (re_governance example_envelope))"
  using envelope_keeps_the_run_bounded [OF example_envelope_valid]
  by (simp add: example_envelope_def)

text \<open>A governance decision that authorises a merge has earned it: the repository is under
  sole or team control, branch protection is not bypassed, no protected path is touched, there
  are checks, all of them distinct and successful on the exact head, and a team merge has an
  independent approval of that head and goes through the merge queue.\<close>

theorem authorized_merge_is_justified:
  assumes "validate_governance_contract env g = Inr ()" and "mg_authorized (gv_merge g)"
  shows "gv_governance_class g \<in> {''sole_control'', ''team''}
    \<and> \<not> mg_branch_protection_bypassed (gv_merge g) \<and> \<not> gv_protected_path_touched g
    \<and> gv_required_checks g \<noteq> [] \<and> distinct (map rc_name (gv_required_checks g))
    \<and> (\<forall>c \<in> set (gv_required_checks g). rc_conclusion c = ''success'' \<and> rc_head_sha c = gv_head_sha g)
    \<and> (gv_governance_class g = ''team'' \<longrightarrow> mg_mode (gv_merge g) = ''merge_queue''
        \<and> mg_approval_kind (gv_merge g) \<in> {''independent_human'', ''codeowner''}
        \<and> mg_approval_head_sha (gv_merge g) = JString (gv_head_sha g))
    \<and> (mg_mode (gv_merge g) = ''auto_merge'' \<longrightarrow> mg_auto_merge_opt_in (gv_merge g))"
proof -
  from assms(1) have cls: "gv_governance_class g \<in> set ownership_classes"
    and merge: "validate_merge g = Inr ()"
    and checks: "governance_checks_loop (gv_head_sha g) {} (gv_required_checks g) = Inr ()"
    by (simp_all add: validate_governance_contract_def first_err_Cons_ok validate_one_of_ok)
  have head: "as_str v = Some s \<Longrightarrow> v = JString s" for v s
    by (cases v) simp_all
  from merge assms(2) have "\<not> external_or_unknown (gv_governance_class g)"
    and facts: "\<not> mg_branch_protection_bypassed (gv_merge g)" "\<not> gv_protected_path_touched g"
      "merge_checks_pass g"
    and team: "gv_governance_class g = ''team'' \<longrightarrow> mg_mode (gv_merge g) = ''merge_queue''
        \<and> mg_approval_kind (gv_merge g) \<in> {''independent_human'', ''codeowner''}
        \<and> as_str (mg_approval_head_sha (gv_merge g)) = Some (gv_head_sha g)"
    and auto: "gv_governance_class g = ''sole_control'' \<and> mg_mode (gv_merge g) = ''auto_merge''
        \<longrightarrow> mg_auto_merge_opt_in (gv_merge g)"
    by (simp_all add: validate_merge_def Let_def first_err_Cons_ok bail_if_ok)
  then have cls: "gv_governance_class g \<in> {''sole_control'', ''team''}"
    using cls by (auto simp: ownership_classes_def external_or_unknown_def)
  with team auto have "mg_mode (gv_merge g) = ''auto_merge'' \<longrightarrow> mg_auto_merge_opt_in (gv_merge g)"
    by auto
  with cls facts team head governance_checks_ok [OF checks] show ?thesis
    by (auto simp: merge_checks_pass_def list_all_iff)
qed

theorem authorized_merge_is_justified_witness:
  "mg_approval_head_sha (gv_merge example_team) = JString (replicate 40 CHR ''b'')"
proof -
  have "validate_governance_contract example_base example_team = Inr ()" by code_simp
  moreover have "mg_authorized (gv_merge example_team)" by (simp add: example_team_def)
  ultimately have "gv_governance_class example_team = ''team'' \<longrightarrow>
      mg_approval_head_sha (gv_merge example_team) = JString (gv_head_sha example_team)"
    using authorized_merge_is_justified [of example_base example_team] by blast
  then show ?thesis by (simp add: example_team_def example_governance_def)
qed

text \<open>A candidate decision that passes says what its predicates say: it is eligible or
  selected exactly when every positive predicate holds, it is not security sensitive and the
  expected behaviour has a source.\<close>

theorem candidate_decision_matches_its_predicates:
  assumes "validate_candidate_contract env c = Inr ()"
  shows "cc_decision c \<in> {''eligible'', ''selected''} \<longleftrightarrow>
    all_eligible (cc_eligibility c) \<and> cc_expected_behavior_source c \<noteq> ''unavailable''"
proof -
  from assms have "cc_decision c \<in> {''eligible'', ''selected'', ''excluded''}"
    and "cc_decision c \<in> {''eligible'', ''selected''} \<longrightarrow>
      all_eligible (cc_eligibility c) \<and> cc_expected_behavior_source c \<noteq> ''unavailable''"
    and "cc_decision c = ''excluded'' \<longrightarrow>
      \<not> (all_eligible (cc_eligibility c) \<and> cc_expected_behavior_source c \<noteq> ''unavailable'')"
    by (auto simp: validate_candidate_contract_def first_err_Cons_ok bail_if_ok validate_one_of_ok)
  then show ?thesis by blast
qed

theorem candidate_decision_matches_its_predicates_witness:
  "all_eligible (cc_eligibility example_candidate)
    \<and> cc_expected_behavior_source example_candidate \<noteq> ''unavailable''"
proof -
  have "cc_decision example_candidate \<in> {''eligible'', ''selected''}"
    by (simp add: example_candidate_def)
  with candidate_decision_matches_its_predicates [OF example_candidate_valid] show ?thesis by blast
qed

end
