(* ===== verification/Publication_Plan.thy ===== *)
theory Publication_Plan
  imports Publication_Contracts
begin

text \<open>
  The publication plan of \<open>crates/ao2-runtime/src/github_issue_publication.rs\<close>: strict
  decoding, validation of the authority documents against the two GitHub actions, validation
  of the plan and the offline verification.  The serde decoders of the typed contracts and
  the JSON parser (a document in document order and the unread bytes) are fields of
  \<open>pub_env\<close>.
\<close>

record authority_bundle =
  ab_run_envelope :: json
  ab_candidate_decision :: json
  ab_governance_decision :: json
  ab_reviewer_independence :: json

record draft_text =
  dt_title :: string
  dt_body :: string

record publication_plan =
  pp_schema_version :: string
  pp_architecture_contract_commit :: string
  pp_authority :: authority_bundle
  pp_push_action :: github_action
  pp_draft_action :: github_action
  pp_draft :: draft_text

record pub_env = pub_base +
  pe_parse :: "string \<Rightarrow> (json \<times> string) option"
  pe_plan :: "json \<Rightarrow> publication_plan option"
  pe_envelope :: "json \<Rightarrow> run_envelope option"
  pe_candidate :: "json \<Rightarrow> candidate_contract option"
  pe_governance :: "json \<Rightarrow> governance_contract option"
  pe_reviewer :: "json \<Rightarrow> reviewer_contract option"

definition base_env :: "pub_env \<Rightarrow> pub_base" where
  "base_env env = \<lparr>pe_sha256 = pe_sha256 env, pe_to_vec = pe_to_vec env, pe_rfc3339 = pe_rfc3339 env\<rparr>"

subsection \<open>Short-circuit conditions with fallible operands\<close>

fun any_result :: "bool rresult list \<Rightarrow> bool rresult" where
  "any_result [] = Inr False"
| "any_result (r # rs) = rbind r (\<lambda>b. if b then Inr True else any_result rs)"

definition bail_any :: "bool rresult list \<Rightarrow> string \<Rightarrow> unit rresult" where
  "bail_any rs message = rbind (any_result rs) (\<lambda>b. bail_if b message)"

definition differs :: "'a rresult \<Rightarrow> 'a \<Rightarrow> bool rresult" where
  "differs r x = rbind r (\<lambda>y. Inr (y \<noteq> x))"

definition differ :: "'a rresult \<Rightarrow> 'a rresult \<Rightarrow> bool rresult" where
  "differ r s = rbind r (\<lambda>x. rbind s (\<lambda>y. Inr (x \<noteq> y)))"

definition fails :: "bool rresult \<Rightarrow> bool rresult" where
  "fails r = rbind r (\<lambda>b. Inr (\<not> b))"

lemma any_result_ok: "any_result rs = Inr False \<longleftrightarrow> (\<forall>r \<in> set rs. r = Inr False)"
  by (induction rs) (auto simp: rbind_eq_Inr split: if_splits)

lemma bail_any_ok [check_simps]: "bail_any rs m = Inr u \<longleftrightarrow> (\<forall>r \<in> set rs. r = Inr False)"
proof -
  have "bail_any rs m = Inr u \<longleftrightarrow> any_result rs = Inr False"
    by (auto simp: bail_any_def rbind_eq_Inr bail_if_ok)
  then show ?thesis by (simp add: any_result_ok)
qed

lemma differs_ok [check_simps]: "differs r x = Inr False \<longleftrightarrow> r = Inr x"
  by (cases r) (auto simp: differs_def)

lemma differ_ok [check_simps]: "differ r s = Inr False \<longleftrightarrow> (\<exists>x. r = Inr x \<and> s = Inr x)"
  by (cases r; cases s) (auto simp: differ_def)

lemma fails_ok [check_simps]: "fails r = Inr False \<longleftrightarrow> r = Inr True"
  by (cases r) (auto simp: fails_def)

subsection \<open>Decoding\<close>

definition json_space :: "char \<Rightarrow> bool" where
  "json_space c \<longleftrightarrow> c \<in> {CHR '' '', CHR 0x09, CHR 0x0A, CHR 0x0D}"

definition decode_publication_plan_strict :: "pub_env \<Rightarrow> string \<Rightarrow> publication_plan rresult" where
  "decode_publication_plan_strict env bytes =
     rbind (with_context ''publication plan is not strict duplicate-free JSON'' (pe_parse env bytes))
       (\<lambda>(doc, rest).
     rbind (case unique_json doc of
         Inl _ \<Rightarrow> Inl ''publication plan is not strict duplicate-free JSON'' | Inr v \<Rightarrow> Inr v) (\<lambda>v.
     rbind (bail_if (\<not> list_all json_space rest) ''publication plan contains trailing JSON'') (\<lambda>_.
     with_context ''publication plan does not match the strict typed contract'' (pe_plan env v))))"

subsection \<open>Authority documents\<close>

definition validate_authority_digest ::
    "pub_env \<Rightarrow> json \<Rightarrow> string \<Rightarrow> string \<Rightarrow> unit rresult" where
  "validate_authority_digest env v schema digest_field =
     rbind (differs (json_string v [''schema'']) schema) (\<lambda>other.
     rbind (bail_if other ''authority document schema is invalid'') (\<lambda>_.
     rbind (json_string v [digest_field]) (\<lambda>expected.
     rbind (with_context ''authority document must be a JSON object'' (as_object v)) (\<lambda>fs.
     bail_if (\<not> is_sha256 expected
         \<or> canonical_json_sha256 (pe_sha256 env) (pe_to_vec env) (JObject (bt_remove digest_field fs))
           \<noteq> expected)
       ''authority document canonical digest is invalid''))))"

definition validate_full_authority_contracts :: "pub_env \<Rightarrow> authority_bundle \<Rightarrow> unit rresult" where
  "validate_full_authority_contracts env authority =
     rbind (with_context ''run envelope does not match the strict pinned Architecture schema''
       (pe_envelope env (ab_run_envelope authority))) (\<lambda>envelope.
     rbind (with_context ''candidate decision does not match the strict pinned Architecture schema''
       (pe_candidate env (ab_candidate_decision authority))) (\<lambda>candidate.
     rbind (with_context ''governance decision does not match the strict pinned Architecture schema''
       (pe_governance env (ab_governance_decision authority))) (\<lambda>governance.
     rbind (with_context ''reviewer decision does not match the strict pinned Architecture schema''
       (pe_reviewer env (ab_reviewer_independence authority))) (\<lambda>reviewer.
     rbind (validate_envelope_contract (base_env env) envelope) (\<lambda>_.
     rbind (validate_candidate_contract (base_env env) candidate) (\<lambda>_.
     rbind (validate_governance_contract (base_env env) governance) (\<lambda>_.
     validate_reviewer_contract (base_env env) reviewer)))))))"

definition authority_digests :: "pub_env \<Rightarrow> authority_bundle \<Rightarrow> unit rresult" where
  "authority_digests env a = first_err
     [validate_authority_digest env (ab_run_envelope a) run_envelope_schema ''canonical_digest'',
      validate_authority_digest env (ab_candidate_decision a) candidate_decision_schema ''decision_digest'',
      validate_authority_digest env (ab_governance_decision a) governance_schema ''decision_digest'',
      validate_authority_digest env (ab_reviewer_independence a) reviewer_schema ''review_digest'']"

definition action_binds_documents :: "authority_bundle \<Rightarrow> github_action \<Rightarrow> unit rresult" where
  "action_binds_documents a action = bail_any
     [differs (json_string (ab_run_envelope a) [''canonical_digest'']) (ga_run_envelope_digest action),
      differs (json_string (ab_candidate_decision a) [''decision_digest''])
        (ga_candidate_decision_digest action),
      differs (json_string (ab_governance_decision a) [''decision_digest''])
        (ga_governance_decision_digest action),
      differs (json_string (ab_reviewer_independence a) [''review_digest''])
        (ga_reviewer_independence_digest action)]
     ''GitHub action does not bind the exact authority document digests''"

definition run_ids_agree :: "authority_bundle \<Rightarrow> github_action \<Rightarrow> unit rresult" where
  "run_ids_agree a push =
     rbind (map_result (\<lambda>doc. json_string doc [''run_id''])
       [ab_run_envelope a, ab_candidate_decision a, ab_governance_decision a, ab_reviewer_independence a])
     (\<lambda>ids. bail_if (list_ex (\<lambda>i. i \<noteq> ga_run_id push) ids)
       ''publication run_id does not match every authority document'')"

definition candidate_selected :: "authority_bundle \<Rightarrow> github_action \<Rightarrow> unit rresult" where
  "candidate_selected a push = bail_any
     [differs (json_string (ab_run_envelope a) [''trigger'', ''repository'']) (ga_repository push),
      differs (json_string (ab_candidate_decision a) [''repository'']) (ga_repository push),
      differs (json_string (ab_governance_decision a) [''repository'']) (ga_repository push),
      differs (json_u64 (ab_candidate_decision a) [''issue_number'']) (ga_issue_number push),
      differs (json_string (ab_candidate_decision a) [''decision'']) ''selected'']
     ''publication repository or selected candidate authority drifted''"

definition eligibility_fields :: "string list" where
  "eligibility_fields =
     [''open_bug'', ''target_in_repository'', ''no_existing_fix'', ''current_head_unfixed'',
      ''public_reproduction_feasible'', ''deterministic_local_reproduction'',
      ''expected_behavior_grounded'', ''bounded_policy_compatible'']"

definition candidate_eligible :: "authority_bundle \<Rightarrow> unit rresult" where
  "candidate_eligible a =
     rbind (first_err (map (\<lambda>field.
         rbind (json_bool (ab_candidate_decision a) [''eligibility'', field]) (\<lambda>b.
         bail_if (\<not> b) ''selected candidate has a failing publication eligibility predicate''))
       eligibility_fields)) (\<lambda>_.
     rbind (json_bool (ab_candidate_decision a) [''eligibility'', ''security_sensitive'']) (\<lambda>b.
     bail_if b ''security-sensitive candidate cannot use this publication path''))"

definition commits_agree :: "authority_bundle \<Rightarrow> github_action \<Rightarrow> unit rresult" where
  "commits_agree a push = first_err
     [bail_any [differs (json_string (ab_run_envelope a) [''trigger'', ''pinned_base_commit''])
          (ga_base_sha push)]
        ''publication base SHA does not match the run envelope'',
      bail_any [differs (json_string (ab_run_envelope a) [''routing'', ''pinned_base_commit''])
          (ga_base_sha push)]
        ''publication base SHA does not match the run envelope'',
      bail_any
        [differs (json_string (ab_candidate_decision a) [''base_sha'']) (ga_base_sha push),
         differs (json_string (ab_governance_decision a) [''base_sha'']) (ga_base_sha push),
         differs (json_string (ab_governance_decision a) [''head_sha'']) (ga_head_sha push)]
        ''publication commit authority drifted'',
      bail_any [differ (json_string (ab_run_envelope a) [''trigger'', ''default_branch''])
          (json_string (ab_run_envelope a) [''routing'', ''default_branch''])]
        ''run envelope default branch fields disagree'']"

definition fork_is_routed :: "authority_bundle \<Rightarrow> github_action \<Rightarrow> unit rresult" where
  "fork_is_routed a push =
     rbind (json_string (ab_run_envelope a) [''routing'', ''fork_owner'']) (\<lambda>fork_owner.
     rbind (split_repository (ga_repository push)) (\<lambda>(_, repository_name).
     let expected_fork = fork_owner @ ''/'' @ repository_name in
     bail_any
       [Inr (ga_fork push \<noteq> Some expected_fork),
        differs (json_string (ab_run_envelope a) [''routing'', ''repair_branch'']) (ga_branch push)]
       ''publication fork or branch does not match the run envelope''))"

definition envelope_is_draft_only :: "authority_bundle \<Rightarrow> unit rresult" where
  "envelope_is_draft_only a =
     rbind (json_strings (ab_run_envelope a) [''governance'', ''allowed_actions'']) (\<lambda>allowed.
     rbind (json_strings (ab_run_envelope a) [''governance'', ''denied_actions'']) (\<lambda>denied.
     bail_any
       [Inr (''push_operator_fork'' \<notin> set allowed), Inr (''open_upstream_draft_pr'' \<notin> set allowed),
        Inr (list_ex (\<lambda>v. v \<notin> set denied) denied_action_names),
        json_bool (ab_run_envelope a) [''governance'', ''sole_control_auto_merge_opt_in'']]
       ''run envelope does not preserve fork-only draft publication boundaries''))"

definition governance_is_draft_only :: "authority_bundle \<Rightarrow> unit rresult" where
  "governance_is_draft_only a = first_err
     [bail_any [differ (json_string (ab_run_envelope a) [''governance'', ''ownership_class''])
          (json_string (ab_governance_decision a) [''governance_class''])]
        ''governance class does not match the run envelope'',
      bail_any
        [differs (json_string (ab_governance_decision a) [''push_target'']) ''operator_owned_fork'',
         differs (json_string (ab_governance_decision a) [''pull_request_mode'']) ''upstream_draft_only'',
         json_bool (ab_governance_decision a) [''merge'', ''authorized''],
         differs (json_string (ab_governance_decision a) [''merge'', ''mode'']) ''never'',
         json_bool (ab_governance_decision a) [''merge'', ''branch_protection_bypassed''],
         fails (json_bool (ab_governance_decision a) [''action_digest_required''])]
        ''governance authority does not require fork-only draft publication'']"

definition checks_agree :: "publication_plan \<Rightarrow> unit rresult" where
  "checks_agree plan =
     (let a = pp_authority plan; push = pp_push_action plan in
      rbind (json_strings (ab_run_envelope a) [''routing'', ''required_checks'']) (\<lambda>expected_checks.
      rbind (json_at (ab_governance_decision a) [''required_checks'']) (\<lambda>listed.
      rbind (with_context ''authority checks must be an array'' (as_array listed)) (\<lambda>entries.
      rbind (json_checks (ab_governance_decision a) [''required_checks'']) (\<lambda>governance_checks.
      let action_checks = btree_set (map rc_name (ga_required_checks push)) in
      bail_if (expected_checks \<noteq> action_checks \<or> governance_checks \<noteq> action_checks
          \<or> length entries \<noteq> length action_checks
          \<or> ga_required_checks (pp_draft_action plan) \<noteq> ga_required_checks push)
        ''authority documents do not bind the exact successful checks'')))))"

definition review_binds_diff :: "authority_bundle \<Rightarrow> github_action \<Rightarrow> unit rresult" where
  "review_binds_diff a push = bail_any
     [differs (json_string (ab_reviewer_independence a) [''subject_digest'']) (ga_diff_digest push),
      differs (json_string (ab_reviewer_independence a) [''status'']) ''independent'',
      fails (json_bool (ab_reviewer_independence a) [''deterministic_tests_primary''])]
     ''independent review authority does not bind the exact diff''"

definition document_time :: "pub_env \<Rightarrow> json \<Rightarrow> string \<Rightarrow> string \<Rightarrow> timestamp rresult" where
  "document_time env doc name field = rbind (json_string doc [field]) (parse_time (base_env env) name)"

definition approvals_in_window :: "pub_env \<Rightarrow> publication_plan \<Rightarrow> unit rresult" where
  "approvals_in_window env plan =
     (let a = pp_authority plan; push = pp_push_action plan; draft = pp_draft_action plan in
      rbind (document_time env (ab_run_envelope a) ''run envelope created_at'' ''created_at'') (\<lambda>created.
      rbind (map_result (\<lambda>(doc, field). document_time env doc field field)
        [(ab_candidate_decision a, ''decided_at''), (ab_governance_decision a, ''decided_at''),
         (ab_reviewer_independence a, ''reviewed_at'')]) (\<lambda>evidence.
      rbind (bail_if (list_ex (\<lambda>t. t < created) evidence)
        ''authority decision predates run envelope creation'') (\<lambda>_.
      rbind (first_err (map (\<lambda>action.
          rbind (parse_time (base_env env) ''approved_at'' (ga_approved_at action)) (\<lambda>approved.
          bail_if (approved < created \<or> list_ex (\<lambda>t. t > approved) evidence)
            ''publication approval predates its run envelope or an authority decision''))
        [push, draft])) (\<lambda>_.
      rbind (document_time env (ab_run_envelope a) ''run envelope expires_at'' ''expires_at'') (\<lambda>expiry.
      bail_any
        [rbind (parse_time (base_env env) ''action expires_at'' (ga_expires_at push)) (\<lambda>t. Inr (t > expiry)),
         rbind (parse_time (base_env env) ''draft expires_at'' (ga_expires_at draft)) (\<lambda>t. Inr (t > expiry))]
        ''publication action outlives its run envelope''))))))"

definition validate_authority :: "pub_env \<Rightarrow> publication_plan \<Rightarrow> unit rresult" where
  "validate_authority env plan =
     (let a = pp_authority plan; push = pp_push_action plan in first_err
      [authority_digests env a,
       validate_full_authority_contracts env a,
       first_err (map (action_binds_documents a) [push, pp_draft_action plan]),
       run_ids_agree a push,
       candidate_selected a push,
       candidate_eligible a,
       commits_agree a push,
       fork_is_routed a push,
       envelope_is_draft_only a,
       governance_is_draft_only a,
       checks_agree plan,
       review_binds_diff a push,
       approvals_in_window env plan])"

subsection \<open>The plan\<close>

text \<open>An action without its operation, digest and approval times.\<close>

definition publication_identity :: "github_action \<Rightarrow> github_action" where
  "publication_identity a =
     a\<lparr>ga_action := [], ga_action_digest := [], ga_approved_at := [], ga_expires_at := []\<rparr>"

definition validate_plan ::
    "pub_env \<Rightarrow> publication_plan \<Rightarrow> string \<Rightarrow> string \<Rightarrow> timestamp \<Rightarrow> unit rresult" where
  "validate_plan env plan expected_push expected_draft now = first_err
     [bail_if (\<not> is_sha256 expected_push \<or> \<not> is_sha256 expected_draft)
        ''expected action digests must be 64 lowercase hexadecimal characters'',
      bail_if (pp_schema_version plan \<noteq> ''ao2.github-repair-publication-plan.v1'')
        ''publication plan schema_version is invalid'',
      bail_if (pp_architecture_contract_commit plan \<noteq> architecture_contract_commit)
        ''publication plan Architecture contract commit is not the exact supported producer'',
      validate_authority env plan,
      validate_action (base_env env) (pp_push_action plan) ''push_operator_fork'' expected_push now,
      validate_action (base_env env) (pp_draft_action plan) ''open_upstream_draft_pr'' expected_draft now,
      bail_if (ga_action_digest (pp_push_action plan) = ga_action_digest (pp_draft_action plan))
        ''push and draft actions must have distinct exact digests'',
      bail_if (publication_identity (pp_push_action plan) \<noteq> publication_identity (pp_draft_action plan))
        ''push and draft actions do not bind the same publication identity'',
      validate_text ''draft title'' (dt_title (pp_draft plan)) max_title_bytes,
      validate_text ''draft body'' (dt_body (pp_draft plan)) max_body_bytes,
      bail_if (pe_sha256 env (dt_title (pp_draft plan)) \<noteq> ga_pr_title_digest (pp_push_action plan)
          \<or> pe_sha256 env (dt_body (pp_draft plan)) \<noteq> ga_pr_body_digest (pp_push_action plan))
        ''draft title or body does not match the exact action digest binding'']"

record verify_readback =
  vr_schema_version :: string
  vr_status :: string
  vr_repository :: string
  vr_fork :: string
  vr_branch :: string
  vr_head_sha :: string
  vr_push_action_digest :: string
  vr_draft_action_digest :: string
  vr_github_contacted :: bool
  vr_git_write_performed :: bool
  vr_draft_pr_write_performed :: bool
  vr_merge_performed :: bool

definition verify_publication_plan ::
    "pub_env \<Rightarrow> publication_plan \<Rightarrow> string \<Rightarrow> string \<Rightarrow> timestamp \<Rightarrow> verify_readback rresult" where
  "verify_publication_plan env plan expected_push expected_draft now =
     rbind (validate_plan env plan expected_push expected_draft now) (\<lambda>_. Inr
       \<lparr>vr_schema_version = ''ao2.github-repair-publication-verification.v1'', vr_status = ''passed'',
        vr_repository = ga_repository (pp_push_action plan),
        vr_fork = (case ga_fork (pp_push_action plan) of None \<Rightarrow> [] | Some f \<Rightarrow> f),
        vr_branch = ga_branch (pp_push_action plan), vr_head_sha = ga_head_sha (pp_push_action plan),
        vr_push_action_digest = ga_action_digest (pp_push_action plan),
        vr_draft_action_digest = ga_action_digest (pp_draft_action plan),
        vr_github_contacted = False, vr_git_write_performed = False,
        vr_draft_pr_write_performed = False, vr_merge_performed = False\<rparr>)"

subsection \<open>Lemmas\<close>

text \<open>What a valid plan gives, one fact per rule.\<close>

lemma validate_plan_ok:
  assumes "validate_plan env plan expected_push expected_draft now = Inr ()"
  shows "validate_authority env plan = Inr ()"
    and "validate_action (base_env env) (pp_push_action plan) ''push_operator_fork'' expected_push now
      = Inr ()"
    and "validate_action (base_env env) (pp_draft_action plan) ''open_upstream_draft_pr''
      expected_draft now = Inr ()"
    and "ga_action_digest (pp_push_action plan) \<noteq> ga_action_digest (pp_draft_action plan)"
    and "publication_identity (pp_push_action plan) = publication_identity (pp_draft_action plan)"
    and "pe_sha256 env (dt_title (pp_draft plan)) = ga_pr_title_digest (pp_push_action plan)"
    and "pe_sha256 env (dt_body (pp_draft plan)) = ga_pr_body_digest (pp_push_action plan)"
  using assms by (simp_all add: validate_plan_def first_err_Cons_ok bail_if_ok)

lemma validate_authority_ok:
  assumes "validate_authority env plan = Inr ()"
  shows "candidate_selected (pp_authority plan) (pp_push_action plan) = Inr ()"
    and "candidate_eligible (pp_authority plan) = Inr ()"
    and "commits_agree (pp_authority plan) (pp_push_action plan) = Inr ()"
    and "fork_is_routed (pp_authority plan) (pp_push_action plan) = Inr ()"
    and "envelope_is_draft_only (pp_authority plan) = Inr ()"
    and "governance_is_draft_only (pp_authority plan) = Inr ()"
    and "checks_agree plan = Inr ()"
    and "review_binds_diff (pp_authority plan) (pp_push_action plan) = Inr ()"
    and "approvals_in_window env plan = Inr ()"
  using assms by (simp_all add: validate_authority_def Let_def first_err_Cons_ok)

text \<open>Equal identities agree on everything the identity keeps.\<close>

lemma publication_identity_fields:
  assumes "publication_identity a = publication_identity b"
  shows "ga_repository a = ga_repository b \<and> ga_issue_number a = ga_issue_number b
    \<and> ga_base_sha a = ga_base_sha b \<and> ga_head_sha a = ga_head_sha b \<and> ga_fork a = ga_fork b
    \<and> ga_branch a = ga_branch b \<and> ga_pr_title_digest a = ga_pr_title_digest b
    \<and> ga_pr_body_digest a = ga_pr_body_digest b \<and> ga_diff_digest a = ga_diff_digest b
    \<and> ga_required_checks a = ga_required_checks b"
  using assms by (cases a; cases b) (simp add: publication_identity_def)

lemma approvals_in_window_ok:
  assumes "approvals_in_window env plan = Inr ()"
    and "action = pp_push_action plan \<or> action = pp_draft_action plan"
    and "(doc, field) \<in> {(ab_candidate_decision (pp_authority plan), ''decided_at''),
      (ab_governance_decision (pp_authority plan), ''decided_at''),
      (ab_reviewer_independence (pp_authority plan), ''reviewed_at'')}"
  shows "\<exists>created decided approved expires expiry.
    document_time env (ab_run_envelope (pp_authority plan)) ''run envelope created_at'' ''created_at''
      = Inr created
    \<and> document_time env doc field field = Inr decided
    \<and> pe_rfc3339 env (ga_approved_at action) = Some approved
    \<and> pe_rfc3339 env (ga_expires_at action) = Some expires
    \<and> document_time env (ab_run_envelope (pp_authority plan)) ''run envelope expires_at'' ''expires_at''
      = Inr expiry
    \<and> created \<le> decided \<and> decided \<le> approved \<and> expires \<le> expiry"
proof -
  let ?pairs = "[(ab_candidate_decision (pp_authority plan), ''decided_at''),
      (ab_governance_decision (pp_authority plan), ''decided_at''),
      (ab_reviewer_independence (pp_authority plan), ''reviewed_at'')]"
  from assms(1) obtain created evidence expiry where
    created: "document_time env (ab_run_envelope (pp_authority plan)) ''run envelope created_at''
      ''created_at'' = Inr created"
    and ev: "map_result (\<lambda>(doc, field). document_time env doc field field) ?pairs = Inr evidence"
    and early: "\<forall>t \<in> set evidence. \<not> t < created"
    and appr: "\<forall>x \<in> {pp_push_action plan, pp_draft_action plan}. \<exists>approved.
      parse_time (base_env env) ''approved_at'' (ga_approved_at x) = Inr approved
      \<and> (\<forall>t \<in> set evidence. \<not> t > approved)"
    and expiry: "document_time env (ab_run_envelope (pp_authority plan)) ''run envelope expires_at''
      ''expires_at'' = Inr expiry"
    and late: "\<forall>x \<in> {pp_push_action plan, pp_draft_action plan}. \<exists>name t.
      parse_time (base_env env) name (ga_expires_at x) = Inr t \<and> \<not> t > expiry"
    by (auto simp: approvals_in_window_def Let_def check_simps list_ex_iff simp del: map_result.simps)
      blast
  from assms(3) have "(doc, field) \<in> set ?pairs" by simp
  from map_result_mem [OF ev this] obtain decided where
    decided: "document_time env doc field field = Inr decided" "decided \<in> set evidence"
    by auto
  from appr assms(2) obtain approved where "parse_time (base_env env) ''approved_at''
      (ga_approved_at action) = Inr approved" "decided \<le> approved"
    using decided(2) by (metis insertCI not_le)
  moreover from late assms(2) obtain name t where
    "parse_time (base_env env) name (ga_expires_at action) = Inr t" "t \<le> expiry"
    by (metis insertCI not_le)
  moreover have "created \<le> decided" using early decided(2) by (meson not_le)
  ultimately show ?thesis
    using created decided(1) expiry
    by (auto simp: parse_time_def with_context_ok base_env_def)
qed

subsection \<open>An example plan\<close>

definition hex64 :: "char \<Rightarrow> json" where
  "hex64 c = JString (replicate 64 c)"

definition hex40 :: "char \<Rightarrow> json" where
  "hex40 c = JString (replicate 40 c)"

definition example_authority :: authority_bundle where
  "example_authority = \<lparr>
     ab_run_envelope = JObject
       [(''canonical_digest'', hex64 CHR ''d''), (''created_at'', JString ''t1''),
        (''expires_at'', JString ''t2''),
        (''governance'', JObject
           [(''allowed_actions'', JArray [JString ''push_operator_fork'', JString ''open_upstream_draft_pr'']),
            (''denied_actions'', JArray (map JString denied_action_names)),
            (''ownership_class'', JString ''external''),
            (''sole_control_auto_merge_opt_in'', JBool False)]),
        (''routing'', JObject
           [(''default_branch'', JString ''main''), (''fork_owner'', JString ''bot''),
            (''pinned_base_commit'', hex40 CHR ''a''),
            (''protected_path_classes'', JArray [JString ''.github/**'']),
            (''repair_branch'', JString ''repair/7''), (''required_checks'', JArray [JString ''ci''])]),
        (''run_id'', JString ''repair-0001''), (''schema'', JString run_envelope_schema),
        (''trigger'', JObject
           [(''default_branch'', JString ''main''), (''pinned_base_commit'', hex40 CHR ''a''),
            (''repository'', JString ''acme/tool'')])],
     ab_candidate_decision = JObject
       [(''base_sha'', hex40 CHR ''a''), (''decided_at'', JString ''t1''),
        (''decision'', JString ''selected''), (''decision_digest'', hex64 CHR ''d''),
        (''eligibility'', JObject
           [(''bounded_policy_compatible'', JBool True), (''current_head_unfixed'', JBool True),
            (''deterministic_local_reproduction'', JBool True),
            (''expected_behavior_grounded'', JBool True), (''no_existing_fix'', JBool True),
            (''open_bug'', JBool True), (''public_reproduction_feasible'', JBool True),
            (''security_sensitive'', JBool False), (''target_in_repository'', JBool True)]),
        (''issue_number'', JNumber (PosInt 7)), (''repository'', JString ''acme/tool''),
        (''run_id'', JString ''repair-0001''), (''schema'', JString candidate_decision_schema)],
     ab_governance_decision = JObject
       [(''action_digest_required'', JBool True), (''base_sha'', hex40 CHR ''a''),
        (''decided_at'', JString ''t1''), (''decision_digest'', hex64 CHR ''d''),
        (''governance_class'', JString ''external''), (''head_sha'', hex40 CHR ''b''),
        (''merge'', JObject [(''authorized'', JBool False),
           (''branch_protection_bypassed'', JBool False), (''mode'', JString ''never'')]),
        (''protected_path_touched'', JBool False),
        (''pull_request_mode'', JString ''upstream_draft_only''),
        (''push_target'', JString ''operator_owned_fork''), (''repository'', JString ''acme/tool''),
        (''required_checks'', JArray [JObject [(''conclusion'', JString ''success''),
           (''head_sha'', hex40 CHR ''b''), (''name'', JString ''ci'')]]),
        (''run_id'', JString ''repair-0001''), (''schema'', JString governance_schema)],
     ab_reviewer_independence = JObject
       [(''deterministic_tests_primary'', JBool True), (''review_digest'', hex64 CHR ''d''),
        (''reviewed_at'', JString ''t1''), (''run_id'', JString ''repair-0001''),
        (''schema'', JString reviewer_schema), (''status'', JString ''independent''),
        (''subject_digest'', hex64 CHR ''d'')]\<rparr>"

definition example_draft :: github_action where
  "example_draft = example_push\<lparr>ga_action := ''open_upstream_draft_pr'',
     ga_action_digest := replicate 64 CHR ''e''\<rparr>"

definition example_plan_doc :: publication_plan where
  "example_plan_doc = \<lparr>pp_schema_version = ''ao2.github-repair-publication-plan.v1'',
     pp_architecture_contract_commit = architecture_contract_commit,
     pp_authority = example_authority, pp_push_action = example_push,
     pp_draft_action = example_draft, pp_draft = \<lparr>dt_title = ''Fix'', dt_body = ''Body''\<rparr>\<rparr>"

definition example_sha256 :: "string \<Rightarrow> string" where
  "example_sha256 s = replicate 64 (if s = ''draft'' then CHR ''e'' else CHR ''d'')"

definition example_to_vec :: "json \<Rightarrow> string" where
  "example_to_vec v =
     (if json_get v ''action'' = Some (JString ''open_upstream_draft_pr'') then ''draft'' else [])"

definition example_env :: pub_env where
  "example_env = \<lparr>pe_sha256 = example_sha256, pe_to_vec = example_to_vec,
     pe_rfc3339 = example_clock, pe_parse = Map.empty, pe_plan = Map.empty,
     pe_envelope = (\<lambda>_. Some example_envelope), pe_candidate = (\<lambda>_. Some example_candidate),
     pe_governance = (\<lambda>_. Some example_governance), pe_reviewer = (\<lambda>_. Some example_reviewer)\<rparr>"

text \<open>The contracts use the environment only to read times.\<close>

lemma example_contracts_valid:
  "validate_full_authority_contracts example_env example_authority = Inr ()"
proof -
  have clock: "parse_time (base_env example_env) = parse_time example_base"
    by (intro ext) (simp add: parse_time_def base_env_def example_env_def example_base_def)
  have "validate_envelope_contract (base_env example_env) = validate_envelope_contract example_base"
    and "validate_candidate_contract (base_env example_env) = validate_candidate_contract example_base"
    and "validate_governance_contract (base_env example_env) = validate_governance_contract example_base"
    and "validate_reviewer_contract (base_env example_env) = validate_reviewer_contract example_base"
    by (intro ext; simp add: validate_envelope_contract_def validate_envelope_times_def
        validate_candidate_contract_def validate_governance_contract_def
        validate_reviewer_contract_def clock)+
  then show ?thesis
    using example_envelope_valid example_candidate_valid example_governance_valid example_reviewer_valid
    by (simp add: validate_full_authority_contracts_def example_env_def with_context_def)
qed

lemma example_digests_valid: "authority_digests example_env example_authority = Inr ()"
  by code_simp

lemma example_documents_agree:
  "first_err (map (action_binds_documents example_authority) [example_push, example_draft]) = Inr ()"
  "run_ids_agree example_authority example_push = Inr ()"
  "candidate_selected example_authority example_push = Inr ()"
  "candidate_eligible example_authority = Inr ()"
  "commits_agree example_authority example_push = Inr ()"
  "fork_is_routed example_authority example_push = Inr ()"
  by code_simp+

lemma example_rules_agree:
  "envelope_is_draft_only example_authority = Inr ()"
  "governance_is_draft_only example_authority = Inr ()"
  "checks_agree example_plan_doc = Inr ()"
  "review_binds_diff example_authority example_push = Inr ()"
  "approvals_in_window example_env example_plan_doc = Inr ()"
  by code_simp+

lemma example_plan_fields [simp]:
  "pp_authority example_plan_doc = example_authority"
  "pp_push_action example_plan_doc = example_push"
  "pp_draft_action example_plan_doc = example_draft"
  "dt_title (pp_draft example_plan_doc) = ''Fix''" "dt_body (pp_draft example_plan_doc) = ''Body''"
  "pp_schema_version example_plan_doc = ''ao2.github-repair-publication-plan.v1''"
  "pp_architecture_contract_commit example_plan_doc = architecture_contract_commit"
  by (simp_all add: example_plan_doc_def)

lemma example_actions_valid:
  "validate_action (base_env example_env) example_push ''push_operator_fork''
    (replicate 64 CHR ''d'') 2000 = Inr ()"
  "validate_action (base_env example_env) example_draft ''open_upstream_draft_pr''
    (replicate 64 CHR ''e'') 2000 = Inr ()"
  by code_simp+

lemma example_plan_valid:
  "validate_plan example_env example_plan_doc (replicate 64 CHR ''d'') (replicate 64 CHR ''e'') 2000
    = Inr ()"
proof -
  have "validate_authority example_env example_plan_doc = Inr ()"
    using example_contracts_valid example_digests_valid example_documents_agree example_rules_agree
    by (simp add: validate_authority_def Let_def first_err_Cons_ok)
  moreover have "is_sha256 (replicate 64 CHR ''d'')" and "is_sha256 (replicate 64 CHR ''e'')"
    and "ga_action_digest example_push \<noteq> ga_action_digest example_draft"
    and "publication_identity example_push = publication_identity example_draft"
    and "trim ''Fix'' \<noteq> []" and "trim ''Body'' \<noteq> []"
    and "pe_sha256 example_env ''Fix'' = ga_pr_title_digest example_push"
    and "pe_sha256 example_env ''Body'' = ga_pr_body_digest example_push"
    by code_simp+
  ultimately show ?thesis
    using example_actions_valid
    by (simp add: validate_plan_def validate_text_def max_title_bytes_def max_body_bytes_def
        bail_if_def byte_def first_err_Cons_ok)
qed

subsection \<open>Properties\<close>

text \<open>C30: A valid publication plan authorises a fork push and a draft, and nothing else: the
  candidate is selected and not security sensitive, the envelope denies every stronger
  action, the governance decision authorises no merge and asks for an operator-owned fork
  and a draft, the fork is the routed owner's copy of the repository, the two actions share
  one publication identity and differ in digest, and title and body are the digested ones.\<close>

theorem valid_plan_authorizes_only_a_draft:
  assumes "validate_plan env plan expected_push expected_draft now = Inr ()"
    and "a = pp_authority plan" and "push = pp_push_action plan" and "draft = pp_draft_action plan"
  shows "json_string (ab_candidate_decision a) [''decision''] = Inr ''selected''
    \<and> json_bool (ab_candidate_decision a) [''eligibility'', ''security_sensitive''] = Inr False
    \<and> (\<exists>denied. json_strings (ab_run_envelope a) [''governance'', ''denied_actions''] = Inr denied
        \<and> set denied_action_names \<subseteq> set denied)
    \<and> json_bool (ab_governance_decision a) [''merge'', ''authorized''] = Inr False
    \<and> json_string (ab_governance_decision a) [''push_target''] = Inr ''operator_owned_fork''
    \<and> json_string (ab_governance_decision a) [''pull_request_mode''] = Inr ''upstream_draft_only''
    \<and> (\<exists>fork_owner owner name. json_string (ab_run_envelope a) [''routing'', ''fork_owner''] = Inr fork_owner
        \<and> split_repository (ga_repository push) = Inr (owner, name)
        \<and> ga_fork push = Some (fork_owner @ ''/'' @ name))
    \<and> ga_action push = ''push_operator_fork'' \<and> ga_action draft = ''open_upstream_draft_pr''
    \<and> ga_action_digest push = expected_push \<and> ga_action_digest draft = expected_draft
    \<and> expected_push \<noteq> expected_draft
    \<and> publication_identity push = publication_identity draft
    \<and> pe_sha256 env (dt_title (pp_draft plan)) = ga_pr_title_digest draft
    \<and> pe_sha256 env (dt_body (pp_draft plan)) = ga_pr_body_digest draft"
proof -
  note plan = validate_plan_ok [OF assms(1)]
  note auth = validate_authority_ok [OF plan(1)]
  note push = validate_action_ok [OF plan(2)] and draft = validate_action_ok [OF plan(3)]
  have "json_string (ab_candidate_decision a) [''decision''] = Inr ''selected''"
    using auth(1) by (simp add: assms(2) candidate_selected_def bail_any_ok differs_ok)
  moreover have "json_bool (ab_candidate_decision a) [''eligibility'', ''security_sensitive''] = Inr False"
    using auth(2) by (auto simp: assms(2) candidate_eligible_def rbind_eq_Inr bail_if_ok)
  moreover have "\<exists>denied. json_strings (ab_run_envelope a) [''governance'', ''denied_actions''] = Inr denied
        \<and> set denied_action_names \<subseteq> set denied"
    using auth(5) by (auto simp: assms(2) envelope_is_draft_only_def rbind_eq_Inr bail_any_ok list_ex_iff)
  moreover have "json_bool (ab_governance_decision a) [''merge'', ''authorized''] = Inr False
    \<and> json_string (ab_governance_decision a) [''push_target''] = Inr ''operator_owned_fork''
    \<and> json_string (ab_governance_decision a) [''pull_request_mode''] = Inr ''upstream_draft_only''"
    using auth(6)
    by (simp add: assms(2) governance_is_draft_only_def first_err_Cons_ok bail_any_ok differs_ok)
  moreover have "\<exists>fork_owner owner name.
      json_string (ab_run_envelope a) [''routing'', ''fork_owner''] = Inr fork_owner
        \<and> split_repository (ga_repository push) = Inr (owner, name)
        \<and> ga_fork push = Some (fork_owner @ ''/'' @ name)"
    using auth(4) by (fastforce simp: assms(2,3) fork_is_routed_def rbind_eq_Inr bail_any_ok Let_def
        split: prod.splits)
  ultimately show ?thesis
    using plan push(1,2) draft(1,2) publication_identity_fields [OF plan(5)] by (simp add: assms(2-4))
qed

theorem valid_plan_authorizes_only_a_draft_witness:
  "ga_fork example_push = Some (''bot'' @ ''/'' @ ''tool'')
    \<and> publication_identity example_push = publication_identity example_draft"
proof -
  have "split_repository (ga_repository example_push) = Inr (''acme'', ''tool'')"
    and "json_string (ab_run_envelope example_authority) [''routing'', ''fork_owner''] = Inr ''bot''"
    by code_simp+
  with valid_plan_authorizes_only_a_draft [OF example_plan_valid refl refl refl]
  show ?thesis by auto
qed

text \<open>The checks that a valid plan relies on are the required ones, no more and no fewer: the
  names required by the envelope, those listed by the governance decision and those of both
  actions are one set, without repetition, and every one of them succeeded on the exact head.\<close>

theorem valid_plan_has_exactly_the_required_checks:
  assumes "validate_plan env plan expected_push expected_draft now = Inr ()"
    and "a = pp_authority plan" and "checks = ga_required_checks (pp_push_action plan)"
  shows "\<exists>names. json_strings (ab_run_envelope a) [''routing'', ''required_checks''] = Inr names
    \<and> json_checks (ab_governance_decision a) [''required_checks''] = Inr names
    \<and> set names = rc_name ` set checks \<and> checks \<noteq> [] \<and> distinct (map rc_name checks)
    \<and> (\<forall>c \<in> set checks. rc_conclusion c = ''success'' \<and> rc_head_sha c = ga_head_sha (pp_push_action plan))
    \<and> ga_required_checks (pp_draft_action plan) = checks"
proof -
  note plan = validate_plan_ok [OF assms(1)]
  note push = validate_action_ok [OF plan(2)]
  from validate_authority_ok(7) [OF plan(1)]
  have "json_strings (ab_run_envelope a) [''routing'', ''required_checks'']
      = Inr (btree_set (map rc_name checks))
    \<and> json_checks (ab_governance_decision a) [''required_checks''] = Inr (btree_set (map rc_name checks))
    \<and> ga_required_checks (pp_draft_action plan) = checks"
    by (auto simp: assms(2,3) checks_agree_def Let_def rbind_eq_Inr bail_if_ok)
  moreover have "checks \<noteq> []" and "distinct (map rc_name checks)"
    and "\<forall>c \<in> set checks. rc_conclusion c = ''success'' \<and> rc_head_sha c = ga_head_sha (pp_push_action plan)"
    using push(10) action_checks_ok [OF push(11)] by (auto simp: assms(3))
  ultimately show ?thesis by (intro exI [of _ "btree_set (map rc_name checks)"]) simp
qed

theorem valid_plan_has_exactly_the_required_checks_witness:
  "set [''ci''] = rc_name ` set (ga_required_checks example_push)"
proof -
  have "json_strings (ab_run_envelope (pp_authority example_plan_doc))
      [''routing'', ''required_checks''] = Inr [''ci'']" by code_simp
  with valid_plan_has_exactly_the_required_checks [OF example_plan_valid refl refl]
  have "set [''ci''] = rc_name ` set (ga_required_checks (pp_push_action example_plan_doc))" by auto
  then show ?thesis by (simp add: example_plan_doc_def)
qed

text \<open>The times of a valid plan are nested: the envelope is created before each authority
  decision, each decision is taken before either action is approved, the approval precedes
  the validation, the action has not expired then, and it does not outlive the envelope.\<close>

theorem valid_plan_times_are_nested:
  assumes "validate_plan env plan expected_push expected_draft now = Inr ()"
    and "action = pp_push_action plan \<or> action = pp_draft_action plan"
    and "(doc, field) \<in> {(ab_candidate_decision (pp_authority plan), ''decided_at''),
      (ab_governance_decision (pp_authority plan), ''decided_at''),
      (ab_reviewer_independence (pp_authority plan), ''reviewed_at'')}"
  shows "\<exists>created decided approved expires expiry.
    document_time env (ab_run_envelope (pp_authority plan)) ''run envelope created_at'' ''created_at''
      = Inr created
    \<and> document_time env doc field field = Inr decided
    \<and> document_time env (ab_run_envelope (pp_authority plan)) ''run envelope expires_at'' ''expires_at''
      = Inr expiry
    \<and> pe_rfc3339 env (ga_approved_at action) = Some approved
    \<and> pe_rfc3339 env (ga_expires_at action) = Some expires
    \<and> created \<le> decided \<and> decided \<le> approved \<and> approved \<le> now \<and> now < expires \<and> expires \<le> expiry"
proof -
  note plan = validate_plan_ok [OF assms(1)]
  have "\<exists>approved expires. pe_rfc3339 env (ga_approved_at action) = Some approved
    \<and> pe_rfc3339 env (ga_expires_at action) = Some expires \<and> approved \<le> now \<and> now < expires"
    using assms(2) validate_action_ok(12) [OF plan(2)] validate_action_ok(12) [OF plan(3)]
    by (auto simp: base_env_def)
  with approvals_in_window_ok [OF validate_authority_ok(9) [OF plan(1)] assms(2,3)]
  show ?thesis by (metis option.inject)
qed

theorem valid_plan_times_are_nested_witness:
  "\<exists>approved. pe_rfc3339 example_env (ga_approved_at example_draft) = Some approved \<and> approved \<le> 2000"
proof -
  have draft: "example_draft = pp_push_action example_plan_doc \<or> example_draft = pp_draft_action example_plan_doc"
    by (simp add: example_plan_doc_def)
  show ?thesis
    using valid_plan_times_are_nested [OF example_plan_valid draft insertI1] by blast
qed

end
