(* ===== verification/Publication_Apply.thy ===== *)
theory Publication_Apply
  imports Publication_Plan
begin

text \<open>
  Publication of a validated plan, \<open>crates/ao2-runtime/src/github_issue_publication.rs\<close>: the
  trait \<open>PublicationTransport\<close> as a record of operations over a state, and
  \<open>apply_with_transport\<close>, which is generic in it.  The locale \<open>publication_transport\<close>
  states what the publication relies on: which operations may write, and what they log.
\<close>

subsection \<open>Identities read from GitHub\<close>

record repository_identity =
  ri_full_name :: string
  ri_default_branch :: string

record fork_identity =
  fi_full_name :: string
  fi_default_branch :: string
  fi_owner_login :: string
  fi_parent_full_name :: "string option"

record pull_identity =
  pi_number :: nat
  pi_state :: string
  pi_draft :: bool
  pi_merged_at :: "string option"
  pi_title :: string
  pi_body :: string
  pi_base_sha :: string
  pi_base_reference :: string
  pi_head_sha :: string
  pi_head_reference :: string
  pi_head_repository :: string

datatype create_draft_outcome = Created nat | Conflict

record 's transport =
  tp_now :: "'s \<Rightarrow> timestamp \<times> 's"
  tp_verify_local_repository :: "string \<Rightarrow> publication_plan \<Rightarrow> ('s, unit) act"
  tp_authenticated_login :: "('s, string) act"
  tp_read_repository :: "string \<Rightarrow> ('s, repository_identity) act"
  tp_read_fork :: "string \<Rightarrow> ('s, fork_identity option) act"
  tp_create_fork :: "string \<Rightarrow> ('s, unit) act"
  tp_read_branch :: "string \<Rightarrow> string \<Rightarrow> ('s, string option) act"
  tp_push_branch :: "string \<Rightarrow> string \<Rightarrow> string \<Rightarrow> string \<Rightarrow> ('s, unit) act"
  tp_find_drafts :: "github_action \<Rightarrow> string \<Rightarrow> ('s, pull_identity list) act"
  tp_create_draft :: "publication_plan \<Rightarrow> string \<Rightarrow> ('s, create_draft_outcome) act"
  tp_read_pull :: "string \<Rightarrow> nat \<Rightarrow> ('s, pull_identity) act"
  tp_retry_delay :: "'s \<Rightarrow> 's"

subsection \<open>Checks of the identities\<close>

definition validate_fork_identity ::
    "fork_identity \<Rightarrow> string \<Rightarrow> string \<Rightarrow> string \<Rightarrow> unit rresult" where
  "validate_fork_identity identity fork upstream upstream_default_branch =
     rbind (split_repository fork) (\<lambda>(owner, _).
     bail_if (fi_full_name identity \<noteq> fork \<or> fi_owner_login identity \<noteq> owner
         \<or> fi_parent_full_name identity \<noteq> Some upstream
         \<or> fi_default_branch identity \<noteq> upstream_default_branch)
       ''fork identity, parent, owner, or default branch drifted'')"

definition exact_pull :: "pull_identity \<Rightarrow> publication_plan \<Rightarrow> string \<Rightarrow> bool" where
  "exact_pull pull plan base_branch \<longleftrightarrow>
     (let action = pp_draft_action plan;
          fork = (case ga_fork action of None \<Rightarrow> [] | Some f \<Rightarrow> f) in
      pi_number pull > 0 \<and> pi_state pull = ''open'' \<and> pi_draft pull \<and> pi_merged_at pull = None
      \<and> pi_title pull = dt_title (pp_draft plan) \<and> pi_body pull = dt_body (pp_draft plan)
      \<and> pi_base_reference pull = base_branch \<and> pi_base_sha pull = ga_base_sha action
      \<and> pi_head_reference pull = ga_branch action \<and> pi_head_sha pull = ga_head_sha action
      \<and> pi_head_repository pull = fork)"

subsection \<open>Application\<close>

record apply_readback =
  ar_schema_version :: string
  ar_status :: string
  ar_repository :: string
  ar_fork :: string
  ar_branch :: string
  ar_head_sha :: string
  ar_pull_number :: nat
  ar_fork_created :: bool
  ar_branch_pushed :: bool
  ar_draft_pr_created :: bool
  ar_independent_readback :: bool
  ar_issue_write_performed :: bool
  ar_ready_for_review_performed :: bool
  ar_review_approval_performed :: bool
  ar_merge_performed :: bool
  ar_release_performed :: bool

text \<open>The guard in front of every write: the action is validated again, now.\<close>

definition revalidate ::
    "pub_env \<Rightarrow> 's transport \<Rightarrow> github_action \<Rightarrow> string \<Rightarrow> ('s, unit) act" where
  "revalidate env tp action kind s =
     (let (now, s') = tp_now tp s in
      (validate_action (base_env env) action kind (ga_action_digest action) now, s'))"

text \<open>The two polling loops: at most \<open>n\<close> reads, with a delay after each that does not yet
  show the result; the last answer is kept.\<close>

fun poll_fork :: "'s transport \<Rightarrow> string \<Rightarrow> nat \<Rightarrow> fork_identity option \<Rightarrow> ('s, fork_identity option) act" where
  "poll_fork tp fork 0 identity = act_return identity"
| "poll_fork tp fork (Suc n) identity =
     act_bind (tp_read_fork tp fork) (\<lambda>identity s.
       if identity \<noteq> None then (Inr identity, s)
       else poll_fork tp fork n identity (tp_retry_delay tp s))"

fun poll_branch ::
    "'s transport \<Rightarrow> string \<Rightarrow> github_action \<Rightarrow> nat \<Rightarrow> string option \<Rightarrow> ('s, string option) act" where
  "poll_branch tp fork push 0 readback = act_return readback"
| "poll_branch tp fork push (Suc n) readback =
     act_bind (tp_read_branch tp fork (ga_branch push)) (\<lambda>readback s.
       if readback = Some (ga_head_sha push) then (Inr readback, s)
       else poll_branch tp fork push n readback (tp_retry_delay tp s))"

definition ensure_fork ::
    "pub_env \<Rightarrow> 's transport \<Rightarrow> github_action \<Rightarrow> string \<Rightarrow> string \<Rightarrow> ('s, bool) act" where
  "ensure_fork env tp push fork default_branch =
     act_bind (tp_read_fork tp fork) (\<lambda>existing. case existing of
       Some identity \<Rightarrow>
         act_bind (act_lift (validate_fork_identity identity fork (ga_repository push) default_branch))
           (\<lambda>_. act_return False)
     | None \<Rightarrow>
         act_bind (revalidate env tp push ''push_operator_fork'') (\<lambda>_.
         act_bind (tp_create_fork tp (ga_repository push)) (\<lambda>_.
         act_bind (poll_fork tp fork 10 None) (\<lambda>identity.
         act_bind (act_lift (with_context ''created fork was not independently readable'' identity))
           (\<lambda>identity.
         act_bind (act_lift (validate_fork_identity identity fork (ga_repository push) default_branch))
           (\<lambda>_. act_return True))))))"

definition ensure_branch ::
    "pub_env \<Rightarrow> 's transport \<Rightarrow> string \<Rightarrow> github_action \<Rightarrow> string \<Rightarrow> ('s, bool) act" where
  "ensure_branch env tp repository push fork =
     act_bind (tp_read_branch tp fork (ga_branch push)) (\<lambda>existing. case existing of
       Some head \<Rightarrow>
         if head = ga_head_sha push then act_return False
         else act_lift (Inl ''existing repair branch does not match the exact approved head'')
     | None \<Rightarrow>
         act_bind (revalidate env tp push ''push_operator_fork'') (\<lambda>_.
         act_bind (tp_push_branch tp repository fork (ga_branch push) (ga_head_sha push)) (\<lambda>_.
         act_bind (poll_branch tp fork push 5 None) (\<lambda>readback.
         if readback \<noteq> Some (ga_head_sha push)
         then act_lift (Inl ''pushed repair branch failed exact independent readback'')
         else act_return True))))"

definition reread_conflict ::
    "'s transport \<Rightarrow> publication_plan \<Rightarrow> string \<Rightarrow> ('s, nat \<times> bool) act" where
  "reread_conflict tp plan default_branch =
     act_bind (tp_find_drafts tp (pp_draft_action plan) default_branch) (\<lambda>reread. case reread of
       [] \<Rightarrow> act_lift (Inl ''draft create conflict re-read found no matching draft'')
     | [pull] \<Rightarrow>
         if exact_pull pull plan default_branch then act_return (pi_number pull, False)
         else act_lift (Inl ''draft create conflict re-read found identity drift'')
     | _ \<Rightarrow> act_lift (Inl ''draft create conflict re-read was ambiguous''))"

definition ensure_draft ::
    "pub_env \<Rightarrow> 's transport \<Rightarrow> publication_plan \<Rightarrow> string \<Rightarrow> ('s, nat \<times> bool) act" where
  "ensure_draft env tp plan default_branch =
     act_bind (tp_find_drafts tp (pp_draft_action plan) default_branch) (\<lambda>existing. case existing of
       [] \<Rightarrow>
         act_bind (revalidate env tp (pp_draft_action plan) ''open_upstream_draft_pr'') (\<lambda>_.
         act_bind (tp_create_draft tp plan default_branch) (\<lambda>outcome. case outcome of
           Created number \<Rightarrow> act_return (number, True)
         | Conflict \<Rightarrow> reread_conflict tp plan default_branch))
     | [pull] \<Rightarrow>
         if exact_pull pull plan default_branch then act_return (pi_number pull, False)
         else act_lift
           (Inl ''existing pull request does not match the exact approved draft identity'')
     | _ \<Rightarrow> act_lift (Inl ''draft pull request lookup returned ambiguous matches''))"

text \<open>The checks before the first write, which give the fork and the default branch.\<close>

definition preflight ::
    "'s transport \<Rightarrow> publication_plan \<Rightarrow> string \<Rightarrow> ('s, string \<times> string) act" where
  "preflight tp plan repository =
     (let push = pp_push_action plan in
      act_bind (act_lift (with_context ''operator-owned fork is required'' (ga_fork push))) (\<lambda>fork.
      act_bind (tp_verify_local_repository tp repository plan) (\<lambda>_.
      act_bind (tp_authenticated_login tp) (\<lambda>login.
      act_bind (act_lift (split_repository fork)) (\<lambda>(fork_owner, _).
      act_bind (act_lift (bail_if (login \<noteq> fork_owner)
        ''approved fork owner does not match the authenticated GitHub account'')) (\<lambda>_.
      act_bind (tp_read_repository tp (ga_repository push)) (\<lambda>upstream.
      act_bind (act_lift (bail_if (ri_full_name upstream \<noteq> ga_repository push)
        ''upstream repository identity drifted'')) (\<lambda>_.
      act_bind (act_lift (validate_ref (ri_default_branch upstream))) (\<lambda>_.
      act_bind (tp_read_branch tp (ga_repository push) (ri_default_branch upstream)) (\<lambda>base.
      act_bind (act_lift (bail_if (base \<noteq> Some (ga_base_sha push))
        ''upstream default branch does not match the exact approved base'')) (\<lambda>_.
      act_return (fork, ri_default_branch upstream))))))))))))"

definition readback_of ::
    "publication_plan \<Rightarrow> string \<Rightarrow> nat \<Rightarrow> bool \<Rightarrow> bool \<Rightarrow> bool \<Rightarrow> apply_readback" where
  "readback_of plan fork pull_number fork_created branch_pushed draft_pr_created =
     \<lparr>ar_schema_version = ''ao2.github-repair-publication-readback.v1'',
      ar_status = (if fork_created \<or> branch_pushed \<or> draft_pr_created then ''applied''
        else ''idempotent_readback''),
      ar_repository = ga_repository (pp_push_action plan), ar_fork = fork,
      ar_branch = ga_branch (pp_push_action plan), ar_head_sha = ga_head_sha (pp_push_action plan),
      ar_pull_number = pull_number, ar_fork_created = fork_created,
      ar_branch_pushed = branch_pushed, ar_draft_pr_created = draft_pr_created,
      ar_independent_readback = True, ar_issue_write_performed = False,
      ar_ready_for_review_performed = False, ar_review_approval_performed = False,
      ar_merge_performed = False, ar_release_performed = False\<rparr>"

definition apply_with_transport ::
    "pub_env \<Rightarrow> publication_plan \<Rightarrow> string \<Rightarrow> 's transport \<Rightarrow> ('s, apply_readback) act" where
  "apply_with_transport env plan repository tp =
     (let push = pp_push_action plan in
      act_bind (preflight tp plan repository) (\<lambda>(fork, default_branch).
      act_bind (ensure_fork env tp push fork default_branch) (\<lambda>fork_created.
      act_bind (ensure_branch env tp repository push fork) (\<lambda>branch_pushed.
      act_bind (ensure_draft env tp plan default_branch) (\<lambda>(pull_number, draft_pr_created).
      act_bind (tp_read_pull tp (ga_repository push) pull_number) (\<lambda>pull.
      if \<not> exact_pull pull plan default_branch
      then act_lift (Inl ''draft pull request failed exact independent readback'')
      else act_return
        (readback_of plan fork pull_number fork_created branch_pushed draft_pr_created)))))))"

definition apply_publication_plan ::
    "pub_env \<Rightarrow> publication_plan \<Rightarrow> string \<Rightarrow> string \<Rightarrow> string \<Rightarrow> timestamp \<Rightarrow>
     's transport \<Rightarrow> ('s, apply_readback) act" where
  "apply_publication_plan env plan repository expected_push expected_draft now tp =
     act_bind (act_lift (validate_plan env plan expected_push expected_draft now)) (\<lambda>_.
       apply_with_transport env plan repository tp)"

subsection \<open>What the operations may do to the log\<close>

text \<open>A log holds the readings of the clock and the writes.\<close>

datatype 'c entry = Clock timestamp | Write 'c

definition quiet :: "('s \<Rightarrow> 'c entry list) \<Rightarrow> ('s, 'a) act \<Rightarrow> bool" where
  "quiet wlog m \<longleftrightarrow> (\<forall>s. wlog (snd (m s)) = wlog s)"

text \<open>\<open>m\<close> appends entries that, with its result, satisfy \<open>Q\<close>.\<close>

definition extends ::
    "('s \<Rightarrow> 'c entry list) \<Rightarrow> ('s, 'a) act \<Rightarrow> ('a rresult \<Rightarrow> 'c entry list \<Rightarrow> bool) \<Rightarrow> bool" where
  "extends wlog m Q \<longleftrightarrow> (\<forall>s. \<exists>es. wlog (snd (m s)) = wlog s @ es \<and> Q (fst (m s)) es)"

text \<open>One guarded write: nothing, the clock alone, or the clock at a valid time followed by
  the write.\<close>

definition write_phase :: "(timestamp \<Rightarrow> bool) \<Rightarrow> 'c \<Rightarrow> 'c entry list \<Rightarrow> bool" where
  "write_phase valid c es \<longleftrightarrow>
     es = [] \<or> (\<exists>t. es = [Clock t]) \<or> (\<exists>t. valid t \<and> es = [Clock t, Write c])"

lemma write_phase_Nil [simp]: "write_phase valid c []"
  by (simp add: write_phase_def)

text \<open>The approval of an action at a time.\<close>

definition approved :: "pub_env \<Rightarrow> github_action \<Rightarrow> string \<Rightarrow> timestamp \<Rightarrow> bool" where
  "approved env action kind t \<longleftrightarrow>
     validate_action (base_env env) action kind (ga_action_digest action) t = Inr ()"

text \<open>What one application may log: at most one fork, one push and one draft, in this order,
  each of them guarded; the readback tells which happened.\<close>

definition governed ::
    "pub_env \<Rightarrow> publication_plan \<Rightarrow> (string \<Rightarrow> 'c) \<Rightarrow> (string \<Rightarrow> string \<Rightarrow> string \<Rightarrow> 'c) \<Rightarrow>
     (publication_plan \<Rightarrow> string \<Rightarrow> 'c) \<Rightarrow> apply_readback rresult \<Rightarrow> 'c entry list \<Rightarrow> bool" where
  "governed env plan fork_cmd push_cmd draft_cmd r es \<longleftrightarrow>
     (let push = pp_push_action plan; draft = pp_draft_action plan in
      \<exists>es1 es2 es3 fork base. es = es1 @ es2 @ es3
        \<and> (es \<noteq> [] \<longrightarrow> ga_fork push = Some fork \<and> validate_ref base = Inr ())
        \<and> write_phase (approved env push ''push_operator_fork'') (fork_cmd (ga_repository push)) es1
        \<and> write_phase (approved env push ''push_operator_fork'')
            (push_cmd fork (ga_branch push) (ga_head_sha push)) es2
        \<and> write_phase (approved env draft ''open_upstream_draft_pr'') (draft_cmd plan base) es3
        \<and> (\<forall>rb. r = Inr rb \<longrightarrow> ar_fork_created rb = (es1 \<noteq> []) \<and> ar_branch_pushed rb = (es2 \<noteq> [])
            \<and> (ar_draft_pr_created rb \<longrightarrow> es3 \<noteq> [])))"

lemma act_return_ok [check_simps]: "act_return x s = (r, s') \<longleftrightarrow> r = Inr x \<and> s' = s"
  by (auto simp: act_return_def)

lemma act_lift_ok [check_simps]: "act_lift r s = (r', s') \<longleftrightarrow> r = r' \<and> s' = s"
  by (auto simp: act_lift_def)

lemma quiet_simps [simp]:
  "quiet wlog (act_return x)" "quiet wlog (act_lift r)"
  by (simp_all add: quiet_def act_return_def act_lift_def)

lemma quiet_bind [intro]:
  "quiet wlog m \<Longrightarrow> (\<And>x. quiet wlog (f x)) \<Longrightarrow> quiet wlog (act_bind m f)"
  by (auto simp: quiet_def act_bind_def split: prod.splits sum.splits) (metis snd_conv)+

lemma quiet_extends: "quiet wlog m \<Longrightarrow> (\<And>r. Q r []) \<Longrightarrow> extends wlog m Q"
  by (auto simp: quiet_def extends_def)

lemma extends_weaken:
  "extends wlog m Q \<Longrightarrow> (\<And>r es. Q r es \<Longrightarrow> Q' r es) \<Longrightarrow> extends wlog m Q'"
  by (auto simp: extends_def) blast

lemma extends_bind:
  assumes m: "extends wlog m Q1" and f: "\<And>x. extends wlog (f x) (Q2 x)"
    and err: "\<And>e es. Q1 (Inl e) es \<Longrightarrow> Q (Inl e) es"
    and ok: "\<And>x r es es'. Q1 (Inr x) es \<Longrightarrow> Q2 x r es' \<Longrightarrow> Q r (es @ es')"
  shows "extends wlog (act_bind m f) Q"
  unfolding extends_def
proof
  fix s
  obtain r s1 where ms: "m s = (r, s1)" by fastforce
  from m obtain es where es: "wlog s1 = wlog s @ es" "Q1 r es"
    unfolding extends_def by (metis ms fst_conv snd_conv)
  show "\<exists>es. wlog (snd (act_bind m f s)) = wlog s @ es \<and> Q (fst (act_bind m f s)) es"
  proof (cases r)
    case (Inl e)
    with ms es err show ?thesis by (auto simp: act_bind_def)
  next
    case (Inr x)
    from f obtain es' where "wlog (snd (f x s1)) = wlog s1 @ es'" "Q2 x (fst (f x s1)) es'"
      unfolding extends_def by meson
    with ms es Inr ok show ?thesis by (auto simp: act_bind_def intro!: exI [of _ "es @ es'"])
  qed
qed

lemma quiet_result:
  "quiet wlog m \<Longrightarrow> (\<And>s y s'. m s = (Inr y, s') \<Longrightarrow> P y) \<Longrightarrow>
    extends wlog m (\<lambda>r es. es = [] \<and> (\<forall>y. r = Inr y \<longrightarrow> P y))"
  by (auto simp: quiet_def extends_def) (metis prod.collapse)

text \<open>A quiet computation may come first.\<close>

lemma extends_quiet_first:
  "quiet wlog m \<Longrightarrow> (\<And>x. extends wlog (f x) Q) \<Longrightarrow> (\<And>e. Q (Inl e) []) \<Longrightarrow> extends wlog (act_bind m f) Q"
  by (rule extends_bind [where ?Q1.0 = "\<lambda>r es. es = []" and ?Q2.0 = "\<lambda>x. Q"])
    (auto intro: quiet_extends)

locale publication_transport =
  fixes tp :: "'s transport"
    and wlog :: "'s \<Rightarrow> 'c entry list"
    and fork_cmd :: "string \<Rightarrow> 'c"
    and push_cmd :: "string \<Rightarrow> string \<Rightarrow> string \<Rightarrow> string \<Rightarrow> 'c"
    and draft_cmd :: "publication_plan \<Rightarrow> string \<Rightarrow> 'c"
  assumes now: "wlog (snd (tp_now tp s)) = wlog s @ [Clock (fst (tp_now tp s))]"
    and verify_quiet: "quiet wlog (tp_verify_local_repository tp root_dir plan)"
    and login_quiet: "quiet wlog (tp_authenticated_login tp)"
    and repository_quiet: "quiet wlog (tp_read_repository tp name)"
    and fork_quiet: "quiet wlog (tp_read_fork tp name)"
    and branch_quiet: "quiet wlog (tp_read_branch tp name branch)"
    and drafts_quiet: "quiet wlog (tp_find_drafts tp action base)"
    and pull_quiet: "quiet wlog (tp_read_pull tp name number)"
    and delay_quiet: "wlog (tp_retry_delay tp s) = wlog s"
    and create_fork: "extends wlog (tp_create_fork tp upstream)
      (\<lambda>r es. es = [Write (fork_cmd upstream)] \<or> es = [] \<and> (\<exists>e. r = Inl e))"
    and push_branch: "extends wlog (tp_push_branch tp root_dir fork branch head)
      (\<lambda>r es. es = [Write (push_cmd root_dir fork branch head)] \<or> es = [] \<and> (\<exists>e. r = Inl e))"
    and create_draft: "extends wlog (tp_create_draft tp plan base)
      (\<lambda>r es. es = [Write (draft_cmd plan base)] \<or> es = [] \<and> (\<exists>e. r = Inl e))"
begin

lemmas reads_quiet = verify_quiet login_quiet repository_quiet fork_quiet branch_quiet drafts_quiet
  pull_quiet

lemma poll_fork_quiet: "quiet wlog (poll_fork tp fork n identity)"
proof (induction n arbitrary: identity)
  case (Suc n)
  have "quiet wlog (\<lambda>s. if i \<noteq> None then (Inr i, s) else poll_fork tp fork n i (tp_retry_delay tp s))" for i
    using Suc delay_quiet by (auto simp: quiet_def)
  then show ?case using fork_quiet by auto
qed simp

lemma poll_branch_quiet: "quiet wlog (poll_branch tp fork push n readback)"
proof (induction n arbitrary: readback)
  case (Suc n)
  have "quiet wlog (\<lambda>s. if i = Some (ga_head_sha push) then (Inr i, s)
      else poll_branch tp fork push n i (tp_retry_delay tp s))" for i
    using Suc delay_quiet by (auto simp: quiet_def)
  then show ?case using branch_quiet by auto
qed simp

lemma revalidate_extends:
  "extends wlog (revalidate env tp action kind) (\<lambda>r es. \<exists>t. es = [Clock t]
    \<and> r = validate_action (base_env env) action kind (ga_action_digest action) t)"
  using now by (auto simp: extends_def revalidate_def split: prod.splits) (metis fst_conv snd_conv)

text \<open>A revalidated write, and what follows it quietly.\<close>

lemma guarded_write:
  assumes "extends wlog w (\<lambda>r es. es = [Write c] \<or> es = [] \<and> (\<exists>e. r = Inl e))"
    and "\<And>x. quiet wlog (f x)" and "\<And>x s y s'. f x s = (Inr y, s') \<Longrightarrow> P y"
  shows "extends wlog (act_bind (revalidate env tp action kind) (\<lambda>_. act_bind w f))
    (\<lambda>r es. write_phase (approved env action kind) c es \<and> (\<forall>y. r = Inr y \<longrightarrow> es \<noteq> [] \<and> P y))"
proof -
  have "extends wlog (act_bind w f)
      (\<lambda>r es. (es = [Write c] \<or> es = [] \<and> (\<exists>e. r = Inl e)) \<and> (\<forall>y. r = Inr y \<longrightarrow> P y))"
    by (rule extends_bind [OF assms(1), where ?Q2.0 = "\<lambda>x r es. es = [] \<and> (\<forall>y. r = Inr y \<longrightarrow> P y)"])
      (auto intro: quiet_result assms(2,3))
  then show ?thesis
    by (rule extends_bind [OF revalidate_extends]) (auto simp: write_phase_def approved_def)
qed

lemma ensure_fork_extends:
  "extends wlog (ensure_fork env tp push fork default_branch)
    (\<lambda>r es. write_phase (approved env push ''push_operator_fork'') (fork_cmd (ga_repository push)) es
      \<and> (\<forall>created. r = Inr created \<longrightarrow> created = (es \<noteq> [])))"
  unfolding ensure_fork_def
proof (rule extends_quiet_first [OF fork_quiet], goal_cases)
  case (1 existing)
  show ?case
  proof (cases existing)
    case None
    let ?f = "\<lambda>_ :: unit. act_bind (poll_fork tp fork 10 None) (\<lambda>identity.
      act_bind (act_lift (with_context ''created fork was not independently readable'' identity)) (\<lambda>identity.
      act_bind (act_lift (validate_fork_identity identity fork (ga_repository push) default_branch))
        (\<lambda>_. act_return True)))"
    have "quiet wlog (?f u)" for u by (intro quiet_bind poll_fork_quiet quiet_simps)
    moreover have "?f u s = (Inr y, s') \<Longrightarrow> y" for u s y s'
      by (auto simp: act_bind_ok act_return_ok)
    ultimately show ?thesis
      using None by (auto intro!: extends_weaken [OF guarded_write [OF create_fork, where P = "\<lambda>y. y"]])
  next
    case (Some identity)
    have "quiet wlog (act_bind (act_lift (validate_fork_identity identity fork (ga_repository push)
      default_branch)) (\<lambda>_. act_return False))" (is "quiet _ ?m") by (intro quiet_bind quiet_simps)
    then have "extends wlog ?m (\<lambda>r es. es = [] \<and> (\<forall>y. r = Inr y \<longrightarrow> \<not> y))"
      by (rule quiet_result) (auto simp: act_bind_ok act_return_ok)
    with Some show ?thesis by (auto intro: extends_weaken simp: write_phase_def)
  qed
qed (simp add: write_phase_def)

lemma ensure_branch_extends:
  "extends wlog (ensure_branch env tp root_dir push fork)
    (\<lambda>r es. write_phase (approved env push ''push_operator_fork'') (push_cmd root_dir fork (ga_branch push) (ga_head_sha push)) es
      \<and> (\<forall>pushed. r = Inr pushed \<longrightarrow> pushed = (es \<noteq> [])))"
  unfolding ensure_branch_def
proof (rule extends_quiet_first [OF branch_quiet], goal_cases)
  case (1 existing)
  show ?case
  proof (cases existing)
    case None
    let ?f = "\<lambda>_ :: unit. act_bind (poll_branch tp fork push 5 None) (\<lambda>readback.
         if readback \<noteq> Some (ga_head_sha push)
         then act_lift (Inl ''pushed repair branch failed exact independent readback'')
         else act_return True)"
    have "quiet wlog (?f u)" for u by (intro quiet_bind poll_branch_quiet) simp
    moreover have "?f u s = (Inr y, s') \<Longrightarrow> y" for u s y s'
      by (auto simp: check_simps split: if_splits)
    ultimately show ?thesis
      using None by (auto intro!: extends_weaken [OF guarded_write [OF push_branch, where P = "\<lambda>y. y"]])
  next
    case (Some head)
    have "extends wlog (if head = ga_head_sha push then act_return False
        else act_lift (Inl ''existing repair branch does not match the exact approved head''))
      (\<lambda>r es. es = [] \<and> (\<forall>y. r = Inr y \<longrightarrow> \<not> y))"
      by (rule quiet_result) (auto simp: check_simps split: if_splits)
    with Some show ?thesis by (auto intro: extends_weaken simp: write_phase_def)
  qed
qed (simp add: write_phase_def)

lemma reread_conflict_quiet: "quiet wlog (reread_conflict tp plan default_branch)"
  unfolding reread_conflict_def by (intro quiet_bind drafts_quiet) (simp split: list.split)

lemma reread_conflict_not_created:
  "reread_conflict tp plan default_branch s = (Inr (number, created), s') \<Longrightarrow> \<not> created"
proof -
  assume "reread_conflict tp plan default_branch s = (Inr (number, created), s')"
  then obtain reread s1 where "(case reread of
       [] \<Rightarrow> act_lift (Inl ''draft create conflict re-read found no matching draft'')
     | [pull] \<Rightarrow>
         if exact_pull pull plan default_branch then act_return (pi_number pull, False)
         else act_lift (Inl ''draft create conflict re-read found identity drift'')
     | _ \<Rightarrow> act_lift (Inl ''draft create conflict re-read was ambiguous'')) s1 = (Inr (number, created), s')"
    by (auto simp: reread_conflict_def act_bind_ok)
  then show "\<not> created"
    by (cases reread rule: remdups_adj.cases) (auto simp: act_return_ok act_lift_ok split: if_splits)
qed

lemma ensure_draft_extends:
  "extends wlog (ensure_draft env tp plan default_branch)
    (\<lambda>r es. write_phase (approved env (pp_draft_action plan) ''open_upstream_draft_pr'')
        (draft_cmd plan default_branch) es
      \<and> (\<forall>number. r = Inr (number, True) \<longrightarrow> es \<noteq> []))"
  unfolding ensure_draft_def
proof (rule extends_quiet_first [OF drafts_quiet], goal_cases)
  case (1 existing)
  show ?case
  proof (cases existing)
    case Nil
    have "quiet wlog (case outcome of Created number \<Rightarrow> act_return (number, True)
         | Conflict \<Rightarrow> reread_conflict tp plan default_branch)" for outcome
      by (simp add: reread_conflict_quiet split: create_draft_outcome.split)
    then show ?thesis
      using Nil by (auto intro!: extends_weaken [OF guarded_write [OF create_draft, where P = "\<lambda>y. True"]])
  next
    case (Cons pull pulls)
    have "extends wlog (case existing of [pull] \<Rightarrow>
           if exact_pull pull plan default_branch then act_return (pi_number pull, False)
           else act_lift (Inl ''existing pull request does not match the exact approved draft identity'')
       | _ \<Rightarrow> act_lift (Inl ''draft pull request lookup returned ambiguous matches''))
      (\<lambda>r es. es = [] \<and> (\<forall>y. r = Inr y \<longrightarrow> \<not> snd y))"
      by (rule quiet_result) (auto simp: check_simps split: if_splits list.splits)
    then have "extends wlog (case existing of [pull] \<Rightarrow>
           if exact_pull pull plan default_branch then act_return (pi_number pull, False)
           else act_lift (Inl ''existing pull request does not match the exact approved draft identity'')
       | _ \<Rightarrow> act_lift (Inl ''draft pull request lookup returned ambiguous matches''))
      (\<lambda>r es. write_phase (approved env (pp_draft_action plan) ''open_upstream_draft_pr'')
        (draft_cmd plan default_branch) es
      \<and> (\<forall>number. r = Inr (number, True) \<longrightarrow> es \<noteq> []))"
      by (rule extends_weaken) (auto simp: write_phase_def)
    with Cons show ?thesis by (simp only: list.case)
  qed
qed (simp add: write_phase_def)

lemma preflight_extends:
  "extends wlog (preflight tp plan root_dir) (\<lambda>r es. es = [] \<and> (\<forall>y. r = Inr y \<longrightarrow>
      ga_fork (pp_push_action plan) = Some (fst y) \<and> validate_ref (snd y) = Inr ()))"
proof (rule quiet_result)
  show "quiet wlog (preflight tp plan root_dir)"
    unfolding preflight_def Let_def
    by (intro quiet_bind reads_quiet quiet_simps) (auto split: prod.split intro!: quiet_bind reads_quiet)
qed (auto simp: preflight_def Let_def act_bind_ok act_return_ok act_lift_ok with_context_ok
      split: prod.splits)

lemma apply_extends:
  "extends wlog (apply_with_transport env plan root_dir tp) (governed env plan fork_cmd (push_cmd root_dir) draft_cmd)"
proof -
  let ?push = "pp_push_action plan" and ?draft = "pp_draft_action plan"
  let ?P1 = "write_phase (approved env ?push ''push_operator_fork'') (fork_cmd (ga_repository ?push))"
  let ?P2 = "\<lambda>fork. write_phase (approved env ?push ''push_operator_fork'')
    (push_cmd root_dir fork (ga_branch ?push) (ga_head_sha ?push))"
  let ?P3 = "\<lambda>base. write_phase (approved env ?draft ''open_upstream_draft_pr'') (draft_cmd plan base)"
  let ?fin = "\<lambda>fork base c p (n, d). act_bind (tp_read_pull tp (ga_repository ?push) n) (\<lambda>pull.
      if \<not> exact_pull pull plan base
      then act_lift (Inl ''draft pull request failed exact independent readback'')
      else act_return (readback_of plan fork n c p d))"
  have fin: "extends wlog (?fin fork base c p nd) (\<lambda>r es. es = [] \<and> (\<forall>rb. r = Inr rb \<longrightarrow>
      ar_fork_created rb = c \<and> ar_branch_pushed rb = p \<and> ar_draft_pr_created rb = snd nd))"
    for fork base c p nd
    by (cases nd, simp only: prod.case, rule quiet_result)
      (auto simp: check_simps readback_of_def split: if_splits intro!: quiet_bind pull_quiet)
  have draft: "extends wlog (act_bind (ensure_draft env tp plan base) (?fin fork base c p))
      (\<lambda>r es. ?P3 base es \<and> (\<forall>rb. r = Inr rb \<longrightarrow> ar_fork_created rb = c \<and> ar_branch_pushed rb = p
        \<and> (ar_draft_pr_created rb \<longrightarrow> es \<noteq> [])))" for fork base c p
    by (rule extends_bind [OF ensure_draft_extends fin]) auto
  have branch: "extends wlog (act_bind (ensure_branch env tp root_dir ?push fork)
      (\<lambda>p. act_bind (ensure_draft env tp plan base) (?fin fork base c p)))
      (\<lambda>r es. \<exists>es2 es3. es = es2 @ es3 \<and> ?P2 fork es2 \<and> ?P3 base es3
        \<and> (\<forall>rb. r = Inr rb \<longrightarrow> ar_fork_created rb = c \<and> ar_branch_pushed rb = (es2 \<noteq> [])
        \<and> (ar_draft_pr_created rb \<longrightarrow> es3 \<noteq> [])))" for fork base c
  proof (rule extends_bind [OF ensure_branch_extends draft], goal_cases)
    case (1 e es)
    then show ?case by (intro exI [of _ es] exI [of _ "[]"]) simp
  next
    case (2 p r es es')
    then show ?case by (intro exI [of _ es] exI [of _ es']) simp
  qed
  have fork: "extends wlog (act_bind (ensure_fork env tp ?push fork base) (\<lambda>c.
        act_bind (ensure_branch env tp root_dir ?push fork)
      (\<lambda>p. act_bind (ensure_draft env tp plan base) (?fin fork base c p))))
      (\<lambda>r es. \<exists>es1 es2 es3. es = es1 @ es2 @ es3 \<and> ?P1 es1 \<and> ?P2 fork es2 \<and> ?P3 base es3
        \<and> (\<forall>rb. r = Inr rb \<longrightarrow> ar_fork_created rb = (es1 \<noteq> []) \<and> ar_branch_pushed rb = (es2 \<noteq> [])
        \<and> (ar_draft_pr_created rb \<longrightarrow> es3 \<noteq> [])))" for fork base
  proof (rule extends_bind [OF ensure_fork_extends branch], goal_cases)
    case (1 e es)
    then show ?case by (intro exI [of _ es] exI [of _ "[]"]) simp
  next
    case (2 c r es es')
    then obtain es2 es3 where "es' = es2 @ es3" "?P2 fork es2" "?P3 base es3"
      "\<forall>rb. r = Inr rb \<longrightarrow> ar_fork_created rb = c \<and> ar_branch_pushed rb = (es2 \<noteq> [])
        \<and> (ar_draft_pr_created rb \<longrightarrow> es3 \<noteq> [])" by blast
    with 2 show ?case by (intro exI [of _ es] exI [of _ es2] exI [of _ es3]) simp
  qed
  have "extends wlog (act_bind (preflight tp plan root_dir) (\<lambda>(fork, base).
      act_bind (ensure_fork env tp ?push fork base) (\<lambda>c.
        act_bind (ensure_branch env tp root_dir ?push fork)
      (\<lambda>p. act_bind (ensure_draft env tp plan base) (?fin fork base c p)))))
     (governed env plan fork_cmd (push_cmd root_dir) draft_cmd)"
  proof (rule extends_bind [OF preflight_extends, where ?Q2.0 = "\<lambda>(fork, base) r es.
      \<exists>es1 es2 es3. es = es1 @ es2 @ es3 \<and> ?P1 es1 \<and> ?P2 fork es2 \<and> ?P3 base es3
        \<and> (\<forall>rb. r = Inr rb \<longrightarrow> ar_fork_created rb = (es1 \<noteq> []) \<and> ar_branch_pushed rb = (es2 \<noteq> [])
        \<and> (ar_draft_pr_created rb \<longrightarrow> es3 \<noteq> []))"], goal_cases)
    case (1 x)
    show ?case using fork by (cases x) simp
  next
    case 2
    then show ?case by (simp add: governed_def Let_def write_phase_def [of _ _ "[]"])
  next
    case (3 x r es es')
    then show ?case by (cases x) (simp add: governed_def Let_def, blast)
  qed
  then show ?thesis by (simp add: apply_with_transport_def Let_def)
qed

end

subsection \<open>Results come from reads\<close>

lemma poll_fork_read:
  "poll_fork tp fork n identity s = (Inr (Some i), s') \<Longrightarrow> identity \<noteq> Some i \<Longrightarrow>
    \<exists>s1 s2. tp_read_fork tp fork s1 = (Inr (Some i), s2)"
proof (induction n arbitrary: identity s)
  case (Suc n)
  then obtain j s1 where read: "tp_read_fork tp fork s = (Inr j, s1)"
    and rest: "(if j \<noteq> None then (Inr j, s1) else poll_fork tp fork n j (tp_retry_delay tp s1))
      = (Inr (Some i), s')"
    by (auto simp: act_bind_ok)
  show ?case
  proof (cases j)
    case None
    with rest Suc.IH show ?thesis by auto
  next
    case (Some k)
    with rest read show ?thesis by auto
  qed
qed (simp add: act_return_ok)

lemma poll_branch_read:
  "poll_branch tp fork push n readback s = (Inr (Some head), s') \<Longrightarrow> readback \<noteq> Some head \<Longrightarrow>
    \<exists>s1 s2. tp_read_branch tp fork (ga_branch push) s1 = (Inr (Some head), s2)"
proof (induction n arbitrary: readback s)
  case (Suc n)
  then obtain j s1 where read: "tp_read_branch tp fork (ga_branch push) s = (Inr j, s1)"
    and rest: "(if j = Some (ga_head_sha push) then (Inr j, s1)
      else poll_branch tp fork push n j (tp_retry_delay tp s1)) = (Inr (Some head), s')"
    by (auto simp: act_bind_ok)
  show ?case
  proof (cases "j = Some head")
    case True
    with read show ?thesis by auto
  next
    case False
    with rest Suc.IH show ?thesis by (auto split: if_splits)
  qed
qed (simp add: act_return_ok)

lemma ensure_fork_read:
  assumes "ensure_fork env tp push fork base s = (Inr created, s')"
  shows "\<exists>identity s1 s2. tp_read_fork tp fork s1 = (Inr (Some identity), s2)
    \<and> validate_fork_identity identity fork (ga_repository push) base = Inr ()"
  using assms unfolding ensure_fork_def
  by (auto simp: act_bind_ok act_lift_ok act_return_ok with_context_ok split: option.splits)
    (metis option.distinct(1) poll_fork_read)

lemma ensure_branch_read:
  assumes "ensure_branch env tp root_dir push fork s = (Inr pushed, s')"
  shows "\<exists>s1 s2. tp_read_branch tp fork (ga_branch push) s1 = (Inr (Some (ga_head_sha push)), s2)"
  using assms unfolding ensure_branch_def
  by (auto simp: act_bind_ok act_lift_ok act_return_ok split: option.splits if_splits)
    (metis option.distinct(1) poll_branch_read)

text \<open>C35: Success is never assumed: whatever the transport, an application that succeeds has
  read back the fork with the approved owner, parent and default branch, the fork's branch at
  exactly the approved head, and, as its last action, the reported pull request as an open,
  unmerged draft with the approved title, body, base and head; it reports no merge, review,
  release or issue write.\<close>

theorem success_is_read_back:
  assumes "apply_with_transport env plan root_dir tp s = (Inr rb, s')"
    and "push = pp_push_action plan"
  shows "\<exists>fork base identity pull.
    ga_fork push = Some fork \<and> ar_fork rb = fork
    \<and> (\<exists>s1 s2. tp_read_fork tp fork s1 = (Inr (Some identity), s2)
        \<and> validate_fork_identity identity fork (ga_repository push) base = Inr ())
    \<and> (\<exists>s1 s2. tp_read_branch tp fork (ga_branch push) s1 = (Inr (Some (ga_head_sha push)), s2))
    \<and> (\<exists>s1. tp_read_pull tp (ga_repository push) (ar_pull_number rb) s1 = (Inr pull, s'))
    \<and> exact_pull pull plan base
    \<and> \<not> ar_merge_performed rb \<and> \<not> ar_review_approval_performed rb \<and> \<not> ar_release_performed rb
    \<and> \<not> ar_issue_write_performed rb \<and> \<not> ar_ready_for_review_performed rb"
proof -
  from assms obtain fork base s1 c s2 p s3 n d s4 pull where
    pre: "preflight tp plan root_dir s = (Inr (fork, base), s1)"
    and f: "ensure_fork env tp push fork base s1 = (Inr c, s2)"
    and b: "ensure_branch env tp root_dir push fork s2 = (Inr p, s3)"
    and pull: "tp_read_pull tp (ga_repository push) n s4 = (Inr pull, s')"
    and exact: "exact_pull pull plan base" and rb: "rb = readback_of plan fork n c p d"
    by (auto simp: apply_with_transport_def Let_def check_simps split: if_splits)
  from pre have "ga_fork push = Some fork"
    by (auto simp: preflight_def Let_def assms(2) check_simps split: prod.splits)
  with ensure_fork_read [OF f] ensure_branch_read [OF b] pull exact show ?thesis
    by (auto simp: rb readback_of_def intro!: exI [of _ base])
qed

text \<open>A world in which the fork, the branch and the draft appear once they are written.\<close>

record example_world =
  ew_fork :: bool
  ew_branch :: bool
  ew_draft :: bool

definition example_fork :: fork_identity where
  "example_fork = \<lparr>fi_full_name = ''bot/tool'', fi_default_branch = ''main'',
     fi_owner_login = ''bot'', fi_parent_full_name = Some ''acme/tool''\<rparr>"

definition example_pull :: pull_identity where
  "example_pull = \<lparr>pi_number = 12, pi_state = ''open'', pi_draft = True, pi_merged_at = None,
     pi_title = ''Fix'', pi_body = ''Body'', pi_base_sha = replicate 40 CHR ''a'',
     pi_base_reference = ''main'', pi_head_sha = replicate 40 CHR ''b'',
     pi_head_reference = ''repair/7'', pi_head_repository = ''bot/tool''\<rparr>"

definition example_branch_read :: "string \<Rightarrow> string \<Rightarrow> (example_world, string option) act" where
  "example_branch_read name branch w =
     (Inr (if name = ''acme/tool'' then Some (replicate 40 CHR ''a'')
        else if ew_branch w then Some (replicate 40 CHR ''b'') else None), w)"

definition example_transport :: "example_world transport" where
  "example_transport = \<lparr>tp_now = Pair 2000,
     tp_verify_local_repository = (\<lambda>_ _. act_return ()),
     tp_authenticated_login = act_return ''bot'',
     tp_read_repository = (\<lambda>name. act_return \<lparr>ri_full_name = name, ri_default_branch = ''main''\<rparr>),
     tp_read_fork = (\<lambda>_ w. (Inr (if ew_fork w then Some example_fork else None), w)),
     tp_create_fork = (\<lambda>_ w. (Inr (), ew_fork_update (\<lambda>_. True) w)),
     tp_read_branch = example_branch_read,
     tp_push_branch = (\<lambda>_ _ _ _ w. (Inr (), ew_branch_update (\<lambda>_. True) w)),
     tp_find_drafts = (\<lambda>_ _ w. (Inr (if ew_draft w then [example_pull] else []), w)),
     tp_create_draft = (\<lambda>_ _ w. (Inr (Created 12), ew_draft_update (\<lambda>_. True) w)),
     tp_read_pull = (\<lambda>_ _. act_return example_pull),
     tp_retry_delay = (\<lambda>w. w)\<rparr>"

lemma example_transport_simps [simp]:
  "tp_now example_transport w = (2000, w)"
  "tp_verify_local_repository example_transport r plan w = (Inr (), w)"
  "tp_authenticated_login example_transport w = (Inr ''bot'', w)"
  "tp_read_repository example_transport name w
    = (Inr \<lparr>ri_full_name = name, ri_default_branch = ''main''\<rparr>, w)"
  "tp_read_fork example_transport f w = (Inr (if ew_fork w then Some example_fork else None), w)"
  "tp_create_fork example_transport u w = (Inr (), w\<lparr>ew_fork := True\<rparr>)"
  "tp_read_branch example_transport = example_branch_read"
  "tp_push_branch example_transport r f b h w = (Inr (), w\<lparr>ew_branch := True\<rparr>)"
  "tp_find_drafts example_transport a b w = (Inr (if ew_draft w then [example_pull] else []), w)"
  "tp_create_draft example_transport plan b w = (Inr (Created 12), w\<lparr>ew_draft := True\<rparr>)"
  "tp_read_pull example_transport u n w = (Inr example_pull, w)"
  "tp_retry_delay example_transport w = w"
  by (simp_all add: example_transport_def act_return_def)

lemmas example_run_simps = act_bind_def act_return_def act_lift_def

lemma example_preflight:
  "preflight example_transport example_plan_doc [] w = (Inr (''bot/tool'', ''main''), w)"
proof -
  have fields: "ga_fork example_push = Some ''bot/tool''" "ga_repository example_push = ''acme/tool''"
    "ga_base_sha example_push = replicate 40 CHR ''a''"
    by (simp_all add: example_push_def)
  have "split_repository ''bot/tool'' = Inr (''bot'', ''tool'')" and "validate_ref ''main'' = Inr ()"
    by code_simp+
  then show ?thesis
    by (simp add: preflight_def Let_def example_run_simps fields with_context_def bail_if_def
        example_branch_read_def)
qed

lemma example_revalidate:
  "revalidate example_env example_transport example_push ''push_operator_fork'' w = (Inr (), w)"
  "revalidate example_env example_transport example_draft ''open_upstream_draft_pr'' w = (Inr (), w)"
proof -
  have digests: "ga_action_digest example_push = replicate 64 CHR ''d''"
    "ga_action_digest example_draft = replicate 64 CHR ''e''"
    by (simp_all add: example_push_def example_draft_def)
  show "revalidate example_env example_transport example_push ''push_operator_fork'' w = (Inr (), w)"
    "revalidate example_env example_transport example_draft ''open_upstream_draft_pr'' w = (Inr (), w)"
    unfolding revalidate_def digests by (simp_all add: example_actions_valid)
qed

lemma example_identities:
  "validate_fork_identity example_fork ''bot/tool'' (ga_repository example_push) ''main'' = Inr ()"
  "exact_pull example_pull example_plan_doc ''main''"
  by code_simp+

lemma example_apply:
  "apply_with_transport example_env example_plan_doc [] example_transport
     \<lparr>ew_fork = False, ew_branch = False, ew_draft = False\<rparr>
   = (Inr (readback_of example_plan_doc ''bot/tool'' 12 True True True),
      \<lparr>ew_fork = True, ew_branch = True, ew_draft = True\<rparr>)"
proof -
  have fork: "ensure_fork example_env example_transport example_push ''bot/tool'' ''main''
      \<lparr>ew_fork = False, ew_branch = False, ew_draft = False\<rparr>
    = (Inr True, \<lparr>ew_fork = True, ew_branch = False, ew_draft = False\<rparr>)"
    using example_revalidate(1) example_identities(1)
    by (simp add: ensure_fork_def example_run_simps numeral_eq_Suc with_context_def)
  have head: "ga_head_sha example_push = replicate 40 CHR ''b''" by (simp add: example_push_def)
  have branch: "ensure_branch example_env example_transport [] example_push ''bot/tool''
      \<lparr>ew_fork = True, ew_branch = False, ew_draft = False\<rparr>
    = (Inr True, \<lparr>ew_fork = True, ew_branch = True, ew_draft = False\<rparr>)"
    using example_revalidate(1)
    by (simp add: ensure_branch_def example_run_simps numeral_eq_Suc example_branch_read_def head)
  have draft: "ensure_draft example_env example_transport example_plan_doc ''main''
      \<lparr>ew_fork = True, ew_branch = True, ew_draft = False\<rparr>
    = (Inr (12, True), \<lparr>ew_fork = True, ew_branch = True, ew_draft = True\<rparr>)"
    using example_revalidate(2)
    by (simp add: ensure_draft_def example_run_simps)
  show ?thesis
    using example_preflight fork branch draft example_identities(2)
    by (simp add: apply_with_transport_def Let_def example_run_simps)
qed

theorem success_is_read_back_witness:
  "\<exists>base. exact_pull example_pull example_plan_doc base"
proof -
  from success_is_read_back [OF example_apply refl] obtain base pull s1 where
    "tp_read_pull example_transport (ga_repository example_push) 12 s1
      = (Inr pull, \<lparr>ew_fork = True, ew_branch = True, ew_draft = True\<rparr>)"
    "exact_pull pull example_plan_doc base"
    by (auto simp: readback_of_def)
  then show ?thesis by auto
qed

end
