(* ===== verification/Publication_System.thy ===== *)
theory Publication_System
  imports Publication_Apply
begin

text \<open>
  \<open>SystemTransport\<close> of \<open>crates/ao2-runtime/src/github_issue_publication.rs\<close>: the commands
  \<open>git\<close> and \<open>gh\<close> that implement the publication transport.  The state is the trace of
  what the program did; the environment answers a command, and the clock, as functions of the
  whole trace.  The serde decoders of the replies are fields of \<open>sys_env\<close>; the child
  processes and their pipes are reduced to how the process ended and the chunks it printed.
\<close>

subsection \<open>Commands and traces\<close>

record command =
  cm_program :: string
  cm_args :: "string list"
  cm_cwd :: string
  cm_input :: "string option"

datatype sys_event = Ran command | Read_Clock timestamp | Slept

text \<open>An end of a child process: a failure to run it to completion (spawn, deadline, pipe), or
  success flag, rendered status and the chunks read from its two pipes.\<close>

datatype process_end =
    Process_Error string
  | Exited bool string "string list" "string list"

record sys_env =
  se_pub :: pub_env
  se_process :: "sys_event list \<Rightarrow> command \<Rightarrow> process_end"
  se_clock :: "sys_event list \<Rightarrow> timestamp"
  se_value :: "string \<Rightarrow> json option"
  se_repository :: "string \<Rightarrow> repository_identity option"
  se_fork :: "string \<Rightarrow> fork_identity option"
  se_pulls :: "string \<Rightarrow> pull_identity list option"
  se_pull :: "string \<Rightarrow> pull_identity option"

type_synonym 'a sys = "(sys_event list, 'a) act"

subsection \<open>Running a command\<close>

definition max_command_output_bytes :: nat where
  "max_command_output_bytes = 1048576"

text \<open>The reader of a pipe: an empty chunk is the end of the stream.\<close>

fun pipe_loop :: "string \<Rightarrow> bool \<Rightarrow> string list \<Rightarrow> string \<times> bool" where
  "pipe_loop retained exceeded [] = (retained, exceeded)"
| "pipe_loop retained exceeded (c # cs) =
     (if c = [] then (retained, exceeded)
      else let remaining = max_command_output_bytes - length retained in
        pipe_loop (retained @ take (min (length c) remaining) c)
          (exceeded \<or> length c > remaining) cs)"

definition read_bounded_pipe :: "string list \<Rightarrow> string \<times> bool" where
  "read_bounded_pipe chunks = pipe_loop [] False chunks"

record cmd_output =
  ou_success :: bool
  ou_status :: string
  ou_stdout :: string
  ou_stderr :: string

definition git :: "string list \<Rightarrow> string \<Rightarrow> command" where
  "git args cwd = \<lparr>cm_program = ''git'', cm_args = args, cm_cwd = cwd, cm_input = None\<rparr>"

definition gh :: "string list \<Rightarrow> string option \<Rightarrow> command" where
  "gh args input = \<lparr>cm_program = ''gh'', cm_args = args, cm_cwd = ''.'', cm_input = input\<rparr>"

definition command_output :: "sys_env \<Rightarrow> command \<Rightarrow> cmd_output sys" where
  "command_output env c trace =
     (case se_process env trace c of
        Process_Error message \<Rightarrow> (Inl message, trace @ [Ran c])
      | Exited success status out_chunks err_chunks \<Rightarrow>
          (let (stdout, stdout_exceeded) = read_bounded_pipe out_chunks;
               (stderr, stderr_exceeded) = read_bounded_pipe err_chunks in
           if stdout_exceeded \<or> stderr_exceeded
           then (Inl (''bounded '' @ cm_program c
             @ '' command output exceeded the 1048576-byte limit''), trace @ [Ran c])
           else (Inr \<lparr>ou_success = success, ou_status = status, ou_stdout = stdout,
             ou_stderr = stderr\<rparr>, trace @ [Ran c])))"

definition run_bytes :: "sys_env \<Rightarrow> command \<Rightarrow> string sys" where
  "run_bytes env c = act_bind (command_output env c) (\<lambda>output. act_lift
     (if \<not> ou_success output
      then Inl (''bounded '' @ cm_program c @ '' command failed closed with status '' @ ou_status output)
      else Inr (ou_stdout output)))"

definition run_output :: "sys_env \<Rightarrow> command \<Rightarrow> string sys" where
  "run_output env c = act_bind (run_bytes env c) (\<lambda>bytes. act_lift
     (if \<not> utf8_valid bytes then Inl ''invalid utf-8 sequence'' else Inr (trim bytes)))"

definition run_checked :: "sys_env \<Rightarrow> command \<Rightarrow> unit sys" where
  "run_checked env c = act_bind (run_bytes env c) (\<lambda>_. act_return ())"

definition gh_json :: "sys_env \<Rightarrow> (string \<Rightarrow> 'a option) \<Rightarrow> string list \<Rightarrow> 'a sys" where
  "gh_json env decode args = act_bind (run_bytes env (gh args None)) (\<lambda>bytes. act_lift
     (with_context ''GitHub CLI returned malformed JSON'' (decode bytes)))"

definition gh_optional :: "sys_env \<Rightarrow> (string \<Rightarrow> 'a option) \<Rightarrow> string list \<Rightarrow> 'a option sys" where
  "gh_optional env decode args = act_bind (command_output env (gh args None)) (\<lambda>output. act_lift
     (if ou_success output
      then rbind (with_context ''GitHub CLI returned malformed JSON'' (decode (ou_stdout output)))
        (\<lambda>v. Inr (Some v))
      else if contains (ou_stderr output) ''HTTP 404'' then Inr None
      else Inl (''GitHub CLI request failed closed with status '' @ ou_status output)))"

definition act_context :: "string \<Rightarrow> ('s, 'a) act \<Rightarrow> ('s, 'a) act" where
  "act_context message m s = (case m s of (Inl _, s') \<Rightarrow> (Inl message, s') | (Inr x, s') \<Rightarrow> (Inr x, s'))"

subsection \<open>The local repository\<close>

definition range_of :: "string \<Rightarrow> string \<Rightarrow> string" where
  "range_of base head = base @ ''..'' @ head"

definition read_governed_diff :: "sys_env \<Rightarrow> string \<Rightarrow> string \<Rightarrow> string \<Rightarrow> string sys" where
  "read_governed_diff env root_dir base head = run_bytes env
     (git [''diff'', ''--binary'', ''--no-ext-diff'', ''--no-textconv'', range_of base head] root_dir)"

definition changed_path :: "string \<Rightarrow> string rresult" where
  "changed_path bytes =
     (if \<not> utf8_valid bytes then Inl ''approved diff changed path is not UTF-8''
      else if unsafe_path bytes then Inl ''approved diff contains an unsafe changed path''
      else Inr bytes)"

definition read_governed_changed_paths ::
    "sys_env \<Rightarrow> string \<Rightarrow> string \<Rightarrow> string \<Rightarrow> string list sys" where
  "read_governed_changed_paths env root_dir base head =
     act_bind (run_bytes env (git [''diff'', ''--name-only'', ''-z'', ''--no-ext-diff'',
       ''--no-textconv'', range_of base head, ''--''] root_dir)) (\<lambda>output. act_lift
     (if output = [] then Inl ''approved diff must change at least one path''
      else map_result changed_path (filter (\<lambda>p. p \<noteq> []) (split_byte CHR 0x00 output))))"

definition verify_local_repository :: "sys_env \<Rightarrow> string \<Rightarrow> publication_plan \<Rightarrow> unit sys" where
  "verify_local_repository env root_dir plan =
     (let action = pp_push_action plan; base = ga_base_sha action; head = ga_head_sha action in
      act_bind (run_output env (git [''rev-parse'', ''HEAD''] root_dir)) (\<lambda>current.
      act_bind (act_lift (bail_if (current \<noteq> head)
        ''local repository HEAD does not match the exact approved head'')) (\<lambda>_.
      act_bind (run_output env (git [''status'', ''--porcelain''] root_dir)) (\<lambda>status.
      act_bind (act_lift (bail_if (status \<noteq> [])
        ''local repository must be clean before publication'')) (\<lambda>_.
      act_bind (act_context ''approved base is not an ancestor of the approved head''
        (run_checked env (git [''merge-base'', ''--is-ancestor'', base, head] root_dir))) (\<lambda>_.
      act_bind (read_governed_diff env root_dir base head) (\<lambda>diff.
      act_bind (act_lift (bail_if (pe_sha256 (se_pub env) diff \<noteq> ga_diff_digest action)
        ''local repository diff does not match the approved diff digest'')) (\<lambda>_.
      act_bind (read_governed_changed_paths env root_dir base head) (\<lambda>changed_paths.
      act_bind (act_lift (json_strings (ab_run_envelope (pp_authority plan))
        [''routing'', ''protected_path_classes''])) (\<lambda>patterns.
      act_bind (act_lift (derive_protected_path_touched changed_paths patterns)) (\<lambda>derived.
      act_bind (act_lift (json_bool (ab_governance_decision (pp_authority plan))
        [''protected_path_touched''])) (\<lambda>claimed.
      act_bind (act_lift (bail_if (derived \<noteq> claimed)
        ''governance protected-path claim does not match the approved diff'')) (\<lambda>_.
      act_lift (bail_if derived ''approved diff touches a protected path''))))))))))))))"

subsection \<open>GitHub\<close>

definition api :: "string list \<Rightarrow> string list" where
  "api args = [''api'', ''--hostname'', ''github.com''] @ args"

definition authenticated_login :: "sys_env \<Rightarrow> string sys" where
  "authenticated_login env =
     act_bind (gh_json env (se_value env) (api [''user''])) (\<lambda>v. act_lift
       (with_context ''GitHub user readback omitted login'' (as_str (json_index v ''login''))))"

definition read_repository :: "sys_env \<Rightarrow> string \<Rightarrow> repository_identity sys" where
  "read_repository env repository = gh_json env (se_repository env) (api [''repos/'' @ repository])"

definition read_fork :: "sys_env \<Rightarrow> string \<Rightarrow> fork_identity option sys" where
  "read_fork env fork = gh_optional env (se_fork env) (api [''repos/'' @ fork])"

definition fork_command :: "string \<Rightarrow> command" where
  "fork_command upstream =
     gh (api [''--method'', ''POST'', ''repos/'' @ upstream @ ''/forks'', ''--input'', ''-''])
       (Some ''{\"default_branch_only\":true}'')"

definition create_fork :: "sys_env \<Rightarrow> string \<Rightarrow> unit sys" where
  "create_fork env upstream = run_checked env (fork_command upstream)"

definition read_branch :: "sys_env \<Rightarrow> string \<Rightarrow> string \<Rightarrow> string option sys" where
  "read_branch env fork branch =
     act_bind (gh_optional env (se_value env)
       (api [''repos/'' @ fork @ ''/git/ref/heads/'' @ percent_encode branch])) (\<lambda>v. act_return
     (case v of None \<Rightarrow> None | Some item \<Rightarrow> as_str (json_index (json_index item ''object'') ''sha'')))"

text \<open>A configuration key that rewrites push destinations, in a line of the listing.\<close>

definition rewrites_push :: "string \<Rightarrow> bool" where
  "rewrites_push line =
     (case last_word line of None \<Rightarrow> False
      | Some word \<Rightarrow>
          (let key = to_ascii_lowercase word in prefix ''url.'' key \<and> suffix ''.pushinsteadof'' key))"

definition config_command :: "string \<Rightarrow> command" where
  "config_command root_dir = git [''config'', ''--show-origin'', ''--name-only'', ''--list''] root_dir"

definition ensure_no_git_push_rewrites :: "sys_env \<Rightarrow> string \<Rightarrow> unit sys" where
  "ensure_no_git_push_rewrites env root_dir =
     act_bind (command_output env (config_command root_dir)) (\<lambda>output. act_lift
     (if \<not> ou_success output
      then Inl ''Git configuration could not be inspected before the governed push''
      else if \<not> utf8_valid (ou_stdout output) then Inl ''Git configuration was not UTF-8''
      else bail_if (list_ex rewrites_push (str_lines (ou_stdout output)))
        ''Git pushInsteadOf configuration is forbidden for governed publication''))"

definition remote_of :: "string \<Rightarrow> string" where
  "remote_of fork = ''https://github.com/'' @ fork @ ''.git''"

definition get_url_command :: "string \<Rightarrow> string \<Rightarrow> command" where
  "get_url_command root_dir fork = git [''ls-remote'', ''--get-url'', remote_of fork] root_dir"

definition push_command :: "string \<Rightarrow> string \<Rightarrow> string \<Rightarrow> string \<Rightarrow> command" where
  "push_command root_dir fork branch head =
     git [''-c'', ''core.hooksPath=/dev/null'', ''push'', ''--no-verify'', ''--porcelain'',
       remote_of fork, head @ '':refs/heads/'' @ branch] root_dir"

definition push_branch :: "sys_env \<Rightarrow> string \<Rightarrow> string \<Rightarrow> string \<Rightarrow> string \<Rightarrow> unit sys" where
  "push_branch env root_dir fork branch head =
     act_bind (ensure_no_git_push_rewrites env root_dir) (\<lambda>_.
     act_bind (run_output env (get_url_command root_dir fork)) (\<lambda>url.
     act_bind (act_lift (bail_if (url \<noteq> remote_of fork)
       ''Git configuration rewrites the exact approved GitHub destination'')) (\<lambda>_.
     run_checked env (push_command root_dir fork branch head))))"

definition find_drafts :: "sys_env \<Rightarrow> github_action \<Rightarrow> string \<Rightarrow> pull_identity list sys" where
  "find_drafts env action base_branch =
     act_bind (act_lift (with_context ''operator-owned fork is required'' (ga_fork action))) (\<lambda>fork.
     act_bind (act_lift (split_repository fork)) (\<lambda>(owner, _).
     gh_json env (se_pulls env)
       (api [''--method'', ''GET'', ''repos/'' @ ga_repository action @ ''/pulls'',
         ''-f'', ''state=open'', ''-f'', ''head='' @ owner @ '':'' @ ga_branch action,
         ''-f'', ''base='' @ base_branch, ''-f'', ''per_page=10''])))"

definition draft_body :: "publication_plan \<Rightarrow> string \<Rightarrow> string \<Rightarrow> json" where
  "draft_body plan owner base_branch = JObject
     [(''base'', JString base_branch), (''body'', JString (dt_body (pp_draft plan))),
      (''draft'', JBool True),
      (''head'', JString (owner @ '':'' @ ga_branch (pp_draft_action plan))),
      (''title'', JString (dt_title (pp_draft plan)))]"

definition draft_command_for :: "sys_env \<Rightarrow> publication_plan \<Rightarrow> string \<Rightarrow> string \<Rightarrow> command" where
  "draft_command_for env plan owner base_branch =
     gh (api [''--method'', ''POST'', ''repos/'' @ ga_repository (pp_draft_action plan) @ ''/pulls'',
       ''--input'', ''-'']) (Some (pe_to_vec (se_pub env) (draft_body plan owner base_branch)))"

definition create_draft :: "sys_env \<Rightarrow> publication_plan \<Rightarrow> string \<Rightarrow> create_draft_outcome sys" where
  "create_draft env plan base_branch =
     act_bind (act_lift (with_context ''operator-owned fork is required''
       (ga_fork (pp_draft_action plan)))) (\<lambda>fork.
     act_bind (act_lift (split_repository fork)) (\<lambda>(owner, _).
     act_bind (command_output env (draft_command_for env plan owner base_branch)) (\<lambda>output. act_lift
     (if \<not> ou_success output then
        (if contains (ou_stderr output) ''HTTP 409'' \<or> contains (ou_stderr output) ''HTTP 422''
         then Inr Conflict
         else Inl (''GitHub draft creation failed closed with status '' @ ou_status output))
      else
        rbind (with_context ''GitHub draft creation returned malformed JSON''
          (se_value env (ou_stdout output))) (\<lambda>v.
        rbind (with_context ''created draft pull request omitted a positive number''
          (case as_u64 (json_index v ''number'') of None \<Rightarrow> None
           | Some n \<Rightarrow> if n > 0 then Some n else None)) (\<lambda>n. Inr (Created n)))))))"

definition read_pull :: "sys_env \<Rightarrow> string \<Rightarrow> nat \<Rightarrow> pull_identity sys" where
  "read_pull env repository number =
     gh_json env (se_pull env) (api [''repos/'' @ repository @ ''/pulls/'' @ show_nat number])"

definition system_transport :: "sys_env \<Rightarrow> sys_event list transport" where
  "system_transport env =
     \<lparr>tp_now = (\<lambda>trace. (se_clock env trace, trace @ [Read_Clock (se_clock env trace)])),
      tp_verify_local_repository = verify_local_repository env,
      tp_authenticated_login = authenticated_login env,
      tp_read_repository = read_repository env,
      tp_read_fork = read_fork env,
      tp_create_fork = create_fork env,
      tp_read_branch = read_branch env,
      tp_push_branch = push_branch env,
      tp_find_drafts = find_drafts env,
      tp_create_draft = create_draft env,
      tp_read_pull = read_pull env,
      tp_retry_delay = (\<lambda>trace. trace @ [Slept])\<rparr>"

subsection \<open>Which commands can change anything\<close>

text \<open>The commands that only read: named subcommands of \<open>git\<close>, and requests of \<open>gh api\<close> that
  name nothing but an endpoint or ask for the method \<open>GET\<close>.  Everything else counts as a
  write.\<close>

definition read_only :: "command \<Rightarrow> bool" where
  "read_only c \<longleftrightarrow>
     cm_program c = ''git'' \<and> cm_args c \<noteq> []
       \<and> (hd (cm_args c) \<in> {''rev-parse'', ''status'', ''merge-base'', ''diff'', ''ls-remote''}
          \<or> hd (cm_args c) = ''config'' \<and> last (cm_args c) = ''--list'')
     \<or> cm_program c = ''gh'' \<and> take 3 (cm_args c) = api []
       \<and> (length (cm_args c) = 4 \<or> take 2 (drop 3 (cm_args c)) = [''--method'', ''GET''])"

fun log_entry :: "sys_event \<Rightarrow> command entry option" where
  "log_entry (Read_Clock t) = Some (Clock t)"
| "log_entry Slept = None"
| "log_entry (Ran c) = (if read_only c then None else Some (Write c))"

definition sys_log :: "sys_event list \<Rightarrow> command entry list" where
  "sys_log trace = List.map_filter log_entry trace"

lemma sys_log_append [simp]: "sys_log (xs @ ys) = sys_log xs @ sys_log ys"
  by (simp add: sys_log_def List.map_filter_def)

lemma sys_log_simps [simp]:
  "sys_log [] = []" "sys_log (Slept # xs) = sys_log xs"
  "sys_log (Read_Clock t # xs) = Clock t # sys_log xs"
  "sys_log (Ran c # xs) = (if read_only c then sys_log xs else Write c # sys_log xs)"
  by (simp_all add: sys_log_def List.map_filter_def)

lemma command_output_trace: "snd (command_output env c trace) = trace @ [Ran c]"
  by (simp add: command_output_def split: process_end.split prod.split)

lemma command_output_quiet: "read_only c \<Longrightarrow> quiet sys_log (command_output env c)"
  by (simp add: quiet_def command_output_trace)

lemma command_output_writes:
  "\<not> read_only c \<Longrightarrow> extends sys_log (command_output env c) (\<lambda>r es. es = [Write c])"
  by (simp add: extends_def command_output_trace)

lemma run_bytes_quiet: "read_only c \<Longrightarrow> quiet sys_log (run_bytes env c)"
  unfolding run_bytes_def by (intro quiet_bind command_output_quiet quiet_simps)

lemma run_output_quiet: "read_only c \<Longrightarrow> quiet sys_log (run_output env c)"
  unfolding run_output_def by (intro quiet_bind run_bytes_quiet quiet_simps)

lemma run_checked_quiet: "read_only c \<Longrightarrow> quiet sys_log (run_checked env c)"
  unfolding run_checked_def by (intro quiet_bind run_bytes_quiet quiet_simps)

lemma gh_json_quiet: "read_only (gh args None) \<Longrightarrow> quiet sys_log (gh_json env decode args)"
  unfolding gh_json_def by (intro quiet_bind run_bytes_quiet quiet_simps)

lemma gh_optional_quiet: "read_only (gh args None) \<Longrightarrow> quiet sys_log (gh_optional env decode args)"
  unfolding gh_optional_def by (intro quiet_bind command_output_quiet quiet_simps)

lemma act_context_quiet: "quiet l m \<Longrightarrow> quiet l (act_context message m)"
  by (auto simp: quiet_def act_context_def split: prod.splits sum.splits) (metis snd_conv)+

text \<open>Writing commands, followed by nothing that is logged.\<close>

lemma write_then_quiet:
  assumes "\<not> read_only c" and "\<And>x. quiet sys_log (f x)"
  shows "extends sys_log (act_bind (command_output env c) f) (\<lambda>r es. es = [Write c])"
  by (rule extends_bind [OF command_output_writes [OF assms(1)], where ?Q2.0 = "\<lambda>x r es. es = []"])
    (auto intro: quiet_extends assms(2))

lemma run_checked_writes:
  assumes "\<not> read_only c"
  shows "extends sys_log (run_checked env c) (\<lambda>r es. es = [Write c])"
proof -
  have "extends sys_log (run_bytes env c) (\<lambda>r es. es = [Write c])"
    unfolding run_bytes_def by (rule write_then_quiet [OF assms]) simp
  then show ?thesis
    unfolding run_checked_def
    by (rule extends_bind [where ?Q2.0 = "\<lambda>x r es. es = []"]) (auto intro: quiet_extends)
qed

lemma read_only_git [simp]:
  "read_only (git (''rev-parse'' # args) cwd)" "read_only (git (''status'' # args) cwd)"
  "read_only (git (''merge-base'' # args) cwd)" "read_only (git (''diff'' # args) cwd)"
  "read_only (get_url_command root_dir fork)" "read_only (config_command root_dir)"
  by (simp_all add: read_only_def git_def get_url_command_def config_command_def)

lemma read_only_api [simp]:
  "read_only (gh (api [endpoint]) None)" "read_only (gh (api (''--method'' # ''GET'' # args)) None)"
  by (simp_all add: read_only_def gh_def api_def)

lemma writing_commands [simp]:
  "\<not> read_only (fork_command upstream)" "\<not> read_only (push_command root_dir fork branch head)"
  "\<not> read_only (draft_command_for env plan owner base)"
  by (simp_all add: read_only_def gh_def api_def git_def fork_command_def push_command_def
      draft_command_for_def)

text \<open>The draft command of a plan whose fork is named.\<close>

definition draft_command :: "sys_env \<Rightarrow> publication_plan \<Rightarrow> string \<Rightarrow> command" where
  "draft_command env plan base_branch = draft_command_for env plan
     (case ga_fork (pp_draft_action plan) of None \<Rightarrow> [] | Some fork \<Rightarrow>
       (case split_repository fork of Inl _ \<Rightarrow> [] | Inr (owner, _) \<Rightarrow> owner)) base_branch"

lemma create_draft_extends:
  "extends sys_log (create_draft env plan base)
    (\<lambda>r es. es = [Write (draft_command env plan base)] \<or> es = [] \<and> (\<exists>e. r = Inl e))"
proof (cases "ga_fork (pp_draft_action plan)")
  case None
  then show ?thesis by (simp add: create_draft_def extends_def act_bind_def act_lift_def with_context_def)
next
  case (Some fork)
  show ?thesis
  proof (cases "split_repository fork")
    case (Inl e)
    with Some show ?thesis
      by (simp add: create_draft_def extends_def act_bind_def act_lift_def with_context_def)
  next
    case (Inr p)
    obtain owner repo where p: "p = (owner, repo)" by fastforce
    have cmd: "draft_command env plan base = draft_command_for env plan owner base"
      using Some Inr p by (simp add: draft_command_def)
    have "create_draft env plan base =
        act_bind (command_output env (draft_command env plan base)) (\<lambda>output. act_lift
          (if \<not> ou_success output then
            (if contains (ou_stderr output) ''HTTP 409'' \<or> contains (ou_stderr output) ''HTTP 422''
             then Inr Conflict
             else Inl (''GitHub draft creation failed closed with status '' @ ou_status output))
           else
            rbind (with_context ''GitHub draft creation returned malformed JSON''
              (se_value env (ou_stdout output))) (\<lambda>v.
            rbind (with_context ''created draft pull request omitted a positive number''
              (case as_u64 (json_index v ''number'') of None \<Rightarrow> None
               | Some n \<Rightarrow> if n > 0 then Some n else None)) (\<lambda>n. Inr (Created n)))))"
      using Some Inr p cmd
      by (intro ext) (simp add: create_draft_def act_bind_def act_lift_def with_context_def)
    moreover have "\<not> read_only (draft_command env plan base)" by (simp add: cmd)
    ultimately show ?thesis by (auto intro: extends_weaken [OF write_then_quiet])
  qed
qed

lemma push_branch_extends:
  "extends sys_log (push_branch env root_dir fork branch head)
    (\<lambda>r es. es = [Write (push_command root_dir fork branch head)] \<or> es = [] \<and> (\<exists>e. r = Inl e))"
proof -
  have "quiet sys_log (ensure_no_git_push_rewrites env root_dir)"
    unfolding ensure_no_git_push_rewrites_def by (intro quiet_bind command_output_quiet) simp_all
  then show ?thesis
    unfolding push_branch_def
    by (intro extends_quiet_first run_output_quiet)
      (auto intro: extends_weaken [OF run_checked_writes])
qed

lemma verify_local_repository_quiet: "quiet sys_log (verify_local_repository env root_dir plan)"
  unfolding verify_local_repository_def Let_def read_governed_diff_def read_governed_changed_paths_def
  by (intro quiet_bind run_output_quiet run_bytes_quiet act_context_quiet run_checked_quiet
      quiet_simps read_only_git)

lemma find_drafts_quiet: "quiet sys_log (find_drafts env action base)"
  unfolding find_drafts_def
  by (intro quiet_bind quiet_simps) (auto intro: gh_json_quiet split: prod.split)

interpretation system: publication_transport "system_transport env" sys_log fork_command push_command
  "draft_command env" for env
proof unfold_locales
  fix plan base
  show "extends sys_log (tp_create_draft (system_transport env) plan base)
    (\<lambda>r es. es = [Write (draft_command env plan base)] \<or> es = [] \<and> (\<exists>e. r = Inl e))"
    by (simp add: system_transport_def create_draft_extends)
next
  fix root_dir fork branch head
  show "extends sys_log (tp_push_branch (system_transport env) root_dir fork branch head)
    (\<lambda>r es. es = [Write (push_command root_dir fork branch head)] \<or> es = [] \<and> (\<exists>e. r = Inl e))"
    by (simp add: system_transport_def push_branch_extends)
next
  fix upstream
  show "extends sys_log (tp_create_fork (system_transport env) upstream)
    (\<lambda>r es. es = [Write (fork_command upstream)] \<or> es = [] \<and> (\<exists>e. r = Inl e))"
    by (simp add: system_transport_def create_fork_def)
      (rule extends_weaken [OF run_checked_writes], simp_all)
qed (auto simp: system_transport_def authenticated_login_def read_repository_def read_fork_def
      read_branch_def read_pull_def verify_local_repository_quiet find_drafts_quiet
      intro!: quiet_bind gh_json_quiet gh_optional_quiet)

subsection \<open>Lemmas about the operations\<close>

lemma pipe_loop_bounded:
  "length retained \<le> max_command_output_bytes \<Longrightarrow> [] \<notin> set cs \<Longrightarrow>
    pipe_loop retained exceeded cs =
      (take max_command_output_bytes (retained @ concat cs),
       exceeded \<or> max_command_output_bytes < length (retained @ concat cs))"
proof (induction cs arbitrary: retained exceeded)
  case (Cons c cs)
  let ?n = "max_command_output_bytes - length retained"
  have take: "take (min (length c) ?n) c = take ?n c" by (simp add: min_def)
  have len: "length (retained @ take ?n c) \<le> max_command_output_bytes"
    using Cons.prems(1) by simp
  have "take max_command_output_bytes ((retained @ take ?n c) @ concat cs)
      = take max_command_output_bytes (retained @ concat (c # cs))"
  proof (cases "length c \<le> ?n")
    case False
    then have "length (retained @ take ?n c) = max_command_output_bytes" using Cons.prems(1) by simp
    then show ?thesis using False by (simp add: take_append)
  qed simp
  moreover have "(exceeded \<or> ?n < length c) \<or> max_command_output_bytes < length ((retained @ take ?n c) @ concat cs)
      \<longleftrightarrow> exceeded \<or> max_command_output_bytes < length (retained @ concat (c # cs))"
    using Cons.prems(1) by (cases "length c \<le> ?n") auto
  moreover have "c \<noteq> []" "[] \<notin> set cs" using Cons.prems(2) by auto
  ultimately show ?case
    using Cons.IH [OF len] take by (simp add: Let_def)
qed simp

lemma act_bind_trace_ok:
  "act_bind m f s = (Inr y, s') \<Longrightarrow> \<exists>x s1. m s = (Inr x, s1) \<and> f x s1 = (Inr y, s')"
  by (simp add: act_bind_ok)

lemma run_bytes_trace: "snd (run_bytes env c trace) = trace @ [Ran c]"
  using command_output_trace [of env c trace]
  by (auto simp: run_bytes_def act_bind_def act_lift_def split: prod.splits sum.splits)

lemma run_output_trace: "snd (run_output env c trace) = trace @ [Ran c]"
  using run_bytes_trace [of env c trace]
  by (auto simp: run_output_def act_bind_def act_lift_def split: prod.splits sum.splits)

lemma run_checked_trace: "snd (run_checked env c trace) = trace @ [Ran c]"
  using run_bytes_trace [of env c trace]
  by (auto simp: run_checked_def act_bind_def act_return_def split: prod.splits sum.splits)

lemma ensure_no_rewrites_trace: "snd (ensure_no_git_push_rewrites env root_dir trace)
    = trace @ [Ran (config_command root_dir)]"
  using command_output_trace [of env "config_command root_dir" trace]
  by (auto simp: ensure_no_git_push_rewrites_def act_bind_def act_lift_def split: prod.splits sum.splits)

lemma run_output_ok:
  "run_output env c trace = (Inr text', trace') \<longleftrightarrow>
    (\<exists>r. command_output env c trace = (Inr r, trace') \<and> ou_success r \<and> utf8_valid (ou_stdout r)
      \<and> text' = trim (ou_stdout r))"
  by (auto simp: run_output_def run_bytes_def check_simps split: if_splits)

subsection \<open>An example environment\<close>

text \<open>A clean repository at the approved head without push rewrites.\<close>

definition example_process :: "sys_event list \<Rightarrow> command \<Rightarrow> process_end" where
  "example_process trace c =
     (let sub = hd (cm_args c); option = hd (tl (cm_args c));
          answer = (\<lambda>text'. Exited True ''exit status: 0'' [text'] []) in
      if sub = ''rev-parse'' then answer (replicate 40 CHR ''b'')
      else if sub = ''diff'' \<and> option = ''--name-only'' then answer ''src/a.rs''
      else if sub = ''diff'' then answer ''+fix''
      else if sub = ''config'' then answer ''file:config core.bare''
      else if sub = ''ls-remote'' then answer (last (cm_args c))
      else Exited True ''exit status: 0'' [] [])"

definition example_sys :: sys_env where
  "example_sys = \<lparr>se_pub = example_env, se_process = example_process, se_clock = (\<lambda>_. 2000),
     se_value = Map.empty, se_repository = Map.empty, se_fork = Map.empty, se_pulls = Map.empty,
     se_pull = Map.empty\<rparr>"

lemma example_sys_simps [simp]:
  "se_process example_sys = example_process" "se_pub example_sys = example_env"
  by (simp_all add: example_sys_def)

lemma read_bounded_short:
  "length text' \<le> 100 \<Longrightarrow> text' \<noteq> [] \<Longrightarrow> read_bounded_pipe [text'] = (text', False)"
  "read_bounded_pipe [] = ([], False)"
  using pipe_loop_bounded [of "[]" "[text']" False]
  by (simp_all add: read_bounded_pipe_def max_command_output_bytes_def)

lemma example_command:
  assumes "se_process example_sys trace c = Exited True ''exit status: 0'' [text'] []"
    and "text' \<noteq> []" and "length text' \<le> 100"
  shows "command_output example_sys c trace = (Inr \<lparr>ou_success = True, ou_status = ''exit status: 0'',
    ou_stdout = text', ou_stderr = []\<rparr>, trace @ [Ran c])"
  using assms by (simp add: command_output_def read_bounded_short)

lemma example_command_silent:
  assumes "se_process example_sys trace c = Exited True ''exit status: 0'' [] []"
  shows "command_output example_sys c trace = (Inr \<lparr>ou_success = True, ou_status = ''exit status: 0'',
    ou_stdout = [], ou_stderr = []\<rparr>, trace @ [Ran c])"
  using assms by (simp add: command_output_def read_bounded_short)

definition example_reply :: "string \<Rightarrow> cmd_output" where
  "example_reply text' = \<lparr>ou_success = True, ou_status = ''exit status: 0'', ou_stdout = text',
     ou_stderr = []\<rparr>"

lemma example_reply_simps [simp]:
  "ou_success (example_reply text')" "ou_stdout (example_reply text') = text'"
  by (simp_all add: example_reply_def)

lemma example_git_simps:
  "command_output example_sys (git [''rev-parse'', ''HEAD''] d) trace
    = (Inr (example_reply (replicate 40 CHR ''b'')), trace @ [Ran (git [''rev-parse'', ''HEAD''] d)])"
  "command_output example_sys (git [''status'', ''--porcelain''] d) trace
    = (Inr (example_reply []), trace @ [Ran (git [''status'', ''--porcelain''] d)])"
  "command_output example_sys (git [''merge-base'', ''--is-ancestor'', replicate 40 CHR ''a'',
      replicate 40 CHR ''b''] d) trace = (Inr (example_reply []), trace @ [Ran (git [''merge-base'',
      ''--is-ancestor'', replicate 40 CHR ''a'', replicate 40 CHR ''b''] d)])"
  "command_output example_sys (git [''diff'', ''--binary'', ''--no-ext-diff'', ''--no-textconv'', r] d) trace
    = (Inr (example_reply ''+fix''),
       trace @ [Ran (git [''diff'', ''--binary'', ''--no-ext-diff'', ''--no-textconv'', r] d)])"
  "command_output example_sys (git [''diff'', ''--name-only'', ''-z'', ''--no-ext-diff'',
      ''--no-textconv'', r, ''--''] d) trace = (Inr (example_reply ''src/a.rs''),
       trace @ [Ran (git [''diff'', ''--name-only'', ''-z'', ''--no-ext-diff'', ''--no-textconv'', r, ''--''] d)])"
  "command_output example_sys (config_command d) trace
    = (Inr (example_reply ''file:config core.bare''), trace @ [Ran (config_command d)])"
  "command_output example_sys (get_url_command d ''bot/tool'') trace
    = (Inr (example_reply (remote_of ''bot/tool'')), trace @ [Ran (get_url_command d ''bot/tool'')])"
  "command_output example_sys (push_command d ''bot/tool'' ''repair/7'' (replicate 40 CHR ''b'')) trace
    = (Inr (example_reply []),
       trace @ [Ran (push_command d ''bot/tool'' ''repair/7'' (replicate 40 CHR ''b''))])"
  by (simp_all add: example_command example_command_silent example_process_def
      example_reply_def git_def config_command_def get_url_command_def push_command_def remote_of_def)

lemma example_text_simps:
  "utf8_valid (replicate 40 CHR ''b'')" "trim (replicate 40 CHR ''b'') = replicate 40 CHR ''b''"
  "utf8_valid (remote_of ''bot/tool'')" "trim (remote_of ''bot/tool'') = remote_of ''bot/tool''"
  "utf8_valid []" "trim [] = []"
  "utf8_valid ''file:config core.bare''"
  "\<not> list_ex rewrites_push (str_lines ''file:config core.bare'')"
  "split_byte CHR 0x00 ''src/a.rs'' = [''src/a.rs'']" "changed_path ''src/a.rs'' = Inr ''src/a.rs''"
  "json_strings (ab_run_envelope example_authority) [''routing'', ''protected_path_classes'']
    = Inr [''.github/**'']"
  "derive_protected_path_touched [''src/a.rs''] [''.github/**''] = Inr False"
  "json_bool (ab_governance_decision example_authority) [''protected_path_touched''] = Inr False"
  "pe_sha256 example_env ''+fix'' = ga_diff_digest example_push" "\<not> unsafe_path ''src/a.rs''"
  "ga_head_sha example_push = replicate 40 CHR ''b''" "ga_base_sha example_push = replicate 40 CHR ''a''"
  by code_simp+

subsection \<open>Properties\<close>

text \<open>C11: Whatever \<open>git\<close>, GitHub and the clock answer, and whether or not the application
  succeeds, the commands it runs that can change anything are at most three: one fork request
  for the approved repository, one push of exactly the approved head to the approved branch
  of the approved fork, one request that creates the approved draft, in this order; each is
  the first thing logged after a clock reading at which its action validates again; and a
  readback claims a fork or a push exactly when it happened.  So nothing is ever merged,
  approved or released.\<close>

theorem publication_writes_are_governed:
  "\<exists>es. sys_log (snd (apply_publication_plan (se_pub env) plan root_dir expected_push expected_draft
        now (system_transport env) trace)) = sys_log trace @ es
    \<and> governed (se_pub env) plan fork_command (push_command root_dir) (draft_command env)
        (fst (apply_publication_plan (se_pub env) plan root_dir expected_push expected_draft now
          (system_transport env) trace)) es"
proof (cases "validate_plan (se_pub env) plan expected_push expected_draft now")
  case (Inl e)
  then show ?thesis
    by (simp add: apply_publication_plan_def act_bind_def act_lift_def governed_def Let_def)
next
  case (Inr u)
  have "extends sys_log (apply_with_transport (se_pub env) plan root_dir (system_transport env))
      (governed (se_pub env) plan fork_command (push_command root_dir) (draft_command env))"
    by (rule system.apply_extends)
  with Inr show ?thesis
    by (simp add: extends_def apply_publication_plan_def act_bind_def act_lift_def)
qed

text \<open>The push reaches the approved destination or does not start: if the push command was
  run at all, then immediately before it the configuration was listed and no line of the
  listing was recognised as a push rewrite, and \<open>git\<close> resolved the approved URL to itself.\<close>

theorem push_is_preceded_by_its_guards:
  assumes "push_branch env root_dir fork branch head trace = (r, trace @ new)"
    and "Ran (push_command root_dir fork branch head) \<in> set new"
  shows "new = [Ran (config_command root_dir), Ran (get_url_command root_dir fork),
      Ran (push_command root_dir fork branch head)]
    \<and> (\<exists>listing trace1. command_output env (config_command root_dir) trace = (Inr listing, trace1)
        \<and> ou_success listing \<and> \<not> list_ex rewrites_push (str_lines (ou_stdout listing)))
    \<and> (\<exists>url trace1 trace2. command_output env (get_url_command root_dir fork) trace1 = (Inr url, trace2)
        \<and> ou_success url \<and> trim (ou_stdout url) = remote_of fork)"
proof -
  have cmds: "push_command root_dir fork branch head \<noteq> config_command root_dir"
    "push_command root_dir fork branch head \<noteq> get_url_command root_dir fork"
    using writing_commands(2) read_only_git(5,6) by metis+
  obtain g t1 where g: "ensure_no_git_push_rewrites env root_dir trace = (g, t1)" by fastforce
  have t1: "t1 = trace @ [Ran (config_command root_dir)]"
    using ensure_no_rewrites_trace [of env root_dir trace] by (simp add: g)
  from assms g t1 cmds have "g = Inr ()"
    by (cases g) (auto simp: push_branch_def act_bind_def)
  with g have listing: "\<exists>listing trace1. command_output env (config_command root_dir) trace = (Inr listing, trace1)
        \<and> ou_success listing \<and> \<not> list_ex rewrites_push (str_lines (ou_stdout listing))"
    by (auto simp: ensure_no_git_push_rewrites_def check_simps split: if_splits)
  obtain u t2 where u: "run_output env (get_url_command root_dir fork) t1 = (u, t2)" by fastforce
  have t2: "t2 = t1 @ [Ran (get_url_command root_dir fork)]"
    using run_output_trace [of env "get_url_command root_dir fork" t1] by (simp add: u)
  have "u = Inr (remote_of fork)"
  proof (rule ccontr)
    assume bad: "u \<noteq> Inr (remote_of fork)"
    have "push_branch env root_dir fork branch head trace = (r, t2)"
      using assms(1) g \<open>g = Inr ()\<close> u bad
      by (cases u) (auto simp: push_branch_def act_bind_def act_lift_def bail_if_def)
    with assms(1) t1 t2 have "new = [Ran (config_command root_dir), Ran (get_url_command root_dir fork)]"
      by simp
    with assms(2) cmds show False by auto
  qed
  with u have url: "\<exists>url trace1 trace2. command_output env (get_url_command root_dir fork) trace1
      = (Inr url, trace2) \<and> ou_success url \<and> trim (ou_stdout url) = remote_of fork"
    by (auto simp: run_output_ok) metis
  have "trace @ new = t2 @ [Ran (push_command root_dir fork branch head)]"
    using assms(1) g \<open>g = Inr ()\<close> u \<open>u = Inr (remote_of fork)\<close>
      run_checked_trace [of env "push_command root_dir fork branch head" t2]
    by (simp add: push_branch_def act_bind_def act_lift_def bail_if_def)
  with t1 t2 listing url show ?thesis by simp
qed

theorem push_is_preceded_by_its_guards_witness:
  "\<exists>url trace1 trace2. command_output example_sys (get_url_command ''.'' ''bot/tool'') trace1
      = (Inr url, trace2) \<and> trim (ou_stdout url) = remote_of ''bot/tool''"
proof -
  have "push_branch example_sys ''.'' ''bot/tool'' ''repair/7'' (replicate 40 CHR ''b'') [] =
    (Inr (), [] @ [Ran (config_command ''.''), Ran (get_url_command ''.'' ''bot/tool''),
      Ran (push_command ''.'' ''bot/tool'' ''repair/7'' (replicate 40 CHR ''b''))])"
    by (simp add: push_branch_def ensure_no_git_push_rewrites_def run_output_def run_checked_def
        run_bytes_def act_bind_def act_lift_def act_return_def bail_if_def example_git_simps
        example_text_simps del: utf8_valid.simps(2))
  from push_is_preceded_by_its_guards [OF this] show ?thesis by auto
qed

text \<open>C37: A repository that passes the local check is the approved one: its head is the
  approved commit, the work tree is clean, the diff has the approved digest, and no path that
  the diff lists is matched by a protected pattern of the run envelope.\<close>

theorem verified_repository_is_the_approved_one:
  assumes "verify_local_repository env root_dir plan trace = (Inr (), trace')"
    and "action = pp_push_action plan"
  shows "(\<exists>t t'. run_output env (git [''rev-parse'', ''HEAD''] root_dir) t = (Inr (ga_head_sha action), t'))
    \<and> (\<exists>t t'. run_output env (git [''status'', ''--porcelain''] root_dir) t = (Inr [], t'))
    \<and> (\<exists>diff t t'. read_governed_diff env root_dir (ga_base_sha action) (ga_head_sha action) t = (Inr diff, t')
        \<and> pe_sha256 (se_pub env) diff = ga_diff_digest action)
    \<and> (\<exists>paths patterns t t'. read_governed_changed_paths env root_dir (ga_base_sha action)
          (ga_head_sha action) t = (Inr paths, t')
        \<and> json_strings (ab_run_envelope (pp_authority plan)) [''routing'', ''protected_path_classes'']
          = Inr patterns
        \<and> (\<forall>pattern \<in> set patterns. \<forall>path \<in> set paths. \<not> protects pattern path))"
proof -
  from assms obtain paths patterns where "derive_protected_path_touched paths patterns = Inr False"
    and "\<exists>t t'. run_output env (git [''rev-parse'', ''HEAD''] root_dir) t = (Inr (ga_head_sha action), t')"
    and "\<exists>t t'. run_output env (git [''status'', ''--porcelain''] root_dir) t = (Inr [], t')"
    and "\<exists>diff t t'. read_governed_diff env root_dir (ga_base_sha action) (ga_head_sha action) t = (Inr diff, t')
        \<and> pe_sha256 (se_pub env) diff = ga_diff_digest action"
    and "\<exists>t t'. read_governed_changed_paths env root_dir (ga_base_sha action) (ga_head_sha action) t
        = (Inr paths, t')"
    and "json_strings (ab_run_envelope (pp_authority plan)) [''routing'', ''protected_path_classes'']
        = Inr patterns"
    by (simp add: verify_local_repository_def Let_def act_bind_ok act_lift_ok bail_if_ok) metis
  with derive_protected_path_touched_ok [of paths patterns False] show ?thesis by blast
qed

theorem verified_repository_is_the_approved_one_witness:
  "\<exists>t t'. run_output example_sys (git [''status'', ''--porcelain''] ''.'') t = (Inr [], t')"
proof -
  have "fst (verify_local_repository example_sys ''.'' example_plan_doc []) = Inr ()"
    by (simp add: verify_local_repository_def read_governed_diff_def read_governed_changed_paths_def
        run_output_def run_checked_def run_bytes_def act_bind_def act_lift_def act_return_def
        act_context_def bail_if_def example_git_simps example_text_simps Let_def
        del: derive_protected_path_touched.simps utf8_valid.simps(2))
  then obtain trace' where
    "verify_local_repository example_sys ''.'' example_plan_doc [] = (Inr (), trace')"
    by (metis prod.collapse)
  from verified_repository_is_the_approved_one [OF this refl] show ?thesis by blast
qed

text \<open>The memory kept from a child's pipe is bounded and the cut is always reported: the
  retained bytes are the first \<open>max_command_output_bytes\<close> of the stream, and the flag is set
  exactly when the stream was longer.\<close>

theorem pipe_is_bounded:
  assumes "[] \<notin> set chunks"
  shows "read_bounded_pipe chunks = (take max_command_output_bytes (concat chunks),
    max_command_output_bytes < length (concat chunks))"
  using pipe_loop_bounded [of "[]" chunks False] assms by (simp add: read_bounded_pipe_def)

theorem pipe_is_bounded_witness:
  "fst (read_bounded_pipe [''ab'', ''c'']) = ''abc''"
  using pipe_is_bounded [of "[''ab'', ''c'']"] by (simp add: max_command_output_bytes_def)

end
