(* ===== verification/Task_Order.thy ===== *)
theory Task_Order
  imports Sdd_Cycles "HOL-Library.Multiset"
begin

text \<open>
  The dependency scheduler that the run front end (\<open>ao2_run_spec_ordered_tasks\<close> in
  \<open>crates/ao2-cli/src/run_execution.rs\<close>) and the runtime (\<open>sdd_workflow_task_order\<close> in
  \<open>crates/ao2-runtime/src/lib.rs\<close>) each contain: passes over the task list, each of which
  appends the tasks whose dependencies are complete, until every task is placed or a pass
  makes no progress.  The two loops differ in the error texts and in where the
  dependencies come from; these are arguments here.  The locale \<open>scheduler\<close> states what
  both promise, and \<open>order_loop\<close> is shown to return exactly when the dependencies allow it.
\<close>

subsection \<open>One pass and the loop\<close>

text \<open>The state of a pass: the tasks placed, their ids, and whether this pass placed any.\<close>

fun order_pass :: "('a \<Rightarrow> string rresult) \<Rightarrow> (string \<Rightarrow> 'a \<Rightarrow> string list rresult) \<Rightarrow> 'a list
    \<Rightarrow> 'a list \<times> string list \<times> bool \<Rightarrow> ('a list \<times> string list \<times> bool) rresult" where
  "order_pass task_id deps_of [] st = Inr st"
| "order_pass task_id deps_of (t # ts) (ordered, completed, progressed) =
     rbind (task_id t) (\<lambda>i.
       if i \<in> set completed then order_pass task_id deps_of ts (ordered, completed, progressed)
       else rbind (deps_of i t) (\<lambda>deps.
         if list_all (\<lambda>d. d \<in> set completed) deps
         then order_pass task_id deps_of ts (ordered @ [t], i # completed, True)
         else order_pass task_id deps_of ts (ordered, completed, progressed)))"

lemma order_pass_progress:
  "order_pass f g ts (ordered, completed, progressed) = Inr (ordered', completed', True)
    \<Longrightarrow> \<not> progressed \<Longrightarrow> length ordered < length ordered'"
proof -
  have grow: "order_pass f g ts (os, cs, p) = Inr (os', cs', p') \<Longrightarrow>
      length os \<le> length os' \<and> (p' \<longrightarrow> p \<or> length os < length os')" for ts os cs p os' cs' p'
  proof (induction ts arbitrary: os cs p)
    case (Cons t ts)
    then show ?case
      by (fastforce simp: rbind_eq_Inr split: if_splits dest!: Cons.IH)
  qed simp
  assume "order_pass f g ts (ordered, completed, progressed) = Inr (ordered', completed', True)"
    and "\<not> progressed"
  with grow [OF this(1)] show ?thesis by simp
qed

function order_loop :: "string \<Rightarrow> ('a \<Rightarrow> string rresult) \<Rightarrow> (string \<Rightarrow> 'a \<Rightarrow> string list rresult)
    \<Rightarrow> 'a list \<Rightarrow> 'a list \<Rightarrow> string list \<Rightarrow> 'a list rresult" where
  "order_loop cycle_message task_id deps_of tasks ordered completed =
     (if length ordered < length tasks then
        (case order_pass task_id deps_of tasks (ordered, completed, False) of
           Inl e \<Rightarrow> Inl e
         | Inr (ordered', completed', progressed) \<Rightarrow>
             if progressed
             then order_loop cycle_message task_id deps_of tasks ordered' completed'
             else Inl cycle_message)
      else Inr ordered)"
  by pat_completeness auto
termination
  by (relation "measure (\<lambda>(_, _, _, tasks, ordered, _). length tasks - length ordered)")
    (auto dest!: order_pass_progress)

declare order_loop.simps [simp del]

subsection \<open>What a schedule is\<close>

text \<open>Every task once, under distinct ids, and each after everything it needs.\<close>

definition after_needs :: "('a \<Rightarrow> string) \<Rightarrow> ('a \<Rightarrow> string set) \<Rightarrow> 'a list \<Rightarrow> bool" where
  "after_needs tid needs ts \<longleftrightarrow> (\<forall>i < length ts. needs (ts ! i) \<subseteq> tid ` set (take i ts))"

definition topological :: "('a \<Rightarrow> string) \<Rightarrow> ('a \<Rightarrow> string set) \<Rightarrow> 'a list \<Rightarrow> 'a list \<Rightarrow> bool" where
  "topological tid needs tasks out \<longleftrightarrow>
     mset out = mset tasks \<and> distinct (map tid out) \<and> after_needs tid needs out"

text \<open>The graph on the ids, and the inputs that have a schedule.\<close>

definition task_graph :: "('a \<Rightarrow> string) \<Rightarrow> ('a \<Rightarrow> string set) \<Rightarrow> 'a list \<Rightarrow> (string \<times> string) set" where
  "task_graph tid needs tasks = {(tid t, d) | t d. t \<in> set tasks \<and> d \<in> needs t}"

definition schedulable :: "('a \<Rightarrow> string) \<Rightarrow> ('a \<Rightarrow> string set) \<Rightarrow> 'a list \<Rightarrow> bool" where
  "schedulable tid needs tasks \<longleftrightarrow>
     distinct (map tid tasks) \<and> (\<forall>t \<in> set tasks. needs t \<subseteq> tid ` set tasks)
     \<and> acyclic (task_graph tid needs tasks)"

lemma after_needs_Nil [simp]: "after_needs tid needs []"
  by (simp add: after_needs_def)

lemma after_needs_snoc:
  "after_needs tid needs (ts @ [t]) \<longleftrightarrow> after_needs tid needs ts \<and> needs t \<subseteq> tid ` set ts"
  unfolding after_needs_def
  by (auto simp: nth_append less_Suc_eq all_conj_distrib)

lemma after_needs_append:
  "after_needs tid needs (ts @ us) \<Longrightarrow> after_needs tid needs ts"
  by (induction us rule: rev_induct) (auto simp: after_needs_snoc simp flip: append_assoc)

lemma after_needs_acyclic:
  "after_needs tid needs ts \<Longrightarrow> distinct (map tid ts) \<Longrightarrow> acyclic (task_graph tid needs ts)"
proof (induction ts rule: rev_induct)
  case Nil
  then show ?case by (simp add: task_graph_def acyclic_def)
next
  case (snoc t ts)
  then have IH: "acyclic (task_graph tid needs ts)" and n: "needs t \<subseteq> tid ` set ts"
    and new: "tid t \<notin> tid ` set ts" and pre: "after_needs tid needs ts"
    by (auto simp: after_needs_snoc)
  have closed: "needs u \<subseteq> tid ` set ts" if "u \<in> set ts" for u
  proof -
    from that obtain i where "i < length ts" and "u = ts ! i" by (metis in_set_conv_nth)
    with pre have "needs u \<subseteq> tid ` set (take i ts)" by (auto simp: after_needs_def)
    then show ?thesis using set_take_subset by fastforce
  qed
  have split: "task_graph tid needs (ts @ [t]) = task_graph tid needs ts \<union> {tid t} \<times> needs t"
    by (auto simp: task_graph_def)
  show ?case
    unfolding acyclic_def
  proof (intro allI notI)
    fix x
    assume "(x, x) \<in> (task_graph tid needs (ts @ [t]))\<^sup>+"
    moreover have "(x, y) \<in> (task_graph tid needs (ts @ [t]))\<^sup>+ \<Longrightarrow>
        y \<in> tid ` set ts \<and> (x \<in> tid ` set ts \<longrightarrow> (x, y) \<in> (task_graph tid needs ts)\<^sup>+)" for y
    proof (induction rule: trancl_induct)
      case (base y)
      then show ?case using n new subsetD [OF closed] unfolding split by (auto simp: task_graph_def)
    next
      case (step y z)
      then have "y \<noteq> tid t" using new by metis
      then have "(y, z) \<in> task_graph tid needs ts" using step(2) unfolding split by auto
      then show ?case using step subsetD [OF closed]
        by (auto simp: task_graph_def intro: trancl_into_trancl)
    qed
    ultimately show False using IH by (auto simp: acyclic_def)
  qed
qed

lemma topological_schedulable:
  assumes "topological tid needs tasks out"
  shows "schedulable tid needs tasks"
proof -
  have m: "mset out = mset tasks" and d: "distinct (map tid out)" and a: "after_needs tid needs out"
    using assms by (auto simp: topological_def)
  have "set out = set tasks" using m by (rule mset_eq_setD)
  moreover have "distinct (map tid tasks)"
    using d m mset_eq_imp_distinct_iff [of "map tid out" "map tid tasks"] by simp
  moreover have "needs t \<subseteq> tid ` set out" if "t \<in> set out" for t
  proof -
    from that obtain i where "i < length out" and "t = out ! i" by (metis in_set_conv_nth)
    with a have "needs t \<subseteq> tid ` set (take i out)" by (auto simp: after_needs_def)
    then show ?thesis using set_take_subset by fastforce
  qed
  moreover have "task_graph tid needs tasks = task_graph tid needs out"
    using \<open>set out = set tasks\<close> by (simp add: task_graph_def)
  ultimately show ?thesis
    using after_needs_acyclic [OF a d] by (simp add: schedulable_def)
qed

text \<open>As long as something is missing, one of the missing tasks waits for none of them.\<close>

lemma schedulable_ready:
  assumes "schedulable tid needs tasks" and "rest \<subseteq> tid ` set tasks" and "rest \<noteq> {}"
  shows "\<exists>t \<in> set tasks. tid t \<in> rest \<and> needs t \<inter> rest = {}"
proof -
  let ?G = "task_graph tid needs tasks"
  have "?G \<subseteq> (tid ` set tasks) \<times> (tid ` set tasks)"
    using assms(1) by (auto simp: task_graph_def schedulable_def)
  then have "finite ?G" by (rule finite_subset) simp
  moreover have "acyclic ?G" using assms(1) by (simp add: schedulable_def)
  ultimately have "wf (?G\<inverse>)" by (rule finite_acyclic_wf_converse)
  then obtain n where n: "n \<in> rest" and least: "\<And>m. (n, m) \<in> ?G \<Longrightarrow> m \<notin> rest"
    using assms(3) wfE_min' [of "?G\<inverse>" rest] by auto
  from n assms(2) obtain t where "t \<in> set tasks" and "n = tid t" by auto
  then show ?thesis using n least by (fastforce simp: task_graph_def)
qed

subsection \<open>The loop computes schedules\<close>

text \<open>On tasks whose ids and dependencies can be read, the state is a partial schedule.\<close>

definition partial_order :: "('a \<Rightarrow> string) \<Rightarrow> ('a \<Rightarrow> string set) \<Rightarrow> 'a list \<Rightarrow> 'a list \<Rightarrow> string list \<Rightarrow> bool" where
  "partial_order tid needs tasks ordered completed \<longleftrightarrow>
     set ordered \<subseteq> set tasks \<and> distinct (map tid ordered) \<and> after_needs tid needs ordered
     \<and> set completed = tid ` set ordered"

definition readable :: "('a \<Rightarrow> string rresult) \<Rightarrow> (string \<Rightarrow> 'a \<Rightarrow> string list rresult)
    \<Rightarrow> ('a \<Rightarrow> string) \<Rightarrow> ('a \<Rightarrow> string set) \<Rightarrow> 'a \<Rightarrow> bool" where
  "readable task_id deps_of tid needs t \<longleftrightarrow>
     task_id t = Inr (tid t) \<and> (\<exists>ds. deps_of (tid t) t = Inr ds \<and> set ds = needs t)"

lemma readable_id: "readable f g tid needs t \<Longrightarrow> f t = Inr (tid t)"
  and readable_deps: "readable f g tid needs t \<Longrightarrow> g (tid t) t = Inr ds \<Longrightarrow> set ds = needs t"
  by (auto simp: readable_def)

lemma partial_order_start [simp]: "partial_order tid needs tasks [] []"
  by (simp add: partial_order_def)

lemma order_pass_sound:
  assumes "order_pass f g ts (os, cs, p) = Inr (os', cs', p')"
    and "\<And>t ds. t \<in> set ts \<Longrightarrow> f t = Inr (tid t)"
    and "\<And>t ds. t \<in> set ts \<Longrightarrow> g (tid t) t = Inr ds \<Longrightarrow> set ds = needs t"
    and "set ts \<subseteq> set tasks" and "partial_order tid needs tasks os cs"
  shows "partial_order tid needs tasks os' cs'"
  using assms
proof (induction ts arbitrary: os cs p)
  case (Cons t ts)
  have t: "f t = Inr (tid t)" by (simp add: Cons.prems(2))
  show ?case
  proof (cases "tid t \<in> set cs")
    case True
    then show ?thesis using Cons.prems(1) t Cons.prems(2-5)
      by (intro Cons.IH [of os cs p]) auto
  next
    case False
    with Cons.prems(1) t obtain ds where ds: "g (tid t) t = Inr ds"
      and rest: "(if list_all (\<lambda>d. d \<in> set cs) ds
        then order_pass f g ts (os @ [t], tid t # cs, True)
        else order_pass f g ts (os, cs, p)) = Inr (os', cs', p')"
      by (auto simp: rbind_eq_Inr)
    have n: "set ds = needs t" using Cons.prems(3) ds by simp
    show ?thesis
    proof (cases "list_all (\<lambda>d. d \<in> set cs) ds")
      case True
      have "partial_order tid needs tasks (os @ [t]) (tid t # cs)"
        using Cons.prems(4,5) False True n
        by (auto simp: partial_order_def after_needs_snoc list_all_iff)
      with rest True show ?thesis using Cons.prems(2-4)
        by (intro Cons.IH [of "os @ [t]" "tid t # cs" True]) auto
    next
      case False
      with rest show ?thesis using Cons.prems(2-5)
        by (intro Cons.IH [of os cs p]) auto
    qed
  qed
qed simp

lemma order_pass_total:
  assumes "\<And>t. t \<in> set ts \<Longrightarrow> readable f g tid needs t"
  shows "\<exists>os' cs' p'. order_pass f g ts (os, cs, p) = Inr (os', cs', p')
    \<and> (p \<longrightarrow> p') \<and> (\<not> p' \<longrightarrow> (\<forall>t \<in> set ts. tid t \<in> set cs \<or> \<not> needs t \<subseteq> set cs))"
  using assms
proof (induction ts arbitrary: os cs p)
  case (Cons t ts)
  have "readable f g tid needs t" by (simp add: Cons.prems)
  then obtain ds where t: "f t = Inr (tid t)" and ds: "g (tid t) t = Inr ds" "set ds = needs t"
    by (auto simp: readable_def)
  have IH: "\<exists>os' cs' p'. order_pass f g ts (os, cs, p) = Inr (os', cs', p')
    \<and> (p \<longrightarrow> p') \<and> (\<not> p' \<longrightarrow> (\<forall>t \<in> set ts. tid t \<in> set cs \<or> \<not> needs t \<subseteq> set cs))" for os cs p
    by (rule Cons.IH) (simp add: Cons.prems)
  show ?case
  proof (cases "tid t \<notin> set cs \<and> needs t \<subseteq> set cs")
    case True
    then have "list_all (\<lambda>d. d \<in> set cs) ds" using ds(2) by (auto simp: list_all_iff)
    with True IH [of "os @ [t]" "tid t # cs" True] show ?thesis
      by (auto simp: t ds(1))
  next
    case False
    then have "tid t \<in> set cs \<or> \<not> list_all (\<lambda>d. d \<in> set cs) ds"
      using ds(2) by (auto simp: list_all_iff)
    with False IH [of os cs p] show ?thesis by (auto simp: t ds(1))
  qed
qed auto

lemma partial_order_complete:
  assumes "partial_order tid needs tasks ordered completed" and "distinct (map tid tasks)"
    and "\<not> length ordered < length tasks"
  shows "topological tid needs tasks ordered"
proof -
  have o: "set ordered \<subseteq> set tasks" and d: "distinct (map tid ordered)"
    using assms(1) by (auto simp: partial_order_def)
  have "distinct tasks" and "distinct ordered" using assms(2) d by (auto simp: distinct_map)
  then have "card (set tasks) \<le> card (set ordered)"
    using assms(3) by (simp add: distinct_card)
  with o have "set ordered = set tasks" by (intro card_seteq) auto
  with \<open>distinct tasks\<close> \<open>distinct ordered\<close> have "mset ordered = mset tasks"
    by (simp add: set_eq_iff_mset_eq_distinct)
  then show ?thesis using assms(1) by (simp add: topological_def partial_order_def)
qed

lemma partial_order_distinct:
  assumes "partial_order tid needs tasks ordered completed"
    and "\<not> length ordered < length tasks"
  shows "distinct (map tid tasks)"
proof -
  have o: "set ordered \<subseteq> set tasks" and d: "distinct (map tid ordered)"
    using assms(1) by (auto simp: partial_order_def)
  have "length tasks \<le> card (tid ` set ordered)"
    using assms(2) d by (metis distinct_card leI length_map list.set_map)
  also have "\<dots> \<le> card (tid ` set tasks)" using o by (intro card_mono) auto
  finally have "card (set (map tid tasks)) = length (map tid tasks)"
    using card_length [of "map tid tasks"] by simp
  then show ?thesis by (rule card_distinct)
qed

lemma order_loop_sound:
  assumes "order_loop msg f g tasks os cs = Inr out"
    and "\<And>t. t \<in> set tasks \<Longrightarrow> f t = Inr (tid t)"
    and "\<And>t ds. t \<in> set tasks \<Longrightarrow> g (tid t) t = Inr ds \<Longrightarrow> set ds = needs t"
    and "partial_order tid needs tasks os cs"
  shows "topological tid needs tasks out"
  using assms
proof (induction msg f g tasks os cs rule: order_loop.induct)
  case (1 msg f g tasks os cs)
  show ?case
  proof (cases "length os < length tasks")
    case True
    with "1.prems"(1) obtain os' cs' where
      pass: "order_pass f g tasks (os, cs, False) = Inr (os', cs', True)"
      and rest: "order_loop msg f g tasks os' cs' = Inr out"
      by (subst (asm) order_loop.simps) (auto split: sum.splits if_splits)
    have "partial_order tid needs tasks os' cs'"
      using "1.prems" by (intro order_pass_sound [OF pass]) auto
    with "1.IH" [OF True pass refl refl TrueI rest] "1.prems" show ?thesis by blast
  next
    case False
    with "1.prems"(1) have "out = os" by (subst (asm) order_loop.simps) simp
    with False "1.prems"(4) show ?thesis
      using partial_order_complete partial_order_distinct by blast
  qed
qed

lemma order_loop_complete:
  assumes "schedulable tid needs tasks" and "\<And>t. t \<in> set tasks \<Longrightarrow> readable f g tid needs t"
    and "partial_order tid needs tasks os cs"
  shows "\<exists>out. order_loop msg f g tasks os cs = Inr out"
  using assms
proof (induction msg f g tasks os cs rule: order_loop.induct)
  case (1 msg f g tasks os cs)
  show ?case
  proof (cases "length os < length tasks")
    case True
    from order_pass_total [of tasks f g tid needs os cs False, OF "1.prems"(2)]
    obtain os' cs' p' where pass: "order_pass f g tasks (os, cs, False) = Inr (os', cs', p')"
      and stuck: "\<not> p' \<Longrightarrow> \<forall>t \<in> set tasks. tid t \<in> set cs \<or> \<not> needs t \<subseteq> set cs"
      by blast
    have part: "set cs = tid ` set os" "set os \<subseteq> set tasks" "distinct (map tid os)"
      using "1.prems"(3) by (auto simp: partial_order_def)
    have "tid ` set tasks - set cs \<noteq> {}"
    proof
      assume "tid ` set tasks - set cs = {}"
      then have "card (tid ` set tasks) \<le> card (set cs)" by (intro card_mono) auto
      also have "\<dots> = length os" using part(1,3) by (metis distinct_card length_map list.set_map)
      finally show False using True "1.prems"(1)
        by (metis schedulable_def distinct_card length_map list.set_map not_less)
    qed
    from schedulable_ready [OF "1.prems"(1) _ this] obtain t
      where "t \<in> set tasks" "tid t \<notin> set cs" "needs t \<inter> (tid ` set tasks - set cs) = {}" by auto
    then have "p'" using stuck "1.prems"(1) by (fastforce simp: schedulable_def)
    have "partial_order tid needs tasks os' cs'"
      using "1.prems"(3) by (intro order_pass_sound [OF pass])
        (auto dest: readable_id readable_deps dest!: "1.prems"(2))
    with "1.IH" [OF True pass refl refl \<open>p'\<close>] "1.prems" have
      "\<exists>out. order_loop msg f g tasks os' cs' = Inr out" by blast
    then show ?thesis using True pass \<open>p'\<close> by (subst order_loop.simps) simp
  next
    case False
    then show ?thesis by (subst order_loop.simps) simp
  qed
qed

lemma order_loop_iff:
  assumes "\<And>t. t \<in> set tasks \<Longrightarrow> readable f g tid needs t"
  shows "(\<exists>out. order_loop msg f g tasks [] [] = Inr out) \<longleftrightarrow> schedulable tid needs tasks"
proof
  assume "\<exists>out. order_loop msg f g tasks [] [] = Inr out"
  then obtain out where "order_loop msg f g tasks [] [] = Inr out" ..
  from order_loop_sound [OF this, of tid needs] readable_id readable_deps assms
  have "topological tid needs tasks out" by fastforce
  then show "schedulable tid needs tasks" by (rule topological_schedulable)
next
  assume "schedulable tid needs tasks"
  from order_loop_complete [OF this assms] show "\<exists>out. order_loop msg f g tasks [] [] = Inr out"
    by simp
qed

subsection \<open>The contract\<close>

text \<open>What the callers of a task order rely on.  \<open>well_formed\<close> collects what must hold of the
  input besides having a schedule (ids present, dependencies readable).\<close>

locale scheduler =
  fixes schedule :: "'s \<Rightarrow> 'a list rresult"
    and tasks_of :: "'s \<Rightarrow> 'a list"
    and tid :: "'a \<Rightarrow> string"
    and needs :: "'s \<Rightarrow> 'a \<Rightarrow> string set"
    and well_formed :: "'s \<Rightarrow> bool"
  assumes schedule_sound:
      "schedule s = Inr out \<Longrightarrow> topological tid (needs s) (tasks_of s) out"
    and schedule_complete:
      "well_formed s \<Longrightarrow> schedulable tid (needs s) (tasks_of s) \<Longrightarrow> \<exists>out. schedule s = Inr out"
begin

lemma schedule_iff:
  "well_formed s \<Longrightarrow> (\<exists>out. schedule s = Inr out) \<longleftrightarrow> schedulable tid (needs s) (tasks_of s)"
  using schedule_sound schedule_complete topological_schedulable by metis

lemma same_tasks: "schedule s = Inr out \<Longrightarrow> set out = set (tasks_of s)"
  by (drule schedule_sound) (auto simp: topological_def dest: mset_eq_setD)

lemma need_comes_first:
  assumes "schedule s = Inr out" and "i < length out" and "d \<in> needs s (out ! i)"
  shows "\<exists>j < i. tid (out ! j) = d"
proof -
  from schedule_sound [OF assms(1)] assms(2,3) have "d \<in> tid ` set (take i out)"
    by (auto simp: topological_def after_needs_def)
  then obtain j where "j < length (take i out)" and "d = tid (take i out ! j)"
    by (auto simp: in_set_conv_nth)
  then show ?thesis using assms(2) by (intro exI [of _ j]) simp
qed

lemma first_needs_nothing:
  "schedule s = Inr (t # out) \<Longrightarrow> needs s t = {}"
  using need_comes_first [of s "t # out" 0] by auto

lemma distinct_ids: "schedule s = Inr out \<Longrightarrow> distinct (map tid out)"
  by (drule schedule_sound) (simp add: topological_def)

lemma no_self_dependency:
  "schedule s = Inr out \<Longrightarrow> t \<in> set (tasks_of s) \<Longrightarrow> tid t \<notin> needs s t"
  using topological_schedulable [OF schedule_sound, of s out]
  by (fastforce simp: schedulable_def acyclic_def task_graph_def)

end

text \<open>Two loops that see the same ids and the same dependencies place the tasks in the same
  order.\<close>

lemma order_pass_map:
  assumes "order_pass f g ts (os, cs, p) = Inr (os', cs', p')"
    and "\<And>t. t \<in> set ts \<Longrightarrow> f' (h t) = f t"
    and "\<And>t i ds. t \<in> set ts \<Longrightarrow> f t = Inr i \<Longrightarrow> g i t = Inr ds \<Longrightarrow>
        \<exists>ds'. g' i (h t) = Inr ds' \<and> set ds' = set ds"
  shows "order_pass f' g' (map h ts) (map h os, cs, p) = Inr (map h os', cs', p')"
  using assms
proof (induction ts arbitrary: os cs p)
  case (Cons t ts)
  have IH: "order_pass f g ts (os, cs, p) = Inr (os', cs', p') \<Longrightarrow>
      order_pass f' g' (map h ts) (map h os, cs, p) = Inr (map h os', cs', p')" for os cs p
    by (rule Cons.IH) (simp_all add: Cons.prems(2,3))
  from Cons.prems(1) obtain i where i: "f t = Inr i" by (auto simp: rbind_eq_Inr)
  then have i': "f' (h t) = Inr i" using Cons.prems(2) by simp
  show ?case
  proof (cases "i \<in> set cs")
    case True
    with Cons.prems(1) i IH show ?thesis by (simp add: i')
  next
    case False
    with Cons.prems(1) i obtain ds where ds: "g i t = Inr ds" by (auto simp: rbind_eq_Inr)
    from Cons.prems(3) [OF _ i ds] obtain ds' where "g' i (h t) = Inr ds'" and "set ds' = set ds"
      by auto
    moreover from this have "list_all P ds' = list_all P ds" for P by (simp add: list_all_iff)
    moreover have "(if list_all (\<lambda>d. d \<in> set cs) ds
        then order_pass f g ts (os @ [t], i # cs, True) else order_pass f g ts (os, cs, p)) =
      Inr (os', cs', p')"
      using Cons.prems(1) i ds False by simp
    ultimately show ?thesis
      using i' False IH [of "os @ [t]" "i # cs" True] IH [of os cs p] by (auto split: if_splits)
  qed
qed simp

lemma order_loop_map:
  assumes "order_loop m f g tasks os cs = Inr out"
    and "\<And>t. t \<in> set tasks \<Longrightarrow> f' (h t) = f t"
    and "\<And>t i ds. t \<in> set tasks \<Longrightarrow> f t = Inr i \<Longrightarrow> g i t = Inr ds \<Longrightarrow>
        \<exists>ds'. g' i (h t) = Inr ds' \<and> set ds' = set ds"
  shows "order_loop m' f' g' (map h tasks) (map h os) cs = Inr (map h out)"
  using assms
proof (induction m f g tasks os cs rule: order_loop.induct)
  case (1 m f g tasks os cs)
  show ?case
  proof (cases "length os < length tasks")
    case True
    with "1.prems"(1) obtain os' cs' where
      pass: "order_pass f g tasks (os, cs, False) = Inr (os', cs', True)"
      and rest: "order_loop m f g tasks os' cs' = Inr out"
      by (subst (asm) order_loop.simps) (auto split: sum.splits if_splits)
    from "1.IH" [OF True pass refl refl TrueI rest] "1.prems"(2,3)
    have "order_loop m' f' g' (map h tasks) (map h os') cs' = Inr (map h out)" by blast
    moreover have "order_pass f' g' (map h tasks) (map h os, cs, False) = Inr (map h os', cs', True)"
      using "1.prems"(2,3) by (intro order_pass_map [OF pass])
    ultimately show ?thesis using True by (subst order_loop.simps) simp
  next
    case False
    with "1.prems"(1) show ?thesis
      by (subst order_loop.simps, subst (asm) order_loop.simps) simp
  qed
qed

end
