(* ===== verification/Run_Spec.thy ===== *)
theory Run_Spec
  imports Task_Order Sdd_Dispatch Atomic_Write
begin

text \<open>
  The front end of a governed run, \<open>crates/ao2-cli/src/run_execution.rs\<close>: loading an
  \<open>ao2.run/v1\<close> document, its task order, the workflow file that is materialised from it,
  and the records of the tasks in the evidence pack.  The YAML parser and writer, SHA-256
  and the files are arguments.
\<close>

subsection \<open>The document\<close>

text \<open>How serde writes the run of \<open>dispatch/ao2_run.rs\<close>.\<close>

definition run_task_json :: "run_task \<Rightarrow> json" where
  "run_task_json t = json_object
     [(''id'', JString (rt_id t)), (''kind'', JString (step_kind_name (rt_kind t))),
      (''deps'', json_string_array (rt_deps t)), (''paths'', json_string_array (rt_paths t)),
      (''rationale'', JString (rt_rationale t)), (''acceptance'', json_string_array (rt_acceptance t))]"

definition run_source_json :: "run_source_ref \<Rightarrow> json" where
  "run_source_json s = json_object
     [(''schema_version'', JString (sr_schema_version s)), (''plan_id'', JString (sr_plan_id s)),
      (''generated_at_utc'', JString (sr_generated_at_utc s))]"

definition prompt_json :: "sdd_prompt \<Rightarrow> json" where
  "prompt_json p = json_object [(''text'', JString (pr_text p)), (''sha256'', JString (pr_sha256 p))]"

definition target_json :: "sdd_target \<Rightarrow> json" where
  "target_json t = json_object
     [(''repo_path'', JString (tg_repo_path t)), (''head_sha'', JString (tg_head_sha t)),
      (''head_subject'', JString (tg_head_subject t)),
      (''surface_map_sha256'', JString (tg_surface_map_sha256 t))]"

definition provenance_json :: "provenance \<Rightarrow> json" where
  "provenance_json p = json_object
     [(''attempts'', json_nat (pv_attempts p)), (''provider'', JString (pv_provider p)),
      (''engine_sha'', JString (pv_engine_sha p)), (''cli_version'', JString (pv_cli_version p))]"

definition trust_boundary_json :: "trust_boundary \<Rightarrow> json" where
  "trust_boundary_json t = json_object
     [(''control_plane_role'', JString (tb_control_plane_role t)),
      (''mutates_ao_artifacts'', JBool (tb_mutates_ao_artifacts t)),
      (''ingest_authority'', JString (tb_ingest_authority t)),
      (''release_acceptance_owner'', JString (tb_release_acceptance_owner t))]"

definition exit_criteria_json :: "exit_criteria \<Rightarrow> json" where
  "exit_criteria_json e = json_object
     [(''tests'', json_string_array (ec_tests e)), (''gates'', json_string_array (ec_gates e)),
      (''manual'', json_string_array (ec_manual e))]"

definition run_body_json :: "run_spec \<Rightarrow> json" where
  "run_body_json s = json_object
     [(''source'', run_source_json (sp_source s)),
      (''plan_kind'', JString (plan_kind_name (sp_plan_kind s))),
      (''goal'', JString (sp_goal s)), (''non_goals'', json_string_array (sp_non_goals s)),
      (''prompt'', prompt_json (sp_prompt s)), (''target'', target_json (sp_target s)),
      (''provenance'', provenance_json (sp_provenance s)),
      (''trust_boundary'', trust_boundary_json (sp_trust_boundary s)),
      (''tasks'', JArray (map run_task_json (sp_tasks s))),
      (''exit_criteria'', exit_criteria_json (sp_exit_criteria s))]"

definition run_document :: "ao2_run_spec \<Rightarrow> json" where
  "run_document r = json_object
     [(''apiVersion'', JString (ar_api_version r)), (''kind'', JString (ar_kind r)),
      (''metadata'', json_object [(''name'', JString (md_name (ar_metadata r))),
          (''description'', JString (md_description (ar_metadata r)))]),
      (''spec'', run_body_json (ar_spec r))]"

subsection \<open>Loading\<close>

record loaded_run =
  lr_path :: string
  lr_spec_sha256 :: string
  lr_value :: json
  lr_api_version :: string
  lr_plan_id :: string
  lr_source_schema :: string
  lr_target_repo :: string
  lr_control_plane_role :: string
  lr_mutates_ao_artifacts :: bool
  lr_tasks :: "json list"

text \<open>A string field of a document or of one of its objects.\<close>

definition required_str :: "string \<Rightarrow> json \<Rightarrow> string \<Rightarrow> string rresult" where
  "required_str msg v k = with_context msg (get_str v k)"

definition required_object :: "string \<Rightarrow> json \<Rightarrow> string \<Rightarrow> json rresult" where
  "required_object msg v k =
     with_context msg (map_option JObject (Option.bind (json_get v k) as_object))"

definition load_ao2_run_value ::
    "(string \<Rightarrow> string) \<Rightarrow> string \<Rightarrow> string option \<Rightarrow> string \<Rightarrow> json \<Rightarrow> loaded_run rresult" where
  "load_ao2_run_value sha256_hex spec target_override spec_text v =
     rbind (required_str ''ao2 run spec apiVersion is required'' v ''apiVersion'') (\<lambda>api.
     rbind (bail_if (api \<noteq> ''ao2.run/v1'') (''unsupported ao2 run spec apiVersion: '' @ api)) (\<lambda>_.
     rbind (required_str ''ao2 run spec kind is required'' v ''kind'') (\<lambda>kind.
     rbind (bail_if (kind \<noteq> ''Run'') (''unsupported ao2 run spec kind: '' @ kind)) (\<lambda>_.
     rbind (required_object ''ao2 run spec body is required'' v ''spec'') (\<lambda>body.
     rbind (required_object ''ao2 run spec source is required'' body ''source'') (\<lambda>source.
     rbind (required_str ''ao2 run spec source.plan_id is required'' source ''plan_id'') (\<lambda>plan_id.
     rbind (required_str ''ao2 run spec source.schema_version is required'' source ''schema_version'') (\<lambda>schema.
     rbind (bail_if (schema \<noteq> ''ao2.sdd-plan.v1'')
       ''ao2 run spec source.schema_version must be ao2.sdd-plan.v1'') (\<lambda>_.
     rbind (required_object ''ao2 run spec target is required'' body ''target'') (\<lambda>target.
     rbind (required_str ''ao2 run spec target.repo_path is required'' target ''repo_path'') (\<lambda>repo.
     rbind (case target_override of None \<Rightarrow> Inr ()
       | Some other \<Rightarrow> bail_if (other \<noteq> repo)
           (''--target override '' @ other @ '' does not match ao2 run spec target.repo_path '' @ repo)) (\<lambda>_.
     rbind (required_object ''ao2 run spec trust_boundary is required'' body ''trust_boundary'') (\<lambda>trust.
     rbind (required_str ''ao2 run spec trust_boundary.control_plane_role is required'' trust
       ''control_plane_role'') (\<lambda>role.
     rbind (bail_if (role \<noteq> ''read_only_observer'')
       ''ao2 run spec trust_boundary.control_plane_role must be read_only_observer'') (\<lambda>_.
     rbind (with_context ''ao2 run spec trust_boundary.mutates_ao_artifacts is required''
       (Option.bind (json_get trust ''mutates_ao_artifacts'') as_bool)) (\<lambda>mutates.
     rbind (bail_if mutates ''ao2 run spec trust_boundary.mutates_ao_artifacts must be false'') (\<lambda>_.
     rbind (with_context ''ao2 run spec tasks are required''
       (Option.bind (json_get body ''tasks'') as_array)) (\<lambda>tasks.
     rbind (bail_if (tasks = []) ''ao2 run spec tasks must not be empty'') (\<lambda>_.
     Inr \<lparr>lr_path = spec, lr_spec_sha256 = sha256_hex spec_text, lr_value = v,
       lr_api_version = api, lr_plan_id = plan_id, lr_source_schema = schema,
       lr_target_repo = repo, lr_control_plane_role = role, lr_mutates_ao_artifacts = mutates,
       lr_tasks = tasks\<rparr>)))))))))))))))))))"

definition load_ao2_run_spec ::
    "(string \<Rightarrow> string option) \<Rightarrow> (string \<Rightarrow> json option) \<Rightarrow> (string \<Rightarrow> string) \<Rightarrow> string
      \<Rightarrow> string option \<Rightarrow> loaded_run rresult" where
  "load_ao2_run_spec read_file parse_yaml sha256_hex spec target_override =
     rbind (with_context (''read '' @ spec) (read_file spec)) (\<lambda>spec_text.
     rbind (with_context (''parse ao2 run spec '' @ spec) (parse_yaml spec_text)) (\<lambda>v.
       load_ao2_run_value sha256_hex spec target_override spec_text v))"

subsection \<open>The order of the tasks\<close>

definition task_dependency_strings :: "json \<Rightarrow> string list" where
  "task_dependency_strings task =
     strings_of (case json_get task ''depends_on'' of Some v \<Rightarrow> Some v | None \<Rightarrow> json_get task ''deps'')"

definition task_dependencies :: "json \<Rightarrow> json" where
  "task_dependencies task = json_string_array (task_dependency_strings task)"

definition run_task_id :: "json \<Rightarrow> string rresult" where
  "run_task_id task = required_str ''ao2 run spec task.id is required'' task ''id''"

text \<open>The dependencies of a task, each checked against the ids of the document.\<close>

definition known_dependencies :: "string list \<Rightarrow> string \<Rightarrow> json \<Rightarrow> string list rresult" where
  "known_dependencies task_ids i task =
     (let deps = task_dependency_strings task in
      rbind (first_err (map (\<lambda>d. bail_if (d \<notin> set task_ids)
          (''ao2 run spec task '' @ i @ '' depends on unknown task '' @ d)) deps))
        (\<lambda>_. Inr deps))"

definition ordered_tasks :: "json list \<Rightarrow> json list rresult" where
  "ordered_tasks tasks =
     rbind (map_result run_task_id tasks) (\<lambda>task_ids.
       order_loop ''ao2 run spec task graph contains a dependency cycle''
         run_task_id (known_dependencies task_ids) tasks [] [])"

definition task_graph_entry :: "json \<Rightarrow> json" where
  "task_graph_entry task = json_object
     [(''id'', JString (get_str_or task ''id'' [])),
      (''kind'', JString (get_str_or task ''kind'' ''agent'')),
      (''role'', get_or task ''role'' (JString ''implementer'')),
      (''depends_on'', task_dependencies task),
      (''acceptance'', get_or task ''acceptance'' (JArray [])),
      (''writes'', get_or task ''writes'' (JArray [])),
      (''provider_contract'', json_object
        [(''evidence'', JBool True), (''concerns'', JBool True), (''blockers'', JBool True),
         (''changed_files'', JBool True), (''sandbox'', JBool True),
         (''secret_redaction'', JBool True)])]"

text \<open>The id a task has, for the statements below.\<close>

definition tid :: "json \<Rightarrow> string" where
  "tid task = get_str_or task ''id'' []"

lemma run_task_id_ok: "run_task_id t = Inr i \<longleftrightarrow> get_str t ''id'' = Some i"
  by (simp add: run_task_id_def required_str_def check_simps)

lemma run_task_id_tid: "run_task_id t = Inr i \<Longrightarrow> tid t = i"
  by (simp add: run_task_id_ok tid_def get_str_or_def)

lemma known_dependencies_ok:
  "known_dependencies ids i t = Inr ds \<longleftrightarrow>
    ds = task_dependency_strings t \<and> set ds \<subseteq> set ids"
  by (auto simp: known_dependencies_def Let_def check_simps)

lemma task_ids_of: "map_result run_task_id tasks = Inr ids \<Longrightarrow> ids = map tid tasks"
  by (induction tasks arbitrary: ids) (auto simp: run_task_id_tid split: sum.splits)

definition ids_present :: "json list \<Rightarrow> bool" where
  "ids_present tasks \<longleftrightarrow> list_all (\<lambda>t. get_str t ''id'' \<noteq> None) tasks"

lemma ids_present_iff: "ids_present tasks \<longleftrightarrow> (\<exists>ids. map_result run_task_id tasks = Inr ids)"
proof (induction tasks)
  case (Cons t ts)
  then show ?case
    by (cases "get_str t ''id''")
      (auto simp: ids_present_def run_task_id_def required_str_def with_context_def
        split: sum.splits)
qed (simp add: ids_present_def)

lemma ids_presentD: "ids_present tasks \<Longrightarrow> t \<in> set tasks \<Longrightarrow> run_task_id t = Inr (tid t)"
  by (auto simp: ids_present_def list_all_iff run_task_id_ok tid_def get_str_or_def)

interpretation cli: scheduler ordered_tasks "\<lambda>tasks. tasks" tid
  "\<lambda>_ t. set (task_dependency_strings t)" ids_present
proof unfold_locales
  fix tasks out
  assume "ordered_tasks tasks = Inr out"
  then obtain ids where ids: "map_result run_task_id tasks = Inr ids"
    and loop: "order_loop ''ao2 run spec task graph contains a dependency cycle'' run_task_id
      (known_dependencies ids) tasks [] [] = Inr out"
    by (auto simp: ordered_tasks_def rbind_eq_Inr)
  have "ids_present tasks" using ids ids_present_iff by blast
  then show "topological tid (\<lambda>t. set (task_dependency_strings t)) tasks out"
    by (intro order_loop_sound [OF loop]) (auto simp: ids_presentD known_dependencies_ok)
next
  fix tasks
  assume "ids_present tasks"
    and s: "schedulable tid (\<lambda>t. set (task_dependency_strings t)) tasks"
  then obtain ids where ids: "map_result run_task_id tasks = Inr ids"
    using ids_present_iff by blast
  have "set (task_dependency_strings t) \<subseteq> set ids" if "t \<in> set tasks" for t
    using s that task_ids_of [OF ids] by (auto simp: schedulable_def)
  then have "readable run_task_id (known_dependencies ids) tid
      (\<lambda>t. set (task_dependency_strings t)) t" if "t \<in> set tasks" for t
    using that ids_presentD [OF \<open>ids_present tasks\<close>]
    by (auto simp: readable_def known_dependencies_ok)
  from order_loop_complete [OF s this] show "\<exists>out. ordered_tasks tasks = Inr out"
    by (simp add: ordered_tasks_def ids)
qed

end
