(* ===== verification/Run_Workflow.thy ===== *)
theory Run_Workflow
  imports Run_Spec
begin

text \<open>
  From the run document to the runtime: the workflow that
  \<open>materialize_ao2_run_spec_workflow\<close> (\<open>crates/ao2-cli/src/run_execution.rs\<close>) writes, and
  what \<open>crates/ao2-runtime/src/lib.rs\<close> makes of a workflow: the checks of
  \<open>load_workflow\<close>, the task order of \<open>sdd_workflow_task_order\<close>, the prompt of a task and
  the local policy for provider-free commands.
\<close>

subsection \<open>Workflow names\<close>

text \<open>\<open>sanitize_greenfield_id\<close>: the state of the loop is the output and whether it just
  wrote a dash.\<close>

definition normalized_char :: "string \<Rightarrow> char option" where
  "normalized_char ch =
     (case ch of [c] \<Rightarrow>
        if is_ascii_alphanumeric c then Some (ascii_lower_char c)
        else if c = CHR ''-'' \<or> c = CHR ''_'' \<or> is_whitespace ch then Some CHR ''-'' else None
      | _ \<Rightarrow> if is_whitespace ch then Some CHR ''-'' else None)"

fun sanitize_loop :: "string list \<Rightarrow> string \<Rightarrow> bool \<Rightarrow> string" where
  "sanitize_loop [] out last_dash = out"
| "sanitize_loop (ch # chs) out last_dash =
     (case normalized_char ch of None \<Rightarrow> sanitize_loop chs out last_dash
      | Some c \<Rightarrow>
          if c = CHR ''-'' then
            (if \<not> last_dash \<and> out \<noteq> [] then sanitize_loop chs (out @ ''-'') True
             else sanitize_loop chs out last_dash)
          else sanitize_loop chs (out @ [c]) False)"

definition sanitize_greenfield_id :: "string \<Rightarrow> string" where
  "sanitize_greenfield_id candidate =
     (let out = sanitize_loop (utf8_chars (trim candidate)) [] False;
          trimmed = rev (dropWhile (\<lambda>c. c = CHR ''-'') (rev out))
      in if trimmed = [] then ''greenfield-run'' else trimmed)"

subsection \<open>The workflow of a run\<close>

definition workflow_task :: "json \<Rightarrow> json rresult" where
  "workflow_task task =
     rbind (run_task_id task) (\<lambda>i.
       let base = bt_collect
         [(''id'', JString i), (''role'', JString i),
          (''kind'', JString (get_str_or task ''kind'' ''agent'')),
          (''provider'', JString ''scripted''),
          (''paths'', get_or task ''paths'' (JArray [])),
          (''rationale'', JString (get_str_or task ''rationale'' [])),
          (''acceptance'', get_or task ''acceptance'' (JArray [])),
          (''policy_profile'', JString ''ao2-sdd-run-task'')]
       in Inr (JObject (case json_get task ''provider_free'' of None \<Rightarrow> base
                        | Some pf \<Rightarrow> bt_insert ''provider_free'' pf base)))"

definition workflow_dependencies :: "json \<Rightarrow> json list" where
  "workflow_dependencies task =
     (case get_str task ''id'' of None \<Rightarrow> []
      | Some to \<Rightarrow> map (\<lambda>from. json_object
          [(''from'', JString from), (''to'', JString to),
           (''source'', JString ''ao2.run/v1 task deps'')]) (strings_of (json_get task ''deps'')))"

definition run_acceptance :: "json \<Rightarrow> json list \<Rightarrow> string list" where
  "run_acceptance body tasks =
     (let from_exit =
        (case json_get body ''exit_criteria'' of None \<Rightarrow> []
         | Some exit \<Rightarrow> concat (map (\<lambda>key. map (\<lambda>v. key @ '': '' @ v) (strings_of (json_get exit key)))
             [''tests'', ''gates'', ''manual'']));
        acceptance = from_exit @ concat (map (\<lambda>t. strings_of (json_get t ''acceptance'')) tasks)
      in if acceptance = []
         then [''verifier command passes'', ''replay has zero digest failures''] else acceptance)"

text \<open>The verifier is the first test, or else the first gate.\<close>

definition run_verifier_command :: "json \<Rightarrow> string rresult" where
  "run_verifier_command body =
     (let first = (\<lambda>key. case strings_of (Option.bind (json_get body ''exit_criteria'')
            (\<lambda>exit. json_get exit key)) of [] \<Rightarrow> None | v # _ \<Rightarrow> Some v)
      in with_context ''ao2 run spec exit_criteria.tests or exit_criteria.gates is required''
           (case first ''tests'' of Some v \<Rightarrow> Some v | None \<Rightarrow> first ''gates''))"

definition workflow_roles :: "json list \<Rightarrow> string list" where
  "workflow_roles workflow_tasks =
     (let roles = List.map_filter (\<lambda>t. get_str t ''role'') workflow_tasks
      in if ''evaluator-closer'' \<in> set roles then roles else roles @ [''evaluator-closer''])"

definition run_compatibility :: "loaded_run \<Rightarrow> json" where
  "run_compatibility spec = json_object
     [(''source_schema'', JString (lr_source_schema spec)),
      (''factory_v3_drives_workflow'', JBool False),
      (''factory_v3_role'', JString ''parity_oracle_only''),
      (''control_plane_role'', JString ''read_only_observer''),
      (''mutates_ao_artifacts'', JBool False),
      (''release_acceptance_owner'', JString ''factory-v3 evaluator-closer''),
      (''control_plane_approves_release'', JBool False),
      (''input_spec'', JString (lr_path spec)),
      (''input_spec_sha256'', JString (lr_spec_sha256 spec))]"

definition run_workflow_json :: "loaded_run \<Rightarrow> json rresult" where
  "run_workflow_json spec =
     rbind (required_object ''ao2 run spec body is required'' (lr_value spec) ''spec'') (\<lambda>body.
     rbind (run_verifier_command body) (\<lambda>verifier_command.
     rbind (map_result workflow_task (lr_tasks spec)) (\<lambda>workflow_tasks.
     Inr (json_object
       [(''id'', JString (''ao2-sdd-'' @ sanitize_greenfield_id (lr_plan_id spec))),
        (''name'', JString (''AO2 SDD governed run '' @ lr_plan_id spec)),
        (''version'', JString ''0.1.0''),
        (''template_kind'', JString ''real_project''),
        (''objective'', JString (get_str_or body ''goal''
            ''Execute AO2 SDD plan through governed AO2 runtime.'')),
        (''roles'', json_string_array (workflow_roles workflow_tasks)),
        (''tasks'', JArray workflow_tasks),
        (''dependencies'', JArray (concat (map workflow_dependencies (lr_tasks spec)))),
        (''factory_v3_compatibility'', run_compatibility spec),
        (''verifier'', json_object [(''command'', JString verifier_command)]),
        (''acceptance'', json_string_array (run_acceptance body (lr_tasks spec))),
        (''policy'', json_object
          [(''deny_by_default'', JBool True), (''approval_mode'', JString ''exact_action_digest''),
           (''provider_auth'', JString ''local OAuth CLI only; API-key provider auth forbidden'')])]))))"

text \<open>What the operating system answers while the workflow file is written.\<close>

record write_env =
  we_create_dirs :: bool
  we_os :: os_outcome
  we_tmp :: string

definition atomic_write_text ::
    "write_env \<Rightarrow> string \<Rightarrow> string \<Rightarrow> string \<Rightarrow> file_system \<Rightarrow> file_system \<times> unit rresult" where
  "atomic_write_text env parent path content fs =
     (if \<not> we_create_dirs env then (fs, Inl (''create '' @ parent))
      else case atomic_write (we_os env) (we_tmp env) path content fs of
        (fs', ok) \<Rightarrow> (fs', if ok then Inr () else Inl (''atomic write '' @ path)))"

definition materialize_workflow ::
    "write_env \<Rightarrow> (json \<Rightarrow> string rresult) \<Rightarrow> loaded_run \<Rightarrow> file_system \<Rightarrow> file_system \<times> string rresult" where
  "materialize_workflow env to_yaml spec fs =
     (let dir = path_join (path_join (lr_target_repo spec) ''.ao2'') ''generated-workflows'';
          path = path_join dir (sanitize_greenfield_id (lr_plan_id spec) @ ''-sdd-run.yaml'')
      in if \<not> we_create_dirs env then (fs, Inl (''create '' @ dir))
         else case rbind (run_workflow_json spec) to_yaml of
           Inl e \<Rightarrow> (fs, Inl e)
         | Inr content \<Rightarrow>
             (case atomic_write_text env dir path content fs of
                (fs', Inl e) \<Rightarrow> (fs', Inl e)
              | (fs', Inr _) \<Rightarrow> (fs', Inr path)))"

subsection \<open>The workflow in the runtime\<close>

record workflow_spec =
  wf_id :: string
  wf_version :: string
  wf_template_kind :: "string option"
  wf_objective :: string
  wf_roles :: "string list"
  wf_tasks :: "json list"
  wf_dependencies :: "json list"
  wf_compatibility :: "json option"
  wf_verifier_command :: string
  wf_acceptance :: "string list"

definition workflow_id :: "workflow_spec \<Rightarrow> string" where
  "workflow_id w = wf_id w @ ''@'' @ wf_version w"

definition load_workflow ::
    "(string \<Rightarrow> bool) \<Rightarrow> (string \<Rightarrow> string option) \<Rightarrow> (string \<Rightarrow> workflow_spec option) \<Rightarrow> string
      \<Rightarrow> workflow_spec rresult" where
  "load_workflow exists_path read_file parse_yaml path =
     rbind (bail_if (\<not> exists_path path) (''workflow file does not exist: '' @ path)) (\<lambda>_.
     rbind (with_context (''read workflow file '' @ path) (read_file path)) (\<lambda>content.
     rbind (with_context (''parse workflow file '' @ path) (parse_yaml content)) (\<lambda>w.
     rbind (first_err
       [bail_if (trim (wf_id w) = []) ''workflow id is required'',
        bail_if (trim (wf_version w) = []) ''workflow version is required'',
        bail_if (trim (wf_objective w) = []) ''workflow objective is required'',
        bail_if (wf_roles w = []) ''workflow roles are required'',
        bail_if (trim (wf_verifier_command w) = []) ''workflow verifier command is required'']) (\<lambda>_.
     Inr w))))"

text \<open>The dependency map: every task has a set, filled edge by edge.\<close>

definition sdd_task_id :: "json \<Rightarrow> string rresult" where
  "sdd_task_id task = required_str ''SDD workflow task id is required'' task ''id''"

type_synonym dependency_map = "(string \<times> string list) list"

fun add_dependencies :: "string list \<Rightarrow> json list \<Rightarrow> dependency_map \<Rightarrow> dependency_map rresult" where
  "add_dependencies ids [] m = Inr m"
| "add_dependencies ids (d # ds) m =
     (case get_str d ''to'' of None \<Rightarrow> add_dependencies ids ds m
      | Some to \<Rightarrow>
          if to \<notin> set ids then add_dependencies ids ds m
          else rbind (required_str (''SDD workflow dependency into '' @ to @ '' is missing from'') d ''from'')
            (\<lambda>from.
               if from \<notin> set ids
               then Inl (''SDD workflow task '' @ to @ '' depends on unknown task '' @ from)
               else add_dependencies ids ds
                 (bt_insert to (List.insert from (case map_of m to of None \<Rightarrow> [] | Some s \<Rightarrow> s)) m)))"

definition known_needs :: "dependency_map \<Rightarrow> string \<Rightarrow> string list" where
  "known_needs m i = (case map_of m i of None \<Rightarrow> [] | Some s \<Rightarrow> s)"

definition sdd_workflow_task_order ::
    "json option \<Rightarrow> json list \<Rightarrow> json list \<Rightarrow> json list option rresult" where
  "sdd_workflow_task_order compatibility tasks dependencies =
     (if Option.bind compatibility (\<lambda>v. get_str v ''source_schema'') \<noteq> Some ''ao2.sdd-plan.v1''
      then Inr None
      else
        rbind (map_result sdd_task_id tasks) (\<lambda>ids.
        rbind (add_dependencies ids dependencies (bt_collect (map (\<lambda>i. (i, [])) ids))) (\<lambda>m.
        rbind (order_loop ''SDD workflow task graph contains a dependency cycle''
            sdd_task_id (\<lambda>i _. Inr (known_needs m i)) tasks [] []) (\<lambda>ordered.
        Inr (Some ordered)))))"

subsection \<open>The runtime order is a schedule\<close>

text \<open>The edges of a workflow into a task.\<close>

definition edge_sources :: "json list \<Rightarrow> string \<Rightarrow> string set" where
  "edge_sources dependencies i =
     {from. \<exists>d \<in> set dependencies. get_str d ''to'' = Some i \<and> get_str d ''from'' = Some from}"

lemma sdd_task_id_ok: "sdd_task_id t = Inr i \<longleftrightarrow> get_str t ''id'' = Some i"
  by (simp add: sdd_task_id_def required_str_def check_simps)

lemma sdd_ids: "map_result sdd_task_id tasks = Inr ids \<longleftrightarrow> map_result run_task_id tasks = Inr ids"
  by (simp add: map_result_ok sdd_task_id_ok run_task_id_ok)

lemma known_needs_insert:
  "known_needs (bt_insert to s m) i = (if i = to then s else known_needs m i)"
  by (simp add: known_needs_def bt_lookup_insert)

lemma known_needs_start [simp]: "known_needs (bt_collect (map (\<lambda>i. (i, [])) ids)) i = []"
  by (auto simp: known_needs_def bt_collect_lookup dest!: map_of_SomeD split: option.split)

lemma add_dependencies_needs:
  "add_dependencies ids ds m = Inr m' \<Longrightarrow> i \<in> set ids \<Longrightarrow>
    set (known_needs m' i) = set (known_needs m i) \<union> edge_sources ds i"
proof (induction ids ds m arbitrary: m' rule: add_dependencies.induct)
  case (2 ids d ds m)
  show ?case
  proof (cases "get_str d ''to''")
    case None
    with 2 show ?thesis by (auto simp: edge_sources_def)
  next
    case (Some to)
    show ?thesis
    proof (cases "to \<in> set ids")
      case False
      with 2 Some show ?thesis by (auto simp: edge_sources_def)
    next
      case True
      from 2(4) Some True obtain src where src: "get_str d ''from'' = Some src"
        and known: "src \<in> set ids"
        and rest: "add_dependencies ids ds
          (bt_insert to (List.insert src (known_needs m to)) m) = Inr m'"
        by (auto simp: rbind_eq_Inr required_str_def check_simps known_needs_def split: if_splits)
      have IH: "set (known_needs m' i) =
          set (known_needs (bt_insert to (List.insert src (known_needs m to)) m) i) \<union> edge_sources ds i"
        using "2.IH"(3) [OF Some, of src m'] True src known rest 2(5)
        by (simp add: known_needs_def)
      show ?thesis
        unfolding IH using Some src
        by (auto simp: known_needs_insert edge_sources_def)
    qed
  qed
qed (simp add: edge_sources_def)

text \<open>Every edge into a task names where it comes from.\<close>

definition sources_present :: "string list \<Rightarrow> json list \<Rightarrow> bool" where
  "sources_present ids dependencies \<longleftrightarrow>
     list_all (\<lambda>d. case get_str d ''to'' of None \<Rightarrow> True
       | Some to \<Rightarrow> to \<in> set ids \<longrightarrow> get_str d ''from'' \<noteq> None) dependencies"

lemma add_dependencies_total:
  assumes "sources_present ids ds" and "\<forall>i \<in> set ids. edge_sources ds i \<subseteq> set ids"
  shows "\<exists>m'. add_dependencies ids ds m = Inr m'"
  using assms
proof (induction ids ds m rule: add_dependencies.induct)
  case (2 ids d ds m)
  have tl: "sources_present ids ds" "\<forall>i \<in> set ids. edge_sources ds i \<subseteq> set ids"
    using 2(4,5) by (auto simp: sources_present_def edge_sources_def)
  show ?case
  proof (cases "get_str d ''to''")
    case None
    with 2(1) tl show ?thesis by simp
  next
    case (Some to)
    show ?thesis
    proof (cases "to \<in> set ids")
      case False
      with 2(2) Some tl show ?thesis by simp
    next
      case True
      with 2(4) Some obtain src where src: "get_str d ''from'' = Some src"
        by (auto simp: sources_present_def)
      then have "src \<in> edge_sources (d # ds) to" using Some by (auto simp: edge_sources_def)
      with 2(5) True have "src \<in> set ids" by blast
      with 2(3) [OF Some, of src] tl True Some src show ?thesis
        by (simp add: required_str_def with_context_def)
    qed
  qed
qed simp

text \<open>The order as its callers use it, with the answer \<open>None\<close> for other workflows told apart.\<close>

type_synonym workflow_graph = "json option \<times> json list \<times> json list"

definition runtime_order :: "workflow_graph \<Rightarrow> json list rresult" where
  "runtime_order w =
     (case w of (compatibility, tasks, dependencies) \<Rightarrow>
        rbind (sdd_workflow_task_order compatibility tasks dependencies)
          (with_context ''not an SDD workflow''))"

definition is_sdd :: "json option \<Rightarrow> bool" where
  "is_sdd compatibility \<longleftrightarrow>
     Option.bind compatibility (\<lambda>v. get_str v ''source_schema'') = Some ''ao2.sdd-plan.v1''"

lemma runtime_order_ok:
  "runtime_order (compatibility, tasks, dependencies) = Inr out \<longleftrightarrow>
    sdd_workflow_task_order compatibility tasks dependencies = Inr (Some out)"
  by (auto simp: runtime_order_def rbind_eq_Inr check_simps)

interpretation runtime: scheduler runtime_order "\<lambda>w. fst (snd w)" tid
  "\<lambda>w t. edge_sources (snd (snd w)) (tid t)"
  "\<lambda>w. is_sdd (fst w) \<and> ids_present (fst (snd w))
      \<and> sources_present (map tid (fst (snd w))) (snd (snd w))"
proof unfold_locales
  fix w :: workflow_graph and out
  assume "runtime_order w = Inr out"
  moreover obtain c tasks ds where w: "w = (c, tasks, ds)" by (cases w)
  ultimately obtain ids m where ids: "map_result run_task_id tasks = Inr ids"
    and m: "add_dependencies ids ds (bt_collect (map (\<lambda>i. (i, [])) ids)) = Inr m"
    and loop: "order_loop ''SDD workflow task graph contains a dependency cycle'' sdd_task_id
      (\<lambda>i _. Inr (known_needs m i)) tasks [] [] = Inr out"
    by (auto simp: runtime_order_ok sdd_workflow_task_order_def rbind_eq_Inr sdd_ids
        split: if_splits)
  have present: "ids_present tasks" using ids ids_present_iff by blast
  have "set (known_needs m (tid t)) = edge_sources ds (tid t)" if "t \<in> set tasks" for t
    using add_dependencies_needs [OF m, of "tid t"] that task_ids_of [OF ids] by (simp del: map_map)
  moreover have "sdd_task_id t = Inr (tid t)" if "t \<in> set tasks" for t
    using ids_presentD [OF present that] by (simp add: sdd_task_id_ok run_task_id_ok)
  ultimately have "topological tid (\<lambda>t. edge_sources ds (tid t)) tasks out"
    by (intro order_loop_sound [OF loop]) auto
  then show "topological tid (\<lambda>t. edge_sources (snd (snd w)) (tid t)) (fst (snd w)) out"
    by (simp add: w)
next
  fix w :: workflow_graph
  obtain c tasks ds where w: "w = (c, tasks, ds)" by (cases w)
  assume wf: "is_sdd (fst w) \<and> ids_present (fst (snd w))
      \<and> sources_present (map tid (fst (snd w))) (snd (snd w))"
    and "schedulable tid (\<lambda>t. edge_sources (snd (snd w)) (tid t)) (fst (snd w))"
  then have s: "schedulable tid (\<lambda>t. edge_sources ds (tid t)) tasks" by (simp add: w)
  from wf have present: "ids_present tasks" by (simp add: w)
  then obtain ids where ids: "map_result run_task_id tasks = Inr ids"
    using ids_present_iff by blast
  note ids_eq = task_ids_of [OF ids]
  have "\<forall>i \<in> set ids. edge_sources ds i \<subseteq> set ids"
    using s by (auto simp: ids_eq schedulable_def)
  moreover have "sources_present ids ds" using wf by (simp add: w ids_eq)
  ultimately obtain m
    where m: "add_dependencies ids ds (bt_collect (map (\<lambda>i. (i, [])) ids)) = Inr m"
    using add_dependencies_total by blast
  have "readable sdd_task_id (\<lambda>i _. Inr (known_needs m i)) tid (\<lambda>t. edge_sources ds (tid t)) t"
    if "t \<in> set tasks" for t
    using add_dependencies_needs [OF m, of "tid t"] that ids_eq ids_presentD [OF present that]
    by (auto simp: readable_def sdd_task_id_ok run_task_id_ok simp del: map_map)
  from order_loop_complete [OF s this]
  obtain out where out: "order_loop ''SDD workflow task graph contains a dependency cycle'' sdd_task_id
      (\<lambda>i _. Inr (known_needs m i)) tasks [] [] = Inr out" by fastforce
  have "map_result sdd_task_id tasks = Inr ids" using ids by (simp add: sdd_ids)
  with out wf m have "runtime_order w = Inr out"
    by (simp add: w runtime_order_ok sdd_workflow_task_order_def is_sdd_def)
  then show "\<exists>out. runtime_order w = Inr out" ..
qed

subsection \<open>Reading the workflow back\<close>

text \<open>The derived deserializer of \<open>WorkflowSpec\<close>: a list with a default may be missing, an
  optional field may be missing or null, the others are required; every value must have
  its type.\<close>

definition list_or_default :: "json \<Rightarrow> string \<Rightarrow> json list option" where
  "list_or_default v k = (case json_get v k of None \<Rightarrow> Some [] | Some x \<Rightarrow> as_array x)"

definition all_strings :: "json list \<Rightarrow> string list option" where
  "all_strings vs =
     (if list_all (\<lambda>v. as_str v \<noteq> None) vs then Some (List.map_filter as_str vs) else None)"

definition optional_field :: "json \<Rightarrow> string \<Rightarrow> json option" where
  "optional_field v k = (case json_get v k of Some JNull \<Rightarrow> None | r \<Rightarrow> r)"

definition workflow_spec_of_json :: "json \<Rightarrow> workflow_spec option" where
  "workflow_spec_of_json v =
     Option.bind (get_str v ''id'') (\<lambda>i.
     Option.bind (get_str v ''version'') (\<lambda>version.
     Option.bind (case optional_field v ''template_kind'' of None \<Rightarrow> Some None
       | Some k \<Rightarrow> map_option Some (as_str k)) (\<lambda>template_kind.
     Option.bind (get_str v ''objective'') (\<lambda>objective.
     Option.bind (Option.bind (Option.bind (json_get v ''roles'') as_array) all_strings) (\<lambda>roles.
     Option.bind (list_or_default v ''tasks'') (\<lambda>tasks.
     Option.bind (list_or_default v ''dependencies'') (\<lambda>dependencies.
     Option.bind (Option.bind (json_get v ''verifier'') (\<lambda>x. get_str x ''command'')) (\<lambda>command.
     Option.bind (Option.bind (list_or_default v ''acceptance'') all_strings) (\<lambda>acceptance.
     Some \<lparr>wf_id = i, wf_version = version, wf_template_kind = template_kind,
       wf_objective = objective, wf_roles = roles, wf_tasks = tasks,
       wf_dependencies = dependencies,
       wf_compatibility = optional_field v ''factory_v3_compatibility'',
       wf_verifier_command = command, wf_acceptance = acceptance\<rparr>)))))))))"

subsection \<open>A valid plan\<close>

text \<open>The JSON tasks of a plan carry its step ids and dependencies.\<close>

lemma run_task_fields [simp]:
  "get_str (run_task_json t) ''id'' = Some (rt_id t)"
  "tid (run_task_json t) = rt_id t"
  "json_get (run_task_json t) ''deps'' = Some (json_string_array (rt_deps t))"
  "json_get (run_task_json t) ''provider_free'' = None"
  "task_dependency_strings (run_task_json t) = rt_deps t"
  by (simp_all add: run_task_json_def get_str_def json_get_object tid_def get_str_or_def
      task_dependency_strings_def)

lemma ids_present_tasks [simp]: "ids_present (map run_task_json ts)"
  by (simp add: ids_present_def list_all_iff)

definition plan_tasks :: "sdd_plan \<Rightarrow> run_task list" where
  "plan_tasks plan = map task_of_step (pb_steps (pl_plan plan))"

lemma plan_tasks_simps [simp]:
  "map rt_id (plan_tasks plan) = step_ids plan"
  "sp_tasks (ar_spec (to_ao2_run plan)) = plan_tasks plan"
  by (simp_all add: plan_tasks_def step_ids_def task_of_step_def comp_def to_ao2_run_def)

lemma plan_task_graph:
  "task_graph tid (\<lambda>t. set (task_dependency_strings t)) (map run_task_json (plan_tasks plan)) =
    step_relation plan"
  by (auto simp: task_graph_def step_relation_def plan_tasks_def task_of_step_def image_iff)
    (metis run_task_fields(2,5) run_task.select_convs(1,3) task_of_step_def)+

lemma plan_schedulable:
  assumes "valid_plan plan sm"
  shows "schedulable tid (\<lambda>t. set (task_dependency_strings t)) (map run_task_json (plan_tasks plan))"
proof -
  have ids: "map tid (map run_task_json (plan_tasks plan)) = step_ids plan"
    by (simp add: comp_def)
  have "set (rt_deps t) \<subseteq> set (step_ids plan)" if "t \<in> set (plan_tasks plan)" for t
  proof -
    from that obtain s where "s \<in> set (pb_steps (pl_plan plan))" "rt_deps t = st_depends_on s"
      by (auto simp: plan_tasks_def task_of_step_def)
    then show ?thesis using assms by (auto simp: valid_plan_def step_relation_def)
  qed
  moreover have "tid ` set (map run_task_json (plan_tasks plan)) = set (step_ids plan)"
    unfolding ids [symmetric] by (simp add: image_image)
  ultimately show ?thesis
    unfolding schedulable_def ids plan_task_graph using assms
    by (fastforce simp: valid_plan_def)
qed

lemma trim_not_blank:
  assumes "\<exists>c \<in> set (utf8_chars s). \<not> is_whitespace c"
  shows "trim s \<noteq> []"
proof -
  have chunks: "utf8_chars (concat (drop n (utf8_chars s))) = drop n (utf8_chars s)" for n s
    by (induction s arbitrary: n rule: utf8_chars.induct) (auto simp: drop_Cons split: nat.split)
  let ?k = "dropWhile is_whitespace (utf8_chars s)"
  have chars: "utf8_chars (trim_start s) = ?k"
    unfolding trim_start_def dropWhile_eq_drop by (rule chunks)
  have k: "\<exists>c \<in> set ?k. \<not> is_whitespace c"
    using assms by (metis dropWhile_eq_Nil_conv hd_dropWhile hd_in_set)
  then obtain c where c: "c \<in> set (dropWhile is_whitespace (rev ?k))"
    by (metis dropWhile_eq_Nil_conv set_rev last_in_set)
  then have "c \<in> set (utf8_chars (trim_start s))" using chars set_dropWhileD by fastforce
  then have "c \<noteq> []" by (rule utf8_chars_nonempty)
  then show ?thesis using c unfolding trim_def trim_end_def chars by auto
qed

lemma first_word_not_blank: "first_word s \<noteq> [] \<Longrightarrow> trim s \<noteq> []"
proof (rule trim_not_blank)
  assume "first_word s \<noteq> []"
  then have "takeWhile (\<lambda>c. \<not> is_whitespace c) (dropWhile is_whitespace (utf8_chars s)) \<noteq> []"
    by (auto simp: first_word_def)
  then show "\<exists>c \<in> set (utf8_chars s). \<not> is_whitespace c"
    by (metis dropWhile_eq_Nil_conv takeWhile.simps(1))
qed

lemma allowed_not_blank: "allowed_commands cmds \<Longrightarrow> c \<in> set cmds \<Longrightarrow> trim c \<noteq> []"
proof (rule first_word_not_blank)
  assume "allowed_commands cmds" and "c \<in> set cmds"
  then have "first_word c \<in> set allowed_shells" by (simp add: allowed_commands_def)
  then show "first_word c \<noteq> []" by (auto simp: allowed_shells_def)
qed

text \<open>The workflow task of a plan's task, and the edges into it.\<close>

lemma workflow_task_plan:
  "\<exists>w. workflow_task (run_task_json t) = Inr w \<and> tid w = rt_id t \<and> get_str w ''id'' = Some (rt_id t)"
proof -
  have "run_task_id (run_task_json t) = Inr (rt_id t)" by (simp add: run_task_id_ok)
  then show ?thesis
    by (simp add: workflow_task_def Let_def tid_def get_str_or_def get_str_def bt_collect_lookup)
qed

lemma plan_edges:
  assumes "distinct (map rt_id ts)" and "t \<in> set ts"
  shows "edge_sources (concat (map workflow_dependencies (map run_task_json ts))) (rt_id t) =
    set (rt_deps t)"
proof -
  have dep: "workflow_dependencies (run_task_json u) = map (\<lambda>d. json_object
      [(''from'', JString d), (''to'', JString (rt_id u)),
       (''source'', JString ''ao2.run/v1 task deps'')]) (rt_deps u)" for u
    by (simp add: workflow_dependencies_def)
  have "u = t" if "u \<in> set ts" "rt_id u = rt_id t" for u
    using assms that by (metis distinct_map inj_onD)
  with assms(2) show ?thesis
    by (fastforce simp: edge_sources_def dep get_str_def json_get_object)
qed

text \<open>What the loader returns for the document of a valid plan.\<close>

definition loaded_plan :: "(string \<Rightarrow> string) \<Rightarrow> string \<Rightarrow> string \<Rightarrow> sdd_plan \<Rightarrow> loaded_run" where
  "loaded_plan sha256_hex spec spec_text plan =
     \<lparr>lr_path = spec, lr_spec_sha256 = sha256_hex spec_text,
      lr_value = run_document (to_ao2_run plan), lr_api_version = ''ao2.run/v1'',
      lr_plan_id = pl_plan_id plan, lr_source_schema = ''ao2.sdd-plan.v1'',
      lr_target_repo = tg_repo_path (pl_target plan),
      lr_control_plane_role = ''read_only_observer'', lr_mutates_ao_artifacts = False,
      lr_tasks = map run_task_json (plan_tasks plan)\<rparr>"

lemma json_get_required:
  "json_get v k = Some (json_object fs) \<Longrightarrow> required_object msg v k = Inr (json_object fs)"
  by (simp add: required_object_def with_context_def json_object_def)

lemma load_valid_plan:
  assumes "valid_plan plan sm"
  shows "load_ao2_run_value sha256_hex spec None spec_text (run_document (to_ao2_run plan)) =
    (if tb_control_plane_role (pl_trust_boundary plan) = ''read_only_observer''
     then Inr (loaded_plan sha256_hex spec spec_text plan)
     else Inl ''ao2 run spec trust_boundary.control_plane_role must be read_only_observer'')"
proof -
  let ?D = "run_document (to_ao2_run plan)"
  let ?S = "ar_spec (to_ao2_run plan)"
  have fields: "get_str ?D ''apiVersion'' = Some ''ao2.run/v1''" "get_str ?D ''kind'' = Some ''Run''"
    "json_get ?D ''spec'' = Some (run_body_json ?S)"
    by (simp_all add: run_document_def get_str_def json_get_object to_ao2_run_def
        ao2_run_api_version_def ao2_run_kind_def)
  have body: "json_get (run_body_json ?S) ''source'' = Some (run_source_json (sp_source ?S))"
    "json_get (run_body_json ?S) ''target'' = Some (target_json (sp_target ?S))"
    "json_get (run_body_json ?S) ''trust_boundary'' = Some (trust_boundary_json (sp_trust_boundary ?S))"
    "json_get (run_body_json ?S) ''tasks'' = Some (JArray (map run_task_json (plan_tasks plan)))"
    by (simp_all add: run_body_json_def json_get_object)
  have leaves: "get_str (run_source_json (sp_source ?S)) ''plan_id'' = Some (pl_plan_id plan)"
    "get_str (run_source_json (sp_source ?S)) ''schema_version'' = Some ''ao2.sdd-plan.v1''"
    "get_str (target_json (sp_target ?S)) ''repo_path'' = Some (tg_repo_path (pl_target plan))"
    "get_str (trust_boundary_json (sp_trust_boundary ?S)) ''control_plane_role'' =
       Some (tb_control_plane_role (pl_trust_boundary plan))"
    "json_get (trust_boundary_json (sp_trust_boundary ?S)) ''mutates_ao_artifacts'' =
       Some (JBool (tb_mutates_ao_artifacts (pl_trust_boundary plan)))"
    by (simp_all add: run_source_json_def target_json_def trust_boundary_json_def get_str_def
        json_get_object to_ao2_run_def source_schema_version_def)
  have objects: "required_object m ?D ''spec'' = Inr (run_body_json ?S)"
    "required_object m (run_body_json ?S) ''source'' = Inr (run_source_json (sp_source ?S))"
    "required_object m (run_body_json ?S) ''target'' = Inr (target_json (sp_target ?S))"
    "required_object m (run_body_json ?S) ''trust_boundary'' =
       Inr (trust_boundary_json (sp_trust_boundary ?S))" for m
    using fields(3) body
    by (simp_all add: run_body_json_def run_source_json_def target_json_def trust_boundary_json_def
        json_get_required)
  have "plan_tasks plan \<noteq> []" "\<not> tb_mutates_ao_artifacts (pl_trust_boundary plan)"
    using assms by (auto simp: valid_plan_def plan_tasks_def)
  then show ?thesis
    by (simp add: load_ao2_run_value_def required_str_def fields(1,2) objects leaves body(4)
        with_context_def bail_if_def loaded_plan_def)
qed

lemma plan_verifier_command:
  assumes "valid_plan plan sm"
    and "ec_tests (pb_exit_criteria (pl_plan plan)) @ ec_gates (pb_exit_criteria (pl_plan plan)) \<noteq> []"
  shows "\<exists>c. run_verifier_command (run_body_json (ar_spec (to_ao2_run plan))) = Inr c \<and> trim c \<noteq> []"
proof -
  let ?E = "pb_exit_criteria (pl_plan plan)"
  have exit: "json_get (run_body_json (ar_spec (to_ao2_run plan))) ''exit_criteria'' =
      Some (exit_criteria_json ?E)"
    by (simp add: run_body_json_def json_get_object to_ao2_run_def)
  have keys: "json_get (exit_criteria_json ?E) ''tests'' = Some (json_string_array (ec_tests ?E))"
    "json_get (exit_criteria_json ?E) ''gates'' = Some (json_string_array (ec_gates ?E))"
    by (simp_all add: exit_criteria_json_def json_get_object)
  have "allowed_commands (ec_tests ?E)" "allowed_commands (ec_gates ?E)"
    using assms(1) by (simp_all add: valid_plan_def)
  then have ok: "trim c \<noteq> []" if "c \<in> set (ec_tests ?E) \<union> set (ec_gates ?E)" for c
    using that allowed_not_blank by blast
  show ?thesis
  proof (cases "ec_tests ?E")
    case (Cons c cs)
    then show ?thesis using ok [of c]
      by (simp add: run_verifier_command_def exit keys with_context_def)
  next
    case Nil
    then obtain c cs where "ec_gates ?E = c # cs" using assms(2) by (cases "ec_gates ?E") auto
    then show ?thesis using ok [of c] Nil
      by (simp add: run_verifier_command_def exit keys with_context_def)
  qed
qed

lemma all_strings_map [simp]: "all_strings (map JString ss) = Some ss"
proof -
  have "List.map_filter as_str (map JString ss) = ss"
    by (induction ss) (auto simp: List.map_filter_def)
  then show ?thesis by (simp add: all_strings_def list_all_iff)
qed

lemma map_result_all:
  "(\<And>x. x \<in> set xs \<Longrightarrow> \<exists>y. f x = Inr y) \<Longrightarrow> map_result f xs = Inr (map (projr \<circ> f) xs)"
  by (induction xs) force+

text \<open>The workflow written for a valid plan, as the runtime reads it.\<close>

definition plan_workflow :: "(string \<Rightarrow> string) \<Rightarrow> string \<Rightarrow> string \<Rightarrow> sdd_plan \<Rightarrow> string \<Rightarrow> workflow_spec" where
  "plan_workflow sha256_hex spec spec_text plan command =
     (let run = loaded_plan sha256_hex spec spec_text plan;
          tasks = map (projr \<circ> workflow_task) (lr_tasks run)
      in \<lparr>wf_id = ''ao2-sdd-'' @ sanitize_greenfield_id (pl_plan_id plan), wf_version = ''0.1.0'',
          wf_template_kind = Some ''real_project'', wf_objective = pb_goal (pl_plan plan),
          wf_roles = workflow_roles tasks, wf_tasks = tasks,
          wf_dependencies = concat (map workflow_dependencies (lr_tasks run)),
          wf_compatibility = Some (run_compatibility run),
          wf_verifier_command = command,
          wf_acceptance = run_acceptance (run_body_json (ar_spec (to_ao2_run plan))) (lr_tasks run)\<rparr>)"

lemma plan_workflow_written:
  assumes command: "run_verifier_command (run_body_json (ar_spec (to_ao2_run plan))) = Inr command"
  shows "\<exists>w. run_workflow_json (loaded_plan sha256_hex spec spec_text plan) = Inr w
    \<and> workflow_spec_of_json w = Some (plan_workflow sha256_hex spec spec_text plan command)"
proof -
  let ?run = "loaded_plan sha256_hex spec spec_text plan"
  let ?S = "run_body_json (ar_spec (to_ao2_run plan))"
  have tasks: "map_result workflow_task (lr_tasks ?run) =
      Inr (map (projr \<circ> workflow_task) (lr_tasks ?run))"
  proof (rule map_result_all)
    fix x
    assume "x \<in> set (lr_tasks ?run)"
    then obtain t where "x = run_task_json t" by (auto simp: loaded_plan_def)
    then show "\<exists>y. workflow_task x = Inr y" using workflow_task_plan by blast
  qed
  have body: "required_object m (lr_value ?run) ''spec'' = Inr ?S" for m
    by (simp add: loaded_plan_def run_document_def json_get_object run_body_json_def json_get_required)
  have goal: "get_str_or ?S ''goal'' d = pb_goal (pl_plan plan)" for d
    by (simp add: run_body_json_def get_str_or_def get_str_def json_get_object to_ao2_run_def)
  have simple: "lr_plan_id ?run = pl_plan_id plan" by (simp add: loaded_plan_def)
  show ?thesis
    unfolding run_workflow_json_def body tasks command goal rbind_Inr
    by (simp add: workflow_spec_of_json_def plan_workflow_def Let_def get_str_def json_get_object
        optional_field_def list_or_default_def json_string_array_def simple)
      (simp add: run_compatibility_def json_object_def)
qed

lemma plan_workflow_loads:
  assumes "trim (pb_goal (pl_plan plan)) \<noteq> []" and "trim command \<noteq> []"
  shows "load_workflow (\<lambda>_. True) (\<lambda>_. Some content)
      (\<lambda>_. Some (plan_workflow sha256_hex spec spec_text plan command)) path =
    Inr (plan_workflow sha256_hex spec spec_text plan command)"
proof -
  let ?w = "plan_workflow sha256_hex spec spec_text plan command"
  have first: "trim (c # s) \<noteq> []" if "\<not> is_whitespace (c # takeWhile is_continuation s)" for c s
    using that by (intro trim_not_blank) auto
  have "trim (wf_id ?w) \<noteq> []" "trim (wf_version ?w) \<noteq> []"
    by (auto simp: plan_workflow_def Let_def intro!: first)
      (auto simp: is_whitespace_def unicode_whitespace_def)
  moreover have "wf_roles ?w \<noteq> []"
    by (auto simp: plan_workflow_def Let_def workflow_roles_def)
  ultimately show ?thesis
    using assms by (simp add: load_workflow_def bail_if_def with_context_def plan_workflow_def Let_def)
qed

text \<open>Both schedulers place the tasks of a valid plan in the same order.\<close>

lemma plan_workflow_order:
  assumes valid: "valid_plan plan sm"
    and order: "ordered_tasks (map run_task_json (plan_tasks plan)) = Inr order"
  shows "\<exists>worder. runtime_order (Some (run_compatibility (loaded_plan sha256_hex spec spec_text plan)),
      map (projr \<circ> workflow_task) (map run_task_json (plan_tasks plan)),
      concat (map workflow_dependencies (map run_task_json (plan_tasks plan)))) = Inr worder
    \<and> map tid worder = map tid order"
proof -
  let ?ts = "plan_tasks plan" and ?tasks = "map run_task_json (plan_tasks plan)"
  let ?h = "projr \<circ> workflow_task" and ?ds = "concat (map workflow_dependencies (map run_task_json (plan_tasks plan)))"
  let ?ids = "step_ids plan"
  have d: "distinct (map rt_id ?ts)" using valid by (simp add: valid_plan_def)
  have h: "sdd_task_id (?h t) = Inr (tid t) \<and> tid (?h t) = tid t" if "t \<in> set ?tasks" for t
  proof -
    from that obtain u where u: "t = run_task_json u" by auto
    with workflow_task_plan [of u] show ?thesis by (auto simp: sdd_task_id_ok)
  qed
  have ids: "map_result sdd_task_id (map ?h ?tasks) = Inr ?ids"
  proof -
    have "map_result sdd_task_id (map ?h xs) = Inr (map tid xs)" if "set xs \<subseteq> set ?tasks" for xs
      using that h by (induction xs) auto
    from this [of ?tasks] show ?thesis by (simp add: comp_def)
  qed
  have edges: "edge_sources ?ds (tid t) = set (task_dependency_strings t)" if "t \<in> set ?tasks" for t
    using that plan_edges [OF d] by auto
  have known: "set (task_dependency_strings t) \<subseteq> set ?ids" if "t \<in> set ?tasks" for t
    using plan_schedulable [OF valid] that
    by (fastforce simp: schedulable_def image_image simp flip: plan_tasks_simps(1))
  have "sources_present ?ids ?ds"
    by (auto simp: sources_present_def list_all_iff workflow_dependencies_def get_str_def
        json_get_object split: option.splits)
  moreover have "\<forall>i \<in> set ?ids. edge_sources ?ds i \<subseteq> set ?ids"
  proof
    fix i
    assume "i \<in> set ?ids"
    then obtain u where u: "u \<in> set ?ts" "i = rt_id u"
      by (auto simp flip: plan_tasks_simps(1))
    then have "run_task_json u \<in> set ?tasks" and "i = tid (run_task_json u)" by simp_all
    then show "edge_sources ?ds i \<subseteq> set ?ids" using edges known by metis
  qed
  ultimately obtain m
    where m: "add_dependencies ?ids ?ds (bt_collect (map (\<lambda>i. (i, [])) ?ids)) = Inr m"
    using add_dependencies_total by blast
  from order obtain rids where r: "map_result run_task_id ?tasks = Inr rids"
    and loop: "order_loop ''ao2 run spec task graph contains a dependency cycle'' run_task_id
      (known_dependencies rids) ?tasks [] [] = Inr order"
    by (auto simp: ordered_tasks_def rbind_eq_Inr)
  have "order_loop ''SDD workflow task graph contains a dependency cycle'' sdd_task_id
      (\<lambda>i _. Inr (known_needs m i)) (map ?h ?tasks) (map ?h []) [] = Inr (map ?h order)"
  proof (rule order_loop_map [OF loop])
    fix t
    assume t: "t \<in> set ?tasks"
    with h show "sdd_task_id (?h t) = run_task_id t" by (auto simp: run_task_id_ok [THEN iffD2])
    fix i ds
    assume "run_task_id t = Inr i" and ds: "known_dependencies rids i t = Inr ds"
    then have "i = tid t" by (simp add: run_task_id_tid)
    moreover have "tid t \<in> set ?ids" using t by (auto simp flip: plan_tasks_simps(1))
    ultimately show "\<exists>ds'. Inr (known_needs m i) = Inr ds' \<and> set ds' = set ds"
      using add_dependencies_needs [OF m] edges [OF t] ds by (simp add: known_dependencies_ok)
  qed
  then have "runtime_order (Some (run_compatibility (loaded_plan sha256_hex spec spec_text plan)),
      map ?h ?tasks, ?ds) = Inr (map ?h order)"
    using ids m
    by (simp add: runtime_order_ok sdd_workflow_task_order_def run_compatibility_def get_str_def
        json_get_object loaded_plan_def)
  moreover have "map tid (map ?h order) = map tid order"
    using cli.same_tasks [OF order] h by simp
  ultimately show ?thesis by blast
qed

lemma plan_order_needs:
  assumes "valid_plan plan sm" and "ordered_tasks (map run_task_json (plan_tasks plan)) = Inr order" and "i < length order"
  shows "step_relation plan `` {tid (order ! i)} \<subseteq> set (take i (map tid order))"
proof
  let ?tasks = "map run_task_json (plan_tasks plan)"
  fix b
  assume "b \<in> step_relation plan `` {tid (order ! i)}"
  then have "(tid (order ! i), b) \<in> task_graph tid (\<lambda>t. set (task_dependency_strings t)) ?tasks"
    unfolding plan_task_graph by simp
  then obtain t where "t \<in> set ?tasks" "tid t = tid (order ! i)" "b \<in> set (task_dependency_strings t)"
    unfolding task_graph_def mem_Collect_eq by (metis prod.inject)
  moreover have "order ! i \<in> set ?tasks" using assms(3) cli.same_tasks [OF assms(2)] nth_mem by blast
  moreover have "inj_on tid (set ?tasks)"
    using plan_schedulable [OF assms(1)] unfolding schedulable_def by (metis distinct_map)
  ultimately have "b \<in> set (task_dependency_strings (order ! i))" by (metis inj_onD)
  from cli.need_comes_first [OF assms(2,3) this] show "b \<in> set (take i (map tid order))"
    using assms(3) by (auto simp: in_set_conv_nth)
qed

text \<open>C15: A plan that the validator accepts, that names the control plane as a read-only observer,
  has a goal and at least one test or gate, runs in dependency order: its run document loads,
  its workflow is written and passes the runtime's checks, and the task orders of the front end
  and of the runtime both succeed and agree; every step is placed exactly once, after all the
  steps it depends on.\<close>

theorem valid_plan_runs_in_order:
  assumes "valid_plan plan sm"
    and "tb_control_plane_role (pl_trust_boundary plan) = ''read_only_observer''"
    and "ec_tests (pb_exit_criteria (pl_plan plan)) @ ec_gates (pb_exit_criteria (pl_plan plan)) \<noteq> []"
    and "trim (pb_goal (pl_plan plan)) \<noteq> []"
  shows "\<exists>run w ws order worder.
    load_ao2_run_value sha256_hex spec None spec_text (run_document (to_ao2_run plan)) = Inr run
    \<and> run_workflow_json run = Inr w
    \<and> load_workflow (\<lambda>_. True) (\<lambda>_. Some content) (\<lambda>_. workflow_spec_of_json w) path = Inr ws
    \<and> ordered_tasks (lr_tasks run) = Inr order
    \<and> sdd_workflow_task_order (wf_compatibility ws) (wf_tasks ws) (wf_dependencies ws) = Inr (Some worder)
    \<and> map tid worder = map tid order
    \<and> mset (map tid order) = mset (step_ids plan)
    \<and> (\<forall>i < length order. step_relation plan `` {tid (order ! i)} \<subseteq> set (take i (map tid order)))"
proof -
  let ?run = "loaded_plan sha256_hex spec spec_text plan"
  let ?tasks = "map run_task_json (plan_tasks plan)"
  have load: "load_ao2_run_value sha256_hex spec None spec_text (run_document (to_ao2_run plan)) = Inr ?run"
    using load_valid_plan [OF assms(1)] assms(2) by simp
  obtain command where c: "run_verifier_command (run_body_json (ar_spec (to_ao2_run plan))) = Inr command"
    and "trim command \<noteq> []"
    using plan_verifier_command [OF assms(1,3)] by blast
  obtain w where w: "run_workflow_json ?run = Inr w"
    and ws: "workflow_spec_of_json w = Some (plan_workflow sha256_hex spec spec_text plan command)"
    using plan_workflow_written [OF c] by blast
  have tasks: "lr_tasks ?run = ?tasks" by (simp add: loaded_plan_def)
  obtain order where order: "ordered_tasks ?tasks = Inr order"
    using cli.schedule_complete [OF ids_present_tasks plan_schedulable [OF assms(1)]] by blast
  obtain worder where worder: "runtime_order (Some (run_compatibility ?run),
      map (projr \<circ> workflow_task) ?tasks, concat (map workflow_dependencies ?tasks)) = Inr worder"
    and same: "map tid worder = map tid order"
    using plan_workflow_order [OF assms(1) order] by blast
  have top: "topological tid (\<lambda>t. set (task_dependency_strings t)) ?tasks order"
    using cli.schedule_sound [OF order] .
  then have "mset (map tid order) = mset (map tid ?tasks)" by (metis topological_def mset_map)
  also have "map tid ?tasks = step_ids plan" by (simp add: comp_def)
  finally have perm: "mset (map tid order) = mset (step_ids plan)" .
  note plan_order_needs [OF assms(1) order]
  moreover have "sdd_workflow_task_order (wf_compatibility (plan_workflow sha256_hex spec spec_text plan command))
      (wf_tasks (plan_workflow sha256_hex spec spec_text plan command))
      (wf_dependencies (plan_workflow sha256_hex spec spec_text plan command)) = Inr (Some worder)"
    using worder by (simp add: runtime_order_ok plan_workflow_def Let_def tasks)
  moreover have "load_workflow (\<lambda>_. True) (\<lambda>_. Some content) (\<lambda>_. workflow_spec_of_json w) path =
      Inr (plan_workflow sha256_hex spec spec_text plan command)"
    unfolding ws by (rule plan_workflow_loads [OF assms(4) \<open>trim command \<noteq> []\<close>])
  ultimately show ?thesis using load w order same perm tasks by metis
qed

definition example_run_plan :: sdd_plan where
  "example_run_plan =
     (let plan = example_plan [example_step ''step_b'' [''step_a''], example_step ''step_a'' []]
      in plan\<lparr>pl_trust_boundary := (pl_trust_boundary plan)\<lparr>tb_control_plane_role := ''read_only_observer''\<rparr>,
              pl_plan := (pl_plan plan)\<lparr>pb_goal := ''g''\<rparr>\<rparr>)"

theorem valid_plan_runs_in_order_witness:
  "\<exists>run order. load_ao2_run_value rev [] None [] (run_document (to_ao2_run example_run_plan)) = Inr run
    \<and> ordered_tasks (lr_tasks run) = Inr order
    \<and> mset (map tid order) = {#''step_a'', ''step_b''#}"
proof -
  have "report_ok (validate (\<lambda>_. Inr example_run_plan) rev [] None)" by code_simp
  then have valid: "valid_plan example_run_plan None"
    using errors_of_validate [of rev "\<lambda>_. Inr example_run_plan"] by (simp add: report_ok_def)
  have "tb_control_plane_role (pl_trust_boundary example_run_plan) = ''read_only_observer''"
    "ec_tests (pb_exit_criteria (pl_plan example_run_plan))
      @ ec_gates (pb_exit_criteria (pl_plan example_run_plan)) \<noteq> []"
    "step_ids example_run_plan = [''step_b'', ''step_a'']"
    by (simp_all add: example_run_plan_def example_plan_def example_step_def Let_def step_ids_def)
  moreover have "trim (pb_goal (pl_plan example_run_plan)) \<noteq> []" by code_simp
  ultimately show ?thesis
    using valid_plan_runs_in_order [OF valid, of rev "[]" "[]" "[]" "[]"] by (auto simp: add_mset_commute)
qed

subsection \<open>When the front end can order the tasks\<close>

text \<open>C36: The front end orders the tasks of a run exactly when every task has an id, the ids are
  distinct, every dependency names a task of the run and the dependencies have no cycle; it
  never fails otherwise, and the loop always ends.\<close>

theorem task_order_exists_iff:
  "(\<exists>order. ordered_tasks tasks = Inr order) \<longleftrightarrow>
    ids_present tasks \<and> distinct (map tid tasks)
    \<and> (\<Union>t \<in> set tasks. set (task_dependency_strings t)) \<subseteq> tid ` set tasks
    \<and> acyclic {(tid t, d) | t d. t \<in> set tasks \<and> d \<in> set (task_dependency_strings t)}"
proof -
  have "ids_present tasks" if "ordered_tasks tasks = Inr order" for order
    using that by (auto simp: ordered_tasks_def rbind_eq_Inr ids_present_iff)
  then have "(\<exists>order. ordered_tasks tasks = Inr order) \<longleftrightarrow>
      ids_present tasks \<and> schedulable tid (\<lambda>t. set (task_dependency_strings t)) tasks"
    using cli.schedule_iff by blast
  then show ?thesis unfolding schedulable_def task_graph_def by (simp add: UN_subset_iff)
qed

text \<open>The workflow carries only the dependencies under \<open>deps\<close>, while the task graph of the
  evidence reads \<open>depends_on\<close> first: such a run is executed in document order.\<close>

definition depends_on_tasks :: "json list" where
  "depends_on_tasks =
     [json_object [(''id'', JString ''a''), (''depends_on'', json_string_array [''b''])],
      json_object [(''id'', JString ''b'')]]"

lemma depends_on_is_not_materialised:
  "map_sum id (map tid) (ordered_tasks depends_on_tasks) = Inr [''b'', ''a'']
    \<and> concat (map workflow_dependencies depends_on_tasks) = []"
  by code_simp

end
