(* ===== verification/Run_Evidence.thy ===== *)
theory Run_Evidence
  imports Run_Workflow
begin

text \<open>
  What \<open>crates/ao2-cli/src/run_execution.rs\<close> hands to a provider and what it records
  afterwards: the shell script for the scripted provider with its quoting, the prompt for
  an agent, the record of every task in the evidence pack and the task graph file.
  \<open>sh_word\<close> is the reading of one word by a POSIX shell, the specification of the quoting.
\<close>

subsection \<open>Quoting for the shell\<close>

definition backslash_n :: string where "backslash_n = [CHR 0x5C, CHR ''n'']"

definition cli_shell_single_quote :: "string \<Rightarrow> string" where
  "cli_shell_single_quote v =
     squote @ replace_byte CHR 0x27 [CHR 0x27, CHR 0x22, CHR 0x27, CHR 0x22, CHR 0x27] v @ squote"

text \<open>The characters that end an unquoted word or make the shell act on it.\<close>

definition sh_special :: "char list" where
  "sh_special = [CHR 0x0A, CHR 0x09, CHR '' '', CHR 0x27, CHR 0x22, CHR 0x5C, CHR 0x60, CHR ''$'',
     CHR '';'', CHR ''&'', CHR ''|'', CHR ''<'', CHR ''>'', CHR ''('', CHR '')'', CHR ''*'',
     CHR ''?'', CHR ''['', CHR ''#'', CHR ''~'', CHR ''{'', CHR ''}'', CHR ''!'']"

datatype sh_mode = Bare | InSingle | InDouble

text \<open>The word that a shell reads from the whole text, if the text is one word without
  expansions.\<close>

fun sh_read :: "sh_mode \<Rightarrow> string \<Rightarrow> string option" where
  "sh_read Bare [] = Some []"
| "sh_read _ [] = None"
| "sh_read Bare (c # s) =
     (if c = CHR 0x27 then sh_read InSingle s
      else if c = CHR 0x22 then sh_read InDouble s
      else if c \<in> set sh_special then None
      else map_option ((#) c) (sh_read Bare s))"
| "sh_read InSingle (c # s) =
     (if c = CHR 0x27 then sh_read Bare s else map_option ((#) c) (sh_read InSingle s))"
| "sh_read InDouble (c # s) =
     (if c = CHR 0x22 then sh_read Bare s
      else if c = CHR ''$'' \<or> c = CHR 0x60 \<or> c = CHR 0x5C then None
      else map_option ((#) c) (sh_read InDouble s))"

definition sh_word :: "string \<Rightarrow> string option" where
  "sh_word s = sh_read Bare s"

subsection \<open>The prompts\<close>

text \<open>The comment lines of one task in the script.\<close>

definition scripted_task_lines :: "json \<Rightarrow> string" where
  "scripted_task_lines task =
     ''# task id='' @ get_str_or task ''id'' [] @ '' kind='' @ get_str_or task ''kind'' ''agent'' @ nl
     @ (case get_str task ''rationale'' of None \<Rightarrow> []
        | Some r \<Rightarrow> ''# rationale: '' @ replace_byte CHR 0x0A '' '' r @ nl)"

definition printf_text :: "string \<Rightarrow> string" where
  "printf_text t = ''printf '' @ squote @ t @ backslash_n @ squote @ nl"

definition printf_value :: "string \<Rightarrow> string \<Rightarrow> string" where
  "printf_value format v =
     ''printf '' @ squote @ format @ backslash_n @ squote @ '' '' @ cli_shell_single_quote v @ nl"

text \<open>The script, piece by piece as it is pushed.\<close>

definition scripted_provider_prompt :: "loaded_run \<Rightarrow> string option \<Rightarrow> string" where
  "scripted_provider_prompt spec operator_prompt =
     concat
       ([''set -eu'' @ nl,
         printf_text (''Summary: AO2 scripted provider accepted SDD task graph ''
           @ cli_shell_single_quote (lr_plan_id spec)),
         printf_text ''Changed files: none'',
         printf_text ''Concern: none'',
         printf_text ''Blocker: none'',
         printf_value ''ao2_plan_id=%s'' (lr_plan_id spec),
         printf_value ''ao2_task_count=%s'' (show_nat (length (lr_tasks spec))),
         ''# AO2 SDD task graph follows as shell comments.'' @ nl]
        @ map scripted_task_lines (lr_tasks spec)
        @ (case operator_prompt of None \<Rightarrow> []
           | Some prompt \<Rightarrow>
               if trim prompt = [] then []
               else [''# Operator-supplied scripted extension begins.'' @ nl, prompt,
                     if suffix nl prompt then [] else nl]))"

definition agent_provider_prompt ::
    "string \<Rightarrow> (json \<Rightarrow> string rresult) \<Rightarrow> loaded_run \<Rightarrow> string option \<Rightarrow> string rresult" where
  "agent_provider_prompt source_policy to_string_pretty spec operator_prompt =
     rbind (to_string_pretty (lr_value spec)) (\<lambda>spec_json.
       let operator_section = (case operator_prompt of None \<Rightarrow> []
             | Some prompt \<Rightarrow> if trim prompt = [] then []
                 else nl @ ''Additional operator instruction:'' @ nl @ prompt @ nl)
       in Inr (join nl
         [''You are executing an AO2 SDD task graph inside the governed AO2 runtime.'', [],
          ''Trust boundary:'',
          ''- AO2 owns execution, memory, replay, and signed evidence.'',
          ''- ao2-control-plane is read-only observer only.'',
          ''- factory-v3 evaluator-closer remains the release acceptance owner.'',
          ''- Do not use provider API keys. Use local OAuth CLI only.'',
          ''- Do not expose bearer tokens, cookies, credentials, or secrets in outputs.'', [],
          ''Plan id: '' @ lr_plan_id spec,
          ''Source schema: '' @ lr_source_schema spec,
          ''Target repository: '' @ lr_target_repo spec,
          ''Task count: '' @ show_nat (length (lr_tasks spec)),
          source_policy,
          ''Execute the task graph below in dependency order. Keep changes scoped to the listed paths and acceptance criteria. Run the verifier when possible. Report:'',
          ''Summary: <short summary>'',
          ''Changed files: <comma-separated files>'',
          ''Concern: <severity - message, only if any>'',
          ''Blocker: <message, only if any>'', [],
          ''AO2 run spec:'', replicate 3 CHR 0x60 @ ''json'', spec_json, replicate 3 CHR 0x60,
          operator_section]))"

datatype provider_kind = Scripted | Codex | Claude | Antigravity

definition run_provider_prompt ::
    "string \<Rightarrow> (json \<Rightarrow> string rresult) \<Rightarrow> loaded_run \<Rightarrow> provider_kind \<Rightarrow> string option \<Rightarrow> string rresult" where
  "run_provider_prompt source_policy to_string_pretty spec provider operator_prompt =
     (case provider of Scripted \<Rightarrow> Inr (scripted_provider_prompt spec operator_prompt)
      | _ \<Rightarrow> agent_provider_prompt source_policy to_string_pretty spec operator_prompt)"

text \<open>The prompt of one task in the runtime's task loop.\<close>

definition provider_prompt_for_sdd_task ::
    "(json \<Rightarrow> string rresult) \<Rightarrow> provider_kind \<Rightarrow> string \<Rightarrow> json \<Rightarrow> nat \<Rightarrow> nat \<Rightarrow> string rresult" where
  "provider_prompt_for_sdd_task to_string_pretty provider base_prompt task ordinal task_total =
     rbind (sdd_task_id task) (\<lambda>task_id.
       if provider = Scripted
       then Inr (''# AO2 SDD task '' @ show_nat ordinal @ ''/'' @ show_nat task_total @ '': '' @ task_id
              @ nl @ base_prompt)
       else rbind (to_string_pretty task) (\<lambda>task_json.
         Inr (join nl
           [''Execute only this dependency-ordered AO2 SDD task.'', [],
            ''Task '' @ show_nat ordinal @ ''/'' @ show_nat task_total @ '': '' @ task_id, [],
            ''Task contract:'', replicate 3 CHR 0x60 @ ''json'', task_json, replicate 3 CHR 0x60, [],
            ''Overall governed-run instruction:'', base_prompt, []])))"

subsection \<open>The record of a task\<close>

text \<open>\<open>json_text_field\<close>: a string as it is, nothing for null or a missing field, any other value as
  the text serde writes.\<close>

definition json_text_field :: "(json \<Rightarrow> string) \<Rightarrow> json \<Rightarrow> string \<Rightarrow> string" where
  "json_text_field to_string v k =
     (case json_get v k of Some (JString s) \<Rightarrow> s | Some JNull \<Rightarrow> [] | None \<Rightarrow> []
      | Some other \<Rightarrow> to_string other)"

definition json_array :: "json \<Rightarrow> string \<Rightarrow> json list" where
  "json_array v k = (case Option.bind (json_get v k) as_array of None \<Rightarrow> [] | Some vs \<Rightarrow> vs)"

definition artifact_refs_for_task ::
    "(json \<Rightarrow> string) \<Rightarrow> json \<Rightarrow> string \<Rightarrow> string list \<Rightarrow> string list" where
  "artifact_refs_for_task to_string pack task_id types =
     filter (\<lambda>i. i \<noteq> []) (map (\<lambda>a. json_text_field to_string a ''artifact_id'')
       (filter (\<lambda>a. json_text_field to_string a ''artifact_type'' \<in> set types)
         (filter (\<lambda>a. json_text_field to_string a ''producer'' = task_id) (json_array pack ''artifacts''))))"

definition artifact_refs_by_type ::
    "(json \<Rightarrow> string) \<Rightarrow> json \<Rightarrow> (string \<Rightarrow> bool) \<Rightarrow> string list" where
  "artifact_refs_by_type to_string pack matches_type =
     filter (\<lambda>i. i \<noteq> []) (map (\<lambda>a. json_text_field to_string a ''artifact_id'')
       (filter (\<lambda>a. matches_type (json_text_field to_string a ''artifact_type'')) (json_array pack ''artifacts'')))"

definition is_verifier_type :: "string \<Rightarrow> bool" where
  "is_verifier_type t \<longleftrightarrow> contains t ''verifier'' \<or> t = ''test_log''"

text \<open>The status that the events of a task and the closure of the run give it.\<close>

definition task_status :: "(json \<Rightarrow> string) \<Rightarrow> string \<Rightarrow> json list \<Rightarrow> string" where
  "task_status to_string closure_status task_events =
     (let kinds = map (\<lambda>e. json_text_field to_string e ''event_type'') task_events in
      if closure_status = ''accepted'' then ''accepted''
      else if list_ex (\<lambda>k. k = ''role.completed'' \<or> k = ''sandbox.patch.applied'') kinds then ''completed''
      else if list_ex (\<lambda>k. k = ''role.started'') kinds then ''started''
      else ''not_observed'')"

definition observer_boundary :: json where
  "observer_boundary = json_object
     [(''control_plane_role'', JString ''read_only_observer''),
      (''mutates_ao_artifacts'', JBool False),
      (''release_acceptance_owner'', JString ''factory-v3 evaluator-closer''),
      (''control_plane_approves_release'', JBool False)]"

definition first_nonempty :: "string list \<Rightarrow> string option" where
  "first_nonempty ts = find (\<lambda>t. t \<noteq> []) ts"

definition task_execution_record ::
    "(json \<Rightarrow> string) \<Rightarrow> json \<Rightarrow> json list \<Rightarrow> json \<Rightarrow> json rresult" where
  "task_execution_record to_string pack events task =
     rbind (run_task_id task) (\<lambda>task_id.
       let closure_status = json_text_field to_string pack ''verdict'';
         verifier_refs = artifact_refs_by_type to_string pack is_verifier_type;
         task_events = filter (\<lambda>e. json_text_field to_string e ''role_id'' = task_id) events;
         event_refs = filter (\<lambda>i. i \<noteq> []) (map (\<lambda>e. json_text_field to_string e ''event_id'') task_events);
         stamps = map (\<lambda>e. json_text_field to_string e ''timestamp'') task_events;
         summary_refs = artifact_refs_for_task to_string pack task_id [''provider_transcript_summary''];
         patch_refs = artifact_refs_for_task to_string pack task_id
           [''sandbox_patch_preview'', ''sandbox_patch_apply''];
         command_refs = artifact_refs_for_task to_string pack task_id [''provider_free_command_log'']
       in Inr (json_object
         [(''task_id'', JString task_id),
          (''status'', JString (task_status to_string closure_status task_events)),
          (''dependency_prerequisites'', task_dependencies task),
          (''started_at'', json_opt_str (first_nonempty stamps)),
          (''completed_at'', json_opt_str (first_nonempty (rev stamps))),
          (''provider_summary_refs'', json_string_array summary_refs),
          (''provider_summary_count'', json_nat (length summary_refs)),
          (''sandbox_patch_refs'', json_string_array patch_refs),
          (''sandbox_patch_count'', json_nat (length patch_refs)),
          (''provider_free_command_refs'', json_string_array command_refs),
          (''provider_free_command_count'', json_nat (length command_refs)),
          (''verifier_refs'', json_string_array verifier_refs),
          (''verifier_ref_count'', json_nat (length verifier_refs)),
          (''closure_status'', JString closure_status),
          (''event_refs'', json_string_array event_refs),
          (''event_count'', json_nat (length event_refs)),
          (''trust_boundary'', observer_boundary)]))"

definition task_execution_records ::
    "(json \<Rightarrow> string) \<Rightarrow> json \<Rightarrow> json list \<Rightarrow> json list \<Rightarrow> json list rresult" where
  "task_execution_records to_string pack events ordered =
     map_result (task_execution_record to_string pack events) ordered"

text \<open>The event log, one document per line that is not blank.\<close>

definition read_run_events ::
    "(string \<Rightarrow> string option) \<Rightarrow> (string \<Rightarrow> bool) \<Rightarrow> (string \<Rightarrow> json option) \<Rightarrow> string \<Rightarrow> json list rresult" where
  "read_run_events read_file is_file from_str path =
     (if \<not> is_file path then Inr []
      else rbind (with_context (''read '' @ path) (read_file path)) (\<lambda>content.
        map_result (\<lambda>(index, line).
            with_context (''parse '' @ path @ '' line '' @ show_nat (index + 1)) (from_str (trim line)))
          (filter (\<lambda>(_, line). trim line \<noteq> []) (enumerate 0 (str_lines content)))))"

definition read_optional_json ::
    "(string \<Rightarrow> string option) \<Rightarrow> (string \<Rightarrow> bool) \<Rightarrow> (string \<Rightarrow> json option) \<Rightarrow> string \<Rightarrow> json rresult" where
  "read_optional_json read_file is_file from_str path =
     (if path = [] \<or> \<not> is_file path then Inr JNull
      else rbind (with_context (''read '' @ path) (read_file path)) (\<lambda>content.
        with_context (''parse '' @ path) (from_str content)))"

text \<open>The pack with the records added; a pack that is not an object is left alone.\<close>

definition pack_with_executions :: "json \<Rightarrow> json list \<Rightarrow> json option" where
  "pack_with_executions pack records =
     (case pack of JObject fs \<Rightarrow> Some (JObject (bt_insert ''task_executions'' (JArray records) fs))
      | _ \<Rightarrow> None)"

datatype execution_mode = ProviderFree | AggregateProvider

fun execution_mode_name :: "execution_mode \<Rightarrow> string" where
  "execution_mode_name ProviderFree = ''provider_free''"
| "execution_mode_name AggregateProvider = ''aggregate_provider''"

definition task_graph_payload ::
    "loaded_run \<Rightarrow> string \<Rightarrow> string \<Rightarrow> execution_mode \<Rightarrow> json list \<Rightarrow> json list \<Rightarrow> json" where
  "task_graph_payload spec run_id status mode ordered records =
     (let graph = map task_graph_entry ordered in
      json_object
        [(''schema_version'', JString ''ao2.sdd-task-graph-execution.v1''),
         (''run_id'', JString run_id), (''status'', JString status),
         (''plan_id'', JString (lr_plan_id spec)),
         (''source_schema'', JString (lr_source_schema spec)),
         (''source_spec'', JString (lr_path spec)),
         (''source_spec_sha256'', JString (lr_spec_sha256 spec)),
         (''execution_mode'', JString (execution_mode_name mode)),
         (''task_count'', json_nat (length graph)),
         (''tasks'', JArray graph),
         (''task_executions'', JArray records),
         (''trust_boundary'', observer_boundary),
         (''next_maturity_step'', JString
           ''execute each task with dependency-aware provider evidence and verifier closure'')])"

text \<open>The files as the readers above see them.\<close>

definition file_text :: "file_system \<Rightarrow> string \<Rightarrow> string option" where
  "file_text fs p = (case fs p of None \<Rightarrow> None
     | Some f \<Rightarrow> if utf8_valid (f_content f) then Some (f_content f) else None)"

definition file_exists :: "file_system \<Rightarrow> string \<Rightarrow> bool" where
  "file_exists fs p \<longleftrightarrow> fs p \<noteq> None"

record json_codec =
  jc_to_string :: "json \<Rightarrow> string"
  jc_pretty :: "json \<Rightarrow> string rresult"
  jc_from_str :: "string \<Rightarrow> json option"

definition write_task_executions ::
    "json_codec \<Rightarrow> write_env \<Rightarrow> string \<Rightarrow> json list \<Rightarrow> file_system \<Rightarrow> file_system \<times> unit rresult" where
  "write_task_executions jc env pack_path records fs =
     (case read_optional_json (file_text fs) (file_exists fs) (jc_from_str jc) pack_path of
        Inl e \<Rightarrow> (fs, Inl e)
      | Inr pack \<Rightarrow>
          (case pack_with_executions pack records of None \<Rightarrow> (fs, Inr ())
           | Some pack' \<Rightarrow>
               (case jc_pretty jc pack' of Inl e \<Rightarrow> (fs, Inl e)
                | Inr content \<Rightarrow> atomic_write_text env (case path_parent pack_path of None \<Rightarrow> [] | Some d \<Rightarrow> d) pack_path content fs)))"

definition write_task_graph_sidecar ::
    "json_codec \<Rightarrow> write_env \<Rightarrow> write_env \<Rightarrow> loaded_run \<Rightarrow> string \<Rightarrow> string \<Rightarrow> string \<Rightarrow> execution_mode
      \<Rightarrow> file_system \<Rightarrow> file_system \<times> string rresult" where
  "write_task_graph_sidecar jc pack_env side_env spec run_id status pack_path mode fs =
     (case with_context ''evidence pack path must live under run/evidence-pack''
         (Option.bind (path_parent pack_path) path_parent) of
        Inl e \<Rightarrow> (fs, Inl e)
      | Inr run_dir \<Rightarrow>
          let path = path_join run_dir ''sdd-task-graph.json'' in
          (case rbind (ordered_tasks (lr_tasks spec)) (\<lambda>ordered.
                rbind (read_optional_json (file_text fs) (file_exists fs) (jc_from_str jc) pack_path) (\<lambda>pack.
                rbind (read_run_events (file_text fs) (file_exists fs) (jc_from_str jc)
                    (path_join run_dir ''events.jsonl'')) (\<lambda>events.
                rbind (task_execution_records (jc_to_string jc) pack events ordered) (\<lambda>records.
                Inr (ordered, records))))) of
             Inl e \<Rightarrow> (fs, Inl e)
           | Inr (ordered, records) \<Rightarrow>
               (case write_task_executions jc pack_env pack_path records fs of
                  (fs1, Inl e) \<Rightarrow> (fs1, Inl e)
                | (fs1, Inr _) \<Rightarrow>
                    (case jc_pretty jc (task_graph_payload spec run_id status mode ordered records) of
                       Inl e \<Rightarrow> (fs1, Inl e)
                     | Inr content \<Rightarrow>
                         (case atomic_write_text side_env run_dir path content fs1 of
                            (fs2, Inl e) \<Rightarrow> (fs2, Inl e)
                          | (fs2, Inr _) \<Rightarrow> (fs2, Inr path))))))"

subsection \<open>The quoting is exact\<close>

lemma sh_read_quoted:
  "sh_read InSingle (replace_byte CHR 0x27 [CHR 0x27, CHR 0x22, CHR 0x27, CHR 0x22, CHR 0x27] v @ CHR 0x27 # s) =
    map_option ((@) v) (sh_read Bare s)"
proof (induction v)
  case Nil
  then show ?case by (simp add: replace_byte_def option.map_ident)
next
  case (Cons c v)
  then show ?case
    by (cases "c = CHR 0x27") (simp_all add: replace_byte_def option.map_comp comp_def)
qed

lemma sh_word_quoted: "sh_word (cli_shell_single_quote v) = Some v"
  using sh_read_quoted [of v "[]"] by (simp add: sh_word_def cli_shell_single_quote_def squote_def)

lemma contains_concat: "x \<in> set xs \<Longrightarrow> contains (concat xs) x"
  by (induction xs) (auto intro: contains_append1 contains_append2)

text \<open>A value quoted by \<open>cli_shell_single_quote\<close> is one word of the shell, and that word is the
  value, whatever bytes it contains; so the script passes the plan id to the \<open>printf\<close> of its
  \<open>ao2_plan_id\<close> line unchanged.\<close>

theorem shell_quote_roundtrip:
  "sh_word (cli_shell_single_quote v) = Some v
    \<and> contains (scripted_provider_prompt spec operator_prompt)
        (squote @ ''ao2_plan_id=%s'' @ backslash_n @ squote @ '' ''
          @ cli_shell_single_quote (lr_plan_id spec) @ nl)"
proof -
  have "contains (scripted_provider_prompt spec operator_prompt)
      (printf_value ''ao2_plan_id=%s'' (lr_plan_id spec))"
    unfolding scripted_provider_prompt_def by (rule contains_concat) simp
  then show ?thesis
    unfolding printf_value_def
    by (meson sh_word_quoted contains_append2 contains_trans sublist_order.order_refl)
qed

text \<open>In the summary line the value is quoted inside a word that is already quoted, which
  leaves it bare: a plan id with a special character breaks the word up.\<close>

lemma summary_argument_is_not_quoted:
  "sh_word (squote @ ''Summary: AO2 scripted provider accepted SDD task graph ''
      @ cli_shell_single_quote ''x;touch y'' @ backslash_n @ squote) = None"
  by code_simp

subsection \<open>The task graph file and the evidence pack\<close>

lemma atomic_write_text_ok:
  assumes "atomic_write_text env parent path content fs = (fs', Inr u)" and "we_tmp env \<noteq> path"
  shows "fs' path = Some \<lparr>f_content = content, f_durable = True\<rparr>
    \<and> (\<forall>q. q \<noteq> path \<longrightarrow> q \<noteq> we_tmp env \<longrightarrow> fs' q = fs q)"
proof -
  from assms(1) have "atomic_write (we_os env) (we_tmp env) path content fs = (fs', True)"
    by (auto simp: atomic_write_text_def split: if_splits prod.splits)
  from atomic_write_effect [OF assms(2) this] show ?thesis by simp
qed

lemma records_in_order:
  "task_execution_records to_string pack events ordered = Inr records \<Longrightarrow>
    map (\<lambda>r. get_str r ''task_id'') records = map (Some \<circ> tid) ordered"
proof (induction ordered arbitrary: records)
  case (Cons t ts)
  have "task_execution_record to_string pack events t = Inr r \<Longrightarrow> get_str r ''task_id'' = Some (tid t)" for r
    by (auto simp: task_execution_record_def rbind_eq_Inr Let_def get_str_def json_get_object
        run_task_id_tid)
  with Cons show ?case by (auto simp: task_execution_records_def split: sum.splits)
qed (simp add: task_execution_records_def)

text \<open>What the file at a path holds after a successful write.\<close>

definition holds :: "file_system \<Rightarrow> string \<Rightarrow> string \<Rightarrow> bool" where
  "holds fs path content \<longleftrightarrow> fs path = Some \<lparr>f_content = content, f_durable = True\<rparr>"

text \<open>C28: When the task graph file is written, it durably holds the graph of the tasks in dependency
  order, and the evidence pack, if it is a JSON object, durably holds the execution records of
  the same tasks in the same order; no other file changes.\<close>

theorem task_graph_matches_evidence:
  assumes "write_task_graph_sidecar jc pack_env side_env spec run_id status pack_path mode fs = (fs', Inr path)"
    and "path \<noteq> pack_path" and "{we_tmp pack_env, we_tmp side_env} \<inter> {path, pack_path} = {}"
  shows "\<exists>order records content pack. ordered_tasks (lr_tasks spec) = Inr order
    \<and> map (\<lambda>r. get_str r ''task_id'') records = map (Some \<circ> tid) order
    \<and> jc_pretty jc (task_graph_payload spec run_id status mode order records) = Inr content
    \<and> holds fs' path content
    \<and> read_optional_json (file_text fs) (file_exists fs) (jc_from_str jc) pack_path = Inr pack
    \<and> (case pack_with_executions pack records of None \<Rightarrow> fs' pack_path = fs pack_path
       | Some pack' \<Rightarrow> \<exists>text'. jc_pretty jc pack' = Inr text' \<and> holds fs' pack_path text')
    \<and> {q. fs' q \<noteq> fs q} \<subseteq> {path, pack_path, we_tmp pack_env, we_tmp side_env}"
proof -
  from assms(1) obtain run_dir order pack events records fs1 u u' content where
    run_dir: "path = path_join run_dir ''sdd-task-graph.json''"
    and order: "ordered_tasks (lr_tasks spec) = Inr order"
    and pack: "read_optional_json (file_text fs) (file_exists fs) (jc_from_str jc) pack_path = Inr pack"
    and records: "task_execution_records (jc_to_string jc) pack events order = Inr records"
    and exec: "write_task_executions jc pack_env pack_path records fs = (fs1, Inr u)"
    and content: "jc_pretty jc (task_graph_payload spec run_id status mode order records) = Inr content"
    and side: "atomic_write_text side_env run_dir path content fs1 = (fs', Inr u')"
    unfolding write_task_graph_sidecar_def Let_def
    by (auto simp: rbind_eq_Inr split: sum.splits prod.splits)
  have side_ok: "holds fs' path content" "\<And>q. q \<noteq> path \<Longrightarrow> q \<noteq> we_tmp side_env \<Longrightarrow> fs' q = fs1 q"
    using atomic_write_text_ok [OF side] assms(3) by (auto simp: holds_def)
  have pack_ok: "case pack_with_executions pack records of None \<Rightarrow> fs1 = fs
       | Some pack' \<Rightarrow> \<exists>text'. jc_pretty jc pack' = Inr text' \<and> holds fs1 pack_path text'
           \<and> (\<forall>q. q \<noteq> pack_path \<longrightarrow> q \<noteq> we_tmp pack_env \<longrightarrow> fs1 q = fs q)"
  proof (cases "pack_with_executions pack records")
    case None
    then show ?thesis using exec by (simp add: write_task_executions_def pack)
  next
    case (Some pack')
    then obtain text' where "jc_pretty jc pack' = Inr text'"
      and w: "atomic_write_text pack_env (case path_parent pack_path of None \<Rightarrow> [] | Some d \<Rightarrow> d)
        pack_path text' fs = (fs1, Inr u)"
      using exec by (auto simp: write_task_executions_def pack split: sum.splits)
    moreover have "we_tmp pack_env \<noteq> pack_path" using assms(3) by auto
    ultimately show ?thesis using Some atomic_write_text_ok [OF w] by (simp add: holds_def)
  qed
  have same: "fs' pack_path = fs1 pack_path" using side_ok(2) [of pack_path] assms(2,3) by auto
  have "case pack_with_executions pack records of None \<Rightarrow> fs' pack_path = fs pack_path
       | Some pack' \<Rightarrow> \<exists>text'. jc_pretty jc pack' = Inr text' \<and> holds fs' pack_path text'"
    using pack_ok same by (auto simp: holds_def split: option.splits)
  moreover have "{q. fs' q \<noteq> fs q} \<subseteq> {path, pack_path, we_tmp pack_env, we_tmp side_env}"
    using pack_ok side_ok(2) by (fastforce split: option.splits)
  ultimately show ?thesis
    using order records_in_order [OF records] content side_ok(1) pack by blast
qed

definition example_codec :: json_codec where
  "example_codec = \<lparr>jc_to_string = (\<lambda>_. ''1''), jc_pretty = (\<lambda>_. Inr ''{}''),
     jc_from_str = (\<lambda>_. Some (JObject []))\<rparr>"

definition example_write_env :: "string \<Rightarrow> write_env" where
  "example_write_env tmp = \<lparr>we_create_dirs = True,
     we_os = \<lparr>os_create = True, os_write = True, os_written = 0, os_sync = True, os_rename = True,
       os_remove = True\<rparr>, we_tmp = tmp\<rparr>"

definition example_loaded_run :: loaded_run where
  "example_loaded_run = \<lparr>lr_path = ''s'', lr_spec_sha256 = [], lr_value = JNull,
     lr_api_version = ''ao2.run/v1'', lr_plan_id = ''p'', lr_source_schema = ''ao2.sdd-plan.v1'',
     lr_target_repo = ''t'', lr_control_plane_role = ''read_only_observer'',
     lr_mutates_ao_artifacts = False, lr_tasks = [json_object [(''id'', JString ''a'')]]\<rparr>"

definition example_disk :: file_system where
  "example_disk = [''r/e/p'' \<mapsto> \<lparr>f_content = ''{}'', f_durable = True\<rparr>]"

theorem task_graph_matches_evidence_witness:
  "\<exists>content. holds (fst (write_task_graph_sidecar example_codec (example_write_env ''x'')
      (example_write_env ''y'') example_loaded_run ''1'' ''Accepted'' ''r/e/p'' ProviderFree example_disk))
    ''r/sdd-task-graph.json'' content"
proof -
  let ?run = "write_task_graph_sidecar example_codec (example_write_env ''x'')
      (example_write_env ''y'') example_loaded_run ''1'' ''Accepted'' ''r/e/p'' ProviderFree example_disk"
  have "snd ?run = Inr ''r/sdd-task-graph.json''" by code_simp
  then have run: "?run = (fst ?run, Inr ''r/sdd-task-graph.json'')" by (metis prod.collapse)
  have "''r/sdd-task-graph.json'' \<noteq> ''r/e/p''"
    and "{we_tmp (example_write_env ''x''), we_tmp (example_write_env ''y'')}
      \<inter> {''r/sdd-task-graph.json'', ''r/e/p''} = {}"
    by (simp_all add: example_write_env_def)
  from task_graph_matches_evidence [OF run this] show ?thesis by blast
qed

end
