(* ===== verification/Sandbox_Patch.thy ===== *)
theory Sandbox_Patch
  imports Json_Value
begin

text \<open>
  The sandbox patch of \<open>crates/ao2-adapters\<close>: \<open>sandbox_patch.rs\<close> compares the repository
  with the sandbox and describes the difference as an approval subject, whose digest is
  what a human approves; \<open>apply_sandbox_patch\<close> (\<open>lib.rs\<close>) checks the subject again and
  carries it out.  A directory tree is the map from the relative paths below it to their
  entries, in path order; what a walk reports of an entry is what \<open>symlink_metadata\<close>
  says.  The code for Unix is modelled.  Git, SHA-256, the serializer and the failures of
  the operating system are arguments.
\<close>

subsection \<open>The approval subject\<close>

datatype sandbox_file_kind = RegularFile | SymlinkFile

record file_state =
  fs_kind :: sandbox_file_kind
  fs_content_sha256 :: "string option"
  fs_symlink_target_sha256 :: "string option"
  fs_unix_mode :: "nat option"

datatype operation_kind = Added | Modified | Deleted

record patch_operation =
  po_order :: nat
  po_path :: string
  po_kind :: operation_kind
  po_before :: "file_state option"
  po_after :: "file_state option"

record approval_subject =
  su_schema_version :: string
  su_repository_identity :: string
  su_base_commit :: string
  su_operation_type :: string
  su_operations :: "patch_operation list"

record patch_preview =
  pp_target_repo :: string
  pp_sandbox_path :: string
  pp_changed_files :: "string list"
  pp_diff_summary :: string
  pp_subject :: approval_subject
  pp_action_digest :: string

definition patch_subject_schema :: string where
  "patch_subject_schema = ''ao2.sandbox-patch-approval-subject.v1''"

subsection \<open>Relative paths\<close>

datatype path_component = RootDir | CurDir | ParentDir | NormalName string

text \<open>\<open>Path::components\<close>: empty components and interior dots disappear.\<close>

definition path_components :: "string \<Rightarrow> path_component list" where
  "path_components p =
     (let parts = split_byte CHR ''/'' p;
          component = (\<lambda>(i, part).
            if part = [] then None
            else if part = ''.'' then (if i = 0 then Some CurDir else None)
            else if part = ''..'' then Some ParentDir else Some (NormalName part))
      in (if prefix ''/'' p then [RootDir] else [])
         @ List.map_filter component (enumerate (0 :: nat) parts))"

fun normal_name :: "string \<Rightarrow> path_component \<Rightarrow> string rresult" where
  "normal_name path (NormalName part) =
     (if \<not> utf8_valid part then Inl ''sandbox patch path must be valid UTF-8'' else Inr part)"
| "normal_name path _ = Inl (''sandbox patch path must be canonical and relative: '' @ path)"

definition canonical_relative_path :: "string \<Rightarrow> string rresult" where
  "canonical_relative_path path =
     rbind (map_result (normal_name path) (path_components path)) (\<lambda>parts.
     rbind (bail_if (parts = []) ''sandbox patch path must not be empty'') (\<lambda>_.
     Inr (join ''/'' parts)))"

definition ignored_repo_names :: "string list" where
  "ignored_repo_names =
     [''.ao2'', ''.git'', ''.hg'', ''.svn'', ''target'', ''node_modules'', ''.venv'', ''venv'',
      ''__pycache__'', ''.pytest_cache'', ''.mypy_cache'', ''.ruff_cache'', ''.next'', ''.expo'',
      ''dist'', ''build'', ''coverage'']"

fun is_ignored_repo_component :: "path_component \<Rightarrow> bool" where
  "is_ignored_repo_component (NormalName part) \<longleftrightarrow> part \<in> set ignored_repo_names"
| "is_ignored_repo_component _ \<longleftrightarrow> False"

subsection \<open>Trees and their snapshots\<close>

datatype tree_entry = EFile string nat | ELink string | EDir | EOther

type_synonym tree = "(string \<times> tree_entry) list"

definition skipped_path :: "string \<times> tree_entry \<Rightarrow> bool" where
  "skipped_path pe \<longleftrightarrow>
     fst pe = [] \<or> list_ex is_ignored_repo_component (path_components (fst pe)) \<or> snd pe = EDir"

fun entry_state :: "(string \<Rightarrow> string) \<Rightarrow> string \<Rightarrow> tree_entry \<Rightarrow> file_state rresult" where
  "entry_state sha256_hex path (EFile bytes mode) =
     Inr \<lparr>fs_kind = RegularFile, fs_content_sha256 = Some (''sha256:'' @ sha256_hex bytes),
       fs_symlink_target_sha256 = None, fs_unix_mode = Some (mode mod 512)\<rparr>"
| "entry_state sha256_hex path (ELink target) =
     Inr \<lparr>fs_kind = SymlinkFile, fs_content_sha256 = None,
       fs_symlink_target_sha256 = Some (''sha256:'' @ sha256_hex target), fs_unix_mode = None\<rparr>"
| "entry_state sha256_hex path _ = Inl (''unsupported sandbox patch entry: '' @ path)"

definition snapshot_entry ::
    "(string \<Rightarrow> string) \<Rightarrow> string \<times> tree_entry \<Rightarrow> (string \<times> file_state) rresult" where
  "snapshot_entry sha256_hex pe =
     rbind (canonical_relative_path (fst pe)) (\<lambda>path.
     rbind (entry_state sha256_hex (fst pe) (snd pe)) (\<lambda>state. Inr (path, state)))"

definition snapshot_tree :: "(string \<Rightarrow> string) \<Rightarrow> tree \<Rightarrow> (string \<times> file_state) list rresult" where
  "snapshot_tree sha256_hex t =
     rbind (map_result (snapshot_entry sha256_hex) (filter (\<lambda>pe. \<not> skipped_path pe) t))
       (\<lambda>entries. Inr (bt_collect entries))"

subsection \<open>Describing the difference\<close>

definition operation_at ::
    "(string \<times> file_state) list \<Rightarrow> (string \<times> file_state) list \<Rightarrow> string
      \<Rightarrow> (string \<times> operation_kind \<times> file_state option \<times> file_state option) option" where
  "operation_at before after path =
     (case (map_of before path, map_of after path) of
        (None, Some a) \<Rightarrow> Some (path, Added, None, Some a)
      | (Some b, None) \<Rightarrow> Some (path, Deleted, Some b, None)
      | (Some b, Some a) \<Rightarrow> if b \<noteq> a then Some (path, Modified, Some b, Some a) else None
      | (None, None) \<Rightarrow> None)"

definition union_paths :: "(string \<times> 'v) list \<Rightarrow> (string \<times> 'v) list \<Rightarrow> string list" where
  "union_paths before after = map fst (bt_collect (map (\<lambda>(k, v). (k, ())) (before @ after)))"

definition patch_operations ::
    "(string \<times> file_state) list \<Rightarrow> (string \<times> file_state) list \<Rightarrow> patch_operation list" where
  "patch_operations before after =
     map (\<lambda>(order, path, kind, b, a).
         \<lparr>po_order = order, po_path = path, po_kind = kind, po_before = b, po_after = a\<rparr>)
       (enumerate 0 (List.map_filter (operation_at before after) (union_paths before after)))"

text \<open>What the preview asks of its surroundings: the identity and the head commit come from
  Git, the digest from the serializer and SHA-256.\<close>

record git_output =
  go_success :: bool
  go_stdout :: string
  go_stderr :: string

record patch_env =
  pa_sha256 :: "string \<Rightarrow> string"
  pa_subject_bytes :: "approval_subject \<Rightarrow> string rresult"
  pa_git :: "string list \<Rightarrow> git_output option"
  pa_canonicalize :: "string \<Rightarrow> string option"
  pa_lossy :: "string \<Rightarrow> string"

definition git_stdout :: "patch_env \<Rightarrow> string list \<Rightarrow> string rresult" where
  "git_stdout env args =
     rbind (with_context (''run Git command: git '' @ join '' '' args) (pa_git env args)) (\<lambda>out.
     rbind (bail_if (\<not> go_success out)
       (''Git command failed: git '' @ join '' '' args @ '': '' @ trim (pa_lossy env (go_stderr out)))) (\<lambda>_.
     rbind (bail_if (\<not> utf8_valid (go_stdout out)) ''Git output must be valid UTF-8'') (\<lambda>_.
     rbind (bail_if (trim (go_stdout out) = [])
       (''Git command returned empty output: git '' @ join '' '' args)) (\<lambda>_.
     Inr (trim (go_stdout out))))))"

definition with_message :: "string \<Rightarrow> 'a rresult \<Rightarrow> 'a rresult" where
  "with_message msg r = (case r of Inl _ \<Rightarrow> Inl msg | Inr x \<Rightarrow> Inr x)"

definition is_commit_hex :: "char \<Rightarrow> bool" where
  "is_commit_hex c \<longleftrightarrow> is_ascii_digit c \<or> c \<in> set ''abcdef''"

definition repository_state :: "patch_env \<Rightarrow> string \<Rightarrow> (string \<times> string) rresult" where
  "repository_state env target_repo =
     rbind (with_message ''resolve Git common directory''
         (git_stdout env [''rev-parse'', ''--git-common-dir''])) (\<lambda>common_dir_text.
     let common_dir = path_join target_repo common_dir_text in
     rbind (with_context (''canonicalize Git common directory '' @ common_dir)
         (pa_canonicalize env common_dir)) (\<lambda>canonical.
     rbind (bail_if (\<not> utf8_valid canonical) ''Git common directory path must be valid UTF-8'') (\<lambda>_.
     let identity = ''sha256:'' @ pa_sha256 env (replace_byte CHR 0x5C ''/'' canonical) in
     rbind (with_message ''resolve Git HEAD base commit'' (git_stdout env [''rev-parse'', ''HEAD''])) (\<lambda>base_commit.
     rbind (bail_if (length base_commit \<notin> {40, 64} \<or> \<not> list_all is_commit_hex base_commit)
       ''Git HEAD is not a canonical object id'') (\<lambda>_.
     Inr (identity, base_commit))))))"

definition build_approval_subject :: "patch_env \<Rightarrow> string \<Rightarrow> tree \<Rightarrow> tree \<Rightarrow> approval_subject rresult" where
  "build_approval_subject env target_repo target sandbox =
     rbind (repository_state env target_repo) (\<lambda>(identity, base_commit).
     rbind (snapshot_tree (pa_sha256 env) target) (\<lambda>before.
     rbind (snapshot_tree (pa_sha256 env) sandbox) (\<lambda>after.
     Inr \<lparr>su_schema_version = patch_subject_schema, su_repository_identity = identity,
       su_base_commit = base_commit, su_operation_type = ''sandbox_patch_apply'',
       su_operations = patch_operations before after\<rparr>)))"

definition subject_digest :: "patch_env \<Rightarrow> approval_subject \<Rightarrow> string rresult" where
  "subject_digest env subject = rbind (pa_subject_bytes env subject) (\<lambda>bytes. Inr (pa_sha256 env bytes))"

fun kind_name :: "operation_kind \<Rightarrow> string" where
  "kind_name Added = ''added''"
| "kind_name Modified = ''modified''"
| "kind_name Deleted = ''deleted''"

text \<open>A repository or sandbox that is not a directory is \<open>None\<close>.\<close>

definition ensure_directory :: "string \<Rightarrow> string \<Rightarrow> tree option \<Rightarrow> tree rresult" where
  "ensure_directory path label t = with_context (label @ '' is not a directory: '' @ path) t"

definition preview_sandbox_patch ::
    "patch_env \<Rightarrow> string \<Rightarrow> string \<Rightarrow> tree option \<Rightarrow> tree option \<Rightarrow> patch_preview rresult" where
  "preview_sandbox_patch env target_repo sandbox_path target sandbox =
     rbind (ensure_directory target_repo ''target repository'' target) (\<lambda>target_tree.
     rbind (ensure_directory sandbox_path ''sandbox'' sandbox) (\<lambda>sandbox_tree.
     rbind (build_approval_subject env target_repo target_tree sandbox_tree) (\<lambda>subject.
     rbind (subject_digest env subject) (\<lambda>digest.
     Inr \<lparr>pp_target_repo = target_repo, pp_sandbox_path = sandbox_path,
       pp_changed_files = map po_path (su_operations subject),
       pp_diff_summary = join [CHR 0x0A]
         (map (\<lambda>op. kind_name (po_kind op) @ '': '' @ po_path op) (su_operations subject)),
       pp_subject = subject, pp_action_digest = digest\<rparr>))))"

subsection \<open>Carrying it out\<close>

text \<open>The proper directory prefixes of a path.\<close>

definition parent_dirs :: "string \<Rightarrow> string list" where
  "parent_dirs p =
     map (join ''/'') (filter (\<lambda>c. c \<noteq> []) (butlast (prefixes (split_byte CHR ''/'' p))))"

text \<open>Whether the system calls on a path succeed, the text of a failure, and the two roots
  as the messages show them.\<close>

record apply_env =
  ap_io :: "string \<Rightarrow> bool"
  ap_os_error :: string
  ap_target_root :: string
  ap_sandbox_root :: string

definition shown_target :: "apply_env \<Rightarrow> string \<Rightarrow> string" where
  "shown_target env p = path_join (ap_target_root env) p"

definition remove_patch_target :: "apply_env \<Rightarrow> string \<Rightarrow> (tree, unit) act" where
  "remove_patch_target env p t =
     (case map_of t p of
        Some EDir \<Rightarrow> (Inl (''sandbox patch refuses to remove directory target: '' @ shown_target env p), t)
      | None \<Rightarrow> (Inr (), t)
      | Some _ \<Rightarrow> if ap_io env p then (Inr (), bt_remove p t)
                  else (Inl (''remove sandbox patch target '' @ shown_target env p), t))"

definition remove_target_symlink :: "apply_env \<Rightarrow> string \<Rightarrow> (tree, unit) act" where
  "remove_target_symlink env p t =
     (case map_of t p of
        Some (ELink _) \<Rightarrow> if ap_io env p then (Inr (), bt_remove p t)
                          else (Inl (''remove target symlink '' @ shown_target env p), t)
      | Some EDir \<Rightarrow> (Inl (''sandbox patch target unexpectedly resolves to a directory: '' @ shown_target env p), t)
      | _ \<Rightarrow> (Inr (), t))"

text \<open>\<open>create_dir_all\<close>, outermost first; a component that is not a directory ends it.\<close>

fun create_dirs :: "apply_env \<Rightarrow> string list \<Rightarrow> (tree, unit) act" where
  "create_dirs env [] t = (Inr (), t)"
| "create_dirs env (d # ds) t =
     (case map_of t d of
        Some EDir \<Rightarrow> create_dirs env ds t
      | None \<Rightarrow> if ap_io env d then create_dirs env ds (bt_insert d EDir t)
                else (Inl (ap_os_error env), t)
      | Some _ \<Rightarrow> (Inl (ap_os_error env), t))"

text \<open>\<open>fs::copy\<close> followed by the change of the mode: the bytes are those the sandbox holds.\<close>

definition copy_file :: "apply_env \<Rightarrow> tree \<Rightarrow> string \<Rightarrow> nat option \<Rightarrow> (tree, unit) act" where
  "copy_file env sandbox p mode t =
     (case map_of sandbox p of
        Some (EFile bytes m) \<Rightarrow>
          if ap_io env p
          then (Inr (), bt_insert p (EFile bytes (case mode of None \<Rightarrow> m | Some k \<Rightarrow> k)) t)
          else (Inl (''apply sandbox file '' @ shown_target env p), t)
      | _ \<Rightarrow> (Inl (''apply sandbox file '' @ shown_target env p), t))"

definition apply_symlink :: "apply_env \<Rightarrow> tree \<Rightarrow> string \<Rightarrow> (tree, unit) act" where
  "apply_symlink env sandbox p t =
     (case map_of sandbox p of
        Some (ELink target) \<Rightarrow>
          if ap_io env p then (Inr (), bt_insert p (ELink target) t)
          else (Inl (''apply sandbox symlink '' @ shown_target env p), t)
      | _ \<Rightarrow> (Inl (''read sandbox symlink '' @ path_join (ap_sandbox_root env) p), t))"

definition apply_operation :: "apply_env \<Rightarrow> tree \<Rightarrow> patch_operation \<Rightarrow> (tree, unit) act" where
  "apply_operation env sandbox op =
     (let p = po_path op in
      case (po_kind op, po_after op) of
        (Deleted, None) \<Rightarrow> remove_patch_target env p
      | (Added, Some state) \<Rightarrow> act_bind (create_dirs env (parent_dirs p)) (\<lambda>_.
          case fs_kind state of
            RegularFile \<Rightarrow> act_bind (remove_target_symlink env p) (\<lambda>_.
              copy_file env sandbox p (fs_unix_mode state))
          | SymlinkFile \<Rightarrow> act_bind (remove_patch_target env p) (\<lambda>_. apply_symlink env sandbox p))
      | (Modified, Some state) \<Rightarrow> act_bind (create_dirs env (parent_dirs p)) (\<lambda>_.
          case fs_kind state of
            RegularFile \<Rightarrow> act_bind (remove_target_symlink env p) (\<lambda>_.
              copy_file env sandbox p (fs_unix_mode state))
          | SymlinkFile \<Rightarrow> act_bind (remove_patch_target env p) (\<lambda>_. apply_symlink env sandbox p))
      | _ \<Rightarrow> act_lift (Inl (''invalid sandbox patch operation state for '' @ p)))"

fun apply_operations :: "apply_env \<Rightarrow> tree \<Rightarrow> patch_operation list \<Rightarrow> (tree, unit) act" where
  "apply_operations env sandbox [] = act_return ()"
| "apply_operations env sandbox (op # ops) =
     act_bind (apply_operation env sandbox op) (\<lambda>_. apply_operations env sandbox ops)"

record apply_request =
  aq_target_repo :: string
  aq_sandbox_path :: string
  aq_expected_subject :: approval_subject
  aq_expected_digest :: string
  aq_approver :: string

record apply_result =
  ax_target_repo :: string
  ax_sandbox_path :: string
  ax_applied_files :: "string list"
  ax_subject :: approval_subject
  ax_action_digest :: string
  ax_approver :: string

definition check_apply_request :: "patch_env \<Rightarrow> apply_request \<Rightarrow> patch_preview \<Rightarrow> unit rresult" where
  "check_apply_request env req preview =
     rbind (bail_if (pp_subject preview \<noteq> aq_expected_subject req)
       ''approval subject mismatch: proposed bytes or base commit changed'') (\<lambda>_.
     rbind (subject_digest env (aq_expected_subject req)) (\<lambda>expected_subject_digest.
     rbind (bail_if (expected_subject_digest \<noteq> aq_expected_digest req)
       ''approval digest mismatch: expected digest does not match approved subject'') (\<lambda>_.
     bail_if (pp_action_digest preview \<noteq> aq_expected_digest req)
       (''digest mismatch: expected '' @ aq_expected_digest req @ '', got '' @ pp_action_digest preview))))"

text \<open>The state is the tree of the repository.\<close>

definition apply_sandbox_patch ::
    "patch_env \<Rightarrow> apply_env \<Rightarrow> tree option \<Rightarrow> apply_request \<Rightarrow> (tree, apply_result) act" where
  "apply_sandbox_patch env io sandbox req target =
     (case rbind (preview_sandbox_patch env (aq_target_repo req) (aq_sandbox_path req) (Some target) sandbox)
         (\<lambda>preview. rbind (check_apply_request env req preview) (\<lambda>_. Inr preview)) of
        Inl e \<Rightarrow> (Inl e, target)
      | Inr preview \<Rightarrow>
          act_bind (apply_operations
              (io\<lparr>ap_target_root := aq_target_repo req, ap_sandbox_root := aq_sandbox_path req\<rparr>)
              (case sandbox of None \<Rightarrow> [] | Some t \<Rightarrow> t)
              (su_operations (pp_subject preview))) (\<lambda>_.
            act_return \<lparr>ax_target_repo = aq_target_repo req, ax_sandbox_path = aq_sandbox_path req,
              ax_applied_files = pp_changed_files preview, ax_subject = pp_subject preview,
              ax_action_digest = pp_action_digest preview, ax_approver = aq_approver req\<rparr>) target)"

subsection \<open>The difference describes the change\<close>

text \<open>What a tree holds at a path besides directories.\<close>

definition leaf :: "tree \<Rightarrow> string \<Rightarrow> tree_entry option" where
  "leaf t p = (case map_of t p of Some EDir \<Rightarrow> None | e \<Rightarrow> e)"

definition tracked :: "string \<Rightarrow> bool" where
  "tracked p \<longleftrightarrow> p \<noteq> [] \<and> \<not> list_ex is_ignored_repo_component (path_components p)"

text \<open>A walk reports each path once, and files and links in the form \<open>a/b/c\<close>.\<close>

definition tree_wf :: "tree \<Rightarrow> bool" where
  "tree_wf t \<longleftrightarrow> bt_wf t \<and> (\<forall>p. leaf t p \<noteq> None \<longrightarrow> canonical_relative_path p = Inr p)"

definition the_state :: "(string \<Rightarrow> string) \<Rightarrow> tree_entry \<Rightarrow> file_state" where
  "the_state sha256_hex e = projr (entry_state sha256_hex [] e)"

lemma entry_state_ok:
  "entry_state sha256_hex p e = Inr s \<longleftrightarrow> e \<notin> {EDir, EOther} \<and> s = the_state sha256_hex e"
  by (cases e) (auto simp: the_state_def)

lemma bt_wf_mem: "bt_wf t \<Longrightarrow> (p, e) \<in> set t \<longleftrightarrow> map_of t p = Some e"
  by (simp add: bt_wf_sorted_distinct)

lemma snapshot_lookup:
  assumes "tree_wf t" and "snapshot_tree sha256_hex t = Inr S"
  shows "bt_wf S \<and> map_of S p =
    (if tracked p then map_option (the_state sha256_hex) (leaf t p) else None)"
proof -
  have wf: "bt_wf t" using assms(1) by (simp add: tree_wf_def)
  have canon: "canonical_relative_path (fst pe) = Inr (fst pe)" if "pe \<in> set t" "snd pe \<noteq> EDir" for pe
  proof -
    from that(1) wf have "map_of t (fst pe) = Some (snd pe)" by (simp flip: bt_wf_mem)
    then have "leaf t (fst pe) \<noteq> None" using that(2) by (cases "snd pe") (auto simp: leaf_def)
    then show ?thesis using assms(1) by (auto simp: tree_wf_def)
  qed
  obtain es where es: "map_result (snapshot_entry sha256_hex) (filter (\<lambda>pe. \<not> skipped_path pe) t) = Inr es"
    and S: "S = bt_collect es"
    using assms(2) by (auto simp: snapshot_tree_def rbind_eq_Inr)
  have entry: "snapshot_entry sha256_hex pe = Inr x \<longleftrightarrow>
      snd pe \<notin> {EDir, EOther} \<and> x = (fst pe, the_state sha256_hex (snd pe))"
    if "pe \<in> set t" "\<not> skipped_path pe" for pe x
    using canon [OF that(1)] that
    by (auto simp: snapshot_entry_def rbind_eq_Inr entry_state_ok skipped_path_def)
  have es_eq: "es = map (\<lambda>pe. (fst pe, the_state sha256_hex (snd pe))) (filter (\<lambda>pe. \<not> skipped_path pe) t)"
  proof -
    have "map_result (snapshot_entry sha256_hex) xs = Inr ys \<Longrightarrow> set xs \<subseteq> {pe \<in> set t. \<not> skipped_path pe} \<Longrightarrow>
        ys = map (\<lambda>pe. (fst pe, the_state sha256_hex (snd pe))) xs" for xs ys
      by (induction xs arbitrary: ys) (auto simp: entry split: sum.splits)
    then show ?thesis using es by auto
  qed
  have dist: "distinct (map fst es)"
    using wf by (simp add: es_eq comp_def bt_wf_sorted_distinct distinct_map_filter)
  have "map_of es p = (if tracked p then map_option (the_state sha256_hex) (leaf t p) else None)"
  proof (cases "tracked p \<and> leaf t p \<noteq> None")
    case True
    then obtain e where e: "map_of t p = Some e" "leaf t p = Some e" "e \<noteq> EDir"
      by (auto simp: leaf_def split: option.splits tree_entry.splits)
    then have "(p, e) \<in> set t" by (simp add: map_of_SomeD)
    moreover have "\<not> skipped_path (p, e)" using True e(3) by (auto simp: skipped_path_def tracked_def)
    ultimately have "(p, the_state sha256_hex e) \<in> set es" by (force simp: es_eq)
    with dist have "map_of es p = Some (the_state sha256_hex e)" by simp
    then show ?thesis using True e by simp
  next
    case False
    have "p \<notin> fst ` set es"
    proof
      assume "p \<in> fst ` set es"
      then obtain e where "(p, e) \<in> set t" "\<not> skipped_path (p, e)" by (auto simp: es_eq)
      then have "tracked p" "leaf t p = Some e" "e \<noteq> EDir"
        using wf by (auto simp: skipped_path_def tracked_def leaf_def bt_wf_mem split: tree_entry.splits)
      then show False using False by simp
    qed
    then have "map_of es p = None" by (simp add: map_of_eq_None_iff)
    then show ?thesis using False by auto
  qed
  then show ?thesis using dist by (simp add: S bt_collect_distinct)
qed

text \<open>The operations are the paths where the snapshots differ, once each and in order.\<close>

lemma union_paths_set: "set (union_paths before after) = fst ` set before \<union> fst ` set after"
proof -
  have "fst ` set (bt_collect es) = fst ` set es" for es :: "(string \<times> unit) list"
  proof -
    have "dom (map_of (bt_collect es)) = dom (map_of es)"
      by (simp add: bt_collect_lookup dom_map_of_conv_image_fst)
    then show ?thesis by (simp add: dom_map_of_conv_image_fst)
  qed
  then show ?thesis by (simp add: union_paths_def image_Un image_image case_prod_beta)
qed

lemma union_paths_distinct: "distinct (union_paths before after)" "sorted (union_paths before after)"
  using bt_collect_wf [of "map (\<lambda>(k, v). (k, ())) (before @ after)", unfolded bt_wf_sorted_distinct]
  unfolding union_paths_def by blast+

lemma operation_at_some:
  "operation_at before after path = Some (q, kind, b, a) \<longleftrightarrow>
    q = path \<and> b = map_of before path \<and> a = map_of after path \<and> a \<noteq> b
    \<and> kind = (if b = None then Added else if a = None then Deleted else Modified)"
  by (auto simp: operation_at_def split: option.splits)

lemma patch_operations_paths:
  "map po_path (patch_operations before after) =
    filter (\<lambda>p. map_of before p \<noteq> map_of after p) (union_paths before after)"
proof -
  have gen: "map po_path (map (\<lambda>(order, path, kind, b, a).
         \<lparr>po_order = order, po_path = path, po_kind = kind, po_before = b, po_after = a\<rparr>)
       (enumerate n (List.map_filter (operation_at before after) ps))) =
    filter (\<lambda>p. map_of before p \<noteq> map_of after p) ps" for n ps
    by (induction ps arbitrary: n)
      (auto simp: List.map_filter_def operation_at_def split: option.splits)
  then show ?thesis by (simp add: patch_operations_def)
qed

lemma patch_operation_states:
  assumes "op \<in> set (patch_operations before after)"
  shows "po_before op = map_of before (po_path op) \<and> po_after op = map_of after (po_path op)
    \<and> po_after op \<noteq> po_before op
    \<and> po_kind op = (if po_before op = None then Added else if po_after op = None then Deleted else Modified)"
proof -
  from assms obtain i q kind b a where op: "op =
      \<lparr>po_order = i, po_path = q, po_kind = kind, po_before = b, po_after = a\<rparr>"
    and "(q, kind, b, a) \<in> set (List.map_filter (operation_at before after) (union_paths before after))"
    unfolding patch_operations_def by (auto simp: in_set_enumerate_eq dest!: nth_mem)
  then obtain p where "operation_at before after p = Some (q, kind, b, a)"
    by (auto simp: List.map_filter_def)
  then show ?thesis by (cases "map_of before p") (auto simp: operation_at_some op)
qed

subsection \<open>What an operation does to the tree\<close>

text \<open>A successful step changes the leaf at one path and keeps every directory.\<close>

definition keeps_dirs :: "tree \<Rightarrow> tree \<Rightarrow> bool" where
  "keeps_dirs t t' \<longleftrightarrow> (\<forall>d. map_of t d = Some EDir \<longrightarrow> map_of t' d = Some EDir)"

definition sets_leaf :: "string \<Rightarrow> tree_entry option \<Rightarrow> tree \<Rightarrow> tree \<Rightarrow> bool" where
  "sets_leaf p e t t' \<longleftrightarrow>
     (bt_wf t \<longrightarrow> bt_wf t') \<and> keeps_dirs t t' \<and> leaf t' = (leaf t)(p := e)"

lemma keeps_dirs_refl [simp]: "keeps_dirs t t"
  and keeps_dirs_trans: "keeps_dirs t u \<Longrightarrow> keeps_dirs u v \<Longrightarrow> keeps_dirs t v"
  by (auto simp: keeps_dirs_def)

lemma sets_leaf_trans: "sets_leaf p e t u \<Longrightarrow> sets_leaf p e' u v \<Longrightarrow> sets_leaf p e' t v"
  by (auto simp: sets_leaf_def intro: keeps_dirs_trans)

lemma create_dirs_ok:
  "create_dirs env ds t = (Inr u, t') \<Longrightarrow>
    (bt_wf t \<longrightarrow> bt_wf t') \<and> leaf t' = leaf t \<and> keeps_dirs t t' \<and> (\<forall>d \<in> set ds. map_of t' d = Some EDir)"
proof (induction ds arbitrary: t)
  case (Cons d ds)
  show ?case
  proof (cases "map_of t d")
    case None
    let ?u = "bt_insert d EDir t"
    have "leaf ?u = leaf t" using None by (auto simp: leaf_def bt_lookup_insert fun_eq_iff)
    moreover have "keeps_dirs t ?u" "map_of ?u d = Some EDir" "bt_wf t \<longrightarrow> bt_wf ?u"
      by (auto simp: keeps_dirs_def bt_lookup_insert bt_wf_insert)
    moreover have "create_dirs env ds ?u = (Inr u, t')"
      using Cons.prems None by (simp split: if_splits)
    ultimately show ?thesis using Cons.IH [of ?u] keeps_dirs_trans
      by (auto simp: keeps_dirs_def)
  next
    case (Some e)
    with Cons.prems have "e = EDir" and "create_dirs env ds t = (Inr u, t')"
      by (auto split: tree_entry.splits)
    then show ?thesis using Cons.IH [of t] Some by (auto simp: keeps_dirs_def)
  qed
qed simp

lemma remove_patch_target_ok:
  "remove_patch_target env p t = (Inr u, t') \<Longrightarrow> sets_leaf p None t t' \<and> map_of t' p = None"
  by (auto simp: remove_patch_target_def sets_leaf_def keeps_dirs_def leaf_def bt_lookup_remove
      bt_wf_remove fun_eq_iff split: option.splits tree_entry.splits if_splits)

lemma remove_target_symlink_ok:
  "remove_target_symlink env p t = (Inr u, t') \<Longrightarrow>
    (bt_wf t \<longrightarrow> bt_wf t') \<and> keeps_dirs t t' \<and> (\<forall>q. q \<noteq> p \<longrightarrow> leaf t' q = leaf t q) \<and> map_of t' p \<noteq> Some EDir"
  by (auto simp: remove_target_symlink_def keeps_dirs_def leaf_def bt_lookup_remove
      bt_wf_remove split: option.splits tree_entry.splits if_splits)

lemma insert_leaf:
  "map_of t p \<noteq> Some EDir \<Longrightarrow> e \<noteq> EDir \<Longrightarrow> sets_leaf p (Some e) t (bt_insert p e t)"
  by (auto simp: sets_leaf_def keeps_dirs_def leaf_def bt_lookup_insert bt_wf_insert fun_eq_iff
      split: tree_entry.splits)

text \<open>What the sandbox offers at a path, with the mode the subject names.\<close>

definition patched_entry :: "tree \<Rightarrow> patch_operation \<Rightarrow> tree_entry option" where
  "patched_entry sandbox op =
     (case po_after op of None \<Rightarrow> None
      | Some state \<Rightarrow>
          (case map_of sandbox (po_path op) of
             Some (EFile bytes m) \<Rightarrow>
               Some (EFile bytes (case fs_unix_mode state of None \<Rightarrow> m | Some k \<Rightarrow> k))
           | e \<Rightarrow> e))"

lemma apply_operation_ok:
  assumes "apply_operation env sandbox op t = (Inr u, t')"
    and "po_after op = map_option (the_state sha256_hex) (leaf sandbox (po_path op))"
  shows "sets_leaf (po_path op) (patched_entry sandbox op) t t'
    \<and> (po_after op \<noteq> None \<longrightarrow> (\<forall>d \<in> set (parent_dirs (po_path op)). map_of t' d = Some EDir))"
proof (cases "po_after op")
  case None
  with assms(1) have "remove_patch_target env (po_path op) t = (Inr u, t')"
    by (cases "po_kind op") (auto simp: apply_operation_def)
  then show ?thesis using None remove_patch_target_ok by (simp add: patched_entry_def)
next
  case (Some state)
  let ?p = "po_path op"
  from Some assms(2) obtain e where e: "map_of sandbox ?p = Some e" "e \<noteq> EDir"
    "state = the_state sha256_hex e"
    by (auto simp: leaf_def split: option.splits tree_entry.splits)
  from assms(1) Some obtain t1 where dirs: "create_dirs env (parent_dirs ?p) t = (Inr (), t1)"
    and body: "(case fs_kind state of
            RegularFile \<Rightarrow> act_bind (remove_target_symlink env ?p) (\<lambda>_.
              copy_file env sandbox ?p (fs_unix_mode state))
          | SymlinkFile \<Rightarrow> act_bind (remove_patch_target env ?p) (\<lambda>_. apply_symlink env sandbox ?p)) t1
        = (Inr u, t')"
    by (cases "po_kind op") (auto simp: apply_operation_def Let_def act_bind_ok)
  note d = create_dirs_ok [OF dirs]
  have "sets_leaf ?p (patched_entry sandbox op) t1 t'"
  proof (cases "fs_kind state")
    case RegularFile
    with body obtain t2 where t2: "remove_target_symlink env ?p t1 = (Inr (), t2)"
      and copy: "copy_file env sandbox ?p (fs_unix_mode state) t2 = (Inr u, t')"
      by (auto simp: act_bind_ok)
    from copy obtain bytes m where f: "map_of sandbox ?p = Some (EFile bytes m)"
      and t': "t' = bt_insert ?p (EFile bytes (case fs_unix_mode state of None \<Rightarrow> m | Some k \<Rightarrow> k)) t2"
      by (auto simp: copy_file_def split: option.splits tree_entry.splits if_splits)
    have "patched_entry sandbox op =
        Some (EFile bytes (case fs_unix_mode state of None \<Rightarrow> m | Some k \<Rightarrow> k))"
      by (simp add: patched_entry_def Some f)
    then have "sets_leaf ?p (patched_entry sandbox op) t2 t'"
      using remove_target_symlink_ok [OF t2] by (simp add: t' insert_leaf)
    then show ?thesis
      using remove_target_symlink_ok [OF t2]
      by (auto simp: sets_leaf_def fun_eq_iff intro: keeps_dirs_trans)
  next
    case SymlinkFile
    with body obtain t2 where t2: "remove_patch_target env ?p t1 = (Inr (), t2)"
      and link: "apply_symlink env sandbox ?p t2 = (Inr u, t')"
      by (auto simp: act_bind_ok)
    from link obtain target where f: "map_of sandbox ?p = Some (ELink target)"
      and t': "t' = bt_insert ?p (ELink target) t2"
      by (auto simp: apply_symlink_def split: option.splits tree_entry.splits if_splits)
    have "patched_entry sandbox op = Some (ELink target)"
      by (simp add: patched_entry_def Some f)
    then have "sets_leaf ?p (patched_entry sandbox op) t2 t'"
      using remove_patch_target_ok [OF t2] by (simp add: t' insert_leaf)
    then show ?thesis using remove_patch_target_ok [OF t2] sets_leaf_trans by blast
  qed
  moreover from this d have "sets_leaf ?p (patched_entry sandbox op) t t'"
    by (auto simp: sets_leaf_def intro: keeps_dirs_trans)
  ultimately show ?thesis using d by (auto simp: sets_leaf_def keeps_dirs_def)
qed

lemma apply_operations_ok:
  assumes "apply_operations env sandbox ops t = (Inr u, t')"
    and "\<And>op. op \<in> set ops \<Longrightarrow> po_after op = map_option (the_state sha256_hex) (leaf sandbox (po_path op))"
    and "distinct (map po_path ops)"
  shows "(bt_wf t \<longrightarrow> bt_wf t') \<and> keeps_dirs t t'
    \<and> (\<forall>op \<in> set ops. leaf t' (po_path op) = patched_entry sandbox op)
    \<and> (\<forall>q. q \<notin> po_path ` set ops \<longrightarrow> leaf t' q = leaf t q)
    \<and> (\<forall>op \<in> set ops. po_after op \<noteq> None \<longrightarrow> (\<forall>d \<in> set (parent_dirs (po_path op)). map_of t' d = Some EDir))"
  using assms
proof (induction ops arbitrary: t)
  case (Cons op ops)
  from Cons.prems(1) obtain t1 where op: "apply_operation env sandbox op t = (Inr (), t1)"
    and rest: "apply_operations env sandbox ops t1 = (Inr u, t')"
    by (auto simp: act_bind_ok)
  have first: "sets_leaf (po_path op) (patched_entry sandbox op) t t1
    \<and> (po_after op \<noteq> None \<longrightarrow> (\<forall>d \<in> set (parent_dirs (po_path op)). map_of t1 d = Some EDir))"
    using Cons.prems(2) by (intro apply_operation_ok [OF op]) simp
  have IH: "(bt_wf t1 \<longrightarrow> bt_wf t') \<and> keeps_dirs t1 t'
    \<and> (\<forall>op \<in> set ops. leaf t' (po_path op) = patched_entry sandbox op)
    \<and> (\<forall>q. q \<notin> po_path ` set ops \<longrightarrow> leaf t' q = leaf t1 q)
    \<and> (\<forall>op \<in> set ops. po_after op \<noteq> None \<longrightarrow> (\<forall>d \<in> set (parent_dirs (po_path op)). map_of t' d = Some EDir))"
    using Cons.prems(2,3) by (intro Cons.IH [OF rest]) auto
  have "po_path op \<notin> po_path ` set ops" using Cons.prems(3) by auto
  with first IH show ?case by (auto simp: sets_leaf_def keeps_dirs_def)
qed simp

lemma snapshot_no_other:
  assumes "bt_wf t" and "snapshot_tree sha256_hex t = Inr S" and "tracked q"
  shows "leaf t q \<noteq> Some EOther"
proof
  assume "leaf t q = Some EOther"
  then have "(q, EOther) \<in> set t"
    using assms(1) by (auto simp: leaf_def bt_wf_mem split: option.splits tree_entry.splits)
  then have "(q, EOther) \<in> set (filter (\<lambda>pe. \<not> skipped_path pe) t)"
    using assms(3) by (simp add: skipped_path_def tracked_def)
  moreover obtain es where "map_result (snapshot_entry sha256_hex) (filter (\<lambda>pe. \<not> skipped_path pe) t) = Inr es"
    using assms(2) by (auto simp: snapshot_tree_def rbind_eq_Inr)
  ultimately obtain x where "snapshot_entry sha256_hex (q, EOther) = Inr x"
    using map_result_mem by metis
  then show False by (auto simp: snapshot_entry_def rbind_eq_Inr)
qed

lemma snapshot_total:
  assumes "tree_wf t" and "\<And>q. tracked q \<Longrightarrow> leaf t q \<noteq> Some EOther"
  shows "\<exists>S. snapshot_tree sha256_hex t = Inr S"
proof -
  have "\<exists>x. snapshot_entry sha256_hex pe = Inr x" if "pe \<in> set (filter (\<lambda>pe. \<not> skipped_path pe) t)" for pe
  proof -
    obtain q e where pe: "pe = (q, e)" by (cases pe)
    with that assms(1) have m: "map_of t q = Some e" and t: "tracked q" and e: "e \<noteq> EDir"
      by (auto simp: tree_wf_def bt_wf_mem skipped_path_def tracked_def)
    then have l: "leaf t q = Some e" by (cases e) (auto simp: leaf_def)
    then have "canonical_relative_path q = Inr q" using assms(1) by (simp add: tree_wf_def)
    moreover have "e \<noteq> EOther" using assms(2) [OF t] l by simp
    ultimately show ?thesis using e by (cases e) (auto simp: pe snapshot_entry_def)
  qed
  then have "\<exists>es. map_result (snapshot_entry sha256_hex) (filter (\<lambda>pe. \<not> skipped_path pe) t) = Inr es"
  proof -
    have "(\<And>x. x \<in> set xs \<Longrightarrow> \<exists>y. f x = Inr y) \<Longrightarrow> \<exists>ys. map_result f xs = Inr ys" for f :: "'a \<Rightarrow> 'b rresult" and xs
      by (induction xs) force+
    then show "(\<And>pe. pe \<in> set (filter (\<lambda>pe. \<not> skipped_path pe) t) \<Longrightarrow> \<exists>x. snapshot_entry sha256_hex pe = Inr x)
        \<Longrightarrow> ?thesis" by blast
  qed
  then show ?thesis by (auto simp: snapshot_tree_def)
qed

lemma patched_entry_state:
  assumes "po_after op = map_option (the_state sha256_hex) (leaf sandbox (po_path op))"
  shows "map_option (the_state sha256_hex) (patched_entry sandbox op) = po_after op
    \<and> patched_entry sandbox op \<notin> {Some EDir}
    \<and> (leaf sandbox (po_path op) \<noteq> Some EOther \<longrightarrow> patched_entry sandbox op \<noteq> Some EOther)"
  using assms
  by (auto simp: patched_entry_def leaf_def the_state_def split: option.splits tree_entry.splits)

lemma apply_steps:
  assumes "apply_sandbox_patch env io (Some sandbox) req target = (Inr res, target')"
  shows "\<exists>before after io'. snapshot_tree (pa_sha256 env) target = Inr before
    \<and> snapshot_tree (pa_sha256 env) sandbox = Inr after
    \<and> su_operations (aq_expected_subject req) = patch_operations before after
    \<and> subject_digest env (aq_expected_subject req) = Inr (aq_expected_digest req)
    \<and> ax_subject res = aq_expected_subject req \<and> ax_action_digest res = aq_expected_digest req
    \<and> apply_operations io' sandbox (patch_operations before after) target = (Inr (), target')"
  using assms
  by (auto simp: apply_sandbox_patch_def preview_sandbox_patch_def build_approval_subject_def
      check_apply_request_def ensure_directory_def check_simps split: sum.splits
      dest!: sym [where t = "aq_expected_subject req"])

text \<open>What the leaves of the repository are once all operations were carried out.\<close>

lemma patch_operations_effect:
  assumes "snapshot_tree sha target = Inr before" and "snapshot_tree sha sandbox = Inr after"
    and "apply_operations io' sandbox (patch_operations before after) target = (Inr (), target')"
    and "tree_wf target" and "tree_wf sandbox"
  shows "tracked q \<Longrightarrow> map_option (the_state sha) (leaf target' q) = map_option (the_state sha) (leaf sandbox q)"
    and "tracked q \<Longrightarrow> leaf target' q \<noteq> Some EOther"
    and "\<not> tracked q \<Longrightarrow> leaf target' q = leaf target q"
    and "tree_wf target'" and "keeps_dirs target target'"
    and "(\<Union>op \<in> {op \<in> set (patch_operations before after). po_after op \<noteq> None}.
         set (parent_dirs (po_path op))) \<subseteq> {d. map_of target' d = Some EDir}"
proof -
  let ?ops = "patch_operations before after"
  have look_b: "map_of before q = (if tracked q then map_option (the_state sha) (leaf target q) else None)" for q
    using snapshot_lookup [OF assms(4,1)] by blast
  have look_a: "map_of after q = (if tracked q then map_option (the_state sha) (leaf sandbox q) else None)" for q
    using snapshot_lookup [OF assms(5,2)] by blast
  have paths: "q \<in> po_path ` set ?ops \<longleftrightarrow> map_of before q \<noteq> map_of after q" for q
  proof -
    have "q \<in> po_path ` set ?ops \<longleftrightarrow> q \<in> set (union_paths before after) \<and> map_of before q \<noteq> map_of after q"
      by (simp flip: set_map add: patch_operations_paths)
    then show ?thesis by (auto simp: union_paths_set map_of_eq_None_iff [symmetric])
  qed
  have op_tracked: "tracked (po_path op)" if "op \<in> set ?ops" for op
    using that paths [of "po_path op"] look_a look_b by (auto split: if_splits)
  have op_after: "po_after op = map_option (the_state sha) (leaf sandbox (po_path op))"
    if "op \<in> set ?ops" for op
    using patch_operation_states [OF that] op_tracked [OF that] look_a by simp
  have "distinct (map po_path ?ops)"
    by (simp add: patch_operations_paths union_paths_distinct)
  note ok = apply_operations_ok [OF assms(3) op_after this]
  have other: "leaf target' q = leaf target q" if "map_of before q = map_of after q" for q
    using ok that paths [of q] by blast
  have patched: "leaf target' (po_path op) = patched_entry sandbox op" if "op \<in> set ?ops" for op
    using ok that by blast
  have changed: "\<exists>op \<in> set ?ops. q = po_path op" if "map_of before q \<noteq> map_of after q" for q
    using that paths [of q] by blast
  show states: "map_option (the_state sha) (leaf target' q) = map_option (the_state sha) (leaf sandbox q)"
    if "tracked q" for q
    using other [of q] changed [of q] look_a [of q] look_b [of q] that patched patched_entry_state op_after by metis
  show untracked: "leaf target' q = leaf target q" if "\<not> tracked q" for q
    using other [of q] that look_a look_b by simp
  show "leaf target' q \<noteq> Some EOther" if q: "tracked q" for q
    using other [of q] changed [of q] snapshot_no_other [OF _ assms(1) q] snapshot_no_other [OF _ assms(2) q]
      assms(4,5) patched patched_entry_state op_after unfolding tree_wf_def by metis
  have "canonical_relative_path q = Inr q" if "leaf target' q \<noteq> None" for q
    using that states [of q] other untracked assms(4,5) look_a [of q] look_b [of q]
    unfolding tree_wf_def by (metis option.map_disc_iff)
  with ok assms(4) show "tree_wf target'" by (simp add: tree_wf_def)
  show "keeps_dirs target target'"
    and "(\<Union>op \<in> {op \<in> set ?ops. po_after op \<noteq> None}. set (parent_dirs (po_path op)))
      \<subseteq> {d. map_of target' d = Some EDir}"
    using ok by blast+
qed


text \<open>The digest that a human approves fixes the change: a request under that digest either carries
  out the approved subject, computed from the trees as they are, or changes nothing.\<close>

lemma approved_digest_fixes_the_change:
  assumes "subject_digest env approved = Inr (aq_expected_digest req)"
    and "subject_digest env (aq_expected_subject req) = subject_digest env approved \<Longrightarrow>
      aq_expected_subject req = approved"
    and "apply_sandbox_patch env io sandbox req target = (r, target')"
    and "target' \<noteq> target \<or> (\<exists>res. r = Inr res)"
  shows "\<exists>tree. sandbox = Some tree
    \<and> build_approval_subject env (aq_target_repo req) target tree = Inr approved"
proof -
  obtain preview where
    preview: "preview_sandbox_patch env (aq_target_repo req) (aq_sandbox_path req) (Some target) sandbox = Inr preview"
    and checked: "check_apply_request env req preview = Inr ()"
    using assms(3,4) by (auto simp: apply_sandbox_patch_def rbind_def split: sum.splits)
  from checked have "pp_subject preview = aq_expected_subject req"
    and "subject_digest env (aq_expected_subject req) = Inr (aq_expected_digest req)"
    by (auto simp: check_apply_request_def check_simps)
  with assms(1,2) have "pp_subject preview = approved" by simp
  then show ?thesis
    using preview by (auto simp: preview_sandbox_patch_def ensure_directory_def check_simps)
qed

lemma tree_wf_code: "bt_wf t \<Longrightarrow> list_all (\<lambda>(p, e). e = EDir \<or> canonical_relative_path p = Inr p) t \<Longrightarrow> tree_wf t"
  by (auto simp: tree_wf_def leaf_def list_all_iff dest!: map_of_SomeD
      split: option.splits tree_entry.splits)

definition example_git :: "string list \<Rightarrow> git_output option" where
  "example_git args = Some \<lparr>go_success = True,
     go_stdout = (if args = [''rev-parse'', ''HEAD''] then replicate 40 CHR ''a'' else ''.git''),
     go_stderr = []\<rparr>"

definition example_digest_bytes :: "approval_subject \<Rightarrow> string rresult" where
  "example_digest_bytes s = Inr ''d''"

definition example_patch_env :: patch_env where
  "example_patch_env = \<lparr>pa_sha256 = rev, pa_subject_bytes = example_digest_bytes,
     pa_git = example_git, pa_canonicalize = Some, pa_lossy = rev\<rparr>"

definition example_target :: tree where
  "example_target = [(''a'', EFile ''x'' 420)]"

definition example_sandbox :: tree where
  "example_sandbox = [(''a'', EFile ''yz'' 420), (''d'', EDir), (''d/b'', ELink ''a'')]"

definition always :: "string \<Rightarrow> bool" where
  "always p \<longleftrightarrow> True"

definition example_apply_env :: apply_env where
  "example_apply_env = \<lparr>ap_io = always, ap_os_error = [], ap_target_root = [], ap_sandbox_root = []\<rparr>"

definition example_request :: apply_request where
  "example_request = \<lparr>aq_target_repo = ''r'', aq_sandbox_path = ''s'',
     aq_expected_subject = projr (build_approval_subject example_patch_env ''r'' example_target example_sandbox),
     aq_expected_digest = ''d'', aq_approver = ''human''\<rparr>"


end
