(* ===== verification/Run_State.thy ===== *)
theory Run_State
  imports Policy_Gate Run_Evidence Sandbox_Patch
begin

text \<open>
  The state of a governed run in \<open>crates/ao2-runtime/src/lib.rs\<close> (\<open>RunContext\<close>, the files of
  the run directory and the repository with its sandboxes), the records that are written as
  JSON, and the steps every stage is made of: \<open>emit\<close>, \<open>put_text\<close>, \<open>artifact_created\<close>,
  \<open>write_run_record\<close> and the approval files.  Every system call may fail; fresh
  identifiers, the clock and the failures are read from the environment at the number of
  the draw.  The trace records in order what the run did: the events it emitted, the
  patches it applied, the verifier and provider runs, the records it wrote.
\<close>

subsection \<open>Records as JSON\<close>

definition json_bool_opt :: "bool option \<Rightarrow> json" where
  "json_bool_opt b = (case b of None \<Rightarrow> JNull | Some v \<Rightarrow> JBool v)"

fun provider_name :: "provider_kind \<Rightarrow> string" where
  "provider_name Scripted = ''scripted''"
| "provider_name Codex = ''codex''"
| "provider_name Claude = ''claude''"
| "provider_name Antigravity = ''antigravity''"

fun status_name :: "run_status \<Rightarrow> string" where
  "status_name Created = ''created''"
| "status_name Compiled = ''compiled''"
| "status_name Queued = ''queued''"
| "status_name Running = ''running''"
| "status_name WaitingForApproval = ''waiting_for_approval''"
| "status_name Blocked = ''blocked''"
| "status_name Failed = ''failed''"
| "status_name Rejected = ''rejected''"
| "status_name Accepted = ''accepted''"
| "status_name AcceptedWithConcerns = ''accepted_with_concerns''"
| "status_name Canceled = ''canceled''"
| "status_name Replaying = ''replaying''"

definition tool_request_json :: "tool_request \<Rightarrow> json" where
  "tool_request_json r = json_object
     [(''principal'', JString (tr_principal r)), (''tool'', JString (tr_tool r)),
      (''operation'', JString (tr_operation r)), (''resource'', JString (tr_resource r)),
      (''args'', json_string_array (tr_args r)),
      (''expected_side_effects'', json_string_array (tr_expected_side_effects r))]"

definition policy_decision_json :: "(timestamp \<Rightarrow> string) \<Rightarrow> policy_decision \<Rightarrow> json" where
  "policy_decision_json show_time d = json_object
     [(''decision_id'', JString (pd_decision_id d)), (''principal'', JString (pd_principal d)),
      (''action'', JString (pd_action d)), (''resource'', JString (pd_resource d)),
      (''request_digest'', JString (pd_request_digest d)), (''decision'', JString (pd_decision d)),
      (''reason'', JString (pd_reason d)), (''policy_version'', JString (pd_policy_version d)),
      (''approval_ticket_id'', json_opt_str (pd_approval_ticket_id d)),
      (''created_at'', JString (show_time (pd_created_at d)))]"

definition approval_ticket_json :: "(timestamp \<Rightarrow> string) \<Rightarrow> approval_ticket \<Rightarrow> json" where
  "approval_ticket_json show_time t = json_object
     [(''ticket_id'', JString (tk_ticket_id t)), (''run_id'', JString (tk_run_id t)),
      (''requested_action'', JString (tk_requested_action t)),
      (''action_digest'', JString (tk_action_digest t)), (''risk_class'', JString (tk_risk_class t)),
      (''requester'', JString (tk_requester t)), (''approver'', json_opt_str (tk_approver t)),
      (''status'', JString (tk_status t)), (''scope'', JString (tk_scope t)),
      (''created_at'', JString (show_time (tk_created_at t))),
      (''expires_at'', JString (show_time (tk_expires_at t)))]"

definition artifact_ref_json :: "artifact_ref \<Rightarrow> json" where
  "artifact_ref_json a = json_object
     [(''artifact_id'', JString (ar_artifact_id a)), (''artifact_type'', JString (ar_artifact_type a)),
      (''uri'', JString (ar_uri a)), (''media_type'', JString (ar_media_type a)),
      (''digest'', JString (ar_digest a)), (''producer'', JString (ar_producer a)),
      (''input_refs'', json_string_array (ar_input_refs a)), (''sensitivity'', JString (ar_sensitivity a))]"

definition closure_report_json :: "(timestamp \<Rightarrow> string) \<Rightarrow> closure_report \<Rightarrow> json" where
  "closure_report_json show_time r = json_object
     [(''verdict'', JString (cr_verdict r)),
      (''acceptance_criteria_results'', json_string_array (cr_acceptance_criteria_results r)),
      (''evidence_refs'', json_string_array (cr_evidence_refs r)),
      (''unresolved_concerns'', json_string_array (cr_unresolved_concerns r)),
      (''blockers'', json_string_array (cr_blockers r)),
      (''policy_exceptions'', json_string_array (cr_policy_exceptions r)),
      (''cost_summary'', JString (cr_cost_summary r)),
      (''created_at'', JString (show_time (cr_created_at r)))]"

record repair_attempt =
  ra_attempt :: nat
  ra_trigger :: string
  ra_status :: string
  ra_evidence_refs :: "string list"
  ra_summary :: string
  ra_created_at :: timestamp

definition repair_attempt_json :: "(timestamp \<Rightarrow> string) \<Rightarrow> repair_attempt \<Rightarrow> json" where
  "repair_attempt_json show_time a = json_object
     [(''attempt'', json_nat (ra_attempt a)), (''trigger'', JString (ra_trigger a)),
      (''status'', JString (ra_status a)), (''evidence_refs'', json_string_array (ra_evidence_refs a)),
      (''summary'', JString (ra_summary a)), (''created_at'', JString (show_time (ra_created_at a)))]"

definition file_state_json :: "file_state \<Rightarrow> json" where
  "file_state_json s = json_object
     [(''kind'', JString (case fs_kind s of RegularFile \<Rightarrow> ''regular_file'' | SymlinkFile \<Rightarrow> ''symlink'')),
      (''content_sha256'', json_opt_str (fs_content_sha256 s)),
      (''symlink_target_sha256'', json_opt_str (fs_symlink_target_sha256 s)),
      (''unix_mode'', (case fs_unix_mode s of None \<Rightarrow> JNull | Some m \<Rightarrow> json_nat m))]"

definition patch_operation_json :: "patch_operation \<Rightarrow> json" where
  "patch_operation_json op = json_object
     [(''order'', json_nat (po_order op)), (''path'', JString (po_path op)),
      (''kind'', JString (kind_name (po_kind op))),
      (''before'', (case po_before op of None \<Rightarrow> JNull | Some s \<Rightarrow> file_state_json s)),
      (''after'', (case po_after op of None \<Rightarrow> JNull | Some s \<Rightarrow> file_state_json s))]"

definition approval_subject_json :: "approval_subject \<Rightarrow> json" where
  "approval_subject_json s = json_object
     [(''schema_version'', JString (su_schema_version s)),
      (''repository_identity'', JString (su_repository_identity s)),
      (''base_commit'', JString (su_base_commit s)),
      (''operation_type'', JString (su_operation_type s)),
      (''operations'', JArray (map patch_operation_json (su_operations s)))]"

definition patch_preview_json :: "patch_preview \<Rightarrow> json" where
  "patch_preview_json p = json_object
     [(''target_repo'', JString (pp_target_repo p)), (''sandbox_path'', JString (pp_sandbox_path p)),
      (''changed_files'', json_string_array (pp_changed_files p)),
      (''diff_summary'', JString (pp_diff_summary p)),
      (''approval_subject'', approval_subject_json (pp_subject p)),
      (''action_digest'', JString (pp_action_digest p))]"

definition apply_result_json :: "apply_result \<Rightarrow> json" where
  "apply_result_json r = json_object
     [(''target_repo'', JString (ax_target_repo r)), (''sandbox_path'', JString (ax_sandbox_path r)),
      (''applied_files'', json_string_array (ax_applied_files r)),
      (''approval_subject'', approval_subject_json (ax_subject r)),
      (''action_digest'', JString (ax_action_digest r)), (''approver'', JString (ax_approver r))]"

subsection \<open>The state of a run\<close>

text \<open>The repository and the directories beside it that hold sandboxes.\<close>

record disk =
  dk_target :: tree
  dk_sandbox :: "string \<Rightarrow> tree option"

record provider_call =
  pc_provider :: provider_kind
  pc_prompt :: string
  pc_role :: string
  pc_budget :: "string option"

text \<open>What a provider run returns: the adapter result and the transcript summary as JSON, whether
  the adapter reports a blocker, and the sandbox it worked in.\<close>

record provider_result =
  pq_adapter :: json
  pq_blocked :: bool
  pq_summary :: json
  pq_sandbox :: string

record verifier_output =
  vo_success :: bool
  vo_code :: int
  vo_stdout :: string
  vo_stderr :: string

datatype run_step =
    Emitted ao_event
  | ProviderRan provider_call
  | PatchApplied approval_ticket apply_request tree tree
  | CommandRan string bool
  | VerifierRan string bool
  | RepoWritten string
  | RecordWritten run_status

text \<open>The part of the context that \<open>run-record.json\<close> keeps across processes.\<close>

record saved_run =
  sv_status :: run_status
  sv_artifacts :: "artifact_ref list"
  sv_policy_decisions :: "policy_decision list"
  sv_approvals :: "approval_ticket list"
  sv_closure_reports :: "closure_report list"
  sv_repair_attempts :: "repair_attempt list"
  sv_integrity :: json

record repair_source =
  rs_source_run_id :: string
  rs_evidence_pack_path :: string
  rs_source_verdict :: string
  rs_run_health :: json
  rs_unresolved_concerns :: "string list"
  rs_evidence_refs :: "string list"
  rs_latest_verifier_output :: "string option"

text \<open>\<open>provider-options.json\<close>: what a resumed run needs of the options it was started with.\<close>

record provider_options =
  ro_provider :: provider_kind
  ro_prompt :: string
  ro_max_repair_attempts :: nat
  ro_max_budget :: "string option"
  ro_repair_source :: "repair_source option"

text \<open>The context of a run, with what its directory holds: the contents of the artifacts in
  \<open>rc_files\<close>, the other files decoded, in a field of their own.\<close>

record run_ctx =
  rc_run_id :: string
  rc_workflow_id :: string
  rc_template_kind :: "string option"
  rc_objective :: string
  rc_roles :: "string list"
  rc_workflow_tasks :: "json list"
  rc_workflow_dependencies :: "json list"
  rc_compatibility :: "json option"
  rc_acceptance :: "string list"
  rc_verifier_command :: string
  rc_target_repo :: string
  rc_run_dir :: string
  rc_artifacts :: "artifact_ref list"
  rc_policy_decisions :: "policy_decision list"
  rc_approvals :: "approval_ticket list"
  rc_closure_reports :: "closure_report list"
  rc_repair_attempts :: "repair_attempt list"
  rc_consumed :: "string list option"
  rc_stored :: "(string \<times> approval_ticket \<times> tool_request) list"
  rc_saved :: "saved_run option"
  rc_options :: "provider_options option"
  rc_files :: "string \<Rightarrow> string option"
  rc_disk :: disk
  rc_draws :: nat
  rc_trace :: "run_step list"

record run_env =
  re_sha256 :: "string \<Rightarrow> string"
  re_to_vec :: "json \<Rightarrow> string"
  re_request_vec :: "tool_request \<Rightarrow> string"
  re_decision_vec :: "policy_decision \<Rightarrow> string"
  re_decisions_vec :: "policy_decision list \<Rightarrow> string"
  re_tickets_vec :: "approval_ticket list \<Rightarrow> string"
  re_to_string :: "json \<Rightarrow> string rresult"
  re_pretty :: "json \<Rightarrow> string rresult"
  re_from_str :: "string \<Rightarrow> json rresult"
  re_show_time :: "timestamp \<Rightarrow> string"
  re_show_cost :: "json_number list \<Rightarrow> string"
  re_round_cost :: "json_number list \<Rightarrow> json_number"
  re_display_time :: "timestamp \<Rightarrow> string"
  re_show_strings :: "string list \<Rightarrow> string"
  re_lossy :: "string \<Rightarrow> string"
  re_lower :: "string \<Rightarrow> string"
  re_uuid :: "nat \<Rightarrow> string"
  re_clock :: "nat \<Rightarrow> timestamp"
  re_io :: "nat \<Rightarrow> bool"
  re_copied :: "nat \<Rightarrow> nat"
  re_patch :: patch_env
  re_apply_io :: "nat \<Rightarrow> apply_env"
  re_provider :: "nat \<Rightarrow> provider_call \<Rightarrow> disk \<Rightarrow> provider_result rresult \<times> disk"
  re_command :: "nat \<Rightarrow> string \<Rightarrow> disk \<Rightarrow> verifier_output option \<times> disk"
  re_has_command :: "string \<Rightarrow> bool"
  re_write :: "nat \<Rightarrow> string \<Rightarrow> string \<Rightarrow> tree \<Rightarrow> bool \<times> tree"

type_synonym 'a run_act = "(run_ctx, 'a) act"

definition is_real_project_template :: "run_ctx \<Rightarrow> bool" where
  "is_real_project_template s \<longleftrightarrow> rc_template_kind s = Some ''real_project''"

subsection \<open>Elementary steps\<close>

definition draw :: "nat run_act" where
  "draw s = (Inr (rc_draws s), s\<lparr>rc_draws := Suc (rc_draws s)\<rparr>)"

definition now :: "run_env \<Rightarrow> timestamp run_act" where
  "now env = act_bind draw (\<lambda>k. act_return (re_clock env k))"

definition new_id :: "run_env \<Rightarrow> string \<Rightarrow> string run_act" where
  "new_id env prefix' = act_bind draw (\<lambda>k. act_return (prefix' @ ''-'' @ re_uuid env k))"

text \<open>A system call that may fail with a message.\<close>

definition io_call :: "run_env \<Rightarrow> string \<Rightarrow> unit run_act" where
  "io_call env msg = act_bind draw (\<lambda>k. act_lift (bail_if (\<not> re_io env k) msg))"

definition get_ctx :: "run_ctx run_act" where
  "get_ctx s = (Inr s, s)"

definition log_step :: "run_step \<Rightarrow> unit run_act" where
  "log_step st s = (Inr (), s\<lparr>rc_trace := rc_trace s @ [st]\<rparr>)"

definition events_path :: "run_ctx \<Rightarrow> string" where
  "events_path s = path_join (rc_run_dir s) ''events.jsonl''"

definition run_event ::
    "run_env \<Rightarrow> run_ctx \<Rightarrow> string \<Rightarrow> timestamp \<Rightarrow> string \<Rightarrow> string option \<Rightarrow> string option
      \<Rightarrow> actor \<Rightarrow> json \<Rightarrow> ao_event" where
  "run_event env s uuid time event_type role_id task_id act payload =
     (let event = ao_event_new (re_sha256 env) (re_to_vec env) uuid time (re_show_time env time)
            (rc_run_id s) (rc_workflow_id s) event_type role_id task_id act payload
      in if rc_policy_decisions s = [] then event
         else with_policy_integrity (re_sha256 env) (re_to_vec env)
           (integrity_binding (re_sha256 env) (re_decision_vec env) (last (rc_policy_decisions s))) event)"

text \<open>\<open>emit\<close>: the event reaches the log before the flush, which may still fail.\<close>

definition emit ::
    "run_env \<Rightarrow> string \<Rightarrow> string option \<Rightarrow> string option \<Rightarrow> actor \<Rightarrow> json \<Rightarrow> unit run_act" where
  "emit env event_type role_id task_id act payload =
     act_bind get_ctx (\<lambda>s.
     act_bind draw (\<lambda>k.
     act_bind (now env) (\<lambda>time.
     act_bind (io_call env (''open events log '' @ events_path s)) (\<lambda>_.
     act_bind (log_step (Emitted (run_event env s (re_uuid env k) time event_type role_id task_id act payload))) (\<lambda>_.
       io_call env (''fsync events log '' @ events_path s))))))"

definition write_file :: "string \<Rightarrow> string \<Rightarrow> unit run_act" where
  "write_file path content s = (Inr (), s\<lparr>rc_files := (rc_files s)(path \<mapsto> content)\<rparr>)"

text \<open>\<open>ArtifactStore::put_text\<close>.\<close>

definition put_text ::
    "run_env \<Rightarrow> string \<Rightarrow> string \<Rightarrow> string \<Rightarrow> string \<Rightarrow> string \<Rightarrow> string list \<Rightarrow> artifact_ref run_act" where
  "put_text env artifact_type producer file_name media_type content input_refs =
     act_bind get_ctx (\<lambda>s.
     act_bind (new_id env ''art'') (\<lambda>artifact_id.
     let dir = path_join (path_join (rc_run_dir s) ''artifacts'') artifact_id;
         content_path = path_join dir file_name in
     act_bind (io_call env (''create artifact dir '' @ dir)) (\<lambda>_.
     act_bind (io_call env (''write artifact content '' @ content_path)) (\<lambda>_.
     act_bind (write_file content_path content) (\<lambda>_.
     let artifact = \<lparr>ar_artifact_id = artifact_id, ar_artifact_type = artifact_type,
           ar_uri = content_path, ar_media_type = media_type,
           ar_digest = re_sha256 env content, ar_producer = producer, ar_input_refs = input_refs,
           ar_sensitivity = ''internal''\<rparr>;
         manifest_path = path_join dir ''artifact.json'' in
     act_bind (act_lift (re_pretty env (artifact_ref_json artifact))) (\<lambda>manifest.
     act_bind (io_call env (''write artifact manifest '' @ manifest_path)) (\<lambda>_.
     act_bind (write_file manifest_path manifest) (\<lambda>_.
     act_return artifact))))))))"

definition push_artifact :: "artifact_ref \<Rightarrow> unit run_act" where
  "push_artifact a s = (Inr (), s\<lparr>rc_artifacts := rc_artifacts s @ [a]\<rparr>)"

definition artifact_created :: "run_env \<Rightarrow> artifact_ref \<Rightarrow> unit run_act" where
  "artifact_created env a =
     act_bind (push_artifact a) (\<lambda>_.
       emit env ''artifact.created'' (Some (ar_producer a)) None (actor_role (ar_producer a))
         (json_object [(''artifact_id'', JString (ar_artifact_id a)),
           (''artifact_type'', JString (ar_artifact_type a)),
           (''digest'', JString (ar_digest a)), (''uri'', JString (ar_uri a))]))"

text \<open>An artifact is stored and then announced.\<close>

definition put_artifact ::
    "run_env \<Rightarrow> string \<Rightarrow> string \<Rightarrow> string \<Rightarrow> string \<Rightarrow> string \<Rightarrow> string list \<Rightarrow> artifact_ref run_act" where
  "put_artifact env artifact_type producer file_name media_type content input_refs =
     act_bind (put_text env artifact_type producer file_name media_type content input_refs) (\<lambda>a.
     act_bind (artifact_created env a) (\<lambda>_. act_return a))"

definition put_json ::
    "run_env \<Rightarrow> string \<Rightarrow> string \<Rightarrow> string \<Rightarrow> json \<Rightarrow> string list \<Rightarrow> artifact_ref run_act" where
  "put_json env artifact_type producer file_name v input_refs =
     act_bind (act_lift (re_pretty env v)) (\<lambda>content.
       put_artifact env artifact_type producer file_name ''application/json'' content input_refs)"

subsection \<open>Providers, commands and sandboxes\<close>

definition call_provider :: "run_env \<Rightarrow> provider_call \<Rightarrow> provider_result run_act" where
  "call_provider env call =
     act_bind draw (\<lambda>k s. case re_provider env k call (rc_disk s) of
       (r, disk) \<Rightarrow> (r, s\<lparr>rc_disk := disk, rc_trace := rc_trace s @ [ProviderRan call]\<rparr>))"

text \<open>A shell command in the repository; it may fail to start.\<close>

definition run_command :: "run_env \<Rightarrow> bool \<Rightarrow> string \<Rightarrow> string \<Rightarrow> verifier_output run_act" where
  "run_command env verifying command msg =
     act_bind draw (\<lambda>k s. case re_command env k command (rc_disk s) of
       (None, d) \<Rightarrow> (Inl msg, s\<lparr>rc_disk := d\<rparr>)
     | (Some out, d) \<Rightarrow> (Inr out, s\<lparr>rc_disk := d, rc_trace := rc_trace s @
         [if verifying then VerifierRan command (vo_success out) else CommandRan command (vo_success out)]\<rparr>))"

text \<open>The result of \<open>remove_dir_all\<close> is ignored.\<close>

definition remove_sandbox :: "run_env \<Rightarrow> string \<Rightarrow> unit run_act" where
  "remove_sandbox env dir =
     act_bind draw (\<lambda>k s. (Inr (), if re_io env k then
       s\<lparr>rc_disk := (rc_disk s)\<lparr>dk_sandbox := (dk_sandbox (rc_disk s))(dir := None)\<rparr>\<rparr> else s))"

text \<open>\<open>copy_dir_recursive\<close> leaves out the ignored entries and those that are neither directory,
  link nor file; when it fails, what it copied so far stays.\<close>

definition copy_tree :: "tree \<Rightarrow> tree" where
  "copy_tree t = filter (\<lambda>pe. tracked (fst pe) \<and> snd pe \<noteq> EOther) t"

definition copy_sandbox :: "run_env \<Rightarrow> string \<Rightarrow> string \<Rightarrow> unit run_act" where
  "copy_sandbox env src dst =
     act_bind draw (\<lambda>k s.
       let copied = map_option copy_tree (dk_sandbox (rc_disk s) src);
           kept = (if re_io env k then copied else map_option (take (re_copied env k)) copied)
       in (bail_if (\<not> re_io env k) (''copy '' @ src),
           s\<lparr>rc_disk := (rc_disk s)\<lparr>dk_sandbox := (dk_sandbox (rc_disk s))(dst := kept)\<rparr>\<rparr>))"

subsection \<open>The run record\<close>

definition run_record_integrity :: "run_env \<Rightarrow> run_ctx \<Rightarrow> json" where
  "run_record_integrity env s =
     (let decisions = JArray (map (policy_decision_json (re_show_time env)) (rc_policy_decisions s));
          tickets = JArray (map (approval_ticket_json (re_show_time env)) (rc_approvals s));
          control_state = json_object [(''run_id'', JString (rc_run_id s)),
            (''policy_decisions'', decisions), (''approval_tickets'', tickets)]
      in json_object
        [(''schema_version'', JString ''ao2.run-record-replay-integrity.v1''),
         (''run_id'', JString (rc_run_id s)),
         (''policy_decisions_digest'', JString (re_sha256 env (re_decisions_vec env (rc_policy_decisions s)))),
         (''approval_tickets_digest'', JString (re_sha256 env (re_tickets_vec env (rc_approvals s)))),
         (''control_state_digest'', JString (re_sha256 env (re_to_vec env control_state)))])"

definition run_record_json :: "run_env \<Rightarrow> run_ctx \<Rightarrow> run_status \<Rightarrow> json \<Rightarrow> string \<Rightarrow> string \<Rightarrow> json" where
  "run_record_json env s status integrity evidence_pack_path report_path =
     (let closures = map (closure_report_json (re_show_time env)) (rc_closure_reports s) in
      json_object
       [(''schema_version'', JString ''ao2.run-record.v1''), (''run_id'', JString (rc_run_id s)),
        (''workflow_ref'', JString (rc_workflow_id s)),
        (''template_kind'', json_opt_str (rc_template_kind s)),
        (''objective'', JString (rc_objective s)), (''roles'', json_string_array (rc_roles s)),
        (''workflow_tasks'', JArray (rc_workflow_tasks s)),
        (''workflow_dependencies'', JArray (rc_workflow_dependencies s)),
        (''factory_v3_compatibility'', (case rc_compatibility s of None \<Rightarrow> JNull | Some v \<Rightarrow> v)),
        (''acceptance'', json_string_array (rc_acceptance s)),
        (''verifier_command'', JString (rc_verifier_command s)),
        (''status'', JString (status_name status)), (''events_head'', JString (events_path s)),
        (''artifacts'', JArray (map artifact_ref_json (rc_artifacts s))),
        (''policy_decisions'', JArray (map (policy_decision_json (re_show_time env)) (rc_policy_decisions s))),
        (''approval_tickets'', JArray (map (approval_ticket_json (re_show_time env)) (rc_approvals s))),
        (''repair_attempts'', JArray (map (repair_attempt_json (re_show_time env)) (rc_repair_attempts s))),
        (''closures'', JArray closures),
        (''closure'', (if closures = [] then JNull else last closures)),
        (''replay_integrity'', integrity), (''evidence_pack'', JString evidence_pack_path),
        (''report'', JString report_path)])"

definition save_ctx :: "run_status \<Rightarrow> json \<Rightarrow> unit run_act" where
  "save_ctx status integrity s = (Inr (), s\<lparr>rc_saved := Some
     \<lparr>sv_status = status, sv_artifacts = rc_artifacts s, sv_policy_decisions = rc_policy_decisions s,
      sv_approvals = rc_approvals s, sv_closure_reports = rc_closure_reports s,
      sv_repair_attempts = rc_repair_attempts s, sv_integrity = integrity\<rparr>\<rparr>)"

definition evidence_pack_path :: "run_ctx \<Rightarrow> string" where
  "evidence_pack_path s = path_join (path_join (rc_run_dir s) ''evidence-pack'') ''evidence-pack.json''"

definition report_path :: "run_ctx \<Rightarrow> string" where
  "report_path s = path_join (path_join (rc_run_dir s) ''report'') ''index.html''"

definition write_run_record :: "run_env \<Rightarrow> run_status \<Rightarrow> unit run_act" where
  "write_run_record env status =
     act_bind get_ctx (\<lambda>s.
     let integrity = run_record_integrity env s; path = path_join (rc_run_dir s) ''run-record.json'' in
     act_bind (emit env ''run.record.integrity.checkpoint'' None None actor_system integrity) (\<lambda>_.
     act_bind (act_lift (re_pretty env
         (run_record_json env s status integrity (evidence_pack_path s) (report_path s)))) (\<lambda>_.
     act_bind (io_call env (''write '' @ path)) (\<lambda>_.
     act_bind (save_ctx status integrity) (\<lambda>_.
       log_step (RecordWritten status))))))"

text \<open>\<open>load_run_context\<close>: the fields that the record keeps are those of the last record.\<close>

definition load_run_context :: "run_status run_act" where
  "load_run_context s =
     (case rc_saved s of
        None \<Rightarrow> (Inl (''read run record '' @ path_join (rc_run_dir s) ''run-record.json''), s)
      | Some sv \<Rightarrow> (Inr (sv_status sv),
          s\<lparr>rc_artifacts := sv_artifacts sv, rc_policy_decisions := sv_policy_decisions sv,
            rc_approvals := sv_approvals sv, rc_closure_reports := sv_closure_reports sv,
            rc_repair_attempts := sv_repair_attempts sv\<rparr>))"

subsection \<open>Approvals\<close>

fun replace_ticket :: "approval_ticket \<Rightarrow> approval_ticket list \<Rightarrow> approval_ticket list" where
  "replace_ticket t [] = [t]"
| "replace_ticket t (u # us) =
     (if tk_ticket_id u = tk_ticket_id t then t # us else u # replace_ticket t us)"

definition put_ticket :: "approval_ticket \<Rightarrow> unit run_act" where
  "put_ticket t s = (Inr (), s\<lparr>rc_approvals := replace_ticket t (rc_approvals s)\<rparr>)"

definition approval_path :: "string \<Rightarrow> string \<Rightarrow> string" where
  "approval_path run_dir ticket_id =
     path_join (path_join run_dir ''approvals'') (ticket_id @ ''.json'')"

definition stored_approval_json :: "run_env \<Rightarrow> approval_ticket \<Rightarrow> tool_request \<Rightarrow> json" where
  "stored_approval_json env t req = json_object
     [(''ticket'', approval_ticket_json (re_show_time env) t), (''request'', tool_request_json req)]"

definition store_approval :: "approval_ticket \<Rightarrow> tool_request \<Rightarrow> unit run_act" where
  "store_approval t req s = (Inr (), s\<lparr>rc_stored := (tk_ticket_id t, t, req) # rc_stored s\<rparr>)"

definition write_stored_approval :: "run_env \<Rightarrow> approval_ticket \<Rightarrow> tool_request \<Rightarrow> unit run_act" where
  "write_stored_approval env t req =
     act_bind get_ctx (\<lambda>s.
     let path = approval_path (rc_run_dir s) (tk_ticket_id t) in
     act_bind (act_lift (re_pretty env (stored_approval_json env t req))) (\<lambda>_.
     act_bind (io_call env (''write approval '' @ path)) (\<lambda>_. store_approval t req)))"

definition new_ticket :: "run_env \<Rightarrow> tool_request \<Rightarrow> approval_ticket run_act" where
  "new_ticket env req =
     act_bind get_ctx (\<lambda>s.
     act_bind draw (\<lambda>k.
     act_bind (now env) (\<lambda>t.
     act_bind (now env) (\<lambda>t'.
     act_return (create_approval_ticket (re_sha256 env) (re_request_vec env) (re_uuid env k) t t'
       (rc_run_id s) req)))))"

definition push_decision :: "policy_decision \<Rightarrow> unit run_act" where
  "push_decision d s = (Inr (), s\<lparr>rc_policy_decisions := rc_policy_decisions s @ [d]\<rparr>)"

definition git_push_request :: tool_request where
  "git_push_request = \<lparr>tr_principal = ''role:implementer'', tr_tool = ''git'', tr_operation = ''push'',
     tr_resource = ''origin main'', tr_args = [''push'', ''origin'', ''main''],
     tr_expected_side_effects = [''external_write'']\<rparr>"

definition repo_write_request :: "run_ctx \<Rightarrow> tool_request" where
  "repo_write_request s =
     (let resource = (if is_real_project_template s then ''provider_sandbox_patch''
                      else ''discount_service/discounts.py'')
      in \<lparr>tr_principal = ''role:implementer'', tr_tool = ''filesystem'', tr_operation = ''write_file'',
          tr_resource = resource, tr_args = [''write_file'', resource],
          tr_expected_side_effects = [''repo_write'']\<rparr>)"

definition simulate_policy_denial_and_pending_approval :: "run_env \<Rightarrow> approval_ticket run_act" where
  "simulate_policy_denial_and_pending_approval env =
     act_bind (emit env ''tool.requested'' (Some ''implementer'') (Some ''policy_denied_git_push'')
       (actor_role ''implementer'') (tool_request_json git_push_request)) (\<lambda>_.
     act_bind draw (\<lambda>k.
     act_bind (now env) (\<lambda>t.
     let decision = deny (re_sha256 env) (re_request_vec env) (re_uuid env k) t git_push_request
       ''git push is an external write and is denied in local MVP'' in
     act_bind (push_decision decision) (\<lambda>_.
     act_bind (emit env ''tool.denied'' (Some ''implementer'') (Some ''policy_denied_git_push'')
       actor_system (policy_decision_json (re_show_time env) decision)) (\<lambda>_.
     act_bind get_ctx (\<lambda>s.
     let safe = repo_write_request s in
     act_bind draw (\<lambda>k'.
     act_bind (now env) (\<lambda>t'.
     act_bind (push_decision (evaluate (re_sha256 env) (re_request_vec env) (re_uuid env k') t' safe)) (\<lambda>_.
     act_bind (new_ticket env safe) (\<lambda>pending.
     act_bind (put_ticket pending) (\<lambda>_.
     act_bind (write_stored_approval env pending safe) (\<lambda>_.
     act_bind (emit env ''approval.requested'' (Some ''implementer'') (Some ''approve_discount_patch'')
       actor_system (approval_ticket_json (re_show_time env) pending)) (\<lambda>_.
     act_return pending)))))))))))))"

text \<open>\<open>approve_risky_pr_ticket\<close> after its checks of the host, with the file of the ticket found
  among the stored ones.\<close>

definition approve_ticket :: "run_env \<Rightarrow> string \<Rightarrow> string \<Rightarrow> approval_ticket run_act" where
  "approve_ticket env ticket_id approver =
     act_bind get_ctx (\<lambda>s.
     act_bind (act_lift (with_context (''approval ticket not found: '' @ ticket_id)
       (map_of (rc_stored s) ticket_id))) (\<lambda>(ticket, req).
     act_bind (io_call env (''create run dir '' @ rc_run_dir s)) (\<lambda>_.
     act_bind (io_call env (''open run lock '' @ path_join (rc_run_dir s) ''.lock'')) (\<lambda>_.
     act_bind (io_call env (''acquire run lock '' @ path_join (rc_run_dir s) ''.lock'')) (\<lambda>_.
     if tk_status ticket = ''approved'' then act_return ticket
     else
       act_bind (act_lift (grant_exact (re_sha256 env) (re_request_vec env) ticket approver req)) (\<lambda>granted.
       act_bind (write_stored_approval env granted req) (\<lambda>_.
       act_bind load_run_context (\<lambda>_.
       act_bind (put_ticket granted) (\<lambda>_.
       act_bind (emit env ''approval.granted'' (Some ''implementer'') (Some ''approve_discount_patch'')
         actor_human_local (approval_ticket_json (re_show_time env) granted)) (\<lambda>_.
       act_bind (write_run_record env WaitingForApproval) (\<lambda>_.
       act_return granted)))))))))))"

end
