(* ===== verification/Run_Contract.thy ===== *)
theory Run_Contract
  imports Run_State
begin

text \<open>
  The interface between the steps of a run and the contracts stated about it.  A contract is
  a reflexive and transitive relation between the context before and after; a stage keeps
  it when every run of the stage, successful or not, is related by it.  The locales name
  the laws the elementary steps must have, and derive that the composed steps of
  \<open>Run_State\<close> keep the contract; the theories of the stages extend them.  Each contract
  then is one interpretation.
\<close>

definition keeps :: "(run_ctx \<Rightarrow> run_ctx \<Rightarrow> bool) \<Rightarrow> 'a run_act \<Rightarrow> bool" where
  "keeps R m \<longleftrightarrow> (\<forall>s r s'. m s = (r, s') \<longrightarrow> R s s')"

named_theorems keep_rules \<open>stages that keep a contract\<close>

lemma keepsD: "keeps R m \<Longrightarrow> m s = (r, s') \<Longrightarrow> R s s'"
  by (simp add: keeps_def)

lemma keepsI: "(\<And>s. R s (snd (m s))) \<Longrightarrow> keeps R m"
  unfolding keeps_def by (metis snd_conv)

lemma keeps_let [keep_rules]: "keeps R (f x) \<Longrightarrow> keeps R (let y = x in f y)"
  by simp

lemma keeps_if [keep_rules]:
  "(c \<Longrightarrow> keeps R m) \<Longrightarrow> (\<not> c \<Longrightarrow> keeps R m') \<Longrightarrow> keeps R (if c then m else m')"
  by simp

lemma keeps_option [keep_rules]:
  "(x = None \<Longrightarrow> keeps R m) \<Longrightarrow> (\<And>y. x = Some y \<Longrightarrow> keeps R (f y)) \<Longrightarrow>
    keeps R (case x of None \<Rightarrow> m | Some y \<Rightarrow> f y)"
  by (cases x) auto

lemma keeps_prod [keep_rules]:
  "(\<And>a b. x = (a, b) \<Longrightarrow> keeps R (f a b)) \<Longrightarrow> keeps R (case x of (a, b) \<Rightarrow> f a b)"
  by (cases x) auto

subsection \<open>The interfaces\<close>

locale run_steps =
  fixes env :: run_env and R :: "run_ctx \<Rightarrow> run_ctx \<Rightarrow> bool"
  assumes refl: "R s s"
    and trans: "R s t \<Longrightarrow> R t u \<Longrightarrow> R s u"
    and draw [keep_rules]: "keeps R draw"
    and emitted [keep_rules]:
      "keeps R (log_step (Emitted (run_event env s0 uuid time ty role_id task_id act payload)))"
begin

lemma bind [keep_rules]: "keeps R m \<Longrightarrow> (\<And>x. keeps R (f x)) \<Longrightarrow> keeps R (act_bind m f)"
  unfolding keeps_def act_bind_def using trans by (fastforce split: prod.splits sum.splits)

lemma pure [keep_rules]: "keeps R (act_return x)" "keeps R (act_lift r)" "keeps R get_ctx"
  by (auto simp: keeps_def get_ctx_def refl)

lemma clock [keep_rules]: "keeps R (now env)"
  unfolding now_def by (intro keep_rules)

lemma fresh_id [keep_rules]: "keeps R (new_id env p)"
  unfolding new_id_def by (intro keep_rules)

lemma io [keep_rules]: "keeps R (io_call env msg)"
  unfolding io_call_def by (intro keep_rules)

lemma event [keep_rules]: "keeps R (emit env event_type role_id task_id act payload)"
  unfolding emit_def by (intro keep_rules)

end

locale run_relation = run_steps +
  assumes artifact [keep_rules]: "keeps R (put_artifact env ty producer name media content refs)"
    and decision [keep_rules]: "keeps R (push_decision d)"
    and ticket: "tk_status t = ''pending'' \<Longrightarrow> keeps R (put_ticket t)"
    and stored [keep_rules]: "keeps R (store_approval t req)"
    and saved [keep_rules]: "keeps R (save_ctx status integrity)"
    and recorded [keep_rules]: "keeps R (log_step (RecordWritten status))"
    and sandbox_removed [keep_rules]: "keeps R (remove_sandbox env dir)"
    and sandbox_copied [keep_rules]: "keeps R (copy_sandbox env src dst)"

locale working_relation = run_relation +
  assumes provider [keep_rules]: "keeps R (call_provider env call)"
    and command [keep_rules]: "keeps R (run_command env verifying c msg)"

text \<open>A contract that does not look at the artifacts needs no law for storing one.\<close>

locale artifact_blind = run_steps +
  assumes content [keep_rules]: "keeps R (write_file path content)"
    and listed [keep_rules]: "keeps R (push_artifact a)"
begin

lemma stored_artifact [keep_rules]: "keeps R (put_artifact env ty producer name media content refs)"
  unfolding put_artifact_def put_text_def artifact_created_def by (intro keep_rules)

end

subsection \<open>The composed steps\<close>

lemma new_ticket_pending: "new_ticket env req s = (Inr t, s') \<Longrightarrow> tk_status t = ''pending''"
  by (auto simp: new_ticket_def act_bind_ok create_approval_ticket_def)

context run_relation
begin

lemma json_artifact [keep_rules]: "keeps R (put_json env ty producer name v refs)"
  unfolding put_json_def by (intro keep_rules)

lemma run_record [keep_rules]: "keeps R (write_run_record env status)"
  unfolding write_run_record_def by (intro keep_rules)

lemma stored_approval [keep_rules]: "keeps R (write_stored_approval env t req)"
  unfolding write_stored_approval_def by (intro keep_rules)

lemma fresh_ticket [keep_rules]: "keeps R (new_ticket env req)"
  unfolding new_ticket_def by (intro keep_rules)

text \<open>What follows a new ticket may rely on its being pending.\<close>

lemma bind_ticket:
  assumes "\<And>t. tk_status t = ''pending'' \<Longrightarrow> keeps R (f t)"
  shows "keeps R (act_bind (new_ticket env req) f)"
  unfolding keeps_def
proof (intro allI impI)
  fix s r s'
  assume run: "act_bind (new_ticket env req) f s = (r, s')"
  obtain x u where x: "new_ticket env req s = (x, u)" by (cases "new_ticket env req s")
  then have u: "R s u" using fresh_ticket by (rule keepsD [rotated])
  show "R s s'"
  proof (cases x)
    case (Inl e)
    then show ?thesis using run x u by (simp add: act_bind_Inl)
  next
    case (Inr t)
    then have "keeps R (f t)" using x new_ticket_pending assms by blast
    then show ?thesis using run x Inr u by (auto simp: act_bind_Inr keeps_def intro: trans)
  qed
qed

lemma pending_approval [keep_rules]: "keeps R (simulate_policy_denial_and_pending_approval env)"
  unfolding simulate_policy_denial_and_pending_approval_def Let_def
  by (intro bind_ticket keep_rules ticket) simp

end

end
