(* ===== verification/Run_Review.thy ===== *)
theory Run_Review
  imports Run_Contract "HOL-Library.Word"
begin

text \<open>
  Verification, review and closure of a run, from \<open>crates/ao2-runtime/src/lib.rs\<close>: the verifier
  command and its log, the review artifacts, the closure reports with their cost summary,
  and the records of the repair attempts.  The text of a floating-point sum is an argument;
  token counts are \<open>u64\<close> and wrap.  The host is a Unix host.
\<close>

subsection \<open>Payloads of artifacts\<close>

text \<open>\<open>artifact_json_payloads\<close>: a missing file is skipped, any other failure ends the run.\<close>

fun payloads_of :: "run_env \<Rightarrow> (string \<Rightarrow> string option) \<Rightarrow> string \<Rightarrow> artifact_ref list \<Rightarrow> json list run_act" where
  "payloads_of env files artifact_type [] = act_return []"
| "payloads_of env files artifact_type (a # as) =
     (if ar_artifact_type a \<noteq> artifact_type then payloads_of env files artifact_type as
      else case files (ar_uri a) of
        None \<Rightarrow> payloads_of env files artifact_type as
      | Some content \<Rightarrow>
          act_bind (io_call env (''read artifact payload '' @ ar_uri a)) (\<lambda>_.
          act_bind (act_lift (re_from_str env content)) (\<lambda>v.
          act_bind (payloads_of env files artifact_type as) (\<lambda>vs. act_return (v # vs)))))"

definition artifact_json_payloads :: "run_env \<Rightarrow> string \<Rightarrow> json list run_act" where
  "artifact_json_payloads env artifact_type =
     act_bind get_ctx (\<lambda>s. payloads_of env (rc_files s) artifact_type (rc_artifacts s))"

definition usage_count :: "json \<Rightarrow> string \<Rightarrow> 64 word" where
  "usage_count v k = (case Option.bind (json_get v k) as_u64 of None \<Rightarrow> 0 | Some n \<Rightarrow> of_nat n)"

fun as_number :: "json \<Rightarrow> json_number option" where
  "as_number (JNumber n) = Some n"
| "as_number _ = None"

definition usage_tokens :: "json \<Rightarrow> 64 word" where
  "usage_tokens v =
     (case json_get v ''usage'' of None \<Rightarrow> 0
      | Some usage \<Rightarrow>
          max (usage_count usage ''total_tokens'')
            (usage_count usage ''input_tokens'' + usage_count usage ''output_tokens''))"

definition provider_cost_summary :: "run_env \<Rightarrow> string run_act" where
  "provider_cost_summary env =
     act_bind (artifact_json_payloads env ''provider_transcript_summary'') (\<lambda>summaries.
     if summaries = [] then act_return ''estimated_local_only_cost=0''
     else
       let costs = List.map_filter (\<lambda>v. Option.bind (json_get v ''cost_usd'') as_number) summaries;
           tokens = sum_list (map usage_tokens summaries) in
       act_return (''observed_provider_cost_usd='' @ re_show_cost env costs
         @ ''; provider_summary_count='' @ show_nat (length summaries)
         @ ''; cost_reported_summary_count='' @ show_nat (length costs)
         @ ''; total_tokens='' @ show_nat (unat tokens)))"

subsection \<open>The verifier\<close>

definition resolve_verifier_command :: "run_env \<Rightarrow> string \<Rightarrow> string" where
  "resolve_verifier_command env command =
     (if (command = ''python'' \<or> prefix ''python '' command)
         \<and> \<not> re_has_command env ''python'' \<and> re_has_command env ''python3''
      then ''python3'' @ drop 6 command else command)"

record verifier_outcome =
  vr_artifact :: artifact_ref
  vr_success :: bool
  vr_content :: string

definition verifier_log :: "run_env \<Rightarrow> string \<Rightarrow> verifier_output \<Rightarrow> string" where
  "verifier_log env command out =
     ''command: '' @ command @ nl @ ''exit_code: '' @ show_int (vo_code out) @ nl
     @ ''stdout:'' @ nl @ re_lossy env (vo_stdout out) @ nl
     @ ''stderr:'' @ nl @ re_lossy env (vo_stderr out) @ nl"

definition run_verifier :: "run_env \<Rightarrow> verifier_outcome run_act" where
  "run_verifier env =
     act_bind get_ctx (\<lambda>s.
     let command = resolve_verifier_command env (rc_verifier_command s) in
     act_bind (emit env ''role.started'' (Some ''test-engineer'') (Some ''run_python_tests'')
       (actor_role ''test-engineer'') (json_object [(''command'', JString command)])) (\<lambda>_.
     act_bind (run_command env True command (''run verifier with '' @ command)) (\<lambda>out.
     let content = verifier_log env command out in
     act_bind (put_artifact env ''test_log'' ''test-engineer'' ''pytest.log'' ''text/plain'' content []) (\<lambda>test_log.
     act_bind (emit env (if vo_success out then ''task.completed'' else ''task.failed'')
       (Some ''test-engineer'') (Some ''run_python_tests'') (actor_role ''test-engineer'')
       (json_object [(''command'', JString command),
         (''exit_code'', json_int (vo_code out)),
         (''output_digest'', JString (re_sha256 env content))])) (\<lambda>_.
     act_return \<lparr>vr_artifact = test_log, vr_success = vo_success out, vr_content = content\<rparr>)))))"

subsection \<open>Reviews\<close>

text \<open>A review is announced, stored with what it looked at, and completed.\<close>

definition review_with :: "run_env \<Rightarrow> string \<Rightarrow> string \<Rightarrow> json \<Rightarrow> json \<Rightarrow> string list \<Rightarrow> artifact_ref run_act" where
  "review_with env task_id file_name content concerns input_refs =
     act_bind (emit env ''role.started'' (Some ''reviewer'') (Some task_id) (actor_role ''reviewer'')
       (json_object [(''status'', JString ''started'')])) (\<lambda>_.
     act_bind (put_json env ''review'' ''reviewer'' file_name content input_refs) (\<lambda>review.
     act_bind (emit env ''role.completed'' (Some ''reviewer'') (Some task_id) (actor_role ''reviewer'')
       (json_object [(''status'', JString ''completed''), (''concerns'', concerns)])) (\<lambda>_.
     act_return review)))"

definition reviewer_accept_real_project :: "run_env \<Rightarrow> artifact_ref \<Rightarrow> artifact_ref run_act" where
  "reviewer_accept_real_project env verifier =
     review_with env ''real_project_review'' ''review-accepted.json''
       (json_object [(''concerns'', JArray []),
         (''summary'', JString ''Provider patch passed the workflow verifier for the real-project template.''),
         (''verifier_artifact'', JString (ar_artifact_id verifier))])
       (JArray []) [ar_artifact_id verifier]"

definition reviewer_verifier_failure :: "run_env \<Rightarrow> artifact_ref \<Rightarrow> artifact_ref run_act" where
  "reviewer_verifier_failure env verifier =
     review_with env ''real_project_verifier_failure'' ''review-verifier-failed.json''
       (json_object [(''concerns'', JArray [json_object
         [(''id'', JString ''verifier_failed''), (''severity'', JString ''high''),
          (''artifact'', JString (ar_artifact_id verifier)),
          (''reason'', JString ''Provider patch did not pass the workflow verifier.''),
          (''required_resolution'', JString ''Repair the patch until the verifier exits successfully.'')]])])
       (json_string_array [''verifier_failed'']) [ar_artifact_id verifier]"

definition reviewer_concern :: "run_env \<Rightarrow> artifact_ref run_act" where
  "reviewer_concern env =
     review_with env ''review_missing_tests'' ''review.json''
       (json_object [(''concerns'', JArray [json_object
         [(''id'', JString ''review_missing_tests''), (''severity'', JString ''high''),
          (''artifact'', JString ''first-patch''),
          (''reason'', JString ''Implementation changed validation behavior but did not add tests for invalid inputs.''),
          (''required_resolution'', JString ''Add tests for negative price and discount rates outside 0..1.'')]])])
       (json_string_array [''review_missing_tests'']) []"

subsection \<open>Closures\<close>

definition push_closure :: "closure_report \<Rightarrow> unit run_act" where
  "push_closure r s = (Inr (), s\<lparr>rc_closure_reports := rc_closure_reports s @ [r]\<rparr>)"

definition push_repair :: "repair_attempt \<Rightarrow> unit run_act" where
  "push_repair a s = (Inr (), s\<lparr>rc_repair_attempts := rc_repair_attempts s @ [a]\<rparr>)"

text \<open>The cost is summed up first; then the report is kept, stored and announced.\<close>

definition close_with ::
    "run_env \<Rightarrow> string \<Rightarrow> string \<Rightarrow> string list \<Rightarrow> string list \<Rightarrow> string list \<Rightarrow> unit run_act" where
  "close_with env verdict task_id results evidence concerns =
     act_bind (provider_cost_summary env) (\<lambda>cost.
     act_bind (now env) (\<lambda>time.
     let report = \<lparr>cr_verdict = verdict, cr_acceptance_criteria_results = results,
           cr_evidence_refs = evidence, cr_unresolved_concerns = concerns, cr_blockers = [],
           cr_policy_exceptions = [], cr_cost_summary = cost, cr_created_at = time\<rparr> in
     act_bind (push_closure report) (\<lambda>_.
     act_bind (put_json env ''closure_report'' ''evaluator-closer'' (''closure-'' @ verdict @ ''.json'')
       (closure_report_json (re_show_time env) report) evidence) (\<lambda>_.
     emit env (''closure.'' @ verdict) (Some ''evaluator-closer'') (Some task_id)
       (actor_role ''evaluator-closer'') (closure_report_json (re_show_time env) report)))))"

definition reject_for_missing_tests :: "run_env \<Rightarrow> artifact_ref \<Rightarrow> unit run_act" where
  "reject_for_missing_tests env review =
     close_with env ''rejected'' ''closure_first_pass''
       [''validation implementation exists'', ''invalid-input tests missing'']
       [ar_artifact_id review] [''review_missing_tests'']"

definition accept_final :: "run_env \<Rightarrow> artifact_ref \<Rightarrow> unit run_act" where
  "accept_final env test_log =
     close_with env ''accepted'' ''closure_final''
       [''negative prices raise ValueError: mapped to pytest evidence'',
        ''discount rates below 0 raise ValueError: mapped to pytest evidence'',
        ''discount rates above 1 raise ValueError: mapped to pytest evidence'',
        ''valid discounts still calculate correctly: mapped to pytest evidence'',
        ''risky git push was denied before execution'',
        ''narrow repository write was exact-digest approved'']
       [ar_artifact_id test_log] []"

definition reject_real_project_verifier_failure ::
    "run_env \<Rightarrow> artifact_ref \<Rightarrow> artifact_ref \<Rightarrow> unit run_act" where
  "reject_real_project_verifier_failure env review verifier =
     close_with env ''rejected'' ''real_project_closure_failed''
       [''provider patch applied through sandbox exact-digest gate'', ''workflow verifier failed'']
       [ar_artifact_id review, ar_artifact_id verifier] [''verifier_failed'']"

definition acceptance_results :: "string list \<Rightarrow> string list" where
  "acceptance_results acceptance =
     (if acceptance = []
      then [''workflow verifier passed'', ''provider patch applied through sandbox exact-digest gate'',
            ''risky git push was denied before execution'']
      else map (\<lambda>c. c @ '': mapped to verifier evidence'') acceptance)
     @ [''risky git push was denied before execution'',
        ''repository changes were promoted through exact-digest sandbox apply'']"

definition accept_real_project_final :: "run_env \<Rightarrow> artifact_ref \<Rightarrow> artifact_ref \<Rightarrow> unit run_act" where
  "accept_real_project_final env test_log review =
     act_bind get_ctx (\<lambda>s.
       close_with env ''accepted'' ''real_project_closure_final'' (acceptance_results (rc_acceptance s))
         [ar_artifact_id test_log, ar_artifact_id review] [])"

subsection \<open>Repair attempts\<close>

definition record_repair_attempt :: "run_env \<Rightarrow> repair_attempt \<Rightarrow> unit run_act" where
  "record_repair_attempt env a =
     act_bind (push_repair a) (\<lambda>_.
     act_bind (put_json env ''repair_attempt'' ''implementer''
       (''repair-attempt-'' @ show_nat (ra_attempt a) @ ''.json'')
       (repair_attempt_json (re_show_time env) a) (ra_evidence_refs a)) (\<lambda>_. act_return ()))"

text \<open>An attempt is dated, recorded, and announced with the same content.\<close>

definition report_attempt ::
    "run_env \<Rightarrow> nat \<Rightarrow> string \<Rightarrow> string \<Rightarrow> string list \<Rightarrow> string \<Rightarrow> string \<Rightarrow> string \<Rightarrow> string \<Rightarrow> unit run_act" where
  "report_attempt env attempt trigger status evidence summary event_type role_id task_id =
     act_bind (now env) (\<lambda>time.
     let a = \<lparr>ra_attempt = attempt, ra_trigger = trigger, ra_status = status,
           ra_evidence_refs = evidence, ra_summary = summary, ra_created_at = time\<rparr> in
     act_bind (record_repair_attempt env a) (\<lambda>_.
     emit env event_type (Some role_id) (Some task_id) (actor_role role_id)
       (repair_attempt_json (re_show_time env) a)))"

definition record_repair_budget_exhausted :: "run_env \<Rightarrow> string \<Rightarrow> artifact_ref \<Rightarrow> unit run_act" where
  "record_repair_budget_exhausted env trigger review =
     report_attempt env 0 trigger ''budget_exhausted'' [ar_artifact_id review]
       ''Repair budget exhausted before any repair attempt was allowed.''
       ''repair.budget.exhausted'' ''evaluator-closer'' ''repair_budget_exhausted''"

subsection \<open>Contracts\<close>

locale closing_relation = run_relation +
  assumes closure [keep_rules]: "keeps R (push_closure report)"
    and repair [keep_rules]: "keeps R (push_repair a)"

context run_relation
begin

lemma payloads [keep_rules]: "keeps R (payloads_of env files ty as)"
proof (induction as)
  case Nil
  show ?case unfolding payloads_of.simps by (rule pure)
next
  case (Cons a as)
  show ?case unfolding payloads_of.simps by (intro keep_rules Cons.IH)
qed

lemma json_payloads [keep_rules]: "keeps R (artifact_json_payloads env ty)"
  unfolding artifact_json_payloads_def by (intro keep_rules)

lemma cost_summary [keep_rules]: "keeps R (provider_cost_summary env)"
  unfolding provider_cost_summary_def by (intro keep_rules)

lemma review [keep_rules]: "keeps R (review_with env task_id file_name content concerns refs)"
  unfolding review_with_def by (intro keep_rules)

lemma reviews [keep_rules]:
  "keeps R (reviewer_accept_real_project env a)" "keeps R (reviewer_verifier_failure env a)"
  "keeps R (reviewer_concern env)"
  unfolding reviewer_accept_real_project_def reviewer_verifier_failure_def reviewer_concern_def
  by (intro keep_rules)+

end

context working_relation
begin

lemma verifier [keep_rules]: "keeps R (run_verifier env)"
  unfolding run_verifier_def by (intro keep_rules)

end

context closing_relation
begin

lemma closing [keep_rules]: "keeps R (close_with env verdict task_id results evidence concerns)"
  unfolding close_with_def by (intro keep_rules)

lemma closures [keep_rules]:
  "keeps R (reject_for_missing_tests env review)" "keeps R (accept_final env test_log)"
  "keeps R (reject_real_project_verifier_failure env review a)"
  "keeps R (accept_real_project_final env test_log review)"
  unfolding reject_for_missing_tests_def accept_final_def reject_real_project_verifier_failure_def
    accept_real_project_final_def
  by (intro keep_rules)+

lemma repair_record [keep_rules]: "keeps R (record_repair_attempt env a)"
  unfolding record_repair_attempt_def by (intro keep_rules)

lemma attempt_report [keep_rules]:
  "keeps R (report_attempt env attempt trigger status evidence summary event_type role_id task_id)"
  unfolding report_attempt_def by (intro keep_rules)

lemma budget_report [keep_rules]: "keeps R (record_repair_budget_exhausted env trigger review)"
  unfolding record_repair_budget_exhausted_def by (intro keep_rules)

end

end
