(* ===== verification/Run_Patch.thy ===== *)
theory Run_Patch
  imports Run_Review
begin

text \<open>
  \<open>apply_provider_prompt_patch_for_role\<close> of \<open>crates/ao2-runtime/src/lib.rs\<close>: a provider works
  in a sandbox, the difference is previewed, and the patch reaches the repository only
  with an approved ticket for its exact digest.  The stages are those of the source: skip
  what is done, preview (running the provider unless its sandbox is still there), find the
  ticket, and either wait for approval or verify the ticket and apply.  \<open>step_ok\<close> is the
  contract that every stage keeps.
\<close>

subsection \<open>The preview stage\<close>

record patch_site =
  ps_provider :: provider_kind
  ps_prompt :: string
  ps_budget :: "string option"
  ps_role :: string
  ps_action :: string
  ps_task :: "string option"

definition summary_filename :: "patch_site \<Rightarrow> string" where
  "summary_filename p = ''provider-transcript-summary-'' @ ps_action p @ ''.json''"

definition sandbox_dir :: "run_ctx \<Rightarrow> patch_site \<Rightarrow> string" where
  "sandbox_dir s p = path_join (rc_run_dir s) (''sandbox-'' @ ps_role p @ ''-'' @ ps_action p)"

definition find_artifact :: "run_ctx \<Rightarrow> string \<Rightarrow> string \<Rightarrow> string \<Rightarrow> artifact_ref option" where
  "find_artifact s producer artifact_type name =
     find (\<lambda>a. ar_producer a = producer \<and> ar_artifact_type a = artifact_type
        \<and> contains (ar_uri a) name) (rc_artifacts s)"

definition artifact_id_or_empty :: "artifact_ref option \<Rightarrow> string" where
  "artifact_id_or_empty a = (case a of None \<Rightarrow> [] | Some x \<Rightarrow> ar_artifact_id x)"

definition preview_now :: "run_env \<Rightarrow> string \<Rightarrow> patch_preview run_act" where
  "preview_now env dir s =
     (preview_sandbox_patch (re_patch env) (rc_target_repo s) dir
        (Some (dk_target (rc_disk s))) (dk_sandbox (rc_disk s) dir), s)"

definition with_task :: "patch_site \<Rightarrow> json \<Rightarrow> json" where
  "with_task p v =
     (case (ps_task p, v) of
        (Some task_id, JObject fs) \<Rightarrow>
          JObject (bt_insert ''workflow_role'' (JString (ps_role p)) (bt_insert ''task_id'' (JString task_id) fs))
      | _ \<Rightarrow> v)"

definition emit_for :: "run_env \<Rightarrow> patch_site \<Rightarrow> string \<Rightarrow> actor \<Rightarrow> json \<Rightarrow> unit run_act" where
  "emit_for env p event_type act payload =
     emit env event_type (Some (ps_role p)) (Some (ps_action p)) act payload"

definition run_in_sandbox :: "run_env \<Rightarrow> patch_site \<Rightarrow> patch_preview run_act" where
  "run_in_sandbox env p =
     act_bind (call_provider env \<lparr>pc_provider = ps_provider p, pc_prompt = ps_prompt p,
       pc_role = ps_role p, pc_budget = ps_budget p\<rparr>) (\<lambda>run.
     act_bind (put_json env ''provider_prompt_transcript'' (ps_role p)
       (''provider-prompt-transcript-'' @ ps_action p @ ''.json'') (pq_adapter run) []) (\<lambda>transcript.
     let summary = with_task p (pq_summary run) in
     act_bind (put_json env ''provider_transcript_summary'' (ps_role p) (summary_filename p) summary
       [ar_artifact_id transcript]) (\<lambda>_.
     act_bind (emit_for env p ''adapter.transcript.parsed'' (actor_role (ps_role p)) summary) (\<lambda>_.
     act_bind (emit_for env p ''adapter.completed'' (actor_role (ps_role p)) (pq_adapter run)) (\<lambda>_.
     if pq_blocked run then
       act_bind (remove_sandbox env (pq_sandbox run)) (\<lambda>_.
         act_lift (Inl ''provider adapter failed; see provider_prompt_transcript artifact''))
     else
     act_bind (preview_now env (pq_sandbox run)) (\<lambda>preview.
     act_bind (put_json env ''sandbox_patch_preview'' (ps_role p)
       (''sandbox-patch-preview-'' @ ps_action p @ ''.json'') (patch_preview_json preview)
       [ar_artifact_id transcript]) (\<lambda>_.
     act_bind (emit_for env p ''sandbox.patch.previewed'' actor_system (patch_preview_json preview)) (\<lambda>_.
     act_bind get_ctx (\<lambda>s.
     act_bind (copy_sandbox env (pq_sandbox run) (sandbox_dir s p)) (\<lambda>_.
     act_bind (remove_sandbox env (pq_sandbox run)) (\<lambda>_.
     act_return preview)))))))))))"

subsection \<open>The ticket\<close>

definition sandbox_apply_request :: "patch_site \<Rightarrow> patch_preview \<Rightarrow> tool_request" where
  "sandbox_apply_request p preview =
     \<lparr>tr_principal = ''role:'' @ ps_role p, tr_tool = ''sandbox'', tr_operation = ''apply'',
      tr_resource = ''sandbox_patch'', tr_args = [''apply'', pp_action_digest preview],
      tr_expected_side_effects = [''repo_write'']\<rparr>"

definition consumed_tickets :: "run_ctx \<Rightarrow> string list" where
  "consumed_tickets s = (case rc_consumed s of None \<Rightarrow> [] | Some ids \<Rightarrow> ids)"

text \<open>Reading \<open>consumed-tickets.json\<close> may fail when the file is there.\<close>

definition read_consumed :: "run_env \<Rightarrow> unit run_act" where
  "read_consumed env =
     act_bind get_ctx (\<lambda>s.
     if rc_consumed s = None then act_return ()
     else io_call env (''read '' @ path_join (rc_run_dir s) ''consumed-tickets.json''))"

definition approved_for :: "run_ctx \<Rightarrow> tool_request \<Rightarrow> patch_preview \<Rightarrow> approval_ticket option" where
  "approved_for s req preview =
     find (\<lambda>t. tk_requested_action t = ''sandbox:apply'' \<and> tk_action_digest t = pp_action_digest preview
        \<and> tk_status t = ''approved'' \<and> tk_requester t = tr_principal req
        \<and> tk_ticket_id t \<notin> set (consumed_tickets s)) (rc_approvals s)"

definition stale_approval :: "run_ctx \<Rightarrow> tool_request \<Rightarrow> patch_preview \<Rightarrow> approval_ticket option" where
  "stale_approval s req preview =
     find (\<lambda>t. tk_requested_action t = ''sandbox:apply'' \<and> tk_scope t = ''sandbox_patch''
        \<and> tk_status t = ''approved'' \<and> tk_requester t = tr_principal req
        \<and> tk_action_digest t \<noteq> pp_action_digest preview
        \<and> tk_ticket_id t \<notin> set (consumed_tickets s)) (rc_approvals s)"

definition pending_for :: "run_ctx \<Rightarrow> tool_request \<Rightarrow> patch_preview \<Rightarrow> approval_ticket option" where
  "pending_for s req preview =
     find (\<lambda>t. tk_requested_action t = ''sandbox:apply'' \<and> tk_action_digest t = pp_action_digest preview
        \<and> tk_status t = ''pending'' \<and> tk_requester t = tr_principal req) (rc_approvals s)"

text \<open>Without an approved ticket the run records that it waits.\<close>

definition request_approval :: "run_env \<Rightarrow> patch_site \<Rightarrow> patch_preview \<Rightarrow> run_status run_act" where
  "request_approval env p preview =
     (let req = sandbox_apply_request p preview in
      act_bind get_ctx (\<lambda>s.
      act_bind
        (case pending_for s req preview of Some t \<Rightarrow> act_return ()
         | None \<Rightarrow>
             act_bind (new_ticket env req) (\<lambda>t.
             act_bind (put_ticket t) (\<lambda>_.
             act_bind (write_stored_approval env t req) (\<lambda>_.
             act_bind get_ctx (\<lambda>s.
             let preview_id = artifact_id_or_empty (find_artifact s (ps_role p) ''sandbox_patch_preview''
                   (''sandbox-patch-preview-'' @ ps_action p @ ''.json'')) in
             act_bind (put_json env ''approval_ticket_requested'' (ps_role p)
               (''sandbox-patch-approval-requested-'' @ ps_action p @ ''-'' @ tk_ticket_id t @ ''.json'')
               (approval_ticket_json (re_show_time env) t)
               (if preview_id = [] then [] else [preview_id])) (\<lambda>_.
             emit_for env p ''approval.requested'' actor_system
               (approval_ticket_json (re_show_time env) t)))))))
        (\<lambda>_.
      act_bind (write_run_record env WaitingForApproval) (\<lambda>_.
      act_return WaitingForApproval))))"

definition refuse :: "run_env \<Rightarrow> patch_site \<Rightarrow> string \<Rightarrow> string \<Rightarrow> 'a run_act" where
  "refuse env p reason msg =
     act_bind (emit_for env p ''approval.denied'' actor_system (json_object [(''reason'', JString reason)]))
       (\<lambda>_. act_lift (Inl (''approval verification failed: '' @ msg)))"

text \<open>The checks of an approved ticket, in the order of the source; the first that fails is
  reported and ends the run.\<close>

definition ticket_refusal ::
    "run_env \<Rightarrow> run_ctx \<Rightarrow> patch_preview \<Rightarrow> timestamp \<Rightarrow> approval_ticket \<Rightarrow> (string \<times> string) option" where
  "ticket_refusal env s preview time t =
     (if tk_run_id t \<noteq> rc_run_id s then Some (''run_id mismatch'', ''run_id mismatch'')
      else if tk_action_digest t \<noteq> pp_action_digest preview
        then Some (''digest mismatch'', ''digest mismatch'')
      else if tk_requested_action t \<noteq> ''sandbox:apply'' \<or> tk_scope t \<noteq> ''sandbox_patch''
        then Some (''operation/resource mismatch'', ''operation/resource mismatch'')
      else if (case tk_approver t of None \<Rightarrow> True | Some who \<Rightarrow> trim who = [])
        then Some (''missing approver identity'', ''missing approver identity'')
      else if tk_expires_at t < time then Some (''expired ticket'', ''ticket has expired'')
      else if tk_status t \<noteq> ''approved''
        then Some (''ticket status is not approved'', ''ticket is not approved'')
      else if tk_ticket_id t \<in> set (consumed_tickets s)
        then Some (''ticket already consumed'',
          ''ticket has already been consumed (ticket_id: '' @ tk_ticket_id t @ '', consumed: ''
            @ re_show_strings env (consumed_tickets s) @ '', run_dir: '' @ rc_run_dir s @ '')'')
      else None)"

definition apply_now :: "run_env \<Rightarrow> approval_ticket \<Rightarrow> apply_request \<Rightarrow> apply_result run_act" where
  "apply_now env t req =
     act_bind draw (\<lambda>k s.
       case apply_sandbox_patch (re_patch env) (re_apply_io env k)
           (dk_sandbox (rc_disk s) (aq_sandbox_path req)) req (dk_target (rc_disk s)) of
         (r, tree) \<Rightarrow> (r, s\<lparr>rc_disk := (rc_disk s)\<lparr>dk_target := tree\<rparr>,
           rc_trace := rc_trace s @ [PatchApplied t req (dk_target (rc_disk s)) tree]\<rparr>))"

definition consume_ticket :: "run_env \<Rightarrow> string \<Rightarrow> unit run_act" where
  "consume_ticket env ticket_id =
     act_bind get_ctx (\<lambda>s.
     act_bind (io_call env (''write '' @ path_join (rc_run_dir s) ''consumed-tickets.json'')) (\<lambda>_ s.
       (Inr (), s\<lparr>rc_consumed := Some (consumed_tickets s @ [ticket_id])\<rparr>)))"

text \<open>The ticket is verified: the sandbox must still be the one that was approved.\<close>

definition apply_verified ::
    "run_env \<Rightarrow> patch_site \<Rightarrow> patch_preview \<Rightarrow> approval_ticket \<Rightarrow> run_ctx \<Rightarrow> run_status run_act" where
  "apply_verified env p preview t s =
     (let dir = sandbox_dir s p in
     act_bind (emit_for env p ''approval.accepted'' actor_system (approval_ticket_json (re_show_time env) t)) (\<lambda>_.
     act_bind (preview_now env dir) (\<lambda>recomputed.
     if pp_action_digest recomputed \<noteq> pp_action_digest preview
     then refuse env p ''sandbox changed after approval'' ''sandbox changed after approval''
     else
     let requested_id = artifact_id_or_empty (find_artifact s (ps_role p) ''approval_ticket_requested''
           (''sandbox-patch-approval-requested-'' @ ps_action p)) in
     act_bind (put_json env ''approval_ticket_granted'' (ps_role p)
       (''sandbox-patch-approval-granted-'' @ ps_action p @ ''-'' @ tk_ticket_id t @ ''.json'')
       (approval_ticket_json (re_show_time env) t)
       (if requested_id = [] then [] else [requested_id])) (\<lambda>granted.
     act_bind (apply_now env t \<lparr>aq_target_repo = rc_target_repo s, aq_sandbox_path = dir,
       aq_expected_subject = pp_subject preview, aq_expected_digest = pp_action_digest preview,
       aq_approver = (case tk_approver t of None \<Rightarrow> ''human:local-user'' | Some who \<Rightarrow> who)\<rparr>) (\<lambda>applied.
     act_bind (put_json env ''sandbox_patch_apply'' (ps_role p)
       (''sandbox-patch-apply-'' @ ps_action p @ ''.json'') (apply_result_json applied)
       [ar_artifact_id granted]) (\<lambda>applied_artifact.
     act_bind (emit_for env p ''sandbox.patch.applied'' actor_human_local (apply_result_json applied)) (\<lambda>_.
     act_bind (remove_sandbox env dir) (\<lambda>_.
     act_bind (consume_ticket env (tk_ticket_id t)) (\<lambda>_.
     act_bind get_ctx (\<lambda>s'.
     let summary_id = artifact_id_or_empty (find_artifact s' (ps_role p)
           ''provider_transcript_summary'' (summary_filename p)) in
     act_bind (put_artifact env ''patch_summary'' (ps_role p)
       (''provider-patch-'' @ ps_action p @ ''.md'') ''text/markdown''
       ''Applied provider prompt sandbox patch through exact-digest patch gate.''
       [ar_artifact_id applied_artifact, summary_id]) (\<lambda>_.
     act_bind (emit_for env p ''role.completed'' (actor_role (ps_role p))
       (json_object [(''status'', JString ''completed''), (''concerns'', JArray []),
         (''blockers'', JArray [])])) (\<lambda>_.
     act_return Accepted))))))))))))"

definition apply_approved :: "run_env \<Rightarrow> patch_site \<Rightarrow> patch_preview \<Rightarrow> approval_ticket \<Rightarrow> run_status run_act" where
  "apply_approved env p preview t =
     act_bind get_ctx (\<lambda>s.
     act_bind (now env) (\<lambda>time.
     case ticket_refusal env s preview time t of
       Some (reason, msg) \<Rightarrow> refuse env p reason msg
     | None \<Rightarrow> apply_verified env p preview t s))"

definition apply_provider_prompt_patch_for_role :: "run_env \<Rightarrow> patch_site \<Rightarrow> run_status run_act" where
  "apply_provider_prompt_patch_for_role env p =
     act_bind get_ctx (\<lambda>s.
     let dir = sandbox_dir s p; resuming = dk_sandbox (rc_disk s) dir \<noteq> None in
     if find_artifact s (ps_role p) ''provider_transcript_summary'' (summary_filename p) \<noteq> None
        \<and> \<not> resuming
     then act_return Accepted
     else
     act_bind (emit_for env p ''role.started'' (actor_role (ps_role p))
       (json_object [(''status'', JString ''started''),
         (''provider'', JString (provider_name (ps_provider p)))])) (\<lambda>_.
     act_bind (if resuming then preview_now env dir else run_in_sandbox env p) (\<lambda>preview.
     act_bind (read_consumed env) (\<lambda>_.
     act_bind get_ctx (\<lambda>s.
     let req = sandbox_apply_request p preview in
     case approved_for s req preview of
       Some t \<Rightarrow> apply_approved env p preview t
     | None \<Rightarrow>
         (case stale_approval s req preview of
            Some t \<Rightarrow>
              act_bind (emit_for env p ''approval.denied'' actor_system
                (json_object [(''reason'', JString ''sandbox changed after approval''),
                  (''approved_ticket_id'', JString (tk_ticket_id t)),
                  (''approved_action_digest'', JString (tk_action_digest t)),
                  (''current_action_digest'', JString (pp_action_digest preview))])) (\<lambda>_.
                act_lift (Inl ''approval verification failed: sandbox changed after approval''))
          | None \<Rightarrow> request_approval env p preview))))))"

subsection \<open>The contract of a stage\<close>

definition approved_set :: "run_ctx \<Rightarrow> approval_ticket set" where
  "approved_set s = {t \<in> set (rc_approvals s). tk_status t = ''approved''}"

fun applied_tickets :: "run_step list \<Rightarrow> approval_ticket list" where
  "applied_tickets [] = []"
| "applied_tickets (PatchApplied t req before after # xs) = t # applied_tickets xs"
| "applied_tickets (_ # xs) = applied_tickets xs"

definition applied_ids :: "run_step list \<Rightarrow> string list" where
  "applied_ids xs = map tk_ticket_id (applied_tickets xs)"

text \<open>What must hold of a patch that is applied in a run that starts in \<open>s\<close>.\<close>

fun justified :: "run_env \<Rightarrow> run_ctx \<Rightarrow> run_step \<Rightarrow> bool" where
  "justified env s (PatchApplied t req before after) \<longleftrightarrow>
     t \<in> approved_set s \<and> tk_run_id t = rc_run_id s
     \<and> tk_requested_action t = ''sandbox:apply'' \<and> tk_scope t = ''sandbox_patch''
     \<and> tk_action_digest t = aq_expected_digest req
     \<and> tk_approver t = Some (aq_approver req) \<and> trim (aq_approver req) \<noteq> []
     \<and> (\<exists>k. re_clock env k \<le> tk_expires_at t)
     \<and> (\<exists>io sandbox r. apply_sandbox_patch (re_patch env) io sandbox req before = (r, after))"
| "justified env s _ \<longleftrightarrow> True"

text \<open>The repository passes from patch to patch.\<close>

fun patch_chain :: "tree \<Rightarrow> run_step list \<Rightarrow> tree \<Rightarrow> bool" where
  "patch_chain t [] t' \<longleftrightarrow> t = t'"
| "patch_chain t (PatchApplied _ _ before after # xs) t' \<longleftrightarrow> before = t \<and> patch_chain after xs t'"
| "patch_chain t (_ # xs) t' \<longleftrightarrow> patch_chain t xs t'"

text \<open>Providers work in their sandbox, and the workflow's commands leave the repository alone.\<close>

definition confined :: "run_env \<Rightarrow> bool" where
  "confined env \<longleftrightarrow>
     (\<forall>k call d. dk_target (snd (re_provider env k call d)) = dk_target d)
     \<and> (\<forall>k c d. dk_target (snd (re_command env k c d)) = dk_target d)"

definition same_run :: "run_ctx \<Rightarrow> run_ctx \<Rightarrow> bool" where
  "same_run s s' \<longleftrightarrow>
     rc_run_id s' = rc_run_id s \<and> rc_workflow_id s' = rc_workflow_id s
     \<and> rc_template_kind s' = rc_template_kind s \<and> rc_objective s' = rc_objective s
     \<and> rc_roles s' = rc_roles s \<and> rc_workflow_tasks s' = rc_workflow_tasks s
     \<and> rc_workflow_dependencies s' = rc_workflow_dependencies s
     \<and> rc_compatibility s' = rc_compatibility s \<and> rc_acceptance s' = rc_acceptance s
     \<and> rc_verifier_command s' = rc_verifier_command s \<and> rc_target_repo s' = rc_target_repo s
     \<and> rc_run_dir s' = rc_run_dir s"

definition quiet_step :: "run_env \<Rightarrow> run_ctx \<Rightarrow> run_ctx \<Rightarrow> bool" where
  "quiet_step env s s' \<longleftrightarrow>
     same_run s s' \<and> consumed_tickets s' = consumed_tickets s \<and> approved_set s' \<subseteq> approved_set s
     \<and> (confined env \<longrightarrow> dk_target (rc_disk s') = dk_target (rc_disk s))
     \<and> (\<exists>new. rc_trace s' = rc_trace s @ new \<and> applied_tickets new = [])"

abbreviation quiet_act :: "run_env \<Rightarrow> 'a run_act \<Rightarrow> bool" where
  "quiet_act env m \<equiv> keeps (quiet_step env) m"

text \<open>A state reached from \<open>s0\<close>; \<open>pend\<close> holds the tickets of patches applied but not yet
  recorded as consumed.\<close>

definition ok_state :: "run_env \<Rightarrow> run_ctx \<Rightarrow> string list \<Rightarrow> run_ctx \<Rightarrow> bool" where
  "ok_state env s0 pend s \<longleftrightarrow>
     same_run s0 s \<and> approved_set s \<subseteq> approved_set s0
     \<and> (\<exists>new. rc_trace s = rc_trace s0 @ new \<and> list_all (justified env s0) new
        \<and> (distinct (consumed_tickets s0) \<longrightarrow> distinct (consumed_tickets s0 @ applied_ids new))
        \<and> consumed_tickets s0 @ applied_ids new = consumed_tickets s @ pend
        \<and> (confined env \<longrightarrow> patch_chain (dk_target (rc_disk s0)) new (dk_target (rc_disk s))))"

definition step_ok :: "run_env \<Rightarrow> run_ctx \<Rightarrow> 'a rresult \<Rightarrow> run_ctx \<Rightarrow> bool" where
  "step_ok env s0 r s \<longleftrightarrow> (\<exists>pend. ok_state env s0 pend s \<and> (isl r \<or> pend = []))"

definition guarded :: "run_env \<Rightarrow> run_ctx \<Rightarrow> (run_ctx \<Rightarrow> bool) \<Rightarrow> 'a run_act \<Rightarrow> bool" where
  "guarded env s0 P m \<longleftrightarrow> (\<forall>s r s'. P s \<longrightarrow> m s = (r, s') \<longrightarrow> step_ok env s0 r s')"

lemma applied_tickets_append [simp]: "applied_tickets (xs @ ys) = applied_tickets xs @ applied_tickets ys"
  by (induction xs rule: applied_tickets.induct) auto

lemma applied_ids_append [simp]: "applied_ids (xs @ ys) = applied_ids xs @ applied_ids ys"
  by (simp add: applied_ids_def)

lemma justified_quiet: "applied_tickets new = [] \<Longrightarrow> list_all (justified env s) new"
  by (induction new rule: applied_tickets.induct) auto

lemma patch_chain_append:
  "patch_chain t (xs @ ys) t' \<longleftrightarrow> (\<exists>u. patch_chain t xs u \<and> patch_chain u ys t')"
  by (induction t xs t' rule: patch_chain.induct) auto

lemma patch_chain_quiet: "applied_tickets new = [] \<Longrightarrow> patch_chain t new t' \<longleftrightarrow> t = t'"
  by (induction new rule: applied_tickets.induct) auto

lemma same_run_refl [simp]: "same_run s s"
  and same_run_trans: "same_run s t \<Longrightarrow> same_run t u \<Longrightarrow> same_run s u"
  by (auto simp: same_run_def)

lemma quiet_refl [simp]: "quiet_step env s s"
  by (simp add: quiet_step_def)

lemma quiet_trans: "quiet_step env s t \<Longrightarrow> quiet_step env t u \<Longrightarrow> quiet_step env s u"
  by (fastforce simp: quiet_step_def intro: same_run_trans)

lemma ok_state_start: "ok_state env s [] s"
  by (auto simp: ok_state_def applied_ids_def)

lemma ok_state_quiet:
  assumes "ok_state env s0 pend s" and "quiet_step env s s'"
  shows "ok_state env s0 pend s'"
proof -
  from assms(1) obtain new where new: "rc_trace s = rc_trace s0 @ new" "list_all (justified env s0) new"
    "distinct (consumed_tickets s0) \<longrightarrow> distinct (consumed_tickets s0 @ applied_ids new)"
    "consumed_tickets s0 @ applied_ids new = consumed_tickets s @ pend"
    "confined env \<longrightarrow> patch_chain (dk_target (rc_disk s0)) new (dk_target (rc_disk s))"
    and run: "same_run s0 s" "approved_set s \<subseteq> approved_set s0"
    unfolding ok_state_def by blast
  from assms(2) obtain more where more: "rc_trace s' = rc_trace s @ more" "applied_tickets more = []"
    and q: "same_run s s'" "consumed_tickets s' = consumed_tickets s" "approved_set s' \<subseteq> approved_set s"
    "confined env \<longrightarrow> dk_target (rc_disk s') = dk_target (rc_disk s)"
    unfolding quiet_step_def by blast
  have "applied_ids more = []" by (simp add: applied_ids_def more(2))
  then show ?thesis
    unfolding ok_state_def using new more run q justified_quiet [OF more(2)] same_run_trans
    by (intro conjI exI [of _ "new @ more"]) (auto simp: patch_chain_append patch_chain_quiet)
qed

subsection \<open>Rules\<close>

context run_relation
begin

lemma event_for [keep_rules]: "keeps R (emit_for env p event_type act payload)"
  unfolding emit_for_def by (intro keep_rules)

lemma refused [keep_rules]: "keeps R (refuse env p reason msg)"
  unfolding refuse_def by (intro keep_rules)

lemma preview [keep_rules]: "keeps R (preview_now env dir)"
  by (simp add: keeps_def preview_now_def refl)

lemma consumed_read [keep_rules]: "keeps R (read_consumed env)"
  unfolding read_consumed_def by (intro keep_rules)

lemma approval_requested [keep_rules]: "keeps R (request_approval env p preview)"
  unfolding request_approval_def Let_def by (intro bind_ticket keep_rules ticket) simp

end

context working_relation
begin

lemma sandbox_run [keep_rules]: "keeps R (run_in_sandbox env p)"
  unfolding run_in_sandbox_def by (intro keep_rules)

end

text \<open>A change of the state that touches nothing the contract is about.\<close>

lemma quiet_update:
  assumes "\<And>s. same_run s (snd (m s))" "\<And>s. rc_consumed (snd (m s)) = rc_consumed s"
    "\<And>s. rc_approvals (snd (m s)) = rc_approvals s"
    "\<And>s. confined env \<Longrightarrow> dk_target (rc_disk (snd (m s))) = dk_target (rc_disk s)"
    "\<And>s. \<exists>new. rc_trace (snd (m s)) = rc_trace s @ new \<and> applied_tickets new = []"
  shows "quiet_act env m"
  using assms by (intro keepsI) (simp add: quiet_step_def consumed_tickets_def approved_set_def)

lemma quiet_draw: "quiet_act env draw"
  and quiet_log: "applied_tickets [st] = [] \<Longrightarrow> quiet_act env (log_step st)"
  and quiet_disk: "quiet_act env (remove_sandbox env dir)" "quiet_act env (copy_sandbox env src dst)"
  by (rule quiet_update; auto simp: draw_def log_step_def same_run_def remove_sandbox_def
      copy_sandbox_def act_bind_def Let_def)+

lemma set_replace_ticket: "set (replace_ticket t ts) \<subseteq> insert t (set ts)"
  by (induction ts) auto

lemma quiet_put_pending: "tk_status t = ''pending'' \<Longrightarrow> quiet_act env (put_ticket t)"
  unfolding keeps_def put_ticket_def quiet_step_def approved_set_def consumed_tickets_def same_run_def
  using set_replace_ticket by fastforce

lemma confinedD:
  "confined env \<Longrightarrow> re_provider env k call d = (r, d') \<Longrightarrow> dk_target d' = dk_target d"
  "confined env \<Longrightarrow> re_command env k c d = (out, d') \<Longrightarrow> dk_target d' = dk_target d"
  unfolding confined_def by (metis snd_conv)+

lemma quiet_call_provider: "quiet_act env (call_provider env call)"
  by (rule quiet_update)
    (auto simp: same_run_def call_provider_def act_bind_def draw_def confinedD split: prod.splits)

lemma quiet_run_command: "quiet_act env (run_command env verifying c msg)"
  by (rule quiet_update)
    (auto simp: same_run_def run_command_def act_bind_def draw_def confinedD
      split: prod.splits option.splits)

interpretation quiet: artifact_blind env "quiet_step env" for env
  by unfold_locales
    (simp_all add: quiet_draw quiet_log, erule (1) quiet_trans,
      (rule quiet_update; auto simp: write_file_def push_artifact_def same_run_def)+)

interpretation quiet: working_relation env "quiet_step env" for env
  by unfold_locales
    (simp_all add: quiet.stored_artifact quiet_log quiet_disk quiet_put_pending quiet_call_provider
      quiet_run_command,
      (rule quiet_update; auto simp: push_decision_def store_approval_def save_ctx_def same_run_def)+)

text \<open>Rules for acts that start in a state reached from \<open>s0\<close>.\<close>

definition stable :: "run_env \<Rightarrow> run_ctx \<Rightarrow> (run_ctx \<Rightarrow> bool) \<Rightarrow> bool" where
  "stable env s0 P \<longleftrightarrow>
     (\<forall>s. P s \<longrightarrow> (\<exists>pend. ok_state env s0 pend s))
     \<and> (\<forall>s s'. P s \<longrightarrow> quiet_step env s s' \<longrightarrow> P s')"

lemma stable_ok_state: "stable env s0 (ok_state env s0 pend)"
  by (auto simp: stable_def intro: ok_state_quiet)

lemma stable_conj: "stable env s0 P \<Longrightarrow> (\<And>s s'. Q s \<Longrightarrow> quiet_step env s s' \<Longrightarrow> Q s') \<Longrightarrow> stable env s0 (\<lambda>s. P s \<and> Q s)"
  by (auto simp: stable_def)

lemma guarded_quiet:
  assumes "quiet_act env m" and "\<And>s. P s \<Longrightarrow> ok_state env s0 [] s"
  shows "guarded env s0 P m"
  using assms ok_state_quiet unfolding guarded_def keeps_def step_ok_def by blast

lemma guarded_weaken: "guarded env s0 P m \<Longrightarrow> (\<And>s. Q s \<Longrightarrow> P s) \<Longrightarrow> guarded env s0 Q m"
  by (auto simp: guarded_def)

lemma guarded_bind:
  assumes "stable env s0 P" and "quiet_act env m" and "\<And>x. guarded env s0 P (f x)"
  shows "guarded env s0 P (act_bind m f)"
  unfolding guarded_def
proof (intro allI impI)
  fix s r s'
  assume P: "P s" and run: "act_bind m f s = (r, s')"
  obtain x t where m: "m s = (x, t)" by (cases "m s")
  with assms(2) have q: "quiet_step env s t" by (auto simp: keeps_def)
  with assms(1) P have t: "P t" and "\<exists>pend. ok_state env s0 pend t" by (auto simp: stable_def)
  then show "step_ok env s0 r s'"
    using run m assms(3) by (cases x) (auto simp: act_bind_Inl act_bind_Inr guarded_def step_ok_def)
qed

lemma guarded_get:
  assumes "\<And>s. P s \<Longrightarrow> guarded env s0 (\<lambda>s'. P s' \<and> quiet_step env s s') (f s)"
  shows "guarded env s0 P (act_bind get_ctx f)"
  using assms quiet_refl [of env] unfolding guarded_def act_bind_def get_ctx_def by fastforce

lemma guarded_now:
  assumes "stable env s0 P" and "\<And>k. guarded env s0 P (f (re_clock env k))"
  shows "guarded env s0 P (act_bind (now env) f)"
proof -
  have "act_bind (now env) f = act_bind draw (\<lambda>k. f (re_clock env k))"
    by (rule ext) (simp add: now_def act_bind_def draw_def)
  then show ?thesis by (simp only:) (rule guarded_bind [OF assms(1) quiet.draw assms(2)])
qed

text \<open>The steps that carry the ticket.\<close>

definition can_apply :: "run_env \<Rightarrow> run_ctx \<Rightarrow> approval_ticket \<Rightarrow> run_ctx \<Rightarrow> bool" where
  "can_apply env s0 t s \<longleftrightarrow>
     ok_state env s0 [] s \<and> t \<in> approved_set s0 \<and> tk_ticket_id t \<notin> set (consumed_tickets s)
     \<and> tk_run_id t = rc_run_id s0 \<and> tk_requested_action t = ''sandbox:apply''
     \<and> tk_scope t = ''sandbox_patch'' \<and> (\<exists>k. re_clock env k \<le> tk_expires_at t)"

lemma stable_can_apply: "stable env s0 (can_apply env s0 t)"
  unfolding can_apply_def
  by (rule stable_conj [OF stable_ok_state]) (auto simp: quiet_step_def)

lemma apply_now_pending:
  assumes "can_apply env s0 t s" and "apply_now env t req s = (r, s')"
    and "tk_action_digest t = aq_expected_digest req"
    and "tk_approver t = Some (aq_approver req)" and "trim (aq_approver req) \<noteq> []"
  shows "ok_state env s0 [tk_ticket_id t] s'"
proof -
  let ?before = "dk_target (rc_disk s)" and ?sb = "dk_sandbox (rc_disk s) (aq_sandbox_path req)"
  obtain r' tree where ap: "apply_sandbox_patch (re_patch env) (re_apply_io env (rc_draws s)) ?sb req ?before = (r', tree)"
    by (cases "apply_sandbox_patch (re_patch env) (re_apply_io env (rc_draws s)) ?sb req ?before")
  then have s': "s' = s\<lparr>rc_draws := Suc (rc_draws s), rc_disk := (rc_disk s)\<lparr>dk_target := tree\<rparr>,
      rc_trace := rc_trace s @ [PatchApplied t req ?before tree]\<rparr>"
    using assms(2) by (simp add: apply_now_def act_bind_def draw_def)
  from assms(1) have ok: "ok_state env s0 [] s" and t: "t \<in> approved_set s0"
    and fresh: "tk_ticket_id t \<notin> set (consumed_tickets s)" and run: "tk_run_id t = rc_run_id s0"
    by (auto simp: can_apply_def)
  from ok obtain new where new: "rc_trace s = rc_trace s0 @ new" "list_all (justified env s0) new"
    "distinct (consumed_tickets s0) \<longrightarrow> distinct (consumed_tickets s0 @ applied_ids new)"
    "consumed_tickets s0 @ applied_ids new = consumed_tickets s"
    "confined env \<longrightarrow> patch_chain (dk_target (rc_disk s0)) new ?before"
    and same: "same_run s0 s" "approved_set s \<subseteq> approved_set s0"
    unfolding ok_state_def by (metis append_Nil2)
  have "justified env s0 (PatchApplied t req ?before tree)"
    using assms(1,3-5) t run ap by (auto simp: can_apply_def)
  moreover have ids: "applied_ids [PatchApplied t req ?before tree] = [tk_ticket_id t]"
    by (simp add: applied_ids_def)
  moreover have "consumed_tickets s' = consumed_tickets s" "approved_set s' = approved_set s"
    by (simp_all add: s' consumed_tickets_def approved_set_def)
  moreover have "same_run s0 s'" using same(1) by (simp add: s' same_run_def)
  moreover have "distinct (consumed_tickets s0) \<longrightarrow>
      distinct (consumed_tickets s0 @ applied_ids new @ [tk_ticket_id t])"
    using new(3) fresh unfolding append_assoc [symmetric] new(4) by simp
  ultimately show ?thesis
    unfolding ok_state_def using new same
    by (intro conjI exI [of _ "new @ [PatchApplied t req ?before tree]"])
      (auto simp: s' patch_chain_append)
qed

lemma guarded_apply_now:
  assumes "tk_action_digest t = aq_expected_digest req" "tk_approver t = Some (aq_approver req)"
    "trim (aq_approver req) \<noteq> []"
    and "\<And>x. guarded env s0 (ok_state env s0 [tk_ticket_id t]) (f x)"
  shows "guarded env s0 (can_apply env s0 t) (act_bind (apply_now env t req) f)"
  unfolding guarded_def
proof (intro allI impI)
  fix s r s'
  assume P: "can_apply env s0 t s" and run: "act_bind (apply_now env t req) f s = (r, s')"
  obtain x u where m: "apply_now env t req s = (x, u)" by (cases "apply_now env t req s")
  have "ok_state env s0 [tk_ticket_id t] u" by (rule apply_now_pending [OF P m assms(1-3)])
  then show "step_ok env s0 r s'"
    using run m assms(4) by (cases x) (auto simp: act_bind_Inl act_bind_Inr guarded_def step_ok_def)
qed

lemma guarded_consume:
  assumes "\<And>x. guarded env s0 (ok_state env s0 []) (f x)"
  shows "guarded env s0 (ok_state env s0 [i]) (act_bind (consume_ticket env i) f)"
proof -
  have step: "ok_state env s0 [] (s\<lparr>rc_consumed := Some (consumed_tickets s @ [i])\<rparr>)"
    if "ok_state env s0 [i] s" for s
    using that by (simp add: ok_state_def consumed_tickets_def approved_set_def same_run_def)
  have "guarded env s0 (ok_state env s0 [i])
      (act_bind (\<lambda>s. (Inr (), s\<lparr>rc_consumed := Some (consumed_tickets s @ [i])\<rparr>)) f)"
    using assms step by (auto simp: guarded_def act_bind_def)
  then have inner: "guarded env s0 (ok_state env s0 [i]) (act_bind (io_call env msg)
      (\<lambda>_. act_bind (\<lambda>s. (Inr (), s\<lparr>rc_consumed := Some (consumed_tickets s @ [i])\<rparr>)) f))" for msg
    by (intro guarded_bind [OF stable_ok_state quiet.io])
  have "act_bind (consume_ticket env i) f = act_bind get_ctx (\<lambda>s.
      act_bind (io_call env (''write '' @ path_join (rc_run_dir s) ''consumed-tickets.json''))
        (\<lambda>_. act_bind (\<lambda>s. (Inr (), s\<lparr>rc_consumed := Some (consumed_tickets s @ [i])\<rparr>)) f))"
    by (rule ext) (auto simp: consume_ticket_def act_bind_def get_ctx_def split: prod.splits sum.splits)
  then show ?thesis by (simp only:) (rule guarded_bind [OF stable_ok_state quiet.pure(3) inner])
qed

lemma guarded_if:
  "(c \<Longrightarrow> guarded env s0 P m) \<Longrightarrow> (\<not> c \<Longrightarrow> guarded env s0 P m') \<Longrightarrow> guarded env s0 P (if c then m else m')"
  by simp

lemma ticket_refusal_none:
  assumes "ticket_refusal env s preview time t = None"
  shows "tk_run_id t = rc_run_id s" "tk_action_digest t = pp_action_digest preview"
    "tk_requested_action t = ''sandbox:apply''" "tk_scope t = ''sandbox_patch''"
    "\<exists>who. tk_approver t = Some who \<and> trim who \<noteq> []" "time \<le> tk_expires_at t"
    "tk_status t = ''approved''" "tk_ticket_id t \<notin> set (consumed_tickets s)"
  using assms by (auto simp: ticket_refusal_def split: if_splits option.splits)

lemma guarded_apply_verified:
  assumes "tk_action_digest t = pp_action_digest preview"
    and "\<exists>who. tk_approver t = Some who \<and> trim who \<noteq> []"
  shows "guarded env s0 (can_apply env s0 t) (apply_verified env p preview t s)"
proof -
  obtain who where who: "tk_approver t = Some who" "trim who \<noteq> []" using assms(2) by blast
  have ok: "can_apply env s0 t u \<Longrightarrow> ok_state env s0 [] u" for u by (simp add: can_apply_def)
  show ?thesis
    unfolding apply_verified_def Let_def
    apply (rule guarded_bind [OF stable_can_apply quiet.event_for])
    apply (rule guarded_bind [OF stable_can_apply quiet.preview])
    apply (rule guarded_if)
     apply (rule guarded_quiet [OF quiet.refused ok], assumption)
    apply (rule guarded_bind [OF stable_can_apply quiet.json_artifact])
    apply (rule guarded_apply_now)
       apply (simp_all add: assms(1) who)
    apply (rule guarded_bind [OF stable_ok_state quiet.json_artifact])
    apply (rule guarded_bind [OF stable_ok_state quiet.event_for])
    apply (rule guarded_bind [OF stable_ok_state quiet.sandbox_removed])
    apply (rule guarded_consume)
    apply (rule guarded_quiet)
     apply (intro keep_rules)
    apply assumption
    done
qed

lemma guarded_apply_approved:
  assumes "t \<in> approved_set s0"
  shows "guarded env s0 (ok_state env s0 []) (apply_approved env p preview t)"
  unfolding apply_approved_def
proof (rule guarded_get)
  fix s
  assume ok: "ok_state env s0 [] s"
  let ?P = "\<lambda>s'. ok_state env s0 [] s' \<and> quiet_step env s s'"
  have st: "stable env s0 ?P"
    by (rule stable_conj [OF stable_ok_state]) (rule quiet_trans)
  have next_step: "guarded env s0 ?P (case ticket_refusal env s preview (re_clock env k) t of
      Some (reason, msg) \<Rightarrow> refuse env p reason msg | None \<Rightarrow> apply_verified env p preview t s)" for k
  proof (cases "ticket_refusal env s preview (re_clock env k) t")
    case (Some denied)
    have "guarded env s0 ?P (refuse env p (fst denied) (snd denied))"
      by (rule guarded_quiet [OF quiet.refused]) blast
    then show ?thesis using Some by (simp add: split_beta)
  next
    case None
    note facts = ticket_refusal_none [OF None]
    have "tk_run_id t = rc_run_id s0" using facts(1) ok by (simp add: ok_state_def same_run_def)
    then have "can_apply env s0 t s'" if "?P s'" for s'
      using that assms facts(3-8) by (auto simp: can_apply_def quiet_step_def)
    with guarded_weaken [OF guarded_apply_verified [OF facts(2) facts(5)]]
    show ?thesis using None by simp
  qed
  show "guarded env s0 ?P (act_bind (now env) (\<lambda>time. case ticket_refusal env s preview time t of
      Some (reason, msg) \<Rightarrow> refuse env p reason msg | None \<Rightarrow> apply_verified env p preview t s))"
    by (rule guarded_now [OF st]) (rule next_step)
qed

lemma guarded_patch_stage:
  "guarded env s0 (ok_state env s0 []) (apply_provider_prompt_patch_for_role env p)"
  unfolding apply_provider_prompt_patch_for_role_def
proof (rule guarded_get)
  fix s
  assume ok: "ok_state env s0 [] s"
  let ?P = "\<lambda>s'. ok_state env s0 [] s' \<and> quiet_step env s s'"
  have st: "stable env s0 ?P"
    by (rule stable_conj [OF stable_ok_state]) (rule quiet_trans)
  have chosen: "approved_for s1 req preview = Some t \<Longrightarrow> ?P s1 \<Longrightarrow> t \<in> approved_set s0" for s1 req preview t
    unfolding approved_for_def find_Some_iff ok_state_def approved_set_def
    using nth_mem by fastforce
  show "guarded env s0 ?P (let dir = sandbox_dir s p; resuming = dk_sandbox (rc_disk s) dir \<noteq> None in
     if find_artifact s (ps_role p) ''provider_transcript_summary'' (summary_filename p) \<noteq> None
        \<and> \<not> resuming
     then act_return Accepted
     else
     act_bind (emit_for env p ''role.started'' (actor_role (ps_role p))
       (json_object [(''status'', JString ''started''),
         (''provider'', JString (provider_name (ps_provider p)))])) (\<lambda>_.
     act_bind (if resuming then preview_now env dir else run_in_sandbox env p) (\<lambda>preview.
     act_bind (read_consumed env) (\<lambda>_.
     act_bind get_ctx (\<lambda>s.
     let req = sandbox_apply_request p preview in
     case approved_for s req preview of
       Some t \<Rightarrow> apply_approved env p preview t
     | None \<Rightarrow>
         (case stale_approval s req preview of
            Some t \<Rightarrow>
              act_bind (emit_for env p ''approval.denied'' actor_system
                (json_object [(''reason'', JString ''sandbox changed after approval''),
                  (''approved_ticket_id'', JString (tk_ticket_id t)),
                  (''approved_action_digest'', JString (tk_action_digest t)),
                  (''current_action_digest'', JString (pp_action_digest preview))])) (\<lambda>_.
                act_lift (Inl ''approval verification failed: sandbox changed after approval''))
          | None \<Rightarrow> request_approval env p preview))))))"
    unfolding Let_def
    apply (rule guarded_if)
     apply (rule guarded_quiet [OF quiet.pure(1)], blast)
    apply (rule guarded_bind [OF st quiet.event_for])
    apply (rule guarded_bind [OF st])
     apply (intro keep_rules)
    apply (rule guarded_bind [OF st quiet.consumed_read])
    apply (rule guarded_get)
    subgoal for _ preview _ s1
      apply (cases "approved_for s1 (sandbox_apply_request p preview) preview")
       apply (simp only: option.case)
       apply (rule guarded_quiet, intro keep_rules, blast)
      apply (simp only: option.case)
      apply (rule guarded_weaken [OF guarded_apply_approved [OF chosen]])
        apply assumption+
      apply blast
      done
    done
qed

end
