(* ===== verification/Run_Engine.thy ===== *)
theory Run_Engine
  imports Run_Patch Run_Workflow
begin

text \<open>
  The workflow of a real-project run in \<open>crates/ao2-runtime/src/lib.rs\<close>: the task graph whose
  patches go through the approval gate one by one, the verifier, the bounded repair loop,
  and the closure that ends the run.  A run that waits for an approval stops with that
  status and is continued by \<open>resume\<close>, which walks the same path again and skips what has
  already been applied.
\<close>

subsection \<open>Repair prompts\<close>

definition shell_single_quote :: "string \<Rightarrow> string" where
  "shell_single_quote v =
     squote @ replace_byte CHR 0x27 [CHR 0x27, CHR 0x22, CHR 0x27, CHR 0x22, CHR 0x27] v @ squote"

text \<open>The Unix branch.\<close>

definition build_scripted_repair_prompt :: "string \<Rightarrow> nat \<Rightarrow> string \<Rightarrow> string \<Rightarrow> string" where
  "build_scripted_repair_prompt original attempt verifier_text summaries =
     join nl
       [''export AO2_REPAIR_ATTEMPT='' @ shell_single_quote (show_nat attempt),
        ''export AO2_REPAIR_TRIGGER=verifier_failed'',
        ''export AO2_REPAIR_VERIFIER_OUTPUT='' @ shell_single_quote verifier_text,
        ''export AO2_REPAIR_PROVIDER_SUMMARIES='' @ shell_single_quote summaries,
        ''# AO2_REPAIR_CONTEXT_BEGIN'',
        ''# Previous verifier output is available in AO2_REPAIR_VERIFIER_OUTPUT.'',
        ''# Prior provider summaries are available in AO2_REPAIR_PROVIDER_SUMMARIES.'',
        ''# AO2_REPAIR_CONTEXT_END'',
        original]"

definition fence :: string where "fence = replicate 3 CHR 0x60"

definition build_real_project_repair_prompt ::
    "run_env \<Rightarrow> provider_kind \<Rightarrow> string \<Rightarrow> nat \<Rightarrow> verifier_outcome \<Rightarrow> json list \<Rightarrow> string rresult" where
  "build_real_project_repair_prompt env provider original attempt verifier summaries =
     rbind (re_pretty env (JArray summaries)) (\<lambda>summaries_json.
       Inr (if provider = Scripted
         then build_scripted_repair_prompt original attempt (vr_content verifier) summaries_json
         else join nl
           [''You are repairing a real-project AO2 run after the workflow verifier failed.'', [],
            ''Repair attempt: '' @ show_nat attempt, [],
            ''Original task:'', original, [],
            ''Previous verifier output:'', fence @ ''text'', vr_content verifier, fence, [],
            ''Prior provider transcript summaries:'', fence @ ''json'', summaries_json, fence, [],
            ''Make the smallest repository change needed for the verifier to pass. Preserve the original task intent, report changed files, and do not perform network, publish, or destructive actions.'',
            []]))"

definition record_real_project_repair_prompt ::
    "run_env \<Rightarrow> provider_kind \<Rightarrow> string \<Rightarrow> nat \<Rightarrow> verifier_outcome \<Rightarrow> artifact_ref
      \<Rightarrow> (artifact_ref \<times> string) run_act" where
  "record_real_project_repair_prompt env provider original attempt verifier review =
     act_bind (artifact_json_payloads env ''provider_transcript_summary'') (\<lambda>summaries.
     act_bind (act_lift (build_real_project_repair_prompt env provider original attempt verifier summaries)) (\<lambda>prompt.
     act_bind get_ctx (\<lambda>s.
     let input_refs = [ar_artifact_id review, ar_artifact_id (vr_artifact verifier)]
           @ map ar_artifact_id (filter (\<lambda>a. ar_artifact_type a = ''provider_transcript_summary'') (rc_artifacts s)) in
     act_bind (put_artifact env ''repair_prompt'' ''implementer''
       (''repair-prompt-'' @ show_nat attempt @ ''.txt'') ''text/plain'' prompt input_refs) (\<lambda>a.
     act_bind (emit env ''repair.prompt.created'' (Some ''implementer'')
       (Some ''real_project_structured_repair_prompt'') (actor_role ''implementer'')
       (json_object [(''attempt'', json_nat attempt), (''provider'', JString (provider_name provider)),
         (''verifier_artifact'', JString (ar_artifact_id (vr_artifact verifier))),
         (''repair_prompt_artifact'', JString (ar_artifact_id a)),
         (''verifier_output_digest'', JString (re_sha256 env (vr_content verifier)))])) (\<lambda>_.
     act_return (a, prompt))))))"

subsection \<open>The prompt of a run that repairs an earlier one\<close>

definition latest_digest :: "run_env \<Rightarrow> repair_source \<Rightarrow> json" where
  "latest_digest env source =
     json_opt_str (map_option (re_sha256 env) (rs_latest_verifier_output source))"

definition record_repair_source_context :: "run_env \<Rightarrow> repair_source \<Rightarrow> artifact_ref run_act" where
  "record_repair_source_context env source =
     act_bind (put_json env ''repair_source_context'' ''operator'' ''repair-source-context.json''
       (json_object [(''schema_version'', JString ''ao2.repair-source.v1''),
         (''source_run_id'', JString (rs_source_run_id source)),
         (''evidence_pack_path'', JString (rs_evidence_pack_path source)),
         (''source_verdict'', JString (rs_source_verdict source)),
         (''run_health'', rs_run_health source),
         (''unresolved_concerns'', json_string_array (rs_unresolved_concerns source)),
         (''evidence_refs'', json_string_array (rs_evidence_refs source)),
         (''latest_verifier_output'', json_opt_str (rs_latest_verifier_output source)),
         (''latest_verifier_output_digest'', latest_digest env source)]) []) (\<lambda>a.
     act_bind (emit env ''repair.source.loaded'' (Some ''operator'') (Some ''repair_resume_from_evidence'')
       actor_human_local
       (json_object [(''source_run_id'', JString (rs_source_run_id source)),
         (''source_verdict'', JString (rs_source_verdict source)),
         (''repair_source_artifact'', JString (ar_artifact_id a)),
         (''latest_verifier_output_digest'', latest_digest env source)])) (\<lambda>_.
     act_return a))"

definition build_provider_prompt_with_repair_source ::
    "run_env \<Rightarrow> provider_kind \<Rightarrow> string \<Rightarrow> repair_source \<Rightarrow> string rresult" where
  "build_provider_prompt_with_repair_source env provider original source =
     rbind (re_pretty env (rs_run_health source)) (\<lambda>health.
     rbind (re_pretty env (json_string_array (rs_unresolved_concerns source))) (\<lambda>concerns.
     rbind (re_pretty env (json_string_array (rs_evidence_refs source))) (\<lambda>refs.
     let verifier_text = (case rs_latest_verifier_output source of None \<Rightarrow> [] | Some t \<Rightarrow> t) in
     Inr (if provider = Scripted
       then join nl
         [''export AO2_REPAIR_SOURCE_RUN_ID='' @ shell_single_quote (rs_source_run_id source),
          ''export AO2_REPAIR_RUN_HEALTH='' @ shell_single_quote health,
          ''export AO2_REPAIR_UNRESOLVED_CONCERNS='' @ shell_single_quote concerns,
          ''export AO2_REPAIR_EVIDENCE_REFS='' @ shell_single_quote refs,
          ''export AO2_REPAIR_VERIFIER_OUTPUT='' @ shell_single_quote verifier_text,
          ''# AO2_REPAIR_SOURCE_CONTEXT_BEGIN'',
          ''# Prior run health, unresolved concerns, evidence refs, and verifier output are available in AO2_REPAIR_* variables.'',
          ''# AO2_REPAIR_SOURCE_CONTEXT_END'',
          original]
       else join nl
         [''You are repairing an AO2 run from signed evidence.'', [],
          ''Source run: '' @ rs_source_run_id source,
          ''Source verdict: '' @ rs_source_verdict source, [],
          ''Run health:'', fence @ ''json'', health, fence, [],
          ''Unresolved concerns:'', fence @ ''json'', concerns, fence, [],
          ''Evidence refs:'', fence @ ''json'', refs, fence, [],
          ''Latest verifier output:'', fence @ ''text'', verifier_text, fence, [],
          ''Use the prior evidence only as context. Make the smallest repository change needed to satisfy the workflow verifier, preserve the original task intent, report changed files, and do not perform network, publish, or destructive actions.'', [],
          ''Original repair task:'', original, []]))))"

definition provider_prompt_of :: "run_env \<Rightarrow> provider_options \<Rightarrow> string run_act" where
  "provider_prompt_of env opts =
     (case ro_repair_source opts of
        None \<Rightarrow> act_return (ro_prompt opts)
      | Some source \<Rightarrow>
          act_bind (record_repair_source_context env source) (\<lambda>_.
            act_lift (build_provider_prompt_with_repair_source env (ro_provider opts) (ro_prompt opts) source)))"

subsection \<open>The task graph\<close>

definition apply_provider_prompt_patch ::
    "run_env \<Rightarrow> provider_kind \<Rightarrow> string \<Rightarrow> string option \<Rightarrow> run_status run_act" where
  "apply_provider_prompt_patch env provider prompt budget =
     apply_provider_prompt_patch_for_role env
       \<lparr>ps_provider = provider, ps_prompt = prompt, ps_budget = budget, ps_role = ''implementer'',
        ps_action = ''provider_prompt_patch'', ps_task = None\<rparr>"

definition task_order_of :: "run_ctx \<Rightarrow> json list option rresult" where
  "task_order_of s =
     sdd_workflow_task_order (rc_compatibility s) (rc_workflow_tasks s) (rc_workflow_dependencies s)"

fun run_tasks ::
    "run_env \<Rightarrow> provider_kind \<Rightarrow> string \<Rightarrow> string option \<Rightarrow> nat \<Rightarrow> nat \<Rightarrow> json list \<Rightarrow> run_status run_act" where
  "run_tasks env provider prompt budget task_total ordinal [] = act_return Accepted"
| "run_tasks env provider prompt budget task_total ordinal (task # tasks) =
     act_bind (act_lift (sdd_task_id task)) (\<lambda>task_id.
     act_bind (act_lift (provider_prompt_for_sdd_task (re_pretty env) provider prompt task ordinal task_total)) (\<lambda>task_prompt.
     act_bind (apply_provider_prompt_patch_for_role env
       \<lparr>ps_provider = provider, ps_prompt = task_prompt, ps_budget = budget, ps_role = task_id,
        ps_action = ''sdd_provider_task'', ps_task = Some task_id\<rparr>) (\<lambda>status.
     if status = WaitingForApproval then act_return WaitingForApproval
     else run_tasks env provider prompt budget task_total (Suc ordinal) tasks)))"

definition run_sdd_provider_task_graph ::
    "run_env \<Rightarrow> provider_kind \<Rightarrow> string \<Rightarrow> string option \<Rightarrow> run_status run_act" where
  "run_sdd_provider_task_graph env provider prompt budget =
     act_bind get_ctx (\<lambda>s.
     act_bind (act_lift (task_order_of s)) (\<lambda>order.
       let tasks = (case order of None \<Rightarrow> [] | Some ts \<Rightarrow> ts) in
       run_tasks env provider prompt budget (length tasks) 1 tasks))"

subsection \<open>The repair loop\<close>

text \<open>After the verifier ran: the attempt is recorded, and the loop ends or goes on with \<open>again\<close>.\<close>

definition settle_attempt ::
    "run_env \<Rightarrow> nat \<Rightarrow> string list \<Rightarrow> verifier_outcome \<Rightarrow> artifact_ref option run_act
      \<Rightarrow> artifact_ref option run_act" where
  "settle_attempt env attempt evidence verifier again =
     (if vr_success verifier
      then act_bind (report_attempt env attempt ''verifier_failed'' ''accepted'' evidence
          ''Ran structured repair prompt with verifier context and verifier passed.''
          ''repair.attempt.completed'' ''implementer'' ''real_project_repair_after_verifier_failure'')
        (\<lambda>_. act_return (Some (vr_artifact verifier)))
      else act_bind (report_attempt env attempt ''verifier_failed'' ''failed'' evidence
          (''Verifier failed during real-project repair attempt '' @ show_nat attempt
            @ '' after structured repair prompt.'')
          ''repair.attempt.failed'' ''test-engineer'' ''real_project_repair_verifier_failed'')
        (\<lambda>_. again))"

text \<open>One attempt after the other, while attempts remain.\<close>

fun repair_loop ::
    "run_env \<Rightarrow> provider_kind \<Rightarrow> string \<Rightarrow> nat \<Rightarrow> string option \<Rightarrow> artifact_ref \<Rightarrow> nat \<Rightarrow> nat
      \<Rightarrow> verifier_outcome \<Rightarrow> artifact_ref option run_act" where
  "repair_loop env provider prompt max_attempts budget review attempt 0 last_verifier =
     act_bind (record_repair_budget_exhausted env ''verifier_failed'' review) (\<lambda>_. act_return None)"
| "repair_loop env provider prompt max_attempts budget review attempt (Suc remaining) last_verifier =
     act_bind (emit env ''repair.attempt.started'' (Some ''implementer'')
       (Some ''real_project_repair_after_verifier_failure'') (actor_role ''implementer'')
       (json_object [(''attempt'', json_nat attempt), (''trigger'', JString ''verifier_failed''),
         (''max_attempts'', json_nat max_attempts)])) (\<lambda>_.
     act_bind (record_real_project_repair_prompt env provider prompt attempt last_verifier review) (\<lambda>(prompt_artifact, content).
     act_bind (apply_provider_prompt_patch_for_role env
       \<lparr>ps_provider = provider, ps_prompt = content, ps_budget = budget, ps_role = ''implementer'',
        ps_action = ''repair_attempt_'' @ show_nat attempt, ps_task = None\<rparr>) (\<lambda>status.
     if status = WaitingForApproval then act_return None
     else
     act_bind (run_verifier env) (\<lambda>verifier.
     settle_attempt env attempt
       [ar_artifact_id review, ar_artifact_id (vr_artifact last_verifier),
        ar_artifact_id prompt_artifact, ar_artifact_id (vr_artifact verifier)] verifier
       (repair_loop env provider prompt max_attempts budget review (Suc attempt) remaining verifier)))))"

definition run_real_project_repair_loop ::
    "run_env \<Rightarrow> provider_kind \<Rightarrow> string \<Rightarrow> nat \<Rightarrow> string option \<Rightarrow> artifact_ref \<Rightarrow> verifier_outcome
      \<Rightarrow> artifact_ref option run_act" where
  "run_real_project_repair_loop env provider prompt max_attempts budget review initial_verifier =
     repair_loop env provider prompt max_attempts budget review 1 max_attempts initial_verifier"

subsection \<open>The workflow\<close>

definition accept_verified :: "run_env \<Rightarrow> artifact_ref \<Rightarrow> run_status run_act" where
  "accept_verified env test_log =
     act_bind (reviewer_accept_real_project env test_log) (\<lambda>review.
     act_bind (accept_real_project_final env test_log review) (\<lambda>_. act_return Accepted))"

text \<open>After a failed verifier run: without attempts the run is rejected, otherwise the repair loop
  decides; a loop that stopped for a pending ticket leaves the run waiting.\<close>

definition after_repairs :: "run_env \<Rightarrow> artifact_ref \<Rightarrow> artifact_ref \<Rightarrow> artifact_ref option \<Rightarrow> run_status run_act" where
  "after_repairs env review test_log repaired =
     (case repaired of
        Some repaired_log \<Rightarrow> accept_verified env repaired_log
      | None \<Rightarrow> act_bind get_ctx (\<lambda>s.
          if \<exists>t \<in> set (rc_approvals s). tk_status t = ''pending'' then act_return WaitingForApproval
          else act_bind (reject_real_project_verifier_failure env review test_log) (\<lambda>_.
            act_return Rejected)))"

definition repair_or_reject ::
    "run_env \<Rightarrow> provider_kind \<Rightarrow> string \<Rightarrow> nat \<Rightarrow> string option \<Rightarrow> verifier_outcome \<Rightarrow> run_status run_act" where
  "repair_or_reject env provider prompt max_attempts budget verifier =
     act_bind (reviewer_verifier_failure env (vr_artifact verifier)) (\<lambda>review.
     if max_attempts = 0
     then act_bind (reject_real_project_verifier_failure env review (vr_artifact verifier)) (\<lambda>_.
       act_bind (record_repair_budget_exhausted env ''verifier_failed'' review) (\<lambda>_. act_return Rejected))
     else
     act_bind (run_real_project_repair_loop env provider prompt max_attempts budget review verifier)
       (after_repairs env review (vr_artifact verifier)))"

definition apply_patches :: "run_env \<Rightarrow> provider_kind \<Rightarrow> string \<Rightarrow> string option \<Rightarrow> run_status run_act" where
  "apply_patches env provider prompt budget =
     act_bind get_ctx (\<lambda>s.
     act_bind (act_lift (task_order_of s)) (\<lambda>order.
     if order \<noteq> None then run_sdd_provider_task_graph env provider prompt budget
     else apply_provider_prompt_patch env provider prompt budget))"

definition run_real_project_provider_workflow ::
    "run_env \<Rightarrow> provider_kind \<Rightarrow> string \<Rightarrow> nat \<Rightarrow> string option \<Rightarrow> run_status run_act" where
  "run_real_project_provider_workflow env provider prompt max_attempts budget =
     act_bind (apply_patches env provider prompt budget) (\<lambda>status.
     if status = WaitingForApproval then act_return WaitingForApproval
     else
     act_bind (run_verifier env) (\<lambda>verifier.
     if vr_success verifier then accept_verified env (vr_artifact verifier)
     else repair_or_reject env provider prompt max_attempts budget verifier))"

subsection \<open>Contracts\<close>

locale patch_relation = working_relation +
  assumes applied [keep_rules]: "keeps R (apply_now env t req)"
    and consumed [keep_rules]: "keeps R (consume_ticket env i)"

locale workflow_relation = closing_relation + patch_relation

context run_relation
begin

lemma repair_prompt [keep_rules]:
  "keeps R (record_real_project_repair_prompt env provider prompt attempt verifier review)"
  unfolding record_real_project_repair_prompt_def by (intro keep_rules)

lemma repair_source [keep_rules]: "keeps R (record_repair_source_context env source)"
  unfolding record_repair_source_context_def by (intro keep_rules)

lemma prompt_of_options [keep_rules]: "keeps R (provider_prompt_of env opts)"
  unfolding provider_prompt_of_def by (intro keep_rules)

end

context patch_relation
begin

lemma granted [keep_rules]: "keeps R (apply_verified env p preview t s)"
  unfolding apply_verified_def by (intro keep_rules)

lemma approved [keep_rules]: "keeps R (apply_approved env p preview t)"
  unfolding apply_approved_def by (intro keep_rules)

lemma patch_stage [keep_rules]: "keeps R (apply_provider_prompt_patch_for_role env p)"
  unfolding apply_provider_prompt_patch_for_role_def by (intro keep_rules)

lemma prompt_patch [keep_rules]: "keeps R (apply_provider_prompt_patch env provider prompt budget)"
  unfolding apply_provider_prompt_patch_def by (intro keep_rules)

lemma tasks [keep_rules]: "keeps R (run_tasks env provider prompt budget n i ts)"
proof (induction ts arbitrary: i)
  case Nil
  show ?case unfolding run_tasks.simps by (intro keep_rules)
next
  case (Cons t ts)
  show ?case unfolding run_tasks.simps by (intro keep_rules Cons.IH)
qed

lemma task_graph [keep_rules]: "keeps R (run_sdd_provider_task_graph env provider prompt budget)"
  unfolding run_sdd_provider_task_graph_def by (intro keep_rules)

end

context patch_relation
begin

lemma patches [keep_rules]: "keeps R (apply_patches env provider prompt budget)"
  unfolding apply_patches_def by (intro keep_rules)

end

context closing_relation
begin

lemma settled [keep_rules]:
  "keeps R again \<Longrightarrow> keeps R (settle_attempt env attempt evidence verifier again)"
  unfolding settle_attempt_def by (intro keep_rules)

lemma accepting [keep_rules]: "keeps R (accept_verified env test_log)"
  unfolding accept_verified_def by (intro keep_rules)

end

context workflow_relation
begin

lemma repaired [keep_rules]: "keeps R (after_repairs env review test_log repaired)"
  unfolding after_repairs_def by (intro keep_rules)

lemma repairs [keep_rules]:
  "keeps R (repair_loop env provider prompt n budget review attempt remaining v)"
proof (induction remaining arbitrary: attempt v)
  case 0
  show ?case unfolding repair_loop.simps by (intro keep_rules)
next
  case (Suc remaining)
  show ?case unfolding repair_loop.simps by (intro keep_rules Suc.IH)
qed

lemma failed_verifier [keep_rules]: "keeps R (repair_or_reject env provider prompt n budget v)"
  unfolding repair_or_reject_def run_real_project_repair_loop_def by (intro keep_rules)

lemma workflow [keep_rules]: "keeps R (run_real_project_provider_workflow env provider prompt n budget)"
  unfolding run_real_project_provider_workflow_def by (intro keep_rules)

end

end
