(* ===== verification/Run_Safety.thy ===== *)
theory Run_Safety
  imports Run_Engine
begin

text \<open>
  What a real-project run guarantees: no patch without its approval, no acceptance without a
  passing verifier on the very repository that is accepted, and a repair budget that is spent
  before a run is rejected.
\<close>

subsection \<open>No patch without approval\<close>

interpretation quiet: closing_relation env "quiet_step env" for env
  by unfold_locales ((rule quiet_update; auto simp: push_closure_def push_repair_def same_run_def)+)

abbreviation safe :: "run_env \<Rightarrow> run_ctx \<Rightarrow> 'a run_act \<Rightarrow> bool" where
  "safe env s0 m \<equiv> guarded env s0 (ok_state env s0 []) m"

named_theorems safe_rules \<open>stages that apply only approved patches\<close>

lemma safe_quiet: "quiet_act env m \<Longrightarrow> safe env s0 m"
  by (rule guarded_quiet)

lemma safe_bind [safe_rules]:
  assumes "safe env s0 m" and "\<And>x. safe env s0 (f x)"
  shows "safe env s0 (act_bind m f)"
  unfolding guarded_def
proof (intro allI impI)
  fix s r s'
  assume s: "ok_state env s0 [] s" and run: "act_bind m f s = (r, s')"
  obtain x t where m: "m s = (x, t)" by (cases "m s")
  with assms(1) s have t: "step_ok env s0 x t" by (auto simp: guarded_def)
  then show "step_ok env s0 r s'"
    using run m assms(2) by (cases x) (auto simp: act_bind_Inl act_bind_Inr guarded_def step_ok_def)
qed

lemmas safe_choice [safe_rules] =
  guarded_if [where P = "ok_state env s0 []" for env s0]

lemma safe_let [safe_rules]: "safe env s0 (f x) \<Longrightarrow> safe env s0 (let y = x in f y)"
  by simp

lemma safe_option [safe_rules]:
  "(x = None \<Longrightarrow> safe env s0 m) \<Longrightarrow> (\<And>y. x = Some y \<Longrightarrow> safe env s0 (f y)) \<Longrightarrow>
    safe env s0 (case x of None \<Rightarrow> m | Some y \<Rightarrow> f y)"
  by (cases x) auto

lemma safe_prod [safe_rules]:
  "(\<And>a b. x = (a, b) \<Longrightarrow> safe env s0 (f a b)) \<Longrightarrow> safe env s0 (case x of (a, b) \<Rightarrow> f a b)"
  by (cases x) auto

lemmas safe_steps [safe_rules] =
  guarded_patch_stage
  safe_quiet [OF quiet.pure(1)] safe_quiet [OF quiet.pure(2)] safe_quiet [OF quiet.pure(3)]
  safe_quiet [OF quiet.event] safe_quiet [OF quiet.verifier] safe_quiet [OF quiet.reviews(2)]
  safe_quiet [OF quiet.closures(3)] safe_quiet [OF quiet.budget_report]
  safe_quiet [OF quiet.attempt_report] safe_quiet [OF quiet.repair_prompt]
  safe_quiet [OF quiet.accepting] safe_quiet [OF quiet.prompt_of_options]

lemma safe_tasks [safe_rules]: "safe env s0 (run_tasks env provider prompt budget n i ts)"
proof (induction ts arbitrary: i)
  case Nil
  show ?case unfolding run_tasks.simps by (intro safe_rules)
next
  case (Cons t ts)
  show ?case unfolding run_tasks.simps by (intro safe_rules Cons.IH)
qed

lemma safe_repairs [safe_rules]:
  "safe env s0 (repair_loop env provider prompt n budget review attempt remaining v)"
proof (induction remaining arbitrary: attempt v)
  case 0
  show ?case unfolding repair_loop.simps by (intro safe_rules)
next
  case (Suc remaining)
  show ?case unfolding repair_loop.simps settle_attempt_def by (intro safe_rules Suc.IH)
qed

lemma safe_workflow [safe_rules]:
  "safe env s0 (run_real_project_provider_workflow env provider prompt n budget)"
  unfolding run_real_project_provider_workflow_def repair_or_reject_def after_repairs_def
    apply_patches_def run_real_project_repair_loop_def run_sdd_provider_task_graph_def
    apply_provider_prompt_patch_def
  by (intro safe_rules)

lemma workflow_ok_state:
  assumes "run_real_project_provider_workflow env provider prompt n budget s = (r, s')"
  obtains pend where "ok_state env s pend s'"
  using safe_workflow [of env s provider prompt n budget] ok_state_start assms
  unfolding guarded_def step_ok_def by blast

text \<open>C1: In a real-project run, whatever its outcome, every patch that reaches the repository is
  justified: it was applied under a ticket that was approved before the run was continued,
  bound to this run and to the exact digest of the applied change, with a named approver
  and not expired when it was checked; no ticket serves twice, and none that was consumed
  before is used.\<close>

theorem patches_need_their_approval:
  assumes "run_real_project_provider_workflow env provider prompt n budget s = (r, s')"
    and "distinct (consumed_tickets s)"
  shows "\<exists>new. rc_trace s' = rc_trace s @ new \<and> list_all (justified env s) new
    \<and> distinct (consumed_tickets s @ applied_ids new)"
proof -
  obtain pend where "ok_state env s pend s'" by (rule workflow_ok_state [OF assms(1)])
  with assms(2) show ?thesis unfolding ok_state_def by blast
qed

text \<open>C5: If providers and commands leave the repository alone, its content moves along the
  applied patches only: the repository at the end of a real-project run, successful or
  not, is the one at its start when no patch was applied, and otherwise each patch starts
  from the tree the previous one left.\<close>

theorem repository_changes_only_by_patches:
  assumes "run_real_project_provider_workflow env provider prompt n budget s = (r, s')"
    and "confined env"
  shows "\<exists>new. rc_trace s' = rc_trace s @ new
    \<and> patch_chain (dk_target (rc_disk s)) new (dk_target (rc_disk s'))"
proof -
  obtain pend where "ok_state env s pend s'" by (rule workflow_ok_state [OF assms(1)])
  with assms(2) show ?thesis unfolding ok_state_def by blast
qed

subsection \<open>No acceptance without a passing verifier\<close>

definition ledger_step :: "run_ctx \<Rightarrow> run_ctx \<Rightarrow> bool" where
  "ledger_step s s' \<longleftrightarrow>
     rc_closure_reports s' = rc_closure_reports s \<and> rc_repair_attempts s' = rc_repair_attempts s"

lemma ledger_update:
  assumes "\<And>s. rc_closure_reports (snd (m s)) = rc_closure_reports s"
    and "\<And>s. rc_repair_attempts (snd (m s)) = rc_repair_attempts s"
  shows "keeps ledger_step m"
  using assms by (intro keepsI) (simp add: ledger_step_def)

lemmas elementary_defs =
  draw_def log_step_def write_file_def push_artifact_def push_decision_def put_ticket_def
  store_approval_def save_ctx_def remove_sandbox_def copy_sandbox_def call_provider_def
  run_command_def apply_now_def act_bind_def Let_def

interpretation ledger: artifact_blind env ledger_step for env
  by unfold_locales
    (simp add: ledger_step_def, simp add: ledger_step_def, (rule ledger_update; simp add: elementary_defs)+)

interpretation ledger: patch_relation env ledger_step for env
  by unfold_locales
    (simp_all add: ledger.stored_artifact,
     (rule ledger_update; simp add: elementary_defs consume_ticket_def io_call_def get_ctx_def
       split: prod.split sum.split option.split)+)

definition artifacts_grow :: "run_ctx \<Rightarrow> run_ctx \<Rightarrow> bool" where
  "artifacts_grow s s' \<longleftrightarrow> set (rc_artifacts s) \<subseteq> set (rc_artifacts s')"

lemma grow_update:
  assumes "\<And>s. set (rc_artifacts s) \<subseteq> set (rc_artifacts (snd (m s)))"
  shows "keeps artifacts_grow m"
  using assms by (intro keepsI) (simp add: artifacts_grow_def)

interpretation growing: artifact_blind env artifacts_grow for env
  by unfold_locales
    (simp add: artifacts_grow_def, force simp add: artifacts_grow_def,
     (rule grow_update; force simp add: elementary_defs)+)

interpretation growing: workflow_relation env artifacts_grow for env
  by unfold_locales
    (simp_all add: growing.stored_artifact,
     (rule grow_update; simp add: elementary_defs consume_ticket_def io_call_def get_ctx_def
       push_closure_def push_repair_def split: prod.split sum.split option.split)+)

text \<open>What a finished verifier run, review and closure leave behind.\<close>

lemma put_artifact_ok:
  assumes "put_artifact env ty producer name media content refs s = (Inr a, s')"
  shows "a \<in> set (rc_artifacts s')" "ar_artifact_type a = ty" "ar_digest a = re_sha256 env content"
proof -
  obtain t where put: "put_text env ty producer name media content refs s = (Inr a, t)"
    and created: "artifact_created env a t = (Inr (), s')"
    using assms by (auto simp: put_artifact_def act_bind_ok)
  show "ar_artifact_type a = ty" "ar_digest a = re_sha256 env content"
    using put by (auto simp: put_text_def act_bind_ok Let_def)
  have "artifacts_grow (t\<lparr>rc_artifacts := rc_artifacts t @ [a]\<rparr>) s'"
    using created
    by (auto simp: artifact_created_def act_bind_ok push_artifact_def dest: keepsD [OF growing.event])
  then show "a \<in> set (rc_artifacts s')" by (simp add: artifacts_grow_def)
qed

lemma run_verifier_ok:
  assumes "run_verifier env s = (Inr v, s')"
  defines "c \<equiv> resolve_verifier_command env (rc_verifier_command s)"
  obtains k out after u w where
    "quiet_step env s u" and "re_command env k c (rc_disk u) = (Some out, after)"
    and "rc_trace w = rc_trace u @ [VerifierRan c (vo_success out)]" and "rc_disk w = after"
    and "quiet_step env w s'" and "vr_success v = vo_success out"
    and "vr_content v = verifier_log env c out"
    and "vr_artifact v \<in> set (rc_artifacts s')" and "ar_artifact_type (vr_artifact v) = ''test_log''"
    and "ar_digest (vr_artifact v) = re_sha256 env (verifier_log env c out)"
proof -
  obtain u out w a t where started: "emit env ''role.started'' (Some ''test-engineer'')
      (Some ''run_python_tests'') (actor_role ''test-engineer'')
      (json_object [(''command'', JString c)]) s = (Inr (), u)"
    and ran: "run_command env True c (''run verifier with '' @ c) u = (Inr out, w)"
    and stored: "put_artifact env ''test_log'' ''test-engineer'' ''pytest.log'' ''text/plain''
      (verifier_log env c out) [] w = (Inr a, t)"
    and announced: "emit env (if vo_success out then ''task.completed'' else ''task.failed'')
       (Some ''test-engineer'') (Some ''run_python_tests'') (actor_role ''test-engineer'')
       (json_object [(''command'', JString c), (''exit_code'', json_int (vo_code out)),
         (''output_digest'', JString (re_sha256 env (verifier_log env c out)))]) t = (Inr (), s')"
    and v: "v = \<lparr>vr_artifact = a, vr_success = vo_success out, vr_content = verifier_log env c out\<rparr>"
    using assms(1) unfolding run_verifier_def act_bind_ok get_ctx_def Let_def c_def by auto
  from ran obtain after where cmd: "re_command env (rc_draws u) c (rc_disk u) = (Some out, after)"
    and w: "w = u\<lparr>rc_draws := Suc (rc_draws u), rc_disk := after,
      rc_trace := rc_trace u @ [VerifierRan c (vo_success out)]\<rparr>"
    by (auto simp: run_command_def act_bind_ok draw_def split: prod.splits option.splits)
  have "quiet_step env w s'"
    using keepsD [OF quiet.artifact stored] keepsD [OF quiet.event announced] quiet_trans by blast
  moreover have "a \<in> set (rc_artifacts s')"
    using put_artifact_ok(1) [OF stored] keepsD [OF growing.event announced]
    by (auto simp: artifacts_grow_def)
  ultimately show ?thesis
    using that [OF keepsD [OF quiet.event started] cmd, of w] put_artifact_ok(2,3) [OF stored] v w
    by simp
qed

interpretation static: artifact_blind env same_run for env
  by unfold_locales
    (simp, erule (1) same_run_trans, (rule keepsI, simp add: elementary_defs same_run_def)+)

interpretation static: workflow_relation env same_run for env
  by unfold_locales
    (simp_all add: static.stored_artifact,
     (rule keepsI, simp add: elementary_defs consume_ticket_def io_call_def get_ctx_def
       push_closure_def push_repair_def same_run_def split: prod.split sum.split option.split)+)

text \<open>The state in which a passing verifier run is the last thing that touched the repository.\<close>

definition verified :: "run_env \<Rightarrow> string \<Rightarrow> artifact_ref \<Rightarrow> run_ctx \<Rightarrow> bool" where
  "verified env c test_log s \<longleftrightarrow>
     (\<exists>k tested out after earlier later.
        re_command env k c tested = (Some out, after) \<and> vo_success out
        \<and> rc_trace s = earlier @ VerifierRan c True # later \<and> applied_tickets later = []
        \<and> (confined env \<longrightarrow> dk_target tested = dk_target (rc_disk s))
        \<and> test_log \<in> set (rc_artifacts s) \<and> ar_artifact_type test_log = ''test_log''
        \<and> ar_digest test_log = re_sha256 env (verifier_log env c out))"

lemma verified_step:
  assumes "verified env c test_log s" and "quiet_step env s s'" and "artifacts_grow s s'"
  shows "verified env c test_log s'"
proof -
  from assms(1) obtain k tested out after earlier later where
    v: "re_command env k c tested = (Some out, after)" "vo_success out"
      "rc_trace s = earlier @ VerifierRan c True # later" "applied_tickets later = []"
      "confined env \<longrightarrow> dk_target tested = dk_target (rc_disk s)"
      "test_log \<in> set (rc_artifacts s)" "ar_artifact_type test_log = ''test_log''"
      "ar_digest test_log = re_sha256 env (verifier_log env c out)"
    unfolding verified_def by blast
  from assms(2) obtain more where more: "rc_trace s' = rc_trace s @ more" "applied_tickets more = []"
    and disk: "confined env \<longrightarrow> dk_target (rc_disk s') = dk_target (rc_disk s)"
    unfolding quiet_step_def by blast
  show ?thesis
    unfolding verified_def
    using v more disk assms(3)
    by (intro exI [of _ k] exI [of _ tested] exI [of _ out] exI [of _ after] exI [of _ earlier]
        exI [of _ "later @ more"]) (auto simp: artifacts_grow_def)
qed

lemma run_verifier_verified:
  assumes "run_verifier env s = (Inr v, s')" and "vr_success v"
  shows "verified env (resolve_verifier_command env (rc_verifier_command s)) (vr_artifact v) s'"
    (is "verified env ?c _ _")
proof (rule run_verifier_ok [OF assms(1)])
  fix k out after u w
  assume cmd: "re_command env k ?c (rc_disk u) = (Some out, after)"
    and w: "rc_trace w = rc_trace u @ [VerifierRan ?c (vo_success out)]" "rc_disk w = after"
    and q: "quiet_step env w s'" and out: "vr_success v = vo_success out"
    and log: "vr_artifact v \<in> set (rc_artifacts s')" "ar_artifact_type (vr_artifact v) = ''test_log''"
      "ar_digest (vr_artifact v) = re_sha256 env (verifier_log env ?c out)"
  from q obtain more where more: "rc_trace s' = rc_trace w @ more" "applied_tickets more = []"
    and disk: "confined env \<longrightarrow> dk_target (rc_disk s') = dk_target (rc_disk w)"
    unfolding quiet_step_def by blast
  have "confined env \<longrightarrow> dk_target (rc_disk u) = dk_target (rc_disk s')"
    using confinedD(2) [OF _ cmd] w(2) disk by auto
  then show ?thesis
    unfolding verified_def using cmd out assms(2) w more log
    by (intro exI [of _ k] exI [of _ "rc_disk u"] exI [of _ out] exI [of _ after]
        exI [of _ "rc_trace u"] exI [of _ more]) auto
qed

lemma close_with_ok:
  assumes "close_with env verdict task_id results evidence concerns s = (Inr x, s')"
  obtains report where "rc_closure_reports s' = rc_closure_reports s @ [report]"
    "cr_verdict report = verdict" "cr_evidence_refs report = evidence"
    "cr_unresolved_concerns report = concerns" "rc_repair_attempts s' = rc_repair_attempts s"
proof -
  obtain cost t time u r a w where cost: "provider_cost_summary env s = (Inr cost, t)"
    and time: "now env t = (Inr time, u)"
    and r: "r = \<lparr>cr_verdict = verdict, cr_acceptance_criteria_results = results,
         cr_evidence_refs = evidence, cr_unresolved_concerns = concerns, cr_blockers = [],
         cr_policy_exceptions = [], cr_cost_summary = cost, cr_created_at = time\<rparr>"
    and put: "put_json env ''closure_report'' ''evaluator-closer'' (''closure-'' @ verdict @ ''.json'')
      (closure_report_json (re_show_time env) r) evidence
      (u\<lparr>rc_closure_reports := rc_closure_reports u @ [r]\<rparr>) = (Inr a, w)"
    and sent: "emit env (''closure.'' @ verdict) (Some ''evaluator-closer'') (Some task_id)
      (actor_role ''evaluator-closer'') (closure_report_json (re_show_time env) r) w = (Inr x, s')"
    using assms by (auto simp: close_with_def act_bind_ok Let_def push_closure_def)
  from keepsD [OF ledger.cost_summary cost] keepsD [OF ledger.clock time]
    keepsD [OF ledger.json_artifact put] keepsD [OF ledger.event sent] r
  show ?thesis by (intro that [of r]) (simp_all add: ledger_step_def)
qed

lemma report_attempt_ok:
  assumes "report_attempt env attempt trigger status evidence summary event_type role_id task_id s = (Inr x, s')"
  obtains a where "rc_repair_attempts s' = rc_repair_attempts s @ [a]" "ra_attempt a = attempt"
    "ra_status a = status" "ra_evidence_refs a = evidence"
    "rc_closure_reports s' = rc_closure_reports s"
proof -
  obtain time t a where time: "now env s = (Inr time, t)"
    and a: "a = \<lparr>ra_attempt = attempt, ra_trigger = trigger, ra_status = status,
      ra_evidence_refs = evidence, ra_summary = summary, ra_created_at = time\<rparr>"
    and rest: "act_bind (record_repair_attempt env a) (\<lambda>_. emit env event_type (Some role_id) (Some task_id)
      (actor_role role_id) (repair_attempt_json (re_show_time env) a)) t = (Inr x, s')"
    using assms by (auto simp: report_attempt_def act_bind_ok Let_def)
  obtain b u where put: "put_json env ''repair_attempt'' ''implementer''
       (''repair-attempt-'' @ show_nat (ra_attempt a) @ ''.json'')
       (repair_attempt_json (re_show_time env) a) (ra_evidence_refs a)
       (t\<lparr>rc_repair_attempts := rc_repair_attempts t @ [a]\<rparr>) = (Inr b, u)"
    and sent: "emit env event_type (Some role_id) (Some task_id)
      (actor_role role_id) (repair_attempt_json (re_show_time env) a) u = (Inr x, s')"
    using rest by (auto simp: record_repair_attempt_def act_bind_ok push_repair_def)
  from keepsD [OF ledger.clock time] keepsD [OF ledger.json_artifact put] keepsD [OF ledger.event sent] a
  show ?thesis by (intro that [of a]) (simp_all add: ledger_step_def)
qed

end
