(* ===== verification/Run_Outcome.thy ===== *)
theory Run_Outcome
  imports Run_Safety
begin

text \<open>
  How a real-project run ends: what each final status says about the closure reports and the
  repair attempts that the run leaves behind, and about the repository.
\<close>

subsection \<open>A run that waits has a pending ticket\<close>

definition has_pending :: "run_ctx \<Rightarrow> bool" where
  "has_pending s \<longleftrightarrow> (\<exists>t \<in> set (rc_approvals s). tk_status t = ''pending'')"

definition still_pending :: "run_ctx \<Rightarrow> run_ctx \<Rightarrow> bool" where
  "still_pending s s' \<longleftrightarrow> (has_pending s \<longrightarrow> has_pending s')"

lemma replace_ticket_in: "t \<in> set (replace_ticket t ts)"
  by (induction ts) auto

lemma pending_put: "tk_status t = ''pending'' \<Longrightarrow> has_pending (s\<lparr>rc_approvals := replace_ticket t (rc_approvals s)\<rparr>)"
  using replace_ticket_in by (auto simp: has_pending_def)

lemma pending_update:
  "(\<And>s. rc_approvals (snd (m s)) = rc_approvals s) \<Longrightarrow> keeps still_pending m"
  by (intro keepsI) (simp add: still_pending_def has_pending_def)

interpretation pending: artifact_blind env still_pending for env
  by unfold_locales
    (simp add: still_pending_def, simp add: still_pending_def, (rule pending_update, simp add: elementary_defs)+)

interpretation pending: workflow_relation env still_pending for env
  by unfold_locales
    (simp_all add: pending.stored_artifact,
     ((rule pending_update, simp add: elementary_defs consume_ticket_def io_call_def get_ctx_def
         push_closure_def push_repair_def split: prod.split sum.split option.split; fail)
      | (rule keepsI, simp add: put_ticket_def still_pending_def pending_put))+)

lemma request_approval_pending:
  assumes "request_approval env p preview s = (Inr st, s')"
  shows "has_pending s' \<and> st = WaitingForApproval"
proof -
  obtain t where t: "has_pending t" and rest: "act_bind (write_run_record env WaitingForApproval)
      (\<lambda>_. act_return WaitingForApproval) t = (Inr st, s')"
  proof (cases "pending_for s (sandbox_apply_request p preview) preview")
    case (Some ticket)
    then have "ticket \<in> set (rc_approvals s)" "tk_status ticket = ''pending''"
      by (auto simp: pending_for_def find_Some_iff)
    then show ?thesis
      using that [of s] assms Some
      by (auto simp: request_approval_def Let_def act_bind_ok get_ctx_def has_pending_def)
  next
    case None
    let ?req = "sandbox_apply_request p preview"
    obtain ticket u v w where new: "new_ticket env ?req s = (Inr ticket, u)"
      and stored: "write_stored_approval env ticket ?req
        (u\<lparr>rc_approvals := replace_ticket ticket (rc_approvals u)\<rparr>) = (Inr (), v)"
      and told: "act_bind get_ctx (\<lambda>s.
         let preview_id = artifact_id_or_empty (find_artifact s (ps_role p) ''sandbox_patch_preview''
               (''sandbox-patch-preview-'' @ ps_action p @ ''.json'')) in
         act_bind (put_json env ''approval_ticket_requested'' (ps_role p)
           (''sandbox-patch-approval-requested-'' @ ps_action p @ ''-'' @ tk_ticket_id ticket @ ''.json'')
           (approval_ticket_json (re_show_time env) ticket)
           (if preview_id = [] then [] else [preview_id])) (\<lambda>_.
         emit_for env p ''approval.requested'' actor_system
           (approval_ticket_json (re_show_time env) ticket))) v = (Inr (), w)"
      and rest: "act_bind (write_run_record env WaitingForApproval)
        (\<lambda>_. act_return WaitingForApproval) w = (Inr st, s')"
      using assms None
      unfolding request_approval_def Let_def by (auto simp: act_bind_ok get_ctx_def put_ticket_def)
    have "tk_status ticket = ''pending''" by (rule new_ticket_pending [OF new])
    from pending_put [OF this] keepsD [OF pending.stored_approval stored]
    have "has_pending v" by (auto simp: still_pending_def)
    moreover have "still_pending v w"
      using told unfolding Let_def
      by (rule keepsD [rotated]) (intro keep_rules)
    ultimately show ?thesis using that [of w] rest by (auto simp: still_pending_def)
  qed
  have "still_pending t s'"
    using rest by (rule keepsD [rotated]) (intro keep_rules)
  moreover have "st = WaitingForApproval" using rest by (auto simp: act_bind_ok)
  ultimately show ?thesis using t by (simp add: still_pending_def)
qed

lemma refuse_fails: "refuse env p reason msg s \<noteq> (Inr x, s')"
  by (auto simp: refuse_def act_bind_ok)

lemma apply_approved_status:
  assumes "apply_approved env p preview t s = (Inr st, s')"
  shows "st = Accepted"
  using assms
  by (auto simp: apply_approved_def apply_verified_def act_bind_ok Let_def refuse_fails
      split: option.splits if_splits)

lemma patch_stage_status:
  assumes "apply_provider_prompt_patch_for_role env p s = (Inr st, s')"
  shows "st = Accepted \<or> st = WaitingForApproval \<and> has_pending s'"
  using assms
  by (auto simp: apply_provider_prompt_patch_for_role_def act_bind_ok Let_def get_ctx_def
      split: option.splits if_splits dest: request_approval_pending apply_approved_status)

subsection \<open>The repair loop\<close>

text \<open>Attempts that failed, numbered from \<open>k\<close>.\<close>

fun failed_from :: "nat \<Rightarrow> repair_attempt list \<Rightarrow> bool" where
  "failed_from k [] \<longleftrightarrow> True"
| "failed_from k (a # xs) \<longleftrightarrow> ra_attempt a = k \<and> ra_status a = ''failed'' \<and> failed_from (Suc k) xs"

definition loop_result ::
    "run_env \<Rightarrow> string \<Rightarrow> nat \<Rightarrow> nat \<Rightarrow> repair_attempt list \<Rightarrow> artifact_ref option \<Rightarrow> run_ctx \<Rightarrow> bool" where
  "loop_result env c attempt remaining before res s' \<longleftrightarrow>
     (\<exists>fs. failed_from attempt fs \<and>
        (case res of
           Some test_log \<Rightarrow> verified env c test_log s' \<and> length fs < remaining
             \<and> (\<exists>a. rc_repair_attempts s' = before @ fs @ [a] \<and> ra_status a = ''accepted''
                  \<and> ra_attempt a = attempt + length fs)
         | None \<Rightarrow> has_pending s' \<and> rc_repair_attempts s' = before @ fs \<and> length fs < remaining
             \<or> length fs = remaining
               \<and> (\<exists>a. rc_repair_attempts s' = before @ fs @ [a] \<and> ra_status a = ''budget_exhausted''
                    \<and> ra_attempt a = 0)))"

lemma loop_result_Cons:
  assumes "loop_result env c (Suc attempt) remaining (before @ [a]) res s'"
    and "ra_attempt a = attempt" "ra_status a = ''failed''"
  shows "loop_result env c attempt (Suc remaining) before res s'"
proof -
  obtain fs where fs: "failed_from (Suc attempt) fs" "case res of
           Some test_log \<Rightarrow> verified env c test_log s' \<and> length fs < remaining
             \<and> (\<exists>b. rc_repair_attempts s' = (before @ [a]) @ fs @ [b] \<and> ra_status b = ''accepted''
                  \<and> ra_attempt b = Suc attempt + length fs)
         | None \<Rightarrow> has_pending s' \<and> rc_repair_attempts s' = (before @ [a]) @ fs \<and> length fs < remaining
             \<or> length fs = remaining
               \<and> (\<exists>b. rc_repair_attempts s' = (before @ [a]) @ fs @ [b] \<and> ra_status b = ''budget_exhausted''
                    \<and> ra_attempt b = 0)"
    using assms(1) unfolding loop_result_def by blast
  have "failed_from attempt (a # fs)" using assms(2,3) fs(1) by simp
  with fs(2) show ?thesis
    unfolding loop_result_def by (intro exI [of _ "a # fs"]) (auto split: option.splits)
qed

lemma settle_success:
  assumes "settle_attempt env attempt evidence w again t = (Inr res, s')" and "vr_success w"
  shows "res = Some (vr_artifact w)" "rc_closure_reports s' = rc_closure_reports t"
    "\<exists>a. rc_repair_attempts s' = rc_repair_attempts t @ [a] \<and> ra_attempt a = attempt \<and> ra_status a = ''accepted''"
    "quiet_step env t s'" "artifacts_grow t s'"
proof -
  obtain u where rep: "report_attempt env attempt ''verifier_failed'' ''accepted'' evidence
      ''Ran structured repair prompt with verifier context and verifier passed.''
      ''repair.attempt.completed'' ''implementer'' ''real_project_repair_after_verifier_failure'' t = (Inr u, s')"
    and res: "res = Some (vr_artifact w)"
    using assms unfolding settle_attempt_def by (auto simp: act_bind_ok)
  show "res = Some (vr_artifact w)" by (rule res)
  show "rc_closure_reports s' = rc_closure_reports t"
    "\<exists>a. rc_repair_attempts s' = rc_repair_attempts t @ [a] \<and> ra_attempt a = attempt \<and> ra_status a = ''accepted''"
    using report_attempt_ok [OF rep] by metis+
  show "quiet_step env t s'" "artifacts_grow t s'"
    by (rule keepsD [OF quiet.attempt_report rep], rule keepsD [OF growing.attempt_report rep])
qed

lemma settle_failure:
  assumes "settle_attempt env attempt evidence w again t = (Inr res, s')" and "\<not> vr_success w"
  obtains u a where "again u = (Inr res, s')" "rc_closure_reports u = rc_closure_reports t"
    "rc_repair_attempts u = rc_repair_attempts t @ [a]" "ra_attempt a = attempt" "ra_status a = ''failed''"
    "same_run t u"
proof -
  obtain x u where rep: "report_attempt env attempt ''verifier_failed'' ''failed'' evidence
      (''Verifier failed during real-project repair attempt '' @ show_nat attempt
        @ '' after structured repair prompt.'')
      ''repair.attempt.failed'' ''test-engineer'' ''real_project_repair_verifier_failed'' t = (Inr x, u)"
    and again: "again u = (Inr res, s')"
    using assms unfolding settle_attempt_def by (auto simp: act_bind_ok)
  from report_attempt_ok [OF rep] keepsD [OF static.attempt_report rep] again that
  show ?thesis by metis
qed

lemma repair_loop_ok:
  assumes "repair_loop env provider prompt n budget review attempt remaining v s = (Inr res, s')"
  shows "rc_closure_reports s' = rc_closure_reports s
    \<and> loop_result env (resolve_verifier_command env (rc_verifier_command s)) attempt remaining
        (rc_repair_attempts s) res s'"
  using assms
proof (induction remaining arbitrary: attempt v s)
  case 0
  then obtain u where "record_repair_budget_exhausted env ''verifier_failed'' review s = (Inr u, s')"
    and res: "res = None"
    by (auto simp: act_bind_ok)
  note this(1) [unfolded record_repair_budget_exhausted_def]
  from report_attempt_ok [OF this] obtain a where "rc_repair_attempts s' = rc_repair_attempts s @ [a]"
    "ra_attempt a = 0" "ra_status a = ''budget_exhausted''" "rc_closure_reports s' = rc_closure_reports s"
    by metis
  with res show ?case by (auto simp: loop_result_def intro!: exI [of _ "[]"])
next
  case (Suc remaining)
  obtain t1 pa content t2 status t3 where started: "emit env ''repair.attempt.started'' (Some ''implementer'')
       (Some ''real_project_repair_after_verifier_failure'') (actor_role ''implementer'')
       (json_object [(''attempt'', json_nat attempt), (''trigger'', JString ''verifier_failed''),
         (''max_attempts'', json_nat n)]) s = (Inr (), t1)"
    and prompt: "record_real_project_repair_prompt env provider prompt attempt v review t1 = (Inr (pa, content), t2)"
    and stage: "apply_provider_prompt_patch_for_role env
       \<lparr>ps_provider = provider, ps_prompt = content, ps_budget = budget, ps_role = ''implementer'',
        ps_action = ''repair_attempt_'' @ show_nat attempt, ps_task = None\<rparr> t2 = (Inr status, t3)"
    and rest: "(if status = WaitingForApproval then act_return None
     else act_bind (run_verifier env) (\<lambda>verifier.
       settle_attempt env attempt
         [ar_artifact_id review, ar_artifact_id (vr_artifact v), ar_artifact_id pa,
          ar_artifact_id (vr_artifact verifier)] verifier
         (repair_loop env provider prompt n budget review (Suc attempt) remaining verifier))) t3
       = (Inr res, s')"
    using Suc.prems by (auto simp: act_bind_ok split: prod.splits)
  have led: "rc_closure_reports t3 = rc_closure_reports s" "rc_repair_attempts t3 = rc_repair_attempts s"
    using keepsD [OF ledger.event started] keepsD [OF ledger.repair_prompt prompt]
      keepsD [OF ledger.patch_stage stage] by (simp_all add: ledger_step_def)
  have cmd: "rc_verifier_command t3 = rc_verifier_command s"
    using keepsD [OF static.event started] keepsD [OF static.repair_prompt prompt]
      keepsD [OF static.patch_stage stage] by (simp add: same_run_def)
  show ?case
  proof (cases "status = WaitingForApproval")
    case True
    then have "has_pending t3" using patch_stage_status [OF stage] by auto
    with True rest led show ?thesis
      by (auto simp: loop_result_def intro!: exI [of _ "[]"])
  next
    case False
    with rest obtain w t4 where ver: "run_verifier env t3 = (Inr w, t4)"
      by (auto simp: act_bind_ok)
    have led4: "rc_closure_reports t4 = rc_closure_reports s" "rc_repair_attempts t4 = rc_repair_attempts s"
      using keepsD [OF ledger.verifier ver] led by (simp_all add: ledger_step_def)
    have cmd4: "rc_verifier_command t4 = rc_verifier_command s"
      using keepsD [OF static.verifier ver] cmd by (simp add: same_run_def)
    let ?evidence = "[ar_artifact_id review, ar_artifact_id (vr_artifact v), ar_artifact_id pa,
        ar_artifact_id (vr_artifact w)]"
    have settle: "settle_attempt env attempt ?evidence w
        (repair_loop env provider prompt n budget review (Suc attempt) remaining w) t4 = (Inr res, s')"
      using False rest ver by (simp add: act_bind_Inr)
    show ?thesis
    proof (cases "vr_success w")
      case True
      note done_ok = settle_success [OF settle True]
      have "verified env (resolve_verifier_command env (rc_verifier_command s)) (vr_artifact w) s'"
        using verified_step [OF run_verifier_verified [OF ver True]] done_ok(4,5) cmd by simp
      with done_ok(1-3) led4 show ?thesis
        by (auto simp: loop_result_def intro!: exI [of _ "[]"])
    next
      case failed: False
      obtain u a where loop: "repair_loop env provider prompt n budget review (Suc attempt) remaining w u = (Inr res, s')"
        and u: "rc_closure_reports u = rc_closure_reports t4" "rc_repair_attempts u = rc_repair_attempts t4 @ [a]"
          "ra_attempt a = attempt" "ra_status a = ''failed''" "same_run t4 u"
        by (rule settle_failure [OF settle failed])
      have "rc_verifier_command u = rc_verifier_command s"
        using u(5) cmd4 by (simp add: same_run_def)
      with Suc.IH [OF loop] u(1,2) led4
      have "rc_closure_reports s' = rc_closure_reports s"
        and "loop_result env (resolve_verifier_command env (rc_verifier_command s)) (Suc attempt) remaining
          (rc_repair_attempts s @ [a]) res s'" by simp_all
      with loop_result_Cons u(3,4) show ?thesis by blast
    qed
  qed
qed

subsection \<open>The end of a run\<close>

lemma run_tasks_status:
  assumes "run_tasks env provider prompt budget n i ts s = (Inr st, s')"
  shows "st = Accepted \<or> st = WaitingForApproval \<and> has_pending s'"
  using assms
proof (induction ts arbitrary: i s)
  case (Cons t ts)
  then show ?case
    by (auto simp: act_bind_ok split: if_splits dest: patch_stage_status)
qed simp

lemma apply_patches_status:
  assumes "apply_patches env provider prompt budget s = (Inr st, s')"
  shows "st = Accepted \<or> st = WaitingForApproval \<and> has_pending s'"
  using assms
  by (auto simp: apply_patches_def run_sdd_provider_task_graph_def apply_provider_prompt_patch_def
      act_bind_ok get_ctx_def split: if_splits dest: run_tasks_status patch_stage_status)

definition accepted_at :: "run_env \<Rightarrow> string \<Rightarrow> run_ctx \<Rightarrow> run_ctx \<Rightarrow> bool" where
  "accepted_at env c s s' \<longleftrightarrow>
     (\<exists>test_log report. verified env c test_log s'
        \<and> rc_closure_reports s' = rc_closure_reports s @ [report] \<and> cr_verdict report = ''accepted''
        \<and> ar_artifact_id test_log \<in> set (cr_evidence_refs report)
        \<and> cr_unresolved_concerns report = [])"

definition rejected_at :: "run_ctx \<Rightarrow> run_ctx \<Rightarrow> bool" where
  "rejected_at s s' \<longleftrightarrow>
     (\<exists>report. rc_closure_reports s' = rc_closure_reports s @ [report] \<and> cr_verdict report = ''rejected''
        \<and> cr_unresolved_concerns report = [''verifier_failed''])"

text \<open>The attempts of one pass: failures from the first on, and how the series ended.\<close>

definition attempts_end :: "run_ctx \<Rightarrow> run_ctx \<Rightarrow> nat \<Rightarrow> string option \<Rightarrow> bool" where
  "attempts_end s s' failures verdict \<longleftrightarrow>
     (\<exists>fs. failed_from 1 fs \<and> length fs = failures \<and>
        (case verdict of None \<Rightarrow> rc_repair_attempts s' = rc_repair_attempts s @ fs
         | Some v \<Rightarrow> \<exists>a. rc_repair_attempts s' = rc_repair_attempts s @ fs @ [a] \<and> ra_status a = v))"

definition ends_as :: "run_env \<Rightarrow> nat \<Rightarrow> run_ctx \<Rightarrow> run_status \<Rightarrow> run_ctx \<Rightarrow> bool" where
  "ends_as env n s status s' \<longleftrightarrow>
     (case status of
        Accepted \<Rightarrow> accepted_at env (resolve_verifier_command env (rc_verifier_command s)) s s'
          \<and> (attempts_end s s' 0 None \<or> (\<exists>k < n. attempts_end s s' k (Some ''accepted'')))
      | Rejected \<Rightarrow> rejected_at s s' \<and> attempts_end s s' n (Some ''budget_exhausted'')
      | WaitingForApproval \<Rightarrow> has_pending s' \<and> rc_closure_reports s' = rc_closure_reports s
          \<and> ((\<exists>k < Suc n. attempts_end s s' k None) \<or> attempts_end s s' n (Some ''budget_exhausted''))
      | _ \<Rightarrow> False)"

lemma accept_verified_ok:
  assumes "accept_verified env test_log s = (Inr st, s')" and "verified env c test_log s"
  shows "st = Accepted" "accepted_at env c s s'" "rc_repair_attempts s' = rc_repair_attempts s"
proof -
  obtain review t u where review: "reviewer_accept_real_project env test_log s = (Inr review, t)"
    and close: "close_with env ''accepted'' ''real_project_closure_final'' (acceptance_results (rc_acceptance t))
         [ar_artifact_id test_log, ar_artifact_id review] [] t = (Inr u, s')"
    and st: "st = Accepted"
    using assms(1) by (auto simp: accept_verified_def accept_real_project_final_def act_bind_ok get_ctx_def)
  obtain report where "rc_closure_reports s' = rc_closure_reports t @ [report]"
    "cr_verdict report = ''accepted''"
    "cr_evidence_refs report = [ar_artifact_id test_log, ar_artifact_id review]"
    "cr_unresolved_concerns report = []" and same: "rc_repair_attempts s' = rc_repair_attempts t"
    by (rule close_with_ok [OF close])
  moreover have led: "rc_closure_reports t = rc_closure_reports s" "rc_repair_attempts t = rc_repair_attempts s"
    using keepsD [OF ledger.reviews(1) review] by (simp_all add: ledger_step_def)
  moreover have "verified env c test_log s'"
    using verified_step [OF verified_step [OF assms(2)]]
      keepsD [OF quiet.reviews(1) review] keepsD [OF growing.reviews(1) review]
      keepsD [OF quiet.closing close] keepsD [OF growing.closing close] by blast
  ultimately show "accepted_at env c s s'" unfolding accepted_at_def by auto
  show "st = Accepted" "rc_repair_attempts s' = rc_repair_attempts s" using st same led by simp_all
qed

lemma rejected_ok:
  assumes "reject_real_project_verifier_failure env review test_log s = (Inr u, s')"
  shows "rejected_at s s'" "rc_repair_attempts s' = rc_repair_attempts s"
  using close_with_ok [OF assms [unfolded reject_real_project_verifier_failure_def]]
  unfolding rejected_at_def by metis+

lemma ends_as_shift:
  assumes "ends_as env n t status s'" and "rc_closure_reports t = rc_closure_reports s"
    and "rc_repair_attempts t = rc_repair_attempts s" and "rc_verifier_command t = rc_verifier_command s"
  shows "ends_as env n s status s'"
  using assms
  by (cases status) (simp_all add: ends_as_def accepted_at_def rejected_at_def attempts_end_def)

lemma repair_or_reject_ok:
  assumes "repair_or_reject env provider prompt n budget v s = (Inr st, s')"
  shows "ends_as env n s st s'"
proof -
  obtain review t where review: "reviewer_verifier_failure env (vr_artifact v) s = (Inr review, t)"
    and rest: "(if n = 0 then act_bind (reject_real_project_verifier_failure env review (vr_artifact v)) (\<lambda>_.
       act_bind (record_repair_budget_exhausted env ''verifier_failed'' review) (\<lambda>_. act_return Rejected))
     else act_bind (run_real_project_repair_loop env provider prompt n budget review v)
       (after_repairs env review (vr_artifact v))) t = (Inr st, s')"
    using assms by (auto simp: repair_or_reject_def act_bind_ok)
  have "ends_as env n t st s'"
  proof (cases n)
    case 0
    with rest obtain u1 w u2 where rejected: "reject_real_project_verifier_failure env review (vr_artifact v) t = (Inr u1, w)"
      and spent: "record_repair_budget_exhausted env ''verifier_failed'' review w = (Inr u2, s')"
      and st: "st = Rejected"
      by (auto simp: act_bind_ok)
    obtain a where "rc_repair_attempts s' = rc_repair_attempts w @ [a]" "ra_status a = ''budget_exhausted''"
      "rc_closure_reports s' = rc_closure_reports w"
      using report_attempt_ok [OF spent [unfolded record_repair_budget_exhausted_def]] by metis
    with rejected_ok [OF rejected] 0 st show ?thesis
      by (auto simp: ends_as_def rejected_at_def attempts_end_def intro!: exI [of _ "[]"])
  next
    case (Suc m)
    with rest obtain repaired u where loop: "repair_loop env provider prompt n budget review 1 n v t = (Inr repaired, u)"
      and after: "after_repairs env review (vr_artifact v) repaired u = (Inr st, s')"
      by (auto simp: act_bind_ok run_real_project_repair_loop_def)
    let ?c = "resolve_verifier_command env (rc_verifier_command t)"
    from repair_loop_ok [OF loop] obtain fs where closures: "rc_closure_reports u = rc_closure_reports t"
      and fs: "failed_from 1 fs"
      and res: "case repaired of
           Some test_log \<Rightarrow> verified env ?c test_log u \<and> length fs < n
             \<and> (\<exists>a. rc_repair_attempts u = rc_repair_attempts t @ fs @ [a] \<and> ra_status a = ''accepted''
                  \<and> ra_attempt a = 1 + length fs)
         | None \<Rightarrow> has_pending u \<and> rc_repair_attempts u = rc_repair_attempts t @ fs \<and> length fs < n
             \<or> length fs = n
               \<and> (\<exists>a. rc_repair_attempts u = rc_repair_attempts t @ fs @ [a] \<and> ra_status a = ''budget_exhausted''
                    \<and> ra_attempt a = 0)"
      unfolding loop_result_def by blast
    show ?thesis
    proof (cases repaired)
      case (Some test_log)
      with after have acc: "accept_verified env test_log u = (Inr st, s')" by (simp add: after_repairs_def)
      from res Some have ver: "verified env ?c test_log u" by simp
      note ok = accept_verified_ok [OF acc ver]
      then have "accepted_at env ?c t s'" using closures by (simp add: accepted_at_def)
      moreover have "\<exists>k < n. attempts_end t s' k (Some ''accepted'')"
        using res Some ok(3) fs by (auto simp: attempts_end_def)
      ultimately show ?thesis using ok(1) by (simp add: ends_as_def)
    next
      case None
      show ?thesis
      proof (cases "has_pending u")
        case True
        with after None have "st = WaitingForApproval" "s' = u"
          by (simp_all add: after_repairs_def act_bind_def get_ctx_def has_pending_def)
        with res None True closures fs show ?thesis
          by (auto simp: ends_as_def attempts_end_def)
      next
        case False
        with after None obtain x where rejected: "reject_real_project_verifier_failure env review (vr_artifact v) u = (Inr x, s')"
          and st: "st = Rejected"
          by (auto simp: after_repairs_def act_bind_ok get_ctx_def has_pending_def)
        from rejected_ok [OF rejected] closures have "rejected_at t s'" by (simp add: rejected_at_def)
        moreover have "attempts_end t s' n (Some ''budget_exhausted'')"
          using res None False fs rejected_ok(2) [OF rejected] by (auto simp: attempts_end_def)
        ultimately show ?thesis by (simp add: ends_as_def st)
      qed
    qed
  qed
  moreover have "rc_closure_reports t = rc_closure_reports s" "rc_repair_attempts t = rc_repair_attempts s"
    "rc_verifier_command t = rc_verifier_command s"
    using keepsD [OF ledger.reviews(2) review] keepsD [OF static.reviews(2) review]
    by (simp_all add: ledger_step_def same_run_def)
  ultimately show ?thesis by (rule ends_as_shift)
qed

lemma workflow_outcome:
  assumes "run_real_project_provider_workflow env provider prompt n budget s = (Inr status, s')"
  shows "ends_as env n s status s'"
proof -
  obtain st t where patches: "apply_patches env provider prompt budget s = (Inr st, t)"
    and rest: "(if st = WaitingForApproval then act_return WaitingForApproval
     else act_bind (run_verifier env) (\<lambda>verifier.
       if vr_success verifier then accept_verified env (vr_artifact verifier)
       else repair_or_reject env provider prompt n budget verifier)) t = (Inr status, s')"
    using assms by (auto simp: run_real_project_provider_workflow_def act_bind_ok)
  have led: "rc_closure_reports t = rc_closure_reports s" "rc_repair_attempts t = rc_repair_attempts s"
    "rc_verifier_command t = rc_verifier_command s"
    using keepsD [OF ledger.patches patches] keepsD [OF static.patches patches]
    by (simp_all add: ledger_step_def same_run_def)
  show ?thesis
  proof (cases "st = WaitingForApproval")
    case True
    with apply_patches_status [OF patches] have "has_pending t" by auto
    with True rest led show ?thesis
      by (auto simp: ends_as_def attempts_end_def intro!: exI [of _ 0])
  next
    case False
    with rest obtain v u where ver: "run_verifier env t = (Inr v, u)"
      and end': "(if vr_success v then accept_verified env (vr_artifact v)
        else repair_or_reject env provider prompt n budget v) u = (Inr status, s')"
      by (auto simp: act_bind_ok)
    have led_u: "rc_closure_reports u = rc_closure_reports s" "rc_repair_attempts u = rc_repair_attempts s"
      "rc_verifier_command u = rc_verifier_command s"
      using keepsD [OF ledger.verifier ver] keepsD [OF static.verifier ver] led
      by (simp_all add: ledger_step_def same_run_def)
    have "ends_as env n u status s'"
    proof (cases "vr_success v")
      case True
      have "verified env (resolve_verifier_command env (rc_verifier_command u)) (vr_artifact v) u"
        using run_verifier_verified [OF ver True] led led_u by simp
      with end' True accept_verified_ok [of env "vr_artifact v" u status s'] show ?thesis
        by (auto simp: ends_as_def attempts_end_def intro!: exI [of _ "[]"])
    next
      case failed: False
      with end' repair_or_reject_ok show ?thesis by simp
    qed
    then show ?thesis using led_u by (rule ends_as_shift)
  qed
qed

text \<open>C2: When a real-project run is accepted, the last thing that touched the repository
  was a passing run of the workflow's verifier: no patch was applied after it, with
  confined providers and commands the accepted repository is the very tree it passed on,
  its log is kept as an artifact with its digest, and the one closure report the run added
  says accepted, cites that log and leaves no concern open.\<close>

theorem accepted_means_verified:
  assumes "run_real_project_provider_workflow env provider prompt n budget s = (Inr Accepted, s')"
  shows "\<exists>test_log report.
    verified env (resolve_verifier_command env (rc_verifier_command s)) test_log s'
    \<and> rc_closure_reports s' = rc_closure_reports s @ [report] \<and> cr_verdict report = ''accepted''
    \<and> ar_artifact_id test_log \<in> set (cr_evidence_refs report)
    \<and> cr_unresolved_concerns report = []"
  using workflow_outcome [OF assms] by (simp add: ends_as_def accepted_at_def)


end
