(* ===== verification/Run_Report.thy ===== *)
theory Run_Report
  imports Run_Outcome
begin

text \<open>
  What a run tells its operator, from \<open>crates/ao2-runtime/src/lib.rs\<close>: the health of the
  run, its markers, the provider contract, the evidence pack that \<open>export_evidence_pack\<close>
  writes and the page of \<open>render_static_report\<close>.  The rounded sum of the costs and the
  texts of a time are arguments.
\<close>

subsection \<open>Health\<close>

definition last_verdict :: "run_ctx \<Rightarrow> string" where
  "last_verdict s = (if rc_closure_reports s = [] then ''blocked'' else cr_verdict (last (rc_closure_reports s)))"

definition unresolved_concerns :: "run_ctx \<Rightarrow> string list" where
  "unresolved_concerns s =
     (if rc_closure_reports s = [] then []
      else btree_set (cr_unresolved_concerns (last (rc_closure_reports s))))"

definition repair_status :: "string \<Rightarrow> nat \<Rightarrow> nat \<Rightarrow> nat \<Rightarrow> bool \<Rightarrow> string list \<Rightarrow> string" where
  "repair_status verdict attempts failures acceptances budget_exhausted concerns =
     (if budget_exhausted then ''budget_exhausted''
      else if acceptances > 0 then ''repaired''
      else if failures > 0 then ''repair_failed''
      else if attempts = 0 \<and> verdict = ''accepted'' \<and> concerns = [] then ''clean''
      else if attempts = 0 then ''not_attempted''
      else ''unknown'')"

definition run_health_next_action :: "string \<Rightarrow> bool \<Rightarrow> string" where
  "run_health_next_action repair attention =
     (if \<not> attention then ''No operator action required; keep the signed evidence pack for replay.''
      else if repair = ''budget_exhausted''
        then ''Increase repair budget or revise the provider prompt, then rerun from signed evidence.''
      else if repair = ''repair_failed''
        then ''Open the latest verifier artifact, revise the repair prompt, and rerun.''
      else if repair = ''not_attempted''
        then ''Run a governed repair attempt or close the unresolved concern with evaluator evidence.''
      else ''Review unresolved concerns and verifier artifacts before resuming.'')"

definition run_health_evidence_refs :: "run_ctx \<Rightarrow> string list" where
  "run_health_evidence_refs s =
     btree_set (concat (map cr_evidence_refs (rc_closure_reports s))
       @ concat (map ra_evidence_refs (rc_repair_attempts s)))"

definition run_health_timeline :: "run_env \<Rightarrow> run_ctx \<Rightarrow> json list" where
  "run_health_timeline env s =
     map (\<lambda>r. json_object
       [(''kind'', JString ''closure''), (''verdict'', JString (cr_verdict r)),
        (''unresolved_concerns'', json_string_array (cr_unresolved_concerns r)),
        (''evidence_refs'', json_string_array (cr_evidence_refs r)),
        (''created_at'', JString (re_show_time env (cr_created_at r)))]) (rc_closure_reports s)
     @ map (\<lambda>a. json_object
       [(''kind'', JString ''repair_attempt''), (''attempt'', json_nat (ra_attempt a)),
        (''trigger'', JString (ra_trigger a)), (''status'', JString (ra_status a)),
        (''evidence_refs'', json_string_array (ra_evidence_refs a)),
        (''summary'', JString (ra_summary a)),
        (''created_at'', JString (re_show_time env (ra_created_at a)))]) (rc_repair_attempts s)"

definition attempts_with :: "run_ctx \<Rightarrow> string \<Rightarrow> nat" where
  "attempts_with s status = length (filter (\<lambda>a. ra_status a = status) (rc_repair_attempts s))"

definition budget_spent :: "run_ctx \<Rightarrow> bool" where
  "budget_spent s \<longleftrightarrow> list_ex (\<lambda>a. ra_status a = ''budget_exhausted'') (rc_repair_attempts s)"

definition attempt_count :: "run_ctx \<Rightarrow> nat" where
  "attempt_count s = length (filter (\<lambda>a. ra_attempt a > 0) (rc_repair_attempts s))"

definition run_repair_status :: "run_ctx \<Rightarrow> string" where
  "run_repair_status s =
     repair_status (last_verdict s) (attempt_count s) (attempts_with s ''failed'')
       (attempts_with s ''accepted'') (budget_spent s) (unresolved_concerns s)"

definition attention_required :: "run_ctx \<Rightarrow> bool" where
  "attention_required s \<longleftrightarrow>
     last_verdict s \<noteq> ''accepted'' \<or> budget_spent s
     \<or> unresolved_concerns s \<noteq> [] \<and> attempts_with s ''accepted'' = 0"

definition run_health :: "run_env \<Rightarrow> run_ctx \<Rightarrow> json" where
  "run_health env s = json_object
     [(''schema_version'', JString ''ao2.run-health.v1''),
      (''verdict'', JString (last_verdict s)),
      (''repair_status'', JString (run_repair_status s)),
      (''repair_attempt_count'', json_nat (attempt_count s)),
      (''failed_repair_attempts'', json_nat (attempts_with s ''failed'')),
      (''accepted_repair_attempts'', json_nat (attempts_with s ''accepted'')),
      (''budget_exhausted'', JBool (budget_spent s)),
      (''unresolved_concerns'', json_string_array (unresolved_concerns s)),
      (''attention_required'', JBool (attention_required s)),
      (''next_action'', JString (run_health_next_action (run_repair_status s) (attention_required s))),
      (''evidence_refs'', json_string_array (run_health_evidence_refs s)),
      (''timeline'', JArray (run_health_timeline env s))]"

definition run_markers :: "run_ctx \<Rightarrow> string list" where
  "run_markers s =
     ''policy_denied_git_push''
     # (if is_real_project_template s then [''real_project_template''] else [])
     @ (if \<exists>r \<in> set (rc_closure_reports s). ''review_missing_tests'' \<in> set (cr_unresolved_concerns r)
        then [''review_missing_tests''] else [])
     @ (if \<exists>r \<in> set (rc_closure_reports s). ''verifier_failed'' \<in> set (cr_unresolved_concerns r)
        then [''verifier_failed''] else [])
     @ (if budget_spent s then [''repair_budget_exhausted''] else [])
     @ (if \<exists>a \<in> set (rc_artifacts s). ar_artifact_type a = ''repair_source_context''
        then [''repair_source_context''] else [])"

subsection \<open>The provider contract\<close>

definition array_length :: "json \<Rightarrow> string \<Rightarrow> nat" where
  "array_length v k = (case Option.bind (json_get v k) as_array of None \<Rightarrow> 0 | Some vs \<Rightarrow> length vs)"

definition usage_of :: "json \<Rightarrow> string \<Rightarrow> 64 word" where
  "usage_of v k = (case json_get v ''usage'' of None \<Rightarrow> 0 | Some usage \<Rightarrow> usage_count usage k)"

definition contract_types :: "string list" where
  "contract_types = [''provider_prompt_transcript'', ''provider_transcript_summary'',
     ''sandbox_patch_preview'', ''sandbox_patch_apply'', ''patch_summary'']"

definition contract_requirements :: "run_ctx \<Rightarrow> json list \<Rightarrow> (string \<times> bool) list" where
  "contract_requirements s summaries =
     (let types = map ar_artifact_type (rc_artifacts s);
          observed = (summaries \<noteq> [] \<or> ''provider_prompt_transcript'' \<in> set types
            \<or> ''provider_transcript_summary'' \<in> set types)
      in [(''evidence'', \<exists>a \<in> set (rc_artifacts s). ar_artifact_type a \<in> set contract_types),
          (''concerns'', observed), (''blockers'', observed),
          (''changed_files'', \<exists>v \<in> set summaries. \<exists>path \<in> set (strings_of (json_get v ''changed_files'')). trim path \<noteq> []),
          (''sandbox'', ''sandbox_patch_preview'' \<in> set types \<and> ''sandbox_patch_apply'' \<in> set types),
          (''secret_redaction'', ''provider_prompt_transcript'' \<in> set types)])"

definition provider_contract_summary :: "run_env \<Rightarrow> run_ctx \<Rightarrow> json list \<Rightarrow> json" where
  "provider_contract_summary env s summaries =
     (let requirements = contract_requirements s summaries;
          observed = (the (map_of requirements ''concerns''));
          costs = List.map_filter (\<lambda>v. Option.bind (json_get v ''cost_usd'') as_number) summaries
      in json_object
       [(''schema_version'', JString ''ao2.provider-adapter-contract.v1''),
        (''status'', JString (if observed then ''observed'' else ''not_applicable'')),
        (''fulfilled'', JBool (observed \<longrightarrow> list_all snd requirements)),
        (''required_contract_fields'', json_string_array
          [''evidence'', ''concerns'', ''blockers'', ''changed_files'', ''sandbox'', ''secret_redaction'']),
        (''requirements'', json_object (map (\<lambda>(k, b). (k, JBool b)) requirements)),
        (''provider_summary_count'', json_nat (length summaries)),
        (''providers'', json_string_array (btree_set (List.map_filter (\<lambda>v. get_str v ''provider'') summaries))),
        (''cost'', json_object
          [(''observed_cost_usd'', JNumber (re_round_cost env costs)),
           (''reported_summary_count'', json_nat (length costs)),
           (''provider_summary_count'', json_nat (length summaries)),
           (''input_tokens'', json_nat (unat (sum_list (map (\<lambda>v. usage_of v ''input_tokens'') summaries)))),
           (''output_tokens'', json_nat (unat (sum_list (map (\<lambda>v. usage_of v ''output_tokens'') summaries)))),
           (''total_tokens'', json_nat (unat (sum_list (map usage_tokens summaries))))]),
        (''changed_files'', json_string_array (btree_set (concat (map
          (\<lambda>v. filter (\<lambda>path. trim path \<noteq> []) (strings_of (json_get v ''changed_files''))) summaries)))),
        (''concern_count'', json_nat (sum_list (map (\<lambda>v. array_length v ''concerns'') summaries))),
        (''blocker_count'', json_nat (sum_list (map (\<lambda>v. array_length v ''blockers'') summaries))),
        (''evidence_refs'', json_string_array (map ar_artifact_id
          (filter (\<lambda>a. ar_artifact_type a \<in> set contract_types) (rc_artifacts s)))),
        (''secret_redaction_contract'', JString ''adapter command/stdout/stderr/transcript artifacts are stored only after redaction; provider API-key auth is rejected before execution''),
        (''factory_v3_role'', JString ''parity_oracle_only''),
        (''owner'', JString ''ao2-provider-adapter-contract'')])"

subsection \<open>The evidence pack\<close>

definition evidence_pack_json :: "run_env \<Rightarrow> run_ctx \<Rightarrow> json list \<Rightarrow> json list \<Rightarrow> json" where
  "evidence_pack_json env s summaries sources = json_object
     [(''schema_version'', JString ''ao2.evidence-pack.v1''), (''run_id'', JString (rc_run_id s)),
      (''workflow_id'', JString (rc_workflow_id s)),
      (''template_kind'', json_opt_str (rc_template_kind s)),
      (''objective'', JString (rc_objective s)),
      (''verifier_command'', JString (rc_verifier_command s)),
      (''verdict'', JString (last_verdict s)), (''roles'', json_string_array (rc_roles s)),
      (''workflow_tasks'', JArray (rc_workflow_tasks s)),
      (''workflow_dependencies'', JArray (rc_workflow_dependencies s)),
      (''factory_v3_compatibility'', (case rc_compatibility s of None \<Rightarrow> JNull | Some v \<Rightarrow> v)),
      (''runtime_contract'', json_object
        [(''execution_owner'', JString ''ao2''), (''factory_v3_role'', JString ''parity_oracle_only''),
         (''factory_v3_drives_workflow'', JBool False),
         (''provider_adapter_contract'', provider_contract_summary env s summaries)]),
      (''policy_decisions'', JArray (map (policy_decision_json (re_show_time env)) (rc_policy_decisions s))),
      (''approvals'', JArray (map (approval_ticket_json (re_show_time env)) (rc_approvals s))),
      (''artifacts'', JArray (map artifact_ref_json (rc_artifacts s))),
      (''provider_summaries'', JArray summaries),
      (''repair_source'', (if sources = [] then JNull else last sources)),
      (''closures'', JArray (map (closure_report_json (re_show_time env)) (rc_closure_reports s))),
      (''repair_attempts'', JArray (map (repair_attempt_json (re_show_time env)) (rc_repair_attempts s))),
      (''run_health'', run_health env s), (''markers'', json_string_array (run_markers s))]"

definition export_evidence_pack :: "run_env \<Rightarrow> unit run_act" where
  "export_evidence_pack env =
     act_bind get_ctx (\<lambda>s.
     act_bind (io_call env (''create dir '' @ path_join (rc_run_dir s) ''evidence-pack'')) (\<lambda>_.
     act_bind (artifact_json_payloads env ''provider_transcript_summary'') (\<lambda>summaries.
     act_bind (artifact_json_payloads env ''repair_source_context'') (\<lambda>sources.
     act_bind (act_lift (re_pretty env (evidence_pack_json env s summaries sources))) (\<lambda>content.
     act_bind (io_call env (''write '' @ evidence_pack_path s)) (\<lambda>_.
       write_file (evidence_pack_path s) content))))))"

subsection \<open>The report page\<close>

definition escape_html :: "string \<Rightarrow> string" where
  "escape_html v =
     replace_byte CHR 0x27 ''&#39;'' (replace_byte CHR 0x22 ''&quot;'' (replace_byte CHR ''>'' ''&gt;''
       (replace_byte CHR ''<'' ''&lt;'' (replace_byte CHR ''&'' ''&amp;'' v))))"

definition list_item :: "string \<Rightarrow> string" where
  "list_item v = ''<li>'' @ escape_html v @ ''</li>''"

definition html_list :: "string list \<Rightarrow> string \<Rightarrow> string" where
  "html_list items empty_message =
     (if items = [] then list_item empty_message else join nl (map list_item items))"

definition closure_item :: "run_env \<Rightarrow> closure_report \<Rightarrow> string" where
  "closure_item env r =
     ''<li><strong>'' @ escape_html (cr_verdict r) @ ''</strong> at ''
     @ re_display_time env (cr_created_at r) @ '' evidence=[''
     @ escape_html (join '', '' (cr_evidence_refs r)) @ ''] blockers=[''
     @ escape_html (join '', '' (cr_blockers r)) @ ''] unresolved=[''
     @ escape_html (join '', '' (cr_unresolved_concerns r)) @ '']</li>''"

definition text_or_none :: "string option \<Rightarrow> string" where
  "text_or_none v = (case v of None \<Rightarrow> ''none'' | Some t \<Rightarrow> t)"

definition policy_item :: "policy_decision \<Rightarrow> string" where
  "policy_item d =
     pd_decision_id d @ '': '' @ pd_decision d @ '' '' @ pd_action d @ '' on '' @ pd_resource d
     @ '' reason='' @ pd_reason d @ '' digest='' @ pd_request_digest d @ '' policy=''
     @ pd_policy_version d @ '' approval_ticket='' @ text_or_none (pd_approval_ticket_id d)"

definition approval_item :: "approval_ticket \<Rightarrow> string" where
  "approval_item t =
     tk_ticket_id t @ '': '' @ tk_status t @ '' action='' @ tk_requested_action t @ '' digest=''
     @ tk_action_digest t @ '' risk='' @ tk_risk_class t @ '' scope='' @ tk_scope t
     @ '' approver='' @ text_or_none (tk_approver t)"

definition artifact_item :: "artifact_ref \<Rightarrow> string" where
  "artifact_item a =
     ar_artifact_id a @ '': '' @ ar_artifact_type a @ '' uri='' @ ar_uri a @ '' media_type=''
     @ ar_media_type a @ '' digest='' @ ar_digest a @ '' producer='' @ ar_producer a"

definition report_criteria :: "run_ctx \<Rightarrow> string list" where
  "report_criteria s =
     (let results = (if rc_closure_reports s = [] then []
            else cr_acceptance_criteria_results (last (rc_closure_reports s)))
      in if results \<noteq> [] then results
         else if rc_acceptance s \<noteq> [] then rc_acceptance s
         else [''verifier command passes'', ''patch stays scoped to the workflow objective'',
               ''replay has zero digest failures''])"

definition health_bool_or :: "json \<Rightarrow> string \<Rightarrow> bool \<Rightarrow> bool" where
  "health_bool_or v k d = (case json_get v k of Some (JBool b) \<Rightarrow> b | _ \<Rightarrow> d)"

definition bool_text :: "bool \<Rightarrow> string" where
  "bool_text b = (if b then ''true'' else ''false'')"

definition denied_actions :: "policy_decision list \<Rightarrow> policy_decision list" where
  "denied_actions ds = filter (\<lambda>d. pd_decision d = ''deny'' \<or> pd_decision d = ''requires_approval'') ds"

text \<open>A heading with its list.\<close>

definition html_section :: "string \<Rightarrow> string \<Rightarrow> string list" where
  "html_section title items = [''<h2>'' @ title @ ''</h2>'', ''<ul>'', items, ''</ul>'']"

definition report_html :: "run_env \<Rightarrow> run_ctx \<Rightarrow> string" where
  "report_html env s =
     (let health = run_health env s; run_id = escape_html (rc_run_id s);
          evidence = escape_html (evidence_pack_path s)
      in join nl (
       [''<!doctype html>'', ''<html>'',
        ''<head><meta charset=\"utf-8\"><title>AO2 Risky PR Run '' @ run_id @ ''</title></head>'',
        ''<body>'', ''<h1>AO2 Risky PR Run</h1>'',
        ''<p><strong>Run:</strong> '' @ run_id @ ''</p>'',
        ''<p><strong>Workflow:</strong> '' @ escape_html (rc_workflow_id s) @ ''</p>'',
        ''<p><strong>Objective:</strong> '' @ escape_html (rc_objective s) @ ''</p>'',
        ''<p><strong>Verifier Command:</strong> '' @ escape_html (rc_verifier_command s) @ ''</p>'',
        ''<p><strong>Final verdict:</strong> '' @ escape_html (last_verdict s) @ ''</p>'']
       @ html_section ''Roles'' (html_list (rc_roles s) ''no roles declared'')
       @ html_section ''Acceptance Criteria''
           (html_list (report_criteria s) ''no acceptance criteria recorded'')
       @ [''<h2>Run Health</h2>'',
          ''<p><strong>Health verdict:</strong> '' @ escape_html (get_str_or health ''verdict'' ''blocked'') @ ''</p>'',
          ''<p><strong>Repair status:</strong> '' @ escape_html (get_str_or health ''repair_status'' ''unknown'') @ ''</p>'',
          ''<p><strong>Attention required:</strong> '' @ bool_text (health_bool_or health ''attention_required'' True) @ ''</p>'',
          ''<p><strong>Next Operator Action:</strong> ''
            @ escape_html (get_str_or health ''next_action'' ''Review the evidence pack before resuming.'') @ ''</p>'',
          ''<h2>Timeline</h2>'', ''<ul>'', ''<li>Workflow compiled.</li>'',
          ''<li>Risky git push denied before execution.</li>'',
          ''<li>Narrow file write approved by exact digest.</li>'',
          ''<li>First closure rejected for review_missing_tests.</li>'',
          ''<li>Correction added tests.</li>'', ''<li>Final closure accepted.</li>'', ''</ul>'',
          ''<h2>Governance</h2>'',
          ''<p>Denied or approval-required actions: ''
            @ show_nat (length (denied_actions (rc_policy_decisions s))) @ ''</p>'',
          ''<p>Approvals granted: '' @ show_nat (length (rc_approvals s)) @ ''</p>'']
       @ html_section ''Policy Decisions''
           (html_list (map policy_item (rc_policy_decisions s)) ''no policy decisions recorded'')
       @ html_section ''Approval Tickets''
           (html_list (map approval_item (rc_approvals s)) ''no approval tickets recorded'')
       @ html_section ''Artifacts''
           (html_list (map artifact_item (rc_artifacts s)) ''no artifacts recorded'')
       @ [''<h2>Evidence</h2>'', ''<p>Evidence pack: '' @ evidence @ ''</p>'',
          ''<h2>Local Run Record</h2>'',
          ''<p>Run record: '' @ escape_html (path_join (rc_run_dir s) ''run-record.json'') @ ''</p>'',
          ''<h2>Static Export Evidence</h2>'', ''<p>Evidence pack export: '' @ evidence @ ''</p>'',
          ''<p>Report artifact: '' @ escape_html (report_path s) @ ''</p>'']
       @ html_section ''Evaluator Closure Evidence''
           (join nl (map (closure_item env) (rc_closure_reports s)))
       @ [''<h2>Replay Evidence</h2>'',
          ''<p>Replay source: '' @ escape_html (events_path s) @ ''</p>'', ''</body>'', ''</html>'', []]))"

definition render_static_report :: "run_env \<Rightarrow> unit run_act" where
  "render_static_report env =
     act_bind get_ctx (\<lambda>s.
     act_bind (io_call env (''create dir '' @ path_join (rc_run_dir s) ''report'')) (\<lambda>_.
     act_bind (io_call env (''write '' @ report_path s)) (\<lambda>_.
       write_file (report_path s) (report_html env s))))"

subsection \<open>Health and outcome\<close>

lemma failed_from_status: "failed_from k fs \<Longrightarrow> a \<in> set fs \<Longrightarrow> ra_status a = ''failed'' \<and> ra_attempt a \<ge> k"
  by (induction fs arbitrary: k) fastforce+

lemma failed_from_counts:
  assumes "failed_from k fs" and "0 < k"
  shows "filter (\<lambda>a. ra_status a = ''failed'') fs = fs" "filter (\<lambda>a. ra_status a = ''accepted'') fs = []"
    "filter (\<lambda>a. ra_attempt a > 0) fs = fs" "\<not> list_ex (\<lambda>a. ra_status a = ''budget_exhausted'') fs"
  using failed_from_status [OF assms(1)] assms(2)
  by (fastforce intro!: filter_True filter_False simp: list_ex_iff)+


subsection \<open>The markup of the report\<close>

definition markup :: "string \<Rightarrow> string" where
  "markup s = filter (\<lambda>c. c = CHR ''<'' \<or> c = CHR ''>'') s"

lemma markup_simps [simp]:
  "markup [] = []" "markup (a @ b) = markup a @ markup b"
  "markup (c # s) = (if c = CHR ''<'' \<or> c = CHR ''>'' then c # markup s else markup s)"
  by (simp_all add: markup_def)

lemma markup_replace:
  assumes "x = CHR ''<'' \<or> x = CHR ''>''" and "markup r = []"
  shows "markup (replace_byte x r v) = filter (\<lambda>c. c \<noteq> x) (markup v)"
  using assms by (induction v) (auto simp: replace_byte_def markup_def)

lemma markup_replace_other:
  assumes "x \<noteq> CHR ''<''" "x \<noteq> CHR ''>''" and "markup r = []"
  shows "markup (replace_byte x r v) = markup v"
  using assms by (induction v) (auto simp: replace_byte_def markup_def)

lemma markup_escaped [simp]: "markup (escape_html v) = []"
proof -
  have "markup (escape_html v) = filter (\<lambda>c. c \<noteq> CHR ''>'') (filter (\<lambda>c. c \<noteq> CHR ''<'') (markup v))"
    unfolding escape_html_def by (simp add: markup_replace markup_replace_other)
  then show ?thesis by (auto simp: markup_def filter_empty_conv)
qed

lemma markup_join: "markup (join sep xs) = join (markup sep) (map markup xs)"
  by (induction sep xs rule: join.induct) auto

lemma join_empty: "join [] xs = concat xs"
  by (induction "[] :: string" xs rule: join.induct) auto

lemma markup_nat [simp]: "markup (show_nat n) = []"
proof (induction n rule: show_nat.induct)
  case (1 n)
  have digit: "markup [''0123456789'' ! k] = []" if "k < 10" for k
  proof -
    have "''0123456789'' ! k \<in> set ''0123456789''" using that by (intro nth_mem) simp
    then show ?thesis by (auto simp: markup_def)
  qed
  show ?case using 1 digit [of n] digit [of "n mod 10"] by (subst show_nat.simps) auto
qed

lemma markup_list: "markup (html_list items m) = concat (replicate (max 1 (length items)) (markup ''<li></li>''))"
proof -
  have item: "markup (list_item v) = markup ''<li></li>''" for v by (simp add: list_item_def)
  have "markup nl = []" by (simp add: nl_def)
  then have "markup (join nl (map list_item items)) = concat (replicate (length items) (markup ''<li></li>''))"
    by (induction items) (simp_all add: markup_join join_empty item)
  then show ?thesis by (cases items) (simp_all add: html_list_def item)
qed

lemma markup_closures:
  assumes "\<And>time. markup (re_display_time env time) = []"
  shows "markup (join nl (map (closure_item env) rs))
    = concat (replicate (length rs) (markup ''<li><strong></strong></li>''))"
proof -
  have "markup (closure_item env r) = markup ''<li><strong></strong></li>''" for r
    by (simp add: closure_item_def assms)
  moreover have "markup nl = []" by (simp add: nl_def)
  ultimately show ?thesis by (induction rs) (simp_all add: markup_join join_empty)
qed

text \<open>Nothing in a run can add markup to its report: when the text of a time has no angle
  bracket, two runs with as many roles, criteria, policy decisions, approval tickets,
  artifacts and closures have reports with the same angle brackets in the same order,
  whatever their ids, objectives, commands, reasons, paths and verdicts say.\<close>

theorem report_markup_is_fixed:
  assumes "\<And>time. markup (re_display_time env time) = []"
    and "length (rc_roles s) = length (rc_roles u)"
    and "length (report_criteria s) = length (report_criteria u)"
    and "length (rc_policy_decisions s) = length (rc_policy_decisions u)"
    and "length (rc_approvals s) = length (rc_approvals u)"
    and "length (rc_artifacts s) = length (rc_artifacts u)"
    and "length (rc_closure_reports s) = length (rc_closure_reports u)"
  shows "markup (report_html env s) = markup (report_html env u)"
proof -
  have sections: "map markup (html_section title items) = map markup (html_section title items')"
    if "markup items = markup items'" for title items items'
    using that by (simp add: html_section_def)
  have bool: "markup (bool_text b) = []" for b by (simp add: bool_text_def markup_def)
  show ?thesis
    unfolding report_html_def Let_def markup_join map_append
    by (intro arg_cong2 [where f = join] arg_cong2 [where f = append] sections refl)
      (simp_all add: markup_list markup_closures assms bool)
qed

text \<open>The timeline of the page is fixed text: it says that the closure was accepted whatever happened.\<close>

lemma contains_join_mem:
  assumes "x \<in> set xs"
  shows "contains (join sep xs) x"
proof -
  obtain ys zs where "xs = ys @ [x] @ zs" using assms by (auto dest: split_list)
  then show ?thesis using contains_join_part [where xs = ys and ys = "[x]" and zs = zs and sep = sep] by simp
qed

lemma report_always_says_accepted: "contains (report_html env s) ''<li>Final closure accepted.</li>''"
  unfolding report_html_def Let_def by (rule contains_join_mem) simp

end
