(* ===== verification/Run_Free.thy ===== *)
theory Run_Free
  imports Run_Outcome
begin

text \<open>
  Runs without a provider in \<open>crates/ao2-runtime/src/lib.rs\<close>: the local commands of a task,
  which must pass the command policy, the provider-free workflow of a real project, and the
  fixed patches of the demonstration template.  What \<open>fs::write\<close> does to the repository is
  an argument.
\<close>

subsection \<open>The command policy\<close>

definition default_denied :: "string list" where
  "default_denied =
     [''git push'', ''git tag'', ''gh release'', ''npm publish'', ''cargo publish'', ''twine upload'',
      ''curl '', ''wget '', ''scp '', ''ssh '', ''rsync '']"

definition task_list_item :: "string \<Rightarrow> nat \<Rightarrow> string" where
  "task_list_item field index = ''provider_free.'' @ field @ ''['' @ show_nat index @ '']''"

definition blocked_by :: "run_env \<Rightarrow> string \<Rightarrow> string \<Rightarrow> bool" where
  "blocked_by env command pattern \<longleftrightarrow> contains (re_lower env command) (re_lower env pattern)"

definition validate_provider_free_command :: "run_env \<Rightarrow> nat \<Rightarrow> string \<Rightarrow> string list \<Rightarrow> unit rresult" where
  "validate_provider_free_command env index command patterns =
     (if list_ex (contains (re_lower env command)) default_denied
      then Inl (task_list_item ''commands'' index @ '' is not allowed by provider-free local policy: '' @ command)
      else first_err (map (\<lambda>(i, pattern). bail_if (blocked_by env command pattern)
        (task_list_item ''policy.denied_patterns'' i @ '' blocked '' @ task_list_item ''commands'' index
          @ '': '' @ command)) (enumerate 0 patterns)))"

text \<open>The entries of an array of texts, trimmed, none of them empty.\<close>

definition text_entry :: "string \<Rightarrow> nat \<Rightarrow> json \<Rightarrow> string rresult" where
  "text_entry field index v =
     (case map_option trim (as_str v) of
        Some t \<Rightarrow> (if t = [] then Inl (task_list_item field index @ '' must be a non-empty string'') else Inr t)
      | None \<Rightarrow> Inl (task_list_item field index @ '' must be a non-empty string''))"

definition provider_free_denied_patterns :: "json \<Rightarrow> string list rresult" where
  "provider_free_denied_patterns provider_free =
     (case Option.bind (json_get provider_free ''policy'') (\<lambda>policy. json_get policy ''denied_patterns'') of
        None \<Rightarrow> Inr []
      | Some patterns \<Rightarrow>
          rbind (with_context ''provider_free.policy.denied_patterns must be an array'' (as_array patterns)) (\<lambda>vs.
            map_result (\<lambda>(i, v). text_entry ''policy.denied_patterns'' i v) (enumerate 0 vs)))"

definition checked_command :: "run_env \<Rightarrow> string list \<Rightarrow> nat \<times> json \<Rightarrow> string rresult" where
  "checked_command env patterns entry =
     rbind (text_entry ''commands'' (fst entry) (snd entry)) (\<lambda>command.
     rbind (validate_provider_free_command env (fst entry) command patterns) (\<lambda>_. Inr command))"

definition provider_free_task_commands :: "run_env \<Rightarrow> json \<Rightarrow> string list rresult" where
  "provider_free_task_commands env task =
     (case json_get task ''provider_free'' of
        None \<Rightarrow> Inr []
      | Some provider_free \<Rightarrow>
          (case Option.bind (json_get provider_free ''commands'') as_array of
             None \<Rightarrow> Inr []
           | Some commands \<Rightarrow>
               rbind (provider_free_denied_patterns provider_free) (\<lambda>patterns.
                 map_result (checked_command env patterns) (enumerate 0 commands))))"

subsection \<open>Running the commands\<close>

definition command_log :: "run_env \<Rightarrow> string \<Rightarrow> nat \<Rightarrow> string \<Rightarrow> verifier_output \<Rightarrow> json" where
  "command_log env task_id index command out = json_object
     [(''schema_version'', JString ''ao2.provider-free-command-log.v1''), (''task_id'', JString task_id),
      (''command_index'', json_nat index), (''command'', JString command),
      (''exit_code'', json_int (vo_code out)), (''stdout'', JString (re_lossy env (vo_stdout out))),
      (''stderr'', JString (re_lossy env (vo_stderr out))), (''success'', JBool (vo_success out))]"

fun run_commands :: "run_env \<Rightarrow> string \<Rightarrow> nat \<Rightarrow> string list \<Rightarrow> string list run_act" where
  "run_commands env task_id index [] = act_return []"
| "run_commands env task_id index (raw # raws) =
     (let command = resolve_verifier_command env raw in
     act_bind (emit env ''task.started'' (Some task_id) (Some task_id) (actor_role task_id)
       (json_object [(''provider_free'', JBool True), (''command_index'', json_nat index),
         (''command'', JString command)])) (\<lambda>_.
     act_bind (run_command env False command
       (''run provider-free command for '' @ task_id @ '': '' @ command)) (\<lambda>out.
     act_bind (put_json env ''provider_free_command_log'' task_id
       (replace_byte CHR ''/'' ''_'' task_id @ ''-provider-free-command-'' @ show_nat (index + 1) @ ''.json'')
       (command_log env task_id index command out) []) (\<lambda>a.
     act_bind (emit env (if vo_success out then ''task.completed'' else ''task.failed'')
       (Some task_id) (Some task_id) (actor_role task_id)
       (json_object [(''provider_free'', JBool True), (''command_index'', json_nat index),
         (''command'', JString command), (''exit_code'', json_int (vo_code out)),
         (''artifact'', JString (ar_artifact_id a))])) (\<lambda>_.
     if \<not> vo_success out
     then act_lift (Inl (''provider-free command failed for '' @ task_id @ '': '' @ command))
     else
     act_bind (run_commands env task_id (Suc index) raws) (\<lambda>ids. act_return (ar_artifact_id a # ids)))))))"

definition run_provider_free_task_commands :: "run_env \<Rightarrow> json \<Rightarrow> string \<Rightarrow> string list run_act" where
  "run_provider_free_task_commands env task task_id =
     act_bind (act_lift (provider_free_task_commands env task)) (\<lambda>commands.
       run_commands env task_id 0 commands)"

definition record_task :: "run_env \<Rightarrow> json \<Rightarrow> unit run_act" where
  "record_task env task =
     act_bind (act_lift (sdd_task_id task)) (\<lambda>task_id.
     act_bind (emit env ''role.started'' (Some task_id) (Some task_id) (actor_role task_id)
       (json_object [(''status'', JString ''started''), (''provider_free'', JBool True)])) (\<lambda>_.
     act_bind (run_provider_free_task_commands env task task_id) (\<lambda>logs.
     act_bind (put_json env ''provider_free_task_summary'' task_id (task_id @ ''-provider-free-summary.json'')
       (json_object [(''task_id'', JString task_id), (''status'', JString ''completed''),
         (''changed_files'', JArray []), (''provider_free'', JBool True),
         (''command_log_artifacts'', json_string_array logs),
         (''summary'', JString ''AO2 provider-free SDD task recorded without applying fixture-specific repository patches.'')])
       logs) (\<lambda>summary.
     emit env ''role.completed'' (Some task_id) (Some task_id) (actor_role task_id)
       (json_object [(''status'', JString ''completed''), (''changed_files'', JArray []),
         (''provider_free'', JBool True), (''command_log_artifacts'', json_string_array logs),
         (''artifact'', JString (ar_artifact_id summary))])))))"

fun record_tasks :: "run_env \<Rightarrow> json list \<Rightarrow> unit run_act" where
  "record_tasks env [] = act_return ()"
| "record_tasks env (t # ts) = act_bind (record_task env t) (\<lambda>_. record_tasks env ts)"

definition free_tasks :: "run_ctx \<Rightarrow> json list rresult" where
  "free_tasks s = rbind (task_order_of s) (\<lambda>order. Inr (case order of None \<Rightarrow> [] | Some ts \<Rightarrow> ts))"

definition record_provider_free_real_project_tasks :: "run_env \<Rightarrow> unit run_act" where
  "record_provider_free_real_project_tasks env =
     act_bind get_ctx (\<lambda>s.
     act_bind (act_lift (free_tasks s)) (\<lambda>tasks.
     if tasks = [] then
       act_bind (emit env ''role.started'' (Some ''implementer'') (Some ''real_project_provider_free'')
         (actor_role ''implementer'') (json_object [(''status'', JString ''started'')])) (\<lambda>_.
       emit env ''role.completed'' (Some ''implementer'') (Some ''real_project_provider_free'')
         (actor_role ''implementer'') (json_object [(''status'', JString ''completed''),
           (''changed_files'', JArray []), (''provider_free'', JBool True)]))
     else record_tasks env tasks))"

definition run_real_project_provider_free_workflow :: "run_env \<Rightarrow> unit run_act" where
  "run_real_project_provider_free_workflow env =
     act_bind (record_provider_free_real_project_tasks env) (\<lambda>_.
     act_bind (run_verifier env) (\<lambda>verifier.
     if \<not> vr_success verifier then
       act_bind (reviewer_verifier_failure env (vr_artifact verifier)) (\<lambda>review.
       act_bind (reject_real_project_verifier_failure env review (vr_artifact verifier)) (\<lambda>_.
         act_lift (Inl (''verifier failed: '' @ vr_content verifier))))
     else
       act_bind (reviewer_accept_real_project env (vr_artifact verifier)) (\<lambda>review.
       accept_real_project_final env (vr_artifact verifier) review)))"

subsection \<open>The demonstration template\<close>

text \<open>\<open>fs::write\<close> into the repository.\<close>

definition write_repo :: "run_env \<Rightarrow> string \<Rightarrow> string \<Rightarrow> string \<Rightarrow> unit run_act" where
  "write_repo env path content msg =
     act_bind draw (\<lambda>k s. case re_write env k path content (dk_target (rc_disk s)) of
       (ok, tree) \<Rightarrow> (bail_if (\<not> ok) (msg @ path_join (rc_target_repo s) path),
         s\<lparr>rc_disk := (rc_disk s)\<lparr>dk_target := tree\<rparr>, rc_trace := rc_trace s @ [RepoWritten path]\<rparr>))"

definition discount_module :: string where
  "discount_module = join nl
     [''def calculate_discount(price: float, discount_rate: float) -> float:'',
      ''    if price < 0:'', ''        raise ValueError(\"price must be non-negative\")'',
      ''    if discount_rate < 0 or discount_rate > 1:'',
      ''        raise ValueError(\"discount_rate must be between 0 and 1\")'',
      ''    return price * (1 - discount_rate)'', []]"

definition discount_tests :: string where
  "discount_tests = join nl
     [''import pytest'', [], ''from discount_service.discounts import calculate_discount'', [], [],
      ''def test_calculates_discount_for_valid_values():'',
      ''    assert calculate_discount(100, 0.25) == 75'', [], [],
      ''def test_rejects_negative_price():'', ''    with pytest.raises(ValueError):'',
      ''        calculate_discount(-1, 0.1)'', [], [],
      ''def test_rejects_discount_rate_below_zero():'', ''    with pytest.raises(ValueError):'',
      ''        calculate_discount(100, -0.1)'', [], [],
      ''def test_rejects_discount_rate_above_one():'', ''    with pytest.raises(ValueError):'',
      ''        calculate_discount(100, 1.1)'', []]"

definition scripted_adapter_result :: "string \<Rightarrow> string \<Rightarrow> json" where
  "scripted_adapter_result role_id transcript = json_object
     [(''provider'', JString ''scripted''), (''role_id'', JString role_id),
      (''command'', JString ''scripted://deterministic-role''), (''exit_code'', json_nat 0),
      (''stdout'', JString []), (''stderr'', JString []), (''transcript'', JString transcript),
      (''blocker'', JNull)]"

definition record_scripted_adapter_transcript :: "run_env \<Rightarrow> unit run_act" where
  "record_scripted_adapter_transcript env =
     (let result = scripted_adapter_result ''implementer''
        ''scripted implementer adapter executed after policy approval; wrote validation patch under repo-write-no-network scope'' in
     act_bind (put_json env ''adapter_transcript'' ''implementer'' ''adapter-transcript.json'' result []) (\<lambda>_.
     emit env ''adapter.completed'' (Some ''implementer'') (Some ''scripted_adapter_transcript'')
       (actor_role ''implementer'') result))"

definition apply_first_patch :: "run_env \<Rightarrow> unit run_act" where
  "apply_first_patch env =
     act_bind (emit env ''role.started'' (Some ''implementer'') (Some ''implementer_first_patch'')
       (actor_role ''implementer'') (json_object [(''status'', JString ''started'')])) (\<lambda>_.
     act_bind (write_repo env ''discount_service/discounts.py'' discount_module ''write first patch '') (\<lambda>_.
     act_bind (record_scripted_adapter_transcript env) (\<lambda>_.
     act_bind (put_artifact env ''patch_summary'' ''implementer'' ''first-patch.md'' ''text/markdown''
       ''Updated `discount_service/discounts.py` with validation. Tests were not updated in this pass.'' []) (\<lambda>_.
     emit env ''role.completed'' (Some ''implementer'') (Some ''implementer_first_patch'')
       (actor_role ''implementer'') (json_object [(''status'', JString ''completed''),
         (''concerns'', JArray []), (''blockers'', JArray [])])))))"

definition apply_correction_patch :: "run_env \<Rightarrow> unit run_act" where
  "apply_correction_patch env =
     act_bind (write_repo env ''tests/test_discounts.py'' discount_tests ''write correction tests '') (\<lambda>_.
     act_bind (put_artifact env ''patch_summary'' ''implementer'' ''correction-patch.md'' ''text/markdown''
       ''Added tests resolving `review_missing_tests`.'' []) (\<lambda>_. act_return ()))"

fun rejection_loop :: "run_env \<Rightarrow> nat \<Rightarrow> artifact_ref \<Rightarrow> nat \<Rightarrow> nat \<Rightarrow> artifact_ref option run_act" where
  "rejection_loop env max_attempts review attempt 0 =
     act_bind (record_repair_budget_exhausted env ''verifier_failed'' review) (\<lambda>_. act_return None)"
| "rejection_loop env max_attempts review attempt (Suc remaining) =
     act_bind (emit env ''repair.attempt.started'' (Some ''implementer'')
       (Some ''repair_after_reviewer_rejection'') (actor_role ''implementer'')
       (json_object [(''attempt'', json_nat attempt), (''trigger'', JString ''review_missing_tests''),
         (''max_attempts'', json_nat max_attempts)])) (\<lambda>_.
     act_bind (apply_correction_patch env) (\<lambda>_.
     act_bind (run_verifier env) (\<lambda>verifier.
     let evidence = [ar_artifact_id review, ar_artifact_id (vr_artifact verifier)] in
     if vr_success verifier
     then act_bind (report_attempt env attempt ''review_missing_tests'' ''accepted'' evidence
         ''Applied repair after reviewer rejection and verifier passed.''
         ''repair.attempt.completed'' ''implementer'' ''repair_after_reviewer_rejection'')
       (\<lambda>_. act_return (Some (vr_artifact verifier)))
     else act_bind (report_attempt env attempt ''verifier_failed'' ''failed'' evidence
         (''Verifier failed during repair attempt '' @ show_nat attempt @ ''.'')
         ''repair.attempt.failed'' ''test-engineer'' ''repair_verifier_failed'')
       (\<lambda>_. rejection_loop env max_attempts review (Suc attempt) remaining))))"

definition run_repair_loop_after_rejection ::
    "run_env \<Rightarrow> nat \<Rightarrow> artifact_ref \<Rightarrow> artifact_ref option run_act" where
  "run_repair_loop_after_rejection env max_attempts review =
     rejection_loop env max_attempts review 1 max_attempts"

text \<open>The provider-backed run of the template.\<close>

definition run_demo_provider_workflow ::
    "run_env \<Rightarrow> provider_kind \<Rightarrow> string \<Rightarrow> nat \<Rightarrow> string option \<Rightarrow> run_status run_act" where
  "run_demo_provider_workflow env provider prompt max_attempts budget =
     act_bind (apply_provider_prompt_patch env provider prompt budget) (\<lambda>status.
     if status = WaitingForApproval then act_return status
     else
     act_bind (reviewer_concern env) (\<lambda>review.
     act_bind (reject_for_missing_tests env review) (\<lambda>_.
     if max_attempts = 0
     then act_bind (record_repair_budget_exhausted env ''review_missing_tests'' review) (\<lambda>_.
       act_return Rejected)
     else
     act_bind (run_repair_loop_after_rejection env max_attempts review) (\<lambda>repaired.
       case repaired of
         Some test_log \<Rightarrow> act_bind (accept_final env test_log) (\<lambda>_. act_return Accepted)
       | None \<Rightarrow> act_return Rejected))))"

text \<open>And the one without a provider.\<close>

definition run_demo_provider_free_workflow :: "run_env \<Rightarrow> unit run_act" where
  "run_demo_provider_free_workflow env =
     act_bind (apply_first_patch env) (\<lambda>_.
     act_bind (reviewer_concern env) (\<lambda>review.
     act_bind (reject_for_missing_tests env review) (\<lambda>_.
     act_bind (apply_correction_patch env) (\<lambda>_.
     act_bind (run_verifier env) (\<lambda>verifier.
     if \<not> vr_success verifier then act_lift (Inl (''verifier failed: '' @ vr_content verifier))
     else accept_final env (vr_artifact verifier))))))"

subsection \<open>Which commands run\<close>

fun commands_of :: "run_step list \<Rightarrow> (string \<times> bool) list" where
  "commands_of [] = []"
| "commands_of (CommandRan c b # xs) = (c, b) # commands_of xs"
| "commands_of (x # xs) = commands_of xs"

lemma commands_of_append [simp]: "commands_of (xs @ ys) = commands_of xs @ commands_of ys"
  by (induction xs rule: commands_of.induct) auto

text \<open>Steps that run no local command, and steps that run only some.\<close>

definition no_commands :: "run_ctx \<Rightarrow> run_ctx \<Rightarrow> bool" where
  "no_commands s s' \<longleftrightarrow> same_run s s' \<and> (\<exists>new. rc_trace s' = rc_trace s @ new \<and> commands_of new = [])"

definition runs_only :: "(string \<Rightarrow> bool) \<Rightarrow> run_ctx \<Rightarrow> run_ctx \<Rightarrow> bool" where
  "runs_only P s s' \<longleftrightarrow>
     (\<exists>new. rc_trace s' = rc_trace s @ new \<and> list_all (P \<circ> fst) (commands_of new))"

lemma no_commandsI:
  assumes "\<And>s. same_run s (snd (m s))"
    and "\<And>s. \<exists>new. rc_trace (snd (m s)) = rc_trace s @ new \<and> commands_of new = []"
  shows "keeps no_commands m"
  using assms by (intro keepsI) (simp add: no_commands_def)

lemma no_commands_trans: "no_commands s t \<Longrightarrow> no_commands t u \<Longrightarrow> no_commands s u"
  unfolding no_commands_def by (metis append.assoc append_Nil2 commands_of_append same_run_trans)

interpretation idle: artifact_blind env no_commands for env
  by unfold_locales
    (simp add: no_commands_def same_run_def, erule (1) no_commands_trans,
     (rule no_commandsI; simp add: elementary_defs same_run_def)+)

interpretation idle: closing_relation env no_commands for env
  by unfold_locales
    (simp_all add: idle.stored_artifact,
     (rule no_commandsI; simp add: elementary_defs push_closure_def push_repair_def same_run_def)+)

lemma runs_only_trans: "runs_only P s t \<Longrightarrow> runs_only P t u \<Longrightarrow> runs_only P s u"
  unfolding runs_only_def by (metis append.assoc commands_of_append list_all_append)

lemma idle_runs_only: "keeps no_commands m \<Longrightarrow> keeps (runs_only P) m"
  unfolding keeps_def no_commands_def runs_only_def by (metis list.pred_inject(1))

interpretation allowed: closing_relation env "runs_only P" for env P
  by unfold_locales
    (simp add: runs_only_def, erule (1) runs_only_trans, (rule idle_runs_only, (rule idle.ticket, assumption | rule keep_rules))+)

lemma verifier_idle [keep_rules]: "keeps no_commands (run_verifier env)"
proof -
  have "keeps no_commands (run_command env True c msg)" for c msg
    by (rule keepsI) (simp add: run_command_def act_bind_def draw_def no_commands_def same_run_def
        split: prod.split option.split)
  then show ?thesis unfolding run_verifier_def by (intro keep_rules)
qed

text \<open>A command that the policy of its task lets through.\<close>

definition policy_allows :: "run_env \<Rightarrow> string \<Rightarrow> bool" where
  "policy_allows env raw \<longleftrightarrow>
     raw \<noteq> [] \<and> \<not> list_ex (contains (re_lower env raw)) default_denied"

definition task_allows :: "run_env \<Rightarrow> json \<Rightarrow> string \<Rightarrow> bool" where
  "task_allows env task raw \<longleftrightarrow>
     policy_allows env raw
     \<and> (\<exists>provider_free patterns. json_get task ''provider_free'' = Some provider_free
          \<and> provider_free_denied_patterns provider_free = Inr patterns
          \<and> \<not> list_ex (blocked_by env raw) patterns)"

lemma enumerate_values: "(\<forall>x \<in> set (enumerate n xs). Q (snd x)) \<longleftrightarrow> (\<forall>y \<in> set xs. Q y)"
proof -
  have "set xs = snd ` set (enumerate n xs)" by (metis map_snd_enumerate set_map)
  then show ?thesis by auto
qed

lemma validate_provider_free_ok:
  "validate_provider_free_command env index command patterns = Inr () \<longleftrightarrow>
     \<not> list_ex (contains (re_lower env command)) default_denied \<and> \<not> list_ex (blocked_by env command) patterns"
  using enumerate_values [of 0 patterns "\<lambda>p. \<not> blocked_by env command p"]
  by (simp add: validate_provider_free_command_def first_err_map_ok bail_if_ok split_beta list_ex_iff
      del: enumerate_simps)

lemma task_commands_allowed:
  assumes "provider_free_task_commands env task = Inr commands" and "raw \<in> set commands"
  shows "task_allows env task raw"
proof -
  from assms obtain provider_free vs patterns where pf: "json_get task ''provider_free'' = Some provider_free"
    and patterns: "provider_free_denied_patterns provider_free = Inr patterns"
    and commands: "list_all2 (\<lambda>e c. checked_command env patterns e = Inr c) (enumerate 0 vs) commands"
    by (auto simp: provider_free_task_commands_def rbind_eq_Inr map_result_ok split: option.splits)
  from commands assms(2) obtain e where "checked_command env patterns e = Inr raw"
    unfolding list_all2_conv_all_nth by (metis in_set_conv_nth)
  then have "text_entry ''commands'' (fst e) (snd e) = Inr raw"
    and "validate_provider_free_command env (fst e) raw patterns = Inr ()"
    by (auto simp: checked_command_def rbind_eq_Inr)
  then show ?thesis
    using pf patterns
    by (auto simp: task_allows_def policy_allows_def validate_provider_free_ok text_entry_def
        split: option.splits if_splits)
qed

definition allowed_command :: "run_env \<Rightarrow> json list \<Rightarrow> string \<Rightarrow> bool" where
  "allowed_command env tasks c \<longleftrightarrow>
     (\<exists>task \<in> set tasks. \<exists>raw. c = resolve_verifier_command env raw \<and> task_allows env task raw)"

lemma allowed_one:
  "P c \<Longrightarrow> keeps (runs_only P) (run_command env verifying c msg)"
  by (rule keepsI) (auto simp: runs_only_def run_command_def act_bind_def draw_def
      split: prod.splits option.splits intro!: exI [of _ "[]"])

lemma allowed_commands:
  assumes "\<And>raw. raw \<in> set raws \<Longrightarrow> P (resolve_verifier_command env raw)"
  shows "keeps (runs_only P) (run_commands env task_id index raws)"
  using assms
proof (induction raws arbitrary: index)
  case Nil
  show ?case unfolding run_commands.simps by (rule allowed.pure)
next
  case (Cons raw raws)
  have rest: "keeps (runs_only P) (run_commands env task_id i raws)" for i
    by (rule Cons.IH) (simp add: Cons.prems)
  show ?case
    unfolding run_commands.simps by (intro keep_rules allowed_one Cons.prems rest) simp
qed

lemma allowed_tasks:
  assumes "set ts \<subseteq> set tasks"
  shows "keeps (runs_only (allowed_command env tasks)) (record_tasks env ts)"
  using assms
proof (induction ts)
  case Nil
  show ?case unfolding record_tasks.simps by (rule allowed.pure)
next
  case (Cons task ts)
  have commands: "keeps (runs_only (allowed_command env tasks)) (run_provider_free_task_commands env task task_id)" for task_id
  proof (cases "provider_free_task_commands env task")
    case (Inl e)
    then show ?thesis
      by (simp add: run_provider_free_task_commands_def keeps_def act_bind_def allowed.refl)
  next
    case (Inr commands)
    have "keeps (runs_only (allowed_command env tasks)) (run_commands env task_id 0 commands)"
      using task_commands_allowed [OF Inr] Cons.prems
      by (intro allowed_commands) (auto simp: allowed_command_def)
    with Inr show ?thesis
      by (simp add: run_provider_free_task_commands_def keeps_def act_bind_def)
  qed
  have "keeps (runs_only (allowed_command env tasks)) (record_tasks env ts)"
    using Cons by simp
  then show ?case
    unfolding record_tasks.simps record_task_def by (intro keep_rules commands)
qed

lemma free_tasks_subset:
  assumes "free_tasks s = Inr tasks"
  shows "set tasks \<subseteq> set (rc_workflow_tasks s)"
proof (cases "task_order_of s")
  case (Inr order)
  show ?thesis
  proof (cases order)
    case (Some ts)
    with Inr have "runtime_order (rc_compatibility s, rc_workflow_tasks s, rc_workflow_dependencies s) = Inr ts"
      by (simp add: runtime_order_ok task_order_of_def)
    with assms Inr Some show ?thesis by (simp add: runtime.same_tasks free_tasks_def rbind_def)
  qed (use assms Inr in \<open>simp add: free_tasks_def rbind_def\<close>)
qed (use assms in \<open>simp add: free_tasks_def rbind_def\<close>)

lemma allowed_recording:
  assumes "record_provider_free_real_project_tasks env s = (r, s')"
  shows "runs_only (allowed_command env (rc_workflow_tasks s)) s s'"
proof (cases "free_tasks s")
  case (Inl e)
  with assms show ?thesis
    by (simp add: record_provider_free_real_project_tasks_def act_bind_def get_ctx_def allowed.refl)
next
  case (Inr tasks)
  let ?R = "runs_only (allowed_command env (rc_workflow_tasks s))"
  have "keeps ?R (if tasks = [] then
       act_bind (emit env ''role.started'' (Some ''implementer'') (Some ''real_project_provider_free'')
         (actor_role ''implementer'') (json_object [(''status'', JString ''started'')])) (\<lambda>_.
       emit env ''role.completed'' (Some ''implementer'') (Some ''real_project_provider_free'')
         (actor_role ''implementer'') (json_object [(''status'', JString ''completed''),
           (''changed_files'', JArray []), (''provider_free'', JBool True)]))
     else record_tasks env tasks)"
    by (intro keep_rules allowed_tasks free_tasks_subset Inr)
  with assms Inr show ?thesis
    unfolding record_provider_free_real_project_tasks_def act_bind_def get_ctx_def
    by (auto dest: keepsD)
qed

text \<open>A provider-free run executes no command outside its policy: every local command it
  starts, in whatever outcome, is a command of one of its tasks, with \<open>python\<close> resolved,
  that is not empty, contains none of the denied operations (pushes, tags, releases,
  publishing, network copies) in any case, and matches no pattern that its task denies.\<close>

theorem provider_free_commands_are_allowed:
  assumes "run_real_project_provider_free_workflow env s = (r, s')"
  shows "\<exists>new. rc_trace s' = rc_trace s @ new
    \<and> list_all (allowed_command env (rc_workflow_tasks s) \<circ> fst) (commands_of new)"
proof -
  let ?R = "runs_only (allowed_command env (rc_workflow_tasks s))"
  obtain x t where tasks: "record_provider_free_real_project_tasks env s = (x, t)"
    by (cases "record_provider_free_real_project_tasks env s")
  note first = allowed_recording [OF tasks]
  have "?R s s'"
  proof (cases x)
    case (Inl e)
    with assms tasks first show ?thesis
      by (simp add: run_real_project_provider_free_workflow_def act_bind_Inl)
  next
    case (Inr u)
    have "keeps ?R (act_bind (run_verifier env) (\<lambda>verifier.
     if \<not> vr_success verifier then
       act_bind (reviewer_verifier_failure env (vr_artifact verifier)) (\<lambda>review.
       act_bind (reject_real_project_verifier_failure env review (vr_artifact verifier)) (\<lambda>_.
         act_lift (Inl (''verifier failed: '' @ vr_content verifier))))
     else
       act_bind (reviewer_accept_real_project env (vr_artifact verifier)) (\<lambda>review.
       accept_real_project_final env (vr_artifact verifier) review)))" (is "keeps ?R ?rest")
      by (intro keep_rules idle_runs_only [OF verifier_idle])
    moreover have "?rest t = (r, s')"
      using assms tasks Inr by (simp add: run_real_project_provider_free_workflow_def act_bind_Inr)
    ultimately have "?R t s'" by (rule keepsD)
    with first show ?thesis by (rule runs_only_trans)
  qed
  then show ?thesis by (simp add: runs_only_def)
qed

subsection \<open>A successful run\<close>

definition commands_in_order :: "run_env \<Rightarrow> json list \<Rightarrow> (string \<times> bool) list" where
  "commands_in_order env tasks =
     concat (map (\<lambda>t. case provider_free_task_commands env t of Inl e \<Rightarrow> []
       | Inr raws \<Rightarrow> map (\<lambda>raw. (resolve_verifier_command env raw, True)) raws) tasks)"

text \<open>What a run of commands leaves behind besides the trace.\<close>

definition has_run :: "run_ctx \<Rightarrow> run_ctx \<Rightarrow> (string \<times> bool) list \<Rightarrow> bool" where
  "has_run s s' cs \<longleftrightarrow> same_run s s' \<and> (\<exists>new. rc_trace s' = rc_trace s @ new \<and> commands_of new = cs)"

lemma ran_idle: "m s = (r, s') \<Longrightarrow> keeps no_commands m \<Longrightarrow> has_run s s' []"
  by (auto simp: has_run_def no_commands_def dest: keepsD)

lemma ran_trans: "has_run s t cs \<Longrightarrow> has_run t u ds \<Longrightarrow> has_run s u (cs @ ds)"
  unfolding has_run_def by (metis append.assoc commands_of_append same_run_trans)

lemma ran_command:
  assumes "run_command env False c msg s = (Inr out, s')"
  shows "has_run s s' [(c, vo_success out)]"
  using assms
  by (auto simp: run_command_def act_bind_def draw_def has_run_def same_run_def split: prod.splits option.splits)

lemma run_commands_ran:
  assumes "run_commands env task_id index raws s = (Inr ids, s')"
  shows "has_run s s' (map (\<lambda>raw. (resolve_verifier_command env raw, True)) raws)"
  using assms
proof (induction raws arbitrary: index ids s)
  case Nil
  then show ?case by (simp add: has_run_def same_run_def)
next
  case (Cons raw raws)
  let ?c = "resolve_verifier_command env raw"
  obtain x1 t out u a v x2 w where started: "emit env ''task.started'' (Some task_id) (Some task_id)
       (actor_role task_id) (json_object [(''provider_free'', JBool True), (''command_index'', json_nat index),
         (''command'', JString ?c)]) s = (Inr x1, t)"
    and ran: "run_command env False ?c (''run provider-free command for '' @ task_id @ '': '' @ ?c) t = (Inr out, u)"
    and logged: "put_json env ''provider_free_command_log'' task_id
       (replace_byte CHR ''/'' ''_'' task_id @ ''-provider-free-command-'' @ show_nat (index + 1) @ ''.json'')
       (command_log env task_id index ?c out) [] u = (Inr a, v)"
    and told: "emit env (if vo_success out then ''task.completed'' else ''task.failed'')
       (Some task_id) (Some task_id) (actor_role task_id)
       (json_object [(''provider_free'', JBool True), (''command_index'', json_nat index),
         (''command'', JString ?c), (''exit_code'', json_int (vo_code out)),
         (''artifact'', JString (ar_artifact_id a))]) v = (Inr x2, w)"
    and after: "(if \<not> vo_success out
       then act_lift (Inl (''provider-free command failed for '' @ task_id @ '': '' @ ?c))
       else act_bind (run_commands env task_id (Suc index) raws) (\<lambda>ids. act_return (ar_artifact_id a # ids))) w
      = (Inr ids, s')"
    using Cons.prems unfolding run_commands.simps Let_def act_bind_ok by blast
  have ok: "vo_success out" using after by (cases "vo_success out") simp_all
  with after obtain more where rest: "run_commands env task_id (Suc index) raws w = (Inr more, s')"
    by (auto simp: act_bind_ok)
  have "has_run t w [(?c, True)]"
    using ran_trans [OF ran_trans [OF ran_command [OF ran] ran_idle [OF logged idle.json_artifact]]
      ran_idle [OF told idle.event]] ok by simp
  from ran_trans [OF ran_idle [OF started idle.event] ran_trans [OF this Cons.IH [OF rest]]]
  show ?case by simp
qed

lemma record_tasks_ran:
  assumes "record_tasks env tasks s = (Inr u, s')"
  shows "has_run s s' (commands_in_order env tasks)"
  using assms
proof (induction tasks arbitrary: s)
  case Nil
  then show ?case by (simp add: has_run_def same_run_def commands_in_order_def)
next
  case (Cons task tasks)
  then obtain task_id t logs v summary w x where started: "emit env ''role.started'' (Some task_id) (Some task_id)
       (actor_role task_id) (json_object [(''status'', JString ''started''), (''provider_free'', JBool True)]) s = (Inr (), t)"
    and commands: "run_provider_free_task_commands env task task_id t = (Inr logs, v)"
    and stored: "put_json env ''provider_free_task_summary'' task_id (task_id @ ''-provider-free-summary.json'')
       (json_object [(''task_id'', JString task_id), (''status'', JString ''completed''),
         (''changed_files'', JArray []), (''provider_free'', JBool True),
         (''command_log_artifacts'', json_string_array logs),
         (''summary'', JString ''AO2 provider-free SDD task recorded without applying fixture-specific repository patches.'')])
       logs v = (Inr summary, w)"
    and told: "emit env ''role.completed'' (Some task_id) (Some task_id) (actor_role task_id)
       (json_object [(''status'', JString ''completed''), (''changed_files'', JArray []),
         (''provider_free'', JBool True), (''command_log_artifacts'', json_string_array logs),
         (''artifact'', JString (ar_artifact_id summary))]) w = (Inr (), x)"
    and rest: "record_tasks env tasks x = (Inr u, s')"
    by (auto simp: record_task_def act_bind_ok)
  obtain raws where raws: "provider_free_task_commands env task = Inr raws"
    and run: "run_commands env task_id 0 raws t = (Inr logs, v)"
    using commands by (auto simp: run_provider_free_task_commands_def act_bind_ok)
  have "has_run s x (map (\<lambda>raw. (resolve_verifier_command env raw, True)) raws)"
    using ran_trans [OF ran_idle [OF started idle.event] ran_trans [OF run_commands_ran [OF run]
      ran_trans [OF ran_idle [OF stored idle.json_artifact] ran_idle [OF told idle.event]]]] by simp
  from ran_trans [OF this Cons.IH [OF rest]] raws show ?case
    by (simp add: commands_in_order_def)
qed

lemma ledger_commands [keep_rules]: "keeps ledger_step (run_commands env task_id index raws)"
proof (induction raws arbitrary: index)
  case Nil
  show ?case unfolding run_commands.simps by (intro keep_rules)
next
  case (Cons raw raws)
  show ?case unfolding run_commands.simps by (intro keep_rules Cons.IH)
qed

lemma ledger_tasks [keep_rules]: "keeps ledger_step (record_tasks env tasks)"
proof (induction tasks)
  case Nil
  show ?case unfolding record_tasks.simps by (intro keep_rules)
next
  case (Cons task tasks)
  show ?case unfolding record_tasks.simps record_task_def run_provider_free_task_commands_def
    by (intro keep_rules Cons.IH)
qed

lemma ledger_recording: "keeps ledger_step (record_provider_free_real_project_tasks env)"
  unfolding record_provider_free_real_project_tasks_def by (intro keep_rules)

lemma recording_ran:
  assumes "record_provider_free_real_project_tasks env s = (Inr (), t)"
  shows "\<exists>tasks. free_tasks s = Inr tasks \<and> has_run s t (commands_in_order env tasks)"
proof -
  obtain tasks where tasks: "free_tasks s = Inr tasks"
    and run: "(if tasks = [] then
       act_bind (emit env ''role.started'' (Some ''implementer'') (Some ''real_project_provider_free'')
         (actor_role ''implementer'') (json_object [(''status'', JString ''started'')])) (\<lambda>_.
       emit env ''role.completed'' (Some ''implementer'') (Some ''real_project_provider_free'')
         (actor_role ''implementer'') (json_object [(''status'', JString ''completed''),
           (''changed_files'', JArray []), (''provider_free'', JBool True)]))
     else record_tasks env tasks) s = (Inr (), t)"
    using assms by (auto simp: record_provider_free_real_project_tasks_def act_bind_ok get_ctx_def)
  have "has_run s t (commands_in_order env tasks)"
  proof (cases "tasks = []")
    case True
    have "keeps no_commands (act_bind (emit env ''role.started'' (Some ''implementer'')
         (Some ''real_project_provider_free'') (actor_role ''implementer'')
         (json_object [(''status'', JString ''started'')])) (\<lambda>_.
       emit env ''role.completed'' (Some ''implementer'') (Some ''real_project_provider_free'')
         (actor_role ''implementer'') (json_object [(''status'', JString ''completed''),
           (''changed_files'', JArray []), (''provider_free'', JBool True)])))"
      by (intro keep_rules)
    with run True have "no_commands s t" by (auto dest: keepsD)
    then have "has_run s t []" by (auto simp: has_run_def no_commands_def)
    with True show ?thesis by (simp add: commands_in_order_def)
  next
    case False
    with run record_tasks_ran show ?thesis by simp
  qed
  with tasks show ?thesis by blast
qed

text \<open>C27: A provider-free run that succeeds ran exactly the commands of its tasks, in the order
  of the tasks and of each task's list, every one of them successfully, and then passed
  the verifier: it is accepted on the tree the verifier saw, with the one closure report
  that says so.\<close>

theorem provider_free_run_is_complete:
  assumes "run_real_project_provider_free_workflow env s = (Inr u, s')"
  shows "\<exists>tasks new. free_tasks s = Inr tasks \<and> rc_trace s' = rc_trace s @ new
    \<and> commands_of new = commands_in_order env tasks
    \<and> accepted_at env (resolve_verifier_command env (rc_verifier_command s)) s s'"
proof -
  obtain t v w review x where recorded: "record_provider_free_real_project_tasks env s = (Inr (), t)"
    and verifier: "run_verifier env t = (Inr v, w)" and ok: "vr_success v"
    and review: "reviewer_accept_real_project env (vr_artifact v) w = (Inr review, x)"
    and closed: "accept_real_project_final env (vr_artifact v) review x = (Inr u, s')"
    using assms by (auto simp: run_real_project_provider_free_workflow_def act_bind_ok split: if_splits)
  obtain tasks where tasks: "free_tasks s = Inr tasks" and first: "has_run s t (commands_in_order env tasks)"
    using recording_ran [OF recorded] by blast
  have "has_run t s' []"
    using ran_trans [OF ran_idle [OF verifier verifier_idle] ran_trans [OF ran_idle [OF review idle.reviews(1)]
      ran_idle [OF closed idle.closures(4)]]] by simp
  from ran_trans [OF first this] obtain new where "rc_trace s' = rc_trace s @ new"
    "commands_of new = commands_in_order env tasks" by (auto simp: has_run_def)
  moreover have "accepted_at env (resolve_verifier_command env (rc_verifier_command s)) s s'"
  proof -
    have "accept_verified env (vr_artifact v) w = (Inr Accepted, s')"
      using review closed by (simp add: accept_verified_def act_bind_Inr)
    moreover have "verified env (resolve_verifier_command env (rc_verifier_command s)) (vr_artifact v) w"
      using run_verifier_verified [OF verifier ok] first by (simp add: has_run_def same_run_def)
    ultimately have "accepted_at env (resolve_verifier_command env (rc_verifier_command s)) w s'"
      by (rule accept_verified_ok(2))
    moreover have "rc_closure_reports w = rc_closure_reports s"
      using keepsD [OF ledger_recording recorded] keepsD [OF ledger.verifier verifier]
      by (simp add: ledger_step_def)
    ultimately show ?thesis by (simp add: accepted_at_def)
  qed
  ultimately show ?thesis using tasks by blast
qed

end
