(* ===== verification/Run_Start.thy ===== *)
theory Run_Start
  imports Run_Report Run_Free File_Tree
begin

text \<open>
  How a run begins and goes on, from \<open>crates/ao2-runtime/src/lib.rs\<close>: \<open>start\<close> opens the run,
  records context and plan, and waits for an approval; \<open>resume\<close> loads the record and, when no
  ticket is pending, runs the workflow of the run's kind and finishes it with its evidence
  pack, report and record.  The variables that approve patches automatically
  (\<open>AO2_AUTO_APPROVE_SANDBOX_PATCH\<close>) are taken to be unset.  A run is looked up in its own
  directory, whose files are the state's.
\<close>

subsection \<open>The files of the repository\<close>

definition should_skip_repo_entry :: "string \<Rightarrow> bool" where
  "should_skip_repo_entry name \<longleftrightarrow>
     name \<in> set [''.ao2'', ''.git'', ''.hg'', ''.svn'', ''target'', ''node_modules'', ''.venv'', ''venv'',
       ''__pycache__'', ''.pytest_cache'', ''.mypy_cache'', ''.ruff_cache'', ''.next'', ''.expo'',
       ''dist'', ''build'', ''coverage'']"

text \<open>A directory that cannot be read has no files; an entry that cannot be read ends the walk.\<close>

function collect_repo_files :: "string list \<Rightarrow> fs_node \<Rightarrow> string list rresult" where
  "collect_repo_files rel (FsDir entries) =
     walk_children (\<lambda>e. if should_skip_repo_entry (fst e) then Inr []
       else collect_repo_files (rel @ [fst e]) (snd e)) entries"
| "collect_repo_files rel (FsFile len content) = Inr [relative_path rel]"
| "collect_repo_files rel FsOther = Inr []"
| "collect_repo_files rel (FsError msg) = Inl msg"
  by pat_completeness auto
termination
  by (relation "measure (size \<circ> snd)") (auto dest: size_fs_entry)

definition repo_file_inventory :: "fs_node \<Rightarrow> nat \<Rightarrow> string list rresult" where
  "repo_file_inventory repo limit =
     rbind (collect_repo_files [] repo) (\<lambda>files. Inr (take limit (sort files)))"

definition plan_file_list :: "fs_node \<Rightarrow> string rresult" where
  "plan_file_list repo =
     rbind (repo_file_inventory repo 12) (\<lambda>files.
       Inr (if files = [] then ''- no files discovered''
         else join nl (map (\<lambda>f. ''- `'' @ f @ ''`'') files)))"

definition plan_acceptance_list :: "run_ctx \<Rightarrow> string" where
  "plan_acceptance_list s =
     join nl (map (\<lambda>c. ''- '' @ c)
       (if rc_acceptance s = []
        then [''verifier command passes'', ''patch stays scoped to the workflow objective'',
              ''replay has zero digest failures'']
        else rc_acceptance s))"

subsection \<open>Start\<close>

record run_options =
  op_workflow_path :: string
  op_run_id :: "string option"

text \<open>What the process sees of its host: its environment, the repository and the workflow file.\<close>

record run_host =
  ho_variable :: "string \<Rightarrow> bool"
  ho_text :: "string \<Rightarrow> string option"
  ho_repo_exists :: bool
  ho_repo :: fs_node
  ho_path_exists :: "string \<Rightarrow> bool"
  ho_read_file :: "string \<Rightarrow> string option"
  ho_parse_yaml :: "string \<Rightarrow> workflow_spec option"

definition ensure_target_repo :: "run_host \<Rightarrow> unit run_act" where
  "ensure_target_repo host =
     act_bind get_ctx (\<lambda>s.
       act_lift (bail_if (\<not> ho_repo_exists host) (''target repo does not exist: '' @ rc_target_repo s)))"

definition run_directory :: "run_ctx \<Rightarrow> string \<Rightarrow> string" where
  "run_directory s run_id =
     path_join (path_join (path_join (rc_target_repo s) ''.ao2'') ''runs'') run_id"

definition open_run :: "workflow_spec \<Rightarrow> string \<Rightarrow> unit run_act" where
  "open_run w run_id s = (Inr (), s\<lparr>rc_run_id := run_id, rc_workflow_id := workflow_id w,
     rc_template_kind := wf_template_kind w, rc_objective := wf_objective w, rc_roles := wf_roles w,
     rc_workflow_tasks := wf_tasks w, rc_workflow_dependencies := wf_dependencies w,
     rc_compatibility := wf_compatibility w, rc_acceptance := wf_acceptance w,
     rc_verifier_command := wf_verifier_command w, rc_run_dir := run_directory s run_id,
     rc_artifacts := [], rc_policy_decisions := [], rc_approvals := [], rc_closure_reports := [],
     rc_repair_attempts := []\<rparr>)"

definition plan_text :: "run_ctx \<Rightarrow> string \<Rightarrow> string" where
  "plan_text s files = join nl
     [''# Scoped Plan'', [], ''Objective: '' @ rc_objective s, [], ''Likely files:'', files, [],
      ''Expected verifier:'', ''- `'' @ rc_verifier_command s @ ''`'', [], ''Risks:'',
      ''- broad file writes must be blocked'', ''- external git push must be denied'', [],
      ''Acceptance criteria:'', plan_acceptance_list s, []]"

definition announce_run :: "run_env \<Rightarrow> string \<Rightarrow> unit run_act" where
  "announce_run env workflow_path =
     act_bind get_ctx (\<lambda>s.
     act_bind (emit env ''run.created'' None None actor_system
       (json_object [(''objective'', JString (rc_objective s)),
         (''workflow_path'', JString workflow_path), (''status'', JString ''created'')])) (\<lambda>_.
     emit env ''run.compiled'' None None actor_system
       (json_object [(''workflow_id'', JString (rc_workflow_id s)), (''roles'', json_string_array (rc_roles s)),
         (''workflow_tasks'', JArray (rc_workflow_tasks s)),
         (''workflow_dependencies'', JArray (rc_workflow_dependencies s)),
         (''factory_v3_compatibility'', (case rc_compatibility s of None \<Rightarrow> JNull | Some v \<Rightarrow> v)),
         (''factory_v3_drives_workflow'', JBool False), (''status'', JString ''compiled'')])))"

definition record_plan :: "run_env \<Rightarrow> run_host \<Rightarrow> unit run_act" where
  "record_plan env host =
     act_bind get_ctx (\<lambda>s.
     act_bind (act_lift (repo_file_inventory (ho_repo host) 80)) (\<lambda>sources.
     act_bind (put_json env ''context_bundle'' ''planner'' ''context.json''
       (json_object [(''sources'', json_string_array sources), (''role_scope'', JString ''planner''),
         (''redactions'', JArray []), (''template_kind'', json_opt_str (rc_template_kind s))]) []) (\<lambda>context.
     act_bind (act_lift (plan_file_list (ho_repo host))) (\<lambda>files.
     act_bind (put_artifact env ''plan'' ''planner'' ''plan.md'' ''text/markdown''
       (plan_text s files) [ar_artifact_id context]) (\<lambda>_. act_return ())))))"

definition start_risky_pr_provider_free :: "run_env \<Rightarrow> run_host \<Rightarrow> run_options \<Rightarrow> approval_ticket run_act" where
  "start_risky_pr_provider_free env host opts =
     act_bind (act_lift (fail_on_forbidden_provider_api_keys (ho_variable host))) (\<lambda>_.
     act_bind (ensure_target_repo host) (\<lambda>_.
     act_bind (act_lift (load_workflow (ho_path_exists host) (ho_read_file host) (ho_parse_yaml host)
       (op_workflow_path opts))) (\<lambda>w.
     act_bind (case op_run_id opts of Some i \<Rightarrow> act_return i | None \<Rightarrow> new_id env ''run'') (\<lambda>run_id.
     act_bind get_ctx (\<lambda>s.
     act_bind (io_call env (''create run artifact dir '' @ path_join (run_directory s run_id) ''artifacts'')) (\<lambda>_.
     act_bind (open_run w run_id) (\<lambda>_.
     act_bind (announce_run env (op_workflow_path opts)) (\<lambda>_.
     act_bind (record_plan env host) (\<lambda>_.
     act_bind (simulate_policy_denial_and_pending_approval env) (\<lambda>t.
     act_bind (write_run_record env WaitingForApproval) (\<lambda>_.
     act_return t)))))))))))"

subsection \<open>The record read back\<close>

text \<open>The fields of the workflow as \<open>load_run_context\<close> reads them, with their defaults.\<close>

definition default_roles :: "string list" where
  "default_roles = [''planner'', ''implementer'', ''reviewer'', ''test-engineer'', ''evaluator-closer'']"

definition list_field :: "json \<Rightarrow> string \<Rightarrow> json list" where
  "list_field v k = (case Option.bind (json_get v k) as_array of None \<Rightarrow> [] | Some xs \<Rightarrow> xs)"

definition load_workflow_fields :: "json \<Rightarrow> run_ctx \<Rightarrow> run_ctx" where
  "load_workflow_fields record s = s\<lparr>
     rc_workflow_id := get_str_or record ''workflow_ref'' ''risky-pr-run@0.1.0'',
     rc_template_kind := get_str record ''template_kind'',
     rc_objective := get_str_or record ''objective''
       ''Add input validation to calculate_discount and update tests.'',
     rc_roles := (let roles = strings_of (json_get record ''roles'') in
       if roles = [] then default_roles else roles),
     rc_workflow_tasks := list_field record ''workflow_tasks'',
     rc_workflow_dependencies := list_field record ''workflow_dependencies'',
     rc_compatibility := (case json_get record ''factory_v3_compatibility'' of Some JNull \<Rightarrow> None | v \<Rightarrow> v),
     rc_acceptance := strings_of (json_get record ''acceptance''),
     rc_verifier_command := get_str_or record ''verifier_command'' ''python -m pytest''\<rparr>"

subsection \<open>Finishing a run\<close>

record run_summary =
  sm_run_id :: string
  sm_status :: run_status
  sm_run_dir :: string
  sm_evidence_pack_path :: string
  sm_report_path :: string
  sm_run_record_path :: string
  sm_denied_actions :: "policy_decision list"
  sm_approvals :: "approval_ticket list"
  sm_rejection_count :: nat

definition summary_of :: "run_status \<Rightarrow> run_ctx \<Rightarrow> run_summary" where
  "summary_of status s =
     \<lparr>sm_run_id = rc_run_id s, sm_status = status, sm_run_dir = rc_run_dir s,
      sm_evidence_pack_path = evidence_pack_path s, sm_report_path = report_path s,
      sm_run_record_path = path_join (rc_run_dir s) ''run-record.json'',
      sm_denied_actions = denied_actions (rc_policy_decisions s), sm_approvals = rc_approvals s,
      sm_rejection_count = length (filter (\<lambda>r. cr_verdict r = ''rejected'') (rc_closure_reports s))\<rparr>"

definition finish_run :: "run_env \<Rightarrow> run_status \<Rightarrow> run_summary run_act" where
  "finish_run env status =
     act_bind (export_evidence_pack env) (\<lambda>_.
     act_bind (render_static_report env) (\<lambda>_.
     act_bind (write_run_record env status) (\<lambda>_.
     act_bind get_ctx (\<lambda>s. act_return (summary_of status s)))))"

subsection \<open>Resume\<close>

fun status_debug :: "run_status \<Rightarrow> string" where
  "status_debug Created = ''Created''"
| "status_debug Compiled = ''Compiled''"
| "status_debug Queued = ''Queued''"
| "status_debug Running = ''Running''"
| "status_debug WaitingForApproval = ''WaitingForApproval''"
| "status_debug Blocked = ''Blocked''"
| "status_debug Failed = ''Failed''"
| "status_debug Rejected = ''Rejected''"
| "status_debug Accepted = ''Accepted''"
| "status_debug AcceptedWithConcerns = ''AcceptedWithConcerns''"
| "status_debug Canceled = ''Canceled''"
| "status_debug Replaying = ''Replaying''"

text \<open>The file of consumed tickets is removed when it is there; a failure to remove it is ignored.\<close>

definition clear_consumed :: "run_env \<Rightarrow> unit run_act" where
  "clear_consumed env =
     act_bind get_ctx (\<lambda>s.
     if rc_consumed s = None then act_return ()
     else act_bind draw (\<lambda>k s. (Inr (), if re_io env k then s\<lparr>rc_consumed := None\<rparr> else s)))"

definition continue_with_provider :: "run_env \<Rightarrow> provider_options \<Rightarrow> run_status run_act" where
  "continue_with_provider env opts =
     act_bind (provider_prompt_of env opts) (\<lambda>prompt.
     act_bind (clear_consumed env) (\<lambda>_.
     act_bind get_ctx (\<lambda>s.
     if is_real_project_template s
     then run_real_project_provider_workflow env (ro_provider opts) prompt
       (ro_max_repair_attempts opts) (ro_max_budget opts)
     else run_demo_provider_workflow env (ro_provider opts) prompt
       (ro_max_repair_attempts opts) (ro_max_budget opts))))"

definition continue_provider_free :: "run_env \<Rightarrow> run_status run_act" where
  "continue_provider_free env =
     act_bind get_ctx (\<lambda>s.
     act_bind (if is_real_project_template s then run_real_project_provider_free_workflow env
       else run_demo_provider_free_workflow env) (\<lambda>_. act_return Accepted))"

definition resume_risky_pr_provider_free :: "run_env \<Rightarrow> run_host \<Rightarrow> run_summary run_act" where
  "resume_risky_pr_provider_free env host =
     act_bind (act_lift (fail_on_forbidden_provider_api_keys (ho_variable host))) (\<lambda>_.
     act_bind (ensure_target_repo host) (\<lambda>_.
     act_bind load_run_context (\<lambda>status.
     act_bind get_ctx (\<lambda>s.
     if status = Accepted then act_return (summary_of Accepted s)
     else if status \<noteq> WaitingForApproval
     then act_lift (Inl (''run '' @ rc_run_id s @ '' is not resumable from status '' @ status_debug status))
     else if \<exists>t \<in> set (rc_approvals s). tk_status t = ''pending''
     then act_lift (Inl (''run '' @ rc_run_id s @ '' is waiting for approval before resume''))
     else
       act_bind
         (case rc_options s of
            Some opts \<Rightarrow>
              act_bind (io_call env (''read '' @ path_join (rc_run_dir s) ''provider-options.json'')) (\<lambda>_.
                continue_with_provider env opts)
          | None \<Rightarrow> continue_provider_free env)
         (finish_run env)))))"

subsection \<open>Whole runs\<close>

definition approve_risky_pr_ticket :: "run_env \<Rightarrow> run_host \<Rightarrow> string \<Rightarrow> string \<Rightarrow> approval_ticket run_act" where
  "approve_risky_pr_ticket env host ticket_id approver =
     act_bind (act_lift (fail_on_forbidden_provider_api_keys (ho_variable host))) (\<lambda>_.
     act_bind (ensure_target_repo host) (\<lambda>_. approve_ticket env ticket_id approver))"

definition run_risky_pr_provider_free :: "run_env \<Rightarrow> run_host \<Rightarrow> run_options \<Rightarrow> run_summary run_act" where
  "run_risky_pr_provider_free env host opts =
     act_bind (start_risky_pr_provider_free env host opts) (\<lambda>t.
     act_bind (approve_risky_pr_ticket env host (tk_ticket_id t) ''human:local-user'') (\<lambda>_.
     resume_risky_pr_provider_free env host))"

definition store_options :: "provider_options \<Rightarrow> unit run_act" where
  "store_options opts s = (Inr (), s\<lparr>rc_options := Some opts\<rparr>)"

text \<open>The approver named by the environment for unattended runs, and the loop that approves each
  patch the run waits for.  A provider may ask for a new patch in every round, so the loop
  need not end; \<open>None\<close> is a loop that did not end within its fuel.\<close>

definition auto_approver :: "run_host \<Rightarrow> string option" where
  "auto_approver host =
     (case ho_text host ''AO2_AUTO_APPROVE_SANDBOX_PATCH_APPROVER'' of
        Some who \<Rightarrow> (if trim who \<noteq> [] \<and> ho_text host ''AO2_AUTO_APPROVE_SANDBOX_PATCH'' \<noteq> None
          then Some who else None)
      | None \<Rightarrow> None)"

definition awaited_patch :: "run_ctx \<Rightarrow> approval_ticket option" where
  "awaited_patch s =
     find (\<lambda>t. tk_status t = ''pending'' \<and> tk_requested_action t = ''sandbox:apply'') (rc_approvals s)"

fun auto_approve :: "run_env \<Rightarrow> run_host \<Rightarrow> string \<Rightarrow> nat \<Rightarrow> run_status \<Rightarrow> run_status option run_act" where
  "auto_approve env host who 0 status = act_return None"
| "auto_approve env host who (Suc fuel) status =
     (if status \<noteq> WaitingForApproval then act_return (Some status)
      else
      act_bind get_ctx (\<lambda>s.
      case awaited_patch s of
        None \<Rightarrow> act_return (Some status)
      | Some t \<Rightarrow>
          act_bind (approve_risky_pr_ticket env host (tk_ticket_id t) who) (\<lambda>_.
          act_bind (resume_risky_pr_provider_free env host) (\<lambda>resumed.
          act_bind load_run_context (\<lambda>_.
          auto_approve env host who fuel (sm_status resumed))))))"

definition settle_approvals :: "run_env \<Rightarrow> run_host \<Rightarrow> nat \<Rightarrow> run_status \<Rightarrow> run_status option run_act" where
  "settle_approvals env host fuel status =
     (case auto_approver host of
        None \<Rightarrow> act_return (Some status)
      | Some who \<Rightarrow> auto_approve env host who fuel status)"

definition begin_provider_run ::
    "run_env \<Rightarrow> run_host \<Rightarrow> run_options \<Rightarrow> provider_options \<Rightarrow> run_status run_act" where
  "begin_provider_run env host opts provider =
     act_bind (start_risky_pr_provider_free env host opts) (\<lambda>t.
     act_bind (approve_risky_pr_ticket env host (tk_ticket_id t) ''human:local-user'') (\<lambda>_.
     act_bind load_run_context (\<lambda>status.
     act_bind get_ctx (\<lambda>s.
     if status \<noteq> WaitingForApproval
     then act_lift (Inl (''provider-backed run '' @ rc_run_id s @ '' cannot continue from status ''
       @ status_debug status))
     else if \<not> (\<exists>t \<in> set (rc_approvals s). tk_status t = ''approved'')
     then act_lift (Inl (''provider-backed run '' @ rc_run_id s @ '' is waiting for approval''))
     else
       act_bind (io_call env (''write '' @ path_join (rc_run_dir s) ''provider-options.json'')) (\<lambda>_.
       act_bind (store_options provider) (\<lambda>_.
       continue_with_provider env provider))))))"

definition run_risky_pr_with_provider_prompt ::
    "run_env \<Rightarrow> run_host \<Rightarrow> nat \<Rightarrow> run_options \<Rightarrow> provider_options \<Rightarrow> run_summary option run_act" where
  "run_risky_pr_with_provider_prompt env host fuel opts provider =
     act_bind (begin_provider_run env host opts provider) (\<lambda>status.
     act_bind (settle_approvals env host fuel status) (\<lambda>settled.
       case settled of
         None \<Rightarrow> act_return None
       | Some final \<Rightarrow> act_bind (finish_run env final) (\<lambda>summary. act_return (Some summary))))"

subsection \<open>Starting touches nothing\<close>

fun is_note :: "run_step \<Rightarrow> bool" where
  "is_note (Emitted e) = True"
| "is_note (RecordWritten status) = True"
| "is_note _ = False"

definition only_notes :: "run_ctx \<Rightarrow> run_ctx \<Rightarrow> bool" where
  "only_notes s s' \<longleftrightarrow>
     rc_disk s' = rc_disk s \<and> (\<exists>new. rc_trace s' = rc_trace s @ new \<and> list_all is_note new)"

lemma only_notes_update:
  assumes "\<And>s. rc_disk (snd (m s)) = rc_disk s"
    and "\<And>s. \<exists>new. rc_trace (snd (m s)) = rc_trace s @ new \<and> list_all is_note new"
  shows "keeps only_notes m"
  using assms by (intro keepsI) (simp add: only_notes_def)

lemma only_notes_trans: "only_notes s t \<Longrightarrow> only_notes t u \<Longrightarrow> only_notes s u"
  unfolding only_notes_def by (metis append.assoc list_all_append)

interpretation noting: artifact_blind env only_notes for env
  by unfold_locales
    (simp add: only_notes_def, erule (1) only_notes_trans,
     (rule only_notes_update; simp add: elementary_defs)+)

lemma noting_elementary [keep_rules]:
  "keeps only_notes (put_ticket t)" "keeps only_notes (store_approval t req)" "keeps only_notes (push_decision d)"
  "keeps only_notes (save_ctx status integrity)" "keeps only_notes (log_step (RecordWritten status))"
  "keeps only_notes (open_run w run_id)"
  by (rule only_notes_update; simp add: elementary_defs open_run_def)+

lemma noting_composed [keep_rules]:
  "keeps only_notes (put_json env ty producer name v refs)" "keeps only_notes (new_ticket env req)"
  "keeps only_notes (write_stored_approval env t req)" "keeps only_notes (write_run_record env status)"
  "keeps only_notes (ensure_target_repo host)" "keeps only_notes (announce_run env path)"
  unfolding put_json_def new_ticket_def write_stored_approval_def write_run_record_def
    ensure_target_repo_def announce_run_def
  by (intro keep_rules)+

lemma noting_plan [keep_rules]:
  "keeps only_notes (record_plan env host)"
  "keeps only_notes (simulate_policy_denial_and_pending_approval env)"
  unfolding record_plan_def simulate_policy_denial_and_pending_approval_def
  by (intro keep_rules)+

lemma noting_start: "keeps only_notes (start_risky_pr_provider_free env host opts)"
  unfolding start_risky_pr_provider_free_def by (intro keep_rules)

text \<open>The tickets and decisions, which only a few steps touch.\<close>

definition same_control :: "run_ctx \<Rightarrow> run_ctx \<Rightarrow> bool" where
  "same_control s s' \<longleftrightarrow>
     rc_approvals s' = rc_approvals s \<and> rc_policy_decisions s' = rc_policy_decisions s"

interpretation controlled: artifact_blind env same_control for env
  by unfold_locales
    (simp add: same_control_def, simp add: same_control_def,
     (rule keepsI, simp add: elementary_defs same_control_def)+)

lemma controlled_composed [keep_rules]:
  "keeps same_control (put_json env ty producer name v refs)" "keeps same_control (new_ticket env req)"
  "keeps same_control (write_stored_approval env t req)" "keeps same_control (announce_run env path)"
proof -
  have "keeps same_control (store_approval t req)" for t req
    by (rule keepsI) (simp add: store_approval_def same_control_def)
  then show "keeps same_control (put_json env ty producer name v refs)" "keeps same_control (new_ticket env req)"
    "keeps same_control (write_stored_approval env t req)" "keeps same_control (announce_run env path)"
    unfolding put_json_def new_ticket_def write_stored_approval_def announce_run_def
    by (intro keep_rules | assumption)+
qed

lemma controlled_plan [keep_rules]: "keeps same_control (record_plan env host)"
  unfolding record_plan_def by (intro keep_rules)

text \<open>The files of the tickets, which only the approvals write.\<close>

definition same_stored :: "run_ctx \<Rightarrow> run_ctx \<Rightarrow> bool" where
  "same_stored s s' \<longleftrightarrow> rc_stored s' = rc_stored s"

interpretation stored: artifact_blind env same_stored for env
  by unfold_locales
    (simp add: same_stored_def, simp add: same_stored_def,
     (rule keepsI, simp add: elementary_defs same_stored_def)+)

lemma stored_record [keep_rules]: "keeps same_stored (write_run_record env status)"
proof -
  have "keeps same_stored (save_ctx status integrity)" "keeps same_stored (log_step st)" for integrity st
    by (rule keepsI, simp add: save_ctx_def log_step_def same_stored_def)+
  then show ?thesis unfolding write_run_record_def by (intro keep_rules | assumption)+
qed

lemma write_stored_approval_ok:
  assumes "write_stored_approval env t req s = (Inr u, s')"
  shows "map_of (rc_stored s') (tk_ticket_id t) = Some (t, req)"
  using assms by (auto simp: write_stored_approval_def act_bind_ok store_approval_def Let_def)

lemma write_run_record_ok:
  assumes "write_run_record env status s = (Inr u, s')"
  shows "same_control s s'"
    "\<exists>sv. rc_saved s' = Some sv \<and> sv_status sv = status \<and> sv_artifacts sv = rc_artifacts s'
      \<and> sv_policy_decisions sv = rc_policy_decisions s' \<and> sv_approvals sv = rc_approvals s'
      \<and> sv_closure_reports sv = rc_closure_reports s' \<and> sv_repair_attempts sv = rc_repair_attempts s'"
proof -
  let ?integrity = "run_record_integrity env s"
  obtain t v where sent: "emit env ''run.record.integrity.checkpoint'' None None actor_system ?integrity s = (Inr (), t)"
    and io: "io_call env (''write '' @ path_join (rc_run_dir s) ''run-record.json'') t = (Inr (), v)"
    and s': "save_ctx status ?integrity v = (Inr (), v\<lparr>rc_saved := Some
     \<lparr>sv_status = status, sv_artifacts = rc_artifacts v, sv_policy_decisions = rc_policy_decisions v,
      sv_approvals = rc_approvals v, sv_closure_reports = rc_closure_reports v,
      sv_repair_attempts = rc_repair_attempts v, sv_integrity = ?integrity\<rparr>\<rparr>)"
    and last: "log_step (RecordWritten status) (snd (save_ctx status ?integrity v)) = (Inr u, s')"
    using assms by (auto simp: write_run_record_def act_bind_ok get_ctx_def Let_def save_ctx_def)
  show "same_control s s'"
    using keepsD [OF controlled.event sent] keepsD [OF controlled.io io] last
    by (auto simp: same_control_def log_step_def save_ctx_def)
  show "\<exists>sv. rc_saved s' = Some sv \<and> sv_status sv = status \<and> sv_artifacts sv = rc_artifacts s'
      \<and> sv_policy_decisions sv = rc_policy_decisions s' \<and> sv_approvals sv = rc_approvals s'
      \<and> sv_closure_reports sv = rc_closure_reports s' \<and> sv_repair_attempts sv = rc_repair_attempts s'"
    using last by (auto simp: log_step_def save_ctx_def)
qed

lemma simulate_ok:
  assumes "simulate_policy_denial_and_pending_approval env s = (Inr t, s')"
  obtains denied allowed where "rc_approvals s' = replace_ticket t (rc_approvals s)"
    and "rc_policy_decisions s' = rc_policy_decisions s @ [denied, allowed]"
    and "tk_status t = ''pending''" and "tk_run_id t = rc_run_id s"
    and "pd_decision denied = ''deny''" and "pd_action denied = ''git:push''"
    and "tk_requested_action t = ''filesystem:write_file''"
    and "\<exists>req. map_of (rc_stored s') (tk_ticket_id t) = Some (t, req)"
proof -
  let ?show = "approval_ticket_json (re_show_time env)"
  obtain s1 k s2 time s3 s5 k' s6 time' s7 where
      e1: "emit env ''tool.requested'' (Some ''implementer'') (Some ''policy_denied_git_push'')
        (actor_role ''implementer'') (tool_request_json git_push_request) s = (Inr (), s1)"
    and k: "draw s1 = (Inr k, s2)" and time: "now env s2 = (Inr time, s3)"
    and rest: "act_bind (emit env ''tool.denied'' (Some ''implementer'') (Some ''policy_denied_git_push'')
       actor_system (policy_decision_json (re_show_time env) (deny (re_sha256 env) (re_request_vec env) (re_uuid env k) time
          git_push_request ''git push is an external write and is denied in local MVP''))) (\<lambda>_.
     act_bind get_ctx (\<lambda>s.
     let safe = repo_write_request s in
     act_bind draw (\<lambda>k'.
     act_bind (now env) (\<lambda>t'.
     act_bind (push_decision (evaluate (re_sha256 env) (re_request_vec env) (re_uuid env k') t' safe)) (\<lambda>_.
     act_bind (new_ticket env safe) (\<lambda>pending.
     act_bind (put_ticket pending) (\<lambda>_.
     act_bind (write_stored_approval env pending safe) (\<lambda>_.
     act_bind (emit env ''approval.requested'' (Some ''implementer'') (Some ''approve_discount_patch'')
       actor_system (?show pending)) (\<lambda>_.
     act_return pending)))))))))
     (s3\<lparr>rc_policy_decisions := rc_policy_decisions s3 @ [deny (re_sha256 env) (re_request_vec env) (re_uuid env k) time
          git_push_request ''git push is an external write and is denied in local MVP'']\<rparr>) = (Inr t, s')"
    using assms
    unfolding simulate_policy_denial_and_pending_approval_def act_bind_ok Let_def push_decision_def
    by auto
  let ?d = "deny (re_sha256 env) (re_request_vec env) (re_uuid env k) time
          git_push_request ''git push is an external write and is denied in local MVP''"
  let ?s4 = "s3\<lparr>rc_policy_decisions := rc_policy_decisions s3 @ [?d]\<rparr>"
  obtain s5 k' s6 time' s7 where
      e2: "emit env ''tool.denied'' (Some ''implementer'') (Some ''policy_denied_git_push'')
       actor_system (policy_decision_json (re_show_time env) ?d) ?s4 = (Inr (), s5)"
    and k': "draw s5 = (Inr k', s6)" and time': "now env s6 = (Inr time', s7)"
    and rest': "act_bind (new_ticket env (repo_write_request s5)) (\<lambda>pending.
     act_bind (put_ticket pending) (\<lambda>_.
     act_bind (write_stored_approval env pending (repo_write_request s5)) (\<lambda>_.
     act_bind (emit env ''approval.requested'' (Some ''implementer'') (Some ''approve_discount_patch'')
       actor_system (?show pending)) (\<lambda>_.
     act_return pending))))
     (s7\<lparr>rc_policy_decisions := rc_policy_decisions s7 @ [evaluate (re_sha256 env) (re_request_vec env)
        (re_uuid env k') time' (repo_write_request s5)]\<rparr>) = (Inr t, s')"
    using rest unfolding act_bind_ok Let_def push_decision_def get_ctx_def by auto
  let ?e = "evaluate (re_sha256 env) (re_request_vec env) (re_uuid env k') time' (repo_write_request s5)"
  let ?s8 = "s7\<lparr>rc_policy_decisions := rc_policy_decisions s7 @ [?e]\<rparr>"
  obtain s9 s11 where ticket: "new_ticket env (repo_write_request s5) ?s8 = (Inr t, s9)"
    and stored: "write_stored_approval env t (repo_write_request s5)
      (s9\<lparr>rc_approvals := replace_ticket t (rc_approvals s9)\<rparr>) = (Inr (), s11)"
    and e3: "emit env ''approval.requested'' (Some ''implementer'') (Some ''approve_discount_patch'')
       actor_system (?show t) s11 = (Inr (), s')"
    using rest' unfolding act_bind_ok put_ticket_def by auto
  note control = keepsD [OF controlled.event e1] keepsD [OF controlled.draw k] keepsD [OF controlled.clock time]
    keepsD [OF controlled.event e2] keepsD [OF controlled.draw k'] keepsD [OF controlled.clock time']
    keepsD [OF controlled_composed(2) ticket] keepsD [OF controlled_composed(3) stored]
    keepsD [OF controlled.event e3]
  note run = keepsD [OF static.event e1] keepsD [OF static.draw k] keepsD [OF static.clock time]
    keepsD [OF static.event e2] keepsD [OF static.draw k'] keepsD [OF static.clock time']
  have "tk_run_id t = rc_run_id s7"
    using ticket by (auto simp: new_ticket_def act_bind_ok get_ctx_def create_approval_ticket_def)
  with run have "tk_run_id t = rc_run_id s" by (simp add: same_run_def)
  moreover have "tk_requested_action t = ''filesystem:write_file''"
    using ticket
    by (auto simp: new_ticket_def act_bind_ok create_approval_ticket_def repo_write_request_def Let_def)
  moreover have "map_of (rc_stored s') (tk_ticket_id t) = Some (t, repo_write_request s5)"
    using write_stored_approval_ok [OF stored] keepsD [OF stored.event e3] by (simp add: same_stored_def)
  ultimately show ?thesis
    using control
      new_ticket_pending [OF ticket]
    by (intro that [of ?d ?e]) (simp_all add: same_control_def deny_def git_push_request_def)
qed

lemma static_opening:
  "keeps same_run (announce_run env path)" "keeps same_run (record_plan env host)"
  unfolding announce_run_def record_plan_def by (intro keep_rules)+

lemma start_ok:
  assumes "start_risky_pr_provider_free env host opts s = (Inr t, s')"
  obtains w denied allowed sv where
    "load_workflow (ho_path_exists host) (ho_read_file host) (ho_parse_yaml host) (op_workflow_path opts) = Inr w"
    and "rc_template_kind s' = wf_template_kind w" and "rc_approvals s' = [t]"
    and "rc_policy_decisions s' = [denied, allowed]" and "pd_decision denied = ''deny''"
    and "pd_action denied = ''git:push''" and "tk_status t = ''pending''" and "tk_run_id t = rc_run_id s'"
    and "tk_requested_action t = ''filesystem:write_file''"
    and "\<exists>req. map_of (rc_stored s') (tk_ticket_id t) = Some (t, req)"
    and "rc_saved s' = Some sv" and "sv_status sv = WaitingForApproval" and "sv_approvals sv = [t]"
proof -
  obtain w run_id s1 s2 s3 s4 s5 u where
      spec: "load_workflow (ho_path_exists host) (ho_read_file host) (ho_parse_yaml host) (op_workflow_path opts) = Inr w"
    and open': "open_run w run_id s1 = (Inr (), s2)"
    and announced: "announce_run env (op_workflow_path opts) s2 = (Inr (), s3)"
    and planned: "record_plan env host s3 = (Inr (), s4)"
    and simulated: "simulate_policy_denial_and_pending_approval env s4 = (Inr t, s5)"
    and written: "write_run_record env WaitingForApproval s5 = (Inr u, s')"
    using assms [unfolded start_risky_pr_provider_free_def act_bind_ok] by auto
  have opened: "rc_approvals s2 = []" "rc_policy_decisions s2 = []" "rc_template_kind s2 = wf_template_kind w"
    using open' by (auto simp: open_run_def)
  have s4: "rc_approvals s4 = []" "rc_policy_decisions s4 = []"
    using opened keepsD [OF controlled_composed(4) announced] keepsD [OF controlled_plan planned]
    by (simp_all add: same_control_def)
  have run: "rc_run_id s' = rc_run_id s4" "rc_template_kind s' = wf_template_kind w"
    using opened keepsD [OF static_opening(1) announced] keepsD [OF static_opening(2) planned]
      keepsD [OF static.pending_approval simulated] keepsD [OF static.run_record written]
    by (simp_all add: same_run_def)
  obtain denied allowed where sim: "rc_approvals s5 = replace_ticket t (rc_approvals s4)"
    "rc_policy_decisions s5 = rc_policy_decisions s4 @ [denied, allowed]"
    "tk_status t = ''pending''" "tk_run_id t = rc_run_id s4"
    "pd_decision denied = ''deny''" "pd_action denied = ''git:push''"
    "tk_requested_action t = ''filesystem:write_file''"
    "\<exists>req. map_of (rc_stored s5) (tk_ticket_id t) = Some (t, req)"
    by (rule simulate_ok [OF simulated])
  obtain sv where saved: "rc_saved s' = Some sv" "sv_status sv = WaitingForApproval" "sv_approvals sv = rc_approvals s'"
    using write_run_record_ok(2) [OF written] by blast
  show ?thesis
    using spec run sim s4 saved write_run_record_ok(1) [OF written] keepsD [OF stored_record written]
    by (intro that [of w denied allowed sv]) (simp_all add: same_control_def same_stored_def)
qed

text \<open>Starting a run does no work: whatever its outcome, the repository and its sandboxes
  are as they were, and no provider, command or patch ran.  When it succeeds, the run has
  denied the push, holds one ticket, which is pending and belongs to the run, and its
  record says that it waits for the approval.\<close>

theorem start_only_waits:
  assumes "start_risky_pr_provider_free env host opts s = (r, s')"
  shows "rc_disk s' = rc_disk s \<and> (\<exists>new. rc_trace s' = rc_trace s @ new \<and> list_all is_note new)
    \<and> (case r of Inl e \<Rightarrow> True
       | Inr t \<Rightarrow> rc_approvals s' = [t] \<and> tk_status t = ''pending'' \<and> tk_run_id t = rc_run_id s'
           \<and> list_ex (\<lambda>d. pd_decision d = ''deny'' \<and> pd_action d = ''git:push'') (rc_policy_decisions s')
           \<and> (\<exists>sv. rc_saved s' = Some sv \<and> sv_status sv = WaitingForApproval \<and> sv_approvals sv = [t]))"
proof (cases r)
  case (Inl e)
  then show ?thesis using keepsD [OF noting_start assms] by (simp add: only_notes_def)
next
  case (Inr t)
  show ?thesis
  proof (rule start_ok [OF assms [unfolded Inr]])
    fix w denied allowed sv
    assume "rc_approvals s' = [t]" "rc_policy_decisions s' = [denied, allowed]" "pd_decision denied = ''deny''"
      "pd_action denied = ''git:push''" "tk_status t = ''pending''" "tk_run_id t = rc_run_id s'"
      "rc_saved s' = Some sv" "sv_status sv = WaitingForApproval" "sv_approvals sv = [t]"
    with keepsD [OF noting_start assms] show ?thesis by (simp add: Inr only_notes_def)
  qed
qed

end
