(* ===== verification/Run_Liveness.thy ===== *)
theory Run_Liveness
  imports Run_Outcome
begin

text \<open>
  In a healthy environment, where system calls succeed and the serializers accept what they
  are given, an approved patch does get applied and a passing verifier does get the run
  accepted.  \<open>goes P m Q\<close> is the total-correctness triple: from a state with \<open>P\<close> the act
  succeeds and ends with \<open>Q\<close>.
\<close>

subsection \<open>Acts that always succeed\<close>

text \<open>No system call fails, every value prints, and what was printed can be read back.\<close>

definition healthy :: "run_env \<Rightarrow> bool" where
  "healthy env \<longleftrightarrow>
     (\<forall>k. re_io env k) \<and> (\<forall>v. \<exists>c. re_pretty env v = Inr c \<and> (\<exists>v'. re_from_str env c = Inr v'))"

definition succeeds :: "'a run_act \<Rightarrow> bool" where
  "succeeds m \<longleftrightarrow> (\<forall>s. \<not> isl (fst (m s)))"

named_theorems succeed_rules \<open>acts that succeed in a healthy environment\<close>

lemma succeeds_bind [succeed_rules]: "succeeds m \<Longrightarrow> (\<And>x. succeeds (f x)) \<Longrightarrow> succeeds (act_bind m f)"
  unfolding succeeds_def act_bind_def by (auto split: prod.splits sum.splits) (metis fst_conv sum.disc(1))

lemma succeeds_let [succeed_rules]: "succeeds (f x) \<Longrightarrow> succeeds (let y = x in f y)"
  by simp

lemma succeeds_if [succeed_rules]: "succeeds m \<Longrightarrow> succeeds m' \<Longrightarrow> succeeds (if c then m else m')"
  by simp

lemma succeeds_option [succeed_rules]:
  "succeeds m \<Longrightarrow> (\<And>y. succeeds (f y)) \<Longrightarrow> succeeds (case x of None \<Rightarrow> m | Some y \<Rightarrow> f y)"
  by (cases x) auto

lemma succeeds_elementary [succeed_rules]:
  "succeeds (act_return x)" "succeeds get_ctx" "succeeds draw" "succeeds (log_step st)"
  "succeeds (write_file path content)" "succeeds (push_artifact a)" "succeeds (push_closure r)"
  "succeeds (push_repair ra)" "succeeds (remove_sandbox env dir)"
  by (simp_all add: succeeds_def get_ctx_def draw_def log_step_def write_file_def push_artifact_def
      push_closure_def push_repair_def remove_sandbox_def act_bind_def)

lemma succeeds_pretty [succeed_rules]:
  assumes "healthy env"
  shows "succeeds (act_lift (re_pretty env v))"
  using assms by (simp add: succeeds_def healthy_def) (metis sum.disc(2))

lemma succeeds_io [succeed_rules]:
  assumes "healthy env"
  shows "succeeds (io_call env msg)" "succeeds (now env)" "succeeds (new_id env p)"
  unfolding io_call_def now_def new_id_def using assms
  by (auto simp: succeeds_def act_bind_def draw_def healthy_def bail_if_def)

lemma succeeds_emit [succeed_rules]:
  assumes "healthy env"
  shows "succeeds (emit env event_type role_id task_id act payload)"
  unfolding emit_def by (intro succeed_rules assms)

lemma succeeds_artifact [succeed_rules]:
  assumes "healthy env"
  shows "succeeds (put_artifact env ty producer name media content refs)"
  unfolding put_artifact_def put_text_def artifact_created_def by (intro succeed_rules assms)

lemma succeeds_json [succeed_rules]:
  assumes "healthy env"
  shows "succeeds (put_json env ty producer name v refs)"
  unfolding put_json_def by (intro succeed_rules assms)

lemma succeeds_emit_for [succeed_rules]:
  assumes "healthy env"
  shows "succeeds (emit_for env p event_type act payload)"
  unfolding emit_for_def by (intro succeed_rules assms)

lemma succeeds_read_consumed [succeed_rules]:
  assumes "healthy env"
  shows "succeeds (read_consumed env)"
  unfolding read_consumed_def by (intro succeed_rules assms)

lemma succeeds_review [succeed_rules]:
  assumes "healthy env"
  shows "succeeds (review_with env task_id file_name content concerns input_refs)"
    "succeeds (record_repair_attempt env a)"
    "succeeds (report_attempt env attempt trigger status evidence summary event_type role_id task_id)"
  unfolding review_with_def record_repair_attempt_def report_attempt_def by (intro succeed_rules assms)+

subsection \<open>Clerical work\<close>

text \<open>The payloads that a run reads back are kept in JSON files, and every JSON file can be read.\<close>

definition payload_types :: "string list" where
  "payload_types = [''provider_transcript_summary'', ''repair_source_context'']"

definition legible :: "run_env \<Rightarrow> run_ctx \<Rightarrow> bool" where
  "legible env s \<longleftrightarrow>
     (\<forall>path content. suffix ''.json'' path \<longrightarrow> rc_files s path = Some content \<longrightarrow>
        (\<exists>v. re_from_str env content = Inr v))
     \<and> (\<forall>a \<in> set (rc_artifacts s). ar_artifact_type a \<in> set payload_types \<longrightarrow>
        suffix ''.json'' (ar_uri a))"

lemma legible_cong:
  "rc_files s' = rc_files s \<Longrightarrow> rc_artifacts s' = rc_artifacts s \<Longrightarrow> legible env s' = legible env s"
  by (simp only: legible_def)

lemma legible_update [simp]:
  "legible env (s\<lparr>rc_disk := d\<rparr>) = legible env s" "legible env (s\<lparr>rc_consumed := c\<rparr>) = legible env s"
  "legible env (s\<lparr>rc_trace := tr\<rparr>) = legible env s" "legible env (s\<lparr>rc_draws := n\<rparr>) = legible env s"
  "legible env (s\<lparr>rc_closure_reports := cs\<rparr>) = legible env s"
  "legible env (s\<lparr>rc_repair_attempts := ras\<rparr>) = legible env s"
  by (rule legible_cong; simp)+

text \<open>Steps that touch neither the disk nor the tickets and leave the summaries legible.\<close>

definition clerk :: "run_env \<Rightarrow> run_ctx \<Rightarrow> run_ctx \<Rightarrow> bool" where
  "clerk env s s' \<longleftrightarrow> same_run s s' \<and> rc_disk s' = rc_disk s \<and> rc_approvals s' = rc_approvals s
     \<and> rc_consumed s' = rc_consumed s \<and> (legible env s \<longrightarrow> legible env s')"

lemma clerk_refl [simp]: "clerk env s s"
  by (simp add: clerk_def)

lemma clerk_trans: "clerk env s t \<Longrightarrow> clerk env t u \<Longrightarrow> clerk env s u"
  by (auto simp: clerk_def intro: same_run_trans)

interpretation clerical: run_steps env "clerk env" for env
  by unfold_locales
    (simp, erule (1) clerk_trans, (rule keepsI, simp add: elementary_defs clerk_def same_run_def)+)

lemma json_path: "suffix ''.json'' (path_join dir name) \<longleftrightarrow> suffix ''.json'' name"
proof -
  have slash: "suffix ''.json'' ((d @ ''/'') @ name) \<longleftrightarrow> suffix ''.json'' name" for d
  proof -
    have False if "''.json'' = xs @ name" "suffix xs (d @ ''/'')" "xs \<noteq> []" for xs
    proof -
      from that(2,3) have "last xs = CHR ''/''"
        unfolding suffix_def by (metis last_append last_snoc)
      with that(3) have "CHR ''/'' \<in> set xs" by (metis last_in_set)
      then have "CHR ''/'' \<in> set ''.json''" unfolding that(1) by simp
      then show False by simp
    qed
    then show ?thesis unfolding suffix_append by (metis append_Nil suffix_order.refl)
  qed
  show ?thesis
  proof (cases "suffix ''/'' dir")
    case True
    then obtain d where "dir = d @ ''/''" by (auto simp: suffix_def)
    with slash [of d] show ?thesis by (simp add: path_join_def)
  next
    case False
    with slash [of dir] show ?thesis by (simp add: path_join_def)
  qed
qed

lemma clerical_write:
  assumes "suffix ''.json'' path \<Longrightarrow> \<exists>v. re_from_str env content = Inr v"
  shows "keeps (clerk env) (write_file path content)"
  using assms by (intro keepsI) (auto simp: write_file_def clerk_def same_run_def legible_def)

lemma clerical_push:
  assumes "ar_artifact_type a \<in> set payload_types \<Longrightarrow> suffix ''.json'' (ar_uri a)"
  shows "keeps (clerk env) (push_artifact a)"
  using assms by (intro keepsI) (auto simp: push_artifact_def clerk_def same_run_def legible_def)

text \<open>A stored artifact is legible when its content is, or when it does not claim to be JSON.\<close>

lemma clerical_artifact:
  assumes "healthy env" and "ty \<notin> set payload_types \<or> suffix ''.json'' name"
    and "\<not> suffix ''.json'' name \<or> (\<exists>v. re_from_str env content = Inr v)"
  shows "keeps (clerk env) (put_artifact env ty producer name media content refs)"
proof -
  have manifest: "\<exists>v. re_from_str env c = Inr v" if "re_pretty env w = Inr c" for w c
    using assms(1) that unfolding healthy_def by (metis sum.inject(2))
  have lift: "keeps (clerk env) (act_bind (act_lift (re_pretty env w)) f)"
    if "\<And>c. \<exists>v. re_from_str env c = Inr v \<Longrightarrow> keeps (clerk env) (f c)" for w and f :: "string \<Rightarrow> 'b run_act"
  proof (cases "re_pretty env w")
    case (Inl e)
    then show ?thesis by (simp add: keeps_def act_bind_def)
  next
    case (Inr c)
    then show ?thesis using that manifest [OF Inr] by (simp add: keeps_def act_bind_def)
  qed
  have ty: "ar_artifact_type a \<in> set payload_types \<Longrightarrow> suffix ''.json'' (ar_uri a)"
    if "put_text env ty producer name media content refs s = (Inr a, s')" for a s s'
    using that assms(2) by (auto simp: put_text_def act_bind_ok Let_def json_path)
  have text': "keeps (clerk env) (put_text env ty producer name media content refs)"
    unfolding put_text_def Let_def
    by (intro clerical.bind clerical.pure clerical.fresh_id clerical.io clerical_write lift)
      (use assms(3) in \<open>auto simp: json_path\<close>)
  have created: "keeps (clerk env) (artifact_created env a)"
    if "ar_artifact_type a \<in> set payload_types \<Longrightarrow> suffix ''.json'' (ar_uri a)" for a
    unfolding artifact_created_def by (intro clerical.bind clerical.event clerical_push that)
  show ?thesis
    unfolding keeps_def
  proof (intro allI impI)
    fix s r s'
    assume run: "put_artifact env ty producer name media content refs s = (r, s')"
    obtain x t where put: "put_text env ty producer name media content refs s = (x, t)"
      by (cases "put_text env ty producer name media content refs s")
    note first = keepsD [OF text' put]
    show "clerk env s s'"
    proof (cases x)
      case (Inl e)
      then show ?thesis using run put first by (simp add: put_artifact_def act_bind_def)
    next
      case (Inr a)
      have "keeps (clerk env) (act_bind (artifact_created env a) (\<lambda>_. act_return a))"
        using created [OF ty] put Inr by (intro clerical.bind clerical.pure) blast
      moreover have "act_bind (artifact_created env a) (\<lambda>_. act_return a) t = (r, s')"
        using run put Inr by (simp add: put_artifact_def act_bind_def)
      ultimately show ?thesis using first keepsD clerk_trans by metis
    qed
  qed
qed

lemma clerical_json:
  assumes "healthy env" and "suffix ''.json'' name"
  shows "keeps (clerk env) (put_json env ty producer name v refs)"
proof -
  obtain c where c: "re_pretty env v = Inr c" "\<exists>w. re_from_str env c = Inr w"
    using assms(1) unfolding healthy_def by blast
  have "put_json env ty producer name v refs = put_artifact env ty producer name ''application/json'' c refs"
    using c(1) by (simp add: put_json_def fun_eq_iff act_bind_def)
  then show ?thesis using clerical_artifact [OF assms(1)] assms(2) c(2) by simp
qed

lemma json_name [simp]: "suffix ''.json'' (a @ ''.json'')"
  by (simp add: suffix_def)

lemma json_names [simp]: "suffix ''.json'' s \<Longrightarrow> suffix ''.json'' (a @ s)" "suffix ''.json'' s \<Longrightarrow> suffix ''.json'' (x # s)"
  by (simp_all add: suffix_ConsI suffix_appendI)

lemma clerical_text:
  assumes "healthy env" and "ty \<notin> set payload_types" and "\<not> suffix ''.json'' name"
  shows "keeps (clerk env) (put_artifact env ty producer name media content refs)"
  using assms by (intro clerical_artifact) auto

lemma clerical_steps:
  "keeps (clerk env) (emit_for env p event_type act payload)" "keeps (clerk env) (read_consumed env)"
  "keeps (clerk env) (push_closure r)" "keeps (clerk env) (push_repair a)"
  unfolding emit_for_def read_consumed_def
  by (intro keep_rules | (rule keepsI, simp add: push_closure_def push_repair_def clerk_def same_run_def))+

subsection \<open>Total correctness\<close>

definition goes :: "(run_ctx \<Rightarrow> bool) \<Rightarrow> 'a run_act \<Rightarrow> ('a \<Rightarrow> run_ctx \<Rightarrow> bool) \<Rightarrow> bool" where
  "goes P m Q \<longleftrightarrow> (\<forall>s. P s \<longrightarrow> (\<exists>x s'. m s = (Inr x, s') \<and> Q x s'))"

lemma goes_bind: "goes P m R \<Longrightarrow> (\<And>x. goes (R x) (f x) Q) \<Longrightarrow> goes P (act_bind m f) Q"
  unfolding goes_def by (metis act_bind_Inr)

lemma goes_return: "(\<And>s. P s \<Longrightarrow> Q x s) \<Longrightarrow> goes P (act_return x) Q"
  by (simp add: goes_def)

lemma goes_clerk:
  assumes "succeeds m" and "keeps (clerk env) m" and "\<And>x. goes (clerk env s0) (f x) Q"
  shows "goes (clerk env s0) (act_bind m f) Q"
proof (rule goes_bind [where R = "\<lambda>_. clerk env s0"])
  show "goes (clerk env s0) m (\<lambda>_. clerk env s0)"
    unfolding goes_def
  proof (intro allI impI)
    fix s
    assume "clerk env s0 s"
    obtain x s' where run: "m s = (x, s')" by (cases "m s")
    with assms(1) obtain y where "x = Inr y" unfolding succeeds_def by (metis fst_conv isl_def sum.exhaust)
    with run keepsD [OF assms(2) run] \<open>clerk env s0 s\<close>
    show "\<exists>x s'. m s = (Inr x, s') \<and> clerk env s0 s'" using clerk_trans by blast
  qed
qed (rule assms(3))

lemma goes_get: "(\<And>s. clerk env s0 s \<Longrightarrow> goes (clerk env s0) (f s) Q) \<Longrightarrow> goes (clerk env s0) (act_bind get_ctx f) Q"
  by (auto simp: goes_def act_bind_def get_ctx_def)

lemma goes_change:
  assumes "\<And>s. clerk env s0 s \<Longrightarrow> \<exists>x s'. m s = (Inr x, s') \<and> clerk env s1 s'"
    and "\<And>x. goes (clerk env s1) (f x) Q"
  shows "goes (clerk env s0) (act_bind m f) Q"
  by (rule goes_bind [where R = "\<lambda>_. clerk env s1"]) (use assms in \<open>auto simp: goes_def\<close>)

lemma goes_value:
  assumes "\<And>s. clerk env s0 s \<Longrightarrow> m s = (Inr x, s)" and "goes (clerk env s0) (f x) Q"
  shows "goes (clerk env s0) (act_bind m f) Q"
  using assms unfolding goes_def by (simp add: act_bind_def)

subsection \<open>An approved patch\<close>

definition gate_request :: "run_ctx \<Rightarrow> patch_site \<Rightarrow> patch_preview \<Rightarrow> approval_ticket \<Rightarrow> apply_request" where
  "gate_request s p preview t =
     \<lparr>aq_target_repo = rc_target_repo s, aq_sandbox_path = sandbox_dir s p,
      aq_expected_subject = pp_subject preview, aq_expected_digest = pp_action_digest preview,
      aq_approver = (case tk_approver t of None \<Rightarrow> ''human:local-user'' | Some who \<Rightarrow> who)\<rparr>"

text \<open>The sandbox is there, an approved ticket for its preview passes every check, and the file
  system lets the patch through.\<close>

definition ready ::
    "run_env \<Rightarrow> run_ctx \<Rightarrow> patch_site \<Rightarrow> patch_preview \<Rightarrow> approval_ticket \<Rightarrow> tree \<Rightarrow> bool" where
  "ready env s p preview t tree \<longleftrightarrow>
     (\<exists>sandbox.
        dk_sandbox (rc_disk s) (sandbox_dir s p) = Some sandbox
        \<and> preview_sandbox_patch (re_patch env) (rc_target_repo s) (sandbox_dir s p)
            (Some (dk_target (rc_disk s))) (Some sandbox) = Inr preview
        \<and> approved_for s (sandbox_apply_request p preview) preview = Some t
        \<and> (\<forall>k. ticket_refusal env s preview (re_clock env k) t = None)
        \<and> (\<forall>k. \<exists>result. apply_sandbox_patch (re_patch env) (re_apply_io env k) (Some sandbox)
             (gate_request s p preview t) (dk_target (rc_disk s)) = (Inr result, tree)))"

definition patched :: "run_ctx \<Rightarrow> patch_site \<Rightarrow> approval_ticket \<Rightarrow> tree \<Rightarrow> run_ctx" where
  "patched s p t tree =
     s\<lparr>rc_disk := \<lparr>dk_target = tree, dk_sandbox = (dk_sandbox (rc_disk s))(sandbox_dir s p := None)\<rparr>,
       rc_consumed := Some (consumed_tickets s @ [tk_ticket_id t])\<rparr>"

lemma clerk_fields:
  assumes "clerk env s0 s"
  shows "rc_disk s = rc_disk s0" "rc_approvals s = rc_approvals s0" "rc_consumed s = rc_consumed s0"
    "rc_run_dir s = rc_run_dir s0" "rc_run_id s = rc_run_id s0" "rc_target_repo s = rc_target_repo s0"
    "consumed_tickets s = consumed_tickets s0"
  using assms by (simp_all add: clerk_def same_run_def consumed_tickets_def)

lemma clerk_reads:
  assumes "clerk env s0 s"
  shows "sandbox_dir s p = sandbox_dir s0 p" "approved_for s req preview = approved_for s0 req preview"
    "ticket_refusal env s preview time t = ticket_refusal env s0 preview time t"
    "gate_request s p preview t = gate_request s0 p preview t"
    "preview_now env dir s = (preview_sandbox_patch (re_patch env) (rc_target_repo s0) dir
        (Some (dk_target (rc_disk s0))) (dk_sandbox (rc_disk s0) dir), s)"
proof -
  note fields = clerk_fields [OF assms]
  show "sandbox_dir s p = sandbox_dir s0 p" by (simp only: sandbox_dir_def fields)
  show "approved_for s req preview = approved_for s0 req preview" by (simp only: approved_for_def fields)
  show "ticket_refusal env s preview time t = ticket_refusal env s0 preview time t"
    by (simp only: ticket_refusal_def fields)
  show "gate_request s p preview t = gate_request s0 p preview t"
    by (simp only: gate_request_def sandbox_dir_def fields)
  show "preview_now env dir s = (preview_sandbox_patch (re_patch env) (rc_target_repo s0) dir
        (Some (dk_target (rc_disk s0))) (dk_sandbox (rc_disk s0) dir), s)"
    by (simp only: preview_now_def fields)
qed

text \<open>The three steps of the gate that change what \<open>clerk\<close> watches.\<close>

lemma goes_preview:
  assumes "preview_sandbox_patch (re_patch env) (rc_target_repo s0) dir
      (Some (dk_target (rc_disk s0))) (dk_sandbox (rc_disk s0) dir) = Inr preview"
    and "goes (clerk env s0) (f preview) Q"
  shows "goes (clerk env s0) (act_bind (preview_now env dir) f) Q"
  by (rule goes_value [where x = preview]) (simp_all add: clerk_reads(5) assms)

lemma goes_apply:
  assumes "\<And>k. \<exists>result. apply_sandbox_patch (re_patch env) (re_apply_io env k)
      (dk_sandbox (rc_disk s0) (aq_sandbox_path req)) req (dk_target (rc_disk s0)) = (Inr result, tree)"
    and "\<And>x. goes (clerk env (s0\<lparr>rc_disk := (rc_disk s0)\<lparr>dk_target := tree\<rparr>\<rparr>)) (f x) Q"
  shows "goes (clerk env s0) (act_bind (apply_now env t req) f) Q"
proof (rule goes_change [OF _ assms(2)])
  fix s
  assume s: "clerk env s0 s"
  obtain result where "apply_sandbox_patch (re_patch env) (re_apply_io env (rc_draws s))
      (dk_sandbox (rc_disk s0) (aq_sandbox_path req)) req (dk_target (rc_disk s0)) = (Inr result, tree)"
    using assms(1) by blast
  then show "\<exists>x s'. apply_now env t req s = (Inr x, s') \<and> clerk env (s0\<lparr>rc_disk := (rc_disk s0)\<lparr>dk_target := tree\<rparr>\<rparr>) s'"
    using s by (simp add: apply_now_def act_bind_def draw_def clerk_fields [OF s])
      (simp add: clerk_def same_run_def)
qed

lemma goes_removed:
  assumes "healthy env"
    and "\<And>x. goes (clerk env (s0\<lparr>rc_disk := (rc_disk s0)\<lparr>dk_sandbox := (dk_sandbox (rc_disk s0))(dir := None)\<rparr>\<rparr>)) (f x) Q"
  shows "goes (clerk env s0) (act_bind (remove_sandbox env dir) f) Q"
  by (rule goes_change [OF _ assms(2)])
    (use assms(1) in \<open>simp add: remove_sandbox_def act_bind_def draw_def healthy_def clerk_def same_run_def\<close>)

lemma goes_consume:
  assumes "healthy env"
    and "\<And>x. goes (clerk env (s0\<lparr>rc_consumed := Some (consumed_tickets s0 @ [i])\<rparr>)) (f x) Q"
  shows "goes (clerk env s0) (act_bind (consume_ticket env i) f) Q"
  by (rule goes_change [OF _ assms(2)])
    (use assms(1) in \<open>simp add: consume_ticket_def act_bind_def get_ctx_def io_call_def draw_def
       healthy_def bail_if_def clerk_def same_run_def consumed_tickets_def\<close>)

lemma goes_weaken: "goes P m Q \<Longrightarrow> (\<And>s. P' s \<Longrightarrow> P s) \<Longrightarrow> (\<And>x s. Q x s \<Longrightarrow> Q' x s) \<Longrightarrow> goes P' m Q'"
  unfolding goes_def by blast

lemma goes_verified:
  assumes env: "healthy env" and ready: "ready env s0 p preview t tree" and s: "clerk env s0 s"
  shows "goes (clerk env s0) (apply_verified env p preview t s)
    (\<lambda>st s'. st = Accepted \<and> clerk env (patched s0 p t tree) s')"
proof -
  obtain sandbox where sandbox: "dk_sandbox (rc_disk s0) (sandbox_dir s0 p) = Some sandbox"
    and preview: "preview_sandbox_patch (re_patch env) (rc_target_repo s0) (sandbox_dir s0 p)
            (Some (dk_target (rc_disk s0))) (Some sandbox) = Inr preview"
    and apply': "\<And>k. \<exists>result. apply_sandbox_patch (re_patch env) (re_apply_io env k) (Some sandbox)
             (gate_request s0 p preview t) (dk_target (rc_disk s0)) = (Inr result, tree)"
    using ready unfolding ready_def by blast
  have req: "\<lparr>aq_target_repo = rc_target_repo s, aq_sandbox_path = sandbox_dir s p,
       aq_expected_subject = pp_subject preview, aq_expected_digest = pp_action_digest preview,
       aq_approver = (case tk_approver t of None \<Rightarrow> ''human:local-user'' | Some who \<Rightarrow> who)\<rparr>
     = gate_request s0 p preview t"
    using clerk_reads(4) [OF s] by (simp add: gate_request_def)
  have path: "aq_sandbox_path (gate_request s0 p preview t) = sandbox_dir s0 p"
    by (simp add: gate_request_def)
  have state: "s0\<lparr>rc_disk := (rc_disk s0)\<lparr>dk_target := tree\<rparr>,
      rc_disk := (rc_disk (s0\<lparr>rc_disk := (rc_disk s0)\<lparr>dk_target := tree\<rparr>\<rparr>))
        \<lparr>dk_sandbox := (dk_sandbox (rc_disk (s0\<lparr>rc_disk := (rc_disk s0)\<lparr>dk_target := tree\<rparr>\<rparr>)))(sandbox_dir s0 p := None)\<rparr>,
      rc_consumed := Some (consumed_tickets (s0\<lparr>rc_disk := (rc_disk s0)\<lparr>dk_target := tree\<rparr>,
        rc_disk := (rc_disk (s0\<lparr>rc_disk := (rc_disk s0)\<lparr>dk_target := tree\<rparr>\<rparr>))
          \<lparr>dk_sandbox := (dk_sandbox (rc_disk (s0\<lparr>rc_disk := (rc_disk s0)\<lparr>dk_target := tree\<rparr>\<rparr>)))(sandbox_dir s0 p := None)\<rparr>\<rparr>) @ [tk_ticket_id t])\<rparr>
    = patched s0 p t tree"
    by (simp add: patched_def consumed_tickets_def)
  show ?thesis
    unfolding apply_verified_def Let_def req
    unfolding clerk_reads(1) [OF s]
    apply (rule goes_clerk [OF succeeds_emit_for [OF env] clerical_steps(1)])
    apply (rule goes_preview [where preview = preview])
     apply (simp add: sandbox preview)
    apply (simp only: simp_thms if_False)
    apply (rule goes_clerk [OF succeeds_json [OF env] clerical_json [OF env]], simp)
    apply (rule goes_apply [where tree = tree])
     apply (simp add: path sandbox apply')
    apply (rule goes_clerk [OF succeeds_json [OF env] clerical_json [OF env]], simp)
    apply (rule goes_clerk [OF succeeds_emit_for [OF env] clerical_steps(1)])
    apply (rule goes_removed [OF env])
    apply (rule goes_consume [OF env])
    apply (simp only: state)
    apply (rule goes_get)
    apply (rule goes_clerk [OF succeeds_artifact [OF env] clerical_text [OF env]], simp add: payload_types_def, simp add: suffix_def)
    apply (rule goes_clerk [OF succeeds_emit_for [OF env] clerical_steps(1)])
    apply (rule goes_return)
    apply simp
    done
qed

lemma goes_approved:
  assumes env: "healthy env" and ready: "ready env s0 p preview t tree"
  shows "goes (clerk env s0) (apply_approved env p preview t)
    (\<lambda>st s'. st = Accepted \<and> clerk env (patched s0 p t tree) s')"
  unfolding apply_approved_def
proof (rule goes_get)
  fix s
  assume s: "clerk env s0 s"
  have none: "ticket_refusal env s preview (re_clock env k) t = None" for k
    using ready clerk_reads(3) [OF s] unfolding ready_def by metis
  have clock: "\<exists>k s'. now env u = (Inr (re_clock env k), s') \<and> clerk env s0 s'" if "clerk env s0 u" for u
    using that by (simp add: now_def act_bind_def draw_def act_return_def clerk_def same_run_def) blast
  show "goes (clerk env s0) (act_bind (now env) (\<lambda>time. case ticket_refusal env s preview time t of
      Some (reason, msg) \<Rightarrow> refuse env p reason msg | None \<Rightarrow> apply_verified env p preview t s))
    (\<lambda>st s'. st = Accepted \<and> clerk env (patched s0 p t tree) s')"
    by (rule goes_bind [where R = "\<lambda>time u. (\<exists>k. time = re_clock env k) \<and> clerk env s0 u"])
      (use clock none goes_verified [OF env ready s] in \<open>auto simp: goes_def, (metis | fastforce)?\<close>)
qed

lemma goes_patch:
  assumes env: "healthy env" and ready: "ready env s0 p preview t tree"
  shows "goes (clerk env s0) (apply_provider_prompt_patch_for_role env p)
    (\<lambda>st s'. st = Accepted \<and> clerk env (patched s0 p t tree) s')"
  unfolding apply_provider_prompt_patch_for_role_def
proof (rule goes_get)
  fix s
  assume s: "clerk env s0 s"
  obtain sandbox where sandbox: "dk_sandbox (rc_disk s0) (sandbox_dir s0 p) = Some sandbox"
    and preview: "preview_sandbox_patch (re_patch env) (rc_target_repo s0) (sandbox_dir s0 p)
            (Some (dk_target (rc_disk s0))) (Some sandbox) = Inr preview"
    and ticket: "approved_for s0 (sandbox_apply_request p preview) preview = Some t"
    using ready unfolding ready_def by blast
  have resuming: "dk_sandbox (rc_disk s) (sandbox_dir s p) \<noteq> None"
    using sandbox clerk_reads(1) [OF s] clerk_fields(1) [OF s] by simp
  show "goes (clerk env s0) (let dir = sandbox_dir s p; resuming = dk_sandbox (rc_disk s) dir \<noteq> None in
     if find_artifact s (ps_role p) ''provider_transcript_summary'' (summary_filename p) \<noteq> None
        \<and> \<not> resuming
     then act_return Accepted
     else
     act_bind (emit_for env p ''role.started'' (actor_role (ps_role p))
       (json_object [(''status'', JString ''started''),
         (''provider'', JString (provider_name (ps_provider p)))])) (\<lambda>_.
     act_bind (if resuming then preview_now env dir else run_in_sandbox env p) (\<lambda>preview.
     act_bind (read_consumed env) (\<lambda>_.
     act_bind get_ctx (\<lambda>s.
     let req = sandbox_apply_request p preview in
     case approved_for s req preview of
       Some t \<Rightarrow> apply_approved env p preview t
     | None \<Rightarrow>
         (case stale_approval s req preview of
            Some t \<Rightarrow>
              act_bind (emit_for env p ''approval.denied'' actor_system
                (json_object [(''reason'', JString ''sandbox changed after approval''),
                  (''approved_ticket_id'', JString (tk_ticket_id t)),
                  (''approved_action_digest'', JString (tk_action_digest t)),
                  (''current_action_digest'', JString (pp_action_digest preview))])) (\<lambda>_.
                act_lift (Inl ''approval verification failed: sandbox changed after approval''))
          | None \<Rightarrow> request_approval env p preview))))))
    (\<lambda>st s'. st = Accepted \<and> clerk env (patched s0 p t tree) s')"
    using resuming
    apply (simp only: Let_def simp_thms if_False if_True not_True_eq_False)
    apply (rule goes_clerk [OF succeeds_emit_for [OF env] clerical_steps(1)])
    apply (rule goes_preview [where preview = preview])
     apply (simp only: clerk_reads(1) [OF s] sandbox preview)
    apply (rule goes_clerk [OF succeeds_read_consumed [OF env] clerical_steps(2)])
    apply (rule goes_get)
    apply (simp only: clerk_reads(2) ticket option.case)
    apply (rule goes_approved [OF env ready])
    done
qed

subsection \<open>A run that can end\<close>

text \<open>Clerical acts that also read the summaries.\<close>

definition works :: "run_env \<Rightarrow> 'a run_act \<Rightarrow> bool" where
  "works env m \<longleftrightarrow> (\<forall>s. legible env s \<longrightarrow> (\<exists>x s'. m s = (Inr x, s') \<and> clerk env s s'))"

named_theorems work_rules \<open>acts that work when the summaries are legible\<close>

lemma works_bind [work_rules]:
  assumes "works env m" and "\<And>x. works env (f x)"
  shows "works env (act_bind m f)"
  unfolding works_def
proof (intro allI impI)
  fix s
  assume "legible env s"
  with assms(1) obtain x u where m: "m s = (Inr x, u)" "clerk env s u" unfolding works_def by blast
  with \<open>legible env s\<close> have "legible env u" by (simp add: clerk_def)
  with assms(2) obtain y s' where "f x u = (Inr y, s')" "clerk env u s'" unfolding works_def by blast
  with m show "\<exists>x s'. act_bind m f s = (Inr x, s') \<and> clerk env s s'"
    using clerk_trans by (auto simp: act_bind_Inr)
qed

lemma works_let [work_rules]: "works env (f x) \<Longrightarrow> works env (let y = x in f y)"
  by simp

lemma works_if [work_rules]: "works env m \<Longrightarrow> works env m' \<Longrightarrow> works env (if c then m else m')"
  by simp

lemma works_step:
  assumes "succeeds m" and "keeps (clerk env) m"
  shows "works env m"
  unfolding works_def using assms
  by (metis eq_fst_iff isl_def keepsD succeeds_def sum.exhaust)

lemma works_steps [work_rules]:
  assumes "healthy env"
  shows "works env (act_return x)" "works env get_ctx" "works env (now env)"
    "works env (io_call env msg)" "works env (push_closure r)" "works env (push_repair a)"
    "works env (emit env event_type role_id task_id act payload)"
    "suffix ''.json'' name \<Longrightarrow> works env (put_json env ty producer name v refs)"
  by (rule works_step; rule succeed_rules clerical.pure clerical.clock clerical.io clerical.event
      clerical_steps clerical_json | rule assms | assumption)+

lemma works_payloads:
  assumes env: "healthy env" and files: "legible env s"
    and "\<And>a. a \<in> set as \<Longrightarrow> ar_artifact_type a = ty \<Longrightarrow> suffix ''.json'' (ar_uri a)"
  shows "works env (payloads_of env (rc_files s) ty as)"
  using assms(3)
proof (induction as)
  case Nil
  show ?case unfolding payloads_of.simps by (intro work_rules env)
next
  case (Cons a as)
  then have rest: "works env (payloads_of env (rc_files s) ty as)" by simp
  show ?case
  proof (cases "ar_artifact_type a = ty \<and> rc_files s (ar_uri a) \<noteq> None")
    case False
    with rest show ?thesis by auto
  next
    case True
    then obtain content where content: "rc_files s (ar_uri a) = Some content" by blast
    with True files Cons.prems obtain v where "re_from_str env content = Inr v"
      unfolding legible_def by (metis list.set_intros(1))
    then have "works env (act_lift (re_from_str env content))" by (simp add: works_def)
    with True content show ?thesis
      by simp (intro work_rules env rest)
  qed
qed

lemma works_summaries [work_rules]:
  assumes "healthy env" and "ty \<in> set payload_types"
  shows "works env (artifact_json_payloads env ty)"
  unfolding works_def
proof (intro allI impI)
  fix s
  assume s: "legible env s"
  then have "works env (payloads_of env (rc_files s) ty (rc_artifacts s))"
    using assms(2) by (intro works_payloads assms(1)) (auto simp: legible_def)
  with s show "\<exists>x s'. artifact_json_payloads env ty s = (Inr x, s') \<and> clerk env s s'"
    by (simp add: works_def artifact_json_payloads_def act_bind_def get_ctx_def)
qed

lemma works_closing [work_rules]:
  assumes "healthy env"
  shows "works env (close_with env verdict task_id results evidence concerns)"
  unfolding close_with_def provider_cost_summary_def by (intro work_rules assms) (simp_all add: payload_types_def)

lemma works_accept:
  assumes "healthy env"
  shows "works env (accept_verified env test_log)"
  unfolding accept_verified_def reviewer_accept_real_project_def accept_real_project_final_def
    review_with_def
  by (intro work_rules assms) (simp add: suffix_def)

lemma works_reject:
  assumes "healthy env"
  shows "works env (repair_or_reject env provider prompt 0 budget v)"
  unfolding repair_or_reject_def reviewer_verifier_failure_def review_with_def
    reject_real_project_verifier_failure_def record_repair_budget_exhausted_def report_attempt_def
    record_repair_attempt_def if_P [OF refl]
  by (intro work_rules assms) (simp_all add: suffix_def)

text \<open>The verifier's verdict on a tree: every run of the command there says \<open>ok\<close> and changes nothing.\<close>

definition verdict_on :: "run_env \<Rightarrow> string \<Rightarrow> disk \<Rightarrow> bool \<Rightarrow> bool" where
  "verdict_on env c d ok \<longleftrightarrow> (\<forall>k. \<exists>out. re_command env k c d = (Some out, d) \<and> vo_success out = ok)"

lemma goes_verifier:
  assumes env: "healthy env"
    and verdict: "verdict_on env (resolve_verifier_command env (rc_verifier_command s0)) (rc_disk s0) ok"
  shows "goes (clerk env s0) (run_verifier env) (\<lambda>v s'. vr_success v = ok \<and> clerk env s0 s')"
  unfolding run_verifier_def
proof (rule goes_get)
  fix s
  assume s: "clerk env s0 s"
  have c: "resolve_verifier_command env (rc_verifier_command s) = resolve_verifier_command env (rc_verifier_command s0)"
    using s by (simp add: clerk_def same_run_def)
  let ?c = "resolve_verifier_command env (rc_verifier_command s0)"
  have "goes (clerk env s0) (run_command env True ?c msg) (\<lambda>out s'. vo_success out = ok \<and> clerk env s0 s')" for msg
    unfolding goes_def
  proof (intro allI impI)
    fix s
    assume s: "clerk env s0 s"
    then have "rc_disk s = rc_disk s0" by (simp add: clerk_def)
    moreover obtain out where "re_command env (rc_draws s) ?c (rc_disk s0) = (Some out, rc_disk s0)" "vo_success out = ok"
      using verdict unfolding verdict_on_def by blast
    ultimately show "\<exists>x s'. run_command env True ?c msg s = (Inr x, s') \<and> vo_success x = ok \<and> clerk env s0 s'"
      using s by (simp add: run_command_def act_bind_def draw_def clerk_def same_run_def)
  qed
  moreover have "goes (\<lambda>s. vo_success out = ok \<and> clerk env s0 s)
      (let content = verifier_log env ?c out in
       act_bind (put_artifact env ''test_log'' ''test-engineer'' ''pytest.log'' ''text/plain'' content []) (\<lambda>test_log.
       act_bind (emit env (if vo_success out then ''task.completed'' else ''task.failed'')
         (Some ''test-engineer'') (Some ''run_python_tests'') (actor_role ''test-engineer'')
         (json_object [(''command'', JString ?c), (''exit_code'', json_int (vo_code out)),
           (''output_digest'', JString (re_sha256 env content))])) (\<lambda>_.
       act_return \<lparr>vr_artifact = test_log, vr_success = vo_success out, vr_content = content\<rparr>)))
      (\<lambda>v s'. vr_success v = ok \<and> clerk env s0 s')" for out
  proof (cases "vo_success out = ok")
    case True
    show ?thesis
      unfolding Let_def
      apply (rule goes_weaken [where P = "clerk env s0", OF _ conjunct2])
        apply (rule goes_clerk [OF succeeds_artifact [OF env] clerical_text [OF env]], simp add: payload_types_def, simp add: suffix_def)
        apply (rule goes_clerk [OF succeeds_emit [OF env] clerical.event])
        apply (rule goes_return [where Q = "\<lambda>v s'. vr_success v = ok \<and> clerk env s0 s'"])
        apply (simp add: True)
       apply assumption+
      done
  qed (simp add: goes_def)
  ultimately show "goes (clerk env s0)
    (let command = resolve_verifier_command env (rc_verifier_command s) in
     act_bind (emit env ''role.started'' (Some ''test-engineer'') (Some ''run_python_tests'')
       (actor_role ''test-engineer'') (json_object [(''command'', JString command)])) (\<lambda>_.
     act_bind (run_command env True command (''run verifier with '' @ command)) (\<lambda>out.
     let content = verifier_log env command out in
     act_bind (put_artifact env ''test_log'' ''test-engineer'' ''pytest.log'' ''text/plain'' content []) (\<lambda>test_log.
     act_bind (emit env (if vo_success out then ''task.completed'' else ''task.failed'')
       (Some ''test-engineer'') (Some ''run_python_tests'') (actor_role ''test-engineer'')
       (json_object [(''command'', JString command),
         (''exit_code'', json_int (vo_code out)),
         (''output_digest'', JString (re_sha256 env content))])) (\<lambda>_.
     act_return \<lparr>vr_artifact = test_log, vr_success = vo_success out, vr_content = content\<rparr>)))))
    (\<lambda>v s'. vr_success v = ok \<and> clerk env s0 s')"
    unfolding c Let_def
    by (intro goes_clerk [OF succeeds_emit [OF env] clerical.event]) (rule goes_bind)
qed


text \<open>The task graph is off, and the one patch of the run is ready.\<close>

definition prompt_site :: "provider_kind \<Rightarrow> string \<Rightarrow> string option \<Rightarrow> patch_site" where
  "prompt_site provider prompt budget =
     \<lparr>ps_provider = provider, ps_prompt = prompt, ps_budget = budget, ps_role = ''implementer'',
      ps_action = ''provider_prompt_patch'', ps_task = None\<rparr>"

definition run_ready ::
    "run_env \<Rightarrow> run_ctx \<Rightarrow> patch_site \<Rightarrow> patch_preview \<Rightarrow> approval_ticket \<Rightarrow> tree \<Rightarrow> bool \<Rightarrow> bool" where
  "run_ready env s p preview t tree ok \<longleftrightarrow>
     healthy env \<and> legible env s \<and> task_order_of s = Inr None \<and> ready env s p preview t tree
     \<and> verdict_on env (resolve_verifier_command env (rc_verifier_command s)) (rc_disk (patched s p t tree)) ok"

lemma goes_patches:
  assumes ready: "run_ready env s0 (prompt_site provider prompt budget) preview t tree ok"
  shows "goes (clerk env s0) (apply_patches env provider prompt budget)
    (\<lambda>st s'. st = Accepted \<and> clerk env (patched s0 (prompt_site provider prompt budget) t tree) s')"
  unfolding apply_patches_def
proof (rule goes_get)
  fix s
  assume s: "clerk env s0 s"
  have order: "task_order_of s = Inr None"
    using ready s by (simp add: run_ready_def task_order_of_def clerk_def same_run_def)
  have "goes (clerk env s0) (apply_provider_prompt_patch env provider prompt budget)
    (\<lambda>st s'. st = Accepted \<and> clerk env (patched s0 (prompt_site provider prompt budget) t tree) s')"
    unfolding apply_provider_prompt_patch_def prompt_site_def [symmetric]
    using ready unfolding run_ready_def by (intro goes_patch) auto
  then show "goes (clerk env s0) (act_bind (act_lift (task_order_of s)) (\<lambda>order.
      if order \<noteq> None then run_sdd_provider_task_graph env provider prompt budget
      else apply_provider_prompt_patch env provider prompt budget))
    (\<lambda>st s'. st = Accepted \<and> clerk env (patched s0 (prompt_site provider prompt budget) t tree) s')"
    by (intro goes_value [where x = None]) (simp_all add: order)
qed

lemma end_status:
  "accept_verified env test_log s = (Inr st, s') \<Longrightarrow> st = Accepted"
  "repair_or_reject env provider prompt 0 budget v s = (Inr st, s') \<Longrightarrow> st = Rejected"
  by (auto simp: accept_verified_def repair_or_reject_def act_bind_ok)

lemma ready_run_ends:
  assumes ready: "run_ready env s (prompt_site provider prompt budget) preview t tree ok"
    and ends: "ok \<or> n = 0"
  shows "\<exists>s'. run_real_project_provider_workflow env provider prompt n budget s
      = (Inr (if ok then Accepted else Rejected), s')
    \<and> clerk env (patched s (prompt_site provider prompt budget) t tree) s'"
proof -
  let ?s1 = "patched s (prompt_site provider prompt budget) t tree"
  let ?finish = "\<lambda>v. if ok then accept_verified env (vr_artifact v)
      else repair_or_reject env provider prompt n budget v"
  have env: "healthy env" using ready by (simp add: run_ready_def)
  obtain s2 where patches: "apply_patches env provider prompt budget s = (Inr Accepted, s2)"
    "clerk env ?s1 s2"
    using goes_patches [OF ready] unfolding goes_def by (metis clerk_refl)
  have "legible env ?s1" using ready by (simp add: run_ready_def patched_def)
  have verdict: "verdict_on env (resolve_verifier_command env (rc_verifier_command ?s1)) (rc_disk ?s1) ok"
    using ready by (simp add: run_ready_def patched_def)
  obtain v s3 where verifier: "run_verifier env s2 = (Inr v, s3)" "vr_success v = ok" "clerk env ?s1 s3"
    using goes_verifier [OF env verdict] patches(2) unfolding goes_def by blast
  have "legible env s3" using \<open>legible env ?s1\<close> verifier(3) by (simp add: clerk_def)
  moreover have "works env (?finish v)"
    using ends works_accept [OF env] works_reject [OF env] by auto
  ultimately obtain st s' where last: "?finish v s3 = (Inr st, s')" "clerk env s3 s'"
    unfolding works_def by blast
  have "st = (if ok then Accepted else Rejected)"
    using last(1) ends by (auto split: if_splits dest: end_status)
  with last patches verifier show ?thesis
    by (intro exI [of _ s'])
      (auto simp: run_real_project_provider_workflow_def act_bind_Inr intro: clerk_trans)
qed

text \<open>A continued run whose one patch was approved gets to the end: when system calls
  succeed, the sandbox is the one that was previewed, the ticket passes every check, the
  patch can be carried out and the verifier passes on the patched repository, then the
  workflow ends accepted, with the patched tree in the repository, the sandbox removed and
  the ticket consumed.\<close>

theorem approved_patch_is_accepted:
  assumes "run_ready env s (prompt_site provider prompt budget) preview t tree True"
  shows "\<exists>s'. run_real_project_provider_workflow env provider prompt n budget s = (Inr Accepted, s')
    \<and> dk_target (rc_disk s') = tree
    \<and> dk_sandbox (rc_disk s') (sandbox_dir s (prompt_site provider prompt budget)) = None
    \<and> consumed_tickets s' = consumed_tickets s @ [tk_ticket_id t]"
proof -
  obtain s' where run: "run_real_project_provider_workflow env provider prompt n budget s = (Inr Accepted, s')"
    and s': "clerk env (patched s (prompt_site provider prompt budget) t tree) s'"
    using ready_run_ends [OF assms, of n] by auto
  show ?thesis
    using run clerk_fields(1,7) [OF s'] by (simp add: patched_def consumed_tickets_def)
qed

lemma run_ready_clerk:
  assumes "run_ready env s p preview t tree ok" and "clerk env s s'"
  shows "run_ready env s' p preview t tree ok"
proof -
  note fields = clerk_fields [OF assms(2)] clerk_reads [OF assms(2)]
  have "rc_disk (patched s' p t tree) = rc_disk (patched s p t tree)"
    by (simp add: patched_def fields)
  moreover have "task_order_of s' = task_order_of s" "rc_verifier_command s' = rc_verifier_command s"
    using assms(2) by (simp_all add: task_order_of_def clerk_def same_run_def)
  moreover have "ready env s' p preview t tree = ready env s p preview t tree"
    unfolding ready_def fields(1,6) fields(8-11) by (rule refl)
  moreover have "legible env s \<longrightarrow> legible env s'" using assms(2) by (simp add: clerk_def)
  ultimately show ?thesis using assms(1) by (simp add: run_ready_def)
qed

end
