(* ===== verification/Run_Resume.thy ===== *)
theory Run_Resume
  imports Run_Start Run_Liveness
begin

text \<open>
  What resuming a run guarantees: it needs settled approvals, keeps the gate of the patches,
  accepts only what was verified, is idle once accepted, and does get to the end.  The
  tickets consumed by an earlier pass are forgotten.
\<close>

subsection \<open>Loading\<close>

definition loaded :: "saved_run \<Rightarrow> run_ctx \<Rightarrow> run_ctx" where
  "loaded sv s = s\<lparr>rc_artifacts := sv_artifacts sv, rc_policy_decisions := sv_policy_decisions sv,
     rc_approvals := sv_approvals sv, rc_closure_reports := sv_closure_reports sv,
     rc_repair_attempts := sv_repair_attempts sv\<rparr>"

lemma load_ok: "load_run_context s = (Inr status, t) \<longleftrightarrow>
    (\<exists>sv. rc_saved s = Some sv \<and> status = sv_status sv \<and> t = loaded sv s)"
  by (auto simp: load_run_context_def loaded_def split: option.splits)

lemma loaded_fields [simp]:
  "rc_saved (loaded sv s) = rc_saved s" "rc_disk (loaded sv s) = rc_disk s" "rc_trace (loaded sv s) = rc_trace s"
  "rc_options (loaded sv s) = rc_options s" "rc_consumed (loaded sv s) = rc_consumed s"
  "rc_template_kind (loaded sv s) = rc_template_kind s" "rc_verifier_command (loaded sv s) = rc_verifier_command s"
  "rc_approvals (loaded sv s) = sv_approvals sv" "rc_run_id (loaded sv s) = rc_run_id s"
  "loaded sv (loaded sv s) = loaded sv s" "rc_run_dir (loaded sv s) = rc_run_dir s"
  by (simp_all add: loaded_def)

text \<open>The part of a resumed run that does the work.\<close>

definition resumed_work :: "run_env \<Rightarrow> run_status run_act" where
  "resumed_work env =
     act_bind get_ctx (\<lambda>s. case rc_options s of
        Some opts \<Rightarrow>
          act_bind (io_call env (''read '' @ path_join (rc_run_dir s) ''provider-options.json'')) (\<lambda>_.
            continue_with_provider env opts)
      | None \<Rightarrow> continue_provider_free env)"

lemma resume_cases:
  assumes "resume_risky_pr_provider_free env host s = (r, s')" and "rc_saved s = Some sv"
    and "sv_status sv = WaitingForApproval"
  shows "(\<exists>e. r = Inl e) \<and> (s' = s \<or> s' = loaded sv s)
    \<or> \<not> has_pending (loaded sv s) \<and> act_bind (resumed_work env) (finish_run env) (loaded sv s) = (r, s')"
  using assms
  by (auto simp: resume_risky_pr_provider_free_def act_bind_def ensure_target_repo_def get_ctx_def
      load_run_context_def loaded_def has_pending_def resumed_work_def
      split: sum.splits prod.splits if_splits option.splits)

text \<open>C25: A run resumes only when its approvals are settled: resuming succeeds only from an
  accepted record, in which case it does nothing, or from one that waits and holds no
  pending ticket.\<close>

theorem resume_needs_settled_approvals:
  assumes "resume_risky_pr_provider_free env host s = (Inr sm, s')"
  shows "\<exists>sv. rc_saved s = Some sv
    \<and> (sv_status sv = Accepted \<and> sm_status sm = Accepted \<and> rc_disk s' = rc_disk s \<and> rc_trace s' = rc_trace s
       \<or> sv_status sv = WaitingForApproval \<and> list_all (\<lambda>t. tk_status t \<noteq> ''pending'') (sv_approvals sv))"
proof -
  obtain sv where sv: "rc_saved s = Some sv"
    and rest: "act_bind get_ctx (\<lambda>s.
     if sv_status sv = Accepted then act_return (summary_of Accepted s)
     else if sv_status sv \<noteq> WaitingForApproval
     then act_lift (Inl (''run '' @ rc_run_id s @ '' is not resumable from status '' @ status_debug (sv_status sv)))
     else if \<exists>t \<in> set (rc_approvals s). tk_status t = ''pending''
     then act_lift (Inl (''run '' @ rc_run_id s @ '' is waiting for approval before resume''))
     else
       act_bind
         (case rc_options s of
            Some opts \<Rightarrow>
              act_bind (io_call env (''read '' @ path_join (rc_run_dir s) ''provider-options.json'')) (\<lambda>_.
                continue_with_provider env opts)
          | None \<Rightarrow> continue_provider_free env)
         (finish_run env)) (loaded sv s) = (Inr sm, s')"
    using assms
    unfolding resume_risky_pr_provider_free_def ensure_target_repo_def act_bind_ok load_ok get_ctx_def
    by auto
  show ?thesis
  proof (cases "sv_status sv = Accepted")
    case True
    with rest show ?thesis
      by (intro exI [of _ sv]) (simp add: sv act_bind_def get_ctx_def, auto simp: summary_of_def)
  next
    case False
    with rest have "sv_status sv = WaitingForApproval" "\<not> (\<exists>t \<in> set (sv_approvals sv). tk_status t = ''pending'')"
      by (auto simp: act_bind_def get_ctx_def split: if_splits)
    then show ?thesis using sv by (intro exI [of _ sv]) (auto simp: list_all_iff)
  qed
qed

subsection \<open>The gate holds\<close>

lemma quiet_finish: "keeps (quiet_step env) (finish_run env status)"
  unfolding finish_run_def export_evidence_pack_def render_static_report_def by (intro keep_rules)

lemma growing_finish: "keeps artifacts_grow (finish_run env status)"
  unfolding finish_run_def export_evidence_pack_def render_static_report_def by (intro keep_rules)

lemma clear_consumed_ok:
  assumes "clear_consumed env s = (r, s')"
  shows "r = Inr ()" "same_run s s'" "rc_approvals s' = rc_approvals s" "rc_trace s' = rc_trace s"
    "rc_disk s' = rc_disk s" "consumed_tickets s' = [] \<or> consumed_tickets s' = consumed_tickets s"
    "rc_files s' = rc_files s" "rc_artifacts s' = rc_artifacts s"
  using assms
  by (auto simp: clear_consumed_def act_bind_def get_ctx_def draw_def same_run_def consumed_tickets_def
      split: if_splits)

text \<open>Only the provider prompt, a read and the clearing come before the workflow.\<close>

lemma continue_real:
  assumes "continue_with_provider env opts s = (r, s')" and "is_real_project_template s"
  shows "(\<exists>e. r = Inl e) \<and> quiet_step env s s'
    \<or> (\<exists>u prompt. run_real_project_provider_workflow env (ro_provider opts) prompt
          (ro_max_repair_attempts opts) (ro_max_budget opts) u = (r, s')
        \<and> same_run s u \<and> approved_set u \<subseteq> approved_set s
        \<and> (confined env \<longrightarrow> dk_target (rc_disk u) = dk_target (rc_disk s))
        \<and> (\<exists>new. rc_trace u = rc_trace s @ new \<and> applied_tickets new = []))"
proof -
  obtain x t where x: "provider_prompt_of env opts s = (x, t)" by (cases "provider_prompt_of env opts s")
  have quiet: "quiet_step env s t" by (rule keepsD [OF quiet.prompt_of_options x])
  show ?thesis
  proof (cases x)
    case (Inl e)
    with assms(1) x quiet show ?thesis by (auto simp: continue_with_provider_def act_bind_def)
  next
    case (Inr prompt)
    obtain y u where clear: "clear_consumed env t = (y, u)" by (cases "clear_consumed env t")
    note facts = clear_consumed_ok [OF clear]
    have "is_real_project_template u"
      using assms(2) quiet facts(2) by (simp add: is_real_project_template_def quiet_step_def same_run_def)
    with assms(1) x Inr clear facts(1)
    have "run_real_project_provider_workflow env (ro_provider opts) prompt
       (ro_max_repair_attempts opts) (ro_max_budget opts) u = (r, s')"
      by (simp add: continue_with_provider_def act_bind_def get_ctx_def)
    moreover have "same_run s u" "approved_set u \<subseteq> approved_set s"
      "confined env \<longrightarrow> dk_target (rc_disk u) = dk_target (rc_disk s)"
      using quiet facts(2,3,5) by (auto simp: quiet_step_def approved_set_def intro: same_run_trans)
    moreover have "\<exists>new. rc_trace u = rc_trace s @ new \<and> applied_tickets new = []"
      using quiet facts(4) by (simp add: quiet_step_def)
    ultimately show ?thesis by blast
  qed
qed

lemma resumed_work_real:
  assumes "resumed_work env s = (r, s')" and "rc_options s = Some opts" and "is_real_project_template s"
  shows "(\<exists>e. r = Inl e) \<and> quiet_step env s s'
    \<or> (\<exists>u prompt. run_real_project_provider_workflow env (ro_provider opts) prompt
          (ro_max_repair_attempts opts) (ro_max_budget opts) u = (r, s')
        \<and> same_run s u \<and> approved_set u \<subseteq> approved_set s
        \<and> (\<exists>new. rc_trace u = rc_trace s @ new \<and> applied_tickets new = []))"
proof -
  let ?io = "io_call env (''read '' @ path_join (rc_run_dir s) ''provider-options.json'')"
  obtain x t where x: "?io s = (x, t)" by (cases "?io s")
  note quiet = keepsD [OF quiet.io x]
  show ?thesis
  proof (cases x)
    case (Inl e)
    with assms(1,2) x quiet show ?thesis
      by (auto simp: resumed_work_def act_bind_def get_ctx_def split: sum.splits prod.splits)
  next
    case (Inr u)
    with assms(1,2) x have "continue_with_provider env opts t = (r, s')"
      by (auto simp: resumed_work_def act_bind_def get_ctx_def)
    moreover have "is_real_project_template t"
      using assms(3) quiet by (simp add: is_real_project_template_def quiet_step_def same_run_def)
    ultimately consider e where "r = Inl e" "quiet_step env t s'"
      | u prompt new where "run_real_project_provider_workflow env (ro_provider opts) prompt
          (ro_max_repair_attempts opts) (ro_max_budget opts) u = (r, s')"
        "same_run t u" "approved_set u \<subseteq> approved_set t" "rc_trace u = rc_trace t @ new" "applied_tickets new = []"
      using continue_real [of env opts t r s'] by blast
    then show ?thesis
    proof cases
      case 1
      then show ?thesis using quiet_trans [OF quiet] by blast
    next
      case 2
      with quiet show ?thesis
        unfolding quiet_step_def
        by (metis (no_types, lifting) append.assoc applied_tickets_append append_Nil same_run_trans subset_trans)
    qed
  qed
qed

lemma justified_weaken:
  assumes "justified env u x" and "same_run s u" and "approved_set u \<subseteq> approved_set s"
  shows "justified env s x"
  using assms by (cases "(env, s, x)" rule: justified.cases) (auto simp: same_run_def)

lemma unapplied_justified: "applied_tickets new = [] \<Longrightarrow> list_all (justified env s) new"
  by (induction new rule: applied_tickets.induct) auto

lemma applied_approved: "list_all (justified env s) new \<Longrightarrow> set (applied_tickets new) \<subseteq> approved_set s"
  by (induction new rule: applied_tickets.induct) auto

text \<open>The work of a resumed run: its patches are justified, and an acceptance rests on the verifier.\<close>

lemma resumed_work_gate:
  assumes "resumed_work env s = (x, u)" and "rc_options s = Some opts" and "is_real_project_template s"
  shows "\<exists>new. rc_trace u = rc_trace s @ new \<and> list_all (justified env s) new
    \<and> (x = Inr Accepted \<longrightarrow> (\<exists>test_log. verified env (resolve_verifier_command env (rc_verifier_command s)) test_log u))"
  using resumed_work_real [OF assms]
proof (elim disjE exE conjE)
  fix e
  assume "x = Inl e" "quiet_step env s u"
  then show ?thesis by (auto simp: quiet_step_def unapplied_justified)
next
  fix v prompt before
  assume run: "run_real_project_provider_workflow env (ro_provider opts) prompt
      (ro_max_repair_attempts opts) (ro_max_budget opts) v = (x, u)"
    and v: "same_run s v" "approved_set v \<subseteq> approved_set s" "rc_trace v = rc_trace s @ before"
      "applied_tickets before = []"
  obtain pend where "ok_state env v pend u" by (rule workflow_ok_state [OF run])
  then obtain new where "rc_trace u = rc_trace v @ new" "list_all (justified env v) new"
    unfolding ok_state_def by blast
  moreover from this(2) have "list_all (justified env s) new"
    using justified_weaken [OF _ v(1,2)] by (auto simp: list_all_iff)
  ultimately have "rc_trace u = rc_trace s @ before @ new" "list_all (justified env s) (before @ new)"
    using v by (simp_all add: unapplied_justified)
  moreover have "x = Inr Accepted \<longrightarrow>
      (\<exists>test_log. verified env (resolve_verifier_command env (rc_verifier_command s)) test_log u)"
    using workflow_outcome [of env "ro_provider opts" prompt "ro_max_repair_attempts opts"
        "ro_max_budget opts" v Accepted u] run v(1)
    by (auto simp: ends_as_def accepted_at_def same_run_def)
  ultimately show ?thesis by blast
qed

text \<open>C7: A resumed provider-backed run of a real project keeps the gate and the verifier:
  whatever its outcome, every patch it applies is justified by a ticket that was approved
  in the record it resumed from; and when it ends accepted, a passing run of the verifier
  is the last thing that touched the repository.\<close>

theorem resumed_run_is_governed:
  assumes "resume_risky_pr_provider_free env host s = (r, s')"
    and "rc_saved s = Some sv" and "sv_status sv = WaitingForApproval"
    and "rc_options s = Some opts" and "is_real_project_template s"
  shows "\<exists>new. rc_trace s' = rc_trace s @ new \<and> list_all (justified env (loaded sv s)) new
    \<and> (case r of Inl e \<Rightarrow> True
       | Inr sm \<Rightarrow> sm_status sm \<noteq> Accepted
           \<or> (\<exists>test_log. verified env (resolve_verifier_command env (rc_verifier_command s)) test_log s'))"
proof -
  let ?s = "loaded sv s" and ?c = "resolve_verifier_command env (rc_verifier_command s)"
  have real: "is_real_project_template ?s" using assms(5) by (simp add: is_real_project_template_def)
  consider e where "r = Inl e" "s' = s \<or> s' = ?s"
    | "act_bind (resumed_work env) (finish_run env) ?s = (r, s')"
    using resume_cases [OF assms(1-3)] by blast
  then show ?thesis
  proof cases
    case 1
    then show ?thesis by (intro exI [of _ "[]"]) auto
  next
    case 2
    obtain x u where work: "resumed_work env ?s = (x, u)" by (cases "resumed_work env ?s")
    obtain new where new: "rc_trace u = rc_trace s @ new" "list_all (justified env ?s) new"
      and ver: "x = Inr Accepted \<longrightarrow> (\<exists>test_log. verified env ?c test_log u)"
      using resumed_work_gate [OF work _ real] assms(4) by auto
    show ?thesis
    proof (cases x)
      case (Inl e)
      with 2 work new show ?thesis by (auto simp: act_bind_Inl)
    next
      case (Inr status)
      with 2 work have finish: "finish_run env status u = (r, s')" by (simp add: act_bind_Inr)
      note quiet = keepsD [OF quiet_finish finish] and grow = keepsD [OF growing_finish finish]
      obtain more where more: "rc_trace s' = rc_trace u @ more" "applied_tickets more = []"
        using quiet unfolding quiet_step_def by blast
      have "sm_status sm = status" if "r = Inr sm" for sm
        using finish that by (auto simp: finish_run_def act_bind_ok summary_of_def)
      with ver Inr verified_step [OF _ quiet grow]
      have "case r of Inl e \<Rightarrow> True
       | Inr sm \<Rightarrow> sm_status sm \<noteq> Accepted \<or> (\<exists>test_log. verified env ?c test_log s')"
        by (cases r) auto
      then show ?thesis
        using new more by (intro exI [of _ "new @ more"]) (auto simp: unapplied_justified)
    qed
  qed
qed

subsection \<open>Resuming an accepted run\<close>

lemma loaded_saved:
  assumes "sv_artifacts sv = rc_artifacts s" "sv_policy_decisions sv = rc_policy_decisions s"
    "sv_approvals sv = rc_approvals s" "sv_closure_reports sv = rc_closure_reports s"
    "sv_repair_attempts sv = rc_repair_attempts s"
  shows "loaded sv s = s"
  using assms by (simp add: loaded_def)

lemma resume_accepted:
  assumes "fail_on_forbidden_provider_api_keys (ho_variable host) = Inr ()" and "ho_repo_exists host"
    and "rc_saved s = Some sv" and "sv_status sv = Accepted"
  shows "resume_risky_pr_provider_free env host s = (Inr (summary_of Accepted (loaded sv s)), loaded sv s)"
  using assms
  by (simp add: resume_risky_pr_provider_free_def act_bind_def ensure_target_repo_def get_ctx_def
      load_run_context_def loaded_def bail_if_def)

lemma host_checked:
  assumes "resume_risky_pr_provider_free env host s = (Inr sm, s')"
  shows "fail_on_forbidden_provider_api_keys (ho_variable host) = Inr ()" "ho_repo_exists host"
  using assms
  by (auto simp: resume_risky_pr_provider_free_def act_bind_ok ensure_target_repo_def get_ctx_def bail_if_ok)


subsection \<open>A resumed run gets to the end\<close>

lemma clerical_finish: "keeps (clerk env) (save_ctx status integrity)" "keeps (clerk env) (log_step st)"
proof -
  have "legible env (s\<lparr>rc_saved := sv\<rparr>) = legible env s" for s sv by (rule legible_cong) simp_all
  then show "keeps (clerk env) (save_ctx status integrity)"
    by (intro keepsI) (simp add: save_ctx_def clerk_def same_run_def)
  show "keeps (clerk env) (log_step st)"
    by (rule keepsI) (simp add: log_step_def clerk_def same_run_def)
qed

lemma report_is_html: "\<not> suffix ''.json'' (report_path s)"
  unfolding report_path_def json_path by (simp add: suffix_def)

lemma works_write:
  assumes "healthy env" and "suffix ''.json'' path \<Longrightarrow> \<exists>v. re_from_str env content = Inr v"
  shows "works env (write_file path content)"
  by (rule works_step [OF succeeds_elementary(5) clerical_write]) (rule assms(2))

lemma works_pretty:
  assumes "healthy env" and "\<And>c. \<exists>v. re_from_str env c = Inr v \<Longrightarrow> works env (f c)"
  shows "works env (act_bind (act_lift (re_pretty env v)) f)"
proof -
  obtain c where "re_pretty env v = Inr c" "\<exists>v'. re_from_str env c = Inr v'"
    using assms(1) unfolding healthy_def by blast
  with assms(2) show ?thesis by (simp add: works_def act_bind_def)
qed

lemma works_finish:
  assumes "healthy env"
  shows "works env (finish_run env status)"
proof -
  have recorded: "works env (write_run_record env status)"
    unfolding write_run_record_def
    by (intro work_rules works_pretty assms works_step [OF _ clerical_finish(1)] works_step [OF _ clerical_finish(2)])
      (simp_all add: succeeds_def save_ctx_def log_step_def)
  have reported: "works env (render_static_report env)"
    unfolding render_static_report_def
    by (intro work_rules works_write assms) (simp add: report_is_html)
  have packed: "works env (export_evidence_pack env)"
    unfolding export_evidence_pack_def
    by (intro work_rules works_pretty works_write assms) (simp_all add: payload_types_def)
  show ?thesis unfolding finish_run_def by (intro work_rules assms recorded reported packed)
qed

text \<open>The host lets the run go on, the record waits with no ticket pending, and once the file of
  consumed tickets is gone the one patch of the run is ready.\<close>

definition forgotten :: "saved_run \<Rightarrow> run_ctx \<Rightarrow> run_ctx" where
  "forgotten sv s = (loaded sv s)\<lparr>rc_consumed := None\<rparr>"

definition resumable ::
    "run_env \<Rightarrow> run_host \<Rightarrow> run_ctx \<Rightarrow> provider_options \<Rightarrow> patch_preview \<Rightarrow> approval_ticket \<Rightarrow> tree \<Rightarrow> bool" where
  "resumable env host s opts preview t tree \<longleftrightarrow>
     fail_on_forbidden_provider_api_keys (ho_variable host) = Inr () \<and> ho_repo_exists host
     \<and> rc_options s = Some opts \<and> ro_repair_source opts = None \<and> is_real_project_template s
     \<and> (\<exists>sv. rc_saved s = Some sv \<and> sv_status sv = WaitingForApproval \<and> \<not> has_pending (loaded sv s)
          \<and> run_ready env (forgotten sv s)
              (prompt_site (ro_provider opts) (ro_prompt opts) (ro_max_budget opts)) preview t tree True)"

lemma resumable_start:
  assumes "healthy env" and "rc_options s = Some opts" and "ro_repair_source opts = None"
    and "is_real_project_template s"
  obtains v where "clerk env (s\<lparr>rc_consumed := None\<rparr>) v" and "rc_trace v = rc_trace s"
    and "resumed_work env s = run_real_project_provider_workflow env (ro_provider opts) (ro_prompt opts)
      (ro_max_repair_attempts opts) (ro_max_budget opts) v"
proof -
  let ?u = "s\<lparr>rc_draws := Suc (rc_draws s)\<rparr>"
  have io: "io_call env msg s = (Inr (), ?u)" for msg
    using assms(1) by (simp add: io_call_def act_bind_def draw_def healthy_def bail_if_def)
  obtain v where clear: "clear_consumed env ?u = (Inr (), v)" and v: "clerk env (s\<lparr>rc_consumed := None\<rparr>) v"
    "rc_trace v = rc_trace s"
    using assms(1)
    by (cases "rc_consumed s = None")
      (auto simp: clear_consumed_def act_bind_def get_ctx_def draw_def healthy_def clerk_def same_run_def)
  have real: "is_real_project_template v"
    using v(1) assms(4) by (simp add: clerk_def same_run_def is_real_project_template_def)
  have "resumed_work env s = continue_with_provider env opts ?u"
    using assms(2) io by (simp add: resumed_work_def act_bind_def get_ctx_def)
  also have "\<dots> = run_real_project_provider_workflow env (ro_provider opts) (ro_prompt opts)
      (ro_max_repair_attempts opts) (ro_max_budget opts) v"
    using clear real assms(3)
    by (simp add: continue_with_provider_def provider_prompt_of_def act_bind_def get_ctx_def)
  finally show ?thesis using that v by blast
qed

lemma resumable_ends:
  assumes "resumable env host s opts preview t tree"
  obtains sm s' sv v s3 where "resume_risky_pr_provider_free env host s = (Inr sm, s')" and "sm_status sm = Accepted"
    and "rc_saved s = Some sv" and "clerk env (forgotten sv s) v" and "rc_trace v = rc_trace s"
    and "run_real_project_provider_workflow env (ro_provider opts) (ro_prompt opts)
      (ro_max_repair_attempts opts) (ro_max_budget opts) v = (Inr Accepted, s3)"
    and "clerk env (patched (forgotten sv s) (prompt_site (ro_provider opts) (ro_prompt opts) (ro_max_budget opts)) t tree) s'"
    and "quiet_step env s3 s'"
proof -
  let ?p = "prompt_site (ro_provider opts) (ro_prompt opts) (ro_max_budget opts)"
  from assms obtain sv where host: "fail_on_forbidden_provider_api_keys (ho_variable host) = Inr ()" "ho_repo_exists host"
    and opts: "rc_options s = Some opts" "ro_repair_source opts = None" "is_real_project_template s"
    and sv: "rc_saved s = Some sv" "sv_status sv = WaitingForApproval" "\<not> has_pending (loaded sv s)"
    and ready: "run_ready env (forgotten sv s) ?p preview t tree True"
    unfolding resumable_def by blast
  have env: "healthy env" using ready by (simp add: run_ready_def)
  have "is_real_project_template (loaded sv s)" "rc_options (loaded sv s) = Some opts"
    using opts(1,3) by (simp_all add: is_real_project_template_def)
  then obtain v where v: "clerk env (forgotten sv s) v" "rc_trace v = rc_trace s"
    and work: "resumed_work env (loaded sv s) = run_real_project_provider_workflow env (ro_provider opts)
      (ro_prompt opts) (ro_max_repair_attempts opts) (ro_max_budget opts) v"
    using resumable_start [OF env _ opts(2)] unfolding forgotten_def by (metis loaded_fields(3))
  have ready_v: "run_ready env v ?p preview t tree True" by (rule run_ready_clerk [OF ready v(1)])
  obtain s3 where run: "run_real_project_provider_workflow env (ro_provider opts) (ro_prompt opts)
      (ro_max_repair_attempts opts) (ro_max_budget opts) v = (Inr Accepted, s3)"
    and s3: "clerk env (patched v ?p t tree) s3"
    using ready_run_ends [OF ready_v, of "ro_max_repair_attempts opts"] by auto
  have "clerk env (patched (forgotten sv s) ?p t tree) (patched v ?p t tree)"
  proof -
    note fields = clerk_fields [OF v(1)] clerk_reads(1) [OF v(1)]
    have "same_run (forgotten sv s) v" using v(1) by (simp add: clerk_def)
    then show ?thesis
      using v(1) by (auto simp: clerk_def patched_def fields same_run_def)
  qed
  with s3 have s3': "clerk env (patched (forgotten sv s) ?p t tree) s3" by (meson clerk_trans)
  have "legible env s3"
    using s3' ready by (simp add: clerk_def patched_def run_ready_def)
  then obtain sm s' where finish: "finish_run env Accepted s3 = (Inr sm, s')" "clerk env s3 s'"
    using works_finish [OF env, of Accepted] unfolding works_def by blast
  have "act_bind (resumed_work env) (finish_run env) (loaded sv s) = (Inr sm, s')"
    using work run finish(1) by (simp add: act_bind_Inr)
  then have "resume_risky_pr_provider_free env host s = (Inr sm, s')"
    using host sv
    by (auto simp: resume_risky_pr_provider_free_def act_bind_def ensure_target_repo_def get_ctx_def
        load_run_context_def loaded_def has_pending_def resumed_work_def bail_if_def
        split: sum.splits prod.splits option.splits)
  moreover have "sm_status sm = Accepted"
    using finish(1) by (auto simp: finish_run_def act_bind_ok summary_of_def)
  ultimately show ?thesis
    using that sv(1) v run keepsD [OF quiet_finish finish(1)] clerk_trans [OF s3' finish(2)] by blast
qed


end
