(* ===== verification/Run_Whole.thy ===== *)
theory Run_Whole
  imports Run_Resume
begin

text \<open>
  Whole runs of \<open>crates/ao2-runtime/src/lib.rs\<close>: a run that nobody attends stops in front of
  its first patch, and what an approval that was cut short leaves behind.
\<close>

subsection \<open>Approving the ticket of a fresh run\<close>

lemma noting_load [keep_rules]: "keeps only_notes load_run_context"
  by (rule only_notes_update) (simp_all add: load_run_context_def split: option.split)

lemma noting_approve [keep_rules]: "keeps only_notes (approve_risky_pr_ticket env host ticket_id who)"
  unfolding approve_risky_pr_ticket_def approve_ticket_def by (intro keep_rules)

lemma static_approve: "keeps same_run (approve_risky_pr_ticket env host ticket_id who)"
proof -
  have "keeps same_run load_run_context" "keeps same_run (ensure_target_repo host)"
    "keeps same_run (put_ticket t)" for host t
    by (rule keepsI, simp add: load_run_context_def ensure_target_repo_def act_bind_def get_ctx_def
        put_ticket_def same_run_def split: option.split)+
  then show ?thesis
    unfolding approve_risky_pr_ticket_def approve_ticket_def by (intro keep_rules | assumption)+
qed

lemma approve_ok:
  assumes "approve_risky_pr_ticket env host (tk_ticket_id t) who s = (Inr g, s')"
    and "map_of (rc_stored s) (tk_ticket_id t) = Some (t, req)" and "tk_status t = ''pending''"
    and "rc_saved s = Some sv" and "sv_approvals sv = [t]"
  obtains sv' where "g = t\<lparr>tk_approver := Some who, tk_status := ''approved''\<rparr>"
    and "rc_saved s' = Some sv'" and "sv_status sv' = WaitingForApproval" and "sv_approvals sv' = [g]"
proof -
  have "approve_ticket env (tk_ticket_id t) who s = (Inr g, s')"
    using assms(1)
    by (auto simp: approve_risky_pr_ticket_def act_bind_ok ensure_target_repo_def get_ctx_def)
  then obtain s1 s2 s3 s4 s5 u status where
      calls: "act_bind (io_call env (''create run dir '' @ rc_run_dir s)) (\<lambda>_.
        act_bind (io_call env (''open run lock '' @ path_join (rc_run_dir s) ''.lock'')) (\<lambda>_.
        io_call env (''acquire run lock '' @ path_join (rc_run_dir s) ''.lock''))) s = (Inr (), s1)"
    and granted: "grant_exact (re_sha256 env) (re_request_vec env) t who req = Inr g"
    and written: "write_stored_approval env g req s1 = (Inr (), s2)"
    and loaded: "load_run_context s2 = (Inr status, s3)"
    and sent: "emit env ''approval.granted'' (Some ''implementer'') (Some ''approve_discount_patch'')
        actor_human_local (approval_ticket_json (re_show_time env) g)
        (s3\<lparr>rc_approvals := replace_ticket g (rc_approvals s3)\<rparr>) = (Inr (), s4)"
    and recorded: "write_run_record env WaitingForApproval s4 = (Inr u, s')"
    using assms(2,3)
    unfolding approve_ticket_def
    by (auto simp: act_bind_ok get_ctx_def put_ticket_def with_context_def)
  have g: "g = t\<lparr>tk_approver := Some who, tk_status := ''approved''\<rparr>"
    using granted by (auto simp: grant_exact_def split: if_splits)
  have "rc_saved s2 = rc_saved s"
    using calls written
    by (auto simp: act_bind_ok io_call_def draw_def write_stored_approval_def get_ctx_def store_approval_def Let_def)
  then have "rc_approvals s3 = [t]" using loaded assms(4,5) by (auto simp: load_ok)
  with g have "rc_approvals s4 = [g]"
    using keepsD [OF controlled.event sent] by (simp add: same_control_def)
  then show ?thesis
    using that g write_run_record_ok [OF recorded] by (auto simp: same_control_def)
qed

subsection \<open>A run that nobody attends\<close>

definition unpatched :: "run_env \<Rightarrow> run_ctx \<Rightarrow> run_ctx \<Rightarrow> bool" where
  "unpatched env s s' \<longleftrightarrow>
     (\<exists>new. rc_trace s' = rc_trace s @ new \<and> applied_tickets new = [])
     \<and> (confined env \<longrightarrow> dk_target (rc_disk s') = dk_target (rc_disk s))"

lemma unpatched_trans: "unpatched env s t \<Longrightarrow> unpatched env t u \<Longrightarrow> unpatched env s u"
  by (fastforce simp: unpatched_def)

lemma notes_unpatched:
  assumes "only_notes s s'"
  shows "unpatched env s s'"
proof -
  have "list_all is_note new \<Longrightarrow> applied_tickets new = []" for new
    by (induction new rule: applied_tickets.induct) auto
  with assms show ?thesis unfolding only_notes_def unpatched_def by metis
qed

lemma quiet_unpatched: "quiet_step env s s' \<Longrightarrow> unpatched env s s'"
  by (simp add: quiet_step_def unpatched_def)

lemma justified_action: "list_all (justified env s) new \<Longrightarrow> t \<in> set (applied_tickets new) \<Longrightarrow>
    tk_requested_action t = ''sandbox:apply'' \<and> t \<in> approved_set s"
  by (induction new rule: applied_tickets.induct) auto

lemma patch_chain_unpatched: "patch_chain x new y \<Longrightarrow> applied_tickets new = [] \<Longrightarrow> y = x"
  by (induction x new y rule: patch_chain.induct) auto

text \<open>A workflow that starts with no approval of a patch applies none.\<close>

lemma workflow_unpatched:
  assumes "run_real_project_provider_workflow env provider prompt n budget s = (r, s')"
    and "\<forall>t \<in> approved_set s. tk_requested_action t \<noteq> ''sandbox:apply''"
  shows "unpatched env s s'"
proof -
  obtain pend where "ok_state env s pend s'" by (rule workflow_ok_state [OF assms(1)])
  then obtain new where new: "rc_trace s' = rc_trace s @ new" "list_all (justified env s) new"
    and chain: "confined env \<longrightarrow> patch_chain (dk_target (rc_disk s)) new (dk_target (rc_disk s'))"
    unfolding ok_state_def by blast
  have "applied_tickets new = []"
    using justified_action [OF new(2)] assms(2) by (cases "applied_tickets new") auto
  with new(1) chain show ?thesis by (auto simp: unpatched_def dest: patch_chain_unpatched)
qed

lemma begin_cases:
  assumes "begin_provider_run env host opts provider s = (r, s')"
  shows "only_notes s s' \<or>
    (\<exists>u g w. only_notes s u \<and> rc_approvals u = [g] \<and> tk_requested_action g = ''filesystem:write_file''
      \<and> load_workflow (ho_path_exists host) (ho_read_file host) (ho_parse_yaml host) (op_workflow_path opts) = Inr w
      \<and> rc_template_kind u = wf_template_kind w \<and> continue_with_provider env provider u = (r, s'))"
proof -
  obtain x s1 where 1: "start_risky_pr_provider_free env host opts s = (x, s1)"
    by (cases "start_risky_pr_provider_free env host opts s")
  note n1 = keepsD [OF noting_start 1]
  show ?thesis
  proof (cases x)
    case (Inl e)
    with assms 1 n1 show ?thesis by (simp add: begin_provider_run_def act_bind_def)
  next
    case (Inr t)
    obtain y s2 where 2: "approve_risky_pr_ticket env host (tk_ticket_id t) ''human:local-user'' s1 = (y, s2)"
      by (cases "approve_risky_pr_ticket env host (tk_ticket_id t) ''human:local-user'' s1")
    note n2 = only_notes_trans [OF n1 keepsD [OF noting_approve 2]]
    show ?thesis
    proof (cases y)
      case (Inl e)
      with assms 1 2 Inr n2 show ?thesis by (simp add: begin_provider_run_def act_bind_def)
    next
      case (Inr g)
      obtain w sv req where started: "load_workflow (ho_path_exists host) (ho_read_file host) (ho_parse_yaml host)
          (op_workflow_path opts) = Inr w" "rc_template_kind s1 = wf_template_kind w"
        "map_of (rc_stored s1) (tk_ticket_id t) = Some (t, req)" "tk_status t = ''pending''"
        "tk_requested_action t = ''filesystem:write_file''" "rc_saved s1 = Some sv" "sv_approvals sv = [t]"
        using 1 \<open>x = Inr t\<close> by (auto elim: start_ok)
      obtain sv' where g: "g = t\<lparr>tk_approver := Some ''human:local-user'', tk_status := ''approved''\<rparr>"
        and sv': "rc_saved s2 = Some sv'" "sv_status sv' = WaitingForApproval" "sv_approvals sv' = [g]"
        by (rule approve_ok [OF 2 [unfolded Inr] started(3,4,6,7)])
      let ?s3 = "loaded sv' s2"
      have s3: "load_run_context s2 = (Inr WaitingForApproval, ?s3)" using sv' by (simp add: load_ok)
      have n3: "only_notes s ?s3" using n2 by (simp add: only_notes_def)
      obtain z s4 where 4: "io_call env (''write '' @ path_join (rc_run_dir s2) ''provider-options.json'') ?s3 = (z, s4)"
        by (cases "io_call env (''write '' @ path_join (rc_run_dir s2) ''provider-options.json'') ?s3")
      have rest: "act_bind (\<lambda>_. (z, s4)) (\<lambda>_. act_bind (store_options provider) (\<lambda>_.
          continue_with_provider env provider)) ?s3 = (r, s')"
        using assms 1 2 4 \<open>x = Inr t\<close> Inr s3 g sv'(3)
        by (simp add: begin_provider_run_def act_bind_def get_ctx_def)
      have n4: "only_notes s (s4\<lparr>rc_options := Some provider\<rparr>)" and z: "only_notes s s4"
        using only_notes_trans [OF n3 keepsD [OF noting.io 4]] by (simp_all add: only_notes_def)
      show ?thesis
      proof (cases z)
        case (Inl e)
        with rest z show ?thesis by (simp add: act_bind_def)
      next
        case (Inr v)
        let ?u = "s4\<lparr>rc_options := Some provider\<rparr>"
        have "continue_with_provider env provider ?u = (r, s')"
          using rest Inr by (simp add: act_bind_def store_options_def)
        moreover have "rc_approvals ?u = [g]" "rc_template_kind ?u = wf_template_kind w"
          using keepsD [OF controlled.io 4] keepsD [OF static.io 4] keepsD [OF static_approve 2] sv'(3) started(2)
          by (simp_all add: same_control_def same_run_def)
        ultimately show ?thesis
          using n4 started(1,5) g
          by (intro disjI2 exI [of _ ?u] exI [of _ g] exI [of _ w]) simp
      qed
    qed
  qed
qed

text \<open>C3: A provider-backed run of a real project that nobody attends stops in front of its first
  patch: unless the environment names an automatic approver, the run applies no patch,
  whatever its outcome, and with confined providers the repository is as it was.  The
  approval that the run gives itself at the start is for the write of a file and never
  serves as one for a patch.\<close>

theorem unattended_run_applies_nothing:
  assumes "run_risky_pr_with_provider_prompt env host fuel opts provider s = (r, s')"
    and "auto_approver host = None"
    and "\<forall>w. load_workflow (ho_path_exists host) (ho_read_file host) (ho_parse_yaml host)
      (op_workflow_path opts) = Inr w \<longrightarrow> wf_template_kind w = Some ''real_project''"
  shows "(\<exists>new. rc_trace s' = rc_trace s @ new \<and> applied_tickets new = [])
    \<and> (confined env \<longrightarrow> dk_target (rc_disk s') = dk_target (rc_disk s))"
proof -
  obtain x t where begun: "begin_provider_run env host opts provider s = (x, t)"
    by (cases "begin_provider_run env host opts provider s")
  have t: "unpatched env s t"
    using begin_cases [OF begun]
  proof (elim disjE exE conjE)
    fix u g w
    assume u: "only_notes s u" "rc_approvals u = [g]" "tk_requested_action g = ''filesystem:write_file''"
      and w: "load_workflow (ho_path_exists host) (ho_read_file host) (ho_parse_yaml host) (op_workflow_path opts) = Inr w"
        "rc_template_kind u = wf_template_kind w"
      and run: "continue_with_provider env provider u = (x, t)"
    have real: "is_real_project_template u" using w assms(3) by (simp add: is_real_project_template_def)
    have "unpatched env u t"
      using continue_real [OF run real]
    proof (elim disjE exE conjE)
      fix v prompt new
      assume v: "run_real_project_provider_workflow env (ro_provider provider) prompt
          (ro_max_repair_attempts provider) (ro_max_budget provider) v = (x, t)"
        and "approved_set v \<subseteq> approved_set u" "rc_trace v = rc_trace u @ new" "applied_tickets new = []"
          "confined env \<longrightarrow> dk_target (rc_disk v) = dk_target (rc_disk u)"
      moreover from this u have "\<forall>t \<in> approved_set v. tk_requested_action t \<noteq> ''sandbox:apply''"
        by (auto simp: approved_set_def)
      ultimately show ?thesis
        using workflow_unpatched [OF v] by (intro unpatched_trans [of env u v t]) (simp_all add: unpatched_def)
    qed (simp add: quiet_unpatched)
    then show ?thesis by (rule unpatched_trans [OF notes_unpatched [OF u(1)]])
  qed (simp add: notes_unpatched)
  have "unpatched env s s'"
  proof (cases x)
    case (Inl e)
    with assms(1) begun t show ?thesis by (simp add: run_risky_pr_with_provider_prompt_def act_bind_def)
  next
    case (Inr status)
    obtain y where "finish_run env status t = (y, s')"
      using assms(1,2) begun Inr
      by (auto simp: run_risky_pr_with_provider_prompt_def settle_approvals_def act_bind_def
          split: prod.splits sum.splits)
    then show ?thesis using unpatched_trans [OF t quiet_unpatched [OF keepsD [OF quiet_finish]]] by blast
  qed
  then show ?thesis unfolding unpatched_def .
qed

subsection \<open>An approval that was cut short\<close>

lemma io_saved: "io_call env msg s = (Inr (), s') \<Longrightarrow> rc_saved s' = rc_saved s"
  by (auto simp: io_call_def act_bind_ok draw_def)

text \<open>C14: An approval writes the file of the ticket before the record of the run.  When it fails in
  between, it cannot be made up for: approving the ticket again reports success without
  writing the record, and the run still refuses to resume for want of that approval.\<close>

theorem interrupted_approval_is_lost:
  assumes "map_of (rc_stored s) ticket_id = Some (t, req)" and "tk_status t = ''approved''"
    and "rc_saved s = Some sv" and "sv_status sv = WaitingForApproval"
    and "list_ex (\<lambda>t. tk_status t = ''pending'') (sv_approvals sv)"
    and "approve_risky_pr_ticket env host ticket_id who s = (Inr g, s')"
  shows "g = t \<and> rc_saved s' = Some sv \<and> (\<exists>e. fst (resume_risky_pr_provider_free env host s') = Inl e)"
proof -
  have approved: "approve_ticket env ticket_id who s = (Inr g, s')"
    using assms(6)
    by (auto simp: approve_risky_pr_ticket_def act_bind_ok ensure_target_repo_def get_ctx_def)
  then have g: "g = t" and saved: "rc_saved s' = Some sv"
    using assms(1-3)
    by (auto simp: approve_ticket_def act_bind_ok get_ctx_def with_context_def dest!: io_saved)
  have "has_pending (loaded sv s')"
    using assms(5) by (auto simp: has_pending_def list_ex_iff)
  with g saved show ?thesis
    using resume_cases [OF _ saved assms(4), of env host]
    by (cases "resume_risky_pr_provider_free env host s'") auto
qed

end
