(* ===== verification/Run_Log.thy ===== *)
theory Run_Log
  imports Run_Whole
begin

text \<open>
  What holds of the event log over a whole run.  The locale \<open>log_relation\<close> has the contracts that every
  operation of the runtime keeps, from the start of a run to its end, attended or not, with a provider
  or without; the one stated here is that every event carries the digest of its payload.
\<close>

subsection \<open>Contracts of whole runs\<close>

definition forget_consumed :: "unit run_act" where
  "forget_consumed s = (Inr (), s\<lparr>rc_consumed := None\<rparr>)"

locale log_relation = workflow_relation +
  assumes repo_written [keep_rules]: "keeps R (write_repo env path content msg)"
    and file_written [keep_rules]: "keeps R (write_file path content)"
    and any_ticket [keep_rules]: "keeps R (put_ticket t)"
    and opened [keep_rules]: "keeps R (open_run w run_id)"
    and options_stored [keep_rules]: "keeps R (store_options opts)"
    and forgotten_tickets: "keeps R forget_consumed"
    and loading [keep_rules]: "keeps R load_run_context"
begin

lemma demo_patches [keep_rules]: "keeps R (apply_first_patch env)" "keeps R (apply_correction_patch env)"
  unfolding apply_first_patch_def apply_correction_patch_def record_scripted_adapter_transcript_def
  by (intro keep_rules)+

lemma rejections [keep_rules]: "keeps R (rejection_loop env n review attempt left)"
proof (induction left arbitrary: attempt)
  case 0
  show ?case unfolding rejection_loop.simps by (intro keep_rules)
next
  case (Suc left)
  show ?case unfolding rejection_loop.simps by (intro keep_rules Suc.IH)
qed

lemma demo_workflows [keep_rules]:
  "keeps R (run_demo_provider_workflow env provider prompt n budget)" "keeps R (run_demo_provider_free_workflow env)"
  unfolding run_demo_provider_workflow_def run_demo_provider_free_workflow_def run_repair_loop_after_rejection_def
  by (intro keep_rules)+

lemma free_commands [keep_rules]: "keeps R (run_commands env task_id i raws)"
proof (induction raws arbitrary: i)
  case Nil
  show ?case unfolding run_commands.simps by (intro keep_rules)
next
  case (Cons raw raws)
  show ?case unfolding run_commands.simps by (intro keep_rules Cons.IH)
qed

lemma free_tasks_recorded [keep_rules]: "keeps R (record_tasks env ts)"
proof (induction ts)
  case Nil
  show ?case unfolding record_tasks.simps by (intro keep_rules)
next
  case (Cons t ts)
  show ?case unfolding record_tasks.simps record_task_def run_provider_free_task_commands_def
    by (intro keep_rules Cons.IH)
qed

lemma free_workflow [keep_rules]: "keeps R (run_real_project_provider_free_workflow env)"
  unfolding run_real_project_provider_free_workflow_def record_provider_free_real_project_tasks_def
  by (intro keep_rules)

lemma clearing [keep_rules]: "keeps R (clear_consumed env)"
proof -
  have "keeps R (\<lambda>s. (Inr (), if b then s\<lparr>rc_consumed := None\<rparr> else s))" for b
    using forgotten_tickets refl by (simp add: keeps_def forget_consumed_def)
  then show ?thesis unfolding clear_consumed_def by (intro keep_rules)
qed

lemma work_resumed [keep_rules]: "keeps R (continue_with_provider env opts)" "keeps R (continue_provider_free env)"
  unfolding continue_with_provider_def continue_provider_free_def by (intro keep_rules)+

lemma finished [keep_rules]: "keeps R (finish_run env status)"
  unfolding finish_run_def export_evidence_pack_def render_static_report_def by (intro keep_rules)

lemma resumed [keep_rules]: "keeps R (resume_risky_pr_provider_free env host)"
  unfolding resume_risky_pr_provider_free_def ensure_target_repo_def by (intro keep_rules)

lemma granted_ticket [keep_rules]: "keeps R (approve_risky_pr_ticket env host ticket_id who)"
  unfolding approve_risky_pr_ticket_def approve_ticket_def ensure_target_repo_def by (intro keep_rules)

lemma started [keep_rules]: "keeps R (start_risky_pr_provider_free env host opts)"
  unfolding start_risky_pr_provider_free_def ensure_target_repo_def announce_run_def record_plan_def
  by (intro keep_rules)

lemma approvals_settled [keep_rules]: "keeps R (auto_approve env host who fuel status)"
proof (induction fuel arbitrary: status)
  case 0
  show ?case unfolding auto_approve.simps by (intro keep_rules)
next
  case (Suc fuel)
  show ?case unfolding auto_approve.simps by (intro keep_rules Suc.IH)
qed

lemma whole_runs [keep_rules]:
  "keeps R (run_risky_pr_provider_free env host opts)"
  "keeps R (run_risky_pr_with_provider_prompt env host fuel opts provider)"
  unfolding run_risky_pr_provider_free_def run_risky_pr_with_provider_prompt_def begin_provider_run_def
    settle_approvals_def
  by (intro keep_rules)+

end

subsection \<open>Every event is sealed\<close>

definition sealed :: "run_env \<Rightarrow> ao_event \<Rightarrow> bool" where
  "sealed env ev \<longleftrightarrow> ev_payload_digest ev =
     canonical_payload_digest (re_sha256 env) (re_to_vec env) (ev_payload ev) (ev_policy_integrity ev)"

fun logged :: "run_step list \<Rightarrow> ao_event list" where
  "logged [] = []"
| "logged (Emitted ev # steps) = ev # logged steps"
| "logged (st # steps) = logged steps"

lemma logged_append [simp]: "logged (xs @ ys) = logged xs @ logged ys"
  by (induction xs rule: logged.induct) auto

definition seals :: "run_env \<Rightarrow> run_ctx \<Rightarrow> run_ctx \<Rightarrow> bool" where
  "seals env s s' \<longleftrightarrow> (\<exists>new. rc_trace s' = rc_trace s @ new \<and> list_all (sealed env) (logged new))"

lemma seals_trans: "seals env s t \<Longrightarrow> seals env t u \<Longrightarrow> seals env s u"
  unfolding seals_def by (metis append.assoc list_all_append logged_append)

lemma run_event_sealed: "sealed env (run_event env s uuid time ty role_id task_id act payload)"
  by (simp add: sealed_def run_event_def Let_def with_policy_integrity_def ao_event_new_def
      canonical_payload_digest_def)

lemma sealsI:
  assumes "\<And>s. \<exists>new. rc_trace (snd (m s)) = rc_trace s @ new \<and> list_all (sealed env) (logged new)"
  shows "keeps (seals env) m"
  using assms by (intro keepsI) (simp add: seals_def)

interpretation sealing: artifact_blind env "seals env" for env
  by unfold_locales
    (simp add: seals_def, erule (1) seals_trans, (rule sealsI, simp add: elementary_defs run_event_sealed)+)

interpretation sealing: log_relation env "seals env" for env
  by unfold_locales
    (simp_all add: sealing.stored_artifact,
     (rule sealsI, simp add: elementary_defs consume_ticket_def io_call_def get_ctx_def push_closure_def
       push_repair_def write_repo_def open_run_def store_options_def forget_consumed_def load_run_context_def
       split: prod.split sum.split option.split)+)

text \<open>C21: Every event of every run is sealed: whatever is asked of the runtime, and however it ends, each event
  that it adds to the log carries the digest of its own payload, together with the policy decision
  it is bound to when there is one.\<close>

theorem every_event_is_sealed:
  "seals env s (snd (run_risky_pr_with_provider_prompt env host fuel opts provider s))
   \<and> seals env s (snd (run_risky_pr_provider_free env host opts s))
   \<and> seals env s (snd (start_risky_pr_provider_free env host opts s))
   \<and> seals env s (snd (approve_risky_pr_ticket env host ticket_id who s))
   \<and> seals env s (snd (resume_risky_pr_provider_free env host s))"
  using keepsD [OF sealing.whole_runs(1)] keepsD [OF sealing.whole_runs(2)] keepsD [OF sealing.started]
    keepsD [OF sealing.granted_ticket] keepsD [OF sealing.resumed]
  by (metis prod.collapse)

end
