(* ===== verification/Run_Replay.thy ===== *)
theory Run_Replay
  imports Run_Log
begin

text \<open>
  Replay, \<open>replay_run\<close> of \<open>crates/ao2-runtime/src/lib.rs\<close>: the event log, the artifacts and the run record of
  a finished run are checked against each other.  What a read of a file gives and what serde reads in
  it are arguments.  The theorems say exactly when a run replays, which mismatches are reported, that what
  the runtime finished does replay, and that approvals changed afterwards do not.
\<close>

subsection \<open>The code\<close>

record replay_env =
  rp_files :: "string \<Rightarrow> string option"
  rp_event :: "string \<Rightarrow> ao_event rresult"
  rp_from_slice :: "string \<Rightarrow> json rresult"

record replay_scan =
  rn_count :: nat
  rn_types :: "string list"
  rn_failures :: "string list"
  rn_checkpoint :: "json option"

record replay_summary =
  ry_run_id :: string
  ry_status :: run_status
  ry_event_count :: nat
  ry_artifact_count :: nat
  ry_event_types :: "string list"
  ry_digest_failures :: "string list"

definition checkpoint_type :: string where
  "checkpoint_type = ''run.record.integrity.checkpoint''"

definition scan_event :: "run_env \<Rightarrow> ao_event \<Rightarrow> replay_scan \<Rightarrow> replay_scan" where
  "scan_event env ev sc =
     (let expected = canonical_payload_digest (re_sha256 env) (re_to_vec env) (ev_payload ev) (ev_policy_integrity ev)
      in \<lparr>rn_count = rn_count sc + 1, rn_types = rn_types sc @ [ev_event_type ev],
          rn_failures = rn_failures sc @ (if expected \<noteq> ev_payload_digest ev
            then [''event '' @ ev_event_id ev @ '' payload digest mismatch''] else []),
          rn_checkpoint = (if ev_event_type ev = checkpoint_type then Some (ev_payload ev) else rn_checkpoint sc)\<rparr>)"

fun scan_lines :: "run_env \<Rightarrow> replay_env \<Rightarrow> nat \<Rightarrow> string list \<Rightarrow> replay_scan \<Rightarrow> replay_scan rresult" where
  "scan_lines env rp index [] sc = Inr sc"
| "scan_lines env rp index (line # lines') sc =
     (if trim line = [] then scan_lines env rp (Suc index) lines' sc
      else case rp_event rp line of
        Inl e \<Rightarrow> Inl (''parse event line '' @ show_nat (index + 1))
      | Inr ev \<Rightarrow> scan_lines env rp (Suc index) lines' (scan_event env ev sc))"

fun check_artifacts :: "run_env \<Rightarrow> replay_env \<Rightarrow> artifact_ref list \<Rightarrow> string list \<Rightarrow> string list rresult" where
  "check_artifacts env rp [] failures = Inr failures"
| "check_artifacts env rp (a # as) failures =
     (case rp_files rp (ar_uri a) of
        None \<Rightarrow> Inl (''read artifact '' @ ar_uri a)
      | Some content \<Rightarrow> check_artifacts env rp as (failures @
          (if re_sha256 env content \<noteq> ar_digest a
           then [''artifact '' @ ar_artifact_id a @ '' digest mismatch''] else [])))"

definition record_path :: "run_ctx \<Rightarrow> string" where
  "record_path s = path_join (rc_run_dir s) ''run-record.json''"

definition verify_run_record_integrity ::
    "run_env \<Rightarrow> replay_env \<Rightarrow> run_ctx \<Rightarrow> json option \<Rightarrow> string list \<Rightarrow> string list rresult" where
  "verify_run_record_integrity env rp s checkpoint failures =
     (case rp_files rp (record_path s) of
        None \<Rightarrow> Inl (''read run record '' @ record_path s)
      | Some text \<Rightarrow> (case rp_from_slice rp text of
          Inl e \<Rightarrow> Inl (''parse run record '' @ record_path s)
        | Inr v \<Rightarrow> (case json_get v ''replay_integrity'' of
            None \<Rightarrow> Inr failures
          | Some recorded \<Rightarrow>
              let expected = run_record_integrity env s in
              Inr (failures @ (if recorded \<noteq> expected then [''run record integrity mismatch''] else [])
                @ (case checkpoint of
                     Some c \<Rightarrow> if c = expected then [] else [''run record integrity checkpoint mismatch'']
                   | None \<Rightarrow> [''run record integrity checkpoint missing''])))))"

definition replay_loaded :: "run_env \<Rightarrow> replay_env \<Rightarrow> run_status \<Rightarrow> run_ctx \<Rightarrow> replay_summary rresult" where
  "replay_loaded env rp status s =
     rbind (with_context (''read events '' @ events_path s)
       (Option.bind (rp_files rp (events_path s)) (\<lambda>b. if utf8_valid b then Some b else None))) (\<lambda>log.
     rbind (scan_lines env rp 0 (str_lines log) \<lparr>rn_count = 0, rn_types = [], rn_failures = [], rn_checkpoint = None\<rparr>) (\<lambda>sc.
     rbind (check_artifacts env rp (rc_artifacts s) (rn_failures sc)) (\<lambda>failures.
     rbind (verify_run_record_integrity env rp s (rn_checkpoint sc) failures) (\<lambda>failures.
     if failures \<noteq> [] then Inl (''digest mismatch: '' @ join ''; '' failures)
     else Inr \<lparr>ry_run_id = rc_run_id s, ry_status = status, ry_event_count = rn_count sc,
       ry_artifact_count = length (rc_artifacts s), ry_event_types = rn_types sc,
       ry_digest_failures = failures\<rparr>))))"

definition replay_run :: "run_env \<Rightarrow> run_host \<Rightarrow> replay_env \<Rightarrow> replay_summary run_act" where
  "replay_run env host rp =
     act_bind (ensure_target_repo host) (\<lambda>_.
     act_bind load_run_context (\<lambda>status.
     act_bind get_ctx (\<lambda>s. act_lift (replay_loaded env rp status s))))"

subsection \<open>What replay reports\<close>

text \<open>The events that the lines of a log are read as; blank lines are skipped.\<close>

definition reads_as :: "replay_env \<Rightarrow> string \<Rightarrow> ao_event list \<Rightarrow> bool" where
  "reads_as rp text events \<longleftrightarrow>
     map (rp_event rp) (filter (\<lambda>line. trim line \<noteq> []) (str_lines text)) = map Inr events"

definition last_checkpoint :: "ao_event list \<Rightarrow> json option" where
  "last_checkpoint events =
     (case filter (\<lambda>ev. ev_event_type ev = checkpoint_type) events of
        [] \<Rightarrow> None | evs \<Rightarrow> Some (ev_payload (last evs)))"

definition event_failures :: "run_env \<Rightarrow> ao_event list \<Rightarrow> string list" where
  "event_failures env events =
     map (\<lambda>ev. ''event '' @ ev_event_id ev @ '' payload digest mismatch'') (filter (\<lambda>ev. \<not> sealed env ev) events)"

definition intact :: "run_env \<Rightarrow> replay_env \<Rightarrow> artifact_ref \<Rightarrow> bool" where
  "intact env rp a \<longleftrightarrow> map_option (re_sha256 env) (rp_files rp (ar_uri a)) = Some (ar_digest a)"

definition artifact_failures :: "run_env \<Rightarrow> replay_env \<Rightarrow> artifact_ref list \<Rightarrow> string list" where
  "artifact_failures env rp as =
     map (\<lambda>a. ''artifact '' @ ar_artifact_id a @ '' digest mismatch'') (filter (\<lambda>a. \<not> intact env rp a) as)"

definition record_failures :: "run_env \<Rightarrow> run_ctx \<Rightarrow> ao_event list \<Rightarrow> json \<Rightarrow> string list" where
  "record_failures env s events v =
     (case json_get v ''replay_integrity'' of
        None \<Rightarrow> []
      | Some recorded \<Rightarrow>
          (if recorded = run_record_integrity env s then [] else [''run record integrity mismatch''])
          @ (if last_checkpoint events = Some (run_record_integrity env s) then []
             else if last_checkpoint events = None then [''run record integrity checkpoint missing'']
             else [''run record integrity checkpoint mismatch'']))"

lemma last_checkpoint_Cons:
  "last_checkpoint (ev # evs) = (case last_checkpoint evs of Some p \<Rightarrow> Some p
     | None \<Rightarrow> if ev_event_type ev = checkpoint_type then Some (ev_payload ev) else None)"
  by (auto simp: last_checkpoint_def split: list.splits)

lemma scan_lines_ok:
  assumes "map (rp_event rp) (filter (\<lambda>line. trim line \<noteq> []) ls) = map Inr events"
  shows "scan_lines env rp i ls sc = Inr \<lparr>rn_count = rn_count sc + length events,
     rn_types = rn_types sc @ map ev_event_type events, rn_failures = rn_failures sc @ event_failures env events,
     rn_checkpoint = (case last_checkpoint events of Some p \<Rightarrow> Some p | None \<Rightarrow> rn_checkpoint sc)\<rparr>"
  using assms
proof (induction ls arbitrary: i sc events)
  case Nil
  then show ?case by (simp add: event_failures_def last_checkpoint_def)
next
  case (Cons l ls)
  show ?case
  proof (cases "trim l = []")
    case True
    with Cons show ?thesis by simp
  next
    case False
    with Cons.prems obtain ev evs where events: "events = ev # evs" "rp_event rp l = Inr ev"
      "map (rp_event rp) (filter (\<lambda>line. trim line \<noteq> []) ls) = map Inr evs"
      by (auto simp: Cons_eq_map_conv)
    show ?thesis
      using False events Cons.IH [OF events(3)]
      by (auto simp: scan_event_def Let_def event_failures_def sealed_def last_checkpoint_Cons split: option.split)
  qed
qed

lemma scan_lines_reads:
  "scan_lines env rp i ls sc = Inr sc' \<Longrightarrow>
     \<exists>events. map (rp_event rp) (filter (\<lambda>line. trim line \<noteq> []) ls) = map Inr events"
proof (induction ls arbitrary: i sc)
  case (Cons l ls)
  show ?case
  proof (cases "trim l = []")
    case False
    with Cons.prems obtain ev where "rp_event rp l = Inr ev" "scan_lines env rp (Suc i) ls (scan_event env ev sc) = Inr sc'"
      by (auto split: sum.splits)
    with Cons.IH False show ?thesis by (metis (no_types, lifting) filter.simps(2) list.simps(9))
  qed (use Cons in auto)
qed simp

lemma check_artifacts_eq:
  "check_artifacts env rp as failures =
     (case find (\<lambda>a. rp_files rp (ar_uri a) = None) as of
        Some a \<Rightarrow> Inl (''read artifact '' @ ar_uri a)
      | None \<Rightarrow> Inr (failures @ artifact_failures env rp as))"
  by (induction as arbitrary: failures)
    (auto simp: artifact_failures_def intact_def split: option.splits)

lemma record_checked:
  assumes "rp_files rp (record_path s) = Some text" and "rp_from_slice rp text = Inr v"
  shows "verify_run_record_integrity env rp s (last_checkpoint events) failures
    = Inr (failures @ record_failures env s events v)"
  using assms by (auto simp: verify_run_record_integrity_def record_failures_def Let_def split: option.split)

text \<open>The files that a replay reads are there and legible.\<close>

definition readable :: "replay_env \<Rightarrow> run_ctx \<Rightarrow> ao_event list \<Rightarrow> json \<Rightarrow> bool" where
  "readable rp s events v \<longleftrightarrow>
     (\<exists>text. rp_files rp (events_path s) = Some text \<and> utf8_valid text \<and> reads_as rp text events)
     \<and> find (\<lambda>a. rp_files rp (ar_uri a) = None) (rc_artifacts s) = None
     \<and> (\<exists>text. rp_files rp (record_path s) = Some text \<and> rp_from_slice rp text = Inr v)"

definition mismatches :: "run_env \<Rightarrow> replay_env \<Rightarrow> run_ctx \<Rightarrow> ao_event list \<Rightarrow> json \<Rightarrow> string list" where
  "mismatches env rp s events v =
     event_failures env events @ artifact_failures env rp (rc_artifacts s) @ record_failures env s events v"

definition replay_report :: "run_status \<Rightarrow> run_ctx \<Rightarrow> ao_event list \<Rightarrow> replay_summary" where
  "replay_report status s events =
     \<lparr>ry_run_id = rc_run_id s, ry_status = status, ry_event_count = length events,
      ry_artifact_count = length (rc_artifacts s), ry_event_types = map ev_event_type events,
      ry_digest_failures = []\<rparr>"

lemma replay_readable:
  assumes "readable rp s events v"
  shows "replay_loaded env rp status s =
    (if mismatches env rp s events v = [] then Inr (replay_report status s events)
     else Inl (''digest mismatch: '' @ join ''; '' (mismatches env rp s events v)))"
proof -
  from assms obtain content stored where content: "rp_files rp (events_path s) = Some content" "utf8_valid content"
    and reads: "map (rp_event rp) (filter (\<lambda>line. trim line \<noteq> []) (str_lines content)) = map Inr events"
    and artifacts: "find (\<lambda>a. rp_files rp (ar_uri a) = None) (rc_artifacts s) = None"
    and saved: "rp_files rp (record_path s) = Some stored" "rp_from_slice rp stored = Inr v"
    by (auto simp: readable_def reads_as_def)
  let ?sc = "\<lparr>rn_count = 0, rn_types = [], rn_failures = [], rn_checkpoint = None\<rparr>"
  let ?sc' = "\<lparr>rn_count = length events, rn_types = map ev_event_type events,
      rn_failures = event_failures env events, rn_checkpoint = last_checkpoint events\<rparr>"
  have "scan_lines env rp 0 (str_lines content) ?sc = Inr ?sc'"
    using scan_lines_ok [OF reads, of env 0 ?sc] by (simp split: option.split)
  then have "replay_loaded env rp status s =
      rbind (Inr (mismatches env rp s events v)) (\<lambda>failures.
        if failures \<noteq> [] then Inl (''digest mismatch: '' @ join ''; '' failures)
        else Inr \<lparr>ry_run_id = rc_run_id s, ry_status = status, ry_event_count = rn_count ?sc',
         ry_artifact_count = length (rc_artifacts s), ry_event_types = rn_types ?sc', ry_digest_failures = failures\<rparr>)"
    by (simp only: replay_loaded_def content with_context_def option.case Option.bind.simps if_True rbind_Inr
        check_artifacts_eq artifacts record_checked [OF saved] replay_scan.simps append.assoc mismatches_def)
  then show ?thesis by (simp add: replay_report_def)
qed

lemma replay_reads:
  assumes "replay_loaded env rp status s = Inr sm"
  obtains events v where "readable rp s events v"
proof -
  from assms obtain content sc failures where content: "rp_files rp (events_path s) = Some content" "utf8_valid content"
    and scanned: "scan_lines env rp 0 (str_lines content) \<lparr>rn_count = 0, rn_types = [], rn_failures = [], rn_checkpoint = None\<rparr> = Inr sc"
    and found: "check_artifacts env rp (rc_artifacts s) (rn_failures sc) = Inr failures"
    and checked: "\<exists>fs. verify_run_record_integrity env rp s (rn_checkpoint sc) failures = Inr fs"
    by (auto simp: replay_loaded_def rbind_def with_context_def bind_eq_Some_conv
        split: sum.splits option.splits if_splits)
  moreover from scan_lines_reads [OF scanned] obtain events where "reads_as rp content events"
    by (auto simp: reads_as_def)
  moreover have "find (\<lambda>a. rp_files rp (ar_uri a) = None) (rc_artifacts s) = None"
    using found by (simp add: check_artifacts_eq split: option.splits)
  moreover from checked obtain stored v where "rp_files rp (record_path s) = Some stored" "rp_from_slice rp stored = Inr v"
    by (auto simp: verify_run_record_integrity_def split: option.splits sum.splits)
  ultimately show thesis using that unfolding readable_def by blast
qed

text \<open>The record carries the digests of the decisions and tickets it holds and so does the last
  checkpoint of the log; or it is a record from before there were any.\<close>

definition bound_record :: "run_env \<Rightarrow> run_ctx \<Rightarrow> ao_event list \<Rightarrow> json \<Rightarrow> bool" where
  "bound_record env s events v \<longleftrightarrow>
     (case json_get v ''replay_integrity'' of
        None \<Rightarrow> True
      | Some recorded \<Rightarrow> recorded = run_record_integrity env s
          \<and> last_checkpoint events = Some (run_record_integrity env s))"

lemma no_mismatches:
  assumes "readable rp s events v"
  shows "mismatches env rp s events v = [] \<longleftrightarrow>
    list_all (sealed env) events \<and> list_all (intact env rp) (rc_artifacts s) \<and> bound_record env s events v"
  by (auto simp: mismatches_def event_failures_def artifact_failures_def record_failures_def bound_record_def
      filter_empty_conv list_all_iff split: option.split)

lemma replay_run_eq:
  "fst (replay_run env host rp s) =
    (if \<not> ho_repo_exists host then Inl (''target repo does not exist: '' @ rc_target_repo s)
     else case rc_saved s of
       None \<Rightarrow> Inl (''read run record '' @ path_join (rc_run_dir s) ''run-record.json'')
     | Some sv \<Rightarrow> replay_loaded env rp (sv_status sv) (loaded sv s))"
  by (simp add: replay_run_def act_bind_def ensure_target_repo_def get_ctx_def load_run_context_def loaded_def
      bail_if_def split: option.split)

text \<open>C24: Replay succeeds exactly on a run whose evidence is complete and unchanged: there is a record, every
  line of the log is an event that carries the digest of its payload, every artifact is there with
  the content its digest says, and the record and the last checkpoint of the log carry the
  digests of the decisions and tickets that the record holds, unless the record has no such
  field; and then it reports the run as the record and the log have it.\<close>

theorem replay_accepts_iff:
  "fst (replay_run env host rp s) = Inr sm \<longleftrightarrow>
    ho_repo_exists host \<and> (\<exists>sv events v. rc_saved s = Some sv \<and> readable rp (loaded sv s) events v
      \<and> list_all (sealed env) events \<and> list_all (intact env rp) (sv_artifacts sv)
      \<and> bound_record env (loaded sv s) events v
      \<and> sm = replay_report (sv_status sv) (loaded sv s) events)"
proof -
  have "replay_loaded env rp (sv_status sv) (loaded sv s) = Inr sm \<longleftrightarrow>
    (\<exists>events v. readable rp (loaded sv s) events v \<and> list_all (sealed env) events
      \<and> list_all (intact env rp) (sv_artifacts sv) \<and> bound_record env (loaded sv s) events v
      \<and> sm = replay_report (sv_status sv) (loaded sv s) events)" for sv
  proof -
    have "rc_artifacts (loaded sv s) = sv_artifacts sv" by (simp add: loaded_def)
    with replay_readable [of rp "loaded sv s" _ _ env "sv_status sv"] no_mismatches [of rp "loaded sv s" _ _ env]
      replay_reads [of env rp "sv_status sv" "loaded sv s" sm]
    show ?thesis by (metis sum.distinct(1) sum.inject(2))
  qed
  then show ?thesis by (auto simp: replay_run_eq split: option.split)
qed

subsection \<open>What the runtime finished replays\<close>

lemma last_checkpoint_snoc:
  "ev_event_type ev = checkpoint_type \<Longrightarrow> last_checkpoint (evs @ [ev]) = Some (ev_payload ev)"
  by (cases "filter (\<lambda>ev. ev_event_type ev = checkpoint_type) evs") (simp_all add: last_checkpoint_def)

lemma emitted_event:
  assumes "emit env ty role_id task_id act payload s = (Inr (), s')"
  shows "\<exists>ev. rc_trace s' = rc_trace s @ [Emitted ev] \<and> ev_event_type ev = ty \<and> ev_payload ev = payload"
  using assms
  by (auto simp: emit_def act_bind_ok get_ctx_def draw_def now_def io_call_def log_step_def run_event_def Let_def
      ao_event_new_def with_policy_integrity_def)

text \<open>The document that \<open>write_run_record\<close> puts into \<open>run-record.json\<close>, in terms of the state it leaves.\<close>

definition final_record :: "run_env \<Rightarrow> run_status \<Rightarrow> run_ctx \<Rightarrow> json" where
  "final_record env status s =
     run_record_json env s status (run_record_integrity env s) (evidence_pack_path s) (report_path s)"

lemma recorded_state:
  assumes "write_run_record env status s = (Inr u, s')"
  shows "last_checkpoint (logged (rc_trace s')) = Some (run_record_integrity env s')"
    and "\<exists>sv. rc_saved s' = Some sv \<and> sv_status sv = status \<and> loaded sv s' = s'"
proof -
  let ?integrity = "run_record_integrity env s"
  obtain t v where sent: "emit env ''run.record.integrity.checkpoint'' None None actor_system ?integrity s = (Inr (), t)"
    and io: "io_call env (''write '' @ path_join (rc_run_dir s) ''run-record.json'') t = (Inr (), v)"
    and rest: "act_bind (save_ctx status ?integrity) (\<lambda>_. log_step (RecordWritten status)) v = (Inr u, s')"
    using assms by (auto simp: write_run_record_def act_bind_ok get_ctx_def Let_def)
  obtain ev where ev: "rc_trace t = rc_trace s @ [Emitted ev]" "ev_event_type ev = checkpoint_type" "ev_payload ev = ?integrity"
    using emitted_event [OF sent] by (auto simp: checkpoint_type_def)
  have "rc_trace v = rc_trace t" using io by (auto simp: io_call_def act_bind_ok draw_def)
  then have "logged (rc_trace s') = logged (rc_trace s) @ [ev]"
    using rest ev(1) by (auto simp: act_bind_ok save_ctx_def log_step_def)
  moreover have "run_record_integrity env s' = ?integrity"
    using write_run_record_ok(1) [OF assms] keepsD [OF sealing.run_record assms]
      keepsD [OF static.run_record assms]
    by (simp add: run_record_integrity_def same_control_def same_run_def)
  ultimately show "last_checkpoint (logged (rc_trace s')) = Some (run_record_integrity env s')"
    using last_checkpoint_snoc [OF ev(2)] ev(3) by simp
  show "\<exists>sv. rc_saved s' = Some sv \<and> sv_status sv = status \<and> loaded sv s' = s'"
    using write_run_record_ok(2) [OF assms] loaded_saved by metis
qed

lemma record_integrity: "json_get (final_record env status s) ''replay_integrity'' = Some (run_record_integrity env s)"
  by (simp add: final_record_def run_record_json_def Let_def json_get_object)

lemma recorded_replays:
  assumes "write_run_record env status u = (Inr x, s)" and "list_all (sealed env) (logged (rc_trace u))"
    and "ho_repo_exists host" and "readable rp s (logged (rc_trace s)) (final_record env status s)"
    and "list_all (intact env rp) (rc_artifacts s)"
  shows "fst (replay_run env host rp s) = Inr (replay_report status s (logged (rc_trace s)))"
proof -
  obtain sv where sv: "rc_saved s = Some sv" "sv_status sv = status" "loaded sv s = s"
    using recorded_state(2) [OF assms(1)] by blast
  have "list_all (sealed env) (logged (rc_trace s))"
    using keepsD [OF sealing.run_record assms(1)] assms(2) by (auto simp: seals_def)
  moreover have "bound_record env s (logged (rc_trace s)) (final_record env status s)"
    by (simp add: bound_record_def record_integrity recorded_state(1) [OF assms(1)])
  ultimately have "mismatches env rp s (logged (rc_trace s)) (final_record env status s) = []"
    using no_mismatches [OF assms(4)] assms(5) by blast
  then show ?thesis using replay_readable [OF assms(4)] sv assms(3) by (simp add: replay_run_eq)
qed

lemma finish_recorded:
  assumes "finish_run env status u = (Inr sm, s)"
  obtains v where "seals env u v" and "write_run_record env status v = (Inr (), s)" and "sm_status sm = status"
proof -
  obtain t v where "export_evidence_pack env u = (Inr (), t)" "render_static_report env t = (Inr (), v)"
    and "write_run_record env status v = (Inr (), s)" and "sm_status sm = status"
    using assms by (auto simp: finish_run_def act_bind_ok get_ctx_def summary_of_def)
  moreover have "keeps (seals env) (export_evidence_pack env)" "keeps (seals env) (render_static_report env)"
    unfolding export_evidence_pack_def render_static_report_def by (intro keep_rules)+
  ultimately show thesis using that seals_trans keepsD by metis
qed

text \<open>A whole run with a provider, from an empty log to its summary, replays.\<close>

lemma whole_run_replays:
  assumes "run_risky_pr_with_provider_prompt env host fuel opts provider s = (Inr (Some sm), s')"
    and "logged (rc_trace s) = []" and "ho_repo_exists host"
    and "readable rp s' (logged (rc_trace s')) (final_record env (sm_status sm) s')"
    and "list_all (intact env rp) (rc_artifacts s')"
  shows "fst (replay_run env host rp s') = Inr (replay_report (sm_status sm) s' (logged (rc_trace s')))"
proof -
  obtain a status t b u where begun: "begin_provider_run env host opts provider s = (Inr a, t)"
    and settled: "settle_approvals env host fuel a t = (Inr (Some status), u)"
    and finished: "finish_run env status u = (Inr sm, s')"
    using assms(1) by (auto simp: run_risky_pr_with_provider_prompt_def act_bind_ok split: option.splits)
  have "keeps (seals env) (begin_provider_run env host opts provider)" "keeps (seals env) (settle_approvals env host fuel a)"
    unfolding begin_provider_run_def settle_approvals_def by (intro keep_rules)+
  then have "seals env s u" using begun settled seals_trans keepsD by metis
  moreover obtain v where "seals env u v" and written: "write_run_record env status v = (Inr (), s')"
    and "sm_status sm = status"
    using finished by (rule finish_recorded)
  ultimately have "list_all (sealed env) (logged (rc_trace v))"
    using assms(2) by (auto simp: seals_def)
  then show ?thesis using recorded_replays [OF written] assms(3-) \<open>sm_status sm = status\<close> by simp
qed


subsection \<open>What was changed afterwards does not\<close>

lemma same_integrity:
  assumes "run_record_integrity env s = run_record_integrity env t"
  shows "re_sha256 env (re_tickets_vec env (rc_approvals s)) = re_sha256 env (re_tickets_vec env (rc_approvals t))"
    and "re_sha256 env (re_decisions_vec env (rc_policy_decisions s)) = re_sha256 env (re_decisions_vec env (rc_policy_decisions t))"
    and "rc_run_id s = rc_run_id t"
proof -
  have same: "json_get (run_record_integrity env s) k = json_get (run_record_integrity env t) k" for k
    using assms by simp
  from same [of "''approval_tickets_digest''"] same [of "''policy_decisions_digest''"] same [of "''run_id''"]
  show "re_sha256 env (re_tickets_vec env (rc_approvals s)) = re_sha256 env (re_tickets_vec env (rc_approvals t))"
    "re_sha256 env (re_decisions_vec env (rc_policy_decisions s)) = re_sha256 env (re_decisions_vec env (rc_policy_decisions t))"
    "rc_run_id s = rc_run_id t"
    by (simp_all add: run_record_integrity_def Let_def json_get_object)
qed

text \<open>C23: Approvals changed after the fact do not replay: when a run was recorded in a state, its log is as the
  runtime left it, and the record still has its integrity field, then replay accepts only the tickets
  and decisions of that state, as long as SHA-256 tells the two lists apart.\<close>

theorem changed_approvals_do_not_replay:
  assumes "write_run_record env status u = (Inr x, s)"
    and "rc_saved t = Some sv" and "readable rp (loaded sv t) (logged (rc_trace s)) v"
    and "json_get v ''replay_integrity'' = Some recorded"
    and "re_sha256 env (re_tickets_vec env (sv_approvals sv)) = re_sha256 env (re_tickets_vec env (rc_approvals s))
      \<Longrightarrow> sv_approvals sv = rc_approvals s"
    and "re_sha256 env (re_decisions_vec env (sv_policy_decisions sv))
        = re_sha256 env (re_decisions_vec env (rc_policy_decisions s))
      \<Longrightarrow> sv_policy_decisions sv = rc_policy_decisions s"
    and "fst (replay_run env host rp t) = Inr sm"
  shows "sv_approvals sv = rc_approvals s \<and> sv_policy_decisions sv = rc_policy_decisions s \<and> rc_run_id t = rc_run_id s"
proof -
  have "replay_loaded env rp (sv_status sv) (loaded sv t) = Inr sm"
    using assms(2,7) by (simp add: replay_run_eq split: if_splits)
  then have "bound_record env (loaded sv t) (logged (rc_trace s)) v"
    using replay_readable [OF assms(3)] no_mismatches [OF assms(3)] by (metis sum.distinct(1))
  with assms(4) recorded_state(1) [OF assms(1)]
  have "run_record_integrity env (loaded sv t) = run_record_integrity env s"
    by (simp add: bound_record_def)
  from same_integrity [OF this] assms(5,6) show ?thesis by (simp add: loaded_def)
qed

text \<open>A record without the field is not checked at all: whatever its tickets are turned into, the run replays,
  even when its log holds a checkpoint.\<close>

lemma stripped_record_is_not_checked:
  assumes "ho_repo_exists host" and "rc_saved s = Some sv"
    and "readable rp (loaded sv s) events v" and "json_get v ''replay_integrity'' = None"
    and "list_all (sealed env) events" and "list_all (intact env rp) (sv_artifacts sv)"
  defines "forge \<equiv> \<lambda>tickets. s\<lparr>rc_saved := Some (sv\<lparr>sv_approvals := tickets\<rparr>)\<rparr>"
  shows "fst (replay_run env host rp (forge tickets)) = fst (replay_run env host rp s)
    \<and> \<not> isl (fst (replay_run env host rp (forge tickets)))"
proof -
  let ?sv = "sv\<lparr>sv_approvals := tickets\<rparr>"
  have parts: "rc_artifacts (loaded ?sv (forge tickets)) = sv_artifacts sv" "rc_artifacts (loaded sv s) = sv_artifacts sv"
    by (simp_all add: loaded_def)
  have forged: "readable rp (loaded ?sv (forge tickets)) events v"
    using assms(3) parts by (simp add: readable_def events_path_def record_path_def forge_def loaded_def)
  have bound: "bound_record env c events v" for c using assms(4) by (simp add: bound_record_def)
  have "mismatches env rp (loaded ?sv (forge tickets)) events v = []" "mismatches env rp (loaded sv s) events v = []"
    using no_mismatches [OF forged, of env] no_mismatches [OF assms(3), of env] parts assms(5,6) bound by simp_all
  with replay_readable [OF forged, of env "sv_status sv"] replay_readable [OF assms(3), of env "sv_status sv"] assms(1,2)
  show ?thesis
    by (simp add: replay_run_eq replay_report_def forge_def loaded_def)
qed

subsection \<open>The text of the log\<close>

definition log_text :: "(ao_event \<Rightarrow> string) \<Rightarrow> ao_event list \<Rightarrow> string" where
  "log_text to_line events = concat (map (\<lambda>ev. to_line ev @ nl) events)"

text \<open>A serializer that writes an event on one line, which the parser takes back, gives a log that
  reads as the events appended to it.\<close>

definition one_line :: "replay_env \<Rightarrow> (ao_event \<Rightarrow> string) \<Rightarrow> ao_event \<Rightarrow> bool" where
  "one_line rp to_line ev \<longleftrightarrow> set (to_line ev) \<inter> {CHR 0x0A, CHR 0x0D} = {} \<and> trim (to_line ev) \<noteq> []
     \<and> utf8_valid (to_line ev) \<and> rp_event rp (to_line ev) = Inr ev"

lemma log_reads_back:
  assumes "list_all (one_line rp to_line) events"
  shows "utf8_valid (log_text to_line events) \<and> reads_as rp (log_text to_line events) events"
  using assms
proof (induction events)
  case Nil
  then show ?case by (simp add: log_text_def reads_as_def)
next
  case (Cons ev events)
  have "whole_lines (to_line ev @ nl)" by (simp add: whole_lines_def nl_def)
  from str_lines_append [OF this] Cons.prems
  have lines_eq: "str_lines (log_text to_line (ev # events)) = to_line ev # str_lines (log_text to_line events)"
    by (simp add: log_text_def one_line_def str_lines_one)
  have "utf8_valid nl" by code_simp
  with Cons have "utf8_valid (log_text to_line (ev # events))"
    by (auto simp: log_text_def one_line_def intro!: utf8_valid_append)
  moreover have "reads_as rp (log_text to_line (ev # events)) (ev # events)"
    using Cons unfolding reads_as_def lines_eq by (simp add: one_line_def)
  ultimately show ?case by blast
qed

end
