(* ===== verification/Run_Example.thy ===== *)
theory Run_Example
  imports Run_Whole
begin

text \<open>
  A small run that goes all the way: a sandbox with an approved patch is applied, the
  verifier passes, and the run is accepted.  It is the witness of the run's properties.
\<close>

definition example_to_vec :: "json \<Rightarrow> string" where "example_to_vec v = []"
definition example_request_vec :: "tool_request \<Rightarrow> string" where "example_request_vec r = []"
definition example_decision_vec :: "policy_decision \<Rightarrow> string" where "example_decision_vec d = []"
definition example_decisions_vec :: "policy_decision list \<Rightarrow> string" where "example_decisions_vec d = []"
definition example_tickets_vec :: "approval_ticket list \<Rightarrow> string" where "example_tickets_vec t = []"
definition example_pretty :: "json \<Rightarrow> string rresult" where "example_pretty v = Inr ''{}''"
definition example_parse :: "string \<Rightarrow> json rresult" where "example_parse s = Inr (JObject [])"
definition example_time_text :: "timestamp \<Rightarrow> string" where "example_time_text t = []"
definition example_cost :: "json_number list \<Rightarrow> string" where "example_cost ns = []"
definition example_round_cost :: "json_number list \<Rightarrow> json_number" where "example_round_cost ns = PosInt 0"
definition example_show_strings :: "string list \<Rightarrow> string" where "example_show_strings ss = concat ss"
definition example_uuid :: "nat \<Rightarrow> string" where "example_uuid k = replicate k CHR ''x''"
definition example_clock :: "nat \<Rightarrow> timestamp" where "example_clock k = 0"
definition example_io :: "nat \<Rightarrow> bool" where "example_io k \<longleftrightarrow> True"
definition example_copied :: "nat \<Rightarrow> nat" where "example_copied k = 0"
definition example_apply_io :: "nat \<Rightarrow> apply_env" where "example_apply_io k = example_apply_env"

definition example_provider ::
    "nat \<Rightarrow> provider_call \<Rightarrow> disk \<Rightarrow> provider_result rresult \<times> disk" where
  "example_provider k call d = (Inl ''not used'', d)"

text \<open>The two commands that a witness needs: \<open>true\<close> and \<open>false\<close>.\<close>

definition example_command :: "nat \<Rightarrow> string \<Rightarrow> disk \<Rightarrow> verifier_output option \<times> disk" where
  "example_command k c d =
     (Some \<lparr>vo_success = (c = ''true''), vo_code = (if c = ''true'' then 0 else 1), vo_stdout = [], vo_stderr = []\<rparr>, d)"

definition example_write :: "nat \<Rightarrow> string \<Rightarrow> string \<Rightarrow> tree \<Rightarrow> bool \<times> tree" where
  "example_write k path content tree = (False, tree)"

definition example_has_command :: "string \<Rightarrow> bool" where "example_has_command c \<longleftrightarrow> True"

definition example_run_env :: run_env where
  "example_run_env =
     \<lparr>re_sha256 = rev, re_to_vec = example_to_vec, re_request_vec = example_request_vec,
      re_decision_vec = example_decision_vec, re_decisions_vec = example_decisions_vec,
      re_tickets_vec = example_tickets_vec, re_to_string = example_pretty, re_pretty = example_pretty,
      re_from_str = example_parse, re_show_time = example_time_text, re_show_cost = example_cost,
      re_round_cost = example_round_cost, re_display_time = example_time_text,
      re_show_strings = example_show_strings, re_lossy = rev, re_lower = rev, re_uuid = example_uuid,
      re_clock = example_clock, re_io = example_io, re_copied = example_copied,
      re_patch = example_patch_env, re_apply_io = example_apply_io, re_provider = example_provider,
      re_command = example_command, re_has_command = example_has_command,
      re_write = example_write\<rparr>"

definition example_ticket :: approval_ticket where
  "example_ticket = \<lparr>tk_ticket_id = ''t'', tk_run_id = ''n'', tk_requested_action = ''sandbox:apply'',
     tk_action_digest = ''d'', tk_risk_class = [], tk_requester = ''role:implementer'',
     tk_approver = Some ''h'', tk_status = ''approved'', tk_scope = ''sandbox_patch'',
     tk_created_at = 0, tk_expires_at = 1\<rparr>"

definition example_sandboxes :: "string \<Rightarrow> tree option" where
  "example_sandboxes dir =
     (if dir = ''r/sandbox-implementer-provider_prompt_patch'' then Some example_sandbox else None)"

definition no_files :: "string \<Rightarrow> string option" where "no_files p = None"

definition example_ctx :: run_ctx where
  "example_ctx = \<lparr>rc_run_id = ''n'', rc_workflow_id = ''w'', rc_template_kind = Some ''real_project'',
     rc_objective = [], rc_roles = [], rc_workflow_tasks = [], rc_workflow_dependencies = [],
     rc_compatibility = None, rc_acceptance = [], rc_verifier_command = ''true'',
     rc_target_repo = ''g'', rc_run_dir = ''r'', rc_artifacts = [], rc_policy_decisions = [],
     rc_approvals = [example_ticket], rc_closure_reports = [], rc_repair_attempts = [],
     rc_consumed = None, rc_stored = [], rc_saved = None, rc_options = None, rc_files = no_files,
     rc_disk = \<lparr>dk_target = example_target, dk_sandbox = example_sandboxes\<rparr>,
     rc_draws = 0, rc_trace = []\<rparr>"

definition example_site :: patch_site where
  "example_site = prompt_site Scripted [] None"

definition example_preview :: patch_preview where
  "example_preview = projr (preview_sandbox_patch example_patch_env ''g''
     ''r/sandbox-implementer-provider_prompt_patch'' (Some example_target) (Some example_sandbox))"

definition example_tree :: tree where
  "example_tree = snd (apply_sandbox_patch example_patch_env example_apply_env (Some example_sandbox)
     (gate_request example_ctx example_site example_preview example_ticket) example_target)"

text \<open>The same run with another verifier command.\<close>

definition example_start :: "bool \<Rightarrow> run_ctx" where
  "example_start ok = example_ctx\<lparr>rc_verifier_command := (if ok then ''true'' else ''false'')\<rparr>"

lemma example_healthy: "healthy example_run_env"
  by (simp add: healthy_def example_run_env_def example_io_def example_pretty_def example_parse_def)

lemma example_dir: "sandbox_dir (example_start ok) example_site = ''r/sandbox-implementer-provider_prompt_patch''"
  by (simp add: sandbox_dir_def example_start_def example_ctx_def example_site_def prompt_site_def path_join_def suffix_def)

lemma example_previewed:
  "preview_sandbox_patch example_patch_env ''g'' ''r/sandbox-implementer-provider_prompt_patch''
     (Some example_target) (Some example_sandbox) = Inr example_preview"
  by code_simp

lemma example_digest: "pp_action_digest example_preview = ''d''"
  by code_simp

lemma example_applied:
  "\<exists>result. apply_sandbox_patch example_patch_env example_apply_env (Some example_sandbox)
     (gate_request example_ctx example_site example_preview example_ticket) example_target
   = (Inr result, example_tree)"
proof -
  let ?r = "apply_sandbox_patch example_patch_env example_apply_env (Some example_sandbox)
     (gate_request example_ctx example_site example_preview example_ticket) example_target"
  have "\<not> isl (fst ?r)" by code_simp
  then show ?thesis unfolding example_tree_def by (cases ?r) (auto simp: isl_def split: sum.splits intro: sum.exhaust)
qed

lemma example_ready: "run_ready example_run_env (example_start ok) example_site example_preview example_ticket example_tree ok"
proof -
  let ?s = "example_start ok"
  have disk: "dk_sandbox (rc_disk ?s) (sandbox_dir ?s example_site) = Some example_sandbox"
    "dk_target (rc_disk ?s) = example_target" "rc_target_repo ?s = ''g''"
    unfolding example_dir by (simp_all add: example_start_def example_ctx_def example_sandboxes_def)
  have env: "re_patch example_run_env = example_patch_env" "re_clock example_run_env = example_clock"
    "re_apply_io example_run_env = example_apply_io" "re_command example_run_env = example_command"
    "re_has_command example_run_env = example_has_command"
    by (simp_all add: example_run_env_def)
  have consumed: "consumed_tickets ?s = []"
    by (simp add: example_start_def example_ctx_def consumed_tickets_def)
  have approvals: "rc_approvals ?s = [example_ticket]" by (simp add: example_start_def example_ctx_def)
  have approved: "approved_for ?s (sandbox_apply_request example_site example_preview) example_preview = Some example_ticket"
    by (simp add: approved_for_def consumed approvals example_digest example_ticket_def
        sandbox_apply_request_def example_site_def prompt_site_def)
  have refused: "ticket_refusal example_run_env ?s example_preview (example_clock k) example_ticket = None" for k
  proof -
    have "trim ''h'' \<noteq> []" by code_simp
    moreover have "rc_run_id ?s = ''n''" by (simp add: example_start_def example_ctx_def)
    ultimately show ?thesis
      by (simp add: ticket_refusal_def consumed example_digest example_ticket_def example_clock_def)
  qed
  have gate: "gate_request ?s example_site example_preview example_ticket
    = gate_request example_ctx example_site example_preview example_ticket"
    by (simp add: gate_request_def sandbox_dir_def example_start_def example_ctx_def)
  have "ready example_run_env ?s example_site example_preview example_ticket example_tree"
    unfolding ready_def
    using disk approved refused example_applied example_previewed
    by (simp add: env gate example_apply_io_def example_dir)
  moreover have "legible example_run_env ?s"
    by (simp add: legible_def example_start_def example_ctx_def no_files_def)
  moreover have "task_order_of ?s = Inr None"
    by (simp add: task_order_of_def sdd_workflow_task_order_def example_start_def example_ctx_def)
  moreover have "verdict_on example_run_env (resolve_verifier_command example_run_env (rc_verifier_command ?s)) d ok" for d
    by (simp add: verdict_on_def env resolve_verifier_command_def example_command_def example_start_def)
  ultimately show ?thesis using example_healthy by (simp add: run_ready_def)
qed

lemma example_ends:
  "\<exists>s'. run_real_project_provider_workflow example_run_env Scripted [] 0 None (example_start ok)
     = (Inr (if ok then Accepted else Rejected), s')
   \<and> clerk example_run_env (patched (example_start ok) example_site example_ticket example_tree) s'"
  unfolding example_site_def
  by (rule ready_run_ends [OF example_ready [unfolded example_site_def]]) simp

subsection \<open>The witnesses\<close>

theorem approved_patch_is_accepted_witness:
  "\<exists>s'. run_real_project_provider_workflow example_run_env Scripted [] 1 None (example_start True)
     = (Inr Accepted, s') \<and> dk_target (rc_disk s') = example_tree"
  using approved_patch_is_accepted [OF example_ready [unfolded example_site_def], of 1] by blast

theorem accepted_means_verified_witness:
  "\<exists>s' report. run_real_project_provider_workflow example_run_env Scripted [] 0 None (example_start True)
     = (Inr Accepted, s') \<and> rc_closure_reports s' = [report] \<and> cr_verdict report = ''accepted''"
proof -
  obtain s' where "run_real_project_provider_workflow example_run_env Scripted [] 0 None (example_start True)
     = (Inr Accepted, s')" using example_ends [of True] by auto
  with accepted_means_verified [OF this] show ?thesis
    by (auto simp: example_start_def example_ctx_def)
qed


theorem patches_need_their_approval_witness:
  "\<exists>r s' new. run_real_project_provider_workflow example_run_env Scripted [] 0 None (example_start True) = (r, s')
    \<and> rc_trace s' = new \<and> list_all (justified example_run_env (example_start True)) new
    \<and> consumed_tickets s' = [''t'']"
proof -
  obtain s' where run: "run_real_project_provider_workflow example_run_env Scripted [] 0 None (example_start True)
     = (Inr Accepted, s')"
    and s': "clerk example_run_env (patched (example_start True) example_site example_ticket example_tree) s'"
    using example_ends [of True] by auto
  have "consumed_tickets s' = [''t'']"
    using clerk_fields(7) [OF s']
    by (simp add: patched_def consumed_tickets_def example_start_def example_ctx_def example_ticket_def)
  moreover have "distinct (consumed_tickets (example_start True))"
    by (simp add: consumed_tickets_def example_start_def example_ctx_def)
  ultimately show ?thesis
    using run patches_need_their_approval [OF run] by (auto simp: example_start_def example_ctx_def)
qed

theorem repository_changes_only_by_patches_witness:
  "\<exists>r s'. run_real_project_provider_workflow example_run_env Scripted [] 0 None (example_start True) = (r, s')
    \<and> patch_chain example_target (rc_trace s') example_tree"
proof -
  obtain s' where run: "run_real_project_provider_workflow example_run_env Scripted [] 0 None (example_start True)
     = (Inr Accepted, s')"
    and s': "clerk example_run_env (patched (example_start True) example_site example_ticket example_tree) s'"
    using example_ends [of True] by auto
  have "confined example_run_env"
    by (simp add: confined_def example_run_env_def example_provider_def example_command_def)
  moreover have "dk_target (rc_disk s') = example_tree"
    using clerk_fields(1) [OF s'] by (simp add: patched_def)
  ultimately show ?thesis
    using run repository_changes_only_by_patches [OF run] by (auto simp: example_start_def example_ctx_def)
qed


theorem report_markup_is_fixed_witness:
  "markup (report_html example_run_env (example_ctx\<lparr>rc_objective := ''<script>''\<rparr>))
    = markup (report_html example_run_env example_ctx)"
  by (rule report_markup_is_fixed)
    (simp_all add: example_run_env_def example_time_text_def report_criteria_def example_ctx_def)

subsection \<open>Provider-free runs\<close>

definition example_task :: json where
  "example_task = json_object [(''id'', JString ''a''),
     (''provider_free'', json_object [(''commands'', JArray [JString ''true''])])]"

definition example_free :: run_ctx where
  "example_free = (example_start True)\<lparr>rc_compatibility := Some (json_object
     [(''source_schema'', JString ''ao2.sdd-plan.v1'')]), rc_workflow_tasks := [example_task]\<rparr>"

theorem provider_free_commands_are_allowed_witness:
  "\<exists>r s' new. run_real_project_provider_free_workflow example_run_env example_free = (r, s')
    \<and> rc_trace s' = new \<and> list_all (allowed_command example_run_env [example_task] \<circ> fst) (commands_of new)"
proof -
  obtain r s' where run: "run_real_project_provider_free_workflow example_run_env example_free = (r, s')"
    by (cases "run_real_project_provider_free_workflow example_run_env example_free")
  from provider_free_commands_are_allowed [OF run] run show ?thesis
    by (auto simp: example_free_def example_start_def example_ctx_def)
qed

lemma example_free_run:
  "\<exists>s'. run_real_project_provider_free_workflow example_run_env (example_start True) = (Inr (), s')"
proof -
  let ?s = "example_start True"
  note env = example_healthy
  have ready: "run_ready example_run_env ?s example_site example_preview example_ticket example_tree True"
    by (rule example_ready)
  then have "legible example_run_env ?s" by (simp add: run_ready_def)
  have tasks: "free_tasks s = Inr []" if "clerk example_run_env ?s s" for s
    using ready that
    by (simp add: run_ready_def free_tasks_def task_order_of_def clerk_def same_run_def rbind_def)
  have "works example_run_env (act_bind (emit example_run_env ''role.started'' (Some ''implementer'')
         (Some ''real_project_provider_free'') (actor_role ''implementer'')
         (json_object [(''status'', JString ''started'')])) (\<lambda>_.
       emit example_run_env ''role.completed'' (Some ''implementer'') (Some ''real_project_provider_free'')
         (actor_role ''implementer'') (json_object [(''status'', JString ''completed''),
           (''changed_files'', JArray []), (''provider_free'', JBool True)])))"
    by (intro work_rules env)
  with \<open>legible example_run_env ?s\<close> tasks [OF clerk_refl]
  obtain t where recorded: "record_provider_free_real_project_tasks example_run_env ?s = (Inr (), t)"
    and t: "clerk example_run_env ?s t"
    unfolding works_def record_provider_free_real_project_tasks_def
    by (auto simp: act_bind_def get_ctx_def)
  have "verdict_on example_run_env (resolve_verifier_command example_run_env (rc_verifier_command ?s)) d True" for d
    by (simp add: verdict_on_def example_run_env_def resolve_verifier_command_def example_command_def example_start_def)
  then obtain v u where verifier: "run_verifier example_run_env t = (Inr v, u)" "vr_success v"
    and u: "clerk example_run_env ?s u"
    using goes_verifier [OF env, of ?s True] t unfolding goes_def by blast
  have "legible example_run_env u" using u \<open>legible example_run_env ?s\<close> by (simp add: clerk_def)
  then obtain x s' where "accept_verified example_run_env (vr_artifact v) u = (Inr x, s')"
    using works_accept [OF env] unfolding works_def by blast
  with recorded verifier show ?thesis
    by (auto simp: run_real_project_provider_free_workflow_def accept_verified_def act_bind_ok)
qed

theorem provider_free_run_is_complete_witness:
  "\<exists>s' new. run_real_project_provider_free_workflow example_run_env (example_start True) = (Inr (), s')
    \<and> rc_trace s' = new \<and> commands_of new = []"
proof -
  obtain s' where run: "run_real_project_provider_free_workflow example_run_env (example_start True) = (Inr (), s')"
    using example_free_run by blast
  have "free_tasks (example_start True) = Inr []"
    using example_ready [of True] by (simp add: run_ready_def free_tasks_def rbind_def)
  with provider_free_run_is_complete [OF run] run show ?thesis
    by (auto simp: example_start_def example_ctx_def commands_in_order_def)
qed

subsection \<open>Starting and resuming\<close>

definition nothing_set :: "string \<Rightarrow> bool" where "nothing_set v \<longleftrightarrow> False"
definition all_there :: "string \<Rightarrow> bool" where "all_there p \<longleftrightarrow> True"
definition empty_file :: "string \<Rightarrow> string option" where "empty_file p = Some []"

definition example_workflow :: workflow_spec where
  "example_workflow = \<lparr>wf_id = ''w'', wf_version = ''1'', wf_template_kind = Some ''real_project'',
     wf_objective = ''o'', wf_roles = [''r''], wf_tasks = [], wf_dependencies = [], wf_compatibility = None,
     wf_verifier_command = ''true'', wf_acceptance = []\<rparr>"

definition example_yaml :: "string \<Rightarrow> workflow_spec option" where "example_yaml t = Some example_workflow"

definition no_text :: "string \<Rightarrow> string option" where "no_text k = None"

definition example_host :: run_host where
  "example_host = \<lparr>ho_variable = nothing_set, ho_text = no_text, ho_repo_exists = True, ho_repo = FsDir [],
     ho_path_exists = all_there, ho_read_file = empty_file, ho_parse_yaml = example_yaml\<rparr>"

definition example_options :: run_options where
  "example_options = \<lparr>op_workflow_path = ''w.yaml'', op_run_id = Some ''n''\<rparr>"

lemma example_checked: "fail_on_forbidden_provider_api_keys (ho_variable example_host) = Inr ()" "ho_repo_exists example_host"
  by (simp_all add: example_host_def fail_on_forbidden_provider_api_keys_def nothing_set_def bail_if_def)

theorem start_only_waits_witness:
  "\<exists>r s' new. start_risky_pr_provider_free example_run_env example_host example_options example_ctx = (r, s')
    \<and> rc_disk s' = rc_disk example_ctx \<and> rc_trace s' = new \<and> list_all is_note new"
proof -
  obtain r s' where run: "start_risky_pr_provider_free example_run_env example_host example_options example_ctx = (r, s')"
    by (cases "start_risky_pr_provider_free example_run_env example_host example_options example_ctx")
  from start_only_waits [OF run] run show ?thesis by (auto simp: example_ctx_def)
qed

definition example_saved :: saved_run where
  "example_saved = \<lparr>sv_status = WaitingForApproval, sv_artifacts = [], sv_policy_decisions = [],
     sv_approvals = [example_ticket], sv_closure_reports = [], sv_repair_attempts = [], sv_integrity = JNull\<rparr>"

definition example_provider_options :: provider_options where
  "example_provider_options = \<lparr>ro_provider = Scripted, ro_prompt = [], ro_max_repair_attempts = 0,
     ro_max_budget = None, ro_repair_source = None\<rparr>"

text \<open>The paused run, whose ticket was consumed by an earlier pass.\<close>

definition example_paused :: run_ctx where
  "example_paused = (example_start True)\<lparr>rc_consumed := Some [''t''], rc_saved := Some example_saved,
     rc_options := Some example_provider_options\<rparr>"

lemma example_resumable:
  "resumable example_run_env example_host example_paused example_provider_options example_preview example_ticket example_tree"
proof -
  have fields: "rc_saved example_paused = Some example_saved"
    "rc_options example_paused = Some example_provider_options" "is_real_project_template example_paused"
    "ro_repair_source example_provider_options = None" "sv_status example_saved = WaitingForApproval"
    "\<not> has_pending (loaded example_saved example_paused)"
    by (simp_all add: example_paused_def example_start_def example_ctx_def is_real_project_template_def
        example_provider_options_def example_saved_def has_pending_def example_ticket_def)
  have site: "prompt_site (ro_provider example_provider_options) (ro_prompt example_provider_options)
      (ro_max_budget example_provider_options) = example_site"
    by (simp add: example_provider_options_def example_site_def)
  have "legible env (forgotten example_saved example_paused) = legible env (example_start True)" for env
    by (rule legible_cong)
      (simp_all add: forgotten_def loaded_def example_paused_def example_saved_def example_start_def example_ctx_def)
  then have "clerk example_run_env (example_start True) (forgotten example_saved example_paused)"
    by (simp add: clerk_def same_run_def)
      (simp add: forgotten_def loaded_def example_paused_def example_saved_def example_start_def example_ctx_def)
  from run_ready_clerk [OF example_ready this] show ?thesis
    unfolding resumable_def using example_checked fields site by auto
qed


theorem resume_needs_settled_approvals_witness:
  "\<exists>sm s'. resume_risky_pr_provider_free example_run_env example_host example_paused = (Inr sm, s')
    \<and> list_all (\<lambda>t. tk_status t \<noteq> ''pending'') (sv_approvals example_saved)"
proof -
  obtain sm s' where run: "resume_risky_pr_provider_free example_run_env example_host example_paused = (Inr sm, s')"
    by (rule resumable_ends [OF example_resumable])
  from resume_needs_settled_approvals [OF run] run show ?thesis
    by (auto simp: example_paused_def example_saved_def)
qed

theorem resumed_run_is_governed_witness:
  "\<exists>sm s' test_log. resume_risky_pr_provider_free example_run_env example_host example_paused = (Inr sm, s')
    \<and> verified example_run_env ''true'' test_log s'"
proof -
  obtain sm s' where run: "resume_risky_pr_provider_free example_run_env example_host example_paused = (Inr sm, s')"
    and accepted: "sm_status sm = Accepted"
    by (rule resumable_ends [OF example_resumable])
  have "rc_saved example_paused = Some example_saved" "sv_status example_saved = WaitingForApproval"
    "rc_options example_paused = Some example_provider_options" "is_real_project_template example_paused"
    by (simp_all add: example_paused_def example_start_def example_ctx_def is_real_project_template_def example_saved_def)
  from resumed_run_is_governed [OF run this] run accepted
  show ?thesis
    by (auto simp: example_paused_def example_start_def resolve_verifier_command_def)
qed


subsection \<open>A consumed approval is used again\<close>

text \<open>C13: Resuming a run forgets which approvals were consumed: there is a waiting run whose
  record of consumed tickets holds the one ticket \<open>t\<close>, and resuming it applies a patch to
  the repository under that same ticket.\<close>

theorem consumed_ticket_is_used_again:
  "\<exists>sm s' new. consumed_tickets example_paused = [tk_ticket_id example_ticket]
    \<and> resume_risky_pr_provider_free example_run_env example_host example_paused = (Inr sm, s')
    \<and> rc_trace s' = rc_trace example_paused @ new \<and> applied_tickets new = [example_ticket]"
proof -
  let ?site = "prompt_site (ro_provider example_provider_options) (ro_prompt example_provider_options)
      (ro_max_budget example_provider_options)"
  obtain sm s' sv v s3 where resume: "resume_risky_pr_provider_free example_run_env example_host example_paused = (Inr sm, s')"
    and sv: "rc_saved example_paused = Some sv"
    and v: "clerk example_run_env (forgotten sv example_paused) v" "rc_trace v = rc_trace example_paused"
    and run: "run_real_project_provider_workflow example_run_env (ro_provider example_provider_options)
      (ro_prompt example_provider_options) (ro_max_repair_attempts example_provider_options)
      (ro_max_budget example_provider_options) v = (Inr Accepted, s3)"
    and s': "clerk example_run_env (patched (forgotten sv example_paused) ?site example_ticket example_tree) s'"
    and quiet: "quiet_step example_run_env s3 s'"
    by (rule resumable_ends [OF example_resumable])
  have "step_ok example_run_env v (Inr Accepted :: run_status rresult) s3"
    using safe_workflow run ok_state_start unfolding guarded_def by blast
  then obtain new where new: "rc_trace s3 = rc_trace v @ new" "list_all (justified example_run_env v) new"
    "consumed_tickets v @ applied_ids new = consumed_tickets s3"
    unfolding step_ok_def ok_state_def by auto
  have none: "consumed_tickets v = []"
    using clerk_fields(7) [OF v(1)] by (simp add: forgotten_def consumed_tickets_def)
  have "consumed_tickets s' = [tk_ticket_id example_ticket]"
    using clerk_fields(7) [OF s'] by (simp add: patched_def forgotten_def consumed_tickets_def)
  with new(3) none quiet have "applied_ids new = [tk_ticket_id example_ticket]" by (simp add: quiet_step_def)
  moreover have "sv = example_saved" using sv by (simp add: example_paused_def)
  then have "approved_set v \<subseteq> {example_ticket}"
    using clerk_fields(2) [OF v(1)] by (auto simp: approved_set_def forgotten_def example_saved_def)
  ultimately have "applied_tickets new = [example_ticket]"
    using applied_approved [OF new(2)] by (auto simp: applied_ids_def)
  moreover obtain more where "rc_trace s' = rc_trace s3 @ more" "applied_tickets more = []"
    using quiet unfolding quiet_step_def by blast
  moreover have "consumed_tickets example_paused = [tk_ticket_id example_ticket]"
    by (simp add: consumed_tickets_def example_paused_def example_ticket_def)
  ultimately show ?thesis using resume new(1) v(2) by auto
qed

subsection \<open>Whole runs\<close>

theorem unattended_run_applies_nothing_witness:
  "\<exists>r s' new. run_risky_pr_with_provider_prompt example_run_env example_host 3 example_options
      example_provider_options example_ctx = (r, s')
    \<and> rc_trace s' = new \<and> applied_tickets new = []"
proof -
  obtain r s' where run: "run_risky_pr_with_provider_prompt example_run_env example_host 3 example_options
      example_provider_options example_ctx = (r, s')"
    by (cases "run_risky_pr_with_provider_prompt example_run_env example_host 3 example_options
      example_provider_options example_ctx")
  have approver: "auto_approver example_host = None"
    by (simp add: auto_approver_def example_host_def no_text_def)
  have kind: "\<forall>w. load_workflow (ho_path_exists example_host) (ho_read_file example_host)
      (ho_parse_yaml example_host) (op_workflow_path example_options) = Inr w \<longrightarrow> wf_template_kind w = Some ''real_project''"
    by (auto simp: load_workflow_def example_host_def example_yaml_def empty_file_def all_there_def
        rbind_def with_context_def bail_if_def example_workflow_def split: sum.splits if_splits option.splits)
  show ?thesis
    using unattended_run_applies_nothing [OF run approver kind] run by (auto simp: example_ctx_def)
qed

text \<open>A host that fails once, when the granted approval is to be logged.\<close>

definition fails_once :: "nat \<Rightarrow> bool" where "fails_once k \<longleftrightarrow> k \<noteq> 6"

definition example_request :: tool_request where
  "example_request = \<lparr>tr_principal = ''p'', tr_tool = ''t'', tr_operation = ''o'', tr_resource = ''r'',
     tr_args = [], tr_expected_side_effects = []\<rparr>"

definition example_pending :: approval_ticket where
  "example_pending = create_approval_ticket rev example_request_vec ''u'' 0 0 ''n'' example_request"

definition example_failing :: run_env where
  "example_failing = example_run_env\<lparr>re_io := fails_once\<rparr>"

definition example_waiting :: run_ctx where
  "example_waiting = example_ctx\<lparr>rc_stored := [(''approval-u'', example_pending, example_request)],
     rc_saved := Some (example_saved\<lparr>sv_approvals := [example_pending]\<rparr>)\<rparr>"

definition example_granted :: approval_ticket where
  "example_granted = example_pending\<lparr>tk_approver := Some ''h'', tk_status := ''approved''\<rparr>"

definition approve_example :: "approval_ticket run_act" where
  "approve_example = approve_risky_pr_ticket example_failing example_host ''approval-u'' ''h''"

lemma example_interrupted:
  "\<exists>e s1. approve_example example_waiting = (Inl e, s1) \<and> rc_draws s1 = 7
    \<and> map_of (rc_stored s1) ''approval-u'' = Some (example_granted, example_request)
    \<and> rc_saved s1 = Some (example_saved\<lparr>sv_approvals := [example_pending]\<rparr>)"
  by (simp add: approve_example_def approve_risky_pr_ticket_def approve_ticket_def act_bind_def get_ctx_def
      example_checked ensure_target_repo_def bail_if_def example_waiting_def example_ctx_def with_context_def
      io_call_def draw_def example_failing_def example_run_env_def fails_once_def example_pending_def
      create_approval_ticket_def grant_exact_def write_stored_approval_def example_pretty_def
      store_approval_def load_run_context_def put_ticket_def emit_def now_def Let_def example_granted_def)

lemma example_retried:
  assumes "map_of (rc_stored s) ''approval-u'' = Some (example_granted, example_request)" and "rc_draws s = 7"
  shows "\<exists>s'. approve_example s = (Inr example_granted, s')"
  using assms
  by (simp add: approve_example_def approve_risky_pr_ticket_def approve_ticket_def act_bind_def get_ctx_def
      example_checked ensure_target_repo_def bail_if_def with_context_def io_call_def draw_def
      example_failing_def fails_once_def example_granted_def)

theorem interrupted_approval_is_lost_witness:
  "\<exists>e s1 g s2 e'. approve_risky_pr_ticket example_failing example_host ''approval-u'' ''h'' example_waiting = (Inl e, s1)
    \<and> approve_risky_pr_ticket example_failing example_host ''approval-u'' ''h'' s1 = (Inr g, s2)
    \<and> tk_status g = ''approved'' \<and> fst (resume_risky_pr_provider_free example_failing example_host s2) = Inl e'"
proof -
  let ?sv = "example_saved\<lparr>sv_approvals := [example_pending]\<rparr>"
  obtain e s1 where first: "approve_example example_waiting = (Inl e, s1)" "rc_draws s1 = 7"
    and s1: "map_of (rc_stored s1) ''approval-u'' = Some (example_granted, example_request)" "rc_saved s1 = Some ?sv"
    using example_interrupted by blast
  obtain s2 where again: "approve_example s1 = (Inr example_granted, s2)"
    using example_retried [OF s1(1) first(2)] by blast
  have granted: "tk_status example_granted = ''approved''" by (simp add: example_granted_def)
  have "sv_status ?sv = WaitingForApproval" "list_ex (\<lambda>t. tk_status t = ''pending'') (sv_approvals ?sv)"
    by (simp_all add: example_saved_def example_pending_def create_approval_ticket_def)
  from interrupted_approval_is_lost [OF s1(1) granted s1(2) this again [unfolded approve_example_def]]
    first(1) again granted show ?thesis
    unfolding approve_example_def by blast
qed

end
