(* ===== verification/Replay_Example.thy ===== *)
theory Replay_Example
  imports Run_Replay Run_Example
begin

text \<open>
  A recorded run that replays: one artifact, one event, the checkpoint.  It discharges the
  hypotheses of the theorems about replay.
\<close>

definition example_plan :: artifact_ref where
  "example_plan = \<lparr>ar_artifact_id = ''a'', ar_artifact_type = ''plan'', ar_uri = ''r/plan.md'',
     ar_media_type = ''text/markdown'', ar_digest = rev ''plan'', ar_producer = ''planner'', ar_input_refs = [],
     ar_sensitivity = ''internal''\<rparr>"

definition unrecorded :: run_ctx where
  "unrecorded = example_ctx\<lparr>rc_artifacts := [example_plan]\<rparr>"

definition recorded :: run_ctx where
  "recorded = snd (write_run_record example_run_env Accepted unrecorded)"

definition example_checkpoint :: ao_event where
  "example_checkpoint = run_event example_run_env unrecorded [] 0 checkpoint_type None None actor_system
     (run_record_integrity example_run_env unrecorded)"

definition example_replay :: replay_env where
  "example_replay = \<lparr>rp_files = [''r/events.jsonl'' \<mapsto> log_text ev_event_type [example_checkpoint],
       ''r/run-record.json'' \<mapsto> ''record'', ''r/plan.md'' \<mapsto> ''plan''],
     rp_event = (\<lambda>line. if line = checkpoint_type then Inr example_checkpoint else Inl ''not an event''),
     rp_from_slice = (\<lambda>t. if t = ''record'' then Inr (final_record example_run_env Accepted recorded) else Inl ''not JSON'')\<rparr>"

lemma recorded_eq:
  "write_run_record example_run_env Accepted unrecorded = (Inr (), recorded)"
  "rc_trace recorded = [Emitted example_checkpoint, RecordWritten Accepted]"
  "rc_artifacts recorded = [example_plan]" "rc_run_dir recorded = ''r''"
  unfolding recorded_def
  by (simp_all add: write_run_record_def emit_def act_bind_def get_ctx_def draw_def now_def io_call_def log_step_def
      save_ctx_def bail_if_def Let_def example_run_env_def example_io_def example_pretty_def example_uuid_def
      example_clock_def example_checkpoint_def unrecorded_def example_ctx_def checkpoint_type_def)

lemma example_readable:
  "readable example_replay recorded (logged (rc_trace recorded)) (final_record example_run_env Accepted recorded)"
proof -
  have kind: "ev_event_type example_checkpoint = checkpoint_type"
    by (simp add: example_checkpoint_def run_event_def Let_def ao_event_new_def with_policy_integrity_def)
  have "set checkpoint_type \<inter> {CHR 0x0A, CHR 0x0D} = {} \<and> trim checkpoint_type \<noteq> [] \<and> utf8_valid checkpoint_type"
    by code_simp
  with kind have "list_all (one_line example_replay ev_event_type) [example_checkpoint]"
    by (simp add: one_line_def example_replay_def)
  from log_reads_back [OF this] show ?thesis
    by (simp add: readable_def recorded_eq events_path_def record_path_def path_join_def suffix_def prefix_def
        example_replay_def example_plan_def)
qed

lemma example_intact: "list_all (intact example_run_env example_replay) (rc_artifacts recorded)"
  by (simp add: recorded_eq intact_def example_replay_def example_plan_def example_run_env_def)


theorem changed_approvals_do_not_replay_witness:
  "\<exists>sv. rc_saved recorded = Some sv \<and> sv_approvals sv = rc_approvals recorded
    \<and> sv_policy_decisions sv = rc_policy_decisions recorded"
proof -
  obtain sv where sv: "rc_saved recorded = Some sv" "sv_status sv = Accepted" "loaded sv recorded = recorded"
    using recorded_state(2) [OF recorded_eq(1)] by blast
  have same: "sv_approvals sv = rc_approvals recorded" "sv_policy_decisions sv = rc_policy_decisions recorded"
    using arg_cong [OF sv(3), of rc_approvals] arg_cong [OF sv(3), of rc_policy_decisions] by (simp_all add: loaded_def)
  have replays: "fst (replay_run example_run_env example_host example_replay recorded)
      = Inr (replay_report Accepted recorded (logged (rc_trace recorded)))"
    by (rule recorded_replays [OF recorded_eq(1) _ example_checked(2) example_readable example_intact])
      (simp add: unrecorded_def example_ctx_def)
  have "readable example_replay (loaded sv recorded) (logged (rc_trace recorded)) (final_record example_run_env Accepted recorded)"
    using example_readable sv(3) by simp
  from changed_approvals_do_not_replay [OF recorded_eq(1) sv(1) this record_integrity _ _ replays] same sv(1)
  show ?thesis by simp
qed

end
