(* ===== verification/Pulse_Gate.thy ===== *)
theory Pulse_Gate
  imports Json_Value
begin

text \<open>
  The gate on pull requests and their checks of \<open>crates/ao2-runtime/src/pulse_event_loop.rs\<close>, which
  the pulse automation asks before it generates more work: how a check counts, and what the
  gate says of the state file.  The files are what a read of them gives.
\<close>

subsection \<open>Files\<close>

datatype file_node = Readable string | Unreadable string | Folder

type_synonym pulse_tree = "string \<Rightarrow> file_node option"

fun node_is_file :: "file_node option \<Rightarrow> bool" where
  "node_is_file (Some (Readable b)) = True"
| "node_is_file (Some (Unreadable e)) = True"
| "node_is_file _ = False"

text \<open>\<open>fs::read\<close> and \<open>fs::read_to_string\<close>.\<close>

fun read_bytes :: "file_node option \<Rightarrow> string rresult" where
  "read_bytes (Some (Readable b)) = Inr b"
| "read_bytes (Some (Unreadable e)) = Inl e"
| "read_bytes (Some Folder) = Inl ''Is a directory (os error 21)''"
| "read_bytes None = Inl ''No such file or directory (os error 2)''"

definition read_text :: "file_node option \<Rightarrow> string rresult" where
  "read_text node = rbind (read_bytes node) (\<lambda>b.
     if utf8_valid b then Inr b else Inl ''stream did not contain valid UTF-8'')"

subsection \<open>One check\<close>

definition lower_field :: "(string \<Rightarrow> string) \<Rightarrow> json option \<Rightarrow> string" where
  "lower_field lower v = lower (case Option.bind v as_str of None \<Rightarrow> [] | Some s \<Rightarrow> s)"

text \<open>The status of a check: the field \<open>status\<close>, or \<open>state\<close> where there is none.\<close>

definition status_field :: "json \<Rightarrow> json option" where
  "status_field check = (case json_get check ''status'' of None \<Rightarrow> json_get check ''state'' | Some v \<Rightarrow> Some v)"

definition check_status :: "(string \<Rightarrow> string) \<Rightarrow> json \<Rightarrow> string" where
  "check_status lower check =
     (let status = lower_field lower (status_field check);
          conclusion = lower_field lower (json_get check ''conclusion'')
      in if conclusion \<in> {''failure'', ''cancelled'', ''timed_out'', ''action_required''} then ''blocked''
      else if status \<in> {''failure'', ''failed'', ''cancelled'', ''timed_out'', ''action_required''} then ''blocked''
      else if conclusion \<in> {''success'', ''neutral'', ''skipped''} then ''passed''
      else if status \<in> {''success'', ''passed''} then ''passed''
      else if status = ''completed'' \<and> conclusion \<in> {[], ''success'', ''neutral'', ''skipped''} then ''passed''
      else ''waiting'')"

subsection \<open>The gate\<close>

record pr_ci_gate =
  pg_enabled :: bool
  pg_update_enabled :: bool
  pg_state_path :: string
  pg_status :: string
  pg_reason :: "string option"
  pg_detail :: "string option"
  pg_required_checks :: "json list"
  pg_source_schema_version :: "string option"
  pg_branch :: "string option"
  pg_pr :: "json option"
  pg_trigger :: "string option"

definition pr_ci_gate_schema :: string where
  "pr_ci_gate_schema = ''ao2.pulse-pr-ci-gate.v1''"

definition json_opt :: "json option \<Rightarrow> json" where
  "json_opt v = (case v of None \<Rightarrow> JNull | Some x \<Rightarrow> x)"

definition pr_ci_gate_json :: "pr_ci_gate \<Rightarrow> json" where
  "pr_ci_gate_json g = JObject
     [(''schema_version'', JString pr_ci_gate_schema), (''enabled'', JBool (pg_enabled g)),
      (''update_enabled'', JBool (pg_update_enabled g)), (''state_path'', JString (pg_state_path g)),
      (''status'', JString (pg_status g)), (''reason'', json_opt_str (pg_reason g)),
      (''detail'', json_opt_str (pg_detail g)), (''required_checks'', JArray (pg_required_checks g)),
      (''source_schema_version'', json_opt_str (pg_source_schema_version g)),
      (''branch'', json_opt_str (pg_branch g)), (''pr'', json_opt (pg_pr g)),
      (''trigger'', json_opt_str (pg_trigger g))]"

text \<open>The gate before the state is read; it always says that updates are enabled.\<close>

definition gate_start :: "bool \<Rightarrow> string \<Rightarrow> string \<Rightarrow> pr_ci_gate" where
  "gate_start enabled path trigger = \<lparr>pg_enabled = enabled, pg_update_enabled = True, pg_state_path = path,
     pg_status = ''passed'', pg_reason = Some ''state_missing'', pg_detail = None, pg_required_checks = [],
     pg_source_schema_version = None, pg_branch = None, pg_pr = None, pg_trigger = Some trigger\<rparr>"

definition waiting_reason :: string where
  "waiting_reason = ''waiting_for_pr_merge_or_ci''"

definition gate_waits :: "string \<Rightarrow> pr_ci_gate \<Rightarrow> pr_ci_gate" where
  "gate_waits detail g = g\<lparr>pg_status := ''waiting'', pg_reason := Some waiting_reason, pg_detail := Some detail\<rparr>"

text \<open>The same, where a detail that is already known stays.\<close>

definition gate_waits_too :: "string \<Rightarrow> pr_ci_gate \<Rightarrow> pr_ci_gate" where
  "gate_waits_too detail g = g\<lparr>pg_status := ''waiting'', pg_reason := Some waiting_reason,
     pg_detail := (case pg_detail g of None \<Rightarrow> Some detail | Some d \<Rightarrow> Some d)\<rparr>"

definition is_object :: "json \<Rightarrow> bool" where
  "is_object v \<longleftrightarrow> as_object v \<noteq> None"

definition pr_draft :: "json \<Rightarrow> bool" where
  "pr_draft pr = (case Option.bind (json_get pr ''is_draft'') as_bool of None \<Rightarrow> False | Some b \<Rightarrow> b)"

definition gate_pull_request :: "(string \<Rightarrow> string) \<Rightarrow> json \<Rightarrow> pr_ci_gate \<Rightarrow> pr_ci_gate" where
  "gate_pull_request lower state g =
     (case json_get state ''pr'' of
        None \<Rightarrow> g
      | Some pr \<Rightarrow>
          if \<not> is_object pr then g
          else let h = g\<lparr>pg_pr := Some pr\<rparr> in
            if pr_draft pr then gate_waits ''pr_draft'' h
            else if lower_field lower (json_get pr ''state'') = ''open'' then gate_waits ''pr_open'' h
            else h)"

definition gate_own_status :: "string \<Rightarrow> pr_ci_gate \<Rightarrow> pr_ci_gate" where
  "gate_own_status status g =
     (if status \<in> {''waiting'', ''pending'', ''failed'', ''blocked'', ''open'', ''draft''}
      then gate_waits_too (''gate_status_'' @ status) g else g)"

definition gate_check :: "(string \<Rightarrow> string) \<Rightarrow> json \<Rightarrow> pr_ci_gate \<Rightarrow> pr_ci_gate" where
  "gate_check lower check g =
     (if \<not> is_object check then gate_waits ''required_check_not_object'' g
      else if check_status lower check \<noteq> ''passed''
      then gate_waits_too (''required_check_'' @ check_status lower check) g else g)"

definition gate_required_checks :: "(string \<Rightarrow> string) \<Rightarrow> json \<Rightarrow> pr_ci_gate \<Rightarrow> pr_ci_gate" where
  "gate_required_checks lower state g =
     (case Option.bind (json_get state ''required_checks'') as_array of
        None \<Rightarrow> gate_waits ''required_checks_not_list'' g
      | Some checks \<Rightarrow> fold (gate_check lower) checks (g\<lparr>pg_required_checks := checks\<rparr>))"

definition gate_conclude :: "string \<Rightarrow> pr_ci_gate \<Rightarrow> pr_ci_gate" where
  "gate_conclude status g =
     (if pg_status g = ''passed'' \<and> status \<in> {''passed'', ''green'', ''ready'', ''merged'', ''closed_success''}
      then g\<lparr>pg_reason := Some ''passed''\<rparr> else g)"

text \<open>The gate by the document in the state file.\<close>

definition gate_by_state :: "(string \<Rightarrow> string) \<Rightarrow> json \<Rightarrow> pr_ci_gate \<Rightarrow> pr_ci_gate" where
  "gate_by_state lower state g =
     (if \<not> is_object state then gate_waits ''gate_state_not_object'' g
      else let status = lower_field lower (json_get state ''status'') in
        gate_conclude status (gate_required_checks lower state (gate_own_status status
          (gate_pull_request lower state (g\<lparr>pg_source_schema_version := get_str state ''schema_version'',
             pg_branch := get_str state ''branch''\<rparr>)))))"

definition load_pr_ci_gate ::
    "(string \<Rightarrow> string) \<Rightarrow> (string \<Rightarrow> json rresult) \<Rightarrow> pulse_tree \<Rightarrow> bool \<Rightarrow> string \<Rightarrow> string \<Rightarrow> pr_ci_gate" where
  "load_pr_ci_gate lower parse files enabled path trigger =
     (let g = gate_start enabled path trigger in
      if \<not> enabled then g\<lparr>pg_reason := Some ''gate_disabled''\<rparr>
      else if \<not> node_is_file (files path) then g
      else case read_text (files path) of
        Inl e \<Rightarrow> gate_waits (''failed to read gate state: '' @ e) g
      | Inr content \<Rightarrow>
          (case parse content of
             Inl e \<Rightarrow> gate_waits (''gate_state_invalid_json: '' @ e) g
           | Inr state \<Rightarrow> gate_by_state lower state g))"

subsection \<open>When the gate is open\<close>

text \<open>The specification: no failure anywhere, and a success in one of the two fields.\<close>

definition failing_word :: "string \<Rightarrow> bool" where
  "failing_word s \<longleftrightarrow> s \<in> {''failure'', ''cancelled'', ''timed_out'', ''action_required''}"

definition check_ok :: "(string \<Rightarrow> string) \<Rightarrow> json \<Rightarrow> bool" where
  "check_ok lower check \<longleftrightarrow>
     (let status = lower_field lower (status_field check);
          conclusion = lower_field lower (json_get check ''conclusion'')
      in is_object check \<and> \<not> failing_word conclusion \<and> \<not> failing_word status \<and> status \<noteq> ''failed''
        \<and> (conclusion \<in> {''success'', ''neutral'', ''skipped''} \<or> status \<in> {''success'', ''passed''}
           \<or> status = ''completed'' \<and> conclusion = []))"

definition pull_request_done :: "(string \<Rightarrow> string) \<Rightarrow> json \<Rightarrow> bool" where
  "pull_request_done lower state \<longleftrightarrow>
     (case json_get state ''pr'' of None \<Rightarrow> True
      | Some pr \<Rightarrow> \<not> is_object pr \<or> \<not> pr_draft pr \<and> lower_field lower (json_get pr ''state'') \<noteq> ''open'')"

definition gate_state_open :: "(string \<Rightarrow> string) \<Rightarrow> json \<Rightarrow> bool" where
  "gate_state_open lower state \<longleftrightarrow> is_object state \<and> pull_request_done lower state
     \<and> lower_field lower (json_get state ''status'') \<notin> {''waiting'', ''pending'', ''failed'', ''blocked'', ''open'', ''draft''}
     \<and> (case Option.bind (json_get state ''required_checks'') as_array of
          None \<Rightarrow> False | Some checks \<Rightarrow> list_all (check_ok lower) checks)"

lemma check_status_passed:
  "is_object check \<Longrightarrow> check_status lower check = ''passed'' \<longleftrightarrow> check_ok lower check"
  unfolding check_status_def check_ok_def failing_word_def Let_def by auto

lemma gate_waits_status [simp]: "pg_status (gate_waits d g) = ''waiting''"
  and gate_waits_too_status [simp]: "pg_status (gate_waits_too d g) = ''waiting''"
  by (simp_all add: gate_waits_def gate_waits_too_def)

definition gate_settled :: "pr_ci_gate \<Rightarrow> bool" where
  "gate_settled g \<longleftrightarrow> pg_status g = ''passed'' \<or> pg_status g = ''waiting''"

lemma gate_check_passed:
  "gate_settled g \<Longrightarrow> gate_settled (gate_check lower check g)
    \<and> (pg_status (gate_check lower check g) = ''passed'' \<longleftrightarrow> pg_status g = ''passed'' \<and> check_ok lower check)"
  by (cases "is_object check") (auto simp: gate_check_def gate_settled_def check_status_passed, simp_all add: check_ok_def)

lemma gate_checks_passed:
  "gate_settled g \<Longrightarrow> gate_settled (fold (gate_check lower) checks g)
    \<and> (pg_status (fold (gate_check lower) checks g) = ''passed''
        \<longleftrightarrow> pg_status g = ''passed'' \<and> list_all (check_ok lower) checks)"
  by (induction checks arbitrary: g) (auto simp: gate_check_passed)

lemma gate_conclude_status [simp]: "pg_status (gate_conclude status g) = pg_status g"
  by (simp add: gate_conclude_def)

lemma gate_required_checks_passed:
  "gate_settled g \<Longrightarrow> gate_settled (gate_required_checks lower state g)
    \<and> (pg_status (gate_required_checks lower state g) = ''passed'' \<longleftrightarrow> pg_status g = ''passed''
      \<and> (case Option.bind (json_get state ''required_checks'') as_array of
           None \<Rightarrow> False | Some checks \<Rightarrow> list_all (check_ok lower) checks))"
proof (cases "Option.bind (json_get state ''required_checks'') as_array")
  case (Some checks)
  assume "gate_settled g"
  then have "gate_settled (g\<lparr>pg_required_checks := checks\<rparr>)" by (simp add: gate_settled_def)
  from gate_checks_passed [OF this] Some show ?thesis by (simp add: gate_required_checks_def)
qed (simp add: gate_required_checks_def gate_settled_def)

lemma gate_own_status_passed:
  "gate_settled g \<Longrightarrow> gate_settled (gate_own_status status g)
    \<and> (pg_status (gate_own_status status g) = ''passed'' \<longleftrightarrow> pg_status g = ''passed''
      \<and> status \<notin> {''waiting'', ''pending'', ''failed'', ''blocked'', ''open'', ''draft''})"
  by (auto simp: gate_own_status_def gate_settled_def)

lemma gate_pull_request_passed:
  "pg_status g = ''passed'' \<Longrightarrow> gate_settled (gate_pull_request lower state g)
    \<and> (pg_status (gate_pull_request lower state g) = ''passed'' \<longleftrightarrow> pull_request_done lower state)"
  by (simp add: gate_pull_request_def pull_request_done_def gate_settled_def Let_def split: option.split)

lemma gate_by_state_passed:
  assumes "pg_status g = ''passed''"
  shows "gate_settled (gate_by_state lower state g)
    \<and> (pg_status (gate_by_state lower state g) = ''passed'' \<longleftrightarrow> gate_state_open lower state)"
proof (cases "is_object state")
  case True
  let ?status = "lower_field lower (json_get state ''status'')"
  let ?g = "g\<lparr>pg_source_schema_version := get_str state ''schema_version'', pg_branch := get_str state ''branch''\<rparr>"
  let ?pull = "gate_pull_request lower state ?g"
  have pull: "gate_settled ?pull \<and> (pg_status ?pull = ''passed'' \<longleftrightarrow> pull_request_done lower state)"
    using assms by (intro gate_pull_request_passed) simp
  then have own: "gate_settled (gate_own_status ?status ?pull)" by (simp add: gate_own_status_passed)
  from gate_required_checks_passed [OF own] show ?thesis
    using pull True unfolding gate_by_state_def gate_state_open_def Let_def
    by (auto simp: gate_own_status_passed gate_settled_def)
qed (simp add: gate_by_state_def gate_state_open_def gate_settled_def)

lemma gate_start_status [simp]: "pg_status (gate_start enabled path trigger) = ''passed''"
  by (simp add: gate_start_def)

lemmas gate_of_state = gate_by_state_passed [OF gate_start_status]

lemma load_gate_settled: "gate_settled (load_pr_ci_gate lower parse files enabled path trigger)"
  by (simp add: load_pr_ci_gate_def Let_def gate_of_state split: sum.split) (simp add: gate_settled_def)

text \<open>C18: The gate passes exactly when it is disabled, when there is no state file, or when the file
  is readable, is a JSON object, names no draft or open pull request and no waiting or failing
  status, and lists its required checks, each of which is an object that reports a success and
  no failure.\<close>

theorem gate_passes_iff:
  "pg_status (load_pr_ci_gate lower parse files enabled path trigger) = ''passed'' \<longleftrightarrow>
    (if enabled \<and> node_is_file (files path)
     then \<exists>content state. read_text (files path) = Inr content \<and> parse content = Inr state
        \<and> gate_state_open lower state
     else True)"
  by (simp add: load_pr_ci_gate_def Let_def gate_of_state split: sum.split)

end
