(* ===== verification/Pulse_Loop.thy ===== *)
theory Pulse_Loop
  imports Json_Value
begin

text \<open>
  The pulse event loop of \<open>crates/ao2-runtime/src/pulse_event_loop.rs\<close>: splitting a command
  line, reading the decision that a command leaves, and \<open>run_pulse_event_loop\<close>, which runs the
  command until a decision ends the chain.  The world is the files, with the text a read
  returns or its error; commands and the passing of time change them in ways only the
  environment knows.
\<close>

subsection \<open>Command lines\<close>

datatype split_state = SplitState (sp_args: "string list") (sp_current: string)
  (sp_double: bool) (sp_single: bool)

definition push_current :: "split_state \<Rightarrow> string list" where
  "push_current st = sp_args st @ (if sp_current st = [] then [] else [sp_current st])"

fun split_char :: "split_state \<Rightarrow> char \<Rightarrow> split_state" where
  "split_char (SplitState args current double single) c =
     (if c = CHR 0x22 \<and> \<not> single then SplitState args current (\<not> double) single
      else if c = CHR 0x27 \<and> \<not> double then SplitState args current double (\<not> single)
      else if c \<in> {CHR '' '', CHR 0x09, CHR 0x0D, CHR 0x0A} \<and> \<not> double \<and> \<not> single
        then SplitState (push_current (SplitState args current double single)) [] double single
      else SplitState args (current @ [c]) double single)"

definition split_command :: "string \<Rightarrow> string list" where
  "split_command cmd = push_current (foldl split_char (SplitState [] [] False False) cmd)"

subsection \<open>Decisions\<close>

datatype pulse_action = Continue | Stop | Backoff | Fail

record pulse_decision =
  pd_act :: pulse_action
  pd_why :: "string option"
  pd_next :: "string option"

definition codex_cron_decision_schema :: string where
  "codex_cron_decision_schema = ''codex-cron.event-loop-decision.v1''"

definition ao2_pulse_decision_schema :: string where
  "ao2_pulse_decision_schema = ''ao2.pulse-event-loop-decision.v1''"

definition action_named :: "string \<Rightarrow> pulse_action option" where
  "action_named name =
     (if name = ''continue'' then Some Continue else if name = ''stop'' then Some Stop
      else if name = ''backoff'' then Some Backoff else if name = ''fail'' then Some Fail else None)"

text \<open>The derived decoders: a unit variant is its name, or an object of its name and \<open>null\<close>; a
  struct is an object of its fields, or the array of them.\<close>

fun decode_action :: "json \<Rightarrow> pulse_action option" where
  "decode_action (JString name) = action_named name"
| "decode_action (JObject [(name, JNull)]) = action_named name"
| "decode_action _ = None"

fun decode_text :: "json option \<Rightarrow> string option option" where
  "decode_text None = Some None"
| "decode_text (Some JNull) = Some None"
| "decode_text (Some (JString t)) = Some (Some t)"
| "decode_text (Some _) = None"

definition make_decision :: "json \<Rightarrow> json option \<Rightarrow> json option \<Rightarrow> pulse_decision option" where
  "make_decision act why next =
     (case (decode_action act, decode_text why, decode_text next) of
        (Some a, Some w, Some n) \<Rightarrow> Some \<lparr>pd_act = a, pd_why = w, pd_next = n\<rparr>
      | _ \<Rightarrow> None)"

fun decode_decision :: "json \<Rightarrow> pulse_decision option" where
  "decode_decision (JObject entries) =
     (case json_get (JObject entries) ''action'' of
        None \<Rightarrow> None
      | Some act \<Rightarrow> make_decision act (json_get (JObject entries) ''reason'')
          (json_get (JObject entries) ''next_task_id''))"
| "decode_decision (JArray [act]) = make_decision act None None"
| "decode_decision (JArray [act, why]) = make_decision act (Some why) None"
| "decode_decision (JArray [act, why, next]) = make_decision act (Some why) (Some next)"
| "decode_decision _ = None"

definition decision_from_value :: "json \<Rightarrow> pulse_decision option" where
  "decision_from_value v =
     (case get_str v ''schema_version'' of
        None \<Rightarrow> None
      | Some schema \<Rightarrow>
          if schema \<noteq> codex_cron_decision_schema \<and> schema \<noteq> ao2_pulse_decision_schema then None
          else Option.bind (json_get v ''event_loop'') decode_decision)"

text \<open>The lines are searched for the first decision; a line that cannot be read counts only when
  it names one of the schemas.\<close>

fun decision_in_lines :: "(string \<Rightarrow> json rresult) \<Rightarrow> string list \<Rightarrow> pulse_decision rresult" where
  "decision_in_lines parse [] = Inl ''no event-loop decision emitted''"
| "decision_in_lines parse (line # lines) =
     (case parse line of
        Inl e \<Rightarrow>
          if contains line codex_cron_decision_schema \<or> contains line ao2_pulse_decision_schema
          then Inl ''malformed event-loop decision json'' else decision_in_lines parse lines
      | Inr v \<Rightarrow> (case decision_from_value v of Some d \<Rightarrow> Inr d | None \<Rightarrow> decision_in_lines parse lines))"

definition decision_lines :: "string \<Rightarrow> string list" where
  "decision_lines text = filter (prefix ''{'') (map trim (str_lines text))"

definition parse_event_loop_decision :: "(string \<Rightarrow> json rresult) \<Rightarrow> string \<Rightarrow> pulse_decision rresult" where
  "parse_event_loop_decision parse text =
     (case map_option decision_from_value (case parse (trim text) of Inl e \<Rightarrow> None | Inr v \<Rightarrow> Some v) of
        Some (Some d) \<Rightarrow> Inr d
      | _ \<Rightarrow> decision_in_lines parse (decision_lines text))"

subsection \<open>The world of the loop\<close>

record command_end =
  ce_code :: "int option"
  ce_success :: bool
  ce_show :: string
  ce_stdout :: string
  ce_stderr :: string

type_synonym pulse_files = "string \<Rightarrow> string rresult option"

datatype pulse_step =
    CommandEnded "string list" bool
  | FileWritten string string

record pulse_world =
  pw_draws :: nat
  pw_files :: pulse_files
  pw_trace :: "pulse_step list"

record pulse_env =
  pe_parse :: "string \<Rightarrow> json rresult"
  pe_pretty :: "json \<Rightarrow> string rresult"
  pe_lossy :: "string \<Rightarrow> string"
  pe_io :: "nat \<Rightarrow> bool"
  pe_elapsed :: "nat \<Rightarrow> nat"
  pe_run :: "nat \<Rightarrow> string list \<Rightarrow> pulse_files \<Rightarrow> command_end rresult \<times> pulse_files"

type_synonym 'a pulse_act = "(pulse_world, 'a) act"

definition tick :: "nat pulse_act" where
  "tick w = (Inr (pw_draws w), w\<lparr>pw_draws := Suc (pw_draws w)\<rparr>)"

text \<open>A system call that may fail with the text of its error.\<close>

definition sys_call :: "pulse_env \<Rightarrow> string \<Rightarrow> unit pulse_act" where
  "sys_call env msg = act_bind tick (\<lambda>k.
     act_lift (bail_if (\<not> pe_io env k) msg))"

definition put_file :: "string \<Rightarrow> string \<Rightarrow> unit pulse_act" where
  "put_file path text w = (Inr (), w\<lparr>pw_files := (pw_files w)(path \<mapsto> Inr text),
     pw_trace := pw_trace w @ [FileWritten path text]\<rparr>)"

text \<open>\<open>fs::write\<close>, and the same with its error ignored.\<close>

definition write_to :: "pulse_env \<Rightarrow> string \<Rightarrow> string \<Rightarrow> string \<Rightarrow> unit pulse_act" where
  "write_to env msg path text = act_bind (sys_call env msg) (\<lambda>_. put_file path text)"

definition try_write :: "pulse_env \<Rightarrow> string \<Rightarrow> string \<Rightarrow> unit pulse_act" where
  "try_write env path text = act_bind tick (\<lambda>k.
     if pe_io env k then put_file path text else act_return ())"

definition spawn :: "pulse_env \<Rightarrow> string list \<Rightarrow> command_end rresult pulse_act" where
  "spawn env args = act_bind tick (\<lambda>k w.
     case pe_run env k args (pw_files w) of
       (Inl e, files) \<Rightarrow> (Inr (Inl e), w\<lparr>pw_files := files\<rparr>)
     | (Inr out, files) \<Rightarrow> (Inr (Inr out), w\<lparr>pw_files := files,
         pw_trace := pw_trace w @ [CommandEnded args (ce_success out)]\<rparr>))"

definition read_files :: "pulse_files pulse_act" where
  "read_files w = (Inr (pw_files w), w)"

definition time_is_up :: "pulse_env \<Rightarrow> nat \<Rightarrow> bool pulse_act" where
  "time_is_up env seconds = act_bind tick (\<lambda>k. act_return (pe_elapsed env k \<ge> seconds))"

subsection \<open>The loop\<close>

record pulse_options =
  po_command :: string
  po_decision_file :: "string option"
  po_max_chain_runs :: nat
  po_max_runtime_seconds :: nat
  po_out_dir :: string
  po_stdout_fallback :: bool
  po_apply_root :: string

record iteration_decision =
  pi_iteration :: nat
  pi_action :: string
  pi_reason :: "string option"
  pi_next_task_id :: "string option"
  pi_decision_source :: string
  pi_decision_file :: "string option"

record chain_state =
  ls_iterations :: nat
  ls_status :: string
  ls_reasons :: "string list"
  ls_decisions :: "iteration_decision list"
  ls_next_task_id :: "string option"
  ls_source :: string

definition loop_start :: chain_state where
  "loop_start = \<lparr>ls_iterations = 0, ls_status = ''max_chain_reached'', ls_reasons = [],
     ls_decisions = [], ls_next_task_id = None, ls_source = ''missing''\<rparr>"

fun action_text :: "pulse_action \<Rightarrow> string" where
  "action_text Continue = ''continue''"
| "action_text Stop = ''stop''"
| "action_text Backoff = ''backoff''"
| "action_text Fail = ''fail''"

definition decision_path :: "pulse_options \<Rightarrow> string option" where
  "decision_path opts = map_option (path_join (po_apply_root opts)) (po_decision_file opts)"

definition iteration_decision_json :: "iteration_decision \<Rightarrow> json" where
  "iteration_decision_json d = JObject
     [(''iteration'', json_nat (pi_iteration d)), (''action'', JString (pi_action d)),
      (''reason'', json_opt_str (pi_reason d)), (''next_task_id'', json_opt_str (pi_next_task_id d)),
      (''decision_source'', JString (pi_decision_source d)),
      (''decision_file'', json_opt_str (pi_decision_file d))]"

definition summary_json :: "pulse_options \<Rightarrow> chain_state \<Rightarrow> json" where
  "summary_json opts ls = JObject
     [(''schema_version'', JString ''ao2.pulse-event-loop-run.v1''), (''status'', JString (ls_status ls)),
      (''iterations'', json_nat (ls_iterations ls)),
      (''max_chain_runs'', json_nat (po_max_chain_runs opts)),
      (''max_runtime_seconds'', json_nat (po_max_runtime_seconds opts)),
      (''decision_source'', JString (ls_source ls)),
      (''decision_path'', json_opt_str (decision_path opts)),
      (''reasons'', json_string_array (ls_reasons ls)),
      (''next_task_id'', json_opt_str (ls_next_task_id ls)),
      (''decisions'', JArray (map iteration_decision_json (ls_decisions ls)))]"

text \<open>An iteration whose command does not start or does not succeed.\<close>

definition command_failed :: "string \<Rightarrow> chain_state \<Rightarrow> chain_state" where
  "command_failed msg ls = ls\<lparr>ls_status := ''failed'', ls_reasons := ls_reasons ls @ [msg],
     ls_decisions := ls_decisions ls @
       [\<lparr>pi_iteration = ls_iterations ls, pi_action = ''fail'', pi_reason = Some msg,
         pi_next_task_id = None, pi_decision_source = ''command'', pi_decision_file = None\<rparr>]\<rparr>"

definition failing :: "string \<Rightarrow> pulse_decision" where
  "failing msg = \<lparr>pd_act = Fail, pd_why = Some msg, pd_next = None\<rparr>"

definition decision_or_fail :: "pulse_env \<Rightarrow> string \<Rightarrow> string \<Rightarrow> pulse_decision" where
  "decision_or_fail env place text =
     (case parse_event_loop_decision (pe_parse env) text of
        Inl e \<Rightarrow> failing (''malformed decision in '' @ place @ '': '' @ e)
      | Inr d \<Rightarrow> d)"

text \<open>Where the decision comes from: the file, the output of the command, or nowhere.\<close>

definition find_decision ::
    "pulse_env \<Rightarrow> pulse_options \<Rightarrow> command_end \<Rightarrow> pulse_files \<Rightarrow> pulse_decision \<times> string \<times> string option" where
  "find_decision env opts out files =
     (let from_stdout = (decision_or_fail env ''stdout'' (pe_lossy env (ce_stdout out)), ''stdout'', None)
      in case decision_path opts of
        Some path \<Rightarrow>
          (case files path of
             Some (Inr text) \<Rightarrow> (decision_or_fail env ''file'' text, ''file'', Some path)
           | Some (Inl e) \<Rightarrow> (failing (''failed to read decision file: '' @ e), ''file'', Some path)
           | None \<Rightarrow>
               if po_stdout_fallback opts then from_stdout
               else (failing (''decision file missing: '' @ path), ''missing'', None))
      | None \<Rightarrow>
          if po_stdout_fallback opts then from_stdout
          else (failing ''no decision file specified and stdout fallback disabled'', ''missing'', None))"

definition record_decision :: "pulse_decision \<times> string \<times> string option \<Rightarrow> chain_state \<Rightarrow> chain_state" where
  "record_decision found ls =
     (case found of (d, source, file) \<Rightarrow>
        ls\<lparr>ls_source := source, ls_next_task_id := pd_next d,
          ls_decisions := ls_decisions ls @
            [\<lparr>pi_iteration = ls_iterations ls, pi_action = action_text (pd_act d), pi_reason = pd_why d,
              pi_next_task_id = pd_next d, pi_decision_source = source, pi_decision_file = file\<rparr>],
          ls_reasons := ls_reasons ls @ (case pd_why d of None \<Rightarrow> [] | Some r \<Rightarrow> [r]),
          ls_status := (case pd_act d of Continue \<Rightarrow> ls_status ls | Stop \<Rightarrow> ''stopped''
            | Backoff \<Rightarrow> ''backoff'' | Fail \<Rightarrow> ''failed'')\<rparr>)"

definition exit_code :: "command_end \<Rightarrow> int" where
  "exit_code out = (case ce_code out of None \<Rightarrow> -1 | Some c \<Rightarrow> c)"

definition iteration_log :: "pulse_env \<Rightarrow> pulse_options \<Rightarrow> command_end \<Rightarrow> string" where
  "iteration_log env opts out =
     ''$ '' @ po_command opts @ nl @ ''exit_code: '' @ show_int (exit_code out) @ nl @ nl
     @ ''--- stdout ---'' @ nl @ pe_lossy env (ce_stdout out) @ nl @ ''--- stderr ---'' @ nl
     @ pe_lossy env (ce_stderr out)"

text \<open>One iteration, and whether the loop goes on after it.\<close>

definition run_iteration :: "pulse_env \<Rightarrow> pulse_options \<Rightarrow> chain_state \<Rightarrow> (bool \<times> chain_state) pulse_act" where
  "run_iteration env opts ls =
     (let args = split_command (po_command opts) in
      if args = [] then act_return (False, command_failed ''empty command string'' ls)
      else
      act_bind (spawn env args) (\<lambda>ended.
      case ended of
        Inl e \<Rightarrow> act_return (False, command_failed
          (''failed to start command '' @ squote @ hd args @ squote @ '': '' @ e) ls)
      | Inr out \<Rightarrow>
          act_bind (try_write env (path_join (path_join (po_out_dir opts) ''logs'')
            (''iteration-'' @ show_pad2 (ls_iterations ls) @ ''.log'')) (iteration_log env opts out)) (\<lambda>_.
          if \<not> ce_success out
          then act_return (False, command_failed (''command exited with status '' @ ce_show out) ls)
          else
          act_bind read_files (\<lambda>files.
          let found = find_decision env opts out files in
          act_return (pd_act (fst found) = Continue, record_decision found ls)))))"

definition write_progress :: "pulse_env \<Rightarrow> pulse_options \<Rightarrow> chain_state \<Rightarrow> unit pulse_act" where
  "write_progress env opts ls =
     try_write env (path_join (po_out_dir opts) ''summary.json'')
       ((case pe_pretty env (summary_json opts ls) of Inl e \<Rightarrow> [] | Inr text \<Rightarrow> text) @ nl)"

text \<open>The loop, by the number of runs left in the chain.\<close>

fun event_loop :: "pulse_env \<Rightarrow> pulse_options \<Rightarrow> nat \<Rightarrow> chain_state \<Rightarrow> chain_state pulse_act" where
  "event_loop env opts 0 ls = act_return ls"
| "event_loop env opts (Suc left) ls =
     act_bind (time_is_up env (po_max_runtime_seconds opts)) (\<lambda>late.
     if late then act_return (ls\<lparr>ls_status := ''max_runtime_reached''\<rparr>)
     else
     act_bind (run_iteration env opts (ls\<lparr>ls_iterations := ls_iterations ls + 1\<rparr>)) (\<lambda>(go, ls').
     if go then act_bind (write_progress env opts ls') (\<lambda>_. event_loop env opts left ls')
     else act_return ls'))"

text \<open>What follows the loop: a chain that has run for too long is reported as such, and the summary
  is written.\<close>

definition report_chain :: "pulse_env \<Rightarrow> pulse_options \<Rightarrow> chain_state \<Rightarrow> chain_state pulse_act" where
  "report_chain env opts ls =
     act_bind (time_is_up env (po_max_runtime_seconds opts)) (\<lambda>late.
     let final = (if late then ls\<lparr>ls_status := ''max_runtime_reached''\<rparr> else ls) in
     act_bind (act_lift (pe_pretty env (summary_json opts final))) (\<lambda>text.
     act_bind (write_to env ''failed to write summary file''
       (path_join (po_out_dir opts) ''summary.json'') (text @ nl)) (\<lambda>_.
     act_return final)))"

definition run_pulse_event_loop :: "pulse_env \<Rightarrow> pulse_options \<Rightarrow> chain_state pulse_act" where
  "run_pulse_event_loop env opts =
     act_bind (sys_call env ''failed to create output directory'') (\<lambda>_.
     act_bind (sys_call env ''failed to create logs directory'') (\<lambda>_.
     act_bind (event_loop env opts (po_max_chain_runs opts) loop_start) (report_chain env opts)))"

subsection \<open>The chain is bounded and goes on only when told to\<close>

text \<open>Whether each command that a piece of the trace ran succeeded.\<close>

fun command_ends :: "pulse_step list \<Rightarrow> bool list" where
  "command_ends [] = []"
| "command_ends (CommandEnded args ok # xs) = ok # command_ends xs"
| "command_ends (_ # xs) = command_ends xs"

lemma command_ends_append [simp]: "command_ends (xs @ ys) = command_ends xs @ command_ends ys"
  by (induction xs rule: command_ends.induct) auto

definition ran_commands :: "pulse_world \<Rightarrow> pulse_world \<Rightarrow> bool list \<Rightarrow> bool" where
  "ran_commands w w' oks \<longleftrightarrow> (\<exists>new. pw_trace w' = pw_trace w @ new \<and> command_ends new = oks)"

lemma ran_commands_trans: "ran_commands w v xs \<Longrightarrow> ran_commands v u ys \<Longrightarrow> ran_commands w u (xs @ ys)"
  unfolding ran_commands_def by (metis append.assoc command_ends_append)

lemma ran_nothing [simp]: "ran_commands w w []"
  by (simp add: ran_commands_def)

lemma sys_call_ran: "sys_call env msg w = (r, w') \<Longrightarrow> ran_commands w w' []"
  by (auto simp: sys_call_def act_bind_def tick_def ran_commands_def)

lemma try_write_ran: "try_write env path text w = (r, w') \<Longrightarrow> r = Inr () \<and> ran_commands w w' []"
  by (auto simp: try_write_def act_bind_def tick_def put_file_def ran_commands_def split: if_splits)

lemma write_to_ran: "write_to env msg path text w = (r, w') \<Longrightarrow> ran_commands w w' []"
  by (auto simp: write_to_def sys_call_def act_bind_def tick_def put_file_def ran_commands_def bail_if_def
      split: if_splits sum.splits)

lemma time_ran: "time_is_up env n w = (r, w') \<Longrightarrow> (\<exists>late. r = Inr late) \<and> ran_commands w w' []"
  by (auto simp: time_is_up_def act_bind_def tick_def ran_commands_def)

lemma spawn_ran:
  "spawn env args w = (r, w') \<Longrightarrow> (\<exists>e. r = Inr (Inl e) \<and> ran_commands w w' [])
    \<or> (\<exists>out. r = Inr (Inr out) \<and> ran_commands w w' [ce_success out])"
  by (auto simp: spawn_def act_bind_def tick_def ran_commands_def split: prod.splits sum.splits)

text \<open>What a run of the chain has recorded: one decision per iteration, numbered from one, and every
  one but the last says \<open>continue\<close> and was read from a valid decision document.\<close>

definition told_to_continue :: "pulse_env \<Rightarrow> iteration_decision \<Rightarrow> bool" where
  "told_to_continue env d \<longleftrightarrow> pi_action d = ''continue'' \<and> pi_decision_source d \<in> {''file'', ''stdout''}
     \<and> (\<exists>text found. parse_event_loop_decision (pe_parse env) text = Inr found \<and> pd_act found = Continue
        \<and> pd_why found = pi_reason d \<and> pd_next found = pi_next_task_id d)"

definition last_action :: "chain_state \<Rightarrow> string option" where
  "last_action ls = (if ls_decisions ls = [] then None else Some (pi_action (last (ls_decisions ls))))"

definition numbered :: "chain_state \<Rightarrow> bool" where
  "numbered ls \<longleftrightarrow> ls_iterations ls = length (ls_decisions ls)
     \<and> map pi_iteration (ls_decisions ls) = [1..<Suc (length (ls_decisions ls))]"

definition all_told :: "pulse_env \<Rightarrow> chain_state \<Rightarrow> bool" where
  "all_told env ls \<longleftrightarrow> list_all (told_to_continue env) (ls_decisions ls)
     \<and> numbered ls
     \<and> ls_status ls = ''max_chain_reached''"

text \<open>The status that goes with the last action of a chain.\<close>

definition status_of_action :: "string \<Rightarrow> string" where
  "status_of_action a = (if a = ''stop'' then ''stopped'' else if a = ''backoff'' then ''backoff'' else ''failed'')"

definition one_more :: "pulse_env \<Rightarrow> chain_state \<Rightarrow> bool \<Rightarrow> chain_state \<Rightarrow> bool" where
  "one_more env ls go ls' \<longleftrightarrow> ls_iterations ls' = ls_iterations ls
     \<and> (\<exists>d. ls_decisions ls' = ls_decisions ls @ [d] \<and> pi_iteration d = ls_iterations ls
        \<and> (if go then told_to_continue env d \<and> ls_status ls' = ls_status ls
           else pi_action d \<in> {''stop'', ''backoff'', ''fail''} \<and> ls_status ls' = status_of_action (pi_action d)))"

lemma command_failed_more: "one_more env ls False (command_failed msg ls)"
  by (simp add: one_more_def command_failed_def status_of_action_def)

lemma decision_or_fail_continue:
  "pd_act (decision_or_fail env place text) = Continue \<Longrightarrow>
    parse_event_loop_decision (pe_parse env) text = Inr (decision_or_fail env place text)"
  by (auto simp: decision_or_fail_def failing_def split: sum.splits)

lemma find_decision_continue:
  assumes "find_decision env opts out files = (d, source, origin)" and "pd_act d = Continue"
  shows "source \<in> {''file'', ''stdout''} \<and> (\<exists>text. parse_event_loop_decision (pe_parse env) text = Inr d)"
proof (cases "decision_path opts")
  case None
  with assms decision_or_fail_continue [of env "''stdout''"] show ?thesis
    unfolding find_decision_def Let_def by (cases "po_stdout_fallback opts") (force simp: failing_def)+
next
  case (Some path)
  show ?thesis
  proof (cases "files path")
    case None
    with assms Some decision_or_fail_continue [of env "''stdout''"] show ?thesis
      unfolding find_decision_def Let_def by (cases "po_stdout_fallback opts") (force simp: failing_def)+
  next
    case (Some content)
    with assms \<open>decision_path opts = Some path\<close> decision_or_fail_continue [of env "''file''"] show ?thesis
      unfolding find_decision_def Let_def by (cases content) (force simp: failing_def)+
  qed
qed

lemma record_decision_more:
  assumes "find_decision env opts out files = found"
  shows "one_more env ls (pd_act (fst found) = Continue) (record_decision found ls)"
proof -
  obtain d source origin where found: "found = (d, source, origin)" by (cases found)
  show ?thesis
  proof (cases "pd_act d = Continue")
    case True
    from find_decision_continue [OF assms [unfolded found] True] True show ?thesis
      by (auto simp: found one_more_def record_decision_def told_to_continue_def)
  next
    case False
    then show ?thesis
      by (cases "pd_act d") (simp_all add: found one_more_def record_decision_def status_of_action_def)
  qed
qed

lemma run_iteration_ok:
  assumes "run_iteration env opts ls w = (r, w')"
  shows "\<exists>go ls'. r = Inr (go, ls') \<and> one_more env ls go ls'
    \<and> (ran_commands w w' [True] \<or> \<not> go \<and> (ran_commands w w' [] \<or> ran_commands w w' [False]))"
proof -
  let ?args = "split_command (po_command opts)"
  let ?log = "path_join (path_join (po_out_dir opts) ''logs'') (''iteration-'' @ show_pad2 (ls_iterations ls) @ ''.log'')"
  show ?thesis
  proof (cases "?args = []")
    case True
    with assms show ?thesis
      by (auto simp: run_iteration_def intro!: exI [of _ False] command_failed_more)
  next
    case False
    obtain ended v where spawned: "spawn env ?args w = (Inr ended, v)"
      using spawn_ran by (metis surj_pair)
    show ?thesis
    proof (cases ended)
      case (Inl e)
      then have "ran_commands w v []"
        using spawn_ran [OF spawned] by simp
      with assms False spawned Inl show ?thesis
        by (auto simp: run_iteration_def act_bind_Inr Let_def intro!: exI [of _ False] command_failed_more)
    next
      case (Inr out)
      then have ran: "ran_commands w v [ce_success out]"
        using spawn_ran [OF spawned] by simp
      obtain u where logged: "try_write env ?log (iteration_log env opts out) v = (Inr (), u)"
        using try_write_ran by (metis surj_pair)
      with try_write_ran have "ran_commands v u []" by metis
      with ran have ran': "ran_commands w u [ce_success out]" using ran_commands_trans by fastforce
      let ?found = "find_decision env opts out (pw_files u)"
      have "(r, w') = (if \<not> ce_success out
          then (Inr (False, command_failed (''command exited with status '' @ ce_show out) ls), u)
          else (Inr (pd_act (fst ?found) = Continue, record_decision ?found ls), u))"
        using assms False spawned Inr logged
        by (cases "ce_success out") (auto simp: run_iteration_def act_bind_def read_files_def Let_def)
      with ran' record_decision_more [OF refl, of env ls opts out "pw_files u"] show ?thesis
        by (cases "ce_success out") (auto intro!: exI [of _ False] command_failed_more)
    qed
  qed
qed

text \<open>The end of the loop.\<close>

definition chain_ended :: "pulse_env \<Rightarrow> nat \<Rightarrow> chain_state \<Rightarrow> bool" where
  "chain_ended env limit ls \<longleftrightarrow> ls_iterations ls \<le> limit
     \<and> numbered ls
     \<and> list_all (told_to_continue env) (butlast (ls_decisions ls))
     \<and> (case last_action ls of
          None \<Rightarrow> ls_status ls = ''max_runtime_reached'' \<or> limit = 0 \<and> ls_status ls = ''max_chain_reached''
        | Some a \<Rightarrow>
            if a = ''continue''
            then ls_status ls = ''max_runtime_reached'' \<or> ls_iterations ls = limit \<and> ls_status ls = ''max_chain_reached''
            else a \<in> {''stop'', ''backoff'', ''fail''} \<and> ls_status ls = status_of_action a)"

lemma event_loop_ok:
  assumes "event_loop env opts left ls w = (r, w')" and "all_told env ls"
  shows "\<exists>ls' oks. r = Inr ls' \<and> chain_ended env (ls_iterations ls + left) ls' \<and> ran_commands w w' oks
    \<and> length oks \<le> left \<and> False \<notin> set (butlast oks)"
  using assms
proof (induction left arbitrary: ls w)
  case 0
  then show ?case
    by (intro exI [of _ ls] exI [of _ "[]"])
      (auto simp: chain_ended_def all_told_def numbered_def last_action_def told_to_continue_def list_all_iff
        dest: in_set_butlastD last_in_set)
next
  case (Suc left)
  obtain late v where late: "time_is_up env (po_max_runtime_seconds opts) w = (Inr late, v)"
    using time_ran by (metis surj_pair)
  then have ran_v: "ran_commands w v []" using time_ran by metis
  show ?case
  proof (cases late)
    case True
    with Suc.prems late have "r = Inr (ls\<lparr>ls_status := ''max_runtime_reached''\<rparr>)" "w' = v"
      by (simp_all add: act_bind_Inr)
    with Suc.prems(2) ran_v show ?thesis
      by (intro exI [of _ "ls\<lparr>ls_status := ''max_runtime_reached''\<rparr>"] exI [of _ "[]"])
        (auto simp: chain_ended_def all_told_def numbered_def last_action_def told_to_continue_def list_all_iff
          dest: in_set_butlastD last_in_set)
  next
    case False
    let ?next = "ls\<lparr>ls_iterations := ls_iterations ls + 1\<rparr>"
    obtain go ls1 u where iter: "run_iteration env opts ?next v = (Inr (go, ls1), u)"
      and more: "one_more env ?next go ls1"
      and ran_u: "ran_commands v u [True] \<or> \<not> go \<and> (ran_commands v u [] \<or> ran_commands v u [False])"
      using run_iteration_ok [of env opts ?next v] by (metis surj_pair)
    from more obtain d where d: "ls_decisions ls1 = ls_decisions ls @ [d]" "pi_iteration d = Suc (ls_iterations ls)"
        "ls_iterations ls1 = Suc (ls_iterations ls)"
        "if go then told_to_continue env d \<and> ls_status ls1 = ls_status ls
          else pi_action d \<in> {''stop'', ''backoff'', ''fail''} \<and> ls_status ls1 = status_of_action (pi_action d)"
      by (cases go) (auto simp: one_more_def)
    have num: "numbered ls1"
      using Suc.prems(2) d(1-3) by (simp add: all_told_def numbered_def)
    show ?thesis
    proof (cases go)
      case True
      obtain x where wrote: "write_progress env opts ls1 u = (Inr (), x)" and ran_x: "ran_commands u x []"
        using try_write_ran unfolding write_progress_def by (metis surj_pair)
      have told: "all_told env ls1"
        using Suc.prems(2) d True num by (auto simp: all_told_def)
      have "event_loop env opts left ls1 x = (r, w')"
        using Suc.prems(1) late False iter True wrote by (simp add: act_bind_Inr)
      from Suc.IH [OF this told] obtain ls' oks where rest: "r = Inr ls'"
        "chain_ended env (ls_iterations ls1 + left) ls'" "ran_commands x w' oks" "length oks \<le> left"
        "False \<notin> set (butlast oks)" by blast
      have "ran_commands w w' (True # oks)"
        using ran_commands_trans [OF ran_v ran_commands_trans [OF _ ran_commands_trans [OF ran_x rest(3)]], of "[True]"]
          ran_u True by auto
      moreover have "False \<notin> set (butlast (True # oks))" using rest(5) by (cases oks) auto
      ultimately show ?thesis
        using rest d(3) by (intro exI [of _ ls'] exI [of _ "True # oks"]) simp
    next
      case stop: False
      have "r = Inr ls1" "w' = u"
        using Suc.prems(1) late False iter stop by (simp_all add: act_bind_Inr)
      moreover obtain oks where "ran_commands w u oks" "length oks \<le> 1"
        using ran_commands_trans [OF ran_v] ran_u by fastforce
      moreover from this(2) have "False \<notin> set (butlast oks)" by (cases oks) auto
      moreover have "chain_ended env (ls_iterations ls + Suc left) ls1"
        using Suc.prems(2) num d stop by (auto simp: chain_ended_def all_told_def last_action_def)
      ultimately show ?thesis by (intro exI [of _ ls1] exI [of _ oks]) auto
    qed
  qed
qed

lemma report_chain_ran:
  assumes "report_chain env opts ls w = (r, w')"
  shows "ran_commands w w' []"
    and "r = Inr final \<Longrightarrow> final = ls \<or> final = ls\<lparr>ls_status := ''max_runtime_reached''\<rparr>"
proof -
  obtain late v where late: "time_is_up env (po_max_runtime_seconds opts) w = (Inr late, v)"
    and v: "ran_commands w v []" using time_ran by (metis surj_pair)
  let ?final = "if late then ls\<lparr>ls_status := ''max_runtime_reached''\<rparr> else ls"
  have rest: "act_bind (act_lift (pe_pretty env (summary_json opts ?final))) (\<lambda>text.
     act_bind (write_to env ''failed to write summary file''
       (path_join (po_out_dir opts) ''summary.json'') (text @ nl)) (\<lambda>_. act_return ?final)) v = (r, w')"
    using assms late by (simp add: report_chain_def act_bind_Inr Let_def)
  have "ran_commands v w' [] \<and> (r = Inr final \<longrightarrow> final = ?final)"
  proof (cases "pe_pretty env (summary_json opts ?final)")
    case (Inl e)
    with rest show ?thesis by (auto simp: act_bind_def)
  next
    case (Inr body)
    obtain x u where wrote: "write_to env ''failed to write summary file''
       (path_join (po_out_dir opts) ''summary.json'') (body @ nl) v = (x, u)"
      by (cases "write_to env ''failed to write summary file''
       (path_join (po_out_dir opts) ''summary.json'') (body @ nl) v")
    with rest Inr write_to_ran [OF wrote] show ?thesis by (cases x) (auto simp: act_bind_def)
  qed
  with v show "ran_commands w w' []" "r = Inr final \<Longrightarrow> final = ls \<or> final = ls\<lparr>ls_status := ''max_runtime_reached''\<rparr>"
    using ran_commands_trans by (fastforce split: if_splits)+
qed

text \<open>A run: the calls in front of the loop fail, or the loop ends and is reported.\<close>

lemma run_cases:
  assumes "run_pulse_event_loop env opts w = (r, w')"
  obtains e where "r = Inl e" "ran_commands w w' []"
  | u v ls oks where "ran_commands w u []" "chain_ended env (po_max_chain_runs opts) ls" "ran_commands u v oks"
      "length oks \<le> po_max_chain_runs opts" "False \<notin> set (butlast oks)" "report_chain env opts ls v = (r, w')"
proof -
  obtain x t where first: "sys_call env ''failed to create output directory'' w = (x, t)"
    by (cases "sys_call env ''failed to create output directory'' w")
  obtain y u where second: "sys_call env ''failed to create logs directory'' t = (y, u)"
    by (cases "sys_call env ''failed to create logs directory'' t")
  have wu: "ran_commands w u []"
    using ran_commands_trans [OF sys_call_ran [OF first] sys_call_ran [OF second]] by simp
  have start: "all_told env loop_start" by (simp add: all_told_def numbered_def loop_start_def)
  show ?thesis
  proof (cases x)
    case (Inl e)
    with assms first sys_call_ran [OF first] that(1) show ?thesis
      by (auto simp: run_pulse_event_loop_def act_bind_Inl)
  next
    case (Inr a)
    note x = Inr
    show ?thesis
    proof (cases y)
      case (Inl e)
      with assms first second x wu that(1) show ?thesis
        by (auto simp: run_pulse_event_loop_def act_bind_Inr act_bind_Inl)
    next
      case (Inr b)
      obtain z v where looped: "event_loop env opts (po_max_chain_runs opts) loop_start u = (z, v)"
        by (cases "event_loop env opts (po_max_chain_runs opts) loop_start u")
      from event_loop_ok [OF looped start] obtain ls oks where "z = Inr ls"
        "chain_ended env (po_max_chain_runs opts) ls" "ran_commands u v oks" "length oks \<le> po_max_chain_runs opts"
        "False \<notin> set (butlast oks)" by (auto simp: loop_start_def)
      moreover have "report_chain env opts ls v = (r, w')"
        using assms first second x Inr looped \<open>z = Inr ls\<close> by (simp add: run_pulse_event_loop_def act_bind_Inr)
      ultimately show ?thesis using that(2) wu by blast
    qed
  qed
qed

text \<open>C34: However the commands behave and whatever the outcome, the loop runs its command at most
  as often as the chain allows, and never again after a run that failed.\<close>

theorem chain_is_bounded:
  assumes "run_pulse_event_loop env opts w = (r, w')"
  shows "\<exists>oks. ran_commands w w' oks \<and> length oks \<le> po_max_chain_runs opts \<and> False \<notin> set (butlast oks)"
  using run_cases [OF assms]
proof cases
  case (1 e)
  then show ?thesis by (intro exI [of _ "[]"]) simp
next
  case (2 u v ls oks)
  then have "ran_commands w w' oks"
    using ran_commands_trans [OF 2(1) ran_commands_trans [OF 2(3) report_chain_ran(1) [OF 2(6)]]] by simp
  with 2 show ?thesis by blast
qed



subsection \<open>Command lines, there and back\<close>

text \<open>The ways to write an argument that the splitter reads back.\<close>

datatype quoting = Unquoted | SingleQuoted | DoubleQuoted

fun written :: "quoting \<times> string \<Rightarrow> string" where
  "written (Unquoted, a) = a"
| "written (SingleQuoted, a) = CHR 0x27 # a @ [CHR 0x27]"
| "written (DoubleQuoted, a) = CHR 0x22 # a @ [CHR 0x22]"

fun unharmed :: "quoting \<Rightarrow> char \<Rightarrow> bool" where
  "unharmed Unquoted c \<longleftrightarrow> c \<notin> {CHR '' '', CHR 0x09, CHR 0x0D, CHR 0x0A, CHR 0x22, CHR 0x27}"
| "unharmed SingleQuoted c \<longleftrightarrow> c \<noteq> CHR 0x27"
| "unharmed DoubleQuoted c \<longleftrightarrow> c \<noteq> CHR 0x22"

definition readable :: "quoting \<times> string \<Rightarrow> bool" where
  "readable arg \<longleftrightarrow> snd arg \<noteq> [] \<and> list_all (unharmed (fst arg)) (snd arg)"

lemma split_unharmed:
  assumes "list_all (unharmed q) a"
  shows "foldl split_char (SplitState args current (q = DoubleQuoted) (q = SingleQuoted)) a
    = SplitState args (current @ a) (q = DoubleQuoted) (q = SingleQuoted)"
  using assms by (induction a arbitrary: current; cases q) auto

lemma split_written:
  assumes "readable arg"
  shows "foldl split_char (SplitState args [] False False) (written arg) = SplitState args (snd arg) False False"
proof (cases arg)
  case (Pair q a)
  with assms show ?thesis
    using split_unharmed [of q a args "[]"] by (cases q) (simp_all add: readable_def)
qed

lemma split_all_written:
  assumes "\<And>arg. arg \<in> set lines \<Longrightarrow> readable arg"
  shows "push_current (foldl split_char (SplitState args [] False False) (join '' '' (map written lines)))
    = args @ map snd lines"
  using assms
proof (induction lines arbitrary: args rule: induct_list012)
  case (3 x y zs)
  then have "snd x \<noteq> []" by (simp add: readable_def)
  with 3 show ?case by (simp add: split_written push_current_def)
qed (simp_all add: push_current_def split_written readable_def)

text \<open>C40: A command line written from its arguments, each as it is or in either kind of quotes and
  with one space between them, is split into exactly those arguments, provided none is empty and
  none holds what its quoting cannot.\<close>

theorem split_command_roundtrip:
  assumes "list_all readable lines"
  shows "split_command (join '' '' (map written lines)) = map snd lines"
  using assms split_all_written [of lines "[]"] by (simp add: split_command_def list_all_iff)

text \<open>An empty argument in quotes is lost: the splitter cannot tell it from no argument.\<close>

lemma empty_argument_is_lost:
  "split_command (join '' '' (map written [(Unquoted, ''git''), (DoubleQuoted, []), (Unquoted, ''log'')])) = [''git'', ''log'']"
  by code_simp

theorem split_command_roundtrip_witness:
  "split_command (join '' '' (map written [(Unquoted, ''npm''), (SingleQuoted, ''run it''), (DoubleQuoted, ''a b'')]))
    = [''npm'', ''run it'', ''a b'']"
  using split_command_roundtrip [of "[(Unquoted, ''npm''), (SingleQuoted, ''run it''), (DoubleQuoted, ''a b'')]"]
  by (simp add: readable_def)

subsection \<open>Runs of the loop on a concrete world\<close>

text \<open>An environment in which the command leaves its decision in a file: it goes on twice and then
  stops.  The clock shows the number of draws made.\<close>

definition decision_document :: "string \<Rightarrow> json" where
  "decision_document a = json_object [(''schema_version'', JString ao2_pulse_decision_schema),
     (''event_loop'', json_object [(''action'', JString a), (''reason'', JString ''as planned'')])]"

definition example_parse :: "string \<Rightarrow> json rresult" where
  "example_parse text = (if action_named text \<noteq> None then Inr (decision_document text) else Inl ''not json'')"

definition pulse_example :: "(nat \<Rightarrow> string) \<Rightarrow> pulse_env" where
  "pulse_example says = \<lparr>pe_parse = example_parse, pe_pretty = (\<lambda>v. Inr ''summary''), pe_lossy = (\<lambda>s. s),
     pe_io = (\<lambda>k. True), pe_elapsed = (\<lambda>k. k),
     pe_run = (\<lambda>k args files.
       (Inr \<lparr>ce_code = Some 0, ce_success = True, ce_show = ''exit status: 0'', ce_stdout = [], ce_stderr = []\<rparr>,
        files(''repo/next.json'' \<mapsto> Inr (says k))))\<rparr>"

definition pulse_example_options :: "nat \<Rightarrow> pulse_options" where
  "pulse_example_options seconds = \<lparr>po_command = ''work'', po_decision_file = Some ''next.json'',
     po_max_chain_runs = 5, po_max_runtime_seconds = seconds, po_out_dir = ''out'',
     po_stdout_fallback = False, po_apply_root = ''repo''\<rparr>"

definition pulse_empty :: pulse_world where
  "pulse_empty = \<lparr>pw_draws = 0, pw_files = (\<lambda>p. None), pw_trace = []\<rparr>"

definition twice_then_stop :: "nat \<Rightarrow> string" where
  "twice_then_stop k = (if k < 8 then ''continue'' else ''stop'')"

definition example_run :: "chain_state rresult \<times> pulse_world" where
  "example_run = run_pulse_event_loop (pulse_example twice_then_stop) (pulse_example_options 100) pulse_empty"

definition example_decided :: "nat \<Rightarrow> string \<Rightarrow> iteration_decision" where
  "example_decided k a = \<lparr>pi_iteration = k, pi_action = a, pi_reason = Some ''as planned'', pi_next_task_id = None,
     pi_decision_source = ''file'', pi_decision_file = Some ''repo/next.json''\<rparr>"

definition example_chain :: chain_state where
  "example_chain = \<lparr>ls_iterations = 3, ls_status = ''stopped'', ls_reasons = replicate 3 ''as planned'',
     ls_decisions = [example_decided 1 ''continue'', example_decided 2 ''continue'', example_decided 3 ''stop''],
     ls_next_task_id = None, ls_source = ''file''\<rparr>"

lemma example_run_ends: "fst example_run = Inr example_chain \<and> command_ends (pw_trace (snd example_run)) = [True, True, True]"
  by code_simp

lemma example_run_eq:
  "run_pulse_event_loop (pulse_example twice_then_stop) (pulse_example_options 100) pulse_empty
    = (Inr example_chain, snd example_run)"
  using example_run_ends by (metis example_run_def prod.collapse)

theorem chain_is_bounded_witness:
  "\<exists>oks. ran_commands pulse_empty (snd example_run) oks \<and> length oks \<le> 5 \<and> False \<notin> set (butlast oks)"
  using chain_is_bounded [OF example_run_eq] by (simp add: pulse_example_options_def)

lemma example_chain_last: "last_action example_chain = Some ''stop''" "ls_status example_chain = ''stopped''"
  by code_simp+


text \<open>A failure is not reported when the time runs out after it: the status says only that the time
  was up, and the decision to fail is found in the list of decisions alone.\<close>

lemma late_failure_is_masked:
  "case run_pulse_event_loop (pulse_example (\<lambda>k. ''fail'')) (pulse_example_options 5) pulse_empty of
     (Inr ls, w) \<Rightarrow> last_action ls = Some ''fail'' \<and> ls_status ls = ''max_runtime_reached''
   | _ \<Rightarrow> False"
  by code_simp

end
