(* ===== verification/Pulse_Advance.thy ===== *)
theory Pulse_Advance
  imports Pulse_Gate Pulse_Loop
begin

text \<open>
  The pulse automation \<open>run_pulse_auto_advance\<close> of \<open>crates/ao2-runtime/src/pulse_event_loop.rs\<close>:
  round after round it verifies the evaluation document that the last round left, runs the
  tasks it recommends, enters it in a ledger and has the next one generated.  The world is the
  files and a trace of what was done; only commands, sleeping and the program's own writes
  change the files.  The loop takes fuel, the number of rounds.
\<close>

subsection \<open>What a run reports\<close>

record local_only_info =
  lo_enabled :: bool
  lo_status :: string
  lo_reason :: "string option"
  lo_gate_status :: "string option"

record publish_info =
  dp_enabled :: bool
  dp_status :: string
  dp_command :: "string option"
  dp_exit_code :: "int option"
  dp_log :: "string option"
  dp_summary :: "string option"
  dp_reason :: "string option"

record task_result =
  tr_iteration :: nat
  tr_index :: nat
  tr_id :: string
  tr_title :: "string option"
  tr_command :: "string option"
  tr_manifest :: "string option"
  tr_summary :: "string option"
  tr_status :: string
  tr_exit_code :: "int option"
  tr_log :: "string option"
  tr_reason :: "string option"
  tr_expected_evidence :: "json option"

record gate_update_info =
  gu_status :: string
  gu_exit_code :: int
  gu_log :: string
  gu_state_path :: string
  gu_reason :: string

record generate_next_info =
  gn_status :: string
  gn_exit_code :: "int option"
  gn_log :: "string option"
  gn_reason :: string
  gn_gate_status :: "string option"
  gn_local_only :: "bool option"
  gn_sleep_seconds :: "nat option"

record ledger_entry =
  le_generated_at_utc :: string
  le_eval_path :: string
  le_eval_sha256 :: string
  le_status :: string
  le_task_count :: nat

record advance_run =
  ar_schema_version :: string
  ar_generated_at_utc :: string
  ar_status :: string
  ar_completed_iterations :: nat
  ar_heartbeat_count :: nat
  ar_gate :: pr_ci_gate
  ar_local_only :: local_only_info
  ar_publish :: publish_info
  ar_results :: "task_result list"
  ar_observed_sha256 :: "string option"
  ar_auto_advance :: "json option"
  ar_reason :: "string option"
  ar_current_iteration :: "nat option"
  ar_current_task_count :: "nat option"
  ar_manifest_path :: "string option"
  ar_execution_mode :: "string option"
  ar_last_update :: "gate_update_info option"
  ar_generate_next :: "generate_next_info option"
  ar_generated_next :: bool
  ar_generated_local_only :: bool
  ar_register_next :: bool
  ar_sha256_matches :: "bool option"
  ar_prompt_sha256 :: "string option"
  ar_prompt_matches :: "bool option"
  ar_prompt_observed :: "string option"
  ar_eval_path :: "string option"
  ar_eval_sha256 :: "string option"
  ar_prompt_path :: "string option"

record advance_options =
  ao_resume_json :: string
  ao_out_dir :: string
  ao_ledger :: string
  ao_stop_file :: string
  ao_max_iterations_opt :: "nat option"
  ao_allow_duplicate :: bool
  ao_forever :: bool
  ao_sleep_seconds :: nat
  ao_generate_next :: nat
  ao_generate_next_sleep_opt :: "nat option"
  ao_pr_ci_gate :: nat
  ao_pr_ci_gate_state :: string
  ao_update_gate :: nat
  ao_local_only :: bool
  ao_direct_main :: bool
  ao_apply_root :: string

definition max_iterations :: "advance_options \<Rightarrow> nat" where
  "max_iterations opts = (case ao_max_iterations_opt opts of Some n \<Rightarrow> n | None \<Rightarrow> if ao_forever opts then 0 else 1)"

definition generate_sleep :: "advance_options \<Rightarrow> nat" where
  "generate_sleep opts = (case ao_generate_next_sleep_opt opts of None \<Rightarrow> ao_sleep_seconds opts | Some n \<Rightarrow> n)"

subsection \<open>The report as JSON\<close>

definition json_opt_bool :: "bool option \<Rightarrow> json" where
  "json_opt_bool v = (case v of None \<Rightarrow> JNull | Some b \<Rightarrow> JBool b)"

definition json_opt_nat :: "nat option \<Rightarrow> json" where
  "json_opt_nat v = (case v of None \<Rightarrow> JNull | Some n \<Rightarrow> json_nat n)"

definition json_opt_int :: "int option \<Rightarrow> json" where
  "json_opt_int v = (case v of None \<Rightarrow> JNull | Some i \<Rightarrow> json_int i)"

definition local_only_json :: "local_only_info \<Rightarrow> json" where
  "local_only_json i = JObject [(''enabled'', JBool (lo_enabled i)), (''status'', JString (lo_status i)),
     (''reason'', json_opt_str (lo_reason i)), (''gate_status'', json_opt_str (lo_gate_status i))]"

definition publish_json :: "publish_info \<Rightarrow> json" where
  "publish_json i = JObject [(''enabled'', JBool (dp_enabled i)), (''status'', JString (dp_status i)),
     (''command'', json_opt_str (dp_command i)), (''exit_code'', json_opt_int (dp_exit_code i)),
     (''log'', json_opt_str (dp_log i)), (''summary'', json_opt_str (dp_summary i)),
     (''reason'', json_opt_str (dp_reason i))]"

definition task_result_json :: "task_result \<Rightarrow> json" where
  "task_result_json t = JObject [(''iteration'', json_nat (tr_iteration t)), (''index'', json_nat (tr_index t)),
     (''id'', JString (tr_id t)), (''title'', json_opt_str (tr_title t)),
     (''command'', json_opt_str (tr_command t)), (''manifest'', json_opt_str (tr_manifest t)),
     (''summary'', json_opt_str (tr_summary t)), (''status'', JString (tr_status t)),
     (''exit_code'', json_opt_int (tr_exit_code t)), (''log'', json_opt_str (tr_log t)),
     (''reason'', json_opt_str (tr_reason t)), (''expected_evidence'', json_opt (tr_expected_evidence t))]"

definition gate_update_json :: "gate_update_info \<Rightarrow> json" where
  "gate_update_json i = JObject [(''command'', JString ''pulse:pr-ci-gate:update''),
     (''status'', JString (gu_status i)), (''exit_code'', json_int (gu_exit_code i)),
     (''log'', JString (gu_log i)), (''state_path'', JString (gu_state_path i)),
     (''reason'', JString (gu_reason i))]"

definition generate_next_json :: "generate_next_info \<Rightarrow> json" where
  "generate_next_json i = JObject [(''command'', JString ''pulse:generate-next''),
     (''status'', JString (gn_status i)), (''exit_code'', json_opt_int (gn_exit_code i)),
     (''log'', json_opt_str (gn_log i)), (''reason'', JString (gn_reason i)),
     (''gate_status'', json_opt_str (gn_gate_status i)),
     (''local_only_while_pr_blocked'', json_opt_bool (gn_local_only i)),
     (''sleep_seconds'', json_opt_nat (gn_sleep_seconds i))]"

definition ledger_entry_json :: "ledger_entry \<Rightarrow> json" where
  "ledger_entry_json e = JObject [(''schema_version'', JString ''ao2.pulse-auto-advance-ledger-entry.v1''),
     (''generated_at_utc'', JString (le_generated_at_utc e)),
     (''pulse_eval_loop_path'', JString (le_eval_path e)),
     (''pulse_eval_loop_sha256'', JString (le_eval_sha256 e)), (''status'', JString (le_status e)),
     (''task_count'', json_nat (le_task_count e))]"

definition advance_run_json :: "advance_options \<Rightarrow> advance_run \<Rightarrow> json" where
  "advance_run_json opts r = JObject
     [(''schema_version'', JString (ar_schema_version r)),
      (''generated_at_utc'', JString (ar_generated_at_utc r)), (''status'', JString (ar_status r)),
      (''resume_json'', JString (ao_resume_json opts)), (''max_iterations'', json_nat (max_iterations opts)),
      (''forever'', JBool (ao_forever opts)), (''sleep_seconds'', json_nat (ao_sleep_seconds opts)),
      (''completed_iterations'', json_nat (ar_completed_iterations r)),
      (''heartbeat_count'', json_nat (ar_heartbeat_count r)),
      (''stop_file'', JString (ao_stop_file opts)), (''ledger'', JString (ao_ledger opts)),
      (''pr_ci_gate'', pr_ci_gate_json (ar_gate r)),
      (''local_only_while_pr_blocked'', local_only_json (ar_local_only r)),
      (''direct_main_publish'', publish_json (ar_publish r)),
      (''results'', JArray (map task_result_json (ar_results r))),
      (''trust_boundary'', JObject [(''local_only'', JBool True), (''stores_credentials'', JBool False)]),
      (''observed_eval_loop_sha256'', json_opt_str (ar_observed_sha256 r)),
      (''auto_advance'', json_opt (ar_auto_advance r)), (''reason'', json_opt_str (ar_reason r)),
      (''current_iteration'', json_opt_nat (ar_current_iteration r)),
      (''current_task_count'', json_opt_nat (ar_current_task_count r)),
      (''pulse_task_manifest_path'', json_opt_str (ar_manifest_path r)),
      (''task_execution_mode'', json_opt_str (ar_execution_mode r)),
      (''pr_ci_gate_update'', json_opt (map_option gate_update_json (ar_last_update r))),
      (''pulse_generate_next'', json_opt (map_option generate_next_json (ar_generate_next r))),
      (''generated_next_packet'', JBool (ar_generated_next r)),
      (''generated_local_only_packet'', JBool (ar_generated_local_only r)),
      (''register_next_packet'', JBool (ar_register_next r)),
      (''sha256_matches'', json_opt_bool (ar_sha256_matches r)),
      (''operator_prompt_sha256'', json_opt_str (ar_prompt_sha256 r)),
      (''operator_prompt_sha256_matches'', json_opt_bool (ar_prompt_matches r)),
      (''operator_prompt_observed_sha256'', json_opt_str (ar_prompt_observed r)),
      (''pulse_eval_loop_path'', json_opt_str (ar_eval_path r)),
      (''pulse_eval_loop_sha256'', json_opt_str (ar_eval_sha256 r)),
      (''operator_prompt_path'', json_opt_str (ar_prompt_path r))]"

subsection \<open>The world of the automation\<close>

datatype advance_role = TaskCommand | TaskManifest | UpdateGate | GenerateNext | GenerateLocalOnly | PublishMain

datatype advance_step =
    Ran advance_role string "(string \<times> string) list" int
  | GateLoaded string
  | SummaryWritten json
  | Recorded ledger_entry
  | Slept nat

record advance_world =
  aw_draws :: nat
  aw_files :: pulse_tree
  aw_trace :: "advance_step list"

text \<open>The environment: the JSON reader and writers, SHA-256, the Unicode functions, the clocks, the
  errors of the system calls, and what commands and the passing of time make of the files.\<close>

record advance_env =
  ae_parse :: "string \<Rightarrow> json rresult"
  ae_pretty :: "json \<Rightarrow> string rresult"
  ae_line :: "json \<Rightarrow> string rresult"
  ae_sha256 :: "string \<Rightarrow> string"
  ae_lossy :: "string \<Rightarrow> string"
  ae_lower :: "string \<Rightarrow> string"
  ae_alnum :: "string \<Rightarrow> bool"
  ae_now :: "nat \<Rightarrow> string"
  ae_stamp :: "nat \<Rightarrow> int"
  ae_fault :: "nat \<Rightarrow> string option"
  ae_undeleted :: "nat \<Rightarrow> string \<Rightarrow> bool"
  ae_run :: "nat \<Rightarrow> string list \<Rightarrow> (string \<times> string) list \<Rightarrow> pulse_tree \<Rightarrow> command_end rresult \<times> pulse_tree"
  ae_pass :: "nat \<Rightarrow> nat \<Rightarrow> pulse_tree \<Rightarrow> pulse_tree"

type_synonym 'a advance_act = "(advance_world, 'a) act"

definition next_draw :: "nat advance_act" where
  "next_draw w = (Inr (aw_draws w), w\<lparr>aw_draws := Suc (aw_draws w)\<rparr>)"

definition look :: "pulse_tree advance_act" where
  "look w = (Inr (aw_files w), w)"

definition note_step :: "advance_step \<Rightarrow> unit advance_act" where
  "note_step s w = (Inr (), w\<lparr>aw_trace := aw_trace w @ [s]\<rparr>)"

definition set_files :: "pulse_tree \<Rightarrow> unit advance_act" where
  "set_files files w = (Inr (), w\<lparr>aw_files := files\<rparr>)"

text \<open>A system call that fails as the environment says, its error replaced by the context if any.\<close>

definition system_call :: "advance_env \<Rightarrow> string option \<Rightarrow> unit advance_act" where
  "system_call env msg = act_bind next_draw (\<lambda>k.
     case ae_fault env k of None \<Rightarrow> act_return ()
     | Some e \<Rightarrow> act_lift (Inl (case msg of None \<Rightarrow> e | Some m \<Rightarrow> m)))"

definition put_node :: "string \<Rightarrow> file_node \<Rightarrow> unit advance_act" where
  "put_node path node = act_bind look (\<lambda>files. set_files (files(path \<mapsto> node)))"

definition create_dir_all :: "advance_env \<Rightarrow> string \<Rightarrow> string \<Rightarrow> unit advance_act" where
  "create_dir_all env msg path = act_bind (system_call env (Some msg)) (\<lambda>_.
     act_bind look (\<lambda>files.
     if files path = None then put_node path Folder else act_return ()))"

text \<open>\<open>fs::remove_dir_all\<close> with its result ignored: what it could not delete stays.\<close>

definition clear_dir :: "advance_env \<Rightarrow> string \<Rightarrow> unit advance_act" where
  "clear_dir env dir = act_bind next_draw (\<lambda>k. act_bind look (\<lambda>files.
     set_files (\<lambda>p. if (p = dir \<or> prefix (dir @ ''/'') p) \<and> \<not> ae_undeleted env k p then None else files p)))"

definition utc_now :: "advance_env \<Rightarrow> string advance_act" where
  "utc_now env = act_bind next_draw (\<lambda>k. act_return (ae_now env k))"

definition stamp :: "advance_env \<Rightarrow> string advance_act" where
  "stamp env = act_bind next_draw (\<lambda>k. act_return (show_int (ae_stamp env k)))"

definition sleep :: "advance_env \<Rightarrow> nat \<Rightarrow> unit advance_act" where
  "sleep env seconds = act_bind next_draw (\<lambda>k. act_bind look (\<lambda>files.
     act_bind (set_files (ae_pass env k seconds files)) (\<lambda>_. note_step (Slept seconds))))"

definition write_summary :: "advance_env \<Rightarrow> advance_options \<Rightarrow> advance_run \<Rightarrow> unit advance_act" where
  "write_summary env opts r =
     act_bind (act_lift (ae_pretty env (advance_run_json opts r))) (\<lambda>content.
     act_bind (system_call env None) (\<lambda>_.
     act_bind (put_node (path_join (ao_out_dir opts) ''summary.json'') (Readable (content @ nl))) (\<lambda>_.
     note_step (SummaryWritten (advance_run_json opts r)))))"

definition sha256_path :: "advance_env \<Rightarrow> pulse_tree \<Rightarrow> string \<Rightarrow> string rresult" where
  "sha256_path env files path = rbind (read_bytes (files path)) (\<lambda>b. Inr (ae_sha256 env b))"

text \<open>The digests in the ledger; a line that cannot be read is passed over.\<close>

definition ledger_digest :: "advance_env \<Rightarrow> string \<Rightarrow> string option" where
  "ledger_digest env line =
     (if trim line = [] then None
      else case ae_parse env line of Inl e \<Rightarrow> None | Inr item \<Rightarrow> get_str item ''pulse_eval_loop_sha256'')"

definition load_seen :: "advance_env \<Rightarrow> pulse_tree \<Rightarrow> string \<Rightarrow> string list" where
  "load_seen env files ledger =
     (if \<not> node_is_file (files ledger) then []
      else case read_text (files ledger) of Inl e \<Rightarrow> []
      | Inr content \<Rightarrow> List.map_filter (ledger_digest env) (str_lines content))"

definition run_log :: "advance_env \<Rightarrow> string \<Rightarrow> (string \<times> string) list \<Rightarrow> command_end \<Rightarrow> string" where
  "run_log env command envs out =
     ''$ '' @ command @ nl @ concat (map (\<lambda>(k, v). k @ ''='' @ v @ nl) envs) @ nl
     @ ''--- stdout ---'' @ nl @ ae_lossy env (ce_stdout out) @ nl @ ''--- stderr ---'' @ nl
     @ ae_lossy env (ce_stderr out)"

text \<open>A command, run in the apply root with the given variables, logged, and its exit code.\<close>

definition run_command_str_in_dir ::
    "advance_env \<Rightarrow> advance_role \<Rightarrow> string \<Rightarrow> (string \<times> string) list \<Rightarrow> string \<Rightarrow> int advance_act" where
  "run_command_str_in_dir env role command envs log_file =
     (let parts = split_command command in
      if parts = [] then act_lift (Inl ''empty command string'')
      else
      act_bind next_draw (\<lambda>k. act_bind look (\<lambda>files.
      case ae_run env k parts envs files of (ended, left) \<Rightarrow>
      act_bind (set_files left) (\<lambda>_.
      act_bind (act_lift ended) (\<lambda>out.
      act_bind (note_step (Ran role command envs (exit_code out))) (\<lambda>_.
      act_bind (system_call env None) (\<lambda>_.
      act_bind (put_node log_file (Readable (run_log env command envs out))) (\<lambda>_.
      act_return (exit_code out)))))))))"

definition verdict :: "int \<Rightarrow> string" where
  "verdict code = (if code = 0 then ''passed'' else ''failed'')"

subsection \<open>The payload\<close>

definition gate_unchecked :: "advance_options \<Rightarrow> pr_ci_gate" where
  "gate_unchecked opts = \<lparr>pg_enabled = ao_pr_ci_gate opts = 1, pg_update_enabled = ao_update_gate opts = 1,
     pg_state_path = ao_pr_ci_gate_state opts, pg_status = ''not_checked'', pg_reason = None, pg_detail = None,
     pg_required_checks = [], pg_source_schema_version = None, pg_branch = None, pg_pr = None, pg_trigger = None\<rparr>"

definition run_start :: "advance_options \<Rightarrow> string \<Rightarrow> advance_run" where
  "run_start opts time = \<lparr>ar_schema_version = ''ao2.pulse-auto-advance-run.v1'', ar_generated_at_utc = time,
     ar_status = ''failed'', ar_completed_iterations = 0, ar_heartbeat_count = 0, ar_gate = gate_unchecked opts,
     ar_local_only = \<lparr>lo_enabled = ao_local_only opts, lo_status = ''not_checked'', lo_reason = None, lo_gate_status = None\<rparr>,
     ar_publish = \<lparr>dp_enabled = ao_direct_main opts, dp_status = ''not_checked'', dp_command = None,
       dp_exit_code = None, dp_log = None, dp_summary = None, dp_reason = None\<rparr>,
     ar_results = [], ar_observed_sha256 = None, ar_auto_advance = None, ar_reason = None,
     ar_current_iteration = None, ar_current_task_count = None, ar_manifest_path = None,
     ar_execution_mode = None, ar_last_update = None, ar_generate_next = None, ar_generated_next = False,
     ar_generated_local_only = False, ar_register_next = False, ar_sha256_matches = None,
     ar_prompt_sha256 = None, ar_prompt_matches = None, ar_prompt_observed = None, ar_eval_path = None,
     ar_eval_sha256 = None, ar_prompt_path = None\<rparr>"

definition because :: "string \<Rightarrow> advance_run \<Rightarrow> advance_run" where
  "because why p = p\<lparr>ar_reason := Some why\<rparr>"

definition ended_as :: "string \<Rightarrow> string \<Rightarrow> advance_run \<Rightarrow> advance_run" where
  "ended_as status why p = p\<lparr>ar_status := status, ar_reason := Some why\<rparr>"

definition logs_dir :: "advance_options \<Rightarrow> string" where
  "logs_dir opts = path_join (ao_out_dir opts) ''logs''"

definition stamped :: "advance_env \<Rightarrow> advance_options \<Rightarrow> advance_run \<Rightarrow> advance_run advance_act" where
  "stamped env opts p = act_bind (utc_now env) (\<lambda>time.
     let p' = p\<lparr>ar_generated_at_utc := time\<rparr> in
     act_bind (write_summary env opts p') (\<lambda>_. act_return p'))"

definition write_heartbeat ::
    "advance_env \<Rightarrow> advance_options \<Rightarrow> string \<Rightarrow> json option \<Rightarrow> string option \<Rightarrow> advance_run \<Rightarrow> advance_run advance_act" where
  "write_heartbeat env opts reason resume digest p =
     stamped env opts
       (p\<lparr>ar_schema_version := ''ao2.pulse-auto-advance-heartbeat.v1'', ar_status := ''waiting'',
          ar_reason := Some reason, ar_heartbeat_count := ar_heartbeat_count p + 1,
          ar_auto_advance := (case Option.bind resume (\<lambda>r. json_get r ''auto_advance'') of
            None \<Rightarrow> ar_auto_advance p | Some v \<Rightarrow> Some v),
          ar_observed_sha256 := (case digest of None \<Rightarrow> ar_observed_sha256 p | Some d \<Rightarrow> Some d)\<rparr>)"

subsection \<open>Generating the next packet\<close>

text \<open>What the payload says when generation is put off for the gate.\<close>

definition generation_waits :: "string \<Rightarrow> advance_run \<Rightarrow> advance_run" where
  "generation_waits gate_status p = p\<lparr>
     ar_generate_next := Some \<lparr>gn_status = ''skipped'', gn_exit_code = None, gn_log = None,
       gn_reason = waiting_reason, gn_gate_status = Some gate_status, gn_local_only = None, gn_sleep_seconds = None\<rparr>,
     ar_generated_next := False, ar_generated_local_only := False, ar_register_next := False,
     ar_status := ''waiting'', ar_reason := Some waiting_reason\<rparr>"

definition refresh_pr_ci_gate ::
    "advance_env \<Rightarrow> advance_options \<Rightarrow> string \<Rightarrow> advance_run \<Rightarrow> (bool \<times> advance_run) advance_act" where
  "refresh_pr_ci_gate env opts reason p =
     (if ao_pr_ci_gate opts \<noteq> 1 \<or> ao_update_gate opts \<noteq> 1
      then act_return (True, p\<lparr>ar_last_update := Some \<lparr>gu_status = ''skipped'', gu_exit_code = 0, gu_log = [],
        gu_state_path = ao_pr_ci_gate_state opts, gu_reason = reason\<rparr>\<rparr>)
      else
      act_bind (stamp env) (\<lambda>t.
      let log = path_join (logs_dir opts) (''pulse_pr_ci_gate_update-'' @ t @ ''.log'') in
      act_bind (run_command_str_in_dir env UpdateGate ''npm run pulse:pr-ci-gate:update''
        [(''AO2_PULSE_PR_CI_GATE_UPDATE_STATE'', ao_pr_ci_gate_state opts),
         (''AO2_PULSE_PR_CI_GATE_UPDATE_ROOT'', path_join (ao_out_dir opts) ''pr-ci-gate-update'')] log) (\<lambda>code.
      let p1 = p\<lparr>ar_last_update := Some \<lparr>gu_status = verdict code, gu_exit_code = code, gu_log = log,
        gu_state_path = ao_pr_ci_gate_state opts, gu_reason = reason\<rparr>\<rparr> in
      if code = 0 then act_return (True, p1)
      else
      act_bind (stamped env opts (generation_waits ''waiting''
        (p1\<lparr>ar_gate := gate_waits ''pr_ci_gate_update_failed'' (gate_unchecked opts)\<rparr>))) (\<lambda>p2.
      act_return (False, p2)))))"

definition generate_command :: string where
  "generate_command = ''npm run pulse:generate-next''"

definition load_gate :: "advance_env \<Rightarrow> advance_options \<Rightarrow> string \<Rightarrow> pr_ci_gate advance_act" where
  "load_gate env opts reason = act_bind look (\<lambda>files.
     let gate = load_pr_ci_gate (ae_lower env) (ae_parse env) files (ao_pr_ci_gate opts = 1) (ao_pr_ci_gate_state opts) reason in
     act_bind (note_step (GateLoaded (pg_status gate))) (\<lambda>_. act_return gate))"

text \<open>The packet that stays local, generated while the gate waits.\<close>

definition generate_local_only ::
    "advance_env \<Rightarrow> advance_options \<Rightarrow> string \<Rightarrow> pr_ci_gate \<Rightarrow> advance_run \<Rightarrow> (bool \<times> advance_run) advance_act" where
  "generate_local_only env opts reason gate p =
     act_bind (stamp env) (\<lambda>t.
     let log = path_join (logs_dir opts) (''pulse_generate_next-local-only-'' @ t @ ''.log'') in
     act_bind (run_command_str_in_dir env GenerateLocalOnly generate_command
       [(''AO2_PULSE_GENERATE_NEXT_LOCAL_ONLY'', ''1'')] log) (\<lambda>code.
     act_bind (stamped env opts (p\<lparr>
       ar_generate_next := Some \<lparr>gn_status = verdict code, gn_exit_code = Some code, gn_log = Some log,
         gn_reason = reason, gn_gate_status = Some (pg_status gate), gn_local_only = Some True,
         gn_sleep_seconds = Some (generate_sleep opts)\<rparr>,
       ar_local_only := \<lparr>lo_enabled = True, lo_status = verdict code,
         lo_reason = Some ''pr_ci_gate_blocked_normal_generation'', lo_gate_status = Some (pg_status gate)\<rparr>,
       ar_status := (if code = 0 then ''waiting'' else ''failed''),
       ar_generated_next := False, ar_generated_local_only := code = 0, ar_register_next := code = 0,
       ar_reason := Some (if code = 0 then ''generated_local_only_packet'' else ''generate_next_failed'')\<rparr>)) (\<lambda>p'.
     act_return (code = 0, p'))))"

definition generate_normally ::
    "advance_env \<Rightarrow> advance_options \<Rightarrow> string \<Rightarrow> advance_run \<Rightarrow> (bool \<times> advance_run) advance_act" where
  "generate_normally env opts reason p =
     act_bind (stamp env) (\<lambda>t.
     let log = path_join (logs_dir opts) (''pulse_generate_next-'' @ t @ ''.log'') in
     act_bind (run_command_str_in_dir env GenerateNext generate_command [] log) (\<lambda>code.
     act_bind (stamped env opts (p\<lparr>
       ar_generate_next := Some \<lparr>gn_status = verdict code, gn_exit_code = Some code, gn_log = Some log,
         gn_reason = reason, gn_gate_status = None, gn_local_only = None,
         gn_sleep_seconds = Some (generate_sleep opts)\<rparr>,
       ar_status := (if code = 0 then ''waiting'' else ''failed''),
       ar_generated_next := code = 0, ar_generated_local_only := False, ar_register_next := code = 0,
       ar_reason := Some (if code = 0 then ''generated_next_packet'' else ''generate_next_failed'')\<rparr>)) (\<lambda>p'.
     act_return (code = 0, p'))))"

definition pulse_generate_next ::
    "advance_env \<Rightarrow> advance_options \<Rightarrow> string \<Rightarrow> advance_run \<Rightarrow> (bool \<times> advance_run) advance_act" where
  "pulse_generate_next env opts reason p =
     (if \<not> ao_forever opts \<or> ao_generate_next opts \<noteq> 1 then act_return (False, p)
      else
      act_bind (refresh_pr_ci_gate env opts reason p) (\<lambda>(fresh, p1).
      if \<not> fresh then act_return (False, p1)
      else
      act_bind (load_gate env opts reason) (\<lambda>gate.
      let p2 = p1\<lparr>ar_gate := gate\<rparr> in
      if pg_status gate = ''passed'' then generate_normally env opts reason p2
      else if ao_local_only opts then generate_local_only env opts reason gate p2
      else act_bind (stamped env opts (generation_waits (pg_status gate) p2)) (\<lambda>p3. act_return (False, p3)))))"

subsection \<open>Publishing to the main branch\<close>

definition pulse_direct_main_publish ::
    "advance_env \<Rightarrow> advance_options \<Rightarrow> string \<Rightarrow> advance_run \<Rightarrow> (bool \<times> advance_run) advance_act" where
  "pulse_direct_main_publish env opts reason p =
     (if \<not> ao_direct_main opts
      then act_return (True, p\<lparr>ar_publish := \<lparr>dp_enabled = False, dp_status = ''skipped'', dp_command = None,
        dp_exit_code = None, dp_log = None, dp_summary = None, dp_reason = Some ''direct_main_publish_disabled''\<rparr>\<rparr>)
      else
      act_bind (stamp env) (\<lambda>t.
      let log = path_join (logs_dir opts) (''pulse_direct_main_publish-'' @ t @ ''.log'');
          publish_root = path_join (ao_out_dir opts) ''direct-main-publish'' in
      act_bind (run_command_str_in_dir env PublishMain ''npm run pulse:direct-main-publish''
        [(''AO2_PULSE_DIRECT_MAIN_PUBLISH_REASON'', reason),
         (''AO2_PULSE_DIRECT_MAIN_PUBLISH_ROOT'', publish_root)] log) (\<lambda>code.
      let p1 = p\<lparr>ar_publish := \<lparr>dp_enabled = True, dp_status = verdict code,
        dp_command = Some ''pulse:direct-main-publish'', dp_exit_code = Some code, dp_log = Some log,
        dp_summary = Some (path_join publish_root ''summary.json''), dp_reason = Some reason\<rparr>\<rparr> in
      if code \<noteq> 0
      then act_bind (stamped env opts (ended_as ''failed'' ''direct_main_publish_failed'' p1)) (\<lambda>p2.
        act_return (False, p2))
      else act_bind (write_summary env opts p1) (\<lambda>_. act_return (True, p1)))))"

subsection \<open>The evidence a round rests on\<close>

definition resume_parent :: "advance_options \<Rightarrow> string" where
  "resume_parent opts = (case path_parent (ao_resume_json opts) of None \<Rightarrow> ''.'' | Some d \<Rightarrow> d)"

definition read_json :: "advance_env \<Rightarrow> pulse_tree \<Rightarrow> string \<Rightarrow> json rresult" where
  "read_json env files path = rbind (read_text (files path)) (ae_parse env)"

record round_evidence =
  rv_eval_path :: string
  rv_eval_sha256 :: string
  rv_expected_sha256 :: string
  rv_prompt_path :: string
  rv_prompt_sha256 :: "string option"
  rv_expected_prompt :: "string option"

definition gather_evidence ::
    "advance_env \<Rightarrow> advance_options \<Rightarrow> pulse_tree \<Rightarrow> json \<Rightarrow> string \<Rightarrow> round_evidence rresult" where
  "gather_evidence env opts files resume eval_path =
     (let prompt_path = path_join (resume_parent opts) (get_str_or resume ''operator_prompt_path'' ''operator-prompt.txt'') in
      rbind (sha256_path env files eval_path) (\<lambda>digest.
      rbind (if node_is_file (files prompt_path)
             then rbind (sha256_path env files prompt_path) (\<lambda>d. Inr (Some d)) else Inr None) (\<lambda>prompt.
      Inr \<lparr>rv_eval_path = eval_path, rv_eval_sha256 = digest,
        rv_expected_sha256 = get_str_or resume ''pulse_eval_loop_sha256'' [],
        rv_prompt_path = prompt_path, rv_prompt_sha256 = prompt,
        rv_expected_prompt = get_str resume ''operator_prompt_sha256''\<rparr>)))"

definition eval_matches :: "round_evidence \<Rightarrow> bool" where
  "eval_matches ev \<longleftrightarrow> rv_eval_sha256 ev = rv_expected_sha256 ev"

definition prompt_matches :: "round_evidence \<Rightarrow> bool" where
  "prompt_matches ev \<longleftrightarrow> rv_expected_prompt ev = rv_prompt_sha256 ev"

definition report_evidence :: "json \<Rightarrow> round_evidence \<Rightarrow> advance_run \<Rightarrow> advance_run" where
  "report_evidence resume ev p = p\<lparr>
     ar_eval_path := Some (rv_eval_path ev), ar_eval_sha256 := Some (rv_expected_sha256 ev),
     ar_observed_sha256 := Some (rv_eval_sha256 ev), ar_prompt_path := Some (rv_prompt_path ev),
     ar_prompt_sha256 := rv_expected_prompt ev, ar_auto_advance := json_get resume ''auto_advance'',
     ar_sha256_matches := Some (eval_matches ev), ar_prompt_matches := Some (prompt_matches ev),
     ar_prompt_observed := rv_prompt_sha256 ev\<rparr>"

definition continues_until_exit_gate :: "json \<Rightarrow> bool" where
  "continues_until_exit_gate resume =
     (case Option.bind (Option.bind (json_get resume ''auto_advance'')
        (\<lambda>v. json_get v ''continue_until_exit_gate'')) as_bool of None \<Rightarrow> False | Some b \<Rightarrow> b)"

text \<open>Why a round is refused, if it is.\<close>

definition evidence_refusal :: "json \<Rightarrow> round_evidence \<Rightarrow> string option" where
  "evidence_refusal resume ev =
     (if \<not> eval_matches ev then Some ''eval_loop_hash_mismatch''
      else if \<not> prompt_matches ev then Some ''operator_prompt_hash_mismatch''
      else if \<not> continues_until_exit_gate resume then Some ''auto_advance_continue_until_exit_gate_missing''
      else None)"

definition decided_to_stop :: "advance_env \<Rightarrow> advance_options \<Rightarrow> pulse_tree \<Rightarrow> bool rresult" where
  "decided_to_stop env opts files =
     (let path = path_join (resume_parent opts) ''ao2-event-loop-decision.json'' in
      if \<not> node_is_file (files path) then Inr False
      else rbind (read_json env files path) (\<lambda>decision.
        Inr (Option.bind (json_get decision ''event_loop'') (\<lambda>v. get_str v ''action'') = Some ''stop'')))"

subsection \<open>The tasks of a round\<close>

definition safe_id :: "advance_env \<Rightarrow> string \<Rightarrow> string" where
  "safe_id env s = concat (map (\<lambda>c. if ae_alnum env c \<or> c \<in> {''.'', ''_'', ''-''} then c else ''_'') (utf8_chars s))"

definition task_log :: "advance_env \<Rightarrow> advance_options \<Rightarrow> nat \<Rightarrow> nat \<Rightarrow> string \<Rightarrow> string" where
  "task_log env opts iteration index task_id = path_join (logs_dir opts)
     (''iteration-'' @ show_pad2 iteration @ ''-'' @ show_pad2 index @ ''-'' @ safe_id env task_id @ ''.log'')"

definition task_command :: "json \<Rightarrow> string" where
  "task_command task = get_str_or task ''command'' []"

definition missing_command :: "nat \<Rightarrow> nat \<Rightarrow> json \<Rightarrow> task_result" where
  "missing_command iteration index task = \<lparr>tr_iteration = iteration, tr_index = index,
     tr_id = get_str_or task ''id'' [], tr_title = get_str task ''title'', tr_command = None, tr_manifest = None,
     tr_summary = None, tr_status = ''failed'', tr_exit_code = None, tr_log = None,
     tr_reason = Some ''command_missing'', tr_expected_evidence = json_get task ''expected_evidence''\<rparr>"

definition command_result :: "nat \<Rightarrow> nat \<Rightarrow> json \<Rightarrow> int \<Rightarrow> string \<Rightarrow> task_result" where
  "command_result iteration index task code file = \<lparr>tr_iteration = iteration, tr_index = index,
     tr_id = get_str_or task ''id'' [], tr_title = get_str task ''title'', tr_command = Some (task_command task),
     tr_manifest = None, tr_summary = None, tr_status = verdict code, tr_exit_code = Some code,
     tr_log = Some file, tr_reason = None, tr_expected_evidence = json_get task ''expected_evidence''\<rparr>"

text \<open>The recommended tasks in order, up to the first that fails.\<close>

fun run_recommended ::
    "advance_env \<Rightarrow> advance_options \<Rightarrow> nat \<Rightarrow> nat \<Rightarrow> json list \<Rightarrow> task_result list advance_act" where
  "run_recommended env opts iteration index [] = act_return []"
| "run_recommended env opts iteration index (task # tasks) =
     (if task_command task = [] then act_return [missing_command iteration index task]
      else
      let log = task_log env opts iteration index (get_str_or task ''id'' []) in
      act_bind (run_command_str_in_dir env TaskCommand (task_command task) [] log) (\<lambda>code.
      let result = command_result iteration index task code log in
      if code \<noteq> 0 then act_return [result]
      else act_bind (run_recommended env opts iteration (Suc index) tasks) (\<lambda>results. act_return (result # results))))"

text \<open>The structured manifest, where there is one, is run by its executor instead.\<close>

definition executor_command :: string where
  "executor_command = ''npm run pulse:task-executor''"

definition run_manifest ::
    "advance_env \<Rightarrow> advance_options \<Rightarrow> nat \<Rightarrow> string \<Rightarrow> task_result list advance_act" where
  "run_manifest env opts iteration manifest =
     (let executor_root = path_join (path_join (ao_out_dir opts) ''task-executor'') (''iteration-'' @ show_pad2 iteration);
          log = path_join (logs_dir opts) (''iteration-'' @ show_pad2 iteration @ ''-pulse-task-executor.log'') in
      act_bind (run_command_str_in_dir env TaskManifest executor_command
        [(''AO2_PULSE_TASK_EXECUTOR_MANIFEST'', manifest), (''AO2_PULSE_TASK_EXECUTOR_ROOT'', executor_root)] log) (\<lambda>code.
      act_return [\<lparr>tr_iteration = iteration, tr_index = 1, tr_id = ''pulse-task-executor'',
        tr_title = Some ''Pulse structured task manifest executor'', tr_command = Some executor_command,
        tr_manifest = Some manifest, tr_summary = Some (path_join executor_root ''summary.json''),
        tr_status = verdict code, tr_exit_code = Some code, tr_log = Some log, tr_reason = None,
        tr_expected_evidence = None\<rparr>]))"

definition all_passed :: "nat \<Rightarrow> task_result list \<Rightarrow> bool" where
  "all_passed expected results \<longleftrightarrow> list_all (\<lambda>t. tr_status t = ''passed'') results \<and> length results = expected"

definition recommended_tasks :: "json \<Rightarrow> json list" where
  "recommended_tasks eval_loop =
     (case Option.bind (json_get eval_loop ''recommended_tasks'') as_array of None \<Rightarrow> [] | Some ts \<Rightarrow> ts)"

text \<open>The manifest beside the evaluation document.\<close>

definition manifest_path :: "string \<Rightarrow> string" where
  "manifest_path eval_path =
     path_join (case path_parent eval_path of None \<Rightarrow> [] | Some d \<Rightarrow> d) ''pulse-task-manifest.json''"

definition announce_tasks ::
    "advance_env \<Rightarrow> advance_options \<Rightarrow> string \<Rightarrow> nat \<Rightarrow> json list \<Rightarrow> advance_run \<Rightarrow> advance_run advance_act" where
  "announce_tasks env opts manifest iteration tasks p =
     act_bind (utc_now env) (\<lambda>time.
     act_bind look (\<lambda>files.
     let p' = p\<lparr>ar_schema_version := ''ao2.pulse-auto-advance-run.v1'', ar_status := ''running'',
       ar_reason := Some ''executing_recommended_tasks'', ar_generated_at_utc := time,
       ar_current_iteration := Some iteration, ar_current_task_count := Some (length tasks),
       ar_manifest_path := (if node_is_file (files manifest) then Some manifest else None)\<rparr> in
     act_bind (write_summary env opts p') (\<lambda>_. act_return p')))"

text \<open>Running the tasks: the payload afterwards, and whether all of them passed.\<close>

definition execute_tasks ::
    "advance_env \<Rightarrow> advance_options \<Rightarrow> string \<Rightarrow> nat \<Rightarrow> json list \<Rightarrow> advance_run \<Rightarrow> (bool \<times> advance_run) advance_act" where
  "execute_tasks env opts manifest iteration tasks p =
     act_bind look (\<lambda>files.
     let structured = node_is_file (files manifest) in
     act_bind (if structured then run_manifest env opts iteration manifest
               else run_recommended env opts iteration 1 tasks) (\<lambda>results.
     let p' = p\<lparr>ar_execution_mode := Some (if structured then ''structured_manifest'' else ''recommended_tasks''),
       ar_results := ar_results p @ results\<rparr> in
     act_return (all_passed (if structured then 1 else length tasks) results, p')))"

subsection \<open>A round\<close>

datatype round_end = Again nat advance_run | Finished advance_run

definition append_ledger :: "advance_env \<Rightarrow> advance_options \<Rightarrow> ledger_entry \<Rightarrow> unit advance_act" where
  "append_ledger env opts entry =
     act_bind (act_lift (ae_line env (ledger_entry_json entry))) (\<lambda>line.
     act_bind (system_call env None) (\<lambda>_.
     act_bind look (\<lambda>files.
     act_bind (case files (ao_ledger opts) of
         None \<Rightarrow> put_node (ao_ledger opts) (Readable (line @ nl))
       | Some (Readable b) \<Rightarrow> put_node (ao_ledger opts) (Readable (b @ line @ nl))
       | Some (Unreadable e) \<Rightarrow> act_lift (Inl e)
       | Some Folder \<Rightarrow> act_lift (Inl ''Is a directory (os error 21)'')) (\<lambda>_.
     note_step (Recorded entry)))))"

text \<open>After the tasks have passed: the ledger, the publication, and whether to go on.\<close>

definition conclude_round ::
    "advance_env \<Rightarrow> advance_options \<Rightarrow> round_evidence \<Rightarrow> nat \<Rightarrow> nat \<Rightarrow> advance_run \<Rightarrow> round_end advance_act" where
  "conclude_round env opts ev iteration task_count p =
     act_bind (utc_now env) (\<lambda>time.
     act_bind (append_ledger env opts \<lparr>le_generated_at_utc = time, le_eval_path = rv_eval_path ev,
       le_eval_sha256 = rv_eval_sha256 ev, le_status = ''passed'', le_task_count = task_count\<rparr>) (\<lambda>_.
     act_bind (pulse_direct_main_publish env opts ''completed_iteration'' p) (\<lambda>(published, p1).
     if \<not> published then act_return (Finished p1)
     else if \<not> ao_forever opts then act_return (Finished (p1\<lparr>ar_status := ''passed''\<rparr>))
     else if max_iterations opts > 0 \<and> iteration \<ge> max_iterations opts
     then act_return (Finished (ended_as ''passed'' ''max_iterations_reached'' p1))
     else
     act_bind (pulse_generate_next env opts ''completed_iteration'' p1) (\<lambda>(generated, p2).
     if generated then act_bind (sleep env (generate_sleep opts)) (\<lambda>_. act_return (Again iteration p2))
     else if ar_reason p2 = Some waiting_reason then act_return (Finished p2)
     else
     let p3 = ended_as ''waiting'' ''waiting_for_new_eval_loop_digest'' p2 in
     act_bind (write_summary env opts p3) (\<lambda>_.
     act_bind (sleep env (ao_sleep_seconds opts)) (\<lambda>_. act_return (Again iteration p3)))))))"

definition work_on_tasks ::
    "advance_env \<Rightarrow> advance_options \<Rightarrow> round_evidence \<Rightarrow> nat \<Rightarrow> json list \<Rightarrow> advance_run \<Rightarrow> round_end advance_act" where
  "work_on_tasks env opts ev iteration tasks p =
     (let manifest = manifest_path (rv_eval_path ev) in
      act_bind (announce_tasks env opts manifest iteration tasks p) (\<lambda>p1.
      act_bind (execute_tasks env opts manifest iteration tasks p1) (\<lambda>(passed, p2).
      if \<not> passed then act_return (Finished (ended_as ''failed'' ''task_failed'' p2))
      else conclude_round env opts ev iteration (length tasks) (p2\<lparr>ar_completed_iterations := iteration\<rparr>))))"

definition work_round ::
    "advance_env \<Rightarrow> advance_options \<Rightarrow> round_evidence \<Rightarrow> nat \<Rightarrow> advance_run \<Rightarrow> round_end advance_act" where
  "work_round env opts ev iteration p =
     act_bind look (\<lambda>files.
     act_bind (act_lift (read_json env files (rv_eval_path ev))) (\<lambda>eval_loop.
     let tasks = recommended_tasks eval_loop in
     if tasks = [] then act_return (Finished (because ''recommended_tasks_missing'' p))
     else work_on_tasks env opts ev (Suc iteration) tasks p))"

text \<open>A digest that is in the ledger already: wait for another, or have it generated.\<close>

definition duplicate_round ::
    "advance_env \<Rightarrow> advance_options \<Rightarrow> json \<Rightarrow> round_evidence \<Rightarrow> nat \<Rightarrow> advance_run \<Rightarrow> round_end advance_act" where
  "duplicate_round env opts resume ev iteration p =
     (if \<not> ao_forever opts then act_return (Finished (ended_as ''stopped'' ''duplicate_eval_loop_digest'' p))
      else
      act_bind (pulse_generate_next env opts ''duplicate_eval_loop_digest'' p) (\<lambda>(generated, p1).
      if generated then act_bind (sleep env (generate_sleep opts)) (\<lambda>_. act_return (Again iteration p1))
      else if ar_reason p1 = Some waiting_reason then act_return (Finished p1)
      else
      act_bind (write_heartbeat env opts ''waiting_for_new_eval_loop_digest'' (Some resume) (Some (rv_eval_sha256 ev)) p1) (\<lambda>p2.
      act_bind (sleep env (ao_sleep_seconds opts)) (\<lambda>_. act_return (Again iteration p2)))))"

definition verified_round ::
    "advance_env \<Rightarrow> advance_options \<Rightarrow> json \<Rightarrow> round_evidence \<Rightarrow> nat \<Rightarrow> advance_run \<Rightarrow> round_end advance_act" where
  "verified_round env opts resume ev iteration p =
     (let p1 = report_evidence resume ev p in
      case evidence_refusal resume ev of
        Some why \<Rightarrow> act_return (Finished (because why p1))
      | None \<Rightarrow>
          act_bind look (\<lambda>files.
          act_bind (act_lift (decided_to_stop env opts files)) (\<lambda>stop.
          if stop then act_return (Finished (ended_as ''stopped'' ''readiness_exit_gate_satisfied'' p1))
          else if rv_eval_sha256 ev \<in> set (load_seen env files (ao_ledger opts)) \<and> \<not> ao_allow_duplicate opts
          then duplicate_round env opts resume ev iteration p1
          else work_round env opts ev iteration p1)))"

definition advance_round ::
    "advance_env \<Rightarrow> advance_options \<Rightarrow> nat \<Rightarrow> advance_run \<Rightarrow> round_end advance_act" where
  "advance_round env opts iteration p =
     act_bind look (\<lambda>files.
     if files (ao_stop_file opts) \<noteq> None
     then act_return (Finished (ended_as ''stopped'' ''stop_file_present'' p))
     else if \<not> node_is_file (files (ao_resume_json opts)) then
       (if ao_forever opts then
          act_bind (write_heartbeat env opts ''waiting_for_resume_json'' None None p) (\<lambda>p1.
          act_bind (sleep env (ao_sleep_seconds opts)) (\<lambda>_. act_return (Again iteration p1)))
        else act_return (Finished (because (''resume_json_missing: '' @ ao_resume_json opts) p)))
     else
     act_bind (act_lift (read_json env files (ao_resume_json opts))) (\<lambda>resume.
     act_bind (act_lift (with_context ''missing pulse_eval_loop_path in resume.json''
       (get_str resume ''pulse_eval_loop_path''))) (\<lambda>rel.
     let eval_path = path_join (resume_parent opts) rel in
     if \<not> node_is_file (files eval_path)
     then act_return (Finished (because (''eval_loop_path_missing: '' @ eval_path) p))
     else
     act_bind (act_lift (gather_evidence env opts files resume eval_path)) (\<lambda>ev.
     verified_round env opts resume ev iteration p))))"

subsection \<open>The run\<close>

text \<open>The loop by its fuel; a loop that is still going when the fuel is spent has no outcome.\<close>

fun advance_loop ::
    "advance_env \<Rightarrow> advance_options \<Rightarrow> nat \<Rightarrow> nat \<Rightarrow> advance_run \<Rightarrow> advance_run option advance_act" where
  "advance_loop env opts 0 iteration p = act_return None"
| "advance_loop env opts (Suc fuel) iteration p =
     act_bind (advance_round env opts iteration p) (\<lambda>outcome. case outcome of
       Again iteration' p' \<Rightarrow> advance_loop env opts fuel iteration' p'
     | Finished p' \<Rightarrow> act_return (Some p'))"

definition prepare_dirs :: "advance_env \<Rightarrow> advance_options \<Rightarrow> unit advance_act" where
  "prepare_dirs env opts =
     act_bind look (\<lambda>files.
     act_bind (if files (ao_out_dir opts) \<noteq> None then clear_dir env (ao_out_dir opts) else act_return ()) (\<lambda>_.
     act_bind (create_dir_all env ''failed to create output directory'' (ao_out_dir opts)) (\<lambda>_.
     act_bind (create_dir_all env ''failed to create logs directory'' (logs_dir opts)) (\<lambda>_.
     case path_parent (ao_ledger opts) of None \<Rightarrow> act_return ()
     | Some parent \<Rightarrow> create_dir_all env ''failed to create ledger directory'' parent))))"

definition report_status :: "advance_env \<Rightarrow> advance_options \<Rightarrow> advance_run \<Rightarrow> string option advance_act" where
  "report_status env opts p = act_bind (write_summary env opts p) (\<lambda>_. act_return (Some (ar_status p)))"

definition run_pulse_auto_advance ::
    "advance_env \<Rightarrow> advance_options \<Rightarrow> nat \<Rightarrow> string option advance_act" where
  "run_pulse_auto_advance env opts fuel =
     act_bind (prepare_dirs env opts) (\<lambda>_.
     act_bind (utc_now env) (\<lambda>time.
     act_bind look (\<lambda>files.
     let p = run_start opts time in
     if files (ao_stop_file opts) \<noteq> None
     then report_status env opts (ended_as ''stopped'' ''stop_file_present'' p)
     else if \<not> node_is_file (files (ao_resume_json opts))
     then report_status env opts (because (''resume_json_missing: '' @ ao_resume_json opts) p)
     else
     act_bind (advance_loop env opts fuel 0 p) (\<lambda>outcome. case outcome of
       None \<Rightarrow> act_return None
     | Some p' \<Rightarrow> report_status env opts p'))))"

end
