(* ===== verification/Pulse_Rounds.thy ===== *)
theory Pulse_Rounds
  imports Pulse_Advance
begin

text \<open>
  What the rounds of the pulse automation do: a small calculus for the steps an action adds to the
  trace, and with it that generation waits for the gate, that tasks run only on verified
  documents, and that the number of entries is bounded.
\<close>

subsection \<open>The steps of an action\<close>

definition does :: "('a rresult \<Rightarrow> advance_step list \<Rightarrow> bool) \<Rightarrow> 'a advance_act \<Rightarrow> bool" where
  "does Q m \<longleftrightarrow> (\<forall>w r w'. m w = (r, w') \<longrightarrow> (\<exists>new. aw_trace w' = aw_trace w @ new \<and> Q r new))"

lemma doesD: "does Q m \<Longrightarrow> m w = (r, w') \<Longrightarrow> \<exists>new. aw_trace w' = aw_trace w @ new \<and> Q r new"
  by (simp add: does_def)

lemma does_weaken: "does P m \<Longrightarrow> (\<And>r new. P r new \<Longrightarrow> Q r new) \<Longrightarrow> does Q m"
  unfolding does_def by blast

lemma does_bind:
  assumes "does A m" and "\<And>x. does (B x) (f x)"
    and "\<And>e xs. A (Inl e) xs \<Longrightarrow> Q (Inl e) xs"
    and "\<And>x xs r ys. A (Inr x) xs \<Longrightarrow> B x r ys \<Longrightarrow> Q r (xs @ ys)"
  shows "does Q (act_bind m f)"
  unfolding does_def
proof (intro allI impI)
  fix w r w' assume run: "act_bind m f w = (r, w')"
  obtain x v where m: "m w = (x, v)" by (cases "m w")
  from doesD [OF assms(1) m] obtain xs where xs: "aw_trace v = aw_trace w @ xs" "A x xs" by blast
  show "\<exists>new. aw_trace w' = aw_trace w @ new \<and> Q r new"
  proof (cases x)
    case (Inl e)
    with run m xs assms(3) show ?thesis by (auto simp: act_bind_Inl)
  next
    case (Inr y)
    with run m have "f y v = (r, w')" by (simp add: act_bind_Inr)
    from doesD [OF assms(2) this] xs Inr assms(4) show ?thesis by fastforce
  qed
qed

text \<open>A law that only the trace has to keep, whatever the outcome.\<close>

locale trace_law =
  fixes law :: "advance_step list \<Rightarrow> bool"
  assumes law_nil: "law []"
    and law_append: "\<And>xs ys. law xs \<Longrightarrow> law ys \<Longrightarrow> law (xs @ ys)"
begin

lemma kept_bind: "does (\<lambda>r. law) m \<Longrightarrow> (\<And>x. does (\<lambda>r. law) (f x)) \<Longrightarrow> does (\<lambda>r. law) (act_bind m f)"
  by (rule does_bind [where A = "\<lambda>r. law" and B = "\<lambda>x r. law"]) (auto intro: law_append)

lemma kept_return: "does (\<lambda>r. law) (act_return x)" and kept_lift: "does (\<lambda>r. law) (act_lift y)"
  and kept_look: "does (\<lambda>r. law) look" and kept_draw: "does (\<lambda>r. law) next_draw"
  and kept_set: "does (\<lambda>r. law) (set_files files)"
  by (auto simp: does_def look_def next_draw_def set_files_def law_nil)

lemma kept_note: "law [s] \<Longrightarrow> does (\<lambda>r. law) (note_step s)"
  by (simp add: does_def note_step_def)

lemmas kept_basic = kept_bind kept_return kept_lift kept_look kept_draw kept_set kept_note

lemma kept_system_call: "does (\<lambda>r. law) (system_call env msg)"
  and kept_put: "does (\<lambda>r. law) (put_node path node)"
  and kept_now: "does (\<lambda>r. law) (utc_now env)"
  and kept_stamp: "does (\<lambda>r. law) (stamp env)"
  and kept_clear: "does (\<lambda>r. law) (clear_dir env dir)"
  unfolding system_call_def put_node_def utc_now_def stamp_def clear_dir_def
  by (auto intro!: kept_basic split: option.split)

lemma kept_create_dir: "does (\<lambda>r. law) (create_dir_all env msg path)"
  unfolding create_dir_all_def by (auto intro!: kept_basic kept_system_call kept_put)

lemma kept_prepare: "does (\<lambda>r. law) (prepare_dirs env opts)"
  unfolding prepare_dirs_def
  by (auto intro!: kept_basic kept_clear kept_create_dir split: option.split)

lemmas kept_silent = kept_system_call kept_put kept_now kept_stamp

lemma kept_command:
  assumes "\<And>code. law [Ran role command envs code]"
  shows "does (\<lambda>r. law) (run_command_str_in_dir env role command envs file)"
  unfolding run_command_str_in_dir_def Let_def
  by (auto intro!: kept_basic kept_silent assms split: prod.split)

end

text \<open>A law under which summaries and sleeping are free.\<close>

locale work_law = trace_law +
  assumes law_summary: "\<And>v. law [SummaryWritten v]" and law_slept: "\<And>n. law [Slept n]"
begin

lemma kept_summary: "does (\<lambda>r. law) (write_summary env opts p)"
  unfolding write_summary_def by (auto intro!: kept_basic kept_silent law_summary)

lemma kept_sleep: "does (\<lambda>r. law) (sleep env n)"
  unfolding sleep_def by (auto intro!: kept_basic law_slept)

lemma kept_stamped: "does (\<lambda>r. law) (stamped env opts p)"
  unfolding stamped_def Let_def by (auto intro!: kept_basic kept_silent kept_summary)

lemma kept_heartbeat: "does (\<lambda>r. law) (write_heartbeat env opts reason resume digest p)"
  unfolding write_heartbeat_def by (rule kept_stamped)

lemma kept_report: "does (\<lambda>r. law) (report_status env opts p)"
  unfolding report_status_def by (auto intro!: kept_basic kept_summary)

lemma kept_announce: "does (\<lambda>r. law) (announce_tasks env opts manifest n tasks p)"
  unfolding announce_tasks_def Let_def by (auto intro!: kept_basic kept_silent kept_summary)

lemma kept_publish:
  assumes "\<And>command envs code. law [Ran PublishMain command envs code]"
  shows "does (\<lambda>r. law) (pulse_direct_main_publish env opts reason p)"
  unfolding pulse_direct_main_publish_def Let_def
  by (auto intro!: kept_basic kept_silent kept_summary kept_stamped kept_command assms)

lemma kept_append:
  assumes "\<And>entry. law [Recorded entry]"
  shows "does (\<lambda>r. law) (append_ledger env opts entry)"
  unfolding append_ledger_def
  by (auto intro!: kept_basic kept_silent assms split: option.split file_node.split)

lemma kept_recommended:
  assumes "\<And>command envs code. law [Ran TaskCommand command envs code]"
  shows "does (\<lambda>r. law) (run_recommended env opts n i tasks)"
proof (induction tasks arbitrary: i)
  case Nil
  show ?case unfolding run_recommended.simps by (rule kept_return)
next
  case (Cons task tasks)
  then show ?case by (auto simp: Let_def intro!: kept_basic kept_command assms)
qed

lemma kept_execute:
  assumes "\<And>command envs code. law [Ran TaskCommand command envs code]"
    and "\<And>command envs code. law [Ran TaskManifest command envs code]"
  shows "does (\<lambda>r. law) (execute_tasks env opts manifest n tasks p)"
  unfolding execute_tasks_def run_manifest_def Let_def
  by (auto intro!: kept_basic kept_command kept_recommended assms)

end

text \<open>A law that the generation of the next packet keeps as well is kept by rounds and runs.\<close>

locale round_law = work_law +
  fixes env :: advance_env and opts :: advance_options
  assumes law_work: "\<And>role command envs code. role \<in> {TaskCommand, TaskManifest, PublishMain} \<Longrightarrow> law [Ran role command envs code]"
    and law_entry: "\<And>entry. law [Recorded entry]"
    and law_generate: "\<And>reason p. does (\<lambda>r. law) (pulse_generate_next env opts reason p)"
begin

lemmas kept_parts = kept_basic kept_silent kept_summary kept_sleep kept_heartbeat kept_announce kept_report
  kept_execute [OF law_work law_work] kept_publish [OF law_work] kept_append [OF law_entry] law_generate

lemma kept_conclude: "does (\<lambda>r. law) (conclude_round env opts ev n count p)"
  unfolding conclude_round_def Let_def by (auto intro!: kept_parts split: prod.split)

lemma kept_work: "does (\<lambda>r. law) (work_round env opts ev n p)"
  unfolding work_round_def work_on_tasks_def Let_def by (auto intro!: kept_parts kept_conclude split: prod.split)

lemma kept_verified: "does (\<lambda>r. law) (verified_round env opts resume ev n p)"
  unfolding verified_round_def duplicate_round_def Let_def
  by (auto intro!: kept_parts kept_work split: option.split prod.split)

lemma kept_round: "does (\<lambda>r. law) (advance_round env opts n p)"
  unfolding advance_round_def Let_def by (auto intro!: kept_parts kept_verified)

lemma kept_loop: "does (\<lambda>r. law) (advance_loop env opts fuel n p)"
  by (induction fuel arbitrary: n p) (auto intro!: kept_basic kept_round split: round_end.split)

lemma kept_run: "does (\<lambda>r. law) (run_pulse_auto_advance env opts fuel)"
  unfolding run_pulse_auto_advance_def Let_def
  by (auto intro!: kept_parts kept_prepare kept_loop split: option.split)

end

subsection \<open>Commands\<close>

interpretation silent: trace_law "\<lambda>new. new = []"
  by unfold_locales auto

lemma command_does:
  "does (\<lambda>r new. (new = [] \<and> (\<exists>e. r = Inl e)) \<or> (\<exists>code. new = [Ran role command envs code] \<and> (\<forall>c. r = Inr c \<longrightarrow> c = code)))
    (run_command_str_in_dir env role command envs file)"
  unfolding does_def run_command_str_in_dir_def Let_def
  by (auto simp: act_bind_def next_draw_def look_def set_files_def note_step_def system_call_def put_node_def
      split: if_splits prod.splits sum.splits option.splits)

subsection \<open>Generation waits for the gate\<close>

text \<open>What happened last, as far as the gate is concerned.\<close>

datatype gate_phase = Idle | Updated | Loaded string

fun next_phase :: "advance_step \<Rightarrow> gate_phase" where
  "next_phase (GateLoaded s) = Loaded s"
| "next_phase (Ran UpdateGate command envs code) = (if code = 0 then Updated else Idle)"
| "next_phase _ = Idle"

definition updates_gate :: "advance_options \<Rightarrow> bool" where
  "updates_gate opts \<longleftrightarrow> ao_pr_ci_gate opts = 1 \<and> ao_update_gate opts = 1"

text \<open>The gate is loaded right after a successful update, where updates are on; the next packet is
  generated right after a gate that passed, and a local one right after a gate that waits.\<close>

fun step_allowed :: "advance_options \<Rightarrow> gate_phase \<Rightarrow> advance_step \<Rightarrow> bool" where
  "step_allowed opts phase (GateLoaded s) \<longleftrightarrow> phase = Updated \<or> \<not> updates_gate opts"
| "step_allowed opts phase (Ran GenerateNext command envs code) \<longleftrightarrow> phase = Loaded ''passed'' \<and> envs = []"
| "step_allowed opts phase (Ran GenerateLocalOnly command envs code) \<longleftrightarrow> phase = Loaded ''waiting'' \<and> ao_local_only opts
     \<and> envs = [(''AO2_PULSE_GENERATE_NEXT_LOCAL_ONLY'', ''1'')]"
| "step_allowed opts phase _ \<longleftrightarrow> True"

fun gated :: "advance_options \<Rightarrow> gate_phase \<Rightarrow> advance_step list \<Rightarrow> bool" where
  "gated opts phase [] \<longleftrightarrow> True"
| "gated opts phase (s # steps) \<longleftrightarrow> step_allowed opts phase s \<and> gated opts (next_phase s) steps"

lemma step_allowed_idle: "step_allowed opts Idle s \<Longrightarrow> step_allowed opts phase s"
  by (cases "(opts, phase, s)" rule: step_allowed.cases) auto

lemma gated_idle: "gated opts Idle steps \<Longrightarrow> gated opts phase steps"
  by (cases steps) (auto intro: step_allowed_idle)

lemma gated_append: "gated opts phase xs \<Longrightarrow> gated opts Idle ys \<Longrightarrow> gated opts phase (xs @ ys)"
  by (induction xs arbitrary: phase) (auto intro: gated_idle)

lemma gated_append_phase:
  "gated opts phase xs \<Longrightarrow> xs \<noteq> [] \<Longrightarrow> gated opts (next_phase (last xs)) ys \<Longrightarrow> gated opts phase (xs @ ys)"
  by (induction xs arbitrary: phase) (auto split: if_splits)

interpretation gating: work_law "gated opts Idle" for opts
  by unfold_locales (auto intro: gated_append)

lemma refresh_gated:
  "does (\<lambda>r new. gated opts Idle new \<and> (\<forall>p'. r = Inr (True, p') \<longrightarrow>
       (if new = [] then \<not> updates_gate opts else next_phase (last new) = Updated)))
     (refresh_pr_ci_gate env opts reason p)"
proof (cases "updates_gate opts")
  case False
  then show ?thesis by (auto simp: refresh_pr_ci_gate_def updates_gate_def does_def)
next
  case True
  let ?Q = "\<lambda>r new. gated opts Idle new \<and> (\<forall>p'. r = Inr (True, p') \<longrightarrow>
       (if new = [] then \<not> updates_gate opts else next_phase (last new) = Updated))"
  have tail: "does (\<lambda>r new. gated opts Idle new \<and> (\<forall>p'. r \<noteq> Inr (True, p')))
      (act_bind (stamped env opts q) (\<lambda>p2. act_return (False, p2)))" for q
    by (rule does_bind [OF gating.kept_stamped, where B = "\<lambda>x r new. new = [] \<and> (\<forall>p'. r \<noteq> Inr (True, p'))"])
      (auto simp: does_def)
  show ?thesis
    using True unfolding refresh_pr_ci_gate_def updates_gate_def Let_def
    apply simp
    apply (rule does_bind [OF silent.kept_stamp, where B = "\<lambda>x. ?Q"])
      apply (rule does_bind [OF command_does, where B = "\<lambda>c r new. if c = 0 then new = []
          else gated opts Idle new \<and> (\<forall>p'. r \<noteq> Inr (True, p'))"])
    subgoal for t code using tail by (auto simp: does_def)
    by (auto simp: updates_gate_def split: if_splits intro: gated_idle)
qed

text \<open>A command whose run a phase allows, followed by what every phase allows.\<close>

lemma command_gated:
  assumes "\<And>code. step_allowed opts phase (Ran role command envs code)" and "\<And>code. does (\<lambda>r. gated opts Idle) (f code)"
  shows "does (\<lambda>r. gated opts phase) (act_bind (run_command_str_in_dir env role command envs file) f)"
  by (rule does_bind [OF command_does, where B = "\<lambda>c r. gated opts Idle"]) (auto simp: assms intro: gated_idle)

lemma after_silent:
  assumes "does (\<lambda>r new. new = []) m" and "\<And>x. does Q (f x)" and "\<And>e. Q (Inl e) []"
  shows "does Q (act_bind m f)"
  by (rule does_bind [OF assms(1), where B = "\<lambda>x. Q"]) (use assms(2,3) in auto)

lemma generate_normally_gated: "does (\<lambda>r. gated opts (Loaded ''passed'')) (generate_normally env opts reason p)"
  unfolding generate_normally_def Let_def
  by (rule after_silent [OF silent.kept_stamp command_gated])
    (auto intro!: gating.kept_basic gating.kept_stamped)

lemma generate_local_only_gated:
  "ao_local_only opts \<Longrightarrow> does (\<lambda>r. gated opts (Loaded ''waiting'')) (generate_local_only env opts reason gate p)"
  unfolding generate_local_only_def Let_def
  by (rule after_silent [OF silent.kept_stamp command_gated])
    (auto intro!: gating.kept_basic gating.kept_stamped)

lemma load_gate_does:
  "does (\<lambda>r new. \<exists>gate. r = Inr gate \<and> new = [GateLoaded (pg_status gate)] \<and> gate_settled gate) (load_gate env opts reason)"
  by (auto simp: does_def load_gate_def look_def note_step_def act_bind_def Let_def intro: load_gate_settled)

lemma generate_gated: "does (\<lambda>r. gated opts Idle) (pulse_generate_next env opts reason p)"
proof (cases "\<not> ao_forever opts \<or> ao_generate_next opts \<noteq> 1")
  case True
  then show ?thesis
    unfolding pulse_generate_next_def by (simp only: if_True) (rule gating.kept_return)
next
  case False
  let ?rest = "\<lambda>p1 gate. let p2 = p1\<lparr>ar_gate := gate\<rparr> in
      if pg_status gate = ''passed'' then generate_normally env opts reason p2
      else if ao_local_only opts then generate_local_only env opts reason gate p2
      else act_bind (stamped env opts (generation_waits (pg_status gate) p2)) (\<lambda>p3. act_return (False, p3))"
  have rest: "does (\<lambda>r new. gate_settled gate \<longrightarrow> gated opts (Loaded (pg_status gate)) new) (?rest p1 gate)" for p1 gate
  proof (cases "pg_status gate = ''passed''")
    case True
    then show ?thesis by (auto intro: does_weaken [OF generate_normally_gated])
  next
    case False
    then have status: "gate_settled gate \<Longrightarrow> pg_status gate = ''waiting''" by (simp add: gate_settled_def)
    show ?thesis
    proof (cases "ao_local_only opts")
      case True
      with False show ?thesis
        by (auto simp: status intro: does_weaken [OF generate_local_only_gated])
    next
      case local: False
      have "does (\<lambda>r. gated opts Idle)
          (act_bind (stamped env opts (generation_waits (pg_status gate) (p1\<lparr>ar_gate := gate\<rparr>))) (\<lambda>p3. act_return (False, p3)))"
        by (intro gating.kept_basic gating.kept_stamped)
      then have "does (\<lambda>r new. gate_settled gate \<longrightarrow> gated opts (Loaded (pg_status gate)) new)
          (act_bind (stamped env opts (generation_waits (pg_status gate) (p1\<lparr>ar_gate := gate\<rparr>))) (\<lambda>p3. act_return (False, p3)))"
        by (rule does_weaken) (simp add: gated_idle)
      then show ?thesis using False local by (simp add: Let_def)
    qed
  qed
  have loaded: "does (\<lambda>r new. gated opts Updated new \<and> (\<not> updates_gate opts \<longrightarrow> gated opts Idle new))
      (act_bind (load_gate env opts reason) (?rest p1))" for p1
    by (rule does_bind [OF load_gate_does rest]) auto
  show ?thesis
    using False unfolding pulse_generate_next_def
    apply simp
    apply (rule does_bind [OF refresh_gated, where B = "\<lambda>x r new. if fst x
        then gated opts Updated new \<and> (\<not> updates_gate opts \<longrightarrow> gated opts Idle new) else new = []"])
    subgoal for x using loaded [of "snd x"] by (cases x) (auto simp: does_def)
    by (auto split: if_splits intro: gated_append_phase)
qed

interpretation gated_rounds: round_law "gated opts Idle" env opts for opts env
  by unfold_locales (auto intro: generate_gated)

text \<open>C9: In whatever happens in a run, the state of the gate is loaded right after an update of it
  that succeeded, where updates are on; the next packet is generated right after a gate that
  passed; and a packet is generated in spite of a gate that waits only with the option that keeps
  it local, and told so.\<close>

theorem generation_waits_for_the_gate:
  assumes "run_pulse_auto_advance env opts fuel w = (r, w')"
  shows "\<exists>new. aw_trace w' = aw_trace w @ new \<and> gated opts Idle new"
  using doesD [OF gated_rounds.kept_run assms] .

subsection \<open>Work and entries\<close>

fun is_work :: "advance_step \<Rightarrow> bool" where
  "is_work (Ran role command envs code) \<longleftrightarrow> role = TaskCommand \<or> role = TaskManifest"
| "is_work _ \<longleftrightarrow> False"

definition work_steps :: "advance_step list \<Rightarrow> advance_step list" where
  "work_steps new = filter is_work new"

fun entry_of :: "advance_step \<Rightarrow> ledger_entry option" where
  "entry_of (Recorded e) = Some e"
| "entry_of _ = None"

definition entries :: "advance_step list \<Rightarrow> ledger_entry list" where
  "entries new = List.map_filter entry_of new"

lemma work_steps_simps [simp]: "work_steps [] = []" "work_steps (s # new) = (if is_work s then [s] else []) @ work_steps new"
    "work_steps (xs @ ys) = work_steps xs @ work_steps ys"
  by (simp_all add: work_steps_def)

lemma entries_simps [simp]: "entries [] = []" "entries (xs @ ys) = entries xs @ entries ys"
    "entries (s # new) = (case entry_of s of None \<Rightarrow> [] | Some e \<Rightarrow> [e]) @ entries new"
  by (simp_all add: entries_def map_filter_simps split: option.split) (simp add: List.map_filter_def)

text \<open>Steps with neither.\<close>

definition idle :: "advance_step list \<Rightarrow> bool" where
  "idle new \<longleftrightarrow> work_steps new = [] \<and> entries new = []"

interpretation idling: work_law idle
  by unfold_locales (auto simp: idle_def)

lemma idle_generate: "does (\<lambda>r. idle) (pulse_generate_next env opts reason p)"
  unfolding pulse_generate_next_def refresh_pr_ci_gate_def load_gate_def generate_normally_def
    generate_local_only_def Let_def
  by (auto intro!: idling.kept_basic idling.kept_silent idling.kept_command idling.kept_stamped
      simp: idle_def split: prod.split)

lemma idle_publish: "does (\<lambda>r. idle) (pulse_direct_main_publish env opts reason p)"
  by (rule idling.kept_publish) (simp add: idle_def)

text \<open>The runs of the tasks: a prefix of the recommended commands, in their order, that goes on only
  after successes, or the one run of the executor of the manifest.\<close>

definition task_runs :: "json list \<Rightarrow> int list \<Rightarrow> advance_step list" where
  "task_runs tasks codes = map2 (\<lambda>task code. Ran TaskCommand (task_command task) [] code) tasks codes"

definition tasks_ran :: "json list \<Rightarrow> bool \<Rightarrow> advance_step list \<Rightarrow> bool" where
  "tasks_ran tasks all_done steps \<longleftrightarrow>
     (\<exists>codes. steps = task_runs tasks codes \<and> length codes \<le> length tasks \<and> set (butlast codes) \<subseteq> {0}
        \<and> (all_done \<longrightarrow> length codes = length tasks \<and> set codes \<subseteq> {0}))
     \<or> (\<exists>envs code. steps = [Ran TaskManifest executor_command envs code] \<and> (all_done \<longrightarrow> code = 0))"

lemma task_runs_simps [simp]: "task_runs tasks [] = []"
    "task_runs (task # tasks) (code # codes) = Ran TaskCommand (task_command task) [] code # task_runs tasks codes"
  by (simp_all add: task_runs_def)

lemma work_of_task_runs [simp]: "work_steps (task_runs tasks codes) = task_runs tasks codes"
  by (auto simp: task_runs_def work_steps_def filter_id_conv dest: set_zip_rightD)

lemma entries_of_task_runs [simp]: "entries (task_runs tasks codes) = []"
  by (induction tasks codes rule: list_induct2') (simp_all add: task_runs_def)

lemma verdict_passed [simp]: "verdict code = ''passed'' \<longleftrightarrow> code = 0"
  by (simp add: verdict_def)

lemma recommended_does:
  "does (\<lambda>r new. \<exists>codes. new = task_runs tasks codes \<and> length codes \<le> length tasks \<and> set (butlast codes) \<subseteq> {0}
      \<and> (\<forall>results. r = Inr results \<longrightarrow> all_passed (length tasks) results \<longrightarrow> length codes = length tasks \<and> set codes \<subseteq> {0}))
    (run_recommended env opts n i tasks)"
proof (induction tasks arbitrary: i)
  case Nil
  then show ?case by (auto simp: does_def)
next
  case (Cons task tasks)
  let ?Q = "\<lambda>tasks r new. \<exists>codes. new = task_runs tasks codes \<and> length codes \<le> length tasks \<and> set (butlast codes) \<subseteq> {0}
      \<and> (\<forall>results. r = Inr results \<longrightarrow> all_passed (length tasks) results \<longrightarrow> length codes = length tasks \<and> set codes \<subseteq> {0})"
  let ?R = "\<lambda>code r new. if code \<noteq> 0 then new = [] \<and> (\<forall>results. r = Inr results \<longrightarrow> \<not> all_passed (Suc (length tasks)) results)
    else \<exists>codes. new = task_runs tasks codes \<and> length codes \<le> length tasks \<and> set (butlast codes) \<subseteq> {0}
      \<and> (\<forall>results. r = Inr results \<longrightarrow> all_passed (Suc (length tasks)) results \<longrightarrow> length codes = length tasks \<and> set codes \<subseteq> {0})"
  show ?case
  proof (cases "task_command task = []")
    case True
    then show ?thesis
      by (auto simp: does_def all_passed_def missing_command_def intro!: exI [of _ "[]"])
  next
    case False
    let ?log = "task_log env opts n i (get_str_or task ''id'' [])"
    have tail: "does (?R code) (let result = command_result n i task code ?log in
        if code \<noteq> 0 then act_return [result]
        else act_bind (run_recommended env opts n (Suc i) tasks) (\<lambda>results. act_return (result # results)))" for code
    proof (cases "code = 0")
      case True
      have "does (?R 0) (act_bind (run_recommended env opts n (Suc i) tasks)
          (\<lambda>results. act_return (command_result n i task 0 ?log # results)))"
        by (rule does_bind [OF Cons.IH, where B = "\<lambda>results r new. new = [] \<and> r = Inr (command_result n i task 0 ?log # results)"])
          (auto simp: does_def all_passed_def)
      with True show ?thesis by (simp add: Let_def)
    qed (auto simp: does_def all_passed_def command_result_def)
    have cons: "?Q (task # tasks) r ([Ran TaskCommand (task_command task) [] code] @ new)"
      if rest: "?R code r new" for code r new
    proof (cases "code = 0")
      case True
      with rest obtain codes where "new = task_runs tasks codes" "length codes \<le> length tasks"
        "set (butlast codes) \<subseteq> {0}"
        "\<And>results. r = Inr results \<Longrightarrow> all_passed (Suc (length tasks)) results \<Longrightarrow> length codes = length tasks \<and> set codes \<subseteq> {0}"
        by auto
      then show ?thesis using True by (intro exI [of _ "0 # codes"]) auto
    next
      case False
      with rest show ?thesis by (intro exI [of _ "[code]"]) auto
    qed
    show ?thesis
      using False tail cons unfolding run_recommended.simps Let_def
      by (simp only: if_False, intro does_bind [OF command_does, where B = ?R])
        (auto intro: exI [of _ "[]"] exI [of _ "[code]" for code])
  qed
qed

lemma manifest_does:
  "does (\<lambda>r new. new = [] \<and> (\<exists>e. r = Inl e) \<or> (\<exists>envs code. new = [Ran TaskManifest executor_command envs code]
      \<and> (\<forall>results. r = Inr results \<longrightarrow> all_passed 1 results \<longrightarrow> code = 0)))
    (run_manifest env opts n manifest)"
  unfolding run_manifest_def Let_def
  by (rule does_bind [OF command_does, where B = "\<lambda>code r new. new = [] \<and> (\<forall>results. r = Inr results \<longrightarrow> all_passed 1 results \<longrightarrow> code = 0)"])
    (auto simp: does_def all_passed_def)

lemma execute_does:
  "does (\<lambda>r new. entries new = [] \<and> tasks_ran tasks (\<exists>p'. r = Inr (True, p')) (work_steps new))
    (execute_tasks env opts manifest n tasks p)"
proof -
  let ?T = "\<lambda>structured r new. entries new = [] \<and> work_steps new = new
    \<and> tasks_ran tasks (\<exists>results. r = Inr results \<and> all_passed (if structured then 1 else length tasks) results) new"
  have ran: "does (?T structured)
      (if structured then run_manifest env opts n manifest else run_recommended env opts n 1 tasks)" for structured
  proof (cases structured)
    case True
    have "does (?T True) (run_manifest env opts n manifest)"
      by (rule does_weaken [OF manifest_does]) (auto simp: tasks_ran_def intro: exI [of _ "[]"])
    with True show ?thesis by simp
  next
    case False
    have "does (?T False) (run_recommended env opts n 1 tasks)"
      by (rule does_weaken [OF recommended_does]) (auto simp: tasks_ran_def)
    with False show ?thesis by simp
  qed
  show ?thesis
    unfolding execute_tasks_def
  proof (rule after_silent [OF silent.kept_look])
    fix files :: pulse_tree
    let ?s = "node_is_file (files manifest)"
    show "does (\<lambda>r new. entries new = [] \<and> tasks_ran tasks (\<exists>p'. r = Inr (True, p')) (work_steps new))
      (let structured = ?s in
       act_bind (if structured then run_manifest env opts n manifest else run_recommended env opts n 1 tasks) (\<lambda>results.
       let p' = p\<lparr>ar_execution_mode := Some (if structured then ''structured_manifest'' else ''recommended_tasks''),
         ar_results := ar_results p @ results\<rparr> in
       act_return (all_passed (if structured then 1 else length tasks) results, p')))"
      unfolding Let_def
      by (rule does_bind [OF ran, where B = "\<lambda>results r new. new = [] \<and>
          (\<forall>p'. r = Inr (True, p') \<longrightarrow> all_passed (if ?s then 1 else length tasks) results)"])
        (auto simp: does_def tasks_ran_def)
  qed (auto simp: tasks_ran_def intro: exI [of _ "[]"])
qed

lemma append_does:
  "does (\<lambda>r new. if r = Inr () then new = [Recorded e] else new = []) (append_ledger env opts e)"
  by (auto simp: does_def append_ledger_def act_bind_def look_def system_call_def next_draw_def put_node_def set_files_def
      note_step_def split: sum.splits option.splits file_node.splits)

text \<open>The end of a round whose tasks have passed: at most one entry, and the loop goes on only after it.\<close>

definition concluded ::
    "advance_options \<Rightarrow> round_evidence \<Rightarrow> nat \<Rightarrow> nat \<Rightarrow> round_end rresult \<Rightarrow> advance_step list \<Rightarrow> bool" where
  "concluded opts ev n count r new \<longleftrightarrow> work_steps new = []
     \<and> (entries new = [] \<or> (\<exists>e. entries new = [e] \<and> le_eval_sha256 e = rv_eval_sha256 ev \<and> le_task_count e = count))
     \<and> (\<forall>n' p'. r = Inr (Again n' p') \<longrightarrow> n' = n \<and> ao_forever opts \<and> entries new \<noteq> []
          \<and> (max_iterations opts = 0 \<or> n < max_iterations opts))"

definition onward :: "advance_options \<Rightarrow> nat \<Rightarrow> round_end rresult \<Rightarrow> advance_step list \<Rightarrow> bool" where
  "onward opts n r new \<longleftrightarrow> idle new \<and> (\<forall>n' p'. r = Inr (Again n' p') \<longrightarrow> n' = n \<and> ao_forever opts
     \<and> (max_iterations opts = 0 \<or> n < max_iterations opts))"

lemma onward_bind: "does (\<lambda>r. idle) m \<Longrightarrow> (\<And>x. does (onward opts n) (f x)) \<Longrightarrow> does (onward opts n) (act_bind m f)"
  by (rule does_bind [where A = "\<lambda>r. idle" and B = "\<lambda>x. onward opts n"]) (auto simp: onward_def idle_def)

lemma onward_finished: "does (onward opts n) (act_return (Finished q))"
  by (simp add: does_def onward_def idle_def)

lemma onward_slept:
  assumes "ao_forever opts" and "max_iterations opts = 0 \<or> n < max_iterations opts"
  shows "does (onward opts n) (act_bind (sleep env k) (\<lambda>_. act_return (Again n q)))"
  by (rule onward_bind [OF idling.kept_sleep]) (use assms in \<open>auto simp: does_def onward_def idle_def\<close>)

lemma conclude_does: "does (concluded opts ev n count) (conclude_round env opts ev n count p)"
proof -
  have rest: "does (onward opts n) (act_bind (pulse_direct_main_publish env opts ''completed_iteration'' p) (\<lambda>(published, p1).
     if \<not> published then act_return (Finished p1)
     else if \<not> ao_forever opts then act_return (Finished (p1\<lparr>ar_status := ''passed''\<rparr>))
     else if max_iterations opts > 0 \<and> n \<ge> max_iterations opts
     then act_return (Finished (ended_as ''passed'' ''max_iterations_reached'' p1))
     else
     act_bind (pulse_generate_next env opts ''completed_iteration'' p1) (\<lambda>(generated, p2).
     if generated then act_bind (sleep env (generate_sleep opts)) (\<lambda>_. act_return (Again n p2))
     else if ar_reason p2 = Some waiting_reason then act_return (Finished p2)
     else
     let p3 = ended_as ''waiting'' ''waiting_for_new_eval_loop_digest'' p2 in
     act_bind (write_summary env opts p3) (\<lambda>_.
     act_bind (sleep env (ao_sleep_seconds opts)) (\<lambda>_. act_return (Again n p3))))))"
    unfolding Let_def
    by (rule onward_bind [OF idle_publish])
      (auto intro!: onward_slept onward_bind [OF idle_generate] onward_bind [OF idling.kept_summary] onward_finished
        split: prod.split)
  show ?thesis
    unfolding conclude_round_def
    apply (rule after_silent [OF silent.kept_now])
     apply (rule does_bind [OF append_does, where B = "\<lambda>_. onward opts n"])
       apply (rule rest)
    by (auto simp: concluded_def onward_def idle_def split: if_splits)
qed

text \<open>The whole work of a round.\<close>

definition worked ::
    "advance_options \<Rightarrow> round_evidence \<Rightarrow> json list \<Rightarrow> nat \<Rightarrow> round_end rresult \<Rightarrow> advance_step list \<Rightarrow> bool" where
  "worked opts ev tasks n r new \<longleftrightarrow> tasks_ran tasks (entries new \<noteq> []) (work_steps new)
     \<and> (entries new = [] \<or> (\<exists>e. entries new = [e] \<and> le_eval_sha256 e = rv_eval_sha256 ev \<and> le_task_count e = length tasks))
     \<and> (\<forall>n' p'. r = Inr (Again n' p') \<longrightarrow> n' = n \<and> ao_forever opts \<and> entries new \<noteq> []
          \<and> (max_iterations opts = 0 \<or> n < max_iterations opts))"

lemma tasks_ran_nothing [simp]: "tasks_ran tasks False []"
  by (auto simp: tasks_ran_def intro: exI [of _ "[]"])

lemma tasks_ran_less: "tasks_ran tasks b steps \<Longrightarrow> tasks_ran tasks False steps"
  by (auto simp: tasks_ran_def)

lemma work_does: "does (worked opts ev tasks n) (work_on_tasks env opts ev n tasks p)"
proof -
  let ?R = "\<lambda>passed r new. if passed then concluded opts ev n (length tasks) r new
    else new = [] \<and> (\<exists>q. r = Inr (Finished q))"
  have executed: "does (worked opts ev tasks n)
      (act_bind (execute_tasks env opts (manifest_path (rv_eval_path ev)) n tasks p1) (\<lambda>(passed, p2).
      if \<not> passed then act_return (Finished (ended_as ''failed'' ''task_failed'' p2))
      else conclude_round env opts ev n (length tasks) (p2\<lparr>ar_completed_iterations := n\<rparr>)))" for p1
  proof (rule does_bind [OF execute_does, where B = "\<lambda>x. ?R (fst x)"])
    fix x :: "bool \<times> advance_run"
    show "does (?R (fst x)) (case x of (passed, p2) \<Rightarrow>
      if \<not> passed then act_return (Finished (ended_as ''failed'' ''task_failed'' p2))
      else conclude_round env opts ev n (length tasks) (p2\<lparr>ar_completed_iterations := n\<rparr>))"
      using conclude_does by (cases x) (auto simp: does_def)
  qed (auto simp: worked_def concluded_def split: if_splits intro: tasks_ran_less)
  show ?thesis
    unfolding work_on_tasks_def Let_def
    apply (rule does_bind [OF idling.kept_announce, where B = "\<lambda>x. worked opts ev tasks n"])
      apply (rule executed)
    by (auto simp: worked_def idle_def)
qed

text \<open>The documents that a round may work on.\<close>

definition may_work ::
    "advance_env \<Rightarrow> advance_options \<Rightarrow> pulse_tree \<Rightarrow> round_evidence \<Rightarrow> json list \<Rightarrow> bool" where
  "may_work env opts files ev tasks \<longleftrightarrow> files (ao_stop_file opts) = None
     \<and> (\<exists>resume rel eval_loop. read_json env files (ao_resume_json opts) = Inr resume
        \<and> get_str resume ''pulse_eval_loop_path'' = Some rel
        \<and> gather_evidence env opts files resume (path_join (resume_parent opts) rel) = Inr ev
        \<and> evidence_refusal resume ev = None \<and> decided_to_stop env opts files = Inr False
        \<and> (rv_eval_sha256 ev \<notin> set (load_seen env files (ao_ledger opts)) \<or> ao_allow_duplicate opts)
        \<and> read_json env files (rv_eval_path ev) = Inr eval_loop \<and> tasks = recommended_tasks eval_loop \<and> tasks \<noteq> [])"

definition rests :: "advance_options \<Rightarrow> nat \<Rightarrow> round_end rresult \<Rightarrow> advance_step list \<Rightarrow> bool" where
  "rests opts n r new \<longleftrightarrow> idle new \<and> (\<forall>n' p'. r = Inr (Again n' p') \<longrightarrow> n' = n \<and> ao_forever opts)"

lemma rests_bind: "does (\<lambda>r. idle) m \<Longrightarrow> (\<And>x. does (rests opts n) (f x)) \<Longrightarrow> does (rests opts n) (act_bind m f)"
  by (rule does_bind [where A = "\<lambda>r. idle" and B = "\<lambda>x. rests opts n"]) (auto simp: rests_def idle_def)

lemma rests_finished: "does (rests opts n) (act_return (Finished q))"
  by (simp add: does_def rests_def idle_def)

lemma rests_again: "ao_forever opts \<Longrightarrow> does (rests opts n) (act_return (Again n q))"
  by (simp add: does_def rests_def idle_def)

lemma duplicate_rests: "does (rests opts n) (duplicate_round env opts resume ev n p)"
  unfolding duplicate_round_def
  by (auto intro!: rests_finished rests_again rests_bind [OF idle_generate] rests_bind [OF idling.kept_sleep]
      rests_bind [OF idling.kept_heartbeat] split: prod.split)

lemma absent_rests:
  "ao_forever opts \<Longrightarrow> does (rests opts n) (act_bind (write_heartbeat env opts why None None p) (\<lambda>p1.
    act_bind (sleep env k) (\<lambda>_. act_return (Again n p1))))"
  by (auto intro!: rests_again rests_bind [OF idling.kept_sleep] rests_bind [OF idling.kept_heartbeat])

text \<open>A round rests, or works on what it may work on.\<close>

lemma rests_step: "does (rests opts n) m \<Longrightarrow> m w = (r, w') \<Longrightarrow> \<exists>new. aw_trace w' = aw_trace w @ new \<and> rests opts n r new"
  by (rule doesD)

lemma verified_cases:
  assumes "verified_round env opts resume ev n p w = (r, w')"
    and "aw_files w (ao_stop_file opts) = None" "read_json env (aw_files w) (ao_resume_json opts) = Inr resume"
      "get_str resume ''pulse_eval_loop_path'' = Some rel"
      "gather_evidence env opts (aw_files w) resume (path_join (resume_parent opts) rel) = Inr ev"
  shows "(\<exists>new. aw_trace w' = aw_trace w @ new \<and> rests opts n r new)
    \<or> (\<exists>tasks q. may_work env opts (aw_files w) ev tasks \<and> work_on_tasks env opts ev (Suc n) tasks q w = (r, w'))"
proof (cases "evidence_refusal resume ev")
  case (Some why)
  with assms(1) show ?thesis by (auto simp: verified_round_def Let_def rests_def idle_def)
next
  case None
  let ?p = "report_evidence resume ev p"
  have run: "act_bind (act_lift (decided_to_stop env opts (aw_files w))) (\<lambda>stop.
          if stop then act_return (Finished (ended_as ''stopped'' ''readiness_exit_gate_satisfied'' ?p))
          else if rv_eval_sha256 ev \<in> set (load_seen env (aw_files w) (ao_ledger opts)) \<and> \<not> ao_allow_duplicate opts
          then duplicate_round env opts resume ev n ?p
          else work_round env opts ev n ?p) w = (r, w')"
    using assms(1) None by (simp add: verified_round_def Let_def act_bind_def look_def)
  show ?thesis
  proof (cases "decided_to_stop env opts (aw_files w) = Inr False")
    case False
    with run show ?thesis
      by (cases "decided_to_stop env opts (aw_files w)") (auto simp: act_bind_def rests_def idle_def)
  next
    case go: True
    show ?thesis
    proof (cases "rv_eval_sha256 ev \<in> set (load_seen env (aw_files w) (ao_ledger opts)) \<and> \<not> ao_allow_duplicate opts")
      case True
      with run go have "duplicate_round env opts resume ev n ?p w = (r, w')" by (simp add: act_bind_def)
      from rests_step [OF duplicate_rests this] show ?thesis by blast
    next
      case False
      with run go have work: "work_round env opts ev n ?p w = (r, w')" by (auto simp: act_bind_def)
      show ?thesis
      proof (cases "read_json env (aw_files w) (rv_eval_path ev)")
        case (Inl e)
        with work show ?thesis by (auto simp: work_round_def act_bind_def look_def rests_def idle_def)
      next
        case (Inr eval_loop)
        show ?thesis
        proof (cases "recommended_tasks eval_loop = []")
          case True
          with work Inr show ?thesis by (auto simp: work_round_def act_bind_def look_def rests_def idle_def)
        next
          case some: False
          with work Inr have "work_on_tasks env opts ev (Suc n) (recommended_tasks eval_loop) ?p w = (r, w')"
            by (simp add: work_round_def act_bind_def look_def)
          moreover have "may_work env opts (aw_files w) ev (recommended_tasks eval_loop)"
            using assms(2-5) None go False Inr some unfolding may_work_def by blast
          ultimately show ?thesis by blast
        qed
      qed
    qed
  qed
qed

lemma round_cases:
  assumes "advance_round env opts n p w = (r, w')"
  shows "(\<exists>new. aw_trace w' = aw_trace w @ new \<and> rests opts n r new)
    \<or> (\<exists>ev tasks q. may_work env opts (aw_files w) ev tasks \<and> work_on_tasks env opts ev (Suc n) tasks q w = (r, w'))"
proof (cases "aw_files w (ao_stop_file opts) = None")
  case False
  with assms show ?thesis by (auto simp: advance_round_def act_bind_def look_def rests_def idle_def)
next
  case no_stop: True
  show ?thesis
  proof (cases "node_is_file (aw_files w (ao_resume_json opts))")
    case False
    show ?thesis
    proof (cases "ao_forever opts")
      case True
      with assms no_stop False have "act_bind (write_heartbeat env opts ''waiting_for_resume_json'' None None p) (\<lambda>p1.
          act_bind (sleep env (ao_sleep_seconds opts)) (\<lambda>_. act_return (Again n p1))) w = (r, w')"
        by (simp add: advance_round_def act_bind_Inr [where m = look] look_def)
      from rests_step [OF absent_rests [OF True] this] show ?thesis by blast
    qed (use assms no_stop False in \<open>auto simp: advance_round_def act_bind_def look_def rests_def idle_def\<close>)
  next
    case resume_file: True
    show ?thesis
    proof (cases "read_json env (aw_files w) (ao_resume_json opts)")
      case (Inl e)
      with assms no_stop resume_file show ?thesis
        by (auto simp: advance_round_def act_bind_def look_def rests_def idle_def)
    next
      case read: (Inr resume)
      show ?thesis
      proof (cases "get_str resume ''pulse_eval_loop_path''")
        case None
        with assms no_stop resume_file read show ?thesis
          by (auto simp: advance_round_def act_bind_def look_def with_context_def rests_def idle_def)
      next
        case (Some rel)
        let ?path = "path_join (resume_parent opts) rel"
        have run: "(if \<not> node_is_file (aw_files w ?path)
            then act_return (Finished (because (''eval_loop_path_missing: '' @ ?path) p))
            else act_bind (act_lift (gather_evidence env opts (aw_files w) resume ?path)) (\<lambda>ev.
              verified_round env opts resume ev n p)) w = (r, w')"
          using assms no_stop resume_file read Some
          by (simp add: advance_round_def act_bind_def look_def with_context_def Let_def)
        show ?thesis
        proof (cases "gather_evidence env opts (aw_files w) resume ?path")
          case (Inl e)
          with run show ?thesis by (auto simp: act_bind_def rests_def idle_def split: if_splits)
        next
          case (Inr ev)
          show ?thesis
          proof (cases "node_is_file (aw_files w ?path)")
            case True
            with run Inr have "verified_round env opts resume ev n p w = (r, w')" by (simp add: act_bind_def)
            from verified_cases [OF this no_stop read Some Inr] show ?thesis by blast
          qed (use run in \<open>auto simp: rests_def idle_def\<close>)
        qed
      qed
    qed
  qed
qed

subsection \<open>Only verified documents are worked on\<close>

text \<open>What verified means, by the bytes of the files.\<close>

definition verified_document ::
    "advance_env \<Rightarrow> advance_options \<Rightarrow> pulse_tree \<Rightarrow> string \<Rightarrow> json list \<Rightarrow> bool" where
  "verified_document env opts files digest tasks \<longleftrightarrow> files (ao_stop_file opts) = None
     \<and> (\<exists>resume rel bytes eval_loop. read_json env files (ao_resume_json opts) = Inr resume
        \<and> get_str resume ''pulse_eval_loop_path'' = Some rel
        \<and> read_bytes (files (path_join (resume_parent opts) rel)) = Inr bytes
        \<and> digest = ae_sha256 env bytes \<and> get_str_or resume ''pulse_eval_loop_sha256'' [] = digest
        \<and> (let prompt = files (path_join (resume_parent opts) (get_str_or resume ''operator_prompt_path'' ''operator-prompt.txt''))
           in if node_is_file prompt
              then \<exists>text. read_bytes prompt = Inr text \<and> get_str resume ''operator_prompt_sha256'' = Some (ae_sha256 env text)
              else get_str resume ''operator_prompt_sha256'' = None)
        \<and> continues_until_exit_gate resume \<and> decided_to_stop env opts files = Inr False
        \<and> (digest \<in> set (load_seen env files (ao_ledger opts)) \<longrightarrow> ao_allow_duplicate opts)
        \<and> ae_parse env bytes = Inr eval_loop \<and> tasks = recommended_tasks eval_loop)"

lemma gather_ok:
  assumes "gather_evidence env opts files resume path = Inr ev" and "evidence_refusal resume ev = None"
  shows "rv_eval_path ev = path"
    and "\<exists>bytes. read_bytes (files path) = Inr bytes \<and> rv_eval_sha256 ev = ae_sha256 env bytes
      \<and> get_str_or resume ''pulse_eval_loop_sha256'' [] = rv_eval_sha256 ev"
    and "let prompt = files (path_join (resume_parent opts) (get_str_or resume ''operator_prompt_path'' ''operator-prompt.txt''))
      in if node_is_file prompt
         then \<exists>text. read_bytes prompt = Inr text \<and> get_str resume ''operator_prompt_sha256'' = Some (ae_sha256 env text)
         else get_str resume ''operator_prompt_sha256'' = None"
    and "continues_until_exit_gate resume"
  using assms
  by (auto simp: gather_evidence_def evidence_refusal_def eval_matches_def prompt_matches_def sha256_path_def Let_def
      rbind_def split: if_splits sum.splits)

lemma may_work_verified:
  assumes "may_work env opts files ev tasks"
  shows "verified_document env opts files (rv_eval_sha256 ev) tasks"
proof -
  from assms obtain resume rel eval_loop where ok: "files (ao_stop_file opts) = None"
    "read_json env files (ao_resume_json opts) = Inr resume" "get_str resume ''pulse_eval_loop_path'' = Some rel"
    "gather_evidence env opts files resume (path_join (resume_parent opts) rel) = Inr ev"
    "evidence_refusal resume ev = None" "decided_to_stop env opts files = Inr False"
    "rv_eval_sha256 ev \<notin> set (load_seen env files (ao_ledger opts)) \<or> ao_allow_duplicate opts"
    "read_json env files (rv_eval_path ev) = Inr eval_loop" "tasks = recommended_tasks eval_loop"
    unfolding may_work_def by blast
  note ev = gather_ok [OF ok(4,5)]
  from ev(2) obtain bytes where bytes: "read_bytes (files (path_join (resume_parent opts) rel)) = Inr bytes"
    "rv_eval_sha256 ev = ae_sha256 env bytes" "get_str_or resume ''pulse_eval_loop_sha256'' [] = rv_eval_sha256 ev" by blast
  moreover from this(1) ok(8) ev(1) have "ae_parse env bytes = Inr eval_loop"
    by (auto simp: read_json_def read_text_def rbind_def split: if_splits)
  ultimately show ?thesis
    using ok(1-3,6,7,9) ev(3,4) unfolding verified_document_def by blast
qed

text \<open>C8: A round runs tasks, or enters anything in the ledger, only when at its start there is no stop
  file, the evaluation document and the operator prompt have the digests that the resume document
  states, the document asks to continue, no decision stops it, and its digest is not in the ledger
  already unless duplicates are allowed.  Then the commands that run are a prefix of the
  recommended ones in their order, each but the last having succeeded, or the one run of the
  manifest's executor; and an entry, at most one and of that digest, is made only when all of
  them ran and succeeded.\<close>

theorem work_needs_a_verified_document:
  assumes "advance_round env opts n p w = (r, w')"
  shows "\<exists>new. aw_trace w' = aw_trace w @ new
    \<and> (work_steps new = [] \<and> entries new = []
       \<or> (\<exists>digest tasks. verified_document env opts (aw_files w) digest tasks
            \<and> tasks_ran tasks (entries new \<noteq> []) (work_steps new)
            \<and> (entries new = [] \<or> (\<exists>e. entries new = [e] \<and> le_eval_sha256 e = digest \<and> le_task_count e = length tasks))))"
  using round_cases [OF assms]
proof (elim disjE exE conjE)
  fix ev tasks q
  assume may: "may_work env opts (aw_files w) ev tasks" and "work_on_tasks env opts ev (Suc n) tasks q w = (r, w')"
  from doesD [OF work_does this(2)] obtain new where "aw_trace w' = aw_trace w @ new" "worked opts ev tasks (Suc n) r new" by blast
  with may_work_verified [OF may] show ?thesis unfolding worked_def by blast
qed (auto simp: rests_def idle_def)

subsection \<open>The end of a run\<close>

lemma round_counts:
  assumes "advance_round env opts n p w = (r, w')"
  shows "\<exists>new. aw_trace w' = aw_trace w @ new \<and> length (entries new) \<le> 1
    \<and> (\<forall>n' p'. r = Inr (Again n' p') \<longrightarrow> ao_forever opts \<and> n' = n + length (entries new)
        \<and> (n' = n \<or> max_iterations opts = 0 \<or> n' < max_iterations opts))"
  using round_cases [OF assms]
proof (elim disjE exE conjE)
  fix ev tasks q
  assume "work_on_tasks env opts ev (Suc n) tasks q w = (r, w')"
  from doesD [OF work_does this] obtain new where "aw_trace w' = aw_trace w @ new" "worked opts ev tasks (Suc n) r new" by blast
  then show ?thesis by (auto simp: worked_def intro!: exI [of _ new])
qed (auto simp: rests_def idle_def)

text \<open>A run that is not to go on for ever ends after one round.\<close>

lemma one_round:
  assumes "\<not> ao_forever opts"
  shows "advance_loop env opts (Suc fuel) n p w = advance_loop env opts 1 n p w \<and> fst (advance_loop env opts 1 n p w) \<noteq> Inr None"
proof -
  obtain r w' where round: "advance_round env opts n p w = (r, w')" by (cases "advance_round env opts n p w")
  from round_counts [OF this] assms have "\<And>n' p'. r \<noteq> Inr (Again n' p')" by blast
  then show ?thesis
    using round by (auto simp: act_bind_def split: sum.split round_end.split)
qed

text \<open>C33: A run that is not to go on for ever ends: one round is enough, more fuel changes nothing.\<close>

theorem single_run_ends:
  assumes "\<not> ao_forever opts"
  shows "run_pulse_auto_advance env opts (Suc fuel) w = run_pulse_auto_advance env opts 1 w
    \<and> fst (run_pulse_auto_advance env opts 1 w) \<noteq> Inr None"
proof -
  note once = one_round [OF assms]
  have same: "advance_loop env opts (Suc fuel) n p = advance_loop env opts 1 n p" for n p
    using once by blast
  have "fst (act_bind (advance_loop env opts 1 n p) (\<lambda>outcome. case outcome of
       None \<Rightarrow> act_return None | Some p' \<Rightarrow> report_status env opts p') v) \<noteq> Inr None" for n p v
    using once [of env fuel n p v]
    by (auto simp: act_bind_def report_status_def split: sum.split prod.split option.split)
  moreover have "fst (report_status env opts p v) \<noteq> Inr None" for p v
    by (auto simp: act_bind_def report_status_def split: sum.split prod.split)
  ultimately show ?thesis
    unfolding run_pulse_auto_advance_def same Let_def
    by (auto simp: act_bind_def [where m = "prepare_dirs env opts"] act_bind_def [where m = "utc_now env"]
        act_bind_def [where m = look] split: sum.split prod.split)
qed

lemma loop_counts:
  assumes "n < limit" and "if ao_forever opts then limit = max_iterations opts else limit = Suc n"
  shows "does (\<lambda>r new. n + length (entries new) \<le> limit) (advance_loop env opts fuel n p)"
  using assms
proof (induction fuel arbitrary: n p)
  case 0
  then show ?case by (simp add: does_def)
next
  case (Suc fuel)
  show ?case
    unfolding does_def
  proof (intro allI impI)
    fix w r w' assume loop: "advance_loop env opts (Suc fuel) n p w = (r, w')"
    obtain x v where round: "advance_round env opts n p w = (x, v)" by (cases "advance_round env opts n p w")
    from round_counts [OF this] obtain xs where xs: "aw_trace v = aw_trace w @ xs" "length (entries xs) \<le> 1"
      and again: "\<And>n' p'. x = Inr (Again n' p') \<Longrightarrow> ao_forever opts \<and> n' = n + length (entries xs)
        \<and> (n' = n \<or> max_iterations opts = 0 \<or> n' < max_iterations opts)" by blast
    show "\<exists>new. aw_trace w' = aw_trace w @ new \<and> n + length (entries new) \<le> limit"
    proof (cases "\<exists>n' p'. x = Inr (Again n' p')")
      case True
      then obtain n' p' where x: "x = Inr (Again n' p')" by blast
      note next_round = again [OF this]
      then have "n' < limit" "if ao_forever opts then limit = max_iterations opts else limit = Suc n'"
        using Suc.prems by auto
      moreover have "advance_loop env opts fuel n' p' v = (r, w')"
        using loop round x by (simp add: act_bind_def)
      ultimately obtain ys where "aw_trace w' = aw_trace v @ ys" "n' + length (entries ys) \<le> limit"
        using doesD [OF Suc.IH] by blast
      with xs next_round show ?thesis by auto
    next
      case False
      then have "w' = v" using loop round
        by (cases x) (auto simp: act_bind_def split: round_end.splits)
      with xs Suc.prems(1) show ?thesis by auto
    qed
  qed
qed

text \<open>A run enters at most one document in the ledger, or as many as its bound on the iterations
  says when it is to go on for ever.\<close>

theorem entries_are_bounded:
  assumes "run_pulse_auto_advance env opts fuel w = (r, w')"
    and "ao_forever opts \<Longrightarrow> 0 < max_iterations opts"
  shows "\<exists>new. aw_trace w' = aw_trace w @ new
    \<and> length (entries new) \<le> (if ao_forever opts then max_iterations opts else 1)"
proof -
  define limit where "limit = (if ao_forever opts then max_iterations opts else 1)"
  define few where "few = (\<lambda>new. length (entries new) \<le> limit)"
  have free: "does (\<lambda>r. few) m" if "does (\<lambda>r. idle) m" for m :: "'b advance_act"
    using that by (rule does_weaken) (simp add: idle_def few_def)
  have before: "does (\<lambda>r. few) (act_bind m f)" if "does (\<lambda>r. idle) m" "\<And>x. does (\<lambda>r. few) (f x)" for m :: "'c advance_act" and f
    by (rule does_bind [where A = "\<lambda>r. idle" and B = "\<lambda>x r. few"]) (use that in \<open>auto simp: idle_def few_def\<close>)
  have after: "does (\<lambda>r. few) (act_bind m f)" if "does (\<lambda>r. few) m" "\<And>x. does (\<lambda>r. idle) (f x)" for m :: "'d advance_act" and f
    by (rule does_bind [where A = "\<lambda>r. few" and B = "\<lambda>x r. idle"]) (use that in \<open>auto simp: idle_def few_def\<close>)
  have loop: "does (\<lambda>r. few) (advance_loop env opts fuel 0 p)" for p
    using loop_counts [of 0 limit opts env fuel p] assms(2) by (cases "ao_forever opts") (auto simp: few_def limit_def)
  have tail: "does (\<lambda>r. idle) (case x of None \<Rightarrow> act_return None | Some p' \<Rightarrow> report_status env opts p')" for x
    by (auto intro!: idling.kept_return idling.kept_report split: option.split)
  have "does (\<lambda>r. few) (run_pulse_auto_advance env opts fuel)"
    unfolding run_pulse_auto_advance_def Let_def
    by (auto intro!: before [OF idling.kept_prepare] before [OF idling.kept_now] before [OF idling.kept_look]
        free [OF idling.kept_report] after [OF loop tail])
  from doesD [OF this assms(1)] show ?thesis by (simp add: few_def limit_def)
qed

end
