(* ===== verification/Pulse_Ledger.thy ===== *)
theory Pulse_Ledger
  imports Pulse_Rounds
begin

text \<open>
  The ledger of the pulse automation: as long as the commands and other processes only append
  whole lines to it, no document is entered twice, in one run or over several.
\<close>

subsection \<open>The text of the ledger\<close>

fun ledger_text :: "file_node option \<Rightarrow> string option" where
  "ledger_text None = Some []"
| "ledger_text (Some (Readable b)) = (if utf8_valid b then Some b else None)"
| "ledger_text _ = None"

definition ledger_whole :: "file_node option \<Rightarrow> bool" where
  "ledger_whole node \<longleftrightarrow> (case ledger_text node of None \<Rightarrow> False | Some t \<Rightarrow> whole_lines t)"

text \<open>The second node is the first with whole lines appended, when the first is a ledger of whole lines.\<close>

definition ledger_le :: "file_node option \<Rightarrow> file_node option \<Rightarrow> bool" where
  "ledger_le a b \<longleftrightarrow> (ledger_whole a \<longrightarrow> ledger_whole b \<and> (\<exists>u. ledger_text b = map_option (\<lambda>t. t @ u) (ledger_text a)))"

lemma ledger_le_refl [simp]: "ledger_le a a"
  by (cases "ledger_text a") (auto simp: ledger_le_def intro: exI [of _ "[]"])

lemma ledger_le_trans: "ledger_le a b \<Longrightarrow> ledger_le b c \<Longrightarrow> ledger_le a c"
  by (fastforce simp: ledger_le_def option.map_comp comp_def)

definition text_digests :: "advance_env \<Rightarrow> string \<Rightarrow> string set" where
  "text_digests env t = set (List.map_filter (ledger_digest env) (str_lines t))"

definition seen_set :: "advance_env \<Rightarrow> advance_options \<Rightarrow> pulse_tree \<Rightarrow> string set" where
  "seen_set env opts files = set (load_seen env files (ao_ledger opts))"

lemma seen_of_text:
  "ledger_text (files (ao_ledger opts)) = Some t \<Longrightarrow> seen_set env opts files = text_digests env t"
  by (cases "files (ao_ledger opts)" rule: ledger_text.cases)
    (auto simp: seen_set_def load_seen_def text_digests_def read_text_def rbind_def List.map_filter_def split: if_splits)

lemma text_digests_append: "whole_lines a \<Longrightarrow> text_digests env (a @ b) = text_digests env a \<union> text_digests env b"
  by (simp add: text_digests_def str_lines_append List.map_filter_def)

lemma seen_mono:
  assumes "ledger_le (files (ao_ledger opts)) (files' (ao_ledger opts))" and "ledger_whole (files (ao_ledger opts))"
  shows "seen_set env opts files \<subseteq> seen_set env opts files'"
proof -
  from assms(2) obtain t where t: "ledger_text (files (ao_ledger opts)) = Some t" "whole_lines t"
    by (auto simp: ledger_whole_def split: option.splits)
  from assms t obtain u where "ledger_text (files' (ao_ledger opts)) = Some (t @ u)"
    by (auto simp: ledger_le_def)
  from seen_of_text [where files = files, OF t(1)] seen_of_text [where files = files', OF this] show ?thesis by (simp add: text_digests_append [OF t(2)])
qed

subsection \<open>Actions that respect the ledger\<close>

text \<open>What is asked of the outside: commands and other processes leave the ledger alone or append whole
  lines to it; a written entry is one line that is read back; and the ledger is not in the
  directory of the run.\<close>

definition ledger_respected :: "advance_env \<Rightarrow> advance_options \<Rightarrow> bool" where
  "ledger_respected env opts \<longleftrightarrow>
     (\<forall>k args envs files. ledger_le (files (ao_ledger opts)) (snd (ae_run env k args envs files) (ao_ledger opts)))
     \<and> (\<forall>k n files. ledger_le (files (ao_ledger opts)) (ae_pass env k n files (ao_ledger opts)))
     \<and> (\<forall>e line. ae_line env (ledger_entry_json e) = Inr line \<longrightarrow> utf8_valid line \<and> trim line \<noteq> []
          \<and> set line \<inter> {CHR 0x0A, CHR 0x0D} = {} \<and> ae_parse env line = Inr (ledger_entry_json e))
     \<and> ao_out_dir opts \<noteq> [] \<and> \<not> prefix (ao_out_dir opts) (ao_ledger opts)"

definition logs :: "advance_env \<Rightarrow> advance_options \<Rightarrow> 'a advance_act \<Rightarrow> bool" where
  "logs env opts m \<longleftrightarrow> (\<forall>w r w'. m w = (r, w') \<longrightarrow>
     (\<exists>new. aw_trace w' = aw_trace w @ new
        \<and> ledger_le (aw_files w (ao_ledger opts)) (aw_files w' (ao_ledger opts))
        \<and> (ledger_whole (aw_files w (ao_ledger opts)) \<longrightarrow>
             (\<forall>e \<in> set (entries new). le_eval_sha256 e \<in> seen_set env opts (aw_files w')))))"

lemma logsD:
  assumes "logs env opts m" and "m w = (r, w')"
  obtains new where "aw_trace w' = aw_trace w @ new" "ledger_le (aw_files w (ao_ledger opts)) (aw_files w' (ao_ledger opts))"
    "ledger_whole (aw_files w (ao_ledger opts)) \<Longrightarrow> \<forall>e \<in> set (entries new). le_eval_sha256 e \<in> seen_set env opts (aw_files w')"
  using assms unfolding logs_def by blast

lemma logs_bind [intro]:
  assumes "logs env opts m" and "\<And>x. logs env opts (f x)"
  shows "logs env opts (act_bind m f)"
  unfolding logs_def
proof (intro allI impI)
  fix w r w' assume run: "act_bind m f w = (r, w')"
  obtain x v where m: "m w = (x, v)" by (cases "m w")
  from logsD [OF assms(1) m] obtain xs where xs: "aw_trace v = aw_trace w @ xs"
    "ledger_le (aw_files w (ao_ledger opts)) (aw_files v (ao_ledger opts))"
    "ledger_whole (aw_files w (ao_ledger opts)) \<Longrightarrow> \<forall>e \<in> set (entries xs). le_eval_sha256 e \<in> seen_set env opts (aw_files v)"
    by metis
  let ?goal = "\<exists>new. aw_trace w' = aw_trace w @ new \<and> ledger_le (aw_files w (ao_ledger opts)) (aw_files w' (ao_ledger opts))
    \<and> (ledger_whole (aw_files w (ao_ledger opts)) \<longrightarrow> (\<forall>e \<in> set (entries new). le_eval_sha256 e \<in> seen_set env opts (aw_files w')))"
  show ?goal
  proof (cases x)
    case (Inl e)
    with run m have "w' = v" by (simp add: act_bind_Inl)
    with xs show ?thesis by blast
  next
    case (Inr y)
    with run m have f: "f y v = (r, w')" by (simp add: act_bind_Inr)
    from logsD [OF assms(2) f] obtain ys where ys: "aw_trace w' = aw_trace v @ ys"
      "ledger_le (aw_files v (ao_ledger opts)) (aw_files w' (ao_ledger opts))"
      "ledger_whole (aw_files v (ao_ledger opts)) \<Longrightarrow> \<forall>e \<in> set (entries ys). le_eval_sha256 e \<in> seen_set env opts (aw_files w')"
      by metis
    have whole: "ledger_whole (aw_files v (ao_ledger opts))" if "ledger_whole (aw_files w (ao_ledger opts))"
      using that xs(2) by (simp add: ledger_le_def)
    have "\<forall>e \<in> set (entries (xs @ ys)). le_eval_sha256 e \<in> seen_set env opts (aw_files w')"
      if "ledger_whole (aw_files w (ao_ledger opts))"
      using seen_mono [where files = "aw_files v" and files' = "aw_files w'", OF ys(2) whole [OF that], of env] xs(3) [OF that] ys(3) [OF whole [OF that]] by auto
    with xs(1) ys(1) ledger_le_trans [OF xs(2) ys(2)] show ?thesis by (intro exI [of _ "xs @ ys"]) simp
  qed
qed

lemma logs_return [intro]: "logs env opts (act_return x)" and logs_lift [intro]: "logs env opts (act_lift y)"
  and logs_look [intro]: "logs env opts look" and logs_draw [intro]: "logs env opts next_draw"
  by (auto simp: logs_def look_def next_draw_def)

lemma logs_note [intro]: "entry_of s = None \<Longrightarrow> logs env opts (note_step s)"
  by (auto simp: logs_def note_step_def)

lemma logs_put [intro]: "path \<noteq> ao_ledger opts \<Longrightarrow> logs env opts (put_node path node)"
  by (auto simp: logs_def put_node_def act_bind_def look_def set_files_def)

lemma logs_system_call [intro]: "logs env opts (system_call env' msg)"
  and logs_now [intro]: "logs env opts (utc_now env')" and logs_stamp [intro]: "logs env opts (stamp env')"
  unfolding system_call_def utc_now_def stamp_def
  by (auto intro!: logs_bind logs_draw logs_return logs_lift split: option.split)

lemma logs_put_inside:
  assumes "ledger_respected env opts" and "prefix (ao_out_dir opts) path"
  shows "logs env opts (put_node path node)"
  using assms by (intro logs_put) (auto simp: ledger_respected_def)

lemma prefix_path_join: "\<not> prefix ''/'' b \<Longrightarrow> prefix d a \<Longrightarrow> prefix d (path_join a b)"
  by (auto simp: path_join_def)

lemma log_in_run_dir: "\<not> prefix ''/'' name \<Longrightarrow> prefix (ao_out_dir opts) (path_join (logs_dir opts) name)"
  by (simp add: logs_dir_def prefix_path_join)

lemma logs_summary [intro]: "ledger_respected env opts \<Longrightarrow> logs env opts (write_summary env opts p)"
  unfolding write_summary_def
  by (auto intro!: logs_bind logs_lift logs_system_call logs_put_inside logs_note prefix_path_join)

lemma logs_sleep [intro]: "ledger_respected env opts \<Longrightarrow> logs env opts (sleep env n)"
  by (auto simp: logs_def sleep_def act_bind_def next_draw_def look_def set_files_def note_step_def ledger_respected_def)

lemma logs_command [intro]:
  assumes "ledger_respected env opts" and "\<not> prefix ''/'' name"
  shows "logs env opts (run_command_str_in_dir env role command envs (path_join (logs_dir opts) name))"
proof -
  have spawned: "logs env opts (\<lambda>w. case ae_run env k parts envs (aw_files w) of (ended, left) \<Rightarrow>
      act_bind (set_files left) (\<lambda>_. act_return ended) w)" for k parts
    using assms(1) by (auto simp: logs_def act_bind_def set_files_def ledger_respected_def split: prod.splits)
      (metis snd_conv)+
  have same: "act_bind look (\<lambda>files. case ae_run env k parts envs files of (ended, left) \<Rightarrow>
      act_bind (set_files left) (\<lambda>_. act_bind (act_lift ended) f))
    = act_bind (\<lambda>w. case ae_run env k parts envs (aw_files w) of (ended, left) \<Rightarrow>
        act_bind (set_files left) (\<lambda>_. act_return ended) w) (\<lambda>ended. act_bind (act_lift ended) f)" for k parts f
    by (rule ext) (simp add: act_bind_def look_def set_files_def split: prod.split)
  show ?thesis
    unfolding run_command_str_in_dir_def Let_def same
    by (auto intro!: logs_bind logs_return logs_lift logs_draw spawned logs_note logs_system_call
        logs_put_inside assms log_in_run_dir)
qed

lemma logs_append:
  assumes respected: "ledger_respected env opts"
  shows "logs env opts (append_ledger env opts e)"
proof -
  let ?L = "ao_ledger opts"
  have "ledger_le (aw_files w ?L) (aw_files w' ?L)
      \<and> (ledger_whole (aw_files w ?L) \<longrightarrow> le_eval_sha256 e \<in> seen_set env opts (aw_files w'))"
    if line: "ae_line env (ledger_entry_json e) = Inr line"
      and files: "aw_files w' ?L = Some (Readable (b @ line @ nl))"
      and known: "ledger_whole (aw_files w ?L) \<Longrightarrow> ledger_text (aw_files w ?L) = Some b" for w w' :: advance_world and line b
  proof (cases "ledger_whole (aw_files w ?L)")
    case True
    from respected line have plain: "utf8_valid line" "trim line \<noteq> []" "set line \<inter> {CHR 0x0A, CHR 0x0D} = {}"
      "ae_parse env line = Inr (ledger_entry_json e)" by (auto simp: ledger_respected_def)
    from known [OF True] True have b: "ledger_text (aw_files w ?L) = Some b" "whole_lines b" by (simp_all add: ledger_whole_def)
    then have "utf8_valid b"
      by (cases "aw_files w ?L" rule: ledger_text.cases) (auto split: if_splits)
    moreover have "utf8_valid nl" by (simp add: nl_def byte_def)
    ultimately have valid: "utf8_valid (b @ line @ nl)"
      by (intro utf8_valid_append plain(1))
    have whole: "whole_lines (b @ line @ nl)" by (simp add: whole_lines_def nl_def)
    have "text_digests env (line @ nl) = {le_eval_sha256 e}"
      using plain(2,4) str_lines_one [OF plain(3)]
      by (simp add: text_digests_def ledger_digest_def List.map_filter_def get_str_def ledger_entry_json_def)
    then have "seen_set env opts (aw_files w') = text_digests env b \<union> {le_eval_sha256 e}"
      using seen_of_text [where files = "aw_files w'" and opts = opts] files valid text_digests_append [OF b(2)] by simp
    then show ?thesis
      using b whole valid files by (auto simp: ledger_le_def ledger_whole_def)
  qed (simp add: ledger_le_def)
  note appended = this
  show ?thesis
    unfolding logs_def
  proof (intro allI impI)
    fix w r w' assume run: "append_ledger env opts e w = (r, w')"
    show "\<exists>new. aw_trace w' = aw_trace w @ new \<and> ledger_le (aw_files w ?L) (aw_files w' ?L)
      \<and> (ledger_whole (aw_files w ?L) \<longrightarrow> (\<forall>d \<in> set (entries new). le_eval_sha256 d \<in> seen_set env opts (aw_files w')))"
    proof (cases "r = Inr ()")
      case True
      with run obtain line b where "ae_line env (ledger_entry_json e) = Inr line"
        "aw_files w' ?L = Some (Readable (b @ line @ nl))" "aw_trace w' = aw_trace w @ [Recorded e]"
        "ledger_whole (aw_files w ?L) \<longrightarrow> ledger_text (aw_files w ?L) = Some b"
        by (auto simp: append_ledger_def act_bind_def look_def system_call_def next_draw_def put_node_def set_files_def
            note_step_def ledger_whole_def split: sum.splits option.splits file_node.splits if_splits)
      with appended show ?thesis by (intro exI [of _ "[Recorded e]"]) auto
    next
      case False
      with run have "aw_files w' = aw_files w" "aw_trace w' = aw_trace w"
        by (auto simp: append_ledger_def act_bind_def look_def system_call_def next_draw_def put_node_def set_files_def
            note_step_def split: sum.splits option.splits file_node.splits)
      then show ?thesis by simp
    qed
  qed
qed

subsection \<open>Rounds and runs respect the ledger\<close>

lemma logs_stamped: "ledger_respected env opts \<Longrightarrow> logs env opts (stamped env opts p)"
  and logs_heartbeat: "ledger_respected env opts \<Longrightarrow> logs env opts (write_heartbeat env opts why resume digest p)"
  unfolding write_heartbeat_def stamped_def Let_def by (auto intro!: logs_bind logs_now logs_summary logs_return)

lemma logs_load_gate: "logs env opts (load_gate env' opts' reason)"
  unfolding load_gate_def Let_def by (auto intro!: logs_bind logs_look logs_note logs_return)

lemmas logs_parts = logs_bind logs_return logs_lift logs_look logs_now logs_stamp logs_summary logs_sleep
  logs_stamped logs_heartbeat logs_load_gate logs_command logs_append

lemma logs_generate: "ledger_respected env opts \<Longrightarrow> logs env opts (pulse_generate_next env opts reason p)"
  unfolding pulse_generate_next_def refresh_pr_ci_gate_def generate_normally_def generate_local_only_def Let_def
  by (auto intro!: logs_parts split: prod.split)

lemma logs_publish: "ledger_respected env opts \<Longrightarrow> logs env opts (pulse_direct_main_publish env opts reason p)"
  unfolding pulse_direct_main_publish_def Let_def by (auto intro!: logs_parts)

lemma logs_recommended: "ledger_respected env opts \<Longrightarrow> logs env opts (run_recommended env opts n i tasks)"
proof (induction tasks arbitrary: i)
  case Nil
  show ?case unfolding run_recommended.simps by (rule logs_return)
next
  case (Cons task tasks)
  then show ?case by (auto simp: Let_def task_log_def intro!: logs_parts)
qed

lemma logs_work: "ledger_respected env opts \<Longrightarrow> logs env opts (work_on_tasks env opts ev n tasks p)"
  unfolding work_on_tasks_def announce_tasks_def execute_tasks_def run_manifest_def conclude_round_def Let_def
  by (auto intro!: logs_parts logs_recommended logs_publish logs_generate split: prod.split)

lemma logs_round: "ledger_respected env opts \<Longrightarrow> logs env opts (advance_round env opts n p)"
  unfolding advance_round_def verified_round_def duplicate_round_def work_round_def Let_def
  by (auto intro!: logs_parts logs_work logs_generate split: prod.split option.split)

lemma parent_is_shorter: "path_parent p = Some d \<Longrightarrow> length d < length p"
proof -
  assume parent: "path_parent p = Some d"
  let ?rest = "dropWhile (\<lambda>c. c \<noteq> CHR ''/'') (rev p)"
  from parent have p: "p \<noteq> []" "p \<noteq> ''/''" by (auto simp: path_parent_def split: if_splits)
  show ?thesis
  proof (cases ?rest)
    case Nil
    with parent p show ?thesis by (simp add: path_parent_def)
  next
    case (Cons x r)
    have le: "length ?rest \<le> length p" by (metis length_dropWhile_le length_rev)
    show ?thesis
    proof (cases "r = []")
      case True
      from Cons have slash: "x = CHR ''/''" using hd_dropWhile [of "\<lambda>c. c \<noteq> CHR ''/''" "rev p"] by force
      have "length p \<noteq> 1"
      proof
        assume "length p = 1"
        then obtain c where "p = [c]" by (auto simp: length_Suc_conv)
        with Cons slash p(2) show False by (auto split: if_splits)
      qed
      with True Cons parent p le show ?thesis by (auto simp: path_parent_def)
    next
      case False
      with Cons parent p le show ?thesis by (auto simp: path_parent_def)
    qed
  qed
qed

lemma logs_clear: "ledger_respected env opts \<Longrightarrow> logs env opts (clear_dir env (ao_out_dir opts))"
  by (auto simp: logs_def clear_dir_def act_bind_def next_draw_def look_def set_files_def ledger_respected_def prefix_def)

lemma logs_create_dir: "path \<noteq> ao_ledger opts \<Longrightarrow> logs env opts (create_dir_all env msg path)"
  unfolding create_dir_all_def by (auto intro!: logs_bind logs_system_call logs_look logs_put logs_return)

lemma logs_prepare:
  assumes "ledger_respected env opts"
  shows "logs env opts (prepare_dirs env opts)"
proof -
  have "prefix (ao_out_dir opts) (logs_dir opts)" by (simp add: logs_dir_def prefix_path_join)
  then have "ao_out_dir opts \<noteq> ao_ledger opts" "logs_dir opts \<noteq> ao_ledger opts"
    using assms by (auto simp: ledger_respected_def)
  moreover have "path_parent (ao_ledger opts) = Some d \<Longrightarrow> d \<noteq> ao_ledger opts" for d
    using parent_is_shorter by blast
  ultimately show ?thesis
    unfolding prepare_dirs_def
    by (auto intro!: logs_bind logs_look logs_return logs_clear logs_create_dir assms split: option.split)
qed

subsection \<open>No document twice\<close>

definition fresh_entries :: "advance_env \<Rightarrow> advance_options \<Rightarrow> pulse_tree \<Rightarrow> advance_step list \<Rightarrow> bool" where
  "fresh_entries env opts files new \<longleftrightarrow> distinct (map le_eval_sha256 (entries new))
     \<and> le_eval_sha256 ` set (entries new) \<inter> seen_set env opts files = {}"

lemma round_fresh:
  assumes "advance_round env opts n p w = (r, w')" and "\<not> ao_allow_duplicate opts"
  shows "\<exists>new. aw_trace w' = aw_trace w @ new \<and> fresh_entries env opts (aw_files w) new"
  using round_cases [OF assms(1)]
proof (elim disjE exE conjE)
  fix ev tasks q
  assume may: "may_work env opts (aw_files w) ev tasks" and "work_on_tasks env opts ev (Suc n) tasks q w = (r, w')"
  from doesD [OF work_does this(2)] obtain new where "aw_trace w' = aw_trace w @ new" "worked opts ev tasks (Suc n) r new" by blast
  with may assms(2) show ?thesis
    by (intro exI [of _ new]) (auto simp: worked_def may_work_def fresh_entries_def seen_set_def)
qed (auto simp: rests_def idle_def fresh_entries_def)

lemma loop_fresh:
  assumes "ledger_respected env opts" and "\<not> ao_allow_duplicate opts"
    and "advance_loop env opts fuel n p w = (r, w')" and "ledger_whole (aw_files w (ao_ledger opts))"
  shows "\<exists>new. aw_trace w' = aw_trace w @ new \<and> fresh_entries env opts (aw_files w) new"
  using assms(3,4)
proof (induction fuel arbitrary: n p w)
  case 0
  then show ?case by (simp add: fresh_entries_def)
next
  case (Suc fuel)
  obtain x v where round: "advance_round env opts n p w = (x, v)" by (cases "advance_round env opts n p w")
  from round_fresh [OF round assms(2)] obtain xs where xs: "aw_trace v = aw_trace w @ xs" "fresh_entries env opts (aw_files w) xs" by blast
  show ?case
  proof (cases "\<exists>n' p'. x = Inr (Again n' p')")
    case True
    then obtain n' p' where "x = Inr (Again n' p')" by blast
    with Suc.prems(1) round have loop: "advance_loop env opts fuel n' p' v = (r, w')" by (simp add: act_bind_def)
    from logsD [OF logs_round [OF assms(1)] round] xs(1) have le: "ledger_le (aw_files w (ao_ledger opts)) (aw_files v (ao_ledger opts))"
      and logged: "\<forall>e \<in> set (entries xs). le_eval_sha256 e \<in> seen_set env opts (aw_files v)"
      using Suc.prems(2) by (metis same_append_eq)+
    from le Suc.prems(2) have "ledger_whole (aw_files v (ao_ledger opts))" by (simp add: ledger_le_def)
    from Suc.IH [OF loop this] obtain ys where ys: "aw_trace w' = aw_trace v @ ys" "fresh_entries env opts (aw_files v) ys" by blast
    have "seen_set env opts (aw_files w) \<subseteq> seen_set env opts (aw_files v)"
      by (rule seen_mono [where files = "aw_files w" and files' = "aw_files v", OF le Suc.prems(2)])
    with xs ys logged have "fresh_entries env opts (aw_files w) (xs @ ys)"
      by (fastforce simp: fresh_entries_def)
    with xs(1) ys(1) show ?thesis by auto
  next
    case False
    then have "w' = v" using Suc.prems(1) round
      by (cases x) (auto simp: act_bind_def split: round_end.splits)
    with xs show ?thesis by blast
  qed
qed

definition enters_fresh :: "advance_env \<Rightarrow> advance_options \<Rightarrow> 'a advance_act \<Rightarrow> bool" where
  "enters_fresh env opts m \<longleftrightarrow> (\<forall>w r w'. m w = (r, w') \<longrightarrow> ledger_whole (aw_files w (ao_ledger opts)) \<longrightarrow>
     (\<exists>new. aw_trace w' = aw_trace w @ new \<and> fresh_entries env opts (aw_files w) new))"

lemma enters_nothing: "does (\<lambda>r. idle) m \<Longrightarrow> enters_fresh env opts m"
  by (fastforce simp: enters_fresh_def fresh_entries_def idle_def dest: doesD)

lemma enters_after:
  assumes "does (\<lambda>r. idle) m" and "logs env opts m" and "\<And>x. enters_fresh env opts (f x)"
  shows "enters_fresh env opts (act_bind m f)"
  unfolding enters_fresh_def
proof (intro allI impI)
  fix w r w' assume run: "act_bind m f w = (r, w')" and whole: "ledger_whole (aw_files w (ao_ledger opts))"
  obtain x v where m: "m w = (x, v)" by (cases "m w")
  from doesD [OF assms(1) m] obtain xs where xs: "aw_trace v = aw_trace w @ xs" "entries xs = []" by (auto simp: idle_def)
  from logsD [OF assms(2) m] have le: "ledger_le (aw_files w (ao_ledger opts)) (aw_files v (ao_ledger opts))" by metis
  have mono: "seen_set env opts (aw_files w) \<subseteq> seen_set env opts (aw_files v)"
    by (rule seen_mono [where files = "aw_files w" and files' = "aw_files v", OF le whole])
  show "\<exists>new. aw_trace w' = aw_trace w @ new \<and> fresh_entries env opts (aw_files w) new"
  proof (cases x)
    case (Inl e)
    with run m have "w' = v" by (simp add: act_bind_Inl)
    with xs show ?thesis by (auto simp: fresh_entries_def)
  next
    case (Inr y)
    with run m have "f y v = (r, w')" by (simp add: act_bind_Inr)
    moreover have "ledger_whole (aw_files v (ao_ledger opts))" using le whole by (simp add: ledger_le_def)
    ultimately obtain ys where ys: "aw_trace w' = aw_trace v @ ys" "fresh_entries env opts (aw_files v) ys"
      using assms(3) unfolding enters_fresh_def by blast
    from mono ys(2) xs(2) have "fresh_entries env opts (aw_files w) (xs @ ys)" by (auto simp: fresh_entries_def)
    with xs ys show ?thesis by auto
  qed
qed

lemma enters_before:
  assumes "enters_fresh env opts m" and "\<And>x. does (\<lambda>r. idle) (f x)"
  shows "enters_fresh env opts (act_bind m f)"
  unfolding enters_fresh_def
proof (intro allI impI)
  fix w r w' assume run: "act_bind m f w = (r, w')" and whole: "ledger_whole (aw_files w (ao_ledger opts))"
  obtain x v where m: "m w = (x, v)" by (cases "m w")
  from assms(1) m whole obtain xs where xs: "aw_trace v = aw_trace w @ xs" "fresh_entries env opts (aw_files w) xs"
    unfolding enters_fresh_def by blast
  show "\<exists>new. aw_trace w' = aw_trace w @ new \<and> fresh_entries env opts (aw_files w) new"
  proof (cases x)
    case (Inr y)
    with run m have "f y v = (r, w')" by (simp add: act_bind_Inr)
    from doesD [OF assms(2) this] obtain ys where ys: "aw_trace w' = aw_trace v @ ys" "entries ys = []" by (auto simp: idle_def)
    with xs have "aw_trace w' = aw_trace w @ (xs @ ys)" "fresh_entries env opts (aw_files w) (xs @ ys)"
      by (auto simp: fresh_entries_def)
    then show ?thesis by blast
  qed (use run m xs in \<open>auto simp: act_bind_Inl\<close>)
qed

lemma run_enters_fresh:
  assumes "ledger_respected env opts" and "\<not> ao_allow_duplicate opts"
  shows "enters_fresh env opts (run_pulse_auto_advance env opts fuel)"
proof -
  have loop: "enters_fresh env opts (advance_loop env opts fuel 0 p)" for p
    using loop_fresh [OF assms] unfolding enters_fresh_def by blast
  have tail: "does (\<lambda>r. idle) (case x of None \<Rightarrow> act_return None | Some p' \<Rightarrow> report_status env opts p')" for x
    by (auto intro!: idling.kept_return idling.kept_report split: option.split)
  show ?thesis
    unfolding run_pulse_auto_advance_def Let_def
    by (auto intro!: enters_after [OF idling.kept_prepare logs_prepare] enters_after [OF idling.kept_now logs_now]
        enters_after [OF idling.kept_look logs_look] enters_nothing [OF idling.kept_report] enters_before [OF loop tail] assms)
qed

lemma logs_run:
  assumes "ledger_respected env opts"
  shows "logs env opts (run_pulse_auto_advance env opts fuel)"
proof -
  have "logs env opts (advance_loop env opts fuel n p)" for n p
    by (induction fuel arbitrary: n p) (auto intro!: logs_parts logs_round assms split: round_end.split)
  then show ?thesis
    unfolding run_pulse_auto_advance_def report_status_def Let_def
    by (auto intro!: logs_parts logs_prepare assms split: option.split)
qed

text \<open>C10: As long as commands and other processes only append whole lines to the ledger, a run that does
  not allow duplicates never enters a document twice: the digests it enters differ from one
  another and from all that were in the ledger before, and are in the ledger afterwards.\<close>

theorem no_document_is_entered_twice:
  assumes "ledger_respected env opts" and "ao_allow_duplicate opts = False"
    and "ledger_whole (aw_files w (ao_ledger opts))" and "run_pulse_auto_advance env opts fuel w = (r, w')"
  shows "\<exists>new. aw_trace w' = aw_trace w @ new \<and> distinct (map le_eval_sha256 (entries new))
    \<and> le_eval_sha256 ` set (entries new) \<inter> seen_set env opts (aw_files w) = {}
    \<and> le_eval_sha256 ` set (entries new) \<subseteq> seen_set env opts (aw_files w')"
proof -
  from run_enters_fresh [of env opts fuel] assms obtain new where new: "aw_trace w' = aw_trace w @ new"
    "fresh_entries env opts (aw_files w) new" unfolding enters_fresh_def by metis
  from logsD [OF logs_run [OF assms(1)] assms(4)] new(1)
  have "\<forall>e \<in> set (entries new). le_eval_sha256 e \<in> seen_set env opts (aw_files w')"
    using assms(3) by (metis same_append_eq)
  with new show ?thesis by (auto simp: fresh_entries_def)
qed

end
