(* ===== verification/Pulse_Status.thy ===== *)
theory Pulse_Status
  imports Pulse_Rounds
begin

text \<open>
  What the status of a run of the pulse automation says: it is one of four words, and \<open>passed\<close> only
  after a round whose tasks all passed and whose document was entered in the ledger.
\<close>

subsection \<open>What an action gives\<close>

definition gives :: "('a \<Rightarrow> bool) \<Rightarrow> 'a advance_act \<Rightarrow> bool" where
  "gives P m \<longleftrightarrow> (\<forall>w x w'. m w = (Inr x, w') \<longrightarrow> P x)"

lemma gives_bind: "gives P m \<Longrightarrow> (\<And>x. P x \<Longrightarrow> gives Q (f x)) \<Longrightarrow> gives Q (act_bind m f)"
  unfolding gives_def act_bind_ok by blast

lemma gives_skip: "(\<And>x. gives Q (f x)) \<Longrightarrow> gives Q (act_bind m f)"
  by (rule gives_bind [where P = "\<lambda>x. True"]) (auto simp: gives_def)

lemma gives_return: "P x \<Longrightarrow> gives P (act_return x)"
  by (simp add: gives_def)

lemma gives_weaken: "gives P m \<Longrightarrow> (\<And>x. P x \<Longrightarrow> Q x) \<Longrightarrow> gives Q m"
  unfolding gives_def by blast

text \<open>Binding with what the first action gives.\<close>

lemma does_given:
  assumes "does (\<lambda>r. idle) m" and "gives P m" and "\<And>x. P x \<Longrightarrow> does Q (f x)"
    and "\<And>e xs. Q (Inl e) xs" and "\<And>xs r ys. idle xs \<Longrightarrow> Q r ys \<Longrightarrow> Q r (xs @ ys)"
  shows "does Q (act_bind m f)"
  unfolding does_def
proof (intro allI impI)
  fix w r w' assume run: "act_bind m f w = (r, w')"
  obtain x v where m: "m w = (x, v)" by (cases "m w")
  from doesD [OF assms(1) m] obtain xs where xs: "aw_trace v = aw_trace w @ xs" "idle xs" by blast
  show "\<exists>new. aw_trace w' = aw_trace w @ new \<and> Q r new"
  proof (cases x)
    case (Inr y)
    with assms(2) m have "P y" by (auto simp: gives_def)
    moreover from Inr run m have "f y v = (r, w')" by (simp add: act_bind_Inr)
    ultimately show ?thesis using doesD [OF assms(3)] xs assms(5) by fastforce
  qed (use run m xs assms(4) in \<open>auto simp: act_bind_Inl\<close>)
qed

subsection \<open>The status in the payload\<close>

lemma stamped_gives: "gives (\<lambda>q'. ar_status q' = ar_status q \<and> ar_reason q' = ar_reason q) (stamped env opts q)"
  unfolding stamped_def Let_def by (auto intro!: gives_skip gives_return)

definition between_rounds :: "string set" where
  "between_rounds = {''waiting'', ''failed''}"

lemma skip_stamp: "(\<And>x. gives Q (f x)) \<Longrightarrow> gives Q (act_bind (stamp env) f)"
  and skip_command: "(\<And>code. gives Q (g code)) \<Longrightarrow> gives Q (act_bind (run_command_str_in_dir env role command envs file) g)"
  and skip_summary: "(\<And>u. gives Q (h u)) \<Longrightarrow> gives Q (act_bind (write_summary env opts p) h)"
  by (rule gives_skip, blast)+

lemma then_stamped:
  "(\<And>q'. ar_status q' = ar_status q \<Longrightarrow> ar_reason q' = ar_reason q \<Longrightarrow> gives Q (f q')) \<Longrightarrow> gives Q (act_bind (stamped env opts q) f)"
  by (rule gives_bind [OF stamped_gives]) blast

lemmas skips = skip_stamp skip_command skip_summary then_stamped gives_return

definition generation_said :: "bool \<times> advance_run \<Rightarrow> bool" where
  "generation_said x \<longleftrightarrow> ar_status (snd x) \<in> between_rounds \<and> (fst x \<longrightarrow> ar_status (snd x) = ''waiting'')"

lemma normally_gives: "gives generation_said (generate_normally env opts reason p)"
  and local_only_gives: "gives generation_said (generate_local_only env opts reason gate p)"
  unfolding generate_normally_def generate_local_only_def Let_def
  by (auto intro!: skips simp: generation_said_def between_rounds_def)

lemma refresh_gives:
  "gives (\<lambda>x. \<not> fst x \<longrightarrow> ar_status (snd x) = ''waiting'') (refresh_pr_ci_gate env opts reason p)"
  unfolding refresh_pr_ci_gate_def Let_def by (auto intro!: skips simp: generation_waits_def)

lemma generate_gives:
  "gives (\<lambda>x. x = (False, p) \<or> generation_said x) (pulse_generate_next env opts reason p)"
proof (cases "\<not> ao_forever opts \<or> ao_generate_next opts \<noteq> 1")
  case True
  then show ?thesis unfolding pulse_generate_next_def by (simp only: if_True) (simp add: gives_return)
next
  case False
  have loaded: "gives generation_said (act_bind (load_gate env opts reason) (\<lambda>gate.
      let p2 = p1\<lparr>ar_gate := gate\<rparr> in
      if pg_status gate = ''passed'' then generate_normally env opts reason p2
      else if ao_local_only opts then generate_local_only env opts reason gate p2
      else act_bind (stamped env opts (generation_waits (pg_status gate) p2)) (\<lambda>p3. act_return (False, p3))))" for p1
    unfolding Let_def
    by (rule gives_skip)
      (auto intro!: normally_gives local_only_gives skips simp: generation_said_def generation_waits_def between_rounds_def)
  have "gives generation_said (act_bind (refresh_pr_ci_gate env opts reason p) (\<lambda>(fresh, p1).
      if \<not> fresh then act_return (False, p1)
      else act_bind (load_gate env opts reason) (\<lambda>gate.
        let p2 = p1\<lparr>ar_gate := gate\<rparr> in
        if pg_status gate = ''passed'' then generate_normally env opts reason p2
        else if ao_local_only opts then generate_local_only env opts reason gate p2
        else act_bind (stamped env opts (generation_waits (pg_status gate) p2)) (\<lambda>p3. act_return (False, p3)))))"
    by (rule gives_bind [OF refresh_gives])
      (auto intro!: gives_return loaded simp: generation_said_def between_rounds_def split: prod.split)
  with False show ?thesis unfolding pulse_generate_next_def by (auto intro: gives_weaken)
qed

definition publication_said :: "advance_run \<Rightarrow> bool \<times> advance_run \<Rightarrow> bool" where
  "publication_said p x \<longleftrightarrow> (if fst x then ar_status (snd x) = ar_status p \<and> ar_reason (snd x) = ar_reason p
     else ar_status (snd x) = ''failed'')"

lemma publish_gives: "gives (publication_said p) (pulse_direct_main_publish env opts reason p)"
  unfolding pulse_direct_main_publish_def Let_def
  by (auto intro!: skips simp: publication_said_def ended_as_def)

lemma heartbeat_gives: "gives (\<lambda>p'. ar_status p' = ''waiting'') (write_heartbeat env opts why resume digest p)"
  unfolding write_heartbeat_def by (rule gives_weaken [OF stamped_gives]) simp

lemma announce_gives:
  "gives (\<lambda>p'. ar_status p' = ''running'' \<and> ar_reason p' = Some ''executing_recommended_tasks'')
    (announce_tasks env opts manifest n tasks p)"
  unfolding announce_tasks_def Let_def by (auto intro!: gives_skip gives_return)

lemma execute_gives:
  "gives (\<lambda>x. ar_status (snd x) = ar_status p \<and> ar_reason (snd x) = ar_reason p) (execute_tasks env opts manifest n tasks p)"
  unfolding execute_tasks_def Let_def by (auto intro!: gives_skip gives_return)

subsection \<open>The outcome of rounds and runs\<close>

definition known_status :: "string set" where
  "known_status = {''passed'', ''failed'', ''stopped'', ''waiting''}"

definition outcome_known :: "bool \<Rightarrow> round_end rresult \<Rightarrow> advance_step list \<Rightarrow> bool" where
  "outcome_known entered r new \<longleftrightarrow>
     (\<forall>n' p'. r = Inr (Again n' p') \<longrightarrow> ar_status p' \<in> between_rounds)
     \<and> (\<forall>p'. r = Inr (Finished p') \<longrightarrow> ar_status p' \<in> known_status
          \<and> (ar_status p' = ''passed'' \<longrightarrow> entered \<or> entries new \<noteq> []))"

lemma outcome_bind:
  "does (\<lambda>r. idle) m \<Longrightarrow> gives P m \<Longrightarrow> (\<And>x. P x \<Longrightarrow> does (outcome_known b) (f x)) \<Longrightarrow> does (outcome_known b) (act_bind m f)"
  by (rule does_given [where P = P]) (auto simp: outcome_known_def idle_def)

lemma outcome_skip:
  "does (\<lambda>r. idle) m \<Longrightarrow> (\<And>x. does (outcome_known b) (f x)) \<Longrightarrow> does (outcome_known b) (act_bind m f)"
  by (rule outcome_bind [where P = "\<lambda>x. True"]) (auto simp: gives_def)

lemma outcome_finished:
  "ar_status q \<in> known_status \<Longrightarrow> b \<or> ar_status q \<noteq> ''passed'' \<Longrightarrow> does (outcome_known b) (act_return (Finished q))"
  by (auto simp: does_def outcome_known_def)

lemma outcome_again: "ar_status q \<in> between_rounds \<Longrightarrow> does (outcome_known b) (act_return (Again n q))"
  by (auto simp: does_def outcome_known_def)

lemma between_known [simp]: "s \<in> between_rounds \<Longrightarrow> s \<in> known_status"
  and between_not_passed [simp]: "s \<in> between_rounds \<Longrightarrow> s \<noteq> ''passed''"
  and between_words [simp]: "''waiting'' \<in> between_rounds" "''failed'' \<in> between_rounds" "''passed'' \<notin> between_rounds"
  and known_words [simp]: "''passed'' \<in> known_status" "''failed'' \<in> known_status" "''stopped'' \<in> known_status" "''waiting'' \<in> known_status"
  by (auto simp: between_rounds_def known_status_def)

definition at_work :: "advance_run \<Rightarrow> bool" where
  "at_work p \<longleftrightarrow> ar_status p = ''running'' \<and> ar_reason p = Some ''executing_recommended_tasks''"

lemma slept_outcome:
  "ar_status q \<in> between_rounds \<Longrightarrow> does (outcome_known b) (act_bind (sleep env k) (\<lambda>_. act_return (Again n q)))"
  by (auto intro!: outcome_skip [OF idling.kept_sleep] outcome_again)

lemma generated_outcome:
  assumes "at_work p1"
  shows "does (outcome_known True) (act_bind (pulse_generate_next env opts reason p1) (\<lambda>(generated, p2).
     if generated then act_bind (sleep env k) (\<lambda>_. act_return (Again n p2))
     else if ar_reason p2 = Some waiting_reason then act_return (Finished p2)
     else
     let p3 = ended_as ''waiting'' ''waiting_for_new_eval_loop_digest'' p2 in
     act_bind (write_summary env opts p3) (\<lambda>_.
     act_bind (sleep env k') (\<lambda>_. act_return (Again n p3)))))"
proof (rule outcome_bind [OF idle_generate generate_gives])
  fix x assume x: "x = (False, p1) \<or> generation_said x"
  obtain generated p2 where pair: "x = (generated, p2)" by (cases x)
  have later: "does (outcome_known True) (let p3 = ended_as ''waiting'' ''waiting_for_new_eval_loop_digest'' p2 in
     act_bind (write_summary env opts p3) (\<lambda>_. act_bind (sleep env k') (\<lambda>_. act_return (Again n p3))))"
    unfolding Let_def by (auto intro!: outcome_skip [OF idling.kept_summary] slept_outcome simp: ended_as_def)
  show "does (outcome_known True) (case x of (generated, p2) \<Rightarrow>
     if generated then act_bind (sleep env k) (\<lambda>_. act_return (Again n p2))
     else if ar_reason p2 = Some waiting_reason then act_return (Finished p2)
     else let p3 = ended_as ''waiting'' ''waiting_for_new_eval_loop_digest'' p2 in
     act_bind (write_summary env opts p3) (\<lambda>_. act_bind (sleep env k') (\<lambda>_. act_return (Again n p3))))"
    using x assms later
    by (auto simp: pair generation_said_def at_work_def waiting_reason_def intro!: slept_outcome outcome_finished)
qed

lemma published_outcome:
  assumes "at_work p"
  shows "does (outcome_known True) (act_bind (pulse_direct_main_publish env opts ''completed_iteration'' p) (\<lambda>(published, p1).
     if \<not> published then act_return (Finished p1)
     else if \<not> ao_forever opts then act_return (Finished (p1\<lparr>ar_status := ''passed''\<rparr>))
     else if max_iterations opts > 0 \<and> n \<ge> max_iterations opts
     then act_return (Finished (ended_as ''passed'' ''max_iterations_reached'' p1))
     else
     act_bind (pulse_generate_next env opts ''completed_iteration'' p1) (\<lambda>(generated, p2).
     if generated then act_bind (sleep env (generate_sleep opts)) (\<lambda>_. act_return (Again n p2))
     else if ar_reason p2 = Some waiting_reason then act_return (Finished p2)
     else
     let p3 = ended_as ''waiting'' ''waiting_for_new_eval_loop_digest'' p2 in
     act_bind (write_summary env opts p3) (\<lambda>_.
     act_bind (sleep env (ao_sleep_seconds opts)) (\<lambda>_. act_return (Again n p3))))))"
proof (rule outcome_bind [OF idle_publish publish_gives], goal_cases)
  case (1 x)
  obtain published p1 where pair: "x = (published, p1)" by (cases x)
  from 1 assms have "published \<Longrightarrow> at_work p1" "\<not> published \<Longrightarrow> ar_status p1 = ''failed''"
    by (auto simp: pair publication_said_def at_work_def)
  then show ?case
    by (auto simp: pair ended_as_def intro!: outcome_finished generated_outcome)
qed

lemma conclude_outcome: "at_work p \<Longrightarrow> does (outcome_known False) (conclude_round env opts ev n count p)"
  unfolding conclude_round_def
  apply (rule outcome_skip [OF idling.kept_now])
  apply (rule does_bind [OF append_does, where B = "\<lambda>x. outcome_known True"])
    apply (rule published_outcome, assumption)
  by (auto simp: outcome_known_def split: if_splits)

lemma work_outcome: "does (outcome_known False) (work_on_tasks env opts ev n tasks p)"
proof -
  have executed: "does (outcome_known False)
      (act_bind (execute_tasks env opts (manifest_path (rv_eval_path ev)) n tasks p1) (\<lambda>(passed, p2).
      if \<not> passed then act_return (Finished (ended_as ''failed'' ''task_failed'' p2))
      else conclude_round env opts ev n (length tasks) (p2\<lparr>ar_completed_iterations := n\<rparr>)))"
    if "at_work p1" for p1
    unfolding does_def
  proof (intro allI impI, goal_cases)
    case (1 w r w')
    let ?m = "execute_tasks env opts (manifest_path (rv_eval_path ev)) n tasks p1"
    obtain x v where m: "?m w = (x, v)" by (cases "?m w")
    from doesD [OF execute_does m] obtain xs where xs: "aw_trace v = aw_trace w @ xs" by blast
    show ?case
    proof (cases x)
      case (Inr y)
      obtain passed p2 where y: "y = (passed, p2)" by (cases y)
      from execute_gives m Inr y that have "at_work (p2\<lparr>ar_completed_iterations := n\<rparr>)"
        by (fastforce simp: gives_def at_work_def)
      from conclude_outcome [OF this] have "does (outcome_known False) (if \<not> passed
          then act_return (Finished (ended_as ''failed'' ''task_failed'' p2))
          else conclude_round env opts ev n (length tasks) (p2\<lparr>ar_completed_iterations := n\<rparr>))"
        by (auto intro: outcome_finished simp: ended_as_def)
      moreover have "(if \<not> passed then act_return (Finished (ended_as ''failed'' ''task_failed'' p2))
          else conclude_round env opts ev n (length tasks) (p2\<lparr>ar_completed_iterations := n\<rparr>)) v = (r, w')"
        using 1 m Inr y by (simp add: act_bind_Inr)
      ultimately obtain ys where "aw_trace w' = aw_trace v @ ys" "outcome_known False r ys"
        using doesD by blast
      with xs show ?thesis by (intro exI [of _ "xs @ ys"]) (auto simp: outcome_known_def)
    qed (use 1 m xs in \<open>auto simp: act_bind_Inl outcome_known_def\<close>)
  qed
  show ?thesis
    unfolding work_on_tasks_def Let_def
    by (rule outcome_bind [OF idling.kept_announce announce_gives]) (auto intro!: executed simp: at_work_def)
qed

lemma duplicate_outcome:
  assumes "ar_status p \<in> between_rounds"
  shows "does (outcome_known False) (duplicate_round env opts resume ev n p)"
proof (cases "ao_forever opts")
  case True
  have beat: "does (outcome_known False) (act_bind (write_heartbeat env opts why r d q) (\<lambda>p2.
      act_bind (sleep env k) (\<lambda>_. act_return (Again n p2))))" for why r d q k
    by (rule outcome_bind [OF idling.kept_heartbeat heartbeat_gives]) (simp add: slept_outcome)
  have "does (outcome_known False) (act_bind (pulse_generate_next env opts ''duplicate_eval_loop_digest'' p) (\<lambda>(generated, p1).
      if generated then act_bind (sleep env (generate_sleep opts)) (\<lambda>_. act_return (Again n p1))
      else if ar_reason p1 = Some waiting_reason then act_return (Finished p1)
      else act_bind (write_heartbeat env opts ''waiting_for_new_eval_loop_digest'' (Some resume) (Some (rv_eval_sha256 ev)) p1)
        (\<lambda>p2. act_bind (sleep env (ao_sleep_seconds opts)) (\<lambda>_. act_return (Again n p2)))))"
  proof (rule outcome_bind [OF idle_generate generate_gives], goal_cases)
    case (1 x)
    obtain generated p1 where pair: "x = (generated, p1)" by (cases x)
    from 1 assms have "ar_status p1 \<in> between_rounds" by (auto simp: pair generation_said_def)
    then show ?case by (auto simp: pair intro!: slept_outcome outcome_finished beat)
  qed
  with True show ?thesis by (simp add: duplicate_round_def)
qed (auto simp: duplicate_round_def ended_as_def intro!: outcome_finished)

lemma outcome_look: "(\<And>x. does (outcome_known b) (f x)) \<Longrightarrow> does (outcome_known b) (act_bind look f)"
  and outcome_lift: "(\<And>x. does (outcome_known b) (g x)) \<Longrightarrow> does (outcome_known b) (act_bind (act_lift y) g)"
  by (rule outcome_skip, rule idling.kept_look idling.kept_lift, blast)+

lemma round_outcome:
  assumes "ar_status p \<in> between_rounds"
  shows "does (outcome_known False) (advance_round env opts n p)"
proof -
  have verified: "does (outcome_known False) (verified_round env opts resume ev n p)" for resume ev
    unfolding verified_round_def work_round_def Let_def
    using assms
    by (auto intro!: outcome_look outcome_lift outcome_finished duplicate_outcome work_outcome
        simp: because_def ended_as_def report_evidence_def split: option.split)
  have absent: "does (outcome_known False) (act_bind (write_heartbeat env opts why None None p) (\<lambda>p1.
      act_bind (sleep env k) (\<lambda>_. act_return (Again n p1))))" for why k
    by (rule outcome_bind [OF idling.kept_heartbeat heartbeat_gives]) (simp add: slept_outcome)
  show ?thesis
    unfolding advance_round_def Let_def
    using assms
    by (auto intro!: outcome_look outcome_lift outcome_finished verified absent simp: because_def ended_as_def)
qed

text \<open>What a run says at its end.\<close>

definition report_known :: "advance_run option rresult \<Rightarrow> advance_step list \<Rightarrow> bool" where
  "report_known r new \<longleftrightarrow> (\<forall>p. r = Inr (Some p) \<longrightarrow> ar_status p \<in> known_status \<and> (ar_status p = ''passed'' \<longrightarrow> entries new \<noteq> []))"

lemma loop_outcome: "ar_status p \<in> between_rounds \<Longrightarrow> does report_known (advance_loop env opts fuel n p)"
proof (induction fuel arbitrary: n p)
  case 0
  show ?case by (simp add: does_def report_known_def)
next
  case (Suc fuel)
  show ?case
    unfolding does_def
  proof (intro allI impI, goal_cases)
    case (1 w r w')
    obtain x v where round: "advance_round env opts n p w = (x, v)" by (cases "advance_round env opts n p w")
    from doesD [OF round_outcome [OF Suc.prems] round] obtain xs where
      xs: "aw_trace v = aw_trace w @ xs" "outcome_known False x xs" by blast
    show ?case
    proof (cases "\<exists>n' p'. x = Inr (Again n' p')")
      case True
      then obtain n' p' where x: "x = Inr (Again n' p')" by blast
      with xs(2) have "ar_status p' \<in> between_rounds" by (simp add: outcome_known_def)
      note rest = doesD [OF Suc.IH [OF this]]
      from 1 round x have "advance_loop env opts fuel n' p' v = (r, w')" by (simp add: act_bind_Inr)
      from rest [OF this] obtain ys where "aw_trace w' = aw_trace v @ ys" "report_known r ys" by blast
      with xs(1) show ?thesis by (intro exI [of _ "xs @ ys"]) (auto simp: report_known_def)
    next
      case False
      with 1 round xs show ?thesis
        by (cases x) (auto simp: act_bind_def outcome_known_def report_known_def split: round_end.splits)
    qed
  qed
qed

definition status_known :: "string option rresult \<Rightarrow> advance_step list \<Rightarrow> bool" where
  "status_known r new \<longleftrightarrow> (\<forall>s. r = Inr (Some s) \<longrightarrow> s \<in> known_status \<and> (s = ''passed'' \<longrightarrow> entries new \<noteq> []))"

lemma report_gives: "gives (\<lambda>s. s = Some (ar_status p)) (report_status env opts p)"
  unfolding report_status_def by (auto intro!: skips)

lemma reported_known:
  "ar_status p \<in> known_status \<Longrightarrow> ar_status p \<noteq> ''passed'' \<Longrightarrow> does status_known (report_status env opts p)"
  unfolding does_def
proof (intro allI impI, goal_cases)
  case (1 w r w')
  from doesD [OF idling.kept_report 1(3)] obtain new where new: "aw_trace w' = aw_trace w @ new" by blast
  have "r = Inr x \<Longrightarrow> x = Some (ar_status p)" for x
    using report_gives [of p env opts] 1(3) unfolding gives_def by blast
  with new 1(1,2) show ?case by (intro exI [of _ new]) (auto simp: status_known_def)
qed

lemma loop_reported:
  assumes "ar_status p \<in> between_rounds"
  shows "does status_known (act_bind (advance_loop env opts fuel n p) (\<lambda>outcome. case outcome of
       None \<Rightarrow> act_return None | Some p' \<Rightarrow> report_status env opts p'))"
proof (rule does_bind [OF loop_outcome [OF assms], where B = "\<lambda>outcome r new. \<forall>s. r = Inr (Some s) \<longrightarrow> (\<exists>p'. outcome = Some p' \<and> s = ar_status p')"])
  fix outcome
  show "does (\<lambda>r new. \<forall>s. r = Inr (Some s) \<longrightarrow> (\<exists>p'. outcome = Some p' \<and> s = ar_status p'))
    (case outcome of None \<Rightarrow> act_return None | Some p' \<Rightarrow> report_status env opts p')"
  proof (cases outcome)
    case (Some p')
    show ?thesis
      unfolding Some does_def
      using doesD [OF idling.kept_report, of env opts p'] report_gives [of p' env opts]
      by (fastforce simp: gives_def)
  qed (simp add: does_def)
qed (auto simp: status_known_def report_known_def)

lemma run_reported: "does status_known (run_pulse_auto_advance env opts fuel)"
proof -
  have before: "does status_known (act_bind m f)" if "does (\<lambda>r. idle) m" "\<And>x. does status_known (f x)" for m :: "'b advance_act" and f
    by (rule does_bind [where A = "\<lambda>r. idle" and B = "\<lambda>x. status_known"]) (use that in \<open>auto simp: status_known_def idle_def\<close>)
  have start: "ar_status (run_start opts t) \<in> between_rounds" for t by (simp add: run_start_def)
  show ?thesis
    unfolding run_pulse_auto_advance_def Let_def
    using start
    by (auto intro!: before [OF idling.kept_prepare] before [OF idling.kept_now] before [OF idling.kept_look]
        reported_known loop_reported simp: ended_as_def because_def)
qed

text \<open>C16: The status of a run is one of \<open>passed\<close>, \<open>failed\<close>, \<open>stopped\<close> and \<open>waiting\<close>, never the
  \<open>running\<close> of a round under way, and it is \<open>passed\<close> only when a document was entered in the
  ledger, which takes a round whose tasks all passed.\<close>

theorem status_is_known:
  assumes "run_pulse_auto_advance env opts fuel w = (Inr (Some s), w')"
  shows "s \<in> {''passed'', ''failed'', ''stopped'', ''waiting''}
    \<and> (\<exists>new. aw_trace w' = aw_trace w @ new \<and> (s = ''passed'' \<longrightarrow> entries new \<noteq> []))"
  using doesD [OF run_reported assms] by (auto simp: status_known_def known_status_def)

end
