(* ===== verification/Pulse_Example.thy ===== *)
theory Pulse_Example
  imports Pulse_Ledger Pulse_Status
begin

text \<open>
  The pulse automation on a concrete world: two documents, the second of which is generated after
  the first has been worked on.  The runs discharge the hypotheses of the theorems about rounds
  and about the ledger; the last ones show runs whose report misleads.
\<close>

definition work_document :: "string list \<Rightarrow> json" where
  "work_document commands = JObject [(''recommended_tasks'',
     JArray (map (\<lambda>c. JObject [(''id'', JString c), (''command'', JString c)]) commands))]"

definition resume_document :: "string \<Rightarrow> json" where
  "resume_document digest = JObject [(''pulse_eval_loop_path'', JString ''eval.json''),
     (''pulse_eval_loop_sha256'', JString digest),
     (''auto_advance'', JObject [(''continue_until_exit_gate'', JBool True)])]"

definition example_entry :: "string \<Rightarrow> nat \<Rightarrow> ledger_entry" where
  "example_entry digest n = \<lparr>le_generated_at_utc = ''now'', le_eval_path = ''run/eval.json'',
     le_eval_sha256 = digest, le_status = ''passed'', le_task_count = n\<rparr>"

definition advance_parse :: "string \<Rightarrow> json rresult" where
  "advance_parse t =
     (if t = ''resume 1'' then Inr (resume_document ''sha eval 1'')
      else if t = ''resume 2'' then Inr (resume_document ''sha eval 2'')
      else if t = ''eval 1'' then Inr (work_document [''make it'', ''test it''])
      else if t = ''eval 2'' then Inr (work_document [''ship it''])
      else if t = ''entry 1'' then Inr (ledger_entry_json (example_entry ''sha eval 1'' 2))
      else if t = ''entry 2'' then Inr (ledger_entry_json (example_entry ''sha eval 2'' 1))
      else Inl ''not JSON'')"

definition advance_line :: "json \<Rightarrow> string rresult" where
  "advance_line v =
     (if v = ledger_entry_json (example_entry ''sha eval 1'' 2) then Inr ''entry 1''
      else if v = ledger_entry_json (example_entry ''sha eval 2'' 1) then Inr ''entry 2''
      else Inl ''not an entry'')"

text \<open>Every command ends with the code that is given; generating the next packet leaves the second
  document and the resume document that is given.\<close>

definition advance_command :: "string \<Rightarrow> (string list \<Rightarrow> int) \<Rightarrow> nat \<Rightarrow> string list \<Rightarrow> (string \<times> string) list \<Rightarrow> pulse_tree \<Rightarrow>
    command_end rresult \<times> pulse_tree" where
  "advance_command resume code k parts envs files =
     (Inr \<lparr>ce_code = Some (code parts), ce_success = code parts = 0, ce_show = [], ce_stdout = [], ce_stderr = []\<rparr>,
      if parts = [''npm'', ''run'', ''pulse:generate-next'']
      then files(''run/resume.json'' \<mapsto> Readable resume, ''run/eval.json'' \<mapsto> Readable ''eval 2'') else files)"

definition advance_example :: "string \<Rightarrow> (string list \<Rightarrow> int) \<Rightarrow> advance_env" where
  "advance_example resume code = \<lparr>ae_parse = advance_parse, ae_pretty = (\<lambda>v. Inr ''report''), ae_line = advance_line,
     ae_sha256 = (\<lambda>b. ''sha '' @ b), ae_lossy = (\<lambda>b. b), ae_lower = (\<lambda>s. s), ae_alnum = (\<lambda>c. c \<noteq> '' ''),
     ae_now = (\<lambda>k. ''now''), ae_stamp = (\<lambda>k. 7), ae_fault = (\<lambda>k. None), ae_undeleted = (\<lambda>k p. False),
     ae_run = advance_command resume code, ae_pass = (\<lambda>k n files. files)\<rparr>"

definition advance_example_options :: "bool \<Rightarrow> advance_options" where
  "advance_example_options forever = \<lparr>ao_resume_json = ''run/resume.json'', ao_out_dir = ''out'',
     ao_ledger = ''state/ledger.jsonl'', ao_stop_file = ''stop'',
     ao_max_iterations_opt = Some (Suc (Suc 0)), ao_allow_duplicate = False, ao_forever = forever, ao_sleep_seconds = 5,
     ao_generate_next = 1, ao_generate_next_sleep_opt = None, ao_pr_ci_gate = 1, ao_pr_ci_gate_state = ''gate.json'',
     ao_update_gate = 1, ao_local_only = True, ao_direct_main = True, ao_apply_root = ''repo''\<rparr>"

definition advance_start :: "string \<Rightarrow> advance_world" where
  "advance_start resume = \<lparr>aw_draws = 0,
     aw_files = (\<lambda>p. None)(''run/resume.json'' \<mapsto> Readable resume, ''run/eval.json'' \<mapsto> Readable ''eval 1''),
     aw_trace = []\<rparr>"

subsection \<open>Evaluating a run\<close>

text \<open>The simplifier evaluates a run from the front: an action is only entered when the state it runs in
  is known, and the report that is written is left as it is.\<close>

definition then_do :: "'a rresult \<times> 's \<Rightarrow> ('a \<Rightarrow> ('s, 'b) act) \<Rightarrow> 'b rresult \<times> 's" where
  "then_do r f = (case r of (Inl e, s') \<Rightarrow> (Inl e, s') | (Inr x, s') \<Rightarrow> f x s')"

lemma then_do_simps: "then_do (Inr x, s) f = f x s" "then_do (Inl e, s) f = (Inl e, s)"
  by (simp_all add: then_do_def)

lemma act_bind_then: "act_bind m f s = then_do (m s) f"
  by (simp add: act_bind_def then_do_def)

lemma lazy_bind: "s = s' \<Longrightarrow> act_bind m f s = act_bind m f s'" by simp
lemma lazy_then: "r = r' \<Longrightarrow> then_do r f = then_do r' f" by simp
lemma lazy_let: "v = v' \<Longrightarrow> Let v f = Let v' f" by simp
lemma lazy_pair: "p = p' \<Longrightarrow> case_prod f p = case_prod f p'" by simp


lemma no_slash: "\<not> suffix ''/'' ''out''" "\<not> suffix ''/'' ''run''" "\<not> suffix ''/'' ''out/logs''" "\<not> suffix ''/'' ''out/direct-main-publish''"
  by code_simp+

lemma paths_joined:
  "c \<noteq> CHR ''/'' \<Longrightarrow> path_join ''out'' (c # cs) = ''out/'' @ c # cs"
  "c \<noteq> CHR ''/'' \<Longrightarrow> path_join ''run'' (c # cs) = ''run/'' @ c # cs"
  "c \<noteq> CHR ''/'' \<Longrightarrow> path_join ''out/logs'' (c # cs) = ''out/logs/'' @ c # cs"
  "c \<noteq> CHR ''/'' \<Longrightarrow> path_join ''out/direct-main-publish'' (c # cs) = ''out/direct-main-publish/'' @ c # cs"
  using no_slash by (simp_all add: path_join_def)

lemma env_simps:
  "ae_parse (advance_example resume code) = advance_parse" "ae_line (advance_example resume code) = advance_line"
  "ae_sha256 (advance_example resume code) b = ''sha '' @ b" "ae_lossy (advance_example resume code) b = b"
  "ae_lower (advance_example resume code) t = t" "ae_alnum (advance_example resume code) c = (c \<noteq> '' '')"
  "ae_now (advance_example resume code) k = ''now''" "ae_stamp (advance_example resume code) k = 7"
  "ae_fault (advance_example resume code) k = None"
  "ae_run (advance_example resume code) = advance_command resume code"
  "ae_pass (advance_example resume code) k n files = files"
  "ae_pretty (advance_example resume code) v = Inr ''report''"
  by (simp_all add: advance_example_def)

lemma strings_evaluated: "utf8_valid ''resume 1''" "utf8_valid ''resume 2''" "utf8_valid ''eval 1''" "utf8_valid ''eval 2''"
  "split_command ''make it'' = [''make'', ''it'']" "split_command ''test it'' = [''test'', ''it'']"
  "split_command ''ship it'' = [''ship'', ''it'']"
  "split_command ''npm run pulse:generate-next'' = [''npm'', ''run'', ''pulse:generate-next'']"
  "split_command ''npm run pulse:direct-main-publish'' = [''npm'', ''run'', ''pulse:direct-main-publish'']"
  "split_command ''npm run pulse:pr-ci-gate:update'' = [''npm'', ''run'', ''pulse:pr-ci-gate:update'']"
  "show_int 7 = ''7''" "path_parent ''run/resume.json'' = Some ''run''" "path_parent ''run/eval.json'' = Some ''run''"
  "path_parent ''state/ledger.jsonl'' = Some ''state''"
  by code_simp+

lemma task_logs:
  "task_log (advance_example resume code) (advance_example_options forever) (Suc 0) (Suc 0) ''make it'' = ''out/logs/iteration-01-01-make_it.log''"
  "task_log (advance_example resume code) (advance_example_options forever) (Suc 0) (Suc (Suc 0)) ''test it'' = ''out/logs/iteration-01-02-test_it.log''"
  "task_log (advance_example resume code) (advance_example_options forever) (Suc (Suc 0)) (Suc 0) ''ship it'' = ''out/logs/iteration-02-01-ship_it.log''"
  by code_simp+

lemma opts_simps:
 "ao_resume_json (advance_example_options forever) = ''run/resume.json''"
 "ao_stop_file (advance_example_options forever) = ''stop''"
 "ao_ledger (advance_example_options forever) = ''state/ledger.jsonl''"
 "ao_out_dir (advance_example_options forever) = ''out''"
 "ao_allow_duplicate (advance_example_options forever) = False"
 "ao_forever (advance_example_options forever) = forever"
 "ao_generate_next (advance_example_options forever) = 1"
 "ao_pr_ci_gate (advance_example_options forever) = 1"
 "ao_pr_ci_gate_state (advance_example_options forever) = ''gate.json''"
 "ao_update_gate (advance_example_options forever) = 1"
 "ao_local_only (advance_example_options forever) = True"
 "ao_direct_main (advance_example_options forever) = True"
 "ao_sleep_seconds (advance_example_options forever) = 5"
 "ao_generate_next_sleep_opt (advance_example_options forever) = None"
 "ao_max_iterations_opt (advance_example_options forever) = Some (Suc (Suc 0))"
  by (simp_all add: advance_example_options_def)

lemmas machine = act_bind_then then_do_simps act_return_simp act_lift_simp look_def next_draw_def note_step_def set_files_def
  system_call_def put_node_def create_dir_all_def clear_dir_def utc_now_def stamp_def sleep_def write_summary_def sha256_path_def
  run_command_str_in_dir_def verdict_def gate_unchecked_def run_start_def because_def ended_as_def logs_dir_def stamped_def
  write_heartbeat_def generation_waits_def refresh_pr_ci_gate_def generate_command_def load_gate_def generate_local_only_def
  generate_normally_def pulse_generate_next_def pulse_direct_main_publish_def resume_parent_def read_json_def gather_evidence_def
  eval_matches_def prompt_matches_def report_evidence_def continues_until_exit_gate_def evidence_refusal_def decided_to_stop_def
  task_command_def command_result_def run_recommended.simps run_manifest_def all_passed_def recommended_tasks_def manifest_path_def
  announce_tasks_def execute_tasks_def append_ledger_def conclude_round_def work_on_tasks_def work_round_def duplicate_round_def
  verified_round_def advance_round_def advance_loop.simps prepare_dirs_def report_status_def run_pulse_auto_advance_def
  max_iterations_def generate_sleep_def

lemmas world = advance_world.select_convs advance_world.update_convs advance_run.select_convs advance_run.update_convs
  round_evidence.select_convs command_end.select_convs ledger_entry.select_convs pr_ci_gate.select_convs pr_ci_gate.update_convs task_result.select_convs publish_info.select_convs

lemmas data = Let_def if_True if_False simp_thms prod.case sum.case option.case list.case file_node.case round_end.case bool.case
  list.inject list.distinct char.inject option.inject option.distinct sum.inject sum.distinct prod.inject json.inject json.distinct
  fun_upd_apply append.simps list.map concat.simps comp_def list.pred_inject list.size fst_conv snd_conv
  map_of.simps json_get.simps as_str.simps as_bool.simps as_array.simps get_str_def get_str_or_def Option.bind.simps with_context_def rbind_def
  option.map node_is_file.simps read_bytes.simps read_text_def One_nat_def nat.inject nat.distinct


lemma ledger_lines: "str_lines (''entry 1'' @ nl) = [''entry 1'']" "str_lines (''entry 1'' @ ''entry 2'' @ nl) = [''entry 1entry 2'']"
  "str_lines ((''entry 1'' @ nl) @ ''entry 2'' @ nl) = [''entry 1'', ''entry 2'']" "utf8_valid (''entry 1'' @ nl)" "utf8_valid ((''entry 1'' @ nl) @ ''entry 2'' @ nl)"
  by code_simp+

lemmas ledger_texts = ledger_lines [unfolded nl_def append.simps]

lemma entries_trimmed: "trim ''entry 1'' = ''entry 1''" "trim ''entry 2'' = ''entry 2''"
  by code_simp+

lemma map_filters: "List.map_filter f [] = []" "List.map_filter f (x # xs) = (case f x of None \<Rightarrow> List.map_filter f xs | Some y \<Rightarrow> y # List.map_filter f xs)"
  by (simp_all add: map_filter_simps)

lemma members: "x \<in> set [] \<longleftrightarrow> False" "x \<in> set (y # ys) \<longleftrightarrow> x = y \<or> x \<in> set ys"
  by simp_all

lemmas facts = ledger_texts entries_trimmed map_filters members load_seen_def ledger_digest_def ledger_entry_json_def example_entry_def json_nat_def
  json_number.inject nl_def add_0 add_0_right add_Suc_right numeral_2_eq_2 advance_line_def executor_command_def pulse_generate_next_def waiting_reason_def load_pr_ci_gate_def gate_start_def exit_code_def le0 Suc_le_mono not_less_eq zero_less_Suc less_Suc_eq_0_disj Suc_n_not_le_n entries_simps entry_of.simps

lemmas evaluate = machine world data strings_evaluated task_logs paths_joined env_simps opts_simps advance_start_def
    advance_parse_def resume_document_def work_document_def advance_command_def facts

lemmas lazily = lazy_bind lazy_then lazy_let lazy_pair if_weak_cong option.case_cong_weak sum.case_cong_weak list.case_cong_weak file_node.case_cong_weak round_end.case_cong_weak

subsection \<open>The theorems on the runs\<close>

lemma example_respects_ledger: "ledger_respected (advance_example resume code) (advance_example_options forever)"
proof -
  have "set ''entry 1'' \<inter> {CHR 0x0A, CHR 0x0D} = {}" "set ''entry 2'' \<inter> {CHR 0x0A, CHR 0x0D} = {}"
    "utf8_valid ''entry 1''" "utf8_valid ''entry 2''" "trim ''entry 1'' \<noteq> []" "trim ''entry 2'' \<noteq> []"
    by code_simp+
  moreover have "advance_parse ''entry 1'' = Inr (ledger_entry_json (example_entry ''sha eval 1'' 2))"
    "advance_parse ''entry 2'' = Inr (ledger_entry_json (example_entry ''sha eval 2'' 1))"
    by (simp_all add: advance_parse_def)
  moreover have "advance_line v = Inr line \<Longrightarrow>
      line = ''entry 1'' \<and> v = ledger_entry_json (example_entry ''sha eval 1'' 2)
      \<or> line = ''entry 2'' \<and> v = ledger_entry_json (example_entry ''sha eval 2'' 1)" for v line
    unfolding advance_line_def by (metis sum.inject(2) sum.distinct(1))
  moreover have "ledger_le (files ''state/ledger.jsonl'') (snd (advance_command resume code k args envs files) ''state/ledger.jsonl'')"
    for k args envs files by (simp add: advance_command_def)
  ultimately show ?thesis
    unfolding ledger_respected_def env_simps opts_simps
    by (intro conjI allI impI) (force | simp)+
qed

definition two_rounds :: "string option rresult \<times> advance_world" where
  "two_rounds = run_pulse_auto_advance (advance_example ''resume 2'' (\<lambda>p. 0)) (advance_example_options True) 3
     (advance_start ''resume 1'')"

lemma three: "3 = Suc (Suc (Suc 0))" by simp

lemma two_rounds_end:
  "map le_eval_sha256 (entries (aw_trace (snd two_rounds))) = [''sha eval 1'', ''sha eval 2'']"
  by (simp only: two_rounds_def three evaluate cong: lazily)

lemma two_rounds_eq:
  "run_pulse_auto_advance (advance_example ''resume 2'' (\<lambda>p. 0)) (advance_example_options True) 3
     (advance_start ''resume 1'') = (fst two_rounds, snd two_rounds)"
  by (simp add: two_rounds_def)

lemma two_rounds_passed: "fst two_rounds = Inr (Some ''passed'')"
  by (simp only: two_rounds_def three evaluate cong: lazily)

lemma start_trace: "aw_trace (advance_start resume) = []" and start_ledger: "aw_files (advance_start resume) ''state/ledger.jsonl'' = None"
  by (simp_all add: advance_start_def)

theorem generation_waits_for_the_gate_witness:
  "gated (advance_example_options True) Idle (aw_trace (snd two_rounds))"
  using generation_waits_for_the_gate [OF two_rounds_eq] by (simp add: start_trace)

theorem entries_are_bounded_witness: "length (entries (aw_trace (snd two_rounds))) \<le> 2"
  using entries_are_bounded [OF two_rounds_eq]
  by (simp add: start_trace max_iterations_def advance_example_options_def)

theorem no_document_is_entered_twice_witness:
  "distinct (map le_eval_sha256 (entries (aw_trace (snd two_rounds))))
    \<and> {''sha eval 1'', ''sha eval 2''} \<subseteq> seen_set (advance_example ''resume 2'' (\<lambda>p. 0)) (advance_example_options True) (aw_files (snd two_rounds))"
proof -
  have whole: "ledger_whole (aw_files (advance_start ''resume 1'') (ao_ledger (advance_example_options True)))"
    and fresh: "ao_allow_duplicate (advance_example_options True) = False"
    by (simp_all add: advance_example_options_def start_ledger ledger_whole_def whole_lines_def)
  have set: "le_eval_sha256 ` set (entries (aw_trace (snd two_rounds))) = {''sha eval 1'', ''sha eval 2''}"
    by (simp only: image_set two_rounds_end) simp
  from no_document_is_entered_twice [OF example_respects_ledger fresh whole two_rounds_eq]
  show ?thesis by (simp add: start_trace set)
qed

theorem status_is_known_witness: "entries (aw_trace (snd two_rounds)) \<noteq> []"
  using status_is_known [OF two_rounds_eq [unfolded two_rounds_passed]] by (auto simp: start_trace)

theorem single_run_ends_witness:
  "run_pulse_auto_advance (advance_example ''resume 2'' (\<lambda>p. 0)) (advance_example_options False) 5 (advance_start ''resume 1'')
    = run_pulse_auto_advance (advance_example ''resume 2'' (\<lambda>p. 0)) (advance_example_options False) 1 (advance_start ''resume 1'')"
  using single_run_ends [of "advance_example_options False" "advance_example ''resume 2'' (\<lambda>p. 0)" 4 "advance_start ''resume 1''"]
  by (simp add: advance_example_options_def eval_nat_numeral)

definition first_round :: "round_end rresult \<times> advance_world" where
  "first_round = advance_round (advance_example ''resume 2'' (\<lambda>p. 0)) (advance_example_options True) 0
     (run_start (advance_example_options True) ''now'') (advance_start ''resume 1'')"

lemma first_round_works:
  "work_steps (aw_trace (snd first_round)) = [Ran TaskCommand ''make it'' [] 0, Ran TaskCommand ''test it'' [] 0]"
  by (simp only: first_round_def evaluate work_steps_simps is_work.simps advance_role.distinct cong: lazily)

lemma first_round_eq:
  "advance_round (advance_example ''resume 2'' (\<lambda>p. 0)) (advance_example_options True) 0
     (run_start (advance_example_options True) ''now'') (advance_start ''resume 1'') = (fst first_round, snd first_round)"
  by (simp add: first_round_def)

theorem work_needs_a_verified_document_witness:
  "\<exists>digest tasks. verified_document (advance_example ''resume 2'' (\<lambda>p. 0)) (advance_example_options True)
       (aw_files (advance_start ''resume 1'')) digest tasks
     \<and> tasks_ran tasks (entries (aw_trace (snd first_round)) \<noteq> [])
         [Ran TaskCommand ''make it'' [] 0, Ran TaskCommand ''test it'' [] 0]"
  using work_needs_a_verified_document [OF first_round_eq] by (auto simp: start_trace first_round_works)

subsection \<open>Reports that mislead\<close>

text \<open>When the second document does not have the digest its resume document states, the run stops, but
  its status is still the one of the round before.\<close>

lemma mismatch_after_a_round_is_waiting:
  "fst (run_pulse_auto_advance (advance_example ''resume 1'' (\<lambda>p. 0)) (advance_example_options True) 3 (advance_start ''resume 1''))
    = Inr (Some ''waiting'')"
  by (simp only: three evaluate cong: lazily)

text \<open>In the first round the same mismatch is a failure.\<close>

lemma mismatch_at_once_is_failed:
  "fst (run_pulse_auto_advance (advance_example ''resume 1'' (\<lambda>p. 0)) (advance_example_options True) 3 (advance_start ''resume 2''))
    = Inr (Some ''failed'')"
  by (simp only: three evaluate cong: lazily)

text \<open>A ledger whose last line is torn hides the next entry as well: the two make one line, which
  cannot be read, and both documents may be entered again.\<close>

lemma torn_ledger_hides_an_entry:
  "load_seen (advance_example resume code) [''state/ledger.jsonl'' \<mapsto> Readable (''entry 1'' @ ''entry 2'' @ nl)] ''state/ledger.jsonl'' = []"
proof -
  have "utf8_valid (''entry 1'' @ ''entry 2'' @ nl)" "trim ''entry 1entry 2'' \<noteq> []" by code_simp+
  then show ?thesis
    by (simp add: load_seen_def read_text_def rbind_def ledger_lines(2) ledger_digest_def env_simps advance_parse_def map_filters
        del: append.simps)
qed

end
