(* ===== verification/Spec2Isabelle.thy ===== *)
theory Spec2Isabelle
  imports Policy_Redact Policy_Gate Atomic_Write Obligations Sdd_Dispatch Sdd_Context Sdd_Orchestrator Publication_System
    Run_Evidence Replay_Example Pulse_Example
begin

text \<open>
  \<^bold>\<open>AO2\<close> runs coding agents under governance: a plan is made and validated, its tasks become a
  run, a provider works on each task in a sandbox, its patch reaches the repository only
  under an approval of the exact digest, a verifier decides about the result, and what
  happened is left as evidence.  This library models that core, the crates
  \<open>ao2-core\<close>, \<open>ao2-policy\<close>, \<open>sdd-planner\<close>, \<open>ao2-runtime\<close>, the sandbox patch of
  \<open>ao2-adapters\<close> and the run command of \<open>ao2-cli\<close>, and proves what makes it trustworthy.
  Paths below are relative to \<open>src/\<close>.

  \<^bold>\<open>Conventions.\<close>  A Rust string is the list of its UTF-8 bytes; a \<open>Result\<close> is \<open>rresult\<close>, a sum whose
  left side is the message of the error; fallible code with state is an \<open>act\<close>, a function
  from the state to the result and the next state, composed with \<open>act_bind\<close>, so that the
  state reached by a failing step is kept.  Machine integers whose overflow matters are
  words (the token counts of \<open>Run_Review\<close>, the obligation counters), the others are \<open>nat\<close> or \<open>int\<close>.  Code that is not in the
  repository is an argument: SHA-256, the serializers of JSON and YAML, the clock, fresh
  identifiers, Git, \<open>gh\<close> and the shell, provider programs, Unicode tables.  It is passed as a function or
  gathered in a record (\<open>run_env\<close>, \<open>run_host\<close>, \<open>patch_env\<close>, \<open>apply_env\<close> and the records of
  the publication), and what the code relies on is a named hypothesis
  (\<open>confined\<close>, \<open>healthy\<close>).  Calls that may differ each time read a counter of draws.

  \<^bold>\<open>Foundation.\<close>  \<open>Rust_Prelude\<close> has the strings, results and lists everything shares;
  \<open>Btree_Map\<close> is \<open>BTreeMap\<close> behind the locale \<open>dictionary\<close>; \<open>Json_Value\<close> is
  \<open>serde_json::Value\<close> with the two canonical encoders, proved equal, and the strict
  duplicate-free decoder; \<open>File_Tree\<close> holds the directory trees that are walked.

  \<^bold>\<open>Policy and evidence.\<close>  \<open>Policy_Redact\<close> is the secret redaction of
  \<open>crates/ao2-policy/src/lib.rs\<close>: three scanning loops under the locales \<open>secret_scan\<close> and
  \<open>counted_scan\<close>; no token prefix survives, and text without a hit is left alone.
  \<open>Policy_Gate\<close> has the core types, the risk rule and the grant that binds a ticket to the
  digest of a request.  \<open>Atomic_Write\<close> proves \<open>atomic_write\<close> safe against a crash between any
  two of its system calls.  \<open>Obligations\<close> is the ledger of \<open>obligations.rs\<close>: extraction,
  check against a source tree, verdict.

  \<^bold>\<open>Planning.\<close>  \<open>Sdd_Schema\<close>, \<open>Sdd_Cycles\<close> and \<open>Sdd_Validator\<close> hold the plan and its validator, which is proved to
  refine the declarative \<open>valid_plan\<close>; the depth-first search is behind the locale
  \<open>cycle_report\<close>.  \<open>Sdd_Surface\<close> and \<open>Sdd_Context\<close> scan a repository and shrink it to a token
  budget, \<open>Sdd_Orchestrator\<close> is the loop of at most three attempts, and \<open>Sdd_Dispatch\<close>
  translates an accepted plan for the two runners.

  \<^bold>\<open>Running.\<close>  \<open>Task_Order\<close> is the scheduler that both the command line and the runtime
  implement, as the locale \<open>scheduler\<close> with an interpretation for each: an order exists exactly
  when there is no cycle, and it respects the dependencies.  \<open>Run_Spec\<close>, \<open>Run_Workflow\<close> and \<open>Run_Evidence\<close> are
  \<open>crates/ao2-cli/src/run_execution.rs\<close>: the run document, the workflow written for the runtime,
  and the records of what its tasks did.  \<open>Sandbox_Patch\<close> compares a sandbox with the
  repository and applies the difference.  The runtime, \<open>crates/ao2-runtime/src/lib.rs\<close>, follows its call
  graph: \<open>Run_State\<close> (the context, events, artifacts, record and approvals),
  \<open>Run_Review\<close> (verifier, reviews, closures), \<open>Run_Patch\<close>
  (\<open>apply_provider_prompt_patch_for_role\<close>, the gate in front of the repository),
  \<open>Run_Engine\<close> (task graph and repair loop), \<open>Run_Free\<close> (runs without a provider and
  the demonstration template), \<open>Run_Report\<close> (health, evidence pack, page), \<open>Run_Start\<close>
  (start, approve, resume, whole runs).

  The state of a run, \<open>run_ctx\<close>, is \<open>RunContext\<close> together with what its directory holds: the
  artifacts' contents by path, the record, the approvals and the consumed tickets decoded,
  the repository and its sandboxes as trees, and a trace of the steps in order.
  A contract of a stage is a reflexive and transitive relation between the states around
  it that holds on success and on failure alike; \<open>Run_Contract\<close>, \<open>Run_Review\<close> and \<open>Run_Engine\<close> state as locales
  (\<open>run_steps\<close>, \<open>artifact_blind\<close>, \<open>run_relation\<close>, \<open>working_relation\<close>,
  \<open>closing_relation\<close>, \<open>patch_relation\<close>, \<open>workflow_relation\<close>) which elementary steps must keep it, and every relation of the
  proofs is an interpretation: \<open>quiet\<close> (applies no patch), \<open>ledger\<close>, \<open>growing\<close>, \<open>static\<close>,
  \<open>pending\<close>, \<open>idle\<close> and \<open>allowed\<close> (commands), \<open>noting\<close>, \<open>controlled\<close>, \<open>stored\<close>, \<open>clerical\<close>.

  \<open>Run_Safety\<close> shows that no patch is applied without its approval and that the repository
  changes by patches only; \<open>Run_Outcome\<close> what an accepted and a rejected run say of the
  repository and of the attempts spent; \<open>Run_Liveness\<close> that in a healthy environment an
  approved patch is applied and the run accepted; \<open>Run_Resume\<close> carries these through
  \<open>resume\<close>, and \<open>Run_Whole\<close> through a whole unattended run.  \<open>Run_Example\<close> has the concrete
  runs that witness them, and the one that uses a consumed ticket again.

  \<^bold>\<open>Publication.\<close>  \<open>Publication_Syntax\<close>, \<open>Publication_Contracts\<close>, \<open>Publication_Plan\<close>,
  \<open>Publication_Apply\<close> and \<open>Publication_System\<close> are \<open>github_issue_publication.rs\<close>: the
  authority documents, the plan that binds them, the state machine that publishes over the locale
  \<open>publication_transport\<close>, and the commands of \<open>SystemTransport\<close> that interpret it.

  \<^bold>\<open>Pulse.\<close>  \<open>crates/ao2-runtime/src/pulse_event_loop.rs\<close> keeps agents working without an
  operator.  \<open>Pulse_Loop\<close> has the command-line splitter, the decisions and the event loop that runs a
  command until a decision ends the chain; \<open>Pulse_Gate\<close> the gate on pull requests and checks;
  \<open>Pulse_Advance\<close> \<open>run_pulse_auto_advance\<close>, round by round, over a world of files that only commands,
  sleeping and the program's own writes change, with a trace of the steps.  \<open>Pulse_Rounds\<close> shows that
  generation waits for the gate and that tasks run only on verified documents, with the contracts of
  the steps as the locales \<open>trace_law\<close>, \<open>work_law\<close> and \<open>round_law\<close>; \<open>Pulse_Ledger\<close> that no document is entered
  twice; \<open>Pulse_Status\<close> what the reported status says; \<open>Pulse_Example\<close> the concrete runs.

  \<^bold>\<open>Bounds and fuel.\<close>  Loops are structural recursion, on the list or on the number of
  attempts left, or have a termination proof; the breadth-first and depth-first searches
  decrease the number of unvisited steps.  Two loops of the program need not end and have fuel:
  \<open>auto_approve\<close>, where a provider may ask for a new patch in each round, and the rounds of the pulse
  automation, which may be told to go on for ever.  The fuel counts rounds, and \<open>None\<close> stands for
  fuel that did not suffice; a pulse run that is not to go on is proved to end with one round.

  \<^bold>\<open>Not modelled.\<close>  Child processes are reduced to how they ended and what they printed; the
  provider programs (\<open>ao2-adapter-claude\<close>, \<open>ao2-adapter-codex\<close>) are an argument.  The lock between
  processes and the search for a ticket among several run directories are left out: a
  state is one directory.  The host is Unix.  Replay and the hosted
  release contract are still open.  The rest of \<open>ao2-cli\<close> (workbench, plugin, release,
  factory and control-plane commands) builds reports from files and has no state of its own.
\<close>

end
